(* ===== verification/Prelude.thy ===== *)
theory Prelude
  imports Main "HOL-Library.Word" "HOL-Library.Multiset"
begin

text \<open>
  Shared vocabulary of the development: the machine integer types, results and
  unwinding as values, the parts of Rust's standard library the models need (checked
  and saturating arithmetic, UTF-8 validity and character boundaries, trimming, decimal
  text, little-endian bytes), and the list lemmas several components use.
  Bytes and text are both \<open>char list\<close>: a HOL \<open>char\<close> is exactly one byte.
\<close>

named_theorems std_defs \<open>unfolding equations of the standard-library models\<close>
named_theorems ok_intros \<open>facts of the form: this operation returns Ok\<close>

section \<open>Types\<close>

type_synonym u8 = "8 word"
type_synonym u16 = "16 word"
type_synonym u32 = "32 word"
type_synonym u64 = "64 word"
type_synonym i16 = "16 word"
type_synonym pcm = "16 word list"
type_synonym byte = char
type_synonym bytes = "char list"
type_synonym instant = nat   \<comment> \<open>nanoseconds since the process started\<close>
type_synonym duration = nat  \<comment> \<open>nanoseconds\<close>

abbreviation Ok :: "'a \<Rightarrow> 'e + 'a" where "Ok \<equiv> Inr"
abbreviation Err :: "'e \<Rightarrow> 'e + 'a" where "Err \<equiv> Inl"

definition is_ok :: "'e + 'a \<Rightarrow> bool" where
  "is_ok r = (case r of Inl _ \<Rightarrow> False | Inr _ \<Rightarrow> True)"

lemma is_ok_simps [simp]: "is_ok (Ok x)" "\<not> is_ok (Err e)"
  by (simp_all add: is_ok_def)

lemma is_ok_iff: "is_ok r \<longleftrightarrow> (\<exists>x. r = Ok x)"
  by (cases r) auto

text \<open>The question-mark operator: the first error is returned, otherwise go on.\<close>

fun and_then :: "'e + 'a \<Rightarrow> ('a \<Rightarrow> 'e + 'b) \<Rightarrow> 'e + 'b" where
  "and_then (Inl e) f = Inl e"
| "and_then (Inr x) f = f x"

lemma and_then_Ok_iff: "and_then r f = Ok y \<longleftrightarrow> (\<exists>x. r = Ok x \<and> f x = Ok y)"
  by (cases r) auto

lemma and_then_Err_iff:
  "and_then r f = Err e \<longleftrightarrow> r = Err e \<or> (\<exists>x. r = Ok x \<and> f x = Err e)"
  by (cases r) auto

fun map_err :: "('e \<Rightarrow> 'f) \<Rightarrow> 'e + 'a \<Rightarrow> 'f + 'a" where
  "map_err g (Inl e) = Inl (g e)"
| "map_err g (Inr x) = Inr x"

lemma map_err_Ok_iff [simp]: "map_err g r = Ok x \<longleftrightarrow> r = Ok x"
  by (cases r) auto

definition ok_or :: "'a option \<Rightarrow> 'e \<Rightarrow> 'e + 'a" where
  "ok_or o' e = (case o' of None \<Rightarrow> Err e | Some x \<Rightarrow> Ok x)"

text \<open>A call under \<open>catch_unwind\<close> either returns or unwinds.\<close>

datatype 'a unwind = Returned 'a | Panicked

section \<open>Machine arithmetic\<close>

definition checked_add :: "'l::len word \<Rightarrow> 'l word \<Rightarrow> 'l word option" where
  "checked_add a b = (if unat a + unat b < 2 ^ LENGTH('l) then Some (a + b) else None)"

definition checked_mul :: "'l::len word \<Rightarrow> 'l word \<Rightarrow> 'l word option" where
  "checked_mul a b = (if unat a * unat b < 2 ^ LENGTH('l) then Some (a * b) else None)"

definition saturating_add :: "'l::len word \<Rightarrow> 'l word \<Rightarrow> 'l word" where
  "saturating_add a b = (if unat a + unat b < 2 ^ LENGTH('l) then a + b else - 1)"

definition saturating_mul :: "'l::len word \<Rightarrow> 'l word \<Rightarrow> 'l word" where
  "saturating_mul a b = (if unat a * unat b < 2 ^ LENGTH('l) then a * b else - 1)"

lemma checked_add_Some: "checked_add a b = Some c \<Longrightarrow> unat c = unat a + unat b"
  for a b c :: "'l::len word"
  by (auto simp: checked_add_def unat_word_ariths split: if_splits)

lemma checked_mul_Some: "checked_mul a b = Some c \<Longrightarrow> unat c = unat a * unat b"
  for a b c :: "'l::len word"
  by (auto simp: checked_mul_def unat_word_ariths split: if_splits)

lemma unat_saturating_add:
  "unat (saturating_add a b) = min (unat a + unat b) (2 ^ LENGTH('l) - 1)"
  for a b :: "'l::len word"
proof -
  have "unat (- 1 :: 'l word) = 2 ^ LENGTH('l) - 1"
    by (simp add: unsigned_minus_1_eq_mask mask_eq_exp_minus_1)
  then show ?thesis
    by (auto simp: saturating_add_def unat_word_ariths)
qed

text \<open>\<open>usize\<close> is 64 bits wide on the supported target; lengths are \<open>nat\<close>.\<close>

definition usize_max :: nat where "usize_max = 2 ^ 64 - 1"
definition isize_max :: nat where "isize_max = 2 ^ 63 - 1"

definition usize_saturating_add :: "nat \<Rightarrow> nat \<Rightarrow> nat" where
  "usize_saturating_add a b = min (a + b) usize_max"

definition usize_saturating_mul :: "nat \<Rightarrow> nat \<Rightarrow> nat" where
  "usize_saturating_mul a b = min (a * b) usize_max"

definition usize_checked_add :: "nat \<Rightarrow> nat \<Rightarrow> nat option" where
  "usize_checked_add a b = (if a + b \<le> usize_max then Some (a + b) else None)"

definition usize_checked_mul :: "nat \<Rightarrow> nat \<Rightarrow> nat option" where
  "usize_checked_mul a b = (if a * b \<le> usize_max then Some (a * b) else None)"

definition u64_max :: nat where "u64_max = 2 ^ 64 - 1"

definition duration_microseconds :: "duration \<Rightarrow> u64" where
  "duration_microseconds d = (let us = d div 1000 in
     if us \<le> u64_max then of_nat us else of_nat u64_max)"

section \<open>Bytes and text\<close>

definition bv :: "byte \<Rightarrow> nat" where "bv c = of_char c"

lemma bv_less: "bv c < 256"
  by (simp add: bv_def)

lemma bv_char_of: "n < 256 \<Longrightarrow> bv (char_of n) = n"
  by (simp add: bv_def)

lemma bv_char_of_mod [simp]: "bv (char_of n) = n mod 256"
  by (simp add: bv_def)

lemma char_of_bv [simp]: "char_of (bv c) = c"
  by (simp add: bv_def)

definition is_cont :: "byte \<Rightarrow> bool" where
  "is_cont c \<longleftrightarrow> 128 \<le> bv c \<and> bv c \<le> 191"

fun utf8_second3 :: "nat \<Rightarrow> byte \<Rightarrow> bool" where
  "utf8_second3 b c =
     (if b = 224 then 160 \<le> bv c \<and> bv c \<le> 191
      else if b = 237 then 128 \<le> bv c \<and> bv c \<le> 159
      else is_cont c)"

fun utf8_second4 :: "nat \<Rightarrow> byte \<Rightarrow> bool" where
  "utf8_second4 b c =
     (if b = 240 then 144 \<le> bv c \<and> bv c \<le> 191
      else if b = 244 then 128 \<le> bv c \<and> bv c \<le> 143
      else is_cont c)"

text \<open>\<open>str::from_utf8\<close>: the well-formed byte sequences of the Unicode standard.\<close>

fun utf8_valid :: "bytes \<Rightarrow> bool" where
  "utf8_valid [] = True"
| "utf8_valid (c # cs) =
     (if bv c < 128 then utf8_valid cs
      else if 194 \<le> bv c \<and> bv c \<le> 223 then
        (case cs of c1 # r \<Rightarrow> is_cont c1 \<and> utf8_valid r | _ \<Rightarrow> False)
      else if 224 \<le> bv c \<and> bv c \<le> 239 then
        (case cs of c1 # c2 # r \<Rightarrow> utf8_second3 (bv c) c1 \<and> is_cont c2 \<and> utf8_valid r
         | _ \<Rightarrow> False)
      else if 240 \<le> bv c \<and> bv c \<le> 244 then
        (case cs of c1 # c2 # c3 # r \<Rightarrow>
           utf8_second4 (bv c) c1 \<and> is_cont c2 \<and> is_cont c3 \<and> utf8_valid r
         | _ \<Rightarrow> False)
      else False)"

definition is_char_boundary :: "bytes \<Rightarrow> nat \<Rightarrow> bool" where
  "is_char_boundary s i \<longleftrightarrow> i = 0 \<or> i = length s \<or> (i < length s \<and> \<not> is_cont (s ! i))"

text \<open>Cutting valid text at a character boundary leaves valid text.\<close>

lemma not_cont_lead:
  "bv c < 128 \<Longrightarrow> \<not> is_cont c"
  "194 \<le> bv c \<Longrightarrow> \<not> is_cont c"
  by (simp_all add: is_cont_def)

lemma second3_cont: "utf8_second3 b c \<Longrightarrow> is_cont c"
  by (auto simp: is_cont_def split: if_splits)

lemma second4_cont: "utf8_second4 b c \<Longrightarrow> is_cont c"
  by (auto simp: is_cont_def split: if_splits)

lemma utf8_valid_cases:
  assumes "utf8_valid (c # cs)"
  obtains (one) "bv c < 128" "utf8_valid cs"
  | (two) c1 r where "cs = c1 # r" "194 \<le> bv c" "bv c \<le> 223" "is_cont c1" "utf8_valid r"
  | (three) c1 c2 r where "cs = c1 # c2 # r" "224 \<le> bv c" "bv c \<le> 239"
      "utf8_second3 (bv c) c1" "is_cont c2" "utf8_valid r"
  | (four) c1 c2 c3 r where "cs = c1 # c2 # c3 # r" "240 \<le> bv c" "bv c \<le> 244"
      "utf8_second4 (bv c) c1" "is_cont c2" "is_cont c3" "utf8_valid r"
  using assms by (auto simp del: utf8_second3.simps utf8_second4.simps
      split: if_splits list.splits)

lemma boundary_Cons: "is_char_boundary (c # cs) (Suc i) \<Longrightarrow> i \<le> length cs \<and>
  (i = length cs \<or> \<not> is_cont (cs ! i))"
  by (auto simp: is_char_boundary_def)

lemma utf8_valid_take:
  "utf8_valid s \<Longrightarrow> is_char_boundary s i \<Longrightarrow> utf8_valid (take i s)"
proof (induction "length s" arbitrary: s i rule: less_induct)
  case less
  show ?case
  proof (cases s)
    case Nil
    then show ?thesis by simp
  next
    case (Cons c cs)
    note IH = less.hyps
    show ?thesis
    proof (cases i)
      case 0
      then show ?thesis by simp
    next
      case (Suc j)
      have bd: "j \<le> length cs" "j = length cs \<or> \<not> is_cont (cs ! j)"
        using boundary_Cons less.prems(2) Cons Suc by auto
      have step: "utf8_valid (take k r)"
        if "length r < length s" "utf8_valid r" "k \<le> length r"
          "k = length r \<or> \<not> is_cont (r ! k)" for r k
        using IH[of r k] that le_neq_implies_less[of k "length r"]
        by (fastforce simp: is_char_boundary_def)
      from less.prems(1)[unfolded Cons] show ?thesis
      proof (cases rule: utf8_valid_cases)
        case one
        with step[of cs j] bd Cons Suc show ?thesis by simp
      next
        case (two c1 r)
        then obtain k where k: "j = Suc k" using bd by (cases j) auto
        with two step[of r k] bd Cons Suc show ?thesis by simp
      next
        case (three c1 c2 r)
        from three(4) have "is_cont c1" by (rule second3_cont)
        then obtain k where k: "j = Suc (Suc k)" using bd three
          by (cases j; cases "j - 1") auto
        with three step[of r k] bd Cons Suc show ?thesis
          by (simp del: utf8_second3.simps)
      next
        case (four c1 c2 c3 r)
        from four(4) have "is_cont c1" by (rule second4_cont)
        then obtain k where k: "j = Suc (Suc (Suc k))" using bd four
          by (cases j; cases "j - 1"; cases "j - 2") (auto simp: numeral_2_eq_2)
        with four step[of r k] bd Cons Suc show ?thesis
          by (simp del: utf8_second4.simps)
      qed
    qed
  qed
qed

lemma utf8_valid_ascii: "\<forall>c \<in> set s. bv c < 128 \<Longrightarrow> utf8_valid s"
  by (induction s) auto

section \<open>Decimal text\<close>

fun show_nat :: "nat \<Rightarrow> bytes" where
  "show_nat n = (if n < 10 then [char_of (48 + n)]
                 else show_nat (n div 10) @ [char_of (48 + n mod 10)])"

declare show_nat.simps [simp del]

definition is_digit :: "byte \<Rightarrow> bool" where
  "is_digit c \<longleftrightarrow> 48 \<le> bv c \<and> bv c \<le> 57"

text \<open>
  \<open>str::parse\<close> for an unsigned type: an optional plus sign, then at least one digit,
  and the value must not exceed the type's maximum.
\<close>

fun digits_value :: "nat \<Rightarrow> bytes \<Rightarrow> nat option" where
  "digits_value acc [] = Some acc"
| "digits_value acc (c # cs) =
     (if is_digit c then digits_value (acc * 10 + (bv c - 48)) cs else None)"

definition parse_unsigned :: "nat \<Rightarrow> bytes \<Rightarrow> nat option" where
  "parse_unsigned maximum s =
     (let ds = (case s of c # cs \<Rightarrow> if c = CHR ''+'' then cs else s | [] \<Rightarrow> [])
      in if ds = [] then None
         else (case digits_value 0 ds of
                 Some n \<Rightarrow> if n \<le> maximum then Some n else None
               | None \<Rightarrow> None))"

lemma digits_value_append:
  "digits_value acc (xs @ ys) =
     (case digits_value acc xs of None \<Rightarrow> None | Some a \<Rightarrow> digits_value a ys)"
  by (induction xs arbitrary: acc) auto

lemma digit_char: "d < 10 \<Longrightarrow> is_digit (char_of (48 + d)) \<and> bv (char_of (48 + d)) = 48 + d"
  by (simp add: is_digit_def bv_char_of)

lemma show_nat_digits: "\<forall>c \<in> set (show_nat n). is_digit c"
proof (induction n rule: show_nat.induct)
  case (1 n)
  then show ?case
    by (subst show_nat.simps) (auto simp: digit_char)
qed

lemma show_nat_nonempty [simp]: "show_nat n \<noteq> []"
  by (subst show_nat.simps) simp

lemma digits_value_show_nat: "digits_value 0 (show_nat n) = Some n"
proof (induction n rule: show_nat.induct)
  case (1 n)
  show ?case
  proof (cases "n < 10")
    case True
    then show ?thesis by (subst show_nat.simps) (simp add: digit_char)
  next
    case False
    with 1 show ?thesis
      by (subst show_nat.simps) (simp add: digits_value_append digit_char)
  qed
qed

lemma plus_not_digit: "\<not> is_digit (CHR ''+'')"
  by (simp add: is_digit_def bv_def)

lemma parse_show_nat: "n \<le> maximum \<Longrightarrow> parse_unsigned maximum (show_nat n) = Some n"
proof -
  assume n: "n \<le> maximum"
  have "hd (show_nat n) \<noteq> CHR ''+''"
    using show_nat_digits[of n] plus_not_digit
    by (metis hd_in_set show_nat_nonempty)
  then have "(case show_nat n of c # cs \<Rightarrow> if c = CHR ''+'' then cs else show_nat n | [] \<Rightarrow> [])
      = show_nat n"
    by (cases "show_nat n") auto
  then show ?thesis
    using n by (simp add: parse_unsigned_def digits_value_show_nat)
qed

section \<open>Trimming, case folding and splitting\<close>

text \<open>
  \<open>str::trim\<close> removes Unicode white space at both ends. \<open>strip_ws\<close> removes one
  white-space character from the front (its UTF-8 sequence), \<open>strip_ws_rev\<close> one from
  the front of a reversed text.
\<close>

fun strip_ws :: "bytes \<Rightarrow> bytes option" where
  "strip_ws [] = None"
| "strip_ws (c # cs) =
     (if (9 \<le> bv c \<and> bv c \<le> 13) \<or> bv c = 32 then Some cs
      else case cs of
        [] \<Rightarrow> None
      | c1 # r \<Rightarrow>
          if bv c = 194 \<and> (bv c1 = 133 \<or> bv c1 = 160) then Some r
          else case r of
            [] \<Rightarrow> None
          | c2 # r2 \<Rightarrow>
              if (bv c = 225 \<and> bv c1 = 154 \<and> bv c2 = 128)
                \<or> (bv c = 226 \<and> bv c1 = 128 \<and> ((128 \<le> bv c2 \<and> bv c2 \<le> 138)
                     \<or> bv c2 = 168 \<or> bv c2 = 169 \<or> bv c2 = 175))
                \<or> (bv c = 226 \<and> bv c1 = 129 \<and> bv c2 = 159)
                \<or> (bv c = 227 \<and> bv c1 = 128 \<and> bv c2 = 128)
              then Some r2 else None)"

definition strip_ws_rev :: "bytes \<Rightarrow> bytes option" where
  "strip_ws_rev s =
     (case s of [] \<Rightarrow> None
      | c # _ \<Rightarrow>
         (case strip_ws (rev (take 1 s)) of Some [] \<Rightarrow> Some (drop 1 s)
          | _ \<Rightarrow> (case strip_ws (rev (take 2 s)) of Some [] \<Rightarrow> Some (drop 2 s)
          | _ \<Rightarrow> (case strip_ws (rev (take 3 s)) of Some [] \<Rightarrow> Some (drop 3 s)
          | _ \<Rightarrow> None))))"

lemma strip_ws_shorter: "strip_ws s = Some r \<Longrightarrow> length r < length s"
  by (auto elim!: strip_ws.elims split: if_splits list.splits)

lemma strip_ws_rev_shorter: "strip_ws_rev s = Some r \<Longrightarrow> length r < length s"
  by (auto simp: strip_ws_rev_def split: list.splits option.splits)

function trim_start :: "bytes \<Rightarrow> bytes" where
  "trim_start s = (case strip_ws s of None \<Rightarrow> s | Some r \<Rightarrow> trim_start r)"
  by pat_completeness auto
termination by (relation "measure length") (auto dest: strip_ws_shorter)

function trim_rev :: "bytes \<Rightarrow> bytes" where
  "trim_rev s = (case strip_ws_rev s of None \<Rightarrow> s | Some r \<Rightarrow> trim_rev r)"
  by pat_completeness auto
termination by (relation "measure length") (auto dest: strip_ws_rev_shorter)

declare trim_start.simps [simp del] trim_rev.simps [simp del]

definition trim :: "bytes \<Rightarrow> bytes" where
  "trim s = rev (trim_rev (rev (trim_start s)))"

lemma trim_start_Nil [simp]: "trim_start [] = []"
  by (simp add: trim_start.simps)

lemma trim_rev_Nil [simp]: "trim_rev [] = []"
  by (simp add: trim_rev.simps strip_ws_rev_def)

lemma trim_Nil [simp]: "trim [] = []"
  by (simp add: trim_def)

definition to_ascii_lower :: "bytes \<Rightarrow> bytes" where
  "to_ascii_lower s = map (\<lambda>c. if 65 \<le> bv c \<and> bv c \<le> 90 then char_of (bv c + 32) else c) s"

definition eq_ignore_ascii_case :: "bytes \<Rightarrow> bytes \<Rightarrow> bool" where
  "eq_ignore_ascii_case a b \<longleftrightarrow> to_ascii_lower a = to_ascii_lower b"

definition is_ascii_alphanumeric :: "byte \<Rightarrow> bool" where
  "is_ascii_alphanumeric c \<longleftrightarrow>
     is_digit c \<or> (65 \<le> bv c \<and> bv c \<le> 90) \<or> (97 \<le> bv c \<and> bv c \<le> 122)"

text \<open>\<open>str::split_once\<close> at a one-byte separator.\<close>

fun split_once :: "byte \<Rightarrow> bytes \<Rightarrow> (bytes \<times> bytes) option" where
  "split_once d [] = None"
| "split_once d (c # cs) =
     (if c = d then Some ([], cs)
      else map_option (\<lambda>(a, b). (c # a, b)) (split_once d cs))"

lemma split_once_Some: "split_once d s = Some (a, b) \<Longrightarrow> s = a @ d # b \<and> d \<notin> set a"
  by (induction s arbitrary: a b) (auto split: if_splits)

lemma split_once_append: "d \<notin> set a \<Longrightarrow> split_once d (a @ d # b) = Some (a, b)"
  by (induction a) auto

text \<open>\<open>str::split\<close> at a non-empty separator text: the pieces between its
  occurrences, found from left to right.\<close>

definition starts_with :: "bytes \<Rightarrow> bytes \<Rightarrow> bool" where
  "starts_with p s \<longleftrightarrow> take (length p) s = p"

function split_on :: "bytes \<Rightarrow> bytes \<Rightarrow> bytes \<Rightarrow> bytes list" where
  "split_on sep acc s =
     (case s of
        [] \<Rightarrow> [rev acc]
      | c # cs \<Rightarrow>
          if sep \<noteq> [] \<and> starts_with sep s then rev acc # split_on sep [] (drop (length sep) s)
          else split_on sep (c # acc) cs)"
  by pat_completeness auto
termination by (relation "measure (\<lambda>(_, _, s). length s)") auto

declare split_on.simps [simp del]

text \<open>\<open>str::lines\<close>: pieces between line feeds, without a carriage return before one, and no empty last piece.\<close>

definition strip_cr :: "bytes \<Rightarrow> bytes" where
  "strip_cr s = (if s \<noteq> [] \<and> last s = CHR 0x0D then butlast s else s)"

definition text_lines :: "bytes \<Rightarrow> bytes list" where
  "text_lines s =
     (let pieces = split_on [CHR 0x0A] [] s
      in map strip_cr (butlast pieces) @ (if last pieces = [] then [] else [last pieces]))"

text \<open>\<open>str::find\<close>: the offset of the first occurrence of a text.\<close>

fun find_sub :: "bytes \<Rightarrow> bytes \<Rightarrow> nat option" where
  "find_sub needle [] = (if needle = [] then Some 0 else None)"
| "find_sub needle (c # cs) =
     (if starts_with needle (c # cs) then Some 0 else map_option Suc (find_sub needle cs))"

lemma find_sub_Some:
  "find_sub needle s = Some i \<Longrightarrow> i \<le> length s \<and> starts_with needle (drop i s) \<and>
     (\<forall>j < i. \<not> starts_with needle (drop j s))"
proof (induction needle s arbitrary: i rule: find_sub.induct)
  case (2 needle c cs)
  show ?case
  proof (cases "starts_with needle (c # cs)")
    case False
    with 2 obtain k where k: "i = Suc k" "find_sub needle cs = Some k" by auto
    have "\<not> starts_with needle (drop j (c # cs))" if "j < i" for j
      using 2(1) [OF False k(2)] False that by (cases j) (auto simp: k(1))
    then show ?thesis using 2(1) [OF False k(2)] k(1) by simp
  qed (use 2 in auto)
qed (auto simp: starts_with_def split: if_splits)

lemma find_sub_None: "find_sub needle s = None \<Longrightarrow> j \<le> length s \<Longrightarrow> \<not> starts_with needle (drop j s)"
proof (induction needle s arbitrary: j rule: find_sub.induct)
  case (2 needle c cs)
  then show ?case by (cases j) (auto split: if_splits)
qed (auto simp: starts_with_def split: if_splits)

lemma starts_with_split: "starts_with p s \<Longrightarrow> s = p @ drop (length p) s"
  by (metis append_take_drop_id starts_with_def)

text \<open>\<open>str::chars\<close>, each character as its UTF-8 sequence.\<close>

function chars :: "bytes \<Rightarrow> bytes list" where
  "chars [] = []"
| "chars (c # cs) = (c # takeWhile is_cont cs) # chars (dropWhile is_cont cs)"
  by pat_completeness auto
termination by (relation "measure length") (auto simp: less_Suc_eq_le length_dropWhile_le)

lemma concat_chars [simp]: "concat (chars s) = s"
  by (induction s rule: chars.induct) auto

text \<open>\<open>Iterator::min_by_key\<close>: the first of the elements with the least key.\<close>

fun min_first :: "('a \<Rightarrow> 'k::linorder) \<Rightarrow> 'a list \<Rightarrow> 'a option" where
  "min_first key [] = None"
| "min_first key (x # xs) =
     (case min_first key xs of
        None \<Rightarrow> Some x
      | Some y \<Rightarrow> if key x \<le> key y then Some x else Some y)"

lemma min_first_None [simp]: "min_first key xs = None \<longleftrightarrow> xs = []"
  by (cases xs) (auto split: option.splits)

lemma min_first_Some:
  "min_first key xs = Some x \<Longrightarrow> x \<in> set xs \<and> (\<forall>y \<in> set xs. key x \<le> key y)"
proof (induction xs arbitrary: x)
  case (Cons a xs)
  show ?case
  proof (cases "min_first key xs")
    case (Some y)
    then show ?thesis
      using Cons.IH [OF Some] Cons.prems by (auto split: if_splits intro: order_trans)
  qed (use Cons in auto)
qed simp

section \<open>Little-endian encoding\<close>

definition le_bytes :: "nat \<Rightarrow> nat \<Rightarrow> bytes" where
  "le_bytes k n = map (\<lambda>i. char_of (n div 256 ^ i mod 256)) [0..<k]"

fun le_value :: "bytes \<Rightarrow> nat" where
  "le_value [] = 0"
| "le_value (c # cs) = bv c + 256 * le_value cs"

lemma length_le_bytes [simp]: "length (le_bytes k n) = k"
  by (simp add: le_bytes_def)

lemma le_bytes_Suc: "le_bytes (Suc k) n = char_of (n mod 256) # le_bytes k (n div 256)"
  by (simp add: le_bytes_def upt_conv_Cons map_Suc_upt [symmetric] div_mult2_eq o_def
      del: upt_Suc)

lemma le_value_le_bytes: "n < 256 ^ k \<Longrightarrow> le_value (le_bytes k n) = n"
proof (induction k arbitrary: n)
  case 0
  then show ?case by (simp add: le_bytes_def)
next
  case (Suc k)
  then have "n div 256 < 256 ^ k" by auto
  with Suc.IH show ?case by (simp add: le_bytes_Suc)
qed

section \<open>Lists\<close>

text \<open>\<open>Vec::swap_remove\<close>: the element at \<open>i\<close> is replaced by the last one.\<close>

definition swap_remove :: "nat \<Rightarrow> 'a list \<Rightarrow> 'a list" where
  "swap_remove i xs = (if i = length xs - 1 then butlast xs else butlast (xs[i := last xs]))"

text \<open>The position of the first element that satisfies a predicate.\<close>

fun position :: "('a \<Rightarrow> bool) \<Rightarrow> 'a list \<Rightarrow> nat option" where
  "position p [] = None"
| "position p (x # xs) = (if p x then Some 0 else map_option Suc (position p xs))"

lemma position_Some: "position p xs = Some i \<Longrightarrow> i < length xs \<and> p (xs ! i)"
  by (induction xs arbitrary: i) (auto split: if_splits)

lemma position_None: "position p xs = None \<longleftrightarrow> (\<forall>x \<in> set xs. \<not> p x)"
  by (induction xs) auto

lemma length_swap_remove [simp]: "i < length xs \<Longrightarrow> length (swap_remove i xs) = length xs - 1"
  by (simp add: swap_remove_def)

lemma mset_swap_remove: "i < length xs \<Longrightarrow> mset (swap_remove i xs) = mset xs - {#xs ! i#}"
proof -
  assume i: "i < length xs"
  then have "xs \<noteq> []" by auto
  then obtain ys y where xs: "xs = ys @ [y]" by (metis append_butlast_last_id)
  show ?thesis
  proof (cases "i = length ys")
    case True
    then show ?thesis by (simp add: swap_remove_def xs)
  next
    case False
    with i xs have "i < length ys" by simp
    then show ?thesis
      by (simp add: swap_remove_def xs list_update_append nth_append butlast_append mset_update
          add_mset_diff_bothsides)
  qed
qed

lemma swap_remove_subset: "i < length xs \<Longrightarrow> set (swap_remove i xs) \<subseteq> set xs"
  by (metis mset_swap_remove in_diffD set_mset_mset subsetI)

end
