(* ===== verification/RustFloat.thy ===== *)
theory RustFloat
  imports Complex_Main Prelude
begin

text \<open>
  IEEE 754 binary floating point as the program uses it: \<open>f32\<close> and \<open>f64\<close> values are
  NaN, an infinity, or a finite number, which is kept as its exact value.
  Arithmetic rounds the exact result to the nearest representable number, ties to even,
  with the format's precision and exponent range. The sign of zero is not kept: no
  comparison, cast or sum in the modelled code depends on it.
\<close>

datatype fp = FNan | FInf bool | FFin real

type_synonym f32 = fp
type_synonym f64 = fp

record fp_format =
  fp_prec :: nat
  fp_emin :: int
  fp_emax :: int

definition f32_format :: fp_format where
  "f32_format = \<lparr>fp_prec = 24, fp_emin = -126, fp_emax = 127\<rparr>"

definition f64_format :: fp_format where
  "f64_format = \<lparr>fp_prec = 53, fp_emin = -1022, fp_emax = 1023\<rparr>"

definition pow2 :: "int \<Rightarrow> real" where
  "pow2 e = (if 0 \<le> e then 2 ^ nat e else 1 / 2 ^ nat (- e))"

text \<open>The exponent of the leading binary digit of a positive number.\<close>

fun ilog2 :: "nat \<Rightarrow> nat" where
  "ilog2 n = (if n < 2 then 0 else Suc (ilog2 (n div 2)))"

declare ilog2.simps [simp del]

lemma ilog2_eval:
  "n < 2 \<Longrightarrow> ilog2 n = 0"
  "2 \<le> n \<Longrightarrow> ilog2 n = ilog2 (n div 2) + 1"
  by (subst ilog2.simps, simp)+

definition real_ilog2 :: "real \<Rightarrow> int" where
  "real_ilog2 q = (if 1 \<le> q then int (ilog2 (nat \<lfloor>q\<rfloor>))
                   else - int (ilog2 (nat (\<lceil>1 / q\<rceil> - 1))) - 1)"

definition round_half_even :: "real \<Rightarrow> int" where
  "round_half_even q =
     (let f = \<lfloor>q\<rfloor>; d = q - of_int f
      in if d < 1 / 2 then f else if d > 1 / 2 then f + 1 else if even f then f else f + 1)"

definition fp_round :: "fp_format \<Rightarrow> real \<Rightarrow> fp" where
  "fp_round fmt q =
     (if q = 0 then FFin 0
      else let a = \<bar>q\<bar>;
               e = max (real_ilog2 a) (fp_emin fmt);
               u = pow2 (e - int (fp_prec fmt) + 1);
               r = of_int (round_half_even (a / u)) * u
           in if pow2 (fp_emax fmt + 1) \<le> r then FInf (q < 0)
              else FFin (if q < 0 then - r else r))"

text \<open>A decimal literal denotes the nearest representable number.\<close>

definition f32_lit :: "real \<Rightarrow> f32" where "f32_lit q = fp_round f32_format q"
definition f64_lit :: "real \<Rightarrow> f64" where "f64_lit q = fp_round f64_format q"

fun is_finite :: "fp \<Rightarrow> bool" where
  "is_finite (FFin _) = True"
| "is_finite _ = False"

fun fp_lt :: "fp \<Rightarrow> fp \<Rightarrow> bool" where
  "fp_lt FNan _ = False"
| "fp_lt _ FNan = False"
| "fp_lt (FInf a) (FInf b) = (a \<and> \<not> b)"
| "fp_lt (FInf a) (FFin _) = a"
| "fp_lt (FFin _) (FInf b) = (\<not> b)"
| "fp_lt (FFin a) (FFin b) = (a < b)"

fun fp_eq :: "fp \<Rightarrow> fp \<Rightarrow> bool" where
  "fp_eq FNan _ = False"
| "fp_eq _ FNan = False"
| "fp_eq a b = (a = b)"

definition fp_le :: "fp \<Rightarrow> fp \<Rightarrow> bool" where
  "fp_le a b \<longleftrightarrow> fp_lt a b \<or> fp_eq a b"

fun fp_add :: "fp_format \<Rightarrow> fp \<Rightarrow> fp \<Rightarrow> fp" where
  "fp_add fmt FNan _ = FNan"
| "fp_add fmt _ FNan = FNan"
| "fp_add fmt (FInf a) (FInf b) = (if a = b then FInf a else FNan)"
| "fp_add fmt (FInf a) _ = FInf a"
| "fp_add fmt _ (FInf b) = FInf b"
| "fp_add fmt (FFin a) (FFin b) = fp_round fmt (a + b)"

fun fp_mul :: "fp_format \<Rightarrow> fp \<Rightarrow> fp \<Rightarrow> fp" where
  "fp_mul fmt FNan _ = FNan"
| "fp_mul fmt _ FNan = FNan"
| "fp_mul fmt (FInf a) (FInf b) = FInf (a \<noteq> b)"
| "fp_mul fmt (FInf a) (FFin q) = (if q = 0 then FNan else FInf (a \<noteq> (q < 0)))"
| "fp_mul fmt (FFin q) (FInf a) = (if q = 0 then FNan else FInf (a \<noteq> (q < 0)))"
| "fp_mul fmt (FFin a) (FFin b) = fp_round fmt (a * b)"

fun fp_neg :: "fp \<Rightarrow> fp" where
  "fp_neg FNan = FNan"
| "fp_neg (FInf s) = FInf (\<not> s)"
| "fp_neg (FFin q) = FFin (- q)"

fun fp_abs :: "fp \<Rightarrow> fp" where
  "fp_abs FNan = FNan"
| "fp_abs (FInf s) = FInf False"
| "fp_abs (FFin q) = FFin \<bar>q\<bar>"

fun fp_ceil :: "fp \<Rightarrow> fp" where
  "fp_ceil (FFin q) = FFin (of_int \<lceil>q\<rceil>)"
| "fp_ceil x = x"

text \<open>\<open>as u32\<close>: truncation towards zero, saturating, NaN to zero.\<close>

fun fp_to_u32 :: "fp \<Rightarrow> u32" where
  "fp_to_u32 FNan = 0"
| "fp_to_u32 (FInf s) = (if s then 0 else - 1)"
| "fp_to_u32 (FFin q) =
     (if q \<le> 0 then 0 else if of_nat (2 ^ 32 - 1) \<le> q then - 1 else of_int \<lfloor>q\<rfloor>)"

definition u64_to_f32 :: "u64 \<Rightarrow> f32" where
  "u64_to_f32 w = fp_round f32_format (of_nat (unat w))"

definition f64_add :: "f64 \<Rightarrow> f64 \<Rightarrow> f64" where "f64_add = fp_add f64_format"
definition f32_add :: "f32 \<Rightarrow> f32 \<Rightarrow> f32" where "f32_add = fp_add f32_format"
definition f32_mul :: "f32 \<Rightarrow> f32 \<Rightarrow> f32" where "f32_mul = fp_mul f32_format"
definition f64_mul :: "f64 \<Rightarrow> f64 \<Rightarrow> f64" where "f64_mul = fp_mul f64_format"

definition f64_zero :: f64 where "f64_zero = FFin 0"

lemma fp_le_Fin [simp]: "fp_le (FFin a) (FFin b) \<longleftrightarrow> a \<le> b"
  by (auto simp: fp_le_def)

lemma finite_obtain: "is_finite x \<Longrightarrow> \<exists>q. x = FFin q"
  by (cases x) auto

lemma not_lt_finite: "is_finite x \<Longrightarrow> is_finite y \<Longrightarrow> \<not> fp_lt x y \<longleftrightarrow> fp_le y x"
  by (cases x; cases y) auto

lemma fp_lt_le_trans:
  "is_finite a \<Longrightarrow> is_finite b \<Longrightarrow> is_finite c \<Longrightarrow> fp_lt a b \<Longrightarrow> fp_le b c \<Longrightarrow> fp_lt a c"
  by (cases a; cases b; cases c) auto

section \<open>Rounding near a power of two\<close>

lemma ilog2_eqI: "2 ^ n \<le> k \<Longrightarrow> k < 2 ^ Suc n \<Longrightarrow> ilog2 k = n"
proof (induction n arbitrary: k)
  case 0
  then show ?case by (subst ilog2.simps) simp
next
  case (Suc n)
  then have "ilog2 (k div 2) = n" by auto
  moreover have "\<not> k < 2" using Suc.prems(1) by (simp add: not_less order_trans[rotated])
  ultimately show ?case by (subst ilog2.simps) simp
qed

lemma real_ilog2_eqI: "2 ^ n \<le> q \<Longrightarrow> q < 2 ^ Suc n \<Longrightarrow> real_ilog2 q = int n"
proof -
  assume q: "2 ^ n \<le> q" "q < 2 ^ Suc n"
  have "(1::real) \<le> 2 ^ n" by simp
  with q have "1 \<le> q" by linarith
  have "2 ^ n \<le> \<lfloor>q\<rfloor>" using q(1) by (simp add: le_floor_iff)
  then have lo: "2 ^ n \<le> nat \<lfloor>q\<rfloor>" by (simp add: le_nat_iff)
  have "\<lfloor>q\<rfloor> < 2 ^ Suc n" using q(2) by (simp add: floor_less_iff)
  then have "nat \<lfloor>q\<rfloor> < 2 ^ Suc n" using \<open>1 \<le> q\<close> by (simp add: nat_less_iff)
  with lo have "ilog2 (nat \<lfloor>q\<rfloor>) = n" by (rule ilog2_eqI)
  with \<open>1 \<le> q\<close> show ?thesis by (simp add: real_ilog2_def)
qed

section \<open>Rounding is monotone\<close>

lemma round_half_even_bounds: "\<lfloor>q\<rfloor> \<le> round_half_even q" "round_half_even q \<le> \<lfloor>q\<rfloor> + 1"
  by (auto simp: round_half_even_def Let_def)

lemma round_half_even_of_int [simp]: "round_half_even (of_int k) = k"
  by (simp add: round_half_even_def)

lemma round_half_even_mono: "a \<le> b \<Longrightarrow> round_half_even a \<le> round_half_even b"
proof -
  assume le: "a \<le> b"
  then have "\<lfloor>a\<rfloor> \<le> \<lfloor>b\<rfloor>" by (rule floor_mono)
  then consider "\<lfloor>a\<rfloor> + 1 \<le> \<lfloor>b\<rfloor>" | "\<lfloor>a\<rfloor> = \<lfloor>b\<rfloor>" by linarith
  then show ?thesis
  proof cases
    case 1
    then show ?thesis using round_half_even_bounds [of a] round_half_even_bounds [of b] by linarith
  next
    case 2
    then show ?thesis using le by (auto simp: round_half_even_def Let_def)
  qed
qed

lemma binade: "1 \<le> q \<Longrightarrow> \<exists>n. 2 ^ n \<le> q \<and> q < 2 ^ Suc n" for q :: real
proof -
  assume q: "1 \<le> q"
  have "\<exists>n. q < 2 ^ n" by (rule real_arch_pow) simp
  then obtain n where n: "q < 2 ^ n" "\<And>m. m < n \<Longrightarrow> \<not> q < 2 ^ m"
    using exists_least_iff [of "\<lambda>n. q < 2 ^ n"] by blast
  then have "n \<noteq> 0" using q by (intro notI) simp
  then obtain m where m: "n = Suc m" by (cases n) auto
  show ?thesis using n(1) n(2) [of m] by (intro exI [of _ m]) (simp add: m not_less)
qed

text \<open>The value before the overflow check, in the binade of \<open>2 ^ n\<close>.\<close>

definition rounded_in :: "nat \<Rightarrow> nat \<Rightarrow> real \<Rightarrow> real" where
  "rounded_in prec n q =
     (let u = pow2 (int n - int prec + 1) in of_int (round_half_even (q / u)) * u)"

lemma pow2_pos [simp]: "0 < pow2 e"
  by (simp add: pow2_def)

lemma pow2_scale: "2 ^ n / pow2 (int n - int k) = 2 ^ k"
proof (cases "k \<le> n")
  case True
  then obtain d where "n = k + d" using le_Suc_ex by blast
  then show ?thesis by (simp add: pow2_def power_add)
next
  case False
  then obtain d where d: "k = n + d" "d \<noteq> 0" by (metis le_Suc_ex nat_le_linear add_0_right order_refl)
  then show ?thesis by (simp add: pow2_def power_add)
qed

lemma rounded_in_power: "0 < prec \<Longrightarrow> rounded_in prec n (2 ^ n) = 2 ^ n"
  and rounded_in_power_Suc: "0 < prec \<Longrightarrow> rounded_in prec n (2 ^ Suc n) = 2 ^ Suc n"
proof -
  assume prec: "0 < prec"
  define u where "u = pow2 (int n - int prec + 1)"
  have u: "u = pow2 (int n - int (prec - 1))" using prec by (simp add: u_def of_nat_diff algebra_simps)
  have "2 ^ n / u = of_int (2 ^ (prec - 1))" "2 ^ Suc n / u = of_int (2 * 2 ^ (prec - 1))"
    using pow2_scale [of n "prec - 1"] by (simp_all add: u)
  moreover have "0 < u" by (simp add: u_def)
  ultimately have "of_int (round_half_even (2 ^ n / u)) * u = 2 ^ n"
    "of_int (round_half_even (2 ^ Suc n / u)) * u = 2 ^ Suc n"
    by (simp_all only: round_half_even_of_int) (simp_all add: field_simps)
  then show "rounded_in prec n (2 ^ n) = 2 ^ n" "rounded_in prec n (2 ^ Suc n) = 2 ^ Suc n"
    by (simp_all add: rounded_in_def Let_def flip: u_def)
qed

lemma rounded_in_mono: "a \<le> b \<Longrightarrow> rounded_in prec n a \<le> rounded_in prec n b"
  by (auto simp: rounded_in_def Let_def intro!: mult_right_mono round_half_even_mono divide_right_mono
      less_imp_le [OF pow2_pos])

lemma fp_round_binade:
  assumes "2 ^ n \<le> q" "q < 2 ^ Suc n" "fp_emin fmt \<le> 0"
  shows "fp_round fmt q = (let r = rounded_in (fp_prec fmt) n q in
     if pow2 (fp_emax fmt + 1) \<le> r then FInf False else FFin r)"
proof -
  have "(1::real) \<le> 2 ^ n" by simp
  then have q: "0 < q" using assms(1) by linarith
  then have "max (real_ilog2 \<bar>q\<bar>) (fp_emin fmt) = int n"
    using real_ilog2_eqI [OF assms(1,2)] assms(3) by simp
  then show ?thesis using q by (simp add: fp_round_def rounded_in_def Let_def not_less)
qed

lemma fp_round_mono:
  assumes "1 \<le> a" "a \<le> b" "fp_emin fmt \<le> 0" "0 < fp_prec fmt" "fp_round fmt b = FFin s"
  shows "\<exists>r. fp_round fmt a = FFin r \<and> r \<le> s"
proof -
  obtain m where m: "2 ^ m \<le> a" "a < 2 ^ Suc m" using binade [OF assms(1)] by blast
  obtain n where n: "2 ^ n \<le> b" "b < 2 ^ Suc n" using binade [of b] assms(1,2) by auto
  have s: "s = rounded_in (fp_prec fmt) n b" "\<not> pow2 (fp_emax fmt + 1) \<le> s"
    using assms(5) fp_round_binade [OF n assms(3)] by (auto simp: Let_def split: if_splits)
  have "rounded_in (fp_prec fmt) m a \<le> s"
  proof (cases "m = n")
    case True
    then show ?thesis using rounded_in_mono [OF assms(2)] s by simp
  next
    case False
    have "(2::real) ^ m < 2 ^ Suc n" using m(1) assms(2) n(2) by linarith
    then have "m < Suc n" by (rule power_less_imp_less_exp [rotated]) simp
    then have "m < n" using False by simp
    then have "(2::real) ^ Suc m \<le> 2 ^ n" by (intro power_increasing) auto
    moreover have "rounded_in (fp_prec fmt) m a \<le> 2 ^ Suc m"
      using rounded_in_mono [OF less_imp_le [OF m(2)], of "fp_prec fmt" m] rounded_in_power_Suc [OF assms(4), of m] by simp
    moreover have "2 ^ n \<le> s"
      using rounded_in_mono [OF n(1), of "fp_prec fmt" n] rounded_in_power [OF assms(4), of n] s by simp
    ultimately show ?thesis by linarith
  qed
  then show ?thesis using s(2) fp_round_binade [OF m assms(3)] by (auto simp: Let_def)
qed

lemma fp_round_ge_one:
  assumes "1 \<le> a" "fp_emin fmt \<le> 0" "0 < fp_prec fmt" "fp_round fmt a = FFin r"
  shows "1 \<le> r"
proof -
  obtain m where m: "2 ^ m \<le> a" "a < 2 ^ Suc m" using binade [OF assms(1)] by blast
  have "r = rounded_in (fp_prec fmt) m a"
    using assms(4) fp_round_binade [OF m assms(2)] by (auto simp: Let_def split: if_splits)
  then have "2 ^ m \<le> r"
    using rounded_in_mono [OF m(1), of "fp_prec fmt" m] rounded_in_power [OF assms(3), of m] by simp
  then show ?thesis by (rule order_trans [rotated]) simp
qed

text \<open>Unfolding equations that let the simplifier evaluate the arithmetic.\<close>

lemmas fp_eval = f32_lit_def f64_lit_def f32_mul_def f64_mul_def f32_add_def f64_add_def
  fp_round_def real_ilog2_def pow2_def round_half_even_def f32_format_def f64_format_def
  ilog2_eval Let_def

lemma f64_lit_008: "f64_lit (8 / 100) = FFin (5764607523034235 / 72057594037927936)"
  by (simp add: fp_eval)

lemma f64_lit_125: "f64_lit (25 / 2) = FFin (25 / 2)"
  by (simp add: fp_eval)

end
