(* ===== verification/RtTypes.thy ===== *)
theory RtTypes
  imports RustFloat
begin

text \<open>
  The runtime crate's public data (\<open>qwen3-tts-runtime/src/types.rs\<close> and the constants
  of \<open>lib.rs\<close>): status and phase enumerations with their C discriminants, the engine and
  generation configurations, the request input with its validation, the audio packet
  descriptor with its validation, and the request metrics. Text is its UTF-8 bytes.
\<close>

section \<open>Constants of the public contract\<close>

definition CODEBOOKS :: u32 where "CODEBOOKS = 16"
definition MAX_CONCURRENT_REQUESTS :: u32 where "MAX_CONCURRENT_REQUESTS = 6"
definition MAX_PACKET_FRAMES :: u32 where "MAX_PACKET_FRAMES = 4"
definition MAX_PCM_RING_SLOTS :: u32 where "MAX_PCM_RING_SLOTS = 64"
definition MAX_TEXT_BYTES :: u32 where "MAX_TEXT_BYTES = 1024 * 1024"
definition MAX_INSTRUCT_BYTES :: u32 where "MAX_INSTRUCT_BYTES = 256 * 1024"
definition MAX_CODEC_FRAMES :: u32 where "MAX_CODEC_FRAMES = 8192"
definition SAMPLE_RATE :: u32 where "SAMPLE_RATE = 24000"
definition SAMPLES_PER_CODEC_FRAME :: u32 where "SAMPLES_PER_CODEC_FRAME = 1920"

lemmas rt_consts = CODEBOOKS_def MAX_CONCURRENT_REQUESTS_def MAX_PACKET_FRAMES_def
  MAX_PCM_RING_SLOTS_def MAX_TEXT_BYTES_def MAX_INSTRUCT_BYTES_def MAX_CODEC_FRAMES_def
  SAMPLE_RATE_def SAMPLES_PER_CODEC_FRAME_def

section \<open>Status codes and languages\<close>

datatype runtime_status =
    StatusOk | StatusWouldBlock | StatusEndOfStream | StatusInvalidArgument
  | StatusInvalidUtf8 | StatusUnsupportedLanguage | StatusModel | StatusAllocation
  | StatusCuda | StatusState | StatusCancelled | StatusInternal

fun status_code :: "runtime_status \<Rightarrow> int" where
  "status_code StatusOk = 0"
| "status_code StatusWouldBlock = 1"
| "status_code StatusEndOfStream = 2"
| "status_code StatusInvalidArgument = - 1"
| "status_code StatusInvalidUtf8 = - 2"
| "status_code StatusUnsupportedLanguage = - 3"
| "status_code StatusModel = - 4"
| "status_code StatusAllocation = - 5"
| "status_code StatusCuda = - 6"
| "status_code StatusState = - 7"
| "status_code StatusCancelled = - 8"
| "status_code StatusInternal = - 9"

datatype language =
    LangAuto | Chinese | English | Japanese | Korean | German | French | Russian
  | Portuguese | Spanish | Italian

fun language_code :: "language \<Rightarrow> u32" where
  "language_code LangAuto = 0"
| "language_code Chinese = 1"
| "language_code English = 2"
| "language_code Japanese = 3"
| "language_code Korean = 4"
| "language_code German = 5"
| "language_code French = 6"
| "language_code Russian = 7"
| "language_code Portuguese = 8"
| "language_code Spanish = 9"
| "language_code Italian = 10"

fun as_official_name :: "language \<Rightarrow> bytes" where
  "as_official_name LangAuto = ''Auto''"
| "as_official_name Chinese = ''Chinese''"
| "as_official_name English = ''English''"
| "as_official_name Japanese = ''Japanese''"
| "as_official_name Korean = ''Korean''"
| "as_official_name German = ''German''"
| "as_official_name French = ''French''"
| "as_official_name Russian = ''Russian''"
| "as_official_name Portuguese = ''Portuguese''"
| "as_official_name Spanish = ''Spanish''"
| "as_official_name Italian = ''Italian''"

section \<open>Configurations\<close>

record engine_config =
  ec_struct_size :: u32
  ec_device_index :: "32 word"
  max_concurrent_requests :: u32
  packet_frames :: u32
  pcm_ring_slots :: u32
  max_text_bytes :: u32
  max_instruct_bytes :: u32
  ec_flags :: u32
  ec_reserved :: "u64 list"

text \<open>\<open>size_of\<close> of the two \<open>repr(C)\<close> structs on a 64-bit target: eight and ten
  32-bit fields (with one 64-bit seed) followed by eight 64-bit reserved words.\<close>

definition sizeof_engine_config :: nat where "sizeof_engine_config = 8 * 4 + 8 * 8"
definition sizeof_generation_config :: nat where
  "sizeof_generation_config = 2 * 4 + 8 + 9 * 4 + 4 + 8 * 8"

definition default_engine_config :: engine_config where
  "default_engine_config =
     \<lparr>ec_struct_size = of_nat sizeof_engine_config, ec_device_index = 0,
      max_concurrent_requests = 3, packet_frames = 4, pcm_ring_slots = 3,
      max_text_bytes = 64 * 1024, max_instruct_bytes = 16 * 1024,
      ec_flags = 0, ec_reserved = replicate 8 0\<rparr>"

record generation_config =
  gc_struct_size :: u32
  max_codec_frames :: u32
  gc_seed :: u64
  gc_temperature :: f32
  gc_top_p :: f32
  gc_repetition_penalty :: f32
  gc_top_k :: u32
  gc_do_sample :: u32
  predictor_temperature :: f32
  predictor_top_p :: f32
  predictor_top_k :: u32
  predictor_do_sample :: u32
  gc_reserved :: "u64 list"

definition default_generation_config :: generation_config where
  "default_generation_config =
     \<lparr>gc_struct_size = of_nat sizeof_generation_config, max_codec_frames = 4096, gc_seed = 0,
      gc_temperature = f32_lit (9 / 10), gc_top_p = f32_lit 1,
      gc_repetition_penalty = f32_lit (105 / 100), gc_top_k = 50, gc_do_sample = 1,
      predictor_temperature = f32_lit (9 / 10), predictor_top_p = f32_lit 1,
      predictor_top_k = 50, predictor_do_sample = 1, gc_reserved = replicate 8 0\<rparr>"

section \<open>Request input\<close>

record request_input =
  ri_text :: bytes
  ri_instruct :: bytes
  ri_language :: language

datatype request_input_error =
    EmptyText
  | TextTooLarge nat nat      \<comment> \<open>actual, maximum\<close>
  | InstructTooLarge nat nat

definition request_input_validate ::
  "request_input \<Rightarrow> engine_config \<Rightarrow> request_input_error + unit" where
  "request_input_validate r config =
     (if ri_text r = [] then Err EmptyText
      else if unat (max_text_bytes config) < length (ri_text r)
      then Err (TextTooLarge (length (ri_text r)) (unat (max_text_bytes config)))
      else if unat (max_instruct_bytes config) < length (ri_instruct r)
      then Err (InstructTooLarge (length (ri_instruct r)) (unat (max_instruct_bytes config)))
      else Ok ())"

lemma request_input_validate_Ok_iff:
  "request_input_validate r config = Ok () \<longleftrightarrow>
     ri_text r \<noteq> [] \<and> length (ri_text r) \<le> unat (max_text_bytes config) \<and>
     length (ri_instruct r) \<le> unat (max_instruct_bytes config)"
  by (auto simp: request_input_validate_def)

section \<open>Phases and finish reasons\<close>

datatype request_phase =
  Queued | Prefilling | Generating | Draining | Completed | Cancelled | Failed

fun phase_code :: "request_phase \<Rightarrow> nat" where
  "phase_code Queued = 0"
| "phase_code Prefilling = 1"
| "phase_code Generating = 2"
| "phase_code Draining = 3"
| "phase_code Completed = 4"
| "phase_code Cancelled = 5"
| "phase_code Failed = 6"

text \<open>Phases are ordered by their discriminant.\<close>

instantiation request_phase :: linorder
begin
definition less_eq_request_phase :: "request_phase \<Rightarrow> request_phase \<Rightarrow> bool" where
  "less_eq_request_phase p q \<longleftrightarrow> phase_code p \<le> phase_code q"
definition less_request_phase :: "request_phase \<Rightarrow> request_phase \<Rightarrow> bool" where
  "less_request_phase p q \<longleftrightarrow> phase_code p < phase_code q"
instance
proof
  fix x y :: request_phase
  show "x \<le> y \<Longrightarrow> y \<le> x \<Longrightarrow> x = y"
    by (cases x; cases y) (simp_all add: less_eq_request_phase_def)
qed (auto simp: less_eq_request_phase_def less_request_phase_def)
end

definition phase_is_terminal :: "request_phase \<Rightarrow> bool" where
  "phase_is_terminal p \<longleftrightarrow> p = Completed \<or> p = Cancelled \<or> p = Failed"

datatype finish_reason = FinishNone | CodecEos | MaxCodecFrames

fun finish_code :: "finish_reason \<Rightarrow> u32" where
  "finish_code FinishNone = 0"
| "finish_code CodecEos = 1"
| "finish_code MaxCodecFrames = 2"

definition finish_is_terminal :: "finish_reason \<Rightarrow> bool" where
  "finish_is_terminal r \<longleftrightarrow> r \<noteq> FinishNone"

section \<open>Audio packets and metrics\<close>

record audio_packet_descriptor =
  pd_request_id :: u64
  pd_sequence :: u64
  first_codec_frame :: u64
  first_sample :: u64
  pd_codec_frames :: u32
  sample_count :: u32
  sample_rate :: u32
  pd_channels :: u32
  pd_is_final :: u32
  pd_reserved :: u32
  pd_talker_gpu_microseconds :: f32
  pd_codec_gpu_microseconds :: f32
  end_to_end_microseconds :: f32

definition descriptor_validate :: "audio_packet_descriptor \<Rightarrow> u32 \<Rightarrow> string + unit" where
  "descriptor_validate d frames =
     (if pd_codec_frames d = 0
      then Err ''audio packet must contain at least one codec frame''
      else if frames < pd_codec_frames d
      then Err ''audio packet exceeds configured packet frame count''
      else if sample_count d \<noteq> pd_codec_frames d * SAMPLES_PER_CODEC_FRAME
      then Err ''audio packet sample count does not match codec frame count''
      else if sample_rate d \<noteq> SAMPLE_RATE \<or> pd_channels d \<noteq> 1
      then Err ''audio packet must be mono 24 kHz PCM''
      else Ok ())"

lemma descriptor_validate_Ok_iff:
  "descriptor_validate d frames = Ok () \<longleftrightarrow>
     0 < pd_codec_frames d \<and> pd_codec_frames d \<le> frames \<and>
     sample_count d = pd_codec_frames d * SAMPLES_PER_CODEC_FRAME \<and>
     sample_rate d = SAMPLE_RATE \<and> pd_channels d = 1"
  by (auto simp: descriptor_validate_def word_neq_0_conv not_le)

record request_metrics =
  queue_microseconds :: u64
  prefill_microseconds :: u64
  first_codec_frame_microseconds :: u64
  first_audio_microseconds :: u64
  wall_microseconds :: u64
  generated_codec_frames :: u64
  emitted_samples :: u64
  emitted_packets :: u64
  talker_gpu_microseconds :: f64
  codec_gpu_microseconds :: f64
  peak_request_device_bytes :: u64
  peak_request_host_bytes :: u64

definition default_metrics :: request_metrics where
  "default_metrics =
     \<lparr>queue_microseconds = 0, prefill_microseconds = 0, first_codec_frame_microseconds = 0,
      first_audio_microseconds = 0, wall_microseconds = 0, generated_codec_frames = 0,
      emitted_samples = 0, emitted_packets = 0, talker_gpu_microseconds = f64_zero,
      codec_gpu_microseconds = f64_zero, peak_request_device_bytes = 0,
      peak_request_host_bytes = 0\<rparr>"

end
