(* ===== verification/RtRequest.thy ===== *)
theory RtRequest
  imports RtTypes
begin

text \<open>
  \<open>qwen3-tts-runtime/src/request.rs\<close>: the request record with its checked phase
  transitions, the packet bookkeeping \<open>record_packet\<close>, and the bounded packet queue.
  The queue interface is a locale, interpreted on the code's queue.
\<close>

section \<open>Request record and phase transitions\<close>

record transition_error =
  te_from :: request_phase
  te_to :: request_phase

record request_record =
  rec_id :: u64
  rec_phase :: request_phase
  next_packet_sequence :: u64
  next_codec_frame :: u64
  next_sample :: u64
  rec_metrics :: request_metrics

definition request_record_new :: "u64 \<Rightarrow> request_record" where
  "request_record_new id' =
     \<lparr>rec_id = id', rec_phase = Queued, next_packet_sequence = 0, next_codec_frame = 0,
      next_sample = 0, rec_metrics = default_metrics\<rparr>"

definition transition_allowed :: "request_phase \<Rightarrow> request_phase \<Rightarrow> bool" where
  "transition_allowed p q \<longleftrightarrow> (p, q) \<in> set
     [(Queued, Prefilling), (Queued, Cancelled), (Queued, Failed),
      (Prefilling, Generating), (Prefilling, Cancelled), (Prefilling, Failed),
      (Generating, Draining), (Generating, Completed), (Generating, Cancelled),
      (Generating, Failed),
      (Draining, Completed), (Draining, Cancelled), (Draining, Failed)]"

definition transition ::
  "request_record \<Rightarrow> request_phase \<Rightarrow> (transition_error + unit) \<times> request_record" where
  "transition r next_phase =
     (if \<not> transition_allowed (rec_phase r) next_phase
      then (Err \<lparr>te_from = rec_phase r, te_to = next_phase\<rparr>, r)
      else (Ok (), r\<lparr>rec_phase := next_phase\<rparr>))"

text \<open>A sequence of attempted transitions; the failed ones leave the record alone.\<close>

fun transitions :: "request_record \<Rightarrow> request_phase list \<Rightarrow> request_record" where
  "transitions r [] = r"
| "transitions r (p # ps) = transitions (snd (transition r p)) ps"

lemma transition_allowed_increases: "transition_allowed p q \<Longrightarrow> p < q"
  by (auto simp: transition_allowed_def less_request_phase_def)

lemma transition_allowed_terminal: "phase_is_terminal p \<Longrightarrow> \<not> transition_allowed p q"
  by (auto simp: transition_allowed_def phase_is_terminal_def)

lemma transition_mono: "rec_phase r \<le> rec_phase (snd (transition r p))"
  by (auto simp: transition_def dest: transition_allowed_increases)

lemma transition_terminal: "phase_is_terminal (rec_phase r) \<Longrightarrow> snd (transition r p) = r"
  by (simp add: transition_def transition_allowed_terminal)

lemma transitions_mono: "rec_phase r \<le> rec_phase (transitions r ps)"
  by (induction ps arbitrary: r) (auto intro: order_trans transition_mono)

lemma transitions_terminal:
  "phase_is_terminal (rec_phase r) \<Longrightarrow> transitions r ps = r"
  by (induction ps arbitrary: r) (simp_all add: transition_terminal)

lemma transitions_append: "transitions r (ps @ qs) = transitions (transitions r ps) qs"
  by (induction ps arbitrary: r) simp_all

section \<open>Packet bookkeeping\<close>

definition record_packet ::
  "request_record \<Rightarrow> audio_packet_descriptor \<Rightarrow> u32 \<Rightarrow> (string + unit) \<times> request_record" where
  "record_packet r p configured_packet_frames =
     (if rec_phase r \<noteq> Generating \<and> rec_phase r \<noteq> Draining
      then (Err ''request is not accepting audio packets'', r)
      else case descriptor_validate p configured_packet_frames of
        Inl e \<Rightarrow> (Err e, r)
      | Inr _ \<Rightarrow>
          if pd_request_id p \<noteq> rec_id r
          then (Err ''audio packet request id does not match request'', r)
          else if pd_sequence p \<noteq> next_packet_sequence r
          then (Err ''audio packet sequence is not contiguous'', r)
          else if first_codec_frame p \<noteq> next_codec_frame r
          then (Err ''audio packet codec frame position is not contiguous'', r)
          else if first_sample p \<noteq> next_sample r
          then (Err ''audio packet sample position is not contiguous'', r)
          else (Ok (),
            r\<lparr>next_packet_sequence := next_packet_sequence r + 1,
              next_codec_frame := next_codec_frame r + ucast (pd_codec_frames p),
              next_sample := next_sample r + ucast (sample_count p),
              rec_metrics := (rec_metrics r)
                \<lparr>generated_codec_frames :=
                   generated_codec_frames (rec_metrics r) + ucast (pd_codec_frames p),
                 talker_gpu_microseconds :=
                   f64_add (talker_gpu_microseconds (rec_metrics r)) (pd_talker_gpu_microseconds p),
                 codec_gpu_microseconds :=
                   f64_add (codec_gpu_microseconds (rec_metrics r)) (pd_codec_gpu_microseconds p)\<rparr>\<rparr>))"

text \<open>What the next packet of a record must say about its position.\<close>

definition next_position :: "request_record \<Rightarrow> audio_packet_descriptor \<Rightarrow> bool" where
  "next_position r p \<longleftrightarrow>
     pd_request_id p = rec_id r \<and> pd_sequence p = next_packet_sequence r \<and>
     first_codec_frame p = next_codec_frame r \<and> first_sample p = next_sample r"

lemma record_packet_Ok_iff:
  "fst (record_packet r p n) = Ok () \<longleftrightarrow>
     (rec_phase r = Generating \<or> rec_phase r = Draining) \<and>
     descriptor_validate p n = Ok () \<and> next_position r p"
  by (auto simp: record_packet_def next_position_def split: sum.splits)

lemma record_packet_Ok_state:
  "fst (record_packet r p n) = Ok () \<Longrightarrow>
     (let r' = snd (record_packet r p n) in
       rec_id r' = rec_id r \<and> rec_phase r' = rec_phase r \<and>
       next_packet_sequence r' = next_packet_sequence r + 1 \<and>
       next_codec_frame r' = next_codec_frame r + ucast (pd_codec_frames p) \<and>
       next_sample r' = next_sample r + ucast (sample_count p))"
  by (auto simp: record_packet_def split: sum.splits if_splits)

lemma record_packet_Err_state:
  "fst (record_packet r p n) = Err e \<Longrightarrow> snd (record_packet r p n) = r"
  by (auto simp: record_packet_def split: sum.splits if_splits)

section \<open>The bounded packet queue\<close>

text \<open>The interface: a first-in first-out queue that refuses a push when full.\<close>

locale bounded_fifo =
  fixes contents :: "'q \<Rightarrow> 'a list"
    and bound :: "'q \<Rightarrow> nat"
    and push :: "'a \<Rightarrow> 'q \<Rightarrow> bool \<times> 'q"
    and pop :: "'q \<Rightarrow> 'a option \<times> 'q"
  assumes push_full: "length (contents q) = bound q \<Longrightarrow> push x q = (False, q)"
    and push_free: "length (contents q) < bound q \<Longrightarrow>
      fst (push x q) \<and> contents (snd (push x q)) = contents q @ [x] \<and>
      bound (snd (push x q)) = bound q"
    and pop_empty: "contents q = [] \<Longrightarrow> pop q = (None, q)"
    and pop_cons: "contents q = x # xs \<Longrightarrow> fst (pop q) = Some x \<and>
      contents (snd (pop q)) = xs \<and> bound (snd (pop q)) = bound q"
begin

lemma push_contents:
  "length (contents q) \<le> bound q \<Longrightarrow>
     contents (snd (push x q)) = take (bound q) (contents q @ [x]) \<and>
     bound (snd (push x q)) = bound q"
  by (cases "length (contents q) < bound q") (auto simp: push_free push_full)

lemma push_accepts:
  "length (contents q) \<le> bound q \<Longrightarrow> fst (push x q) \<longleftrightarrow> length (contents q) < bound q"
  by (cases "length (contents q) < bound q") (auto simp: push_free push_full)

text \<open>Pushing a list keeps the longest prefix that fits.\<close>

lemma push_all_contents:
  "length (contents q) \<le> bound q \<Longrightarrow>
     contents (fold (\<lambda>x q. snd (push x q)) xs q) = take (bound q) (contents q @ xs)"
proof (induction xs arbitrary: q)
  case Nil
  then show ?case by simp
next
  case (Cons x xs)
  let ?q = "snd (push x q)"
  have q: "contents ?q = take (bound q) (contents q @ [x])" "bound ?q = bound q"
    using push_contents[OF Cons.prems] by auto
  then have "contents (fold (\<lambda>x q. snd (push x q)) xs ?q) = take (bound q) (contents ?q @ xs)"
    using Cons.IH[of ?q] by simp
  also have "\<dots> = take (bound q) (contents q @ x # xs)"
    using q(1) by (cases "bound q - length (contents q)") auto
  finally show ?case by simp
qed

lemma pop_any: "contents (snd (pop q)) = tl (contents q) \<and> bound (snd (pop q)) = bound q"
  by (cases "contents q") (auto simp: pop_empty pop_cons)

lemma pop_head: "fst (pop q) = (case contents q of [] \<Rightarrow> None | x # _ \<Rightarrow> Some x)"
  by (cases "contents q") (auto simp: pop_empty pop_cons)

text \<open>Popping \<open>n\<close> times drops the \<open>n\<close> oldest elements.\<close>

lemma pops_contents: "contents (((\<lambda>q. snd (pop q)) ^^ n) q) = drop n (contents q)"
  by (induction n arbitrary: q) (simp_all add: pop_any drop_Suc tl_drop)

text \<open>What is pushed in order comes out in order, behind what was there.\<close>

lemma fifo_order:
  "length (contents q) + length xs \<le> bound q \<Longrightarrow> i < length xs \<Longrightarrow>
     fst (pop (((\<lambda>q. snd (pop q)) ^^ (length (contents q) + i))
           (fold (\<lambda>x q. snd (push x q)) xs q))) = Some (xs ! i)"
  by (simp add: pop_head pops_contents push_all_contents split: list.split)
     (metis Cons_nth_drop_Suc add_diff_cancel_left' drop_eq_Nil leD list.inject list.simps(3))

end

text \<open>\<open>PacketQueue\<close>: a capacity and the queued values, front first.\<close>

datatype packet_queue_error = QueueFull

record 'a packet_queue =
  pq_capacity :: nat
  pq_values :: "'a list"

definition packet_queue_new :: "nat \<Rightarrow> 'a packet_queue option" where
  "packet_queue_new capacity =
     (if 0 < capacity then Some \<lparr>pq_capacity = capacity, pq_values = []\<rparr> else None)"

definition packet_queue_push ::
  "'a \<Rightarrow> 'a packet_queue \<Rightarrow> (packet_queue_error + unit) \<times> 'a packet_queue" where
  "packet_queue_push x q =
     (if length (pq_values q) = pq_capacity q then (Err QueueFull, q)
      else (Ok (), q\<lparr>pq_values := pq_values q @ [x]\<rparr>))"

definition packet_queue_pop :: "'a packet_queue \<Rightarrow> 'a option \<times> 'a packet_queue" where
  "packet_queue_pop q =
     (case pq_values q of [] \<Rightarrow> (None, q) | x # xs \<Rightarrow> (Some x, q\<lparr>pq_values := xs\<rparr>))"

definition packet_queue_len :: "'a packet_queue \<Rightarrow> nat" where
  "packet_queue_len q = length (pq_values q)"

definition packet_queue_is_empty :: "'a packet_queue \<Rightarrow> bool" where
  "packet_queue_is_empty q \<longleftrightarrow> pq_values q = []"

text \<open>The code's queue provides the interface.\<close>

interpretation pq: bounded_fifo pq_values pq_capacity
  "\<lambda>x q. (is_ok (fst (packet_queue_push x q)), snd (packet_queue_push x q))" packet_queue_pop
  by unfold_locales (auto simp: packet_queue_push_def packet_queue_pop_def)

end
