(* ===== verification/RtShared.thy ===== *)
theory RtShared
  imports RtRequest
begin

text \<open>
  The first half of \<open>qwen3-tts-runtime/src/scheduler.rs\<close>: the backend interface's data,
  owned audio packets, the slot pool, and the state a request shares between its client
  and the worker, with every operation on it.

  A request's \<open>Arc<RequestShared>\<close> is a number, the index of its entry in \<open>shareds\<close>;
  request \<open>i\<close>'s client handle is entry \<open>i\<close> of \<open>handles\<close>. The bounded command channel
  is a list, oldest command first. Each operation runs under the mutex it takes in the
  code, so it is one function of the scheduler state. A slot permit has no data: it
  is held by the \<open>PendingStart\<close> or \<open>ActiveRequest\<close> value that carries it.
\<close>

section \<open>Backend data, errors, packets\<close>

record backend_error =
  be_status :: runtime_status
  be_message :: string

definition backend_error_new :: "string \<Rightarrow> backend_error" where
  "backend_error_new m = \<lparr>be_status = StatusInternal, be_message = m\<rparr>"

definition backend_error_with_status :: "runtime_status \<Rightarrow> string \<Rightarrow> backend_error" where
  "backend_error_with_status st m = \<lparr>be_status = st, be_message = m\<rparr>"

record backend_request =
  br_id :: u64
  br_input :: request_input
  br_generation :: generation_config

record 's backend_started =
  bs_session :: 's
  bs_prefill_microseconds :: u64
  bs_peak_request_device_bytes :: u64
  bs_peak_request_host_bytes :: u64

record backend_packet =
  bp_codec_frames :: u32
  bp_is_final :: bool
  bp_finish_reason :: finish_reason
  bp_talker_gpu_microseconds :: f32
  bp_codec_gpu_microseconds :: f32
  bp_peak_request_device_bytes :: u64
  bp_peak_request_host_bytes :: u64

type_synonym sref = nat

record owned_audio_packet =
  op_descriptor :: audio_packet_descriptor
  op_finish_reason :: finish_reason
  op_pcm :: "pcm option"
  op_recycler :: sref

definition packet_pcm :: "owned_audio_packet \<Rightarrow> pcm unwind" where
  "packet_pcm p =
     (let samples = unat (sample_count (op_descriptor p));
          buffer = (case op_pcm p of None \<Rightarrow> [] | Some b \<Rightarrow> b)
      in if samples \<le> length buffer then Returned (take samples buffer) else Panicked)"

datatype poll_error = PollCancelled | PollFailed backend_error

datatype poll_outcome = PollPacket owned_audio_packet | PollWouldBlock | PollEndOfStream finish_reason

datatype scheduler_error =
    InvalidConfiguration string | InvalidGeneration string
  | InvalidInput request_input_error | SchedFull | SchedClosed | SchedWorker string

section \<open>Slot pool\<close>

record slot_pool =
  sp_capacity :: nat
  sp_used :: nat

definition slot_pool_new :: "nat \<Rightarrow> slot_pool" where
  "slot_pool_new capacity = \<lparr>sp_capacity = capacity, sp_used = 0\<rparr>"

definition try_acquire :: "slot_pool \<Rightarrow> slot_pool option" where
  "try_acquire s =
     (if sp_used s = sp_capacity s then None else Some (s\<lparr>sp_used := sp_used s + 1\<rparr>))"

definition release :: "slot_pool \<Rightarrow> slot_pool" where
  "release s = s\<lparr>sp_used := sp_used s - 1\<rparr>"   \<comment> \<open>\<open>saturating_sub\<close>\<close>

section \<open>Request state\<close>

record request_state =
  st_phase :: request_phase
  st_packets :: "owned_audio_packet list"
  st_packet_capacity :: nat
  st_producer_finished :: bool
  st_finish_reason :: finish_reason
  st_retired :: bool
  st_cancel_requested :: bool
  st_failure :: "backend_error option"
  st_metrics :: request_metrics

record request_shared =
  sh_id :: u64
  sh_started_at :: instant
  sh_state :: request_state
  sh_free_pcm :: "pcm list"

definition request_shared_new :: "u64 \<Rightarrow> nat \<Rightarrow> nat \<Rightarrow> instant \<Rightarrow> request_shared" where
  "request_shared_new id' packet_capacity packet_samples started_at =
     \<lparr>sh_id = id', sh_started_at = started_at,
      sh_state = \<lparr>st_phase = Queued, st_packets = [], st_packet_capacity = packet_capacity,
        st_producer_finished = False, st_finish_reason = FinishNone, st_retired = False,
        st_cancel_requested = False, st_failure = None, st_metrics = default_metrics\<rparr>,
      sh_free_pcm = replicate packet_capacity (replicate packet_samples 0)\<rparr>"

record pending_start =
  ps_request :: backend_request
  ps_shared :: sref
  ps_enqueued_at :: instant

datatype command = CmdStart pending_start | CmdCancel u64 | CmdWake | CmdShutdown

record 's active_request =
  ar_session :: "'s option"
  ar_shared :: sref
  ar_record :: request_record
  ar_started_at :: instant
  ar_max_codec_frames :: u32

record request_handle =
  rh_cancel_sent :: bool
  rh_live :: bool

record ('b, 's) sched =
  sc_config :: engine_config
  sc_slots :: slot_pool
  sc_channel :: "command list"
  sc_channel_capacity :: nat
  sc_receiver_alive :: bool
  sc_shutdown :: bool
  sc_next_request_id :: u64
  sc_shareds :: "request_shared list"
  sc_handles :: "request_handle list"
  sc_active :: "'s active_request list"
  sc_pending :: "pending_start list"
  sc_backend :: 'b

section \<open>Access to a request's shared state\<close>

definition shared_at :: "('b, 's) sched \<Rightarrow> sref \<Rightarrow> request_shared" where
  "shared_at w r = sc_shareds w ! r"

definition state_at :: "('b, 's) sched \<Rightarrow> sref \<Rightarrow> request_state" where
  "state_at w r = sh_state (shared_at w r)"

definition upd_shared ::
  "sref \<Rightarrow> (request_shared \<Rightarrow> request_shared) \<Rightarrow> ('b, 's) sched \<Rightarrow> ('b, 's) sched" where
  "upd_shared r f w = w\<lparr>sc_shareds := (sc_shareds w)[r := f (sc_shareds w ! r)]\<rparr>"

definition upd_state ::
  "sref \<Rightarrow> (request_state \<Rightarrow> request_state) \<Rightarrow> ('b, 's) sched \<Rightarrow> ('b, 's) sched" where
  "upd_state r f = upd_shared r (\<lambda>sh. sh\<lparr>sh_state := f (sh_state sh)\<rparr>)"

text \<open>\<open>SyncSender::try_send\<close>: lost when the channel is full or closed.\<close>

definition try_send :: "command \<Rightarrow> ('b, 's) sched \<Rightarrow> ('b, 's) sched" where
  "try_send c w =
     (if sc_receiver_alive w \<and> length (sc_channel w) < sc_channel_capacity w
      then w\<lparr>sc_channel := sc_channel w @ [c]\<rparr> else w)"

text \<open>\<open>SyncSender::send\<close>, once the channel has room: fails only when it is closed.\<close>

definition send :: "command \<Rightarrow> ('b, 's) sched \<Rightarrow> bool \<times> ('b, 's) sched" where
  "send c w =
     (if sc_receiver_alive w then (True, w\<lparr>sc_channel := sc_channel w @ [c]\<rparr>) else (False, w))"

section \<open>Operations on the shared state\<close>

definition is_cancel_requested :: "('b, 's) sched \<Rightarrow> sref \<Rightarrow> bool" where
  "is_cancel_requested w r = st_cancel_requested (state_at w r)"

text \<open>\<open>can_accept_packet\<close> lets go of the state before it looks at the free buffers.\<close>

definition state_accepts :: "('b, 's) sched \<Rightarrow> sref \<Rightarrow> bool" where
  "state_accepts w r \<longleftrightarrow>
     (let st = state_at w r in
       \<not> st_cancel_requested st \<and> st_failure st = None \<and>
       length (st_packets st) < st_packet_capacity st)"

definition has_free_pcm :: "('b, 's) sched \<Rightarrow> sref \<Rightarrow> bool" where
  "has_free_pcm w r \<longleftrightarrow> sh_free_pcm (shared_at w r) \<noteq> []"

definition can_accept_packet :: "('b, 's) sched \<Rightarrow> sref \<Rightarrow> bool" where
  "can_accept_packet w r \<longleftrightarrow> state_accepts w r \<and> has_free_pcm w r"

definition take_pcm :: "sref \<Rightarrow> ('b, 's) sched \<Rightarrow> pcm option \<times> ('b, 's) sched" where
  "take_pcm r w =
     (let free = sh_free_pcm (shared_at w r) in
      if free = [] then (None, w)
      else (Some (last free), upd_shared r (\<lambda>sh. sh\<lparr>sh_free_pcm := butlast free\<rparr>) w))"

definition recycle_pcm :: "sref \<Rightarrow> pcm \<Rightarrow> ('b, 's) sched \<Rightarrow> ('b, 's) sched" where
  "recycle_pcm r buffer w =
     try_send CmdWake
       (upd_shared r (\<lambda>sh. sh\<lparr>sh_free_pcm := sh_free_pcm sh @ [map (\<lambda>_. 0) buffer]\<rparr>) w)"

text \<open>
  Dropping a packet returns its buffer to the request it came from. The recycler is a
  weak reference; \<open>drop_packet\<close> is used where the request is borrowed, hence alive.
\<close>

definition drop_packet :: "owned_audio_packet \<Rightarrow> ('b, 's) sched \<Rightarrow> ('b, 's) sched" where
  "drop_packet p w =
     (case op_pcm p of None \<Rightarrow> w | Some buffer \<Rightarrow> recycle_pcm (op_recycler p) buffer w)"

definition mark_prefilling :: "sref \<Rightarrow> u64 \<Rightarrow> ('b, 's) sched \<Rightarrow> ('b, 's) sched" where
  "mark_prefilling r queue_us =
     upd_state r (\<lambda>st. st\<lparr>st_phase := Prefilling,
       st_metrics := (st_metrics st)\<lparr>queue_microseconds := queue_us\<rparr>\<rparr>)"

definition mark_generating :: "sref \<Rightarrow> 's backend_started \<Rightarrow> ('b, 's) sched \<Rightarrow> ('b, 's) sched" where
  "mark_generating r started =
     upd_state r (\<lambda>st. st\<lparr>st_phase := Generating,
       st_metrics := (st_metrics st)
         \<lparr>prefill_microseconds := bs_prefill_microseconds started,
          peak_request_device_bytes := bs_peak_request_device_bytes started,
          peak_request_host_bytes := bs_peak_request_host_bytes started\<rparr>\<rparr>)"

text \<open>The state after \<open>push_packet\<close> queued a packet: the client's three metrics are kept.\<close>

definition pushed_state :: "owned_audio_packet \<Rightarrow> request_metrics \<Rightarrow> request_state \<Rightarrow> request_state" where
  "pushed_state p metrics st =
     (let st1 = st\<lparr>st_metrics := metrics
              \<lparr>first_audio_microseconds := first_audio_microseconds (st_metrics st),
               emitted_samples := emitted_samples (st_metrics st),
               emitted_packets := emitted_packets (st_metrics st)\<rparr>\<rparr>;
          st2 = (if pd_is_final (op_descriptor p) \<noteq> 0
                 then st1\<lparr>st_phase := Draining, st_producer_finished := True,
                          st_finish_reason := op_finish_reason p\<rparr>
                 else st1)
      in st2\<lparr>st_packets := st_packets st2 @ [p]\<rparr>)"

text \<open>On refusal the packet, moved into the call, is dropped.\<close>

definition push_packet ::
  "sref \<Rightarrow> owned_audio_packet \<Rightarrow> request_metrics \<Rightarrow> ('b, 's) sched \<Rightarrow> bool \<times> ('b, 's) sched" where
  "push_packet r p metrics w =
     (let st = state_at w r in
      if st_cancel_requested st \<or> st_failure st \<noteq> None
         \<or> length (st_packets st) = st_packet_capacity st
      then (False, drop_packet p w)
      else (True, upd_state r (pushed_state p metrics) w))"

definition mark_cancelled :: "sref \<Rightarrow> ('b, 's) sched \<Rightarrow> ('b, 's) sched" where
  "mark_cancelled r w =
     fold drop_packet (st_packets (state_at w r))
       (upd_state r (\<lambda>st. st\<lparr>st_cancel_requested := True, st_phase := Cancelled,
          st_finish_reason := FinishNone, st_packets := [], st_producer_finished := True\<rparr>) w)"

definition mark_failed :: "sref \<Rightarrow> backend_error \<Rightarrow> ('b, 's) sched \<Rightarrow> ('b, 's) sched" where
  "mark_failed r e w =
     fold drop_packet (st_packets (state_at w r))
       (upd_state r (\<lambda>st. st\<lparr>st_phase := Failed, st_finish_reason := FinishNone,
          st_packets := [], st_producer_finished := True, st_failure := Some e\<rparr>) w)"

definition mark_retired :: "sref \<Rightarrow> ('b, 's) sched \<Rightarrow> ('b, 's) sched" where
  "mark_retired r = upd_state r (\<lambda>st. st\<lparr>st_retired := True\<rparr>)"

definition release_slot :: "('b, 's) sched \<Rightarrow> ('b, 's) sched" where
  "release_slot w = w\<lparr>sc_slots := release (sc_slots w)\<rparr>"

text \<open>Retiring drops the request, which releases its permit, before the mark.\<close>

definition retire_pending :: "pending_start \<Rightarrow> ('b, 's) sched \<Rightarrow> ('b, 's) sched" where
  "retire_pending p w = mark_retired (ps_shared p) (release_slot w)"

definition retire_active :: "'s active_request \<Rightarrow> ('b, 's) sched \<Rightarrow> ('b, 's) sched" where
  "retire_active a w = mark_retired (ar_shared a) (release_slot w)"

text \<open>
  \<open>wait_retired\<close>: one look at the flag. \<open>None\<close> means that the caller waits on the
  condition variable and looks again; \<open>timed_out\<close> is the result of the previous wait.
\<close>

definition wait_retired_once ::
  "sref \<Rightarrow> instant option \<Rightarrow> instant \<Rightarrow> bool \<Rightarrow> ('b, 's) sched \<Rightarrow> bool option" where
  "wait_retired_once r deadline now timed_out w =
     (if st_retired (state_at w r) then Some True
      else if timed_out then Some False
      else case deadline of
        None \<Rightarrow> Some False
      | Some d \<Rightarrow> if d \<le> now then Some False else None)"

end
