(* ===== verification/RtHandle.thy ===== *)
theory RtHandle
  imports RtShared
begin

text \<open>
  The client side of \<open>qwen3-tts-runtime/src/scheduler.rs\<close>: the configuration and
  generation checks, scheduler construction, starting a request, and the request handle's
  \<open>poll\<close> and \<open>cancel\<close>.
\<close>

section \<open>Configuration checks\<close>

definition validate_config :: "engine_config \<Rightarrow> scheduler_error + unit" where
  "validate_config config =
     (if ec_struct_size config \<noteq> of_nat sizeof_engine_config
      then Err (InvalidConfiguration ''struct_size does not match EngineConfig'')
      else if ec_flags config \<noteq> 0 \<or> list_ex (\<lambda>v. v \<noteq> 0) (ec_reserved config)
      then Err (InvalidConfiguration ''flags and reserved fields must be zero'')
      else if max_concurrent_requests config = 0
      then Err (InvalidConfiguration ''max_concurrent_requests must be non-zero'')
      else if MAX_CONCURRENT_REQUESTS < max_concurrent_requests config
      then Err (InvalidConfiguration ''max_concurrent_requests exceeds the native batch limit'')
      else if packet_frames config = 0
      then Err (InvalidConfiguration ''packet_frames must be non-zero'')
      else if MAX_PACKET_FRAMES < packet_frames config
      then Err (InvalidConfiguration ''packet_frames exceeds the neural decoder limit'')
      else if pcm_ring_slots config = 0
      then Err (InvalidConfiguration ''pcm_ring_slots must be non-zero'')
      else if MAX_PCM_RING_SLOTS < pcm_ring_slots config
      then Err (InvalidConfiguration ''pcm_ring_slots exceeds the bounded runtime limit'')
      else if max_text_bytes config = 0 \<or> MAX_TEXT_BYTES < max_text_bytes config
      then Err (InvalidConfiguration ''max_text_bytes is outside the supported range'')
      else if MAX_INSTRUCT_BYTES < max_instruct_bytes config
      then Err (InvalidConfiguration ''max_instruct_bytes exceeds the supported range'')
      else Ok ())"

definition config_ok :: "engine_config \<Rightarrow> bool" where
  "config_ok config \<longleftrightarrow>
     ec_struct_size config = 96 \<and> ec_flags config = 0 \<and> (\<forall>v \<in> set (ec_reserved config). v = 0) \<and>
     unat (max_concurrent_requests config) \<in> {1..6} \<and> unat (packet_frames config) \<in> {1..4} \<and>
     unat (pcm_ring_slots config) \<in> {1..64} \<and>
     unat (max_text_bytes config) \<in> {1..1048576} \<and> unat (max_instruct_bytes config) \<le> 262144"

lemma one_le_unat_iff: "Suc 0 \<le> unat w \<longleftrightarrow> w \<noteq> 0"
  by (simp add: Suc_le_eq unat_gt_0)

lemma validate_config_Ok_iff: "validate_config config = Ok () \<longleftrightarrow> config_ok config"
proof -
  have "validate_config config = Ok () \<longleftrightarrow>
     ec_struct_size config = 96 \<and> \<not> (ec_flags config \<noteq> 0 \<or> list_ex (\<lambda>v. v \<noteq> 0) (ec_reserved config)) \<and>
     max_concurrent_requests config \<noteq> 0 \<and> max_concurrent_requests config \<le> 6 \<and>
     packet_frames config \<noteq> 0 \<and> packet_frames config \<le> 4 \<and>
     pcm_ring_slots config \<noteq> 0 \<and> pcm_ring_slots config \<le> 64 \<and>
     max_text_bytes config \<noteq> 0 \<and> max_text_bytes config \<le> 1048576 \<and>
     max_instruct_bytes config \<le> 262144"
    by (simp add: validate_config_def rt_consts sizeof_engine_config_def linorder_not_less)
      (simp flip: linorder_not_less)
  then show ?thesis
    by (auto simp: config_ok_def word_le_nat_alt one_le_unat_iff list_ex_iff)
qed

text \<open>A range check for a floating point field: finite and above zero.\<close>

definition f32_finite_positive :: "f32 \<Rightarrow> bool" where
  "f32_finite_positive x \<longleftrightarrow> is_finite x \<and> \<not> fp_le x (FFin 0)"

definition f32_unit_interval :: "f32 \<Rightarrow> bool" where
  "f32_unit_interval x \<longleftrightarrow>
     is_finite x \<and> (fp_le (FFin 0) x \<and> fp_le x (FFin 1)) \<and> \<not> fp_eq x (FFin 0)"

definition validate_generation :: "generation_config \<Rightarrow> scheduler_error + unit" where
  "validate_generation config =
     (if gc_struct_size config \<noteq> of_nat sizeof_generation_config
      then Err (InvalidGeneration ''struct_size does not match GenerationConfig'')
      else if list_ex (\<lambda>v. v \<noteq> 0) (gc_reserved config)
      then Err (InvalidGeneration ''reserved fields must be zero'')
      else if max_codec_frames config = 0
      then Err (InvalidGeneration ''max_codec_frames must be non-zero'')
      else if MAX_CODEC_FRAMES < max_codec_frames config
      then Err (InvalidGeneration ''max_codec_frames exceeds the native sequence limit'')
      else if \<not> f32_finite_positive (gc_temperature config)
      then Err (InvalidGeneration ''temperature must be finite and positive'')
      else if \<not> f32_finite_positive (predictor_temperature config)
      then Err (InvalidGeneration ''predictor_temperature must be finite and positive'')
      else if \<not> f32_unit_interval (gc_top_p config)
      then Err (InvalidGeneration ''top_p must be finite and in (0, 1]'')
      else if \<not> f32_unit_interval (predictor_top_p config)
      then Err (InvalidGeneration ''predictor_top_p must be finite and in (0, 1]'')
      else if \<not> f32_finite_positive (gc_repetition_penalty config)
      then Err (InvalidGeneration ''repetition_penalty must be finite and positive'')
      else if 1 < gc_do_sample config \<or> 1 < predictor_do_sample config
      then Err (InvalidGeneration ''sampling flags must be zero or one'')
      else if 3072 < gc_top_k config \<or> 2048 < predictor_top_k config
      then Err (InvalidGeneration ''top_k exceeds the corresponding model vocabulary'')
      else Ok ())"

lemma validate_generation_Ok_iff:
  "validate_generation g = Ok () \<longleftrightarrow>
     gc_struct_size g = 120 \<and> (\<forall>v \<in> set (gc_reserved g). v = 0) \<and>
     0 < max_codec_frames g \<and> max_codec_frames g \<le> 8192 \<and>
     f32_finite_positive (gc_temperature g) \<and> f32_finite_positive (predictor_temperature g) \<and>
     f32_unit_interval (gc_top_p g) \<and> f32_unit_interval (predictor_top_p g) \<and>
     f32_finite_positive (gc_repetition_penalty g) \<and>
     gc_do_sample g \<le> 1 \<and> predictor_do_sample g \<le> 1 \<and>
     gc_top_k g \<le> 3072 \<and> predictor_top_k g \<le> 2048"
  by (auto simp: validate_generation_def rt_consts sizeof_generation_config_def list_ex_iff
      not_less word_neq_0_conv)

section \<open>Construction\<close>

text \<open>\<open>spawn_error\<close> is the message of a failed thread creation, if it failed.\<close>

definition scheduler_new ::
  "engine_config \<Rightarrow> 'b \<Rightarrow> string option \<Rightarrow> scheduler_error + ('b, 's) sched" where
  "scheduler_new config backend spawn_error =
     and_then (validate_config config) (\<lambda>_.
     let capacity = unat (max_concurrent_requests config) in
     and_then (ok_or (Option.bind (usize_checked_mul capacity 4) (\<lambda>v. usize_checked_add v 8))
        (InvalidConfiguration ''command queue capacity overflow'')) (\<lambda>command_capacity.
     case spawn_error of
       Some e \<Rightarrow> Err (SchedWorker e)
     | None \<Rightarrow> Ok \<lparr>sc_config = config, sc_slots = slot_pool_new capacity, sc_channel = [],
         sc_channel_capacity = command_capacity, sc_receiver_alive = True, sc_shutdown = False,
         sc_next_request_id = 1, sc_shareds = [], sc_handles = [], sc_active = [],
         sc_pending = [], sc_backend = backend\<rparr>))"

lemma scheduler_new_total:
  "config_ok config \<Longrightarrow> \<exists>w. scheduler_new config b None = Ok w \<and>
     sc_channel_capacity w = 4 * unat (max_concurrent_requests config) + 8 \<and>
     sp_capacity (sc_slots w) = unat (max_concurrent_requests config) \<and> sp_used (sc_slots w) = 0"
  by (auto simp: scheduler_new_def validate_config_Ok_iff [THEN iffD2] Let_def ok_or_def
      usize_checked_mul_def usize_checked_add_def usize_max_def config_ok_def slot_pool_new_def)

lemma scheduler_new_shape:
  assumes "scheduler_new config b None = Ok w"
  shows "config_ok config" "sc_config w = config" "sc_channel w = []" "sc_shareds w = []"
    "sc_handles w = []" "sc_active w = []" "sc_pending w = []" "sc_receiver_alive w"
    "\<not> sc_shutdown w" "sc_next_request_id w = 1"
    "sc_slots w = slot_pool_new (unat (max_concurrent_requests config))"
proof -
  have v: "validate_config config = Ok ()"
    using assms by (cases "validate_config config") (auto simp: scheduler_new_def)
  then show "config_ok config" by (simp add: validate_config_Ok_iff)
  show "sc_config w = config" "sc_channel w = []" "sc_shareds w = []"
    "sc_handles w = []" "sc_active w = []" "sc_pending w = []" "sc_receiver_alive w"
    "\<not> sc_shutdown w" "sc_next_request_id w = 1"
    "sc_slots w = slot_pool_new (unat (max_concurrent_requests config))"
    using assms by (auto simp: scheduler_new_def v Let_def ok_or_def split: option.splits)
qed

section \<open>Starting a request\<close>

text \<open>
  \<open>start\<close> up to the blocking send: the checks, the permit, the id, and the shared
  state with its free PCM buffers. The new request's reference is the next index.
\<close>

definition start_prepare ::
  "request_input \<Rightarrow> generation_config \<Rightarrow> instant \<Rightarrow> ('b, 's) sched \<Rightarrow>
     (scheduler_error + pending_start) \<times> ('b, 's) sched" where
  "start_prepare input generation now w =
     (case request_input_validate input (sc_config w) of
        Inl e \<Rightarrow> (Err (InvalidInput e), w)
      | Inr _ \<Rightarrow> (case validate_generation generation of
        Inl e \<Rightarrow> (Err e, w)
      | Inr _ \<Rightarrow> (case try_acquire (sc_slots w) of
        None \<Rightarrow> (Err SchedFull, w)
      | Some slots \<Rightarrow>
          (let id' = sc_next_request_id w;
               packet_samples = unat (packet_frames (sc_config w)) * unat SAMPLES_PER_CODEC_FRAME;
               shared = request_shared_new id' (unat (pcm_ring_slots (sc_config w)))
                          packet_samples now;
               r = length (sc_shareds w)
           in (Ok \<lparr>ps_request = \<lparr>br_id = id', br_input = input, br_generation = generation\<rparr>,
                   ps_shared = r, ps_enqueued_at = now\<rparr>,
               w\<lparr>sc_slots := slots, sc_next_request_id := id' + 1,
                 sc_shareds := sc_shareds w @ [shared],
                 sc_handles := sc_handles w @ [\<lparr>rh_cancel_sent = False, rh_live = False\<rparr>]\<rparr>)))))"

text \<open>The send; on a closed channel the pending start is dropped with its permit.\<close>

definition start_send ::
  "pending_start \<Rightarrow> ('b, 's) sched \<Rightarrow> (scheduler_error + sref) \<times> ('b, 's) sched" where
  "start_send p w =
     (case send (CmdStart p) w of
        (True, w') \<Rightarrow> (Ok (ps_shared p),
          w'\<lparr>sc_handles := (sc_handles w')[ps_shared p :=
             \<lparr>rh_cancel_sent = False, rh_live = True\<rparr>]\<rparr>)
      | (False, w') \<Rightarrow> (Err SchedClosed, release_slot w'))"

definition scheduler_start ::
  "request_input \<Rightarrow> generation_config \<Rightarrow> instant \<Rightarrow> ('b, 's) sched \<Rightarrow>
     (scheduler_error + sref) \<times> ('b, 's) sched" where
  "scheduler_start input generation now w =
     (case start_prepare input generation now w of
        (Inl e, w') \<Rightarrow> (Err e, w')
      | (Inr p, w') \<Rightarrow> start_send p w')"

section \<open>The request handle\<close>

definition handle_phase :: "('b, 's) sched \<Rightarrow> sref \<Rightarrow> request_phase" where
  "handle_phase w r = st_phase (state_at w r)"

definition handle_metrics :: "('b, 's) sched \<Rightarrow> sref \<Rightarrow> request_metrics" where
  "handle_metrics w r = st_metrics (state_at w r)"

definition handle_finish_reason :: "('b, 's) sched \<Rightarrow> sref \<Rightarrow> finish_reason" where
  "handle_finish_reason w r = st_finish_reason (state_at w r)"

text \<open>
  One pass through the loop of \<open>poll\<close> with the state locked. \<open>None\<close> means that the
  caller waits on the condition variable and comes back through \<open>poll_resume\<close>.
\<close>

definition poll_iteration ::
  "sref \<Rightarrow> duration \<Rightarrow> instant option \<Rightarrow> instant \<Rightarrow> ('b, 's) sched \<Rightarrow>
     (poll_error + poll_outcome) option \<times> ('b, 's) sched" where
  "poll_iteration r timeout deadline now w =
     (let st = state_at w r in
      case st_failure st of
        Some e \<Rightarrow> (Some (Err (PollFailed e)), w)
      | None \<Rightarrow>
          if st_cancel_requested st \<or> st_phase st = Cancelled
          then (Some (Err PollCancelled), w)
          else (case st_packets st of
            p # rest \<Rightarrow>
              (let m = st_metrics st;
                   m1 = m\<lparr>emitted_samples := emitted_samples m + ucast (sample_count (op_descriptor p)),
                          emitted_packets := emitted_packets m + 1\<rparr>;
                   m2 = (if first_audio_microseconds m1 = 0
                         then m1\<lparr>first_audio_microseconds :=
                                 duration_microseconds (now - sh_started_at (shared_at w r))\<rparr>
                         else m1);
                   phase' = (if pd_is_final (op_descriptor p) \<noteq> 0 \<and> rest = [] \<and>
                                st_failure st = None \<and> \<not> st_cancel_requested st
                             then Completed else st_phase st)
               in (Some (Ok (PollPacket p)),
                   try_send CmdWake (upd_state r (\<lambda>st. st\<lparr>st_packets := rest,
                      st_metrics := m2, st_phase := phase'\<rparr>) w)))
          | [] \<Rightarrow>
              if st_producer_finished st
              then (Some (Ok (PollEndOfStream (st_finish_reason st))),
                    upd_state r (\<lambda>st. st\<lparr>st_phase := Completed\<rparr>) w)
              else if timeout = 0 then (Some (Ok PollWouldBlock), w)
              else (case deadline of
                  None \<Rightarrow> (Some (Ok PollWouldBlock), w)
                | Some d \<Rightarrow> if d \<le> now then (Some (Ok PollWouldBlock), w) else (None, w))))"

definition poll_resume ::
  "bool \<Rightarrow> sref \<Rightarrow> duration \<Rightarrow> instant option \<Rightarrow> instant \<Rightarrow> ('b, 's) sched \<Rightarrow>
     (poll_error + poll_outcome) option \<times> ('b, 's) sched" where
  "poll_resume timed_out r timeout deadline now w =
     (if timed_out then (Some (Ok PollWouldBlock), w)
      else poll_iteration r timeout deadline now w)"

text \<open>\<open>cancel\<close>: the part under the state lock (is a command still to be sent?),
  then the send.\<close>

definition cancel_mark :: "sref \<Rightarrow> ('b, 's) sched \<Rightarrow> bool \<times> ('b, 's) sched" where
  "cancel_mark r w =
     (let h = sc_handles w ! r;
          w1 = w\<lparr>sc_handles := (sc_handles w)[r := h\<lparr>rh_cancel_sent := True\<rparr>]\<rparr>
      in if rh_cancel_sent h then (False, w)
         else if phase_is_terminal (st_phase (state_at w1 r)) then (False, w1)
         else (True, fold drop_packet (st_packets (state_at w1 r))
                (upd_state r (\<lambda>st. st\<lparr>st_cancel_requested := True,
                   st_finish_reason := FinishNone, st_packets := []\<rparr>) w1)))"

definition handle_cancel :: "sref \<Rightarrow> ('b, 's) sched \<Rightarrow> (scheduler_error + unit) \<times> ('b, 's) sched" where
  "handle_cancel r w =
     (case cancel_mark r w of
        (False, w1) \<Rightarrow> (Ok (), w1)
      | (True, w1) \<Rightarrow>
          (case send (CmdCancel (sh_id (shared_at w1 r))) w1 of
             (True, w2) \<Rightarrow> (Ok (), w2)
           | (False, w2) \<Rightarrow> (Err SchedClosed, w2)))"

text \<open>Dropping the handle cancels the request; dropping the scheduler asks the worker
  to stop (and joins it).\<close>

definition handle_drop :: "sref \<Rightarrow> ('b, 's) sched \<Rightarrow> ('b, 's) sched" where
  "handle_drop r w =
     (let w1 = snd (handle_cancel r w)
      in w1\<lparr>sc_handles := (sc_handles w1)[r := (sc_handles w1 ! r)\<lparr>rh_live := False\<rparr>]\<rparr>)"

definition scheduler_drop :: "('b, 's) sched \<Rightarrow> ('b, 's) sched" where
  "scheduler_drop w = try_send CmdShutdown (w\<lparr>sc_shutdown := True\<rparr>)"

end
