(* ===== verification/RtBackendApi.thy ===== *)
theory RtBackendApi
  imports RtShared
begin

text \<open>
  The \<open>StreamingBackend\<close> trait of \<open>qwen3-tts-runtime/src/scheduler.rs\<close> and the worker's
  use of it. A backend of state type \<open>'b\<close> with sessions \<open>'s\<close> is a record of its trait
  methods; a method call is \<open>Panicked\<close> when it unwinds, and always gives back the
  backend state, and for \<open>step_batch\<close> the sessions and buffers it mutated in place.
\<close>

type_synonym ('b, 's) start_fun =
  "'b \<Rightarrow> backend_request \<Rightarrow> (backend_error + 's backend_started) unwind \<times> 'b"

type_synonym ('b, 's) step_fun =
  "'b \<Rightarrow> 's \<Rightarrow> u32 \<Rightarrow> pcm \<Rightarrow> (backend_error + backend_packet) unwind \<times> 's \<times> pcm \<times> 'b"

record ('b, 's) streaming_backend =
  be_start_batch ::
    "'b \<Rightarrow> backend_request list \<Rightarrow> (backend_error + 's backend_started) list unwind \<times> 'b"
  be_step_batch ::
    "'b \<Rightarrow> ('s \<times> pcm) list \<Rightarrow> u32 \<Rightarrow>
       (backend_error + backend_packet) list unwind \<times> ('s \<times> pcm) list \<times> 'b"
  be_cancel :: "'b \<Rightarrow> 's \<Rightarrow> (backend_error + unit) unwind \<times> 's \<times> 'b"

section \<open>The default methods of the trait\<close>

fun default_start_batch ::
  "('b, 's) start_fun \<Rightarrow> 'b \<Rightarrow> backend_request list \<Rightarrow>
     (backend_error + 's backend_started) list unwind \<times> 'b" where
  "default_start_batch start b [] = (Returned [], b)"
| "default_start_batch start b (q # qs) =
     (case start b q of
        (Panicked, b') \<Rightarrow> (Panicked, b')
      | (Returned r, b') \<Rightarrow>
          (case default_start_batch start b' qs of
             (Panicked, b'') \<Rightarrow> (Panicked, b'')
           | (Returned rs, b'') \<Rightarrow> (Returned (r # rs), b'')))"

fun default_step_batch ::
  "('b, 's) step_fun \<Rightarrow> 'b \<Rightarrow> ('s \<times> pcm) list \<Rightarrow> u32 \<Rightarrow>
     (backend_error + backend_packet) list unwind \<times> ('s \<times> pcm) list \<times> 'b" where
  "default_step_batch step b [] frames = (Returned [], [], b)"
| "default_step_batch step b ((s, buf) # qs) frames =
     (case step b s frames buf of
        (Panicked, s', buf', b') \<Rightarrow> (Panicked, (s', buf') # qs, b')
      | (Returned r, s', buf', b') \<Rightarrow>
          (case default_step_batch step b' qs frames of
             (Panicked, qs', b'') \<Rightarrow> (Panicked, (s', buf') # qs', b'')
           | (Returned rs, qs', b'') \<Rightarrow> (Returned (r # rs), (s', buf') # qs', b'')))"

definition default_cancel :: "'b \<Rightarrow> 's \<Rightarrow> (backend_error + unit) unwind \<times> 's \<times> 'b" where
  "default_cancel b s = (Returned (Ok ()), s, b)"

section \<open>What the borrow rules guarantee\<close>

text \<open>
  \<open>step_batch\<close> gets a slice of exclusive borrows: it can change what they refer to, but
  neither how many there are nor the length of a PCM slice. A model of a backend by
  functions on lists has to say so.
\<close>

definition in_place :: "('s \<times> pcm) list \<Rightarrow> ('s \<times> pcm) list \<Rightarrow> bool" where
  "in_place qs qs' \<longleftrightarrow> map (length \<circ> snd) qs' = map (length \<circ> snd) qs"

locale borrowing_backend =
  fixes step_batch ::
    "'b \<Rightarrow> ('s \<times> pcm) list \<Rightarrow> u32 \<Rightarrow>
       (backend_error + backend_packet) list unwind \<times> ('s \<times> pcm) list \<times> 'b"
  assumes step_in_place: "step_batch b qs frames = (r, qs', b') \<Longrightarrow> in_place qs qs'"
begin

lemma step_count: "step_batch b qs frames = (r, qs', b') \<Longrightarrow> length qs' = length qs"
  using step_in_place [of b qs frames r qs' b'] by (auto simp: in_place_def dest: map_eq_imp_length_eq)

lemma step_pcm_length:
  assumes "step_batch b qs frames = (r, qs', b')" and "i < length qs"
  shows "length (snd (qs' ! i)) = length (snd (qs ! i))"
proof -
  have "map (length \<circ> snd) qs' ! i = map (length \<circ> snd) qs ! i"
    using step_in_place [OF assms(1)] by (simp add: in_place_def)
  then show ?thesis
    using assms step_count [OF assms(1)] by simp
qed

end

lemma default_step_batch_in_place:
  assumes "\<And>b s frames buf r s' buf' b'.
      step b s frames buf = (r, s', buf', b') \<Longrightarrow> length buf' = length buf"
    and "default_step_batch step b qs frames = (r, qs', b')"
  shows "in_place qs qs'"
  using assms(2)
proof (induction qs arbitrary: b r qs' b' rule: list.induct)
  case (Cons q qs)
  obtain s buf where q: "q = (s, buf)" by (cases q)
  obtain r1 s1 buf1 b1 where st: "step b s frames buf = (r1, s1, buf1, b1)"
    by (cases "step b s frames buf") auto
  obtain r2 qs2 b2 where rest: "default_step_batch step b1 qs frames = (r2, qs2, b2)"
    by (cases "default_step_batch step b1 qs frames") auto
  have "in_place qs qs2" using Cons.IH [OF rest] .
  then show ?case
    using Cons.prems assms(1) [OF st] rest
    by (auto simp: q st in_place_def split: unwind.splits)
qed (simp add: in_place_def)

lemma default_step_batch_result_count:
  "default_step_batch step b qs frames = (Returned rs, qs', b') \<Longrightarrow> length rs = length qs"
  by (induction step b qs frames arbitrary: rs qs' b' rule: default_step_batch.induct)
    (auto split: unwind.splits prod.splits)

lemma default_start_batch_result_count:
  "default_start_batch start b qs = (Returned rs, b') \<Longrightarrow> length rs = length qs"
  by (induction start b qs arbitrary: rs b' rule: default_start_batch.induct)
    (auto split: unwind.splits prod.splits)

section \<open>The cancel call\<close>

text \<open>\<open>cancel_backend_safely\<close>: the result and a panic are both ignored; the session is
  the caller's to drop.\<close>

definition cancel_backend_safely :: "('b, 's) streaming_backend \<Rightarrow> 's \<Rightarrow> 'b \<Rightarrow> 'b" where
  "cancel_backend_safely be s b = snd (snd (be_cancel be b s))"

definition cancel_session ::
  "('b, 's) streaming_backend \<Rightarrow> 's active_request \<Rightarrow> ('b, 's) sched \<Rightarrow> ('b, 's) sched" where
  "cancel_session be a w =
     (case ar_session a of
        None \<Rightarrow> w
      | Some s \<Rightarrow> w\<lparr>sc_backend := cancel_backend_safely be s (sc_backend w)\<rparr>)"

end
