(* ===== verification/RtWorker.thy ===== *)
theory RtWorker
  imports RtHandle RtBackendApi
begin

text \<open>
  The worker thread of \<open>qwen3-tts-runtime/src/scheduler.rs\<close>: commands, prefill, packet
  steps, removal of finished requests, and the finalisation that runs however the loop
  ended. Where other threads can act between two accesses to shared data, the
  function is cut there, and the whole function is the composition of its pieces.
\<close>

section \<open>Commands\<close>

text \<open>The two halves of the cancel command: the pending request, then the active one.\<close>

definition cancel_pending_id :: "u64 \<Rightarrow> ('b, 's) sched \<Rightarrow> ('b, 's) sched" where
  "cancel_pending_id id' w =
     (case position (\<lambda>p. br_id (ps_request p) = id') (sc_pending w) of
        None \<Rightarrow> w
      | Some i \<Rightarrow>
          (let p = sc_pending w ! i
           in retire_pending p (mark_cancelled (ps_shared p)
                (w\<lparr>sc_pending := swap_remove i (sc_pending w)\<rparr>))))"

definition cancel_active_id :: "u64 \<Rightarrow> ('b, 's) sched \<Rightarrow> ('b, 's) sched" where
  "cancel_active_id id' w =
     (case List.find (\<lambda>a. rec_id (ar_record a) = id') (sc_active w) of
        None \<Rightarrow> w
      | Some a \<Rightarrow> mark_cancelled (ar_shared a) w)"

definition handle_command :: "command \<Rightarrow> ('b, 's) sched \<Rightarrow> bool \<times> ('b, 's) sched" where
  "handle_command c w =
     (case c of
        CmdStart p \<Rightarrow> (False, w\<lparr>sc_pending := sc_pending w @ [p]\<rparr>)
      | CmdCancel id' \<Rightarrow> (False, cancel_active_id id' (cancel_pending_id id' w))
      | CmdWake \<Rightarrow> (False, w)
      | CmdShutdown \<Rightarrow> (True, w))"

text \<open>
  \<open>drain_commands\<close> when no other thread sends meanwhile: every queued command up to a
  shutdown. The flag is the new value of \<open>command_shutdown\<close>. The handling of a command
  can queue \<open>Wake\<close> commands of its own (a dropped packet's recycled buffer), so the loop
  is bounded by fuel.
\<close>

fun drain_commands :: "nat \<Rightarrow> bool \<Rightarrow> ('b, 's) sched \<Rightarrow> (bool \<times> ('b, 's) sched) option" where
  "drain_commands 0 shutdown w = None"
| "drain_commands (Suc fuel) shutdown w =
     (case sc_channel w of
        [] \<Rightarrow> Some (shutdown, w)
      | c # rest \<Rightarrow>
          (case handle_command c (w\<lparr>sc_channel := rest\<rparr>) of
             (True, w') \<Rightarrow> Some (True, w')
           | (False, w') \<Rightarrow> drain_commands fuel shutdown w'))"

text \<open>
  \<open>coalesce_pending_starts\<close> against the commands that arrive inside its 2 ms window,
  given as a list; a command that arrives after the window is not in it.
\<close>

definition coalesce_available :: "nat \<Rightarrow> ('b, 's) sched \<Rightarrow> nat" where
  "coalesce_available maximum_active w = maximum_active - length (sc_active w)"

definition coalesce_waits :: "nat \<Rightarrow> ('b, 's) sched \<Rightarrow> bool" where
  "coalesce_waits available w \<longleftrightarrow>
     sc_pending w \<noteq> [] \<and> available \<noteq> 0 \<and> length (sc_pending w) < available"

fun coalesce_loop :: "nat \<Rightarrow> command list \<Rightarrow> bool \<Rightarrow> ('b, 's) sched \<Rightarrow> bool \<times> ('b, 's) sched" where
  "coalesce_loop available [] shutdown w = (shutdown, w)"
| "coalesce_loop available (c # arrivals) shutdown w =
     (if coalesce_waits available w
      then (case handle_command c w of
              (True, w') \<Rightarrow> (True, w')
            | (False, w') \<Rightarrow> coalesce_loop available arrivals shutdown w')
      else (shutdown, w))"

definition coalesce_pending_starts ::
  "nat \<Rightarrow> command list \<Rightarrow> bool \<Rightarrow> ('b, 's) sched \<Rightarrow> bool \<times> ('b, 's) sched" where
  "coalesce_pending_starts maximum_active arrivals shutdown w =
     coalesce_loop (coalesce_available maximum_active w) arrivals shutdown w"

section \<open>Prefill\<close>

text \<open>The first loop of \<open>start_pending\<close>, one request of \<open>pending.drain(..)\<close> at a time.\<close>

definition classify_pending ::
  "pending_start \<Rightarrow> pending_start list \<times> ('b, 's) sched \<Rightarrow> pending_start list \<times> ('b, 's) sched" where
  "classify_pending p = (\<lambda>(ready, w).
     if is_cancel_requested w (ps_shared p)
     then (ready, retire_pending p (mark_cancelled (ps_shared p) w))
     else (ready @ [p], w))"

definition prefill_mark :: "instant \<Rightarrow> pending_start \<Rightarrow> ('b, 's) sched \<Rightarrow> ('b, 's) sched" where
  "prefill_mark prefill_started p =
     mark_prefilling (ps_shared p)
       (duration_microseconds (prefill_started - ps_enqueued_at p))"

definition fail_pending :: "backend_error \<Rightarrow> pending_start \<Rightarrow> ('b, 's) sched \<Rightarrow> ('b, 's) sched" where
  "fail_pending e p w = retire_pending p (mark_failed (ps_shared p) e w)"

text \<open>The active entry of a started request: its record has passed through prefill.\<close>

definition active_entry ::
  "pending_start \<Rightarrow> 's backend_started \<Rightarrow> request_metrics \<Rightarrow> 's active_request" where
  "active_entry p started metrics =
     (let rec0 = request_record_new (br_id (ps_request p));
          rec1 = snd (transition rec0 Prefilling);
          rec2 = snd (transition rec1 Generating)
      in \<lparr>ar_session = Some (bs_session started), ar_shared = ps_shared p,
          ar_record = rec2\<lparr>rec_metrics := metrics\<rparr>, ar_started_at = ps_enqueued_at p,
          ar_max_codec_frames = max_codec_frames (br_generation (ps_request p))\<rparr>)"

definition deliver_start ::
  "pending_start \<times> (backend_error + 's backend_started) \<Rightarrow> ('b, 's) sched \<Rightarrow> ('b, 's) sched" where
  "deliver_start = (\<lambda>(p, result) w.
     case result of
       Inr started \<Rightarrow>
         (let w1 = mark_generating (ps_shared p) started w
          in w1\<lparr>sc_active := sc_active w1 @
               [active_entry p started (st_metrics (state_at w1 (ps_shared p)))]\<rparr>)
     | Inl e \<Rightarrow> fail_pending e p w)"

lemma active_entry_fields [simp]:
  "ar_shared (active_entry p started m) = ps_shared p"
  "ar_session (active_entry p started m) = Some (bs_session started)"
  "ar_max_codec_frames (active_entry p started m) = max_codec_frames (br_generation (ps_request p))"
  "rec_id (ar_record (active_entry p started m)) = br_id (ps_request p)"
  "rec_phase (ar_record (active_entry p started m)) = Generating"
  "next_packet_sequence (ar_record (active_entry p started m)) = 0"
  "next_codec_frame (ar_record (active_entry p started m)) = 0"
  "next_sample (ar_record (active_entry p started m)) = 0"
  by (simp_all add: active_entry_def transition_def transition_allowed_def request_record_new_def Let_def)

text \<open>The backend call and what is to be done with each request afterwards.\<close>

definition prefill_call ::
  "('b, 's) streaming_backend \<Rightarrow> pending_start list \<Rightarrow> ('b, 's) sched \<Rightarrow>
     (pending_start \<times> (backend_error + 's backend_started)) list \<times> ('b, 's) sched" where
  "prefill_call be ready w =
     (case be_start_batch be (sc_backend w) (map ps_request ready) of
        (Panicked, b') \<Rightarrow>
          (map (\<lambda>p. (p, Err (backend_error_with_status StatusInternal
                               ''backend start_batch panicked''))) ready,
           w\<lparr>sc_backend := b'\<rparr>)
      | (Returned results, b') \<Rightarrow>
          (if length results \<noteq> length ready
           then (map (\<lambda>p. (p, Err (backend_error_new
                   ''backend returned the wrong number of prefill results''))) ready,
                 w\<lparr>sc_backend := b'\<rparr>)
           else (zip ready results, w\<lparr>sc_backend := b'\<rparr>)))"

definition start_pending ::
  "('b, 's) streaming_backend \<Rightarrow> instant \<Rightarrow> ('b, 's) sched \<Rightarrow> ('b, 's) sched" where
  "start_pending be prefill_started w =
     (if sc_pending w = [] then w
      else (let (ready, w1) = fold classify_pending (sc_pending w) ([], w\<lparr>sc_pending := []\<rparr>)
            in if ready = [] then w1
               else (let w2 = fold (prefill_mark prefill_started) ready w1;
                         (outcomes, w3) = prefill_call be ready w2
                     in fold deliver_start outcomes w3)))"

section \<open>Removing requests\<close>

text \<open>The \<open>while index < active.len()\<close> loop with \<open>swap_remove\<close> that both removals share;
  \<open>finish\<close> is what happens to a removed request.\<close>

function remove_loop ::
  "(('b, 's) sched \<Rightarrow> 's active_request \<Rightarrow> bool) \<Rightarrow>
   ('s active_request \<Rightarrow> ('b, 's) sched \<Rightarrow> ('b, 's) sched) \<Rightarrow>
   nat \<Rightarrow> 's active_request list \<Rightarrow> ('b, 's) sched \<Rightarrow> 's active_request list \<times> ('b, 's) sched" where
  "remove_loop gone finish i active w =
     (if i < length active
      then (if gone w (active ! i)
            then remove_loop gone finish i (swap_remove i active) (finish (active ! i) w)
            else remove_loop gone finish (i + 1) active w)
      else (active, w))"
  by pat_completeness auto
termination
  by (relation "measure (\<lambda>(gone, finish, i, active, w). length active - i)")
    auto

declare remove_loop.simps [simp del]

definition remove_cancelled_one ::
  "('b, 's) streaming_backend \<Rightarrow> 's active_request \<Rightarrow> ('b, 's) sched \<Rightarrow> ('b, 's) sched" where
  "remove_cancelled_one be a w =
     retire_active a (mark_cancelled (ar_shared a) (cancel_session be a w))"

definition remove_cancelled ::
  "('b, 's) streaming_backend \<Rightarrow> ('b, 's) sched \<Rightarrow> ('b, 's) sched" where
  "remove_cancelled be w =
     (let (active, w') = remove_loop (\<lambda>w a. is_cancel_requested w (ar_shared a))
                           (remove_cancelled_one be) 0 (sc_active w) w
      in w'\<lparr>sc_active := active\<rparr>)"

definition failed_or_cancelled :: "('b, 's) sched \<Rightarrow> 's active_request \<Rightarrow> bool" where
  "failed_or_cancelled w a \<longleftrightarrow>
     (let st = state_at w (ar_shared a) in st_failure st \<noteq> None \<or> st_cancel_requested st)"

definition request_finished :: "('b, 's) sched \<Rightarrow> 's active_request \<Rightarrow> bool" where
  "request_finished w a \<longleftrightarrow>
     st_producer_finished (state_at w (ar_shared a)) \<or> failed_or_cancelled w a"

text \<open>\<open>failed_or_cancelled\<close> and \<open>finished\<close> are read once, under the lock.\<close>

definition remove_finished_one ::
  "('b, 's) streaming_backend \<Rightarrow> 's active_request \<Rightarrow> ('b, 's) sched \<Rightarrow> ('b, 's) sched" where
  "remove_finished_one be a w =
     retire_active a (if failed_or_cancelled w a then cancel_session be a w else w)"

definition remove_finished ::
  "('b, 's) streaming_backend \<Rightarrow> ('b, 's) sched \<Rightarrow> ('b, 's) sched" where
  "remove_finished be w =
     (let (active, w') = remove_loop request_finished (remove_finished_one be) 0 (sc_active w) w
      in w'\<lparr>sc_active := active\<rparr>)"

section \<open>One packet step of the eligible requests\<close>

definition PCM_SENTINEL :: i16 where
  "PCM_SENTINEL = - 32768"

definition validate_backend_packet :: "backend_packet \<Rightarrow> u32 \<Rightarrow> pcm \<Rightarrow> string + unit" where
  "validate_backend_packet packet frames buffer =
     (if bp_codec_frames packet = 0 \<or> frames < bp_codec_frames packet
      then Err ''backend emitted an invalid codec frame count''
      else if bp_is_final packet \<noteq> finish_is_terminal (bp_finish_reason packet)
      then Err ''backend final flag and finish reason disagree''
      else (let expected = unat (bp_codec_frames packet) * unat SAMPLES_PER_CODEC_FRAME in
        if length buffer < expected
        then Err ''backend PCM output exceeds its caller-owned buffer''
        else if list_ex (\<lambda>sample. sample \<noteq> PCM_SENTINEL) (drop expected buffer)
        then Err ''backend wrote beyond the exact PCM sample count''
        else Ok ()))"

definition eligible_indices :: "('b, 's) sched \<Rightarrow> nat list" where
  "eligible_indices w =
     filter (\<lambda>i. can_accept_packet w (ar_shared (sc_active w ! i))) [0..<length (sc_active w)]"

definition set_session :: "nat \<Rightarrow> 's option \<Rightarrow> ('b, 's) sched \<Rightarrow> ('b, 's) sched" where
  "set_session i s w =
     w\<lparr>sc_active := (sc_active w)[i := (sc_active w ! i)\<lparr>ar_session := s\<rparr>]\<rparr>"

definition active_ref :: "('b, 's) sched \<Rightarrow> nat \<Rightarrow> sref" where
  "active_ref w i = ar_shared (sc_active w ! i)"

text \<open>The first loop: one eligible index.\<close>

definition select_one ::
  "nat \<Rightarrow> (nat \<times> 's \<times> pcm) list \<times> ('b, 's) sched \<Rightarrow> (nat \<times> 's \<times> pcm) list \<times> ('b, 's) sched" where
  "select_one i = (\<lambda>(selected, w).
     case ar_session (sc_active w ! i) of
       None \<Rightarrow> (selected, mark_failed (active_ref w i)
         (backend_error_new ''eligible request did not own a backend session'') w)
     | Some s \<Rightarrow>
         (let w1 = set_session i None w in
          case take_pcm (active_ref w1 i) w1 of
            (None, w2) \<Rightarrow> (selected, mark_failed (active_ref w2 i)
              (backend_error_new ''scheduler PCM pool was unexpectedly empty'')
              (set_session i (Some s) w2))
          | (Some buffer, w2) \<Rightarrow> (selected @ [(i, s, map (\<lambda>_. PCM_SENTINEL) buffer)], w2)))"

text \<open>The panic and wrong-count branches: one selected request.\<close>

definition step_abort ::
  "backend_error \<Rightarrow> nat \<times> 's \<times> pcm \<Rightarrow> ('b, 's) sched \<Rightarrow> ('b, 's) sched" where
  "step_abort e = (\<lambda>(i, s, buffer) w.
     mark_failed (active_ref w i) e (recycle_pcm (active_ref w i) buffer (set_session i (Some s) w)))"

definition set_record :: "nat \<Rightarrow> request_record \<Rightarrow> ('b, 's) sched \<Rightarrow> ('b, 's) sched" where
  "set_record i r w =
     w\<lparr>sc_active := (sc_active w)[i := (sc_active w ! i)\<lparr>ar_record := r\<rparr>]\<rparr>"

definition packet_descriptor ::
  "request_record \<Rightarrow> backend_packet \<Rightarrow> f32 \<Rightarrow> audio_packet_descriptor" where
  "packet_descriptor rcd packet step_us =
     \<lparr>pd_request_id = rec_id rcd, pd_sequence = next_packet_sequence rcd,
      first_codec_frame = next_codec_frame rcd, first_sample = next_sample rcd,
      pd_codec_frames = bp_codec_frames packet,
      sample_count = bp_codec_frames packet * SAMPLES_PER_CODEC_FRAME,
      sample_rate = SAMPLE_RATE, pd_channels = 1,
      pd_is_final = (if bp_is_final packet then 1 else 0), pd_reserved = 0,
      pd_talker_gpu_microseconds = bp_talker_gpu_microseconds packet,
      pd_codec_gpu_microseconds = bp_codec_gpu_microseconds packet,
      end_to_end_microseconds = step_us\<rparr>"

text \<open>The record after an accepted packet: metrics and the phase.\<close>

definition record_after_packet ::
  "backend_packet \<Rightarrow> u64 \<Rightarrow> request_record \<Rightarrow> request_record" where
  "record_after_packet packet elapsed rcd =
     (let m = rec_metrics rcd;
          m1 = (if first_codec_frame_microseconds m = 0
                then m\<lparr>first_codec_frame_microseconds := elapsed\<rparr> else m);
          m2 = m1\<lparr>wall_microseconds := elapsed,
                  peak_request_device_bytes :=
                    max (peak_request_device_bytes m1) (bp_peak_request_device_bytes packet),
                  peak_request_host_bytes :=
                    max (peak_request_host_bytes m1) (bp_peak_request_host_bytes packet)\<rparr>;
          rcd1 = rcd\<lparr>rec_metrics := m2\<rparr>
      in if bp_is_final packet
         then snd (transition rcd1 Draining)
         else rcd1)"

text \<open>
  The last loop: one selected request with its result. The step of the packet up to the
  push is worker-private; \<open>deliver_packet\<close> computes it, and the failure it reports or the
  packet it pushes is the shared effect.
\<close>

definition deliver_packet ::
  "request_record \<Rightarrow> u32 \<Rightarrow> backend_packet \<Rightarrow> u32 \<Rightarrow> pcm \<Rightarrow> f32 \<Rightarrow> u64 \<Rightarrow> sref \<Rightarrow>
     string + request_record \<times> owned_audio_packet" where
  "deliver_packet rcd max_frames packet frames buffer step_us elapsed r =
     and_then (validate_backend_packet packet frames buffer) (\<lambda>_.
     let next_frames = saturating_add (next_codec_frame rcd) (ucast (bp_codec_frames packet))
     in if (ucast max_frames :: u64) < next_frames
           \<or> next_frames = ucast max_frames \<and> \<not> bp_is_final packet
        then Err ''backend violated max_codec_frames termination''
        else (let d = packet_descriptor rcd packet step_us in
          case record_packet rcd d frames of
            (Inl _, _) \<Rightarrow> Err ''scheduler packet invariant failed''
          | (Inr _, rcd1) \<Rightarrow> Ok (record_after_packet packet elapsed rcd1,
              \<lparr>op_descriptor = d, op_finish_reason = bp_finish_reason packet,
               op_pcm = Some buffer, op_recycler = r\<rparr>)))"

definition deliver_result ::
  "u32 \<Rightarrow> f32 \<Rightarrow> instant \<Rightarrow> (nat \<times> 's \<times> pcm) \<times> (backend_error + backend_packet) \<Rightarrow>
     ('b, 's) sched \<Rightarrow> ('b, 's) sched" where
  "deliver_result frames step_us now = (\<lambda>((i, s, buffer), result) w.
     let w1 = set_session i (Some s) w;
         a = sc_active w1 ! i;
         r = ar_shared a
     in case result of
          Inl e \<Rightarrow> mark_failed r e (recycle_pcm r buffer w1)
        | Inr packet \<Rightarrow>
            (case deliver_packet (ar_record a) (ar_max_codec_frames a) packet frames buffer step_us
                    (duration_microseconds (now - ar_started_at a)) r of
               Inl message \<Rightarrow> mark_failed r (backend_error_new message) (recycle_pcm r buffer w1)
             | Inr (rcd', owned) \<Rightarrow>
                 (case push_packet r owned (rec_metrics rcd') (set_record i rcd' w1) of
                    (True, w2) \<Rightarrow> w2
                  | (False, w2) \<Rightarrow>
                      if is_cancel_requested w2 r then w2
                      else mark_failed r (backend_error_new ''scheduler packet queue overflowed'') w2)))"

text \<open>The backend call: what is to be done with each selected request.\<close>

datatype 's step_plan =
    StepAbort backend_error "(nat \<times> 's \<times> pcm) list"
  | StepDeliver "((nat \<times> 's \<times> pcm) \<times> (backend_error + backend_packet)) list"

definition step_call ::
  "('b, 's) streaming_backend \<Rightarrow> u32 \<Rightarrow> (nat \<times> 's \<times> pcm) list \<Rightarrow> ('b, 's) sched \<Rightarrow>
     's step_plan \<times> ('b, 's) sched" where
  "step_call be frames selected w =
     (case be_step_batch be (sc_backend w) (map snd selected) frames of
        (outcome, qs, b') \<Rightarrow>
          (let w1 = w\<lparr>sc_backend := b'\<rparr>;
               selected1 = zip (map fst selected) qs
           in case outcome of
                Panicked \<Rightarrow> (StepAbort (backend_error_with_status StatusInternal
                               ''backend step_batch panicked'') selected1, w1)
              | Returned results \<Rightarrow>
                  (if length results \<noteq> length selected1
                   then (StepAbort (backend_error_new
                           ''backend returned the wrong number of generation results'') selected1, w1)
                   else (StepDeliver (zip selected1 results), w1))))"

text \<open>\<open>clock k\<close> is the time read for the \<open>k\<close>-th delivered result.\<close>

definition step_eligible ::
  "('b, 's) streaming_backend \<Rightarrow> u32 \<Rightarrow> nat list \<Rightarrow> f32 \<Rightarrow> (nat \<Rightarrow> instant) \<Rightarrow>
     ('b, 's) sched \<Rightarrow> ('b, 's) sched" where
  "step_eligible be frames eligible step_us clock w =
     (let (selected, w1) = fold select_one eligible ([], w);
          (plan, w2) = step_call be frames selected w1
      in case plan of
           StepAbort e items \<Rightarrow> fold (step_abort e) items w2
         | StepDeliver items \<Rightarrow>
             fold (\<lambda>(k, item). deliver_result frames step_us (clock k) item)
               (enumerate 0 items) w2)"

section \<open>The end of the worker\<close>

definition final_mark :: "backend_error option \<Rightarrow> sref \<Rightarrow> ('b, 's) sched \<Rightarrow> ('b, 's) sched" where
  "final_mark failure r w =
     (case failure of Some e \<Rightarrow> mark_failed r e w | None \<Rightarrow> mark_cancelled r w)"

definition finalise_active ::
  "('b, 's) streaming_backend \<Rightarrow> backend_error option \<Rightarrow> 's active_request \<Rightarrow>
     ('b, 's) sched \<Rightarrow> ('b, 's) sched" where
  "finalise_active be failure a w =
     retire_active a (final_mark failure (ar_shared a) (cancel_session be a w))"

definition finalise_pending ::
  "backend_error option \<Rightarrow> pending_start \<Rightarrow> ('b, 's) sched \<Rightarrow> ('b, 's) sched" where
  "finalise_pending failure p w = retire_pending p (final_mark failure (ps_shared p) w)"

definition finalise_command ::
  "backend_error option \<Rightarrow> command \<Rightarrow> ('b, 's) sched \<Rightarrow> ('b, 's) sched" where
  "finalise_command failure c w =
     (case c of CmdStart p \<Rightarrow> finalise_pending failure p w | _ \<Rightarrow> w)"

text \<open>The last loop empties the channel; fuel as in \<open>drain_commands\<close>.\<close>

fun drain_final :: "nat \<Rightarrow> backend_error option \<Rightarrow> ('b, 's) sched \<Rightarrow> ('b, 's) sched option" where
  "drain_final 0 failure w = None"
| "drain_final (Suc fuel) failure w =
     (case sc_channel w of
        [] \<Rightarrow> Some w
      | c # rest \<Rightarrow> drain_final fuel failure (finalise_command failure c (w\<lparr>sc_channel := rest\<rparr>)))"

definition worker_failure :: "bool \<Rightarrow> backend_error option" where
  "worker_failure panicked =
     (if panicked
      then Some (backend_error_with_status StatusInternal ''runtime worker panicked'')
      else None)"

definition worker_finalise ::
  "('b, 's) streaming_backend \<Rightarrow> bool \<Rightarrow> nat \<Rightarrow> ('b, 's) sched \<Rightarrow> ('b, 's) sched option" where
  "worker_finalise be panicked fuel w =
     (let failure = worker_failure panicked;
          w1 = fold (finalise_active be failure) (sc_active w) (w\<lparr>sc_active := []\<rparr>);
          w2 = fold (finalise_pending failure) (sc_pending w1) (w1\<lparr>sc_pending := []\<rparr>)
      in map_option (\<lambda>w3. w3\<lparr>sc_receiver_alive := False\<rparr>) (drain_final fuel failure w2))"

end
