(* ===== verification/RtEffects.thy ===== *)
theory RtEffects
  imports RtWorker
begin

text \<open>
  What each operation on the shared state changes: the parts of the scheduler state it
  leaves alone, and its effect on a request's state and on its free PCM buffers. The
  simplifier applies these facts, so that the invariants of the system do not unfold
  the operations.
\<close>

fun chan_starts :: "command list \<Rightarrow> pending_start list" where
  "chan_starts [] = []"
| "chan_starts (CmdStart p # cs) = p # chan_starts cs"
| "chan_starts (CmdCancel _ # cs) = chan_starts cs"
| "chan_starts (CmdWake # cs) = chan_starts cs"
| "chan_starts (CmdShutdown # cs) = chan_starts cs"

lemma chan_starts_append [simp]: "chan_starts (cs @ ds) = chan_starts cs @ chan_starts ds"
  by (induction cs rule: chan_starts.induct) simp_all

text \<open>The channel without its wake-ups, which carry nothing.\<close>

definition cmds :: "('b, 's) sched \<Rightarrow> command list" where
  "cmds w = filter (\<lambda>c. c \<noteq> CmdWake) (sc_channel w)"

lemma chan_starts_cmds: "chan_starts (sc_channel w) = chan_starts (cmds w)"
proof -
  have "chan_starts cs = chan_starts (filter (\<lambda>c. c \<noteq> CmdWake) cs)" for cs
    by (induction cs rule: chan_starts.induct) simp_all
  then show ?thesis by (simp add: cmds_def)
qed

text \<open>Everything but the shared states and the wake-ups in the channel.\<close>

definition frame :: "('b, 's) sched \<Rightarrow> engine_config \<times> slot_pool \<times> command list \<times> bool \<times> bool \<times>
    u64 \<times> request_handle list \<times> 's active_request list \<times> pending_start list \<times> 'b \<times> nat \<times> nat" where
  "frame w = (sc_config w, sc_slots w, cmds w, sc_receiver_alive w,
     sc_shutdown w, sc_next_request_id w, sc_handles w, sc_active w, sc_pending w, sc_backend w,
     length (sc_shareds w), sc_channel_capacity w)"

lemma frame_fields:
  assumes "frame w' = frame w"
  shows "sc_config w' = sc_config w" "sc_slots w' = sc_slots w"
    "chan_starts (sc_channel w') = chan_starts (sc_channel w)"
    "sc_receiver_alive w' = sc_receiver_alive w" "sc_shutdown w' = sc_shutdown w"
    "sc_next_request_id w' = sc_next_request_id w" "sc_handles w' = sc_handles w"
    "sc_active w' = sc_active w" "sc_pending w' = sc_pending w" "sc_backend w' = sc_backend w"
    "length (sc_shareds w') = length (sc_shareds w)"
    "sc_channel_capacity w' = sc_channel_capacity w" "cmds w' = cmds w"
  using assms by (simp_all add: frame_def chan_starts_cmds)

section \<open>Reading back an update\<close>

lemma shared_at_upd_shared [simp]:
  "r < length (sc_shareds w) \<Longrightarrow>
     shared_at (upd_shared r f w) q = (if q = r then f (shared_at w r) else shared_at w q)"
  by (simp add: shared_at_def upd_shared_def)

lemma frame_upd_shared [simp]: "frame (upd_shared r f w) = frame w"
  by (simp add: frame_def upd_shared_def cmds_def)

lemma frame_upd_state [simp]: "frame (upd_state r f w) = frame w"
  by (simp add: upd_state_def)

lemma state_at_upd_state [simp]:
  "r < length (sc_shareds w) \<Longrightarrow>
     state_at (upd_state r f w) q = (if q = r then f (state_at w r) else state_at w q)"
  by (simp add: state_at_def upd_state_def)

definition free_at :: "('b, 's) sched \<Rightarrow> sref \<Rightarrow> pcm list" where
  "free_at w r = sh_free_pcm (shared_at w r)"

definition id_at :: "('b, 's) sched \<Rightarrow> sref \<Rightarrow> u64" where
  "id_at w r = sh_id (shared_at w r)"

lemma free_at_upd_state [simp]:
  "r < length (sc_shareds w) \<Longrightarrow> free_at (upd_state r f w) q = free_at w q"
  by (simp add: free_at_def upd_state_def)

lemma free_at_upd_state_fun [simp]:
  "r < length (sc_shareds w) \<Longrightarrow> free_at (upd_state r f w) = free_at w"
  by (simp add: fun_eq_iff)

lemma id_at_upd_state [simp]:
  "r < length (sc_shareds w) \<Longrightarrow> id_at (upd_state r f w) q = id_at w q"
  by (simp add: id_at_def upd_state_def)

lemma id_at_upd_state_fun [simp]:
  "r < length (sc_shareds w) \<Longrightarrow> id_at (upd_state r f w) = id_at w"
  by (simp add: fun_eq_iff)

lemma try_send_effect [simp]:
  "shared_at (try_send c w) = shared_at w" "state_at (try_send c w) = state_at w"
  "free_at (try_send c w) = free_at w" "id_at (try_send c w) = id_at w"
  by (simp_all add: fun_eq_iff try_send_def shared_at_def state_at_def free_at_def id_at_def)

lemma frame_try_send_Wake [simp]: "frame (try_send CmdWake w) = frame w"
  by (simp add: frame_def try_send_def cmds_def)

section \<open>Buffers\<close>

lemma frame_recycle_pcm [simp]: "frame (recycle_pcm r buffer w) = frame w"
  by (simp add: recycle_pcm_def)

lemma recycle_pcm_effect:
  assumes "r < length (sc_shareds w)"
  shows "state_at (recycle_pcm r buffer w) = state_at w"
    and "id_at (recycle_pcm r buffer w) = id_at w"
    and "free_at (recycle_pcm r buffer w) =
      (free_at w)(r := free_at w r @ [map (\<lambda>_. 0) buffer])"
  using assms by (auto simp: fun_eq_iff recycle_pcm_def state_at_def id_at_def free_at_def)

lemma frame_drop_packet [simp]: "frame (drop_packet p w) = frame w"
  by (simp add: drop_packet_def split: option.split)

lemma frame_fold_drop [simp]: "frame (fold drop_packet ps w) = frame w"
  by (induction ps arbitrary: w) simp_all

text \<open>The packets of a request's queue own a buffer each and return it to the request.\<close>

definition owned_by :: "sref \<Rightarrow> nat \<Rightarrow> owned_audio_packet \<Rightarrow> bool" where
  "owned_by r n p \<longleftrightarrow> op_recycler p = r \<and> (\<exists>buffer. op_pcm p = Some buffer \<and> length buffer = n)"

definition packet_buffer :: "owned_audio_packet \<Rightarrow> pcm" where
  "packet_buffer p = (case op_pcm p of None \<Rightarrow> [] | Some buffer \<Rightarrow> buffer)"

lemma drop_packet_owned: "owned_by r n p \<Longrightarrow> drop_packet p w = recycle_pcm r (packet_buffer p) w"
  by (auto simp: owned_by_def drop_packet_def packet_buffer_def)

lemma frame_length: "frame w' = frame w \<Longrightarrow> length (sc_shareds w') = length (sc_shareds w)"
  by (rule frame_fields)

lemma shareds_length [simp]:
  "length (sc_shareds (upd_state r f w)) = length (sc_shareds w)"
  "length (sc_shareds (recycle_pcm r buffer w)) = length (sc_shareds w)"
  "length (sc_shareds (fold drop_packet ps w)) = length (sc_shareds w)"
  "length (sc_shareds (try_send CmdWake w)) = length (sc_shareds w)"
  by (rule frame_length, simp)+

lemma fold_drop_effect:
  assumes "r < length (sc_shareds w)" and "\<forall>p \<in> set ps. owned_by r n p"
  shows "state_at (fold drop_packet ps w) = state_at w \<and>
    id_at (fold drop_packet ps w) = id_at w \<and>
    free_at (fold drop_packet ps w) =
      (free_at w)(r := free_at w r @ map (\<lambda>p. map (\<lambda>_. 0) (packet_buffer p)) ps)"
  using assms
proof (induction ps arbitrary: w)
  case (Cons p ps)
  let ?w = "recycle_pcm r (packet_buffer p) w"
  have len: "r < length (sc_shareds ?w)"
    using Cons.prems(1) by simp
  have d: "fold drop_packet (p # ps) w = fold drop_packet ps ?w"
    using Cons.prems(2) by (simp add: drop_packet_owned [of r n])
  show ?case
    unfolding d using Cons.IH [OF len] Cons.prems(2)
    unfolding recycle_pcm_effect [OF Cons.prems(1)] by (simp add: fun_eq_iff)
qed simp

lemma take_pcm_effect:
  assumes "r < length (sc_shareds w)" and "take_pcm r w = (res, w')"
  shows "frame w' = frame w" "state_at w' = state_at w" "id_at w' = id_at w"
    "res = None \<longleftrightarrow> free_at w r = []"
    "res = Some buffer \<Longrightarrow> free_at w r = free_at w' r @ [buffer]"
    "q \<noteq> r \<Longrightarrow> free_at w' q = free_at w q"
  using assms by (auto simp: take_pcm_def free_at_def state_at_def id_at_def fun_eq_iff
      Let_def split: if_splits)

section \<open>Marks\<close>

lemma frame_marks [simp]:
  "frame (mark_prefilling r us w) = frame w"
  "frame (mark_generating r started w) = frame w"
  "frame (mark_cancelled r w) = frame w"
  "frame (mark_failed r e w) = frame w"
  "frame (mark_retired r w) = frame w"
  by (simp_all add: mark_prefilling_def mark_generating_def mark_cancelled_def mark_failed_def
      mark_retired_def)

lemma marks_length [simp]:
  "length (sc_shareds (mark_prefilling r us w)) = length (sc_shareds w)"
  "length (sc_shareds (mark_generating r started w)) = length (sc_shareds w)"
  "length (sc_shareds (mark_cancelled r w)) = length (sc_shareds w)"
  "length (sc_shareds (mark_failed r e w)) = length (sc_shareds w)"
  "length (sc_shareds (mark_retired r w)) = length (sc_shareds w)"
  by (rule frame_length, simp)+

text \<open>The state a mark leaves, and the buffers it gives back.\<close>

definition cancelled_state :: "request_state \<Rightarrow> request_state" where
  "cancelled_state st = st\<lparr>st_cancel_requested := True, st_phase := Cancelled,
     st_finish_reason := FinishNone, st_packets := [], st_producer_finished := True\<rparr>"

definition failed_state :: "backend_error \<Rightarrow> request_state \<Rightarrow> request_state" where
  "failed_state e st = st\<lparr>st_phase := Failed, st_finish_reason := FinishNone,
     st_packets := [], st_producer_finished := True, st_failure := Some e\<rparr>"

definition zeroed :: "owned_audio_packet list \<Rightarrow> pcm list" where
  "zeroed ps = map (\<lambda>p. map (\<lambda>_. 0) (packet_buffer p)) ps"

definition queue_owned :: "('b, 's) sched \<Rightarrow> sref \<Rightarrow> nat \<Rightarrow> bool" where
  "queue_owned w r n \<longleftrightarrow> (\<forall>p \<in> set (st_packets (state_at w r)). owned_by r n p)"

lemma clear_effect:
  assumes "r < length (sc_shareds w)" and "queue_owned w r n"
  shows "state_at (fold drop_packet (st_packets (state_at w r)) (upd_state r f w)) =
      (state_at w)(r := f (state_at w r)) \<and>
    id_at (fold drop_packet (st_packets (state_at w r)) (upd_state r f w)) = id_at w \<and>
    free_at (fold drop_packet (st_packets (state_at w r)) (upd_state r f w)) =
      (free_at w)(r := free_at w r @ zeroed (st_packets (state_at w r)))"
proof -
  have len: "r < length (sc_shareds (upd_state r f w))"
    using assms(1) by simp
  show ?thesis
    using fold_drop_effect [OF len, of "st_packets (state_at w r)" n] assms
    by (auto simp: queue_owned_def zeroed_def fun_eq_iff)
qed

lemma mark_cancelled_effect:
  assumes "r < length (sc_shareds w)" and "queue_owned w r n"
  shows "state_at (mark_cancelled r w) = (state_at w)(r := cancelled_state (state_at w r))"
    "id_at (mark_cancelled r w) = id_at w"
    "free_at (mark_cancelled r w) =
      (free_at w)(r := free_at w r @ zeroed (st_packets (state_at w r)))"
  using clear_effect [OF assms, where f = cancelled_state]
  by (simp_all add: mark_cancelled_def cancelled_state_def [abs_def])

lemma mark_failed_effect:
  assumes "r < length (sc_shareds w)" and "queue_owned w r n"
  shows "state_at (mark_failed r e w) = (state_at w)(r := failed_state e (state_at w r))"
    "id_at (mark_failed r e w) = id_at w"
    "free_at (mark_failed r e w) =
      (free_at w)(r := free_at w r @ zeroed (st_packets (state_at w r)))"
  using clear_effect [OF assms, where f = "failed_state e"]
  by (simp_all add: mark_failed_def failed_state_def [abs_def])

lemma mark_phase_effect:
  assumes "r < length (sc_shareds w)"
  shows "free_at (mark_prefilling r us w) = free_at w" "id_at (mark_prefilling r us w) = id_at w"
    "free_at (mark_generating r started w) = free_at w"
    "id_at (mark_generating r started w) = id_at w"
    "free_at (mark_retired r w) = free_at w" "id_at (mark_retired r w) = id_at w"
    "state_at (mark_retired r w) = (state_at w)(r := (state_at w r)\<lparr>st_retired := True\<rparr>)"
  using assms by (auto simp: fun_eq_iff mark_prefilling_def mark_generating_def mark_retired_def)

section \<open>The fields an operation leaves alone\<close>

lemmas mark_fields [simp] =
  frame_marks [THEN frame_fields(1)] frame_marks [THEN frame_fields(2)]
  frame_marks [THEN frame_fields(3)] frame_marks [THEN frame_fields(4)]
  frame_marks [THEN frame_fields(5)] frame_marks [THEN frame_fields(6)]
  frame_marks [THEN frame_fields(7)] frame_marks [THEN frame_fields(8)]
  frame_marks [THEN frame_fields(9)] frame_marks [THEN frame_fields(10)]
  frame_marks [THEN frame_fields(12)] frame_marks [THEN frame_fields(13)]

lemmas update_fields [simp] =
  frame_upd_state [THEN frame_fields(1)] frame_upd_state [THEN frame_fields(2)]
  frame_upd_state [THEN frame_fields(3)] frame_upd_state [THEN frame_fields(4)]
  frame_upd_state [THEN frame_fields(5)] frame_upd_state [THEN frame_fields(6)]
  frame_upd_state [THEN frame_fields(7)] frame_upd_state [THEN frame_fields(8)]
  frame_upd_state [THEN frame_fields(9)] frame_upd_state [THEN frame_fields(10)]
  frame_upd_state [THEN frame_fields(12)] frame_upd_state [THEN frame_fields(13)]

lemmas recycle_fields [simp] =
  frame_recycle_pcm [THEN frame_fields(1)] frame_recycle_pcm [THEN frame_fields(2)]
  frame_recycle_pcm [THEN frame_fields(3)] frame_recycle_pcm [THEN frame_fields(4)]
  frame_recycle_pcm [THEN frame_fields(5)] frame_recycle_pcm [THEN frame_fields(6)]
  frame_recycle_pcm [THEN frame_fields(7)] frame_recycle_pcm [THEN frame_fields(8)]
  frame_recycle_pcm [THEN frame_fields(9)] frame_recycle_pcm [THEN frame_fields(10)]
  frame_recycle_pcm [THEN frame_fields(12)] frame_recycle_pcm [THEN frame_fields(13)]

lemmas drop_fields [simp] =
  frame_drop_packet [THEN frame_fields(1)] frame_drop_packet [THEN frame_fields(2)]
  frame_drop_packet [THEN frame_fields(3)] frame_drop_packet [THEN frame_fields(4)]
  frame_drop_packet [THEN frame_fields(5)] frame_drop_packet [THEN frame_fields(6)]
  frame_drop_packet [THEN frame_fields(7)] frame_drop_packet [THEN frame_fields(8)]
  frame_drop_packet [THEN frame_fields(9)] frame_drop_packet [THEN frame_fields(10)]
  frame_drop_packet [THEN frame_fields(11)] frame_drop_packet [THEN frame_fields(12)]
  frame_drop_packet [THEN frame_fields(13)]
  frame_fold_drop [THEN frame_fields(1)] frame_fold_drop [THEN frame_fields(2)]
  frame_fold_drop [THEN frame_fields(3)] frame_fold_drop [THEN frame_fields(4)]
  frame_fold_drop [THEN frame_fields(5)] frame_fold_drop [THEN frame_fields(6)]
  frame_fold_drop [THEN frame_fields(7)] frame_fold_drop [THEN frame_fields(8)]
  frame_fold_drop [THEN frame_fields(9)] frame_fold_drop [THEN frame_fields(10)]
  frame_fold_drop [THEN frame_fields(12)] frame_fold_drop [THEN frame_fields(13)]

lemmas wake_fields [simp] =
  frame_try_send_Wake [THEN frame_fields(1)] frame_try_send_Wake [THEN frame_fields(2)]
  frame_try_send_Wake [THEN frame_fields(3)] frame_try_send_Wake [THEN frame_fields(4)]
  frame_try_send_Wake [THEN frame_fields(5)] frame_try_send_Wake [THEN frame_fields(6)]
  frame_try_send_Wake [THEN frame_fields(7)] frame_try_send_Wake [THEN frame_fields(8)]
  frame_try_send_Wake [THEN frame_fields(9)] frame_try_send_Wake [THEN frame_fields(10)]
  frame_try_send_Wake [THEN frame_fields(12)] frame_try_send_Wake [THEN frame_fields(13)]

lemma frame_upd_shared_fields [simp]:
  "sc_config (upd_shared r f w) = sc_config w" "sc_slots (upd_shared r f w) = sc_slots w"
  "sc_channel (upd_shared r f w) = sc_channel w" "sc_shutdown (upd_shared r f w) = sc_shutdown w"
  "sc_receiver_alive (upd_shared r f w) = sc_receiver_alive w"
  "sc_next_request_id (upd_shared r f w) = sc_next_request_id w"
  "sc_handles (upd_shared r f w) = sc_handles w" "sc_active (upd_shared r f w) = sc_active w"
  "sc_pending (upd_shared r f w) = sc_pending w" "sc_backend (upd_shared r f w) = sc_backend w"
  "length (sc_shareds (upd_shared r f w)) = length (sc_shareds w)"
  by (simp_all add: upd_shared_def)

text \<open>Retiring a request gives its slot back; the order against the mark does not matter
  for what is stored.\<close>

lemma release_slot_fields [simp]:
  "sc_config (release_slot w) = sc_config w" "sc_slots (release_slot w) = release (sc_slots w)"
  "sc_channel (release_slot w) = sc_channel w" "sc_shutdown (release_slot w) = sc_shutdown w"
  "sc_receiver_alive (release_slot w) = sc_receiver_alive w"
  "sc_next_request_id (release_slot w) = sc_next_request_id w"
  "sc_handles (release_slot w) = sc_handles w" "sc_active (release_slot w) = sc_active w"
  "sc_pending (release_slot w) = sc_pending w" "sc_backend (release_slot w) = sc_backend w"
  "sc_shareds (release_slot w) = sc_shareds w"
  "sc_channel_capacity (release_slot w) = sc_channel_capacity w"
  "shared_at (release_slot w) = shared_at w"
  "state_at (release_slot w) = state_at w" "free_at (release_slot w) = free_at w"
  "id_at (release_slot w) = id_at w"
  by (simp_all add: release_slot_def shared_at_def state_at_def free_at_def id_at_def fun_eq_iff)

lemma cancel_session_fields [simp]:
  "sc_config (cancel_session be a w) = sc_config w"
  "sc_slots (cancel_session be a w) = sc_slots w"
  "sc_channel (cancel_session be a w) = sc_channel w"
  "sc_shutdown (cancel_session be a w) = sc_shutdown w"
  "sc_receiver_alive (cancel_session be a w) = sc_receiver_alive w"
  "sc_next_request_id (cancel_session be a w) = sc_next_request_id w"
  "sc_handles (cancel_session be a w) = sc_handles w"
  "sc_active (cancel_session be a w) = sc_active w"
  "sc_pending (cancel_session be a w) = sc_pending w"
  "sc_shareds (cancel_session be a w) = sc_shareds w"
  "shared_at (cancel_session be a w) = shared_at w"
  "state_at (cancel_session be a w) = state_at w"
  "free_at (cancel_session be a w) = free_at w" "id_at (cancel_session be a w) = id_at w"
  by (simp_all add: cancel_session_def shared_at_def state_at_def free_at_def id_at_def fun_eq_iff
      split: option.split)

lemma cmds_updates [simp]:
  "cmds (w\<lparr>sc_slots := x0\<rparr>) = cmds w" "cmds (w\<lparr>sc_receiver_alive := x2\<rparr>) = cmds w"
  "cmds (w\<lparr>sc_shutdown := x3\<rparr>) = cmds w" "cmds (w\<lparr>sc_next_request_id := x4\<rparr>) = cmds w"
  "cmds (w\<lparr>sc_handles := x5\<rparr>) = cmds w" "cmds (w\<lparr>sc_active := x6\<rparr>) = cmds w"
  "cmds (w\<lparr>sc_pending := x7\<rparr>) = cmds w" "cmds (w\<lparr>sc_backend := x8\<rparr>) = cmds w"
  "cmds (w\<lparr>sc_shareds := x9\<rparr>) = cmds w"
  "cmds (release_slot w) = cmds w" "cmds (cancel_session be a w) = cmds w"
  by (simp_all add: cmds_def)

lemma record_update_reads [simp]:
  "state_at (w\<lparr>sc_slots := x0\<rparr>) = state_at w" "free_at (w\<lparr>sc_slots := x0\<rparr>) = free_at w" "id_at (w\<lparr>sc_slots := x0\<rparr>) = id_at w"
  "state_at (w\<lparr>sc_channel := x1\<rparr>) = state_at w" "free_at (w\<lparr>sc_channel := x1\<rparr>) = free_at w" "id_at (w\<lparr>sc_channel := x1\<rparr>) = id_at w"
  "state_at (w\<lparr>sc_receiver_alive := x2\<rparr>) = state_at w" "free_at (w\<lparr>sc_receiver_alive := x2\<rparr>) = free_at w" "id_at (w\<lparr>sc_receiver_alive := x2\<rparr>) = id_at w"
  "state_at (w\<lparr>sc_shutdown := x3\<rparr>) = state_at w" "free_at (w\<lparr>sc_shutdown := x3\<rparr>) = free_at w" "id_at (w\<lparr>sc_shutdown := x3\<rparr>) = id_at w"
  "state_at (w\<lparr>sc_next_request_id := x4\<rparr>) = state_at w" "free_at (w\<lparr>sc_next_request_id := x4\<rparr>) = free_at w" "id_at (w\<lparr>sc_next_request_id := x4\<rparr>) = id_at w"
  "state_at (w\<lparr>sc_handles := x5\<rparr>) = state_at w" "free_at (w\<lparr>sc_handles := x5\<rparr>) = free_at w" "id_at (w\<lparr>sc_handles := x5\<rparr>) = id_at w"
  "state_at (w\<lparr>sc_active := x6\<rparr>) = state_at w" "free_at (w\<lparr>sc_active := x6\<rparr>) = free_at w" "id_at (w\<lparr>sc_active := x6\<rparr>) = id_at w"
  "state_at (w\<lparr>sc_pending := x7\<rparr>) = state_at w" "free_at (w\<lparr>sc_pending := x7\<rparr>) = free_at w" "id_at (w\<lparr>sc_pending := x7\<rparr>) = id_at w"
  "state_at (w\<lparr>sc_backend := x8\<rparr>) = state_at w" "free_at (w\<lparr>sc_backend := x8\<rparr>) = free_at w" "id_at (w\<lparr>sc_backend := x8\<rparr>) = id_at w"
  by (simp_all add: fun_eq_iff state_at_def free_at_def id_at_def shared_at_def)

lemma push_packet_frame: "push_packet r p m w = (b, w') \<Longrightarrow> frame w' = frame w"
  by (auto simp: push_packet_def Let_def split: if_splits)

lemma poll_iteration_frame:
  "poll_iteration r timeout deadline now w = (res, w') \<Longrightarrow> frame w' = frame w"
  by (auto simp: poll_iteration_def Let_def split: option.splits list.splits if_splits)

lemma take_pcm_frame: "take_pcm r w = (res, w') \<Longrightarrow> frame w' = frame w"
  by (auto simp: take_pcm_def Let_def split: if_splits)

end
