(* ===== verification/RtSystem.thy ===== *)
theory RtSystem
  imports RtEffects
begin

text \<open>
  The scheduler as a concurrent system: any number of client threads against the worker
  thread, one step per critical section. \<open>sys\<close> adds to the scheduler state what the
  threads hold outside it: starts on their way into the channel, cancellations still to
  be sent, the packets that clients own, and the worker's position in its loop with its
  local lists. \<open>sy_log r\<close> is the history of packets polled from request \<open>r\<close>, and
  \<open>sy_limit r\<close> the \<open>max_codec_frames\<close> it was started with.
\<close>

datatype 's worker_pc =
    AtTop bool
  | AtRecv
  | AtDrain bool
  | AtCoalesce nat bool
  | AtClassify "pending_start list" "pending_start list"
  | AtPrefill "pending_start list" "pending_start list"
  | AtStarted "(pending_start \<times> (backend_error + 's backend_started)) list"
  | AtRemoveCancelled nat
  | AtEligible nat "nat list"
  | AtEligibleFree nat "nat list"
  | AtIdle
  | AtSelect "nat list" "(nat \<times> 's \<times> pcm) list"
  | AtAbort backend_error "(nat \<times> 's \<times> pcm) list"
  | AtDeliver "((nat \<times> 's \<times> pcm) \<times> (backend_error + backend_packet)) list"
  | AtRemoveFinished nat
  | AtFinalActive "backend_error option"
  | AtFinalPending "backend_error option"
  | AtFinalDrain "backend_error option"
  | AtClosing "backend_error option"
  | AtStopped "backend_error option"

record ('b, 's) sys =
  sy_w :: "('b, 's) sched"
  sy_sending :: "pending_start list"
  sy_cancelling :: "sref list"
  sy_held :: "owned_audio_packet list"
  sy_log :: "sref \<Rightarrow> owned_audio_packet list"
  sy_limit :: "sref \<Rightarrow> u32"
  sy_pc :: "'s worker_pc"

fun pc_pendings :: "'s worker_pc \<Rightarrow> pending_start list" where
  "pc_pendings (AtClassify todo ready) = todo @ ready"
| "pc_pendings (AtPrefill todo marked) = marked @ todo"
| "pc_pendings (AtStarted outcomes) = map fst outcomes"
| "pc_pendings _ = []"

text \<open>The requests that hold a slot permit, wherever they are.\<close>

definition owners :: "('b, 's) sys \<Rightarrow> sref multiset" where
  "owners s = image_mset ps_shared (mset (sy_sending s) + mset (chan_starts (sc_channel (sy_w s)))
     + mset (sc_pending (sy_w s)) + mset (pc_pendings (sy_pc s)))
     + image_mset ar_shared (mset (sc_active (sy_w s)))"

definition shared_alive :: "('b, 's) sys \<Rightarrow> sref \<Rightarrow> bool" where
  "shared_alive s r \<longleftrightarrow> rh_live (sc_handles (sy_w s) ! r) \<or> r \<in># owners s"

section \<open>Client steps\<close>

definition channel_ready :: "('b, 's) sched \<Rightarrow> bool" where
  "channel_ready w \<longleftrightarrow> \<not> sc_receiver_alive w \<or> length (sc_channel w) < sc_channel_capacity w"

definition received :: "(poll_error + poll_outcome) option \<Rightarrow> owned_audio_packet list" where
  "received res = (case res of Some (Inr (PollPacket p)) \<Rightarrow> [p] | _ \<Rightarrow> [])"

text \<open>A dropped packet's weak reference finds no request when the last owner is gone; its
  buffer goes with the request, and no wake-up is sent.\<close>

definition drop_held :: "bool \<Rightarrow> owned_audio_packet \<Rightarrow> ('b, 's) sched \<Rightarrow> ('b, 's) sched" where
  "drop_held alive p w =
     (if alive then drop_packet p w
      else upd_shared (op_recycler p)
        (\<lambda>sh. sh\<lparr>sh_free_pcm := sh_free_pcm sh @ [map (\<lambda>_. 0) (packet_buffer p)]\<rparr>) w)"

inductive client_step :: "('b, 's) sys \<Rightarrow> ('b, 's) sys \<Rightarrow> bool" where
  start: "\<lbrakk>\<not> sc_shutdown (sy_w s); start_prepare input generation now (sy_w s) = (Inr p, w')\<rbrakk> \<Longrightarrow>
    client_step s (s\<lparr>sy_w := w', sy_sending := p # sy_sending s,
      sy_limit := (sy_limit s)(ps_shared p := max_codec_frames generation)\<rparr>)"
| send: "\<lbrakk>sy_sending s = ps @ p # qs; channel_ready (sy_w s); start_send p (sy_w s) = (res, w')\<rbrakk> \<Longrightarrow>
    client_step s (s\<lparr>sy_w := w', sy_sending := ps @ qs\<rparr>)"
| poll: "\<lbrakk>r < length (sc_handles (sy_w s)); rh_live (sc_handles (sy_w s) ! r);
      poll_iteration r timeout deadline now (sy_w s) = (res, w')\<rbrakk> \<Longrightarrow>
    client_step s (s\<lparr>sy_w := w', sy_held := received res @ sy_held s,
      sy_log := (sy_log s)(r := sy_log s r @ received res)\<rparr>)"
| drop: "\<lbrakk>sy_held s = ps @ p # qs; w' = drop_held (shared_alive s (op_recycler p)) p (sy_w s)\<rbrakk> \<Longrightarrow>
    client_step s (s\<lparr>sy_w := w', sy_held := ps @ qs\<rparr>)"
| cancel: "\<lbrakk>r < length (sc_handles (sy_w s)); rh_live (sc_handles (sy_w s) ! r);
      cancel_mark r (sy_w s) = (must_send, w')\<rbrakk> \<Longrightarrow>
    client_step s (s\<lparr>sy_w := w',
      sy_cancelling := (if must_send then r # sy_cancelling s else sy_cancelling s)\<rparr>)"
| cancel_send: "\<lbrakk>sy_cancelling s = ps @ r # qs; channel_ready (sy_w s);
      RtShared.send (CmdCancel (sh_id (shared_at (sy_w s) r))) (sy_w s) = (res, w')\<rbrakk> \<Longrightarrow>
    client_step s (s\<lparr>sy_w := w', sy_cancelling := ps @ qs\<rparr>)"
| close: "\<lbrakk>r < length (sc_handles (sy_w s)); rh_live (sc_handles (sy_w s) ! r);
      rh_cancel_sent (sc_handles (sy_w s) ! r); r \<notin> set (sy_cancelling s)\<rbrakk> \<Longrightarrow>
    client_step s (s\<lparr>sy_w := (sy_w s)\<lparr>sc_handles :=
      (sc_handles (sy_w s))[r := (sc_handles (sy_w s) ! r)\<lparr>rh_live := False\<rparr>]\<rparr>\<rparr>)"
| shutdown: "\<lbrakk>sy_sending s = []; \<not> sc_shutdown (sy_w s)\<rbrakk> \<Longrightarrow>
    client_step s (s\<lparr>sy_w := scheduler_drop (sy_w s)\<rparr>)"

section \<open>Worker steps\<close>

definition pop_channel :: "('b, 's) sched \<Rightarrow> ('b, 's) sched" where
  "pop_channel w = w\<lparr>sc_channel := tl (sc_channel w)\<rparr>"

definition receive_command :: "('b, 's) sched \<Rightarrow> bool \<times> ('b, 's) sched" where
  "receive_command w = handle_command (hd (sc_channel w)) (pop_channel w)"

text \<open>Dropping the receiver drops the commands left in the channel, with their permits.\<close>

definition close_channel :: "('b, 's) sched \<Rightarrow> ('b, 's) sched" where
  "close_channel w =
     (fold (\<lambda>_. release_slot) (chan_starts (sc_channel w)) w)
       \<lparr>sc_channel := [], sc_receiver_alive := False\<rparr>"

inductive worker_step ::
  "('b, 's) streaming_backend \<Rightarrow> ('b, 's) sys \<Rightarrow> ('b, 's) sys \<Rightarrow> bool"
  for be :: "('b, 's) streaming_backend" where
  top_stop: "\<lbrakk>sy_pc s = AtTop cs; sc_shutdown (sy_w s) \<or> cs\<rbrakk> \<Longrightarrow>
    worker_step be s (s\<lparr>sy_pc := AtFinalActive (worker_failure False)\<rparr>)"
| top_panic: "\<lbrakk>sy_pc s = AtTop cs\<rbrakk> \<Longrightarrow>
    worker_step be s (s\<lparr>sy_pc := AtFinalActive (worker_failure True)\<rparr>)"
| top: "\<lbrakk>sy_pc s = AtTop False; \<not> sc_shutdown (sy_w s)\<rbrakk> \<Longrightarrow>
    worker_step be s (s\<lparr>sy_pc :=
      (if sc_active (sy_w s) = [] \<and> sc_pending (sy_w s) = [] then AtRecv else AtDrain False)\<rparr>)"
| recv: "\<lbrakk>sy_pc s = AtRecv; sc_channel (sy_w s) \<noteq> []; receive_command (sy_w s) = (stop, w')\<rbrakk> \<Longrightarrow>
    worker_step be s (s\<lparr>sy_w := w', sy_pc := AtDrain stop\<rparr>)"
| drain: "\<lbrakk>sy_pc s = AtDrain cs; sc_channel (sy_w s) \<noteq> []; receive_command (sy_w s) = (stop, w')\<rbrakk> \<Longrightarrow>
    worker_step be s (s\<lparr>sy_w := w',
      sy_pc := (if stop then AtCoalesce (coalesce_available
          (unat (max_concurrent_requests (sc_config w'))) w') True else AtDrain cs)\<rparr>)"
| drained: "\<lbrakk>sy_pc s = AtDrain cs; sc_channel (sy_w s) = []\<rbrakk> \<Longrightarrow>
    worker_step be s (s\<lparr>sy_pc := AtCoalesce (coalesce_available
      (unat (max_concurrent_requests (sc_config (sy_w s)))) (sy_w s)) cs\<rparr>)"
| coalesce: "\<lbrakk>sy_pc s = AtCoalesce available cs; coalesce_waits available (sy_w s);
      sc_channel (sy_w s) \<noteq> []; receive_command (sy_w s) = (stop, w')\<rbrakk> \<Longrightarrow>
    worker_step be s (s\<lparr>sy_w := w', sy_pc := (if stop then AtCoalesce 0 True
      else AtCoalesce available cs)\<rparr>)"
| check_stop: "\<lbrakk>sy_pc s = AtCoalesce available cs; sc_shutdown (sy_w s) \<or> cs\<rbrakk> \<Longrightarrow>
    worker_step be s (s\<lparr>sy_pc := AtFinalActive (worker_failure False)\<rparr>)"
| check: "\<lbrakk>sy_pc s = AtCoalesce available False; \<not> sc_shutdown (sy_w s)\<rbrakk> \<Longrightarrow>
    worker_step be s (s\<lparr>sy_w := (sy_w s)\<lparr>sc_pending := []\<rparr>,
      sy_pc := AtClassify (sc_pending (sy_w s)) []\<rparr>)"
| classify: "\<lbrakk>sy_pc s = AtClassify (p # todo) ready;
      classify_pending p (ready, sy_w s) = (ready', w')\<rbrakk> \<Longrightarrow>
    worker_step be s (s\<lparr>sy_w := w', sy_pc := AtClassify todo ready'\<rparr>)"
| classified: "\<lbrakk>sy_pc s = AtClassify [] ready\<rbrakk> \<Longrightarrow>
    worker_step be s (s\<lparr>sy_pc :=
      (if ready = [] then AtRemoveCancelled 0 else AtPrefill ready [])\<rparr>)"
| prefill: "\<lbrakk>sy_pc s = AtPrefill (p # todo) marked\<rbrakk> \<Longrightarrow>
    worker_step be s (s\<lparr>sy_w := prefill_mark now p (sy_w s),
      sy_pc := AtPrefill todo (marked @ [p])\<rparr>)"
| prefill_call: "\<lbrakk>sy_pc s = AtPrefill [] ready;
      RtWorker.prefill_call be ready (sy_w s) = (outcomes, w')\<rbrakk> \<Longrightarrow>
    worker_step be s (s\<lparr>sy_w := w', sy_pc := AtStarted outcomes\<rparr>)"
| started: "\<lbrakk>sy_pc s = AtStarted (item # outcomes)\<rbrakk> \<Longrightarrow>
    worker_step be s (s\<lparr>sy_w := deliver_start item (sy_w s), sy_pc := AtStarted outcomes\<rparr>)"
| start_done: "\<lbrakk>sy_pc s = AtStarted []\<rbrakk> \<Longrightarrow>
    worker_step be s (s\<lparr>sy_pc := AtRemoveCancelled 0\<rparr>)"
| remove_cancelled: "\<lbrakk>sy_pc s = AtRemoveCancelled i; i < length (sc_active (sy_w s));
      a = sc_active (sy_w s) ! i; is_cancel_requested (sy_w s) (ar_shared a)\<rbrakk> \<Longrightarrow>
    worker_step be s (s\<lparr>sy_w := remove_cancelled_one be a
      ((sy_w s)\<lparr>sc_active := swap_remove i (sc_active (sy_w s))\<rparr>)\<rparr>)"
| keep_uncancelled: "\<lbrakk>sy_pc s = AtRemoveCancelled i; i < length (sc_active (sy_w s));
      \<not> is_cancel_requested (sy_w s) (active_ref (sy_w s) i)\<rbrakk> \<Longrightarrow>
    worker_step be s (s\<lparr>sy_pc := AtRemoveCancelled (i + 1)\<rparr>)"
| cancelled_done: "\<lbrakk>sy_pc s = AtRemoveCancelled i; length (sc_active (sy_w s)) \<le> i\<rbrakk> \<Longrightarrow>
    worker_step be s (s\<lparr>sy_pc := AtEligible 0 []\<rparr>)"
| eligible_state: "\<lbrakk>sy_pc s = AtEligible i idxs; i < length (sc_active (sy_w s))\<rbrakk> \<Longrightarrow>
    worker_step be s (s\<lparr>sy_pc := (if state_accepts (sy_w s) (active_ref (sy_w s) i)
      then AtEligibleFree i idxs else AtEligible (i + 1) idxs)\<rparr>)"
| eligible_free: "\<lbrakk>sy_pc s = AtEligibleFree i idxs\<rbrakk> \<Longrightarrow>
    worker_step be s (s\<lparr>sy_pc := AtEligible (i + 1)
      (if has_free_pcm (sy_w s) (active_ref (sy_w s) i) then idxs @ [i] else idxs)\<rparr>)"
| eligible_done: "\<lbrakk>sy_pc s = AtEligible i idxs; length (sc_active (sy_w s)) \<le> i\<rbrakk> \<Longrightarrow>
    worker_step be s (s\<lparr>sy_pc := (if idxs = [] then AtIdle else AtSelect idxs [])\<rparr>)"
| idle: "\<lbrakk>sy_pc s = AtIdle; sc_channel (sy_w s) \<noteq> []; receive_command (sy_w s) = (stop, w')\<rbrakk> \<Longrightarrow>
    worker_step be s (s\<lparr>sy_w := w', sy_pc := AtTop stop\<rparr>)"
| idle_timeout: "\<lbrakk>sy_pc s = AtIdle\<rbrakk> \<Longrightarrow> worker_step be s (s\<lparr>sy_pc := AtTop False\<rparr>)"
| select: "\<lbrakk>sy_pc s = AtSelect (i # idxs) selected;
      select_one i (selected, sy_w s) = (selected', w')\<rbrakk> \<Longrightarrow>
    worker_step be s (s\<lparr>sy_w := w', sy_pc := AtSelect idxs selected'\<rparr>)"
| step_call: "\<lbrakk>sy_pc s = AtSelect [] selected;
      RtWorker.step_call be (packet_frames (sc_config (sy_w s))) selected (sy_w s) = (plan, w')\<rbrakk> \<Longrightarrow>
    worker_step be s (s\<lparr>sy_w := w', sy_pc := (case plan of StepAbort e items \<Rightarrow> AtAbort e items
      | StepDeliver items \<Rightarrow> AtDeliver items)\<rparr>)"
| abort: "\<lbrakk>sy_pc s = AtAbort e (item # items)\<rbrakk> \<Longrightarrow>
    worker_step be s (s\<lparr>sy_w := step_abort e item (sy_w s), sy_pc := AtAbort e items\<rparr>)"
| abort_done: "\<lbrakk>sy_pc s = AtAbort e []\<rbrakk> \<Longrightarrow>
    worker_step be s (s\<lparr>sy_pc := AtRemoveFinished 0\<rparr>)"
| deliver: "\<lbrakk>sy_pc s = AtDeliver (item # items)\<rbrakk> \<Longrightarrow>
    worker_step be s (s\<lparr>sy_w := deliver_result (packet_frames (sc_config (sy_w s))) step_us now
      item (sy_w s), sy_pc := AtDeliver items\<rparr>)"
| deliver_done: "\<lbrakk>sy_pc s = AtDeliver []\<rbrakk> \<Longrightarrow>
    worker_step be s (s\<lparr>sy_pc := AtRemoveFinished 0\<rparr>)"
| remove_finished: "\<lbrakk>sy_pc s = AtRemoveFinished i; i < length (sc_active (sy_w s));
      a = sc_active (sy_w s) ! i; request_finished (sy_w s) a\<rbrakk> \<Longrightarrow>
    worker_step be s (s\<lparr>sy_w := remove_finished_one be a
      ((sy_w s)\<lparr>sc_active := swap_remove i (sc_active (sy_w s))\<rparr>)\<rparr>)"
| keep_unfinished: "\<lbrakk>sy_pc s = AtRemoveFinished i; i < length (sc_active (sy_w s));
      \<not> request_finished (sy_w s) (sc_active (sy_w s) ! i)\<rbrakk> \<Longrightarrow>
    worker_step be s (s\<lparr>sy_pc := AtRemoveFinished (i + 1)\<rparr>)"
| finished_done: "\<lbrakk>sy_pc s = AtRemoveFinished i; length (sc_active (sy_w s)) \<le> i\<rbrakk> \<Longrightarrow>
    worker_step be s (s\<lparr>sy_pc := AtTop False\<rparr>)"
| final_active: "\<lbrakk>sy_pc s = AtFinalActive failure; sc_active (sy_w s) = a # rest\<rbrakk> \<Longrightarrow>
    worker_step be s (s\<lparr>sy_w := finalise_active be failure a ((sy_w s)\<lparr>sc_active := rest\<rparr>)\<rparr>)"
| final_active_done: "\<lbrakk>sy_pc s = AtFinalActive failure; sc_active (sy_w s) = []\<rbrakk> \<Longrightarrow>
    worker_step be s (s\<lparr>sy_pc := AtFinalPending failure\<rparr>)"
| final_pending: "\<lbrakk>sy_pc s = AtFinalPending failure; sc_pending (sy_w s) = p # rest\<rbrakk> \<Longrightarrow>
    worker_step be s (s\<lparr>sy_w := finalise_pending failure p ((sy_w s)\<lparr>sc_pending := rest\<rparr>)\<rparr>)"
| final_pending_done: "\<lbrakk>sy_pc s = AtFinalPending failure; sc_pending (sy_w s) = []\<rbrakk> \<Longrightarrow>
    worker_step be s (s\<lparr>sy_pc := AtFinalDrain failure\<rparr>)"
| final_drain: "\<lbrakk>sy_pc s = AtFinalDrain failure; sc_channel (sy_w s) = c # rest\<rbrakk> \<Longrightarrow>
    worker_step be s (s\<lparr>sy_w := finalise_command failure c ((sy_w s)\<lparr>sc_channel := rest\<rparr>)\<rparr>)"
| final_drain_done: "\<lbrakk>sy_pc s = AtFinalDrain failure; sc_channel (sy_w s) = []\<rbrakk> \<Longrightarrow>
    worker_step be s (s\<lparr>sy_pc := AtClosing failure\<rparr>)"
| closing: "\<lbrakk>sy_pc s = AtClosing failure\<rbrakk> \<Longrightarrow>
    worker_step be s (s\<lparr>sy_w := close_channel (sy_w s), sy_pc := AtStopped failure\<rparr>)"

section \<open>Reachable states\<close>

definition sys_start :: "('b, 's) sched \<Rightarrow> ('b, 's) sys" where
  "sys_start w = \<lparr>sy_w = w, sy_sending = [], sy_cancelling = [], sy_held = [],
     sy_log = (\<lambda>_. []), sy_limit = (\<lambda>_. 0), sy_pc = AtTop False\<rparr>"

definition sys_step :: "('b, 's) streaming_backend \<Rightarrow> ('b, 's) sys \<Rightarrow> ('b, 's) sys \<Rightarrow> bool" where
  "sys_step be s s' \<longleftrightarrow> client_step s s' \<or> worker_step be s s'"

inductive reachable ::
  "('b, 's) streaming_backend \<Rightarrow> engine_config \<Rightarrow> ('b, 's) sys \<Rightarrow> bool"
  for be :: "('b, 's) streaming_backend" and config :: engine_config where
  initial: "scheduler_new config b None = Ok w \<Longrightarrow> reachable be config (sys_start w)"
| step: "reachable be config s \<Longrightarrow> sys_step be s s' \<Longrightarrow> reachable be config s'"

lemma reachable_invariant:
  assumes "reachable be config s"
    and "\<And>b w. scheduler_new config b None = Ok w \<Longrightarrow> P (sys_start w)"
    and "\<And>s s'. P s \<Longrightarrow> client_step s s' \<Longrightarrow> P s'"
    and "\<And>s s'. P s \<Longrightarrow> worker_step be s s' \<Longrightarrow> P s'"
  shows "P s"
  using assms(1) by (induction rule: reachable.induct) (auto simp: sys_step_def intro: assms(2-4))

end
