(* ===== verification/RtSlots.thy ===== *)
theory RtSlots
  imports RtSystem
begin

text \<open>
  Slot accounting: in every reachable state of the system the slot pool counts exactly
  the requests that are being sent, queued, pending, active, or in the worker's hands,
  each once, and never more than \<open>max_concurrent_requests\<close>.
\<close>

definition slots_ok :: "('b, 's) sys \<Rightarrow> bool" where
  "slots_ok s \<longleftrightarrow>
     sp_used (sc_slots (sy_w s)) = size (owners s) \<and>
     sp_used (sc_slots (sy_w s)) \<le> sp_capacity (sc_slots (sy_w s)) \<and>
     (\<forall>r. count (owners s) r \<le> 1) \<and>
     (\<forall>r \<in># owners s. r < length (sc_shareds (sy_w s)))"

lemma slots_ok_same:
  assumes "slots_ok s" and "owners s' = owners s" and "sc_slots (sy_w s') = sc_slots (sy_w s)"
    and "length (sc_shareds (sy_w s')) = length (sc_shareds (sy_w s))"
  shows "slots_ok s'"
  using assms by (simp add: slots_ok_def)

lemma slots_ok_retire:
  assumes "slots_ok s" and "owners s = add_mset r (owners s')"
    and "sc_slots (sy_w s') = release (sc_slots (sy_w s))"
    and "length (sc_shareds (sy_w s')) = length (sc_shareds (sy_w s))"
  shows "slots_ok s'"
proof -
  have "count (owners s') q \<le> count (owners s) q" for q
    using assms(2) by simp
  then have "\<forall>q. count (owners s') q \<le> 1"
    using assms(1) by (auto simp: slots_ok_def intro: order_trans)
  then show ?thesis
    using assms by (simp add: slots_ok_def release_def)
qed

lemma slots_ok_add:
  assumes "slots_ok s" and "owners s' = add_mset (length (sc_shareds (sy_w s))) (owners s)"
    and "try_acquire (sc_slots (sy_w s)) = Some (sc_slots (sy_w s'))"
    and "length (sc_shareds (sy_w s')) = Suc (length (sc_shareds (sy_w s)))"
  shows "slots_ok s'"
proof -
  have "count (owners s) (length (sc_shareds (sy_w s))) = 0"
    using assms(1) by (auto simp: slots_ok_def count_eq_zero_iff)
  with assms show ?thesis
    by (auto simp: slots_ok_def try_acquire_def dest: sym split: if_splits)
qed

lemma retire_fields [simp]:
  "sc_slots (retire_pending p w) = release (sc_slots w)"
  "sc_slots (retire_active a w) = release (sc_slots w)"
  "length (sc_shareds (retire_pending p w)) = length (sc_shareds w)"
  "length (sc_shareds (retire_active a w)) = length (sc_shareds w)"
  "chan_starts (sc_channel (retire_pending p w)) = chan_starts (sc_channel w)"
  "chan_starts (sc_channel (retire_active a w)) = chan_starts (sc_channel w)"
  "sc_active (retire_pending p w) = sc_active w" "sc_active (retire_active a w) = sc_active w"
  "sc_pending (retire_pending p w) = sc_pending w" "sc_pending (retire_active a w) = sc_pending w"
  "sc_config (retire_pending p w) = sc_config w" "sc_config (retire_active a w) = sc_config w"
  "sc_handles (retire_pending p w) = sc_handles w" "sc_handles (retire_active a w) = sc_handles w"
  "sc_shutdown (retire_pending p w) = sc_shutdown w"
  "sc_shutdown (retire_active a w) = sc_shutdown w"
  "sc_receiver_alive (retire_pending p w) = sc_receiver_alive w"
  "sc_receiver_alive (retire_active a w) = sc_receiver_alive w"
  "sc_next_request_id (retire_pending p w) = sc_next_request_id w"
  "sc_next_request_id (retire_active a w) = sc_next_request_id w"
  "cmds (retire_pending p w) = cmds w" "cmds (retire_active a w) = cmds w"
  by (simp_all add: retire_pending_def retire_active_def)

section \<open>Client steps\<close>

lemma start_prepare_shape:
  assumes "start_prepare input generation now w = (Inr p, w')"
  shows "ps_shared p = length (sc_shareds w)"
    "try_acquire (sc_slots w) = Some (sc_slots w')"
    "length (sc_shareds w') = Suc (length (sc_shareds w))"
    "sc_channel w' = sc_channel w" "sc_pending w' = sc_pending w" "sc_active w' = sc_active w"
    "sc_config w' = sc_config w" "sc_receiver_alive w' = sc_receiver_alive w"
    "sc_shutdown w' = sc_shutdown w"
  using assms by (auto simp: start_prepare_def Let_def split: sum.splits option.splits)

lemma start_send_cases:
  assumes "start_send p w = (res, w')"
  obtains (sent) "sc_receiver_alive w" "sc_channel w' = sc_channel w @ [CmdStart p]"
    "sc_slots w' = sc_slots w" "sc_shareds w' = sc_shareds w" "sc_pending w' = sc_pending w"
    "sc_active w' = sc_active w"
  | (closed) "\<not> sc_receiver_alive w" "w' = release_slot w"
  using assms by (cases "sc_receiver_alive w") (auto simp: start_send_def send_def)

lemma cancel_mark_frame:
  assumes "cancel_mark r w = (b, w')"
  shows "sc_slots w' = sc_slots w" "length (sc_shareds w') = length (sc_shareds w)"
    "chan_starts (sc_channel w') = chan_starts (sc_channel w)" "sc_pending w' = sc_pending w"
    "sc_active w' = sc_active w" "sc_config w' = sc_config w"
    "sc_receiver_alive w' = sc_receiver_alive w" "sc_shutdown w' = sc_shutdown w"
    "sc_next_request_id w' = sc_next_request_id w"
  using assms by (auto simp: cancel_mark_def Let_def split: if_splits)

lemma drop_held_frame [simp]: "frame (drop_held alive p w) = frame w"
  by (simp add: drop_held_def)

lemmas drop_held_fields [simp] = drop_held_frame [THEN frame_fields(2)]
  drop_held_frame [THEN frame_fields(3)] drop_held_frame [THEN frame_fields(8)]
  drop_held_frame [THEN frame_fields(9)] drop_held_frame [THEN frame_fields(11)]
  drop_held_frame [THEN frame_fields(1)] drop_held_frame [THEN frame_fields(7)]

lemma try_send_fields [simp]:
  "sc_config (try_send c w) = sc_config w" "sc_slots (try_send c w) = sc_slots w"
  "sc_shareds (try_send c w) = sc_shareds w" "sc_active (try_send c w) = sc_active w"
  "sc_pending (try_send c w) = sc_pending w" "sc_handles (try_send c w) = sc_handles w"
  "sc_backend (try_send c w) = sc_backend w" "sc_shutdown (try_send c w) = sc_shutdown w"
  "sc_receiver_alive (try_send c w) = sc_receiver_alive w"
  "sc_next_request_id (try_send c w) = sc_next_request_id w"
  by (simp_all add: try_send_def)

lemma scheduler_drop_fields [simp]:
  "sc_slots (scheduler_drop w) = sc_slots w" "sc_shareds (scheduler_drop w) = sc_shareds w"
  "chan_starts (sc_channel (scheduler_drop w)) = chan_starts (sc_channel w)"
  "sc_pending (scheduler_drop w) = sc_pending w" "sc_active (scheduler_drop w) = sc_active w"
  "sc_config (scheduler_drop w) = sc_config w" "sc_handles (scheduler_drop w) = sc_handles w"
  by (simp_all add: scheduler_drop_def) (simp add: try_send_def)

lemma slots_ok_client:
  assumes "client_step s s'" and "slots_ok s"
  shows "slots_ok s'"
  using assms
proof (induction rule: client_step.induct)
  case (start s input generation now p w')
  note shape = start_prepare_shape [OF start(2)]
  show ?case
    by (rule slots_ok_add [OF start(3)]) (simp_all add: owners_def shape)
next
  case (send s ps p qs res w')
  show ?case
  proof (rule start_send_cases [OF send(3)])
    assume "sc_channel w' = sc_channel (sy_w s) @ [CmdStart p]" "sc_slots w' = sc_slots (sy_w s)"
      "sc_shareds w' = sc_shareds (sy_w s)" "sc_pending w' = sc_pending (sy_w s)"
      "sc_active w' = sc_active (sy_w s)"
    then show ?thesis
      by (intro slots_ok_same [OF send(4)]) (simp_all add: owners_def send(1))
  next
    assume "w' = release_slot (sy_w s)"
    then show ?thesis
      by (intro slots_ok_retire [OF send(4), where r = "ps_shared p"])
        (simp_all add: owners_def send(1))
  qed
next
  case (poll r s timeout deadline now res w')
  note f = frame_fields [OF poll_iteration_frame [OF poll(3)]]
  show ?case
    by (rule slots_ok_same [OF poll(4)]) (simp_all add: owners_def f)
next
  case (drop s ps p qs w')
  show ?case
    by (rule slots_ok_same [OF drop(3)]) (simp_all add: owners_def drop(2))
next
  case (cancel r s must_send w')
  note f = cancel_mark_frame [OF cancel(3)]
  show ?case
    by (rule slots_ok_same [OF cancel(4)]) (simp_all add: owners_def f)
next
  case (cancel_send s ps r qs res w')
  then show ?case
    by (intro slots_ok_same [OF cancel_send(4)])
      (auto simp: owners_def RtShared.send_def split: if_splits)
next
  case (close r s)
  show ?case
    by (rule slots_ok_same [OF close(5)]) (simp_all add: owners_def)
next
  case (shutdown s)
  show ?case
    by (rule slots_ok_same [OF shutdown(3)]) (simp_all add: owners_def)
qed

section \<open>Worker steps\<close>

lemma pop_channel_starts:
  "sc_channel w = c # cs \<Longrightarrow> chan_starts (sc_channel (pop_channel w)) = chan_starts cs"
  by (simp add: pop_channel_def)

lemma position_bound: "position P xs = Some i \<Longrightarrow> i < length xs"
  by (simp add: position_Some)

text \<open>The owners a command handler leaves: all, or all but one retired request.\<close>

definition keeps_or_retires :: "('b, 's) sched \<Rightarrow> ('b, 's) sched \<Rightarrow> bool" where
  "keeps_or_retires w w' \<longleftrightarrow>
     (let q = (\<lambda>w. image_mset ps_shared (mset (chan_starts (sc_channel w)) + mset (sc_pending w)))
      in (q w' = q w \<and> sc_slots w' = sc_slots w \<or>
          (\<exists>r. q w = add_mset r (q w') \<and> sc_slots w' = release (sc_slots w)))) \<and>
     sc_active w' = sc_active w \<and> length (sc_shareds w') = length (sc_shareds w) \<and>
     sc_config w' = sc_config w"

lemma mset_nth_swap_remove:
  "i < length xs \<Longrightarrow> mset xs = add_mset (xs ! i) (mset (swap_remove i xs))"
  by (simp add: mset_swap_remove)

lemma receive_command_owners:
  assumes "receive_command w = (stop, w')" and "sc_channel w \<noteq> []"
  shows "keeps_or_retires w w'"
proof -
  obtain c cs where ch: "sc_channel w = c # cs"
    using assms(2) by (cases "sc_channel w") auto
  show ?thesis
  proof (cases c)
    case (CmdStart p)
    then show ?thesis
      using assms(1) by (auto simp: ch receive_command_def handle_command_def pop_channel_def
          keeps_or_retires_def)
  next
    case (CmdCancel id')
    let ?w1 = "pop_channel w"
    let ?find = "List.find (\<lambda>a. rec_id (ar_record a) = id') (sc_active w)"
    show ?thesis
    proof (cases "position (\<lambda>p. br_id (ps_request p) = id') (sc_pending w)")
      case None
      then show ?thesis
        using assms(1) by (cases ?find) (auto simp: ch CmdCancel receive_command_def
            handle_command_def pop_channel_def keeps_or_retires_def cancel_pending_id_def
            cancel_active_id_def)
    next
      case (Some i)
      then have "mset (sc_pending w) = add_mset (sc_pending w ! i) (mset (swap_remove i (sc_pending w)))"
        by (intro mset_nth_swap_remove position_bound)
      then show ?thesis
        using assms(1) Some by (cases ?find) (auto simp: ch CmdCancel receive_command_def
            handle_command_def pop_channel_def keeps_or_retires_def Let_def cancel_pending_id_def
            cancel_active_id_def)
    qed
  qed (use assms(1) in \<open>auto simp: ch receive_command_def handle_command_def pop_channel_def
      keeps_or_retires_def\<close>)
qed

lemma slots_ok_receive:
  assumes "slots_ok s" and "keeps_or_retires (sy_w s) w'"
    and "pc_pendings pc = []" and "pc_pendings (sy_pc s) = []"
  shows "slots_ok (s\<lparr>sy_w := w', sy_pc := pc\<rparr>)"
proof -
  consider (keep) "owners (s\<lparr>sy_w := w', sy_pc := pc\<rparr>) = owners s" "sc_slots w' = sc_slots (sy_w s)"
  | (retire) r where "owners s = add_mset r (owners (s\<lparr>sy_w := w', sy_pc := pc\<rparr>))"
      "sc_slots w' = release (sc_slots (sy_w s))"
    using assms(2-4) by (auto simp: keeps_or_retires_def owners_def Let_def)
  then show ?thesis
  proof cases
    case keep
    then show ?thesis
      using assms(2) by (intro slots_ok_same [OF assms(1)]) (auto simp: keeps_or_retires_def)
  next
    case retire
    then show ?thesis
      using assms(2) by (intro slots_ok_retire [OF assms(1)]) (auto simp: keeps_or_retires_def)
  qed
qed

lemma deliver_start_frame:
  assumes "deliver_start (p, result) w = w'"
  shows "(\<exists>a. ar_shared a = ps_shared p \<and> sc_active w' = sc_active w @ [a] \<and> sc_slots w' = sc_slots w)
      \<or> (sc_active w' = sc_active w \<and> sc_slots w' = release (sc_slots w))"
    and "chan_starts (sc_channel w') = chan_starts (sc_channel w)" "sc_pending w' = sc_pending w"
    "length (sc_shareds w') = length (sc_shareds w)" "sc_config w' = sc_config w"
  using assms by (auto simp: deliver_start_def fail_pending_def Let_def split: sum.splits)

text \<open>Replacing a field of an active request other than its reference.\<close>

lemma map_list_update_same: "f y = f (xs ! i) \<Longrightarrow> map f (xs[i := y]) = map f xs"
  by (cases "i < length xs") (simp_all add: map_update list_update_beyond list_eq_iff_nth_eq nth_list_update)

lemma map_active_set [simp]:
  "map ar_shared (sc_active (set_session i x w)) = map ar_shared (sc_active w)"
  "map ar_shared (sc_active (set_record i y w)) = map ar_shared (sc_active w)"
  by (simp_all add: set_session_def set_record_def map_list_update_same)

lemma active_mset_set [simp]:
  "image_mset ar_shared (mset (sc_active (set_session i x w))) = image_mset ar_shared (mset (sc_active w))"
  "image_mset ar_shared (mset (sc_active (set_record i y w))) = image_mset ar_shared (mset (sc_active w))"
  by (metis mset_map map_active_set)+

lemma set_active_fields [simp]:
  "sc_slots (set_session i x w) = sc_slots w" "sc_slots (set_record i y w) = sc_slots w"
  "sc_channel (set_session i x w) = sc_channel w" "sc_channel (set_record i y w) = sc_channel w"
  "sc_pending (set_session i x w) = sc_pending w" "sc_pending (set_record i y w) = sc_pending w"
  "sc_shareds (set_session i x w) = sc_shareds w" "sc_shareds (set_record i y w) = sc_shareds w"
  "sc_config (set_session i x w) = sc_config w" "sc_config (set_record i y w) = sc_config w"
  "sc_handles (set_session i x w) = sc_handles w" "sc_handles (set_record i y w) = sc_handles w"
  "cmds (set_session i x w) = cmds w" "cmds (set_record i y w) = cmds w"
  "sc_shutdown (set_session i x w) = sc_shutdown w" "sc_shutdown (set_record i y w) = sc_shutdown w"
  "sc_receiver_alive (set_session i x w) = sc_receiver_alive w"
  "sc_receiver_alive (set_record i y w) = sc_receiver_alive w"
  "length (sc_active (set_session i x w)) = length (sc_active w)"
  "length (sc_active (set_record i y w)) = length (sc_active w)"
  "state_at (set_session i x w) = state_at w" "state_at (set_record i y w) = state_at w"
  "free_at (set_session i x w) = free_at w" "free_at (set_record i y w) = free_at w"
  "id_at (set_session i x w) = id_at w" "id_at (set_record i y w) = id_at w"
  by (simp_all add: set_session_def set_record_def)

definition step_frame :: "('b, 's) sched \<Rightarrow> ('b, 's) sched \<Rightarrow> bool" where
  "step_frame w w' \<longleftrightarrow> sc_slots w' = sc_slots w \<and>
     chan_starts (sc_channel w') = chan_starts (sc_channel w) \<and> sc_pending w' = sc_pending w \<and>
     length (sc_shareds w') = length (sc_shareds w) \<and> sc_config w' = sc_config w \<and>
     sc_handles w' = sc_handles w \<and> cmds w' = cmds w \<and> sc_shutdown w' = sc_shutdown w \<and>
     sc_receiver_alive w' = sc_receiver_alive w \<and>
     map ar_shared (sc_active w') = map ar_shared (sc_active w)"

lemma step_frame_mset:
  "step_frame w w' \<Longrightarrow>
     image_mset ar_shared (mset (sc_active w')) = image_mset ar_shared (mset (sc_active w))"
  by (metis mset_map step_frame_def)

lemma step_frame_frame: "frame w' = frame w \<Longrightarrow> step_frame w w'"
  unfolding step_frame_def by (simp add: frame_fields [of w' w])

lemma step_frame_trans: "step_frame u v \<Longrightarrow> step_frame v w \<Longrightarrow> step_frame u w"
  by (simp add: step_frame_def)

lemma step_frame_set [simp]: "step_frame w (set_session i x w)" "step_frame w (set_record i y w)"
  by (simp_all add: step_frame_def)

lemma step_frame_through:
  "step_frame u v \<Longrightarrow> step_frame u (mark_failed r e v)"
  "step_frame u v \<Longrightarrow> step_frame u (recycle_pcm r buffer v)"
  "step_frame u v \<Longrightarrow> step_frame u (set_session i x v)"
  "step_frame u v \<Longrightarrow> step_frame u (set_record i y v)"
  by (simp_all add: step_frame_def)

lemma step_frame_refl [simp]: "step_frame w w"
  by (simp add: step_frame_def)

lemma select_one_frame:
  assumes "select_one i (selected, w) = (selected', w')"
  shows "step_frame w w'"
proof (cases "ar_session (sc_active w ! i)")
  case None
  then show ?thesis
    using assms by (auto simp: select_one_def intro: step_frame_frame)
next
  case (Some x)
  let ?w1 = "set_session i None w"
  obtain res w2 where take: "take_pcm (active_ref ?w1 i) ?w1 = (res, w2)"
    by (cases "take_pcm (active_ref ?w1 i) ?w1")
  have "step_frame ?w1 w2"
    using take_pcm_frame [OF take] by (rule step_frame_frame)
  then have w2: "step_frame w w2"
    by (rule step_frame_trans [OF step_frame_set(1)])
  show ?thesis
  proof (cases res)
    case None
    then show ?thesis
      using assms Some take w2 by (auto simp: select_one_def Let_def
          intro!: step_frame_through)
  qed (use assms Some take w2 in \<open>auto simp: select_one_def Let_def\<close>)
qed

lemma step_abort_frame: "step_frame w (step_abort e (i, x, buffer) w)"
  by (auto simp: step_abort_def intro!: step_frame_through)

lemma deliver_result_frame: "step_frame w (deliver_result frames step_us now ((i, x, buffer), result) w)"
proof -
  let ?w1 = "set_session i (Some x) w"
  let ?a = "sc_active ?w1 ! i"
  have fail: "step_frame w (mark_failed r e (recycle_pcm r buffer ?w1))" for r e
    by (intro step_frame_through step_frame_refl)
  show ?thesis
  proof (cases result)
    case (Inr packet)
    let ?d = "deliver_packet (ar_record ?a) (ar_max_codec_frames ?a) packet frames buffer step_us
      (duration_microseconds (now - ar_started_at ?a)) (ar_shared ?a)"
    show ?thesis
    proof (cases ?d)
      case (Inl e)
      with Inr fail show ?thesis by (simp add: deliver_result_def Let_def)
    next
      case (Inr ok)
      obtain rcd' owned where ok: "ok = (rcd', owned)" by (cases ok)
      let ?w2 = "set_record i rcd' ?w1"
      obtain b w3 where push: "push_packet (ar_shared ?a) owned (rec_metrics rcd') ?w2 = (b, w3)"
        by (cases "push_packet (ar_shared ?a) owned (rec_metrics rcd') ?w2")
      have w3: "step_frame w w3"
        by (rule step_frame_trans [OF step_frame_set(1)], rule step_frame_trans [OF step_frame_set(2)],
            rule step_frame_frame, rule push_packet_frame [OF push])
      then have "step_frame w (mark_failed r e w3)" for r e
        by (rule step_frame_trans) (simp add: step_frame_frame)
      with w3 push Inr ok \<open>result = Inr packet\<close> show ?thesis
        by (simp add: deliver_result_def Let_def split: bool.splits)
    qed
  qed (use fail in \<open>simp add: deliver_result_def Let_def\<close>)
qed

lemma fold_release [simp]:
  "sc_slots (fold (\<lambda>_. release_slot) xs w) = (sc_slots w)\<lparr>sp_used := sp_used (sc_slots w) - length xs\<rparr>"
  "sc_shareds (fold (\<lambda>_. release_slot) xs w) = sc_shareds w"
  "sc_pending (fold (\<lambda>_. release_slot) xs w) = sc_pending w"
  "sc_active (fold (\<lambda>_. release_slot) xs w) = sc_active w"
  "sc_config (fold (\<lambda>_. release_slot) xs w) = sc_config w"
  "sc_handles (fold (\<lambda>_. release_slot) xs w) = sc_handles w"
  "sc_shutdown (fold (\<lambda>_. release_slot) xs w) = sc_shutdown w"
  by (induction xs arbitrary: w) (simp_all add: release_def)

section \<open>The invariant\<close>

lemma slots_ok_pc:
  "slots_ok s \<Longrightarrow> mset (pc_pendings pc) = mset (pc_pendings (sy_pc s)) \<Longrightarrow> slots_ok (s\<lparr>sy_pc := pc\<rparr>)"
  by (simp add: slots_ok_def owners_def)

text \<open>A step that keeps every list of owners, and its position's list in \<open>pc\<close>.\<close>

lemma slots_ok_step_frame:
  assumes "slots_ok s" and "step_frame (sy_w s) w'"
    and "mset (pc_pendings pc) = mset (pc_pendings (sy_pc s))"
  shows "slots_ok (s\<lparr>sy_w := w', sy_pc := pc\<rparr>)"
  using assms step_frame_mset [OF assms(2)]
  by (simp add: slots_ok_def owners_def step_frame_def)

text \<open>A step that takes one owner out and releases its slot.\<close>

lemma slots_ok_step_retire:
  assumes "slots_ok s" and "sc_slots w' = release (sc_slots (sy_w s))"
    and "length (sc_shareds w') = length (sc_shareds (sy_w s))"
    and "owners s = add_mset r (owners (s\<lparr>sy_w := w', sy_pc := pc\<rparr>))"
  shows "slots_ok (s\<lparr>sy_w := w', sy_pc := pc\<rparr>)"
  by (rule slots_ok_retire [OF assms(1) assms(4)]) (simp_all add: assms)

lemma slots_ok_retire_active:
  assumes "slots_ok s" and "i < length (sc_active (sy_w s))"
    and "sc_active w' = swap_remove i (sc_active (sy_w s))"
    and "sc_slots w' = release (sc_slots (sy_w s))" "sc_pending w' = sc_pending (sy_w s)"
    and "chan_starts (sc_channel w') = chan_starts (sc_channel (sy_w s))"
    and "length (sc_shareds w') = length (sc_shareds (sy_w s))"
  shows "slots_ok (s\<lparr>sy_w := w'\<rparr>)"
proof -
  have "mset (sc_active (sy_w s)) = add_mset (sc_active (sy_w s) ! i) (mset (sc_active w'))"
    using assms(2,3) by (simp add: mset_nth_swap_remove)
  then show ?thesis
    using slots_ok_step_retire [OF assms(1,4,7), of "ar_shared (sc_active (sy_w s) ! i)" "sy_pc s"]
    by (simp add: owners_def assms(5,6))
qed

lemma removal_fields [simp]:
  "sc_active (remove_cancelled_one be a w) = sc_active w"
  "sc_slots (remove_cancelled_one be a w) = release (sc_slots w)"
  "sc_pending (remove_cancelled_one be a w) = sc_pending w"
  "chan_starts (sc_channel (remove_cancelled_one be a w)) = chan_starts (sc_channel w)"
  "length (sc_shareds (remove_cancelled_one be a w)) = length (sc_shareds w)"
  "sc_config (remove_cancelled_one be a w) = sc_config w"
  "sc_handles (remove_cancelled_one be a w) = sc_handles w"
  "sc_active (remove_finished_one be a w) = sc_active w"
  "sc_slots (remove_finished_one be a w) = release (sc_slots w)"
  "sc_pending (remove_finished_one be a w) = sc_pending w"
  "chan_starts (sc_channel (remove_finished_one be a w)) = chan_starts (sc_channel w)"
  "length (sc_shareds (remove_finished_one be a w)) = length (sc_shareds w)"
  "sc_config (remove_finished_one be a w) = sc_config w"
  "sc_handles (remove_finished_one be a w) = sc_handles w"
  "cmds (remove_cancelled_one be a w) = cmds w" "cmds (remove_finished_one be a w) = cmds w"
  "sc_shutdown (remove_cancelled_one be a w) = sc_shutdown w"
  "sc_shutdown (remove_finished_one be a w) = sc_shutdown w"
  "sc_receiver_alive (remove_cancelled_one be a w) = sc_receiver_alive w"
  "sc_receiver_alive (remove_finished_one be a w) = sc_receiver_alive w"
  by (simp_all add: remove_cancelled_one_def remove_finished_one_def)

lemma final_mark_frame [simp]: "frame (final_mark failure r w) = frame w"
  by (simp add: final_mark_def split: option.split)

lemmas final_mark_fields [simp] = final_mark_frame [THEN frame_fields(1)]
  final_mark_frame [THEN frame_fields(2)] final_mark_frame [THEN frame_fields(3)]
  final_mark_frame [THEN frame_fields(7)] final_mark_frame [THEN frame_fields(8)]
  final_mark_frame [THEN frame_fields(9)] final_mark_frame [THEN frame_fields(11)]
  final_mark_frame [THEN frame_fields(4)] final_mark_frame [THEN frame_fields(5)]
  final_mark_frame [THEN frame_fields(13)]

lemma finalise_fields [simp]:
  "sc_active (finalise_active be failure a w) = sc_active w"
  "sc_slots (finalise_active be failure a w) = release (sc_slots w)"
  "sc_pending (finalise_active be failure a w) = sc_pending w"
  "chan_starts (sc_channel (finalise_active be failure a w)) = chan_starts (sc_channel w)"
  "length (sc_shareds (finalise_active be failure a w)) = length (sc_shareds w)"
  "sc_config (finalise_active be failure a w) = sc_config w"
  "sc_handles (finalise_active be failure a w) = sc_handles w"
  "sc_active (finalise_pending failure p w) = sc_active w"
  "sc_slots (finalise_pending failure p w) = release (sc_slots w)"
  "sc_pending (finalise_pending failure p w) = sc_pending w"
  "chan_starts (sc_channel (finalise_pending failure p w)) = chan_starts (sc_channel w)"
  "length (sc_shareds (finalise_pending failure p w)) = length (sc_shareds w)"
  "sc_config (finalise_pending failure p w) = sc_config w"
  "sc_handles (finalise_pending failure p w) = sc_handles w"
  "cmds (finalise_active be failure a w) = cmds w" "cmds (finalise_pending failure p w) = cmds w"
  "sc_shutdown (finalise_active be failure a w) = sc_shutdown w"
  "sc_shutdown (finalise_pending failure p w) = sc_shutdown w"
  "sc_receiver_alive (finalise_active be failure a w) = sc_receiver_alive w"
  "sc_receiver_alive (finalise_pending failure p w) = sc_receiver_alive w"
  by (simp_all add: finalise_active_def finalise_pending_def)

lemma prefill_call_frame:
  assumes "RtWorker.prefill_call be ready w = (outcomes, w')"
  shows "map fst outcomes = ready" "step_frame w w'"
  using assms by (auto simp: RtWorker.prefill_call_def step_frame_def comp_def
      split: prod.splits unwind.splits if_splits)

lemma step_call_frame:
  assumes "RtWorker.step_call be frames selected w = (plan, w')"
  shows "step_frame w w'"
  using assms by (auto simp: RtWorker.step_call_def step_frame_def Let_def
      split: prod.splits unwind.splits if_splits)

lemma slots_ok_classify:
  assumes "slots_ok s" and "sy_pc s = AtClassify (p # todo) ready"
    and "classify_pending p (ready, sy_w s) = (ready', w')"
  shows "slots_ok (s\<lparr>sy_w := w', sy_pc := AtClassify todo ready'\<rparr>)"
proof (cases "is_cancel_requested (sy_w s) (ps_shared p)")
  case True
  then show ?thesis
    using assms by (intro slots_ok_step_retire [OF assms(1), where r = "ps_shared p"])
      (auto simp: classify_pending_def owners_def)
next
  case False
  then show ?thesis
    using assms by (intro slots_ok_step_frame) (auto simp: classify_pending_def)
qed

lemma slots_ok_started:
  assumes "slots_ok s" and "sy_pc s = AtStarted (item # outcomes)"
  shows "slots_ok (s\<lparr>sy_w := deliver_start item (sy_w s), sy_pc := AtStarted outcomes\<rparr>)"
proof -
  obtain p result where item: "item = (p, result)" by (cases item)
  note f = deliver_start_frame [OF refl, of p result "sy_w s"]
  show ?thesis
    using f(1)
  proof (elim disjE exE conjE)
    fix a assume "ar_shared a = ps_shared p"
      "sc_active (deliver_start (p, result) (sy_w s)) = sc_active (sy_w s) @ [a]"
      "sc_slots (deliver_start (p, result) (sy_w s)) = sc_slots (sy_w s)"
    then show ?thesis
      by (intro slots_ok_same [OF assms(1)]) (simp_all add: owners_def item f(2-4) assms(2))
  next
    assume "sc_active (deliver_start (p, result) (sy_w s)) = sc_active (sy_w s)"
      "sc_slots (deliver_start (p, result) (sy_w s)) = release (sc_slots (sy_w s))"
    then show ?thesis
      by (intro slots_ok_step_retire [OF assms(1), where r = "ps_shared p"])
        (simp_all add: owners_def item f(2-4) assms(2))
  qed
qed

lemma slots_ok_final_drain:
  assumes "slots_ok s" and "sc_channel (sy_w s) = c # rest"
  shows "slots_ok (s\<lparr>sy_w := finalise_command failure c ((sy_w s)\<lparr>sc_channel := rest\<rparr>)\<rparr>)"
proof (cases c)
  case (CmdStart p)
  then show ?thesis
    by (intro slots_ok_retire [OF assms(1), where r = "ps_shared p"])
      (simp_all add: owners_def finalise_command_def assms(2))
qed (intro slots_ok_same [OF assms(1)]; simp add: owners_def finalise_command_def assms(2))+

lemma slots_ok_closing:
  assumes "slots_ok s" and "sy_pc s = AtClosing failure"
  shows "slots_ok (s\<lparr>sy_w := close_channel (sy_w s), sy_pc := AtStopped failure\<rparr>)" (is "slots_ok ?s")
proof -
  have own: "owners s = image_mset ps_shared (mset (chan_starts (sc_channel (sy_w s)))) + owners ?s"
    using assms(2) by (simp add: owners_def close_channel_def)
  have "count (owners ?s) r \<le> count (owners s) r" for r
    by (simp add: own)
  then have "\<forall>r. count (owners ?s) r \<le> 1"
    using assms(1) by (auto simp: slots_ok_def intro: order_trans)
  then show ?thesis
    using assms(1) own by (auto simp: slots_ok_def close_channel_def)
qed

lemma slots_ok_worker:
  assumes "worker_step be s s'" and "slots_ok s"
  shows "slots_ok s'"
  using assms
proof (induction rule: worker_step.induct)
  case (classify s p todo ready ready' w')
  then show ?case by (intro slots_ok_classify)
next
  case (started s item outcomes)
  then show ?case by (intro slots_ok_started)
next
  case (closing s failure)
  then show ?case by (intro slots_ok_closing)
next
  case (final_drain s failure c rest)
  then show ?case by (intro slots_ok_final_drain)
next
  case (check s available)
  then show ?case by (simp add: slots_ok_def owners_def)
next
  case (prefill s p todo ready now)
  then show ?case by (intro slots_ok_step_frame) (auto simp: prefill_mark_def intro: step_frame_frame)
next
  case (prefill_call s ready outcomes w')
  then show ?case
    using prefill_call_frame [OF prefill_call(2)] by (intro slots_ok_step_frame) auto
next
  case (step_call s selected plan w')
  then show ?case
    using step_call_frame [OF step_call(2)]
    by (intro slots_ok_step_frame) (auto split: step_plan.splits)
next
  case (select s i idxs selected selected' w')
  then show ?case
    using select_one_frame [OF select(2)] by (intro slots_ok_step_frame) auto
next
  case (abort s e item items)
  obtain i x buffer where "item = (i, x, buffer)" by (cases item)
  then show ?case
    using abort step_abort_frame by (intro slots_ok_step_frame) auto
next
  case (deliver s item items step_us now)
  obtain i x buffer result where "item = ((i, x, buffer), result)"
    by (metis surj_pair)
  then show ?case
    using deliver deliver_result_frame by (intro slots_ok_step_frame) auto
next
  case (remove_cancelled s i a)
  then show ?case by (intro slots_ok_retire_active) auto
next
  case (remove_finished s i a)
  then show ?case by (intro slots_ok_retire_active) auto
next
  case (final_active s failure a rest)
  then show ?case
    by (intro slots_ok_retire [OF final_active(3), where r = "ar_shared a"])
      (simp_all add: owners_def)
next
  case (final_pending s failure p rest)
  then show ?case
    by (intro slots_ok_retire [OF final_pending(3), where r = "ps_shared p"])
      (simp_all add: owners_def)
next
  case (recv s stop w')
  then show ?case by (intro slots_ok_receive receive_command_owners) auto
next
  case (drain s cs stop w')
  then show ?case by (intro slots_ok_receive receive_command_owners) auto
next
  case (coalesce s available cs stop w')
  then show ?case by (intro slots_ok_receive receive_command_owners) auto
next
  case (idle s stop w')
  then show ?case by (intro slots_ok_receive receive_command_owners) auto
qed (auto intro!: slots_ok_pc)

lemma slots_ok_initial:
  assumes "scheduler_new config b None = Ok w"
  shows "slots_ok (sys_start w)"
  using scheduler_new_shape [OF assms]
  by (simp add: slots_ok_def owners_def sys_start_def slot_pool_new_def)

lemma slots_ok_reachable: "reachable be config s \<Longrightarrow> slots_ok s"
  by (erule reachable_invariant)
    (simp_all add: slots_ok_initial slots_ok_client slots_ok_worker)

text \<open>What never changes: the configuration, the pool's capacity, one handle per request.\<close>

definition static_ok :: "engine_config \<Rightarrow> ('b, 's) sys \<Rightarrow> bool" where
  "static_ok config s \<longleftrightarrow> sc_config (sy_w s) = config \<and> config_ok config \<and>
     sp_capacity (sc_slots (sy_w s)) = unat (max_concurrent_requests config) \<and>
     length (sc_handles (sy_w s)) = length (sc_shareds (sy_w s))"

lemma release_capacity [simp]: "sp_capacity (release p) = sp_capacity p"
  by (simp add: release_def)

lemma try_acquire_capacity: "try_acquire p = Some q \<Longrightarrow> sp_capacity q = sp_capacity p"
  by (auto simp: try_acquire_def split: if_splits)

lemma static_ok_client: "client_step s s' \<Longrightarrow> static_ok config s \<Longrightarrow> static_ok config s'"
proof (induction rule: client_step.induct)
  case (start s input generation now p w')
  have "length (sc_handles w') = Suc (length (sc_handles (sy_w s)))"
    using start(2) by (auto simp: start_prepare_def Let_def split: sum.splits option.splits)
  then show ?case
    using start try_acquire_capacity [OF start_prepare_shape(2) [OF start(2)]]
      start_prepare_shape [OF start(2)] by (simp add: static_ok_def)
next
  case (send s ps p qs res w')
  then show ?case
    by (auto simp: static_ok_def start_send_def send_def split: if_splits)
next
  case (poll r s timeout deadline now res w')
  then show ?case
    using frame_fields [OF poll_iteration_frame [OF poll(3)]] by (simp add: static_ok_def)
next
  case (cancel r s must_send w')
  then show ?case
    by (auto simp: static_ok_def cancel_mark_def Let_def split: if_splits)
next
  case (cancel_send s ps r qs res w')
  then show ?case
    by (auto simp: static_ok_def RtShared.send_def split: if_splits)
qed (simp_all add: static_ok_def)

lemma receive_command_static:
  assumes "receive_command w = (stop, w')"
  shows "sc_config w' = sc_config w" "sp_capacity (sc_slots w') = sp_capacity (sc_slots w)"
    "sc_handles w' = sc_handles w" "length (sc_shareds w') = length (sc_shareds w)"
  using assms by (auto simp: receive_command_def handle_command_def pop_channel_def Let_def
      cancel_pending_id_def cancel_active_id_def split: command.splits option.splits)

lemma deliver_start_static [simp]:
  "sc_config (deliver_start item w) = sc_config w"
  "sp_capacity (sc_slots (deliver_start item w)) = sp_capacity (sc_slots w)"
  "sc_handles (deliver_start item w) = sc_handles w"
  "length (sc_shareds (deliver_start item w)) = length (sc_shareds w)"
  by (auto simp: deliver_start_def fail_pending_def Let_def split: prod.split sum.split)

lemma classify_static:
  assumes "classify_pending p (ready, w) = (ready', w')"
  shows "sc_config w' = sc_config w" "sp_capacity (sc_slots w') = sp_capacity (sc_slots w)"
    "sc_handles w' = sc_handles w" "length (sc_shareds w') = length (sc_shareds w)"
    "sc_active w' = sc_active w"
  using assms by (auto simp: classify_pending_def split: if_splits)

lemma static_ok_fields:
  "static_ok config s \<Longrightarrow> sc_config w' = sc_config (sy_w s) \<Longrightarrow>
     sp_capacity (sc_slots w') = sp_capacity (sc_slots (sy_w s)) \<Longrightarrow>
     sc_handles w' = sc_handles (sy_w s) \<Longrightarrow>
     length (sc_shareds w') = length (sc_shareds (sy_w s)) \<Longrightarrow>
     static_ok config (s\<lparr>sy_w := w', sy_pc := pc\<rparr>)"
  by (simp add: static_ok_def)

lemma static_ok_step_frame:
  "static_ok config s \<Longrightarrow> step_frame (sy_w s) w' \<Longrightarrow> static_ok config (s\<lparr>sy_w := w', sy_pc := pc\<rparr>)"
  by (simp add: static_ok_def step_frame_def)

lemma static_ok_worker: "worker_step be s s' \<Longrightarrow> static_ok config s \<Longrightarrow> static_ok config s'"
proof (induction rule: worker_step.induct)
  case (recv s stop w')
  then show ?case by (metis static_ok_fields receive_command_static)
next
  case (drain s cs stop w')
  then show ?case by (metis static_ok_fields receive_command_static)
next
  case (coalesce s available cs stop w')
  then show ?case by (metis static_ok_fields receive_command_static)
next
  case (idle s stop w')
  then show ?case by (metis static_ok_fields receive_command_static)
next
  case (classify s p todo ready ready' w')
  then show ?case by (metis static_ok_fields classify_static(1-4))
next
  case (prefill s p todo ready now)
  then show ?case by (simp add: static_ok_def prefill_mark_def)
next
  case (prefill_call s ready outcomes w')
  then show ?case by (intro static_ok_step_frame prefill_call_frame(2))
next
  case (step_call s selected plan w')
  then show ?case by (intro static_ok_step_frame step_call_frame)
next
  case (select s i idxs selected selected' w')
  then show ?case by (intro static_ok_step_frame select_one_frame)
next
  case (abort s e item items)
  obtain i x buffer where "item = (i, x, buffer)" by (cases item)
  then show ?case
    using abort step_abort_frame by (intro static_ok_step_frame) auto
next
  case (deliver s item items step_us now)
  obtain i x buffer result where "item = ((i, x, buffer), result)"
    by (metis surj_pair)
  then show ?case
    using deliver deliver_result_frame by (intro static_ok_step_frame) auto
next
  case (final_drain s failure c rest)
  then show ?case by (cases c) (simp_all add: static_ok_def finalise_command_def)
qed (simp_all add: static_ok_def close_channel_def)

lemma static_ok_initial: "scheduler_new config b None = Ok w \<Longrightarrow> static_ok config (sys_start w)"
  using scheduler_new_shape [of config b w] by (simp add: static_ok_def sys_start_def slot_pool_new_def)

lemma static_ok_reachable: "reachable be config s \<Longrightarrow> static_ok config s"
  by (erule reachable_invariant)
    (simp_all add: static_ok_initial static_ok_client static_ok_worker)

end
