(* ===== verification/RtBuffers.thy ===== *)
theory RtBuffers
  imports RtSlots
begin

text \<open>
  Sessions and PCM buffers of the scheduler system. The worker owns an active request's
  session exactly when the request is in its local lists, and a request's
  \<open>pcm_ring_slots\<close> buffers are always all there: free, queued, held by a client, or in the
  worker's hands.
\<close>

section \<open>What the worker holds\<close>

fun pc_items :: "'s worker_pc \<Rightarrow> (nat \<times> 's \<times> pcm) list" where
  "pc_items (AtSelect todo selected) = selected"
| "pc_items (AtAbort e items) = items"
| "pc_items (AtDeliver items) = map fst items"
| "pc_items _ = []"

text \<open>Indices the worker will still take a buffer from, and those already known to have one.\<close>

fun pc_todo :: "'s worker_pc \<Rightarrow> nat list" where
  "pc_todo (AtSelect todo selected) = todo"
| "pc_todo (AtEligible i idxs) = idxs"
| "pc_todo (AtEligibleFree i idxs) = idxs @ [i]"
| "pc_todo _ = []"

fun pc_sure :: "'s worker_pc \<Rightarrow> nat list" where
  "pc_sure (AtSelect todo selected) = todo"
| "pc_sure (AtEligible i idxs) = idxs"
| "pc_sure (AtEligibleFree i idxs) = idxs"
| "pc_sure _ = []"

fun pc_scan :: "'s worker_pc \<Rightarrow> nat list \<times> nat" where
  "pc_scan (AtEligible i idxs) = (idxs, i)"
| "pc_scan (AtEligibleFree i idxs) = (idxs, i)"
| "pc_scan _ = ([], 0)"

abbreviation item_index :: "nat \<times> 's \<times> pcm \<Rightarrow> nat" where
  "item_index \<equiv> fst"

definition sessions_ok :: "('b, 's) sys \<Rightarrow> bool" where
  "sessions_ok s \<longleftrightarrow>
     (let acts = sc_active (sy_w s); items = map item_index (pc_items (sy_pc s)) in
       distinct (pc_todo (sy_pc s) @ items) \<and>
       (\<forall>i \<in> set (pc_todo (sy_pc s) @ items). i < length acts) \<and>
       (\<forall>i < length acts. ar_session (acts ! i) = None \<longleftrightarrow> i \<in> set items) \<and>
       (\<forall>i \<in> set (fst (pc_scan (sy_pc s))). i < snd (pc_scan (sy_pc s))))"

text \<open>Steps outside the packet step: every session stays with its request.\<close>

lemma sessions_ok_quiet:
  "pc_items pc = [] \<Longrightarrow> pc_todo pc = [] \<Longrightarrow> pc_scan pc = ([], 0) \<Longrightarrow>
     sessions_ok (s\<lparr>sy_w := w', sy_pc := pc\<rparr>) \<longleftrightarrow> (\<forall>a \<in> set (sc_active w'). ar_session a \<noteq> None)"
  by (simp add: sessions_ok_def all_set_conv_all_nth Let_def)

lemma sessions_ok_all:
  "sessions_ok s \<Longrightarrow> pc_items (sy_pc s) = [] \<Longrightarrow> \<forall>a \<in> set (sc_active (sy_w s)). ar_session a \<noteq> None"
  by (simp add: sessions_ok_def all_set_conv_all_nth Let_def)

lemma sessions_ok_same:
  "sessions_ok s \<Longrightarrow> sc_active (sy_w s') = sc_active (sy_w s) \<Longrightarrow> sy_pc s' = sy_pc s \<Longrightarrow>
     sessions_ok s'"
  by (simp add: sessions_ok_def)

lemma client_step_active:
  assumes "client_step s s'"
  shows "sc_active (sy_w s') = sc_active (sy_w s) \<and> sy_pc s' = sy_pc s \<and>
    sc_config (sy_w s') = sc_config (sy_w s)"
  using assms
proof (induction rule: client_step.induct)
  case (start s input generation now p w')
  then show ?case using start_prepare_shape [OF start(2)] by simp
next
  case (send s ps p qs res w')
  then show ?case by (auto simp: start_send_def send_def split: if_splits)
next
  case (poll r s timeout deadline now res w')
  then show ?case using frame_fields [OF poll_iteration_frame [OF poll(3)]] by simp
next
  case (cancel r s must_send w')
  then show ?case using cancel_mark_frame [OF cancel(3)] by simp
next
  case (cancel_send s ps r qs res w')
  then show ?case by (auto simp: RtShared.send_def split: if_splits)
qed simp_all

lemma sessions_ok_client: "client_step s s' \<Longrightarrow> sessions_ok s \<Longrightarrow> sessions_ok s'"
  using client_step_active by (blast intro: sessions_ok_same)

section \<open>The packet step's effect on sessions\<close>

lemma frame_active: "frame w' = frame w \<Longrightarrow> sc_active w' = sc_active w"
  by (rule frame_fields)

lemma active_ref_set [simp]:
  "active_ref (set_session i x w) j = active_ref w j"
  "active_ref (set_record i y w) j = active_ref w j"
  by (cases "i < length (sc_active w)"; cases "i = j";
      simp add: active_ref_def set_session_def set_record_def list_update_beyond)+

lemma active_ref_frame: "sc_active w' = sc_active w \<Longrightarrow> active_ref w' = active_ref w"
  by (simp add: active_ref_def fun_eq_iff)

text \<open>\<open>select_one\<close> for a request that owns its session and has a free buffer.\<close>

lemma select_one_ok:
  assumes "select_one i (selected, w) = (selected', w')"
    and "ar_session (sc_active w ! i) = Some x" and "free_at w (active_ref w i) \<noteq> []"
    and "active_ref w i < length (sc_shareds w)"
  obtains buffer where
    "selected' = selected @ [(i, x, map (\<lambda>_. PCM_SENTINEL) buffer)]"
    "sc_active w' = sc_active (set_session i None w)"
    "state_at w' = state_at w" "id_at w' = id_at w"
    "free_at w (active_ref w i) = free_at w' (active_ref w i) @ [buffer]"
    "\<And>q. q \<noteq> active_ref w i \<Longrightarrow> free_at w' q = free_at w q"
    "sc_config w' = sc_config w" "length (sc_shareds w') = length (sc_shareds w)"
proof -
  let ?w1 = "set_session i None w"
  obtain res w2 where take: "take_pcm (active_ref w i) ?w1 = (res, w2)"
    by (cases "take_pcm (active_ref w i) ?w1")
  have len: "active_ref w i < length (sc_shareds ?w1)"
    using assms(4) by simp
  note eff = take_pcm_effect [OF len take]
  have "res \<noteq> None"
    using eff(4) assms(3) by simp
  then obtain buffer where res: "res = Some buffer" by auto
  have "selected' = selected @ [(i, x, map (\<lambda>_. PCM_SENTINEL) buffer)]" "w' = w2"
    using assms(1,2) take res by (auto simp: select_one_def Let_def)
  then show ?thesis
    using eff(2,3,6) eff(5) [OF res] frame_fields [OF eff(1)] by (intro that [of buffer]) simp_all
qed

lemma step_call_items:
  assumes "borrowing_backend (be_step_batch be)"
    and "RtWorker.step_call be frames selected w = (plan, w')"
  defines "items \<equiv> (case plan of StepAbort e items \<Rightarrow> items | StepDeliver items \<Rightarrow> map fst items)"
  shows "map item_index items = map item_index selected"
    and "map (length \<circ> snd \<circ> snd) items = map (length \<circ> snd \<circ> snd) selected"
    and "sc_active w' = sc_active w" "state_at w' = state_at w" "free_at w' = free_at w"
    "id_at w' = id_at w" "sc_config w' = sc_config w" "sc_shareds w' = sc_shareds w"
    "sc_channel w' = sc_channel w" "sc_handles w' = sc_handles w" "sc_pending w' = sc_pending w"
proof -
  obtain outcome qs b' where call: "be_step_batch be (sc_backend w) (map snd selected) frames = (outcome, qs, b')"
    by (cases "be_step_batch be (sc_backend w) (map snd selected) frames") auto
  have inp: "in_place (map snd selected) qs"
    by (rule borrowing_backend.step_in_place [OF assms(1) call])
  then have len: "length qs = length selected"
    by (auto simp: in_place_def dest: map_eq_imp_length_eq)
  let ?sel = "zip (map fst selected) qs"
  have items: "items = ?sel"
    using assms(2) call by (auto simp: RtWorker.step_call_def items_def Let_def
        split: unwind.splits if_splits)
  show "map item_index items = map item_index selected"
    by (simp add: items len)
  have "map (length \<circ> snd \<circ> snd) ?sel = map (length \<circ> snd) (map snd ?sel)"
    by simp
  also have "\<dots> = map (length \<circ> snd) qs"
    using len by (metis length_map map_snd_zip)
  also have "\<dots> = map (length \<circ> snd \<circ> snd) selected"
    using inp by (simp add: in_place_def comp_assoc)
  finally show "map (length \<circ> snd \<circ> snd) items = map (length \<circ> snd \<circ> snd) selected"
    by (simp add: items)
  show "sc_active w' = sc_active w" "state_at w' = state_at w" "free_at w' = free_at w"
    "id_at w' = id_at w" "sc_config w' = sc_config w" "sc_shareds w' = sc_shareds w"
    "sc_channel w' = sc_channel w" "sc_handles w' = sc_handles w" "sc_pending w' = sc_pending w"
    using assms(2) call by (auto simp: RtWorker.step_call_def Let_def split: unwind.splits if_splits)
qed

lemma step_abort_active: "sc_active (step_abort e (i, x, buffer) w) = sc_active (set_session i (Some x) w)"
  by (simp add: step_abort_def)

text \<open>What a delivered item leaves in the active list: the session back, maybe a new record.\<close>

lemma deliver_result_active:
  "\<exists>rcd. sc_active (deliver_result frames step_us now ((i, x, buffer), result) w) =
     sc_active (set_record i rcd (set_session i (Some x) w))"
proof -
  let ?w1 = "set_session i (Some x) w"
  let ?a = "sc_active ?w1 ! i"
  have same: "sc_active (set_record i (ar_record ?a) ?w1) = sc_active ?w1"
    by (cases "i < length (sc_active w)") (simp_all add: set_record_def set_session_def list_update_beyond)
  show ?thesis
  proof (cases result)
    case (Inl e)
    then show ?thesis
      using same by (intro exI [of _ "ar_record ?a"]) (simp add: deliver_result_def Let_def)
  next
    case (Inr packet)
    let ?d = "deliver_packet (ar_record ?a) (ar_max_codec_frames ?a) packet frames buffer step_us
      (duration_microseconds (now - ar_started_at ?a)) (ar_shared ?a)"
    show ?thesis
    proof (cases ?d)
      case (Inl e)
      then show ?thesis
        using same Inr by (intro exI [of _ "ar_record ?a"]) (simp add: deliver_result_def Let_def)
    next
      case (Inr ok)
      obtain rcd' owned where ok: "ok = (rcd', owned)" by (cases ok)
      obtain b w3 where push: "push_packet (ar_shared ?a) owned (rec_metrics rcd') (set_record i rcd' ?w1) = (b, w3)"
        by (cases "push_packet (ar_shared ?a) owned (rec_metrics rcd') (set_record i rcd' ?w1)")
      have "sc_active w3 = sc_active (set_record i rcd' ?w1)"
        by (rule frame_active [OF push_packet_frame [OF push]])
      then show ?thesis
        using \<open>result = Inr packet\<close> Inr ok push
        by (intro exI [of _ rcd']) (simp add: deliver_result_def Let_def split: bool.splits)
    qed
  qed
qed

section \<open>Buffer accounting of the shared states\<close>

definition packet_size :: "engine_config \<Rightarrow> nat" where
  "packet_size config = unat (packet_frames config) * unat SAMPLES_PER_CODEC_FRAME"

text \<open>\<open>out r\<close> buffers of request \<open>r\<close> are outside its shared state.\<close>

definition bufs :: "('b, 's) sched \<Rightarrow> (sref \<Rightarrow> nat) \<Rightarrow> bool" where
  "bufs w out \<longleftrightarrow> (\<forall>r < length (sc_shareds w).
     length (free_at w r) + length (st_packets (state_at w r)) + out r =
       unat (pcm_ring_slots (sc_config w)) \<and>
     (\<forall>b \<in> set (free_at w r). length b = packet_size (sc_config w)) \<and>
     queue_owned w r (packet_size (sc_config w)) \<and>
     st_packet_capacity (state_at w r) = unat (pcm_ring_slots (sc_config w)))"

lemma bufs_queue_owned:
  "bufs w out \<Longrightarrow> r < length (sc_shareds w) \<Longrightarrow> queue_owned w r (packet_size (sc_config w))"
  by (simp add: bufs_def)

lemma bufs_update [simp]:
  "bufs (w\<lparr>sc_active := x1\<rparr>) out = bufs w out" "bufs (w\<lparr>sc_pending := x2\<rparr>) out = bufs w out"
  "bufs (w\<lparr>sc_channel := x3\<rparr>) out = bufs w out" "bufs (w\<lparr>sc_backend := x4\<rparr>) out = bufs w out"
  "bufs (w\<lparr>sc_handles := x5\<rparr>) out = bufs w out" "bufs (w\<lparr>sc_shutdown := x6\<rparr>) out = bufs w out"
  "bufs (w\<lparr>sc_receiver_alive := x7\<rparr>) out = bufs w out"
  "bufs (release_slot w) out = bufs w out" "bufs (cancel_session be a w) out = bufs w out"
  "bufs (set_session i x8 w) out = bufs w out" "bufs (set_record i x9 w) out = bufs w out"
  "bufs (try_send c w) out = bufs w out"
  by (simp_all add: bufs_def queue_owned_def)

lemma bufs_same:
  assumes "bufs w out" and "frame w' = frame w" and "free_at w' = free_at w"
    and "\<And>r. r < length (sc_shareds w) \<Longrightarrow> st_packets (state_at w' r) = st_packets (state_at w r) \<and>
      st_packet_capacity (state_at w' r) = st_packet_capacity (state_at w r)"
  shows "bufs w' out"
  using assms frame_fields(1,11) [OF assms(2)] by (simp add: bufs_def queue_owned_def)

lemma bufs_marks:
  assumes "bufs w out" and "r < length (sc_shareds w)"
  shows "bufs (mark_prefilling r us w) out" "bufs (mark_generating r started w) out"
    "bufs (mark_retired r w) out"
  by (rule bufs_same [OF assms(1)];
      simp add: assms(2) mark_phase_effect mark_prefilling_def mark_generating_def mark_retired_def)+

lemma zeroed_sizes:
  "queue_owned w r n \<Longrightarrow> b \<in> set (zeroed (st_packets (state_at w r))) \<Longrightarrow> length b = n"
  by (auto simp: queue_owned_def zeroed_def owned_by_def packet_buffer_def)

lemma length_zeroed [simp]: "length (zeroed ps) = length ps"
  by (simp add: zeroed_def)

lemma bufs_cleared:
  assumes "bufs w out" and "r < length (sc_shareds w)" and "frame w' = frame w"
    and "state_at w' = (state_at w)(r := st)" and "st_packets st = []"
    and "st_packet_capacity st = st_packet_capacity (state_at w r)"
    and "free_at w' = (free_at w)(r := free_at w r @ zeroed (st_packets (state_at w r)))"
  shows "bufs w' out"
  using assms(1,2,5,6) zeroed_sizes [OF bufs_queue_owned [OF assms(1,2)]]
  by (auto simp: bufs_def queue_owned_def assms(4,7) frame_fields(1,11) [OF assms(3)])

lemma bufs_mark_cancelled:
  assumes "bufs w out" and "r < length (sc_shareds w)"
  shows "bufs (mark_cancelled r w) out"
proof -
  note eff = mark_cancelled_effect [OF assms(2) bufs_queue_owned [OF assms]]
  show ?thesis
    by (rule bufs_cleared [OF assms _ eff(1) _ _ eff(3)]) (simp_all add: cancelled_state_def)
qed

lemma bufs_mark_failed:
  assumes "bufs w out" and "r < length (sc_shareds w)"
  shows "bufs (mark_failed r e w) out"
proof -
  note eff = mark_failed_effect [OF assms(2) bufs_queue_owned [OF assms]]
  show ?thesis
    by (rule bufs_cleared [OF assms _ eff(1) _ _ eff(3)]) (simp_all add: failed_state_def)
qed

lemma bufs_recycle:
  assumes "bufs w out" and "r < length (sc_shareds w)" and "out r = Suc k"
    and "length buffer = packet_size (sc_config w)"
  shows "bufs (recycle_pcm r buffer w) (out(r := k))"
  using assms by (auto simp: bufs_def queue_owned_def recycle_pcm_effect)

lemma bufs_out_cong: "bufs w out \<Longrightarrow> (\<And>r. r < length (sc_shareds w) \<Longrightarrow> out' r = out r) \<Longrightarrow> bufs w out'"
  by (simp add: bufs_def)

lemma bufs_retire:
  assumes "bufs w out"
  shows "ps_shared p < length (sc_shareds w) \<Longrightarrow> bufs (retire_pending p w) out"
    and "ar_shared a < length (sc_shareds w) \<Longrightarrow> bufs (retire_active a w) out"
  using assms by (simp_all add: retire_pending_def retire_active_def bufs_marks)

lemma bufs_final_mark:
  "bufs w out \<Longrightarrow> r < length (sc_shareds w) \<Longrightarrow> bufs (final_mark failure r w) out"
  by (simp add: final_mark_def bufs_mark_cancelled bufs_mark_failed split: option.split)

section \<open>Polling, cancelling, pushing\<close>

text \<open>A poll takes at most the oldest packet, and changes nothing the accounting sees but that.\<close>

lemma poll_iteration_effect:
  assumes "r < length (sc_shareds w)"
    and "poll_iteration r timeout deadline now w = (res, w')"
  obtains st where "state_at w' = (state_at w)(r := st)" "free_at w' = free_at w" "id_at w' = id_at w"
    "frame w' = frame w" "st_packets (state_at w r) = received res @ st_packets st"
    "st_packet_capacity st = st_packet_capacity (state_at w r)"
    "st_cancel_requested st = st_cancel_requested (state_at w r)"
    "st_failure st = st_failure (state_at w r)"
    "st_producer_finished st = st_producer_finished (state_at w r)"
    "st_finish_reason st = st_finish_reason (state_at w r)"
    "st_retired st = st_retired (state_at w r)"
    "received res \<noteq> [] \<Longrightarrow> \<not> st_cancel_requested st \<and> st_failure st = None"
proof -
  have fr: "frame w' = frame w"
    by (rule poll_iteration_frame [OF assms(2)])
  let ?st = "state_at w r"
  note witness = that
  have same: "w' = w \<Longrightarrow> received res = [] \<Longrightarrow> thesis"
    by (rule witness [of "state_at w r"]) auto
  show thesis
  proof (cases "st_failure ?st \<noteq> None \<or> st_cancel_requested ?st \<or> st_phase ?st = Cancelled")
    case True
    then show thesis
      using assms(2) by (intro same) (auto simp: poll_iteration_def received_def Let_def
          split: option.splits)
  next
    case False
    show thesis
    proof (cases "st_packets ?st")
      case Nil
      then show thesis
      proof (cases "st_producer_finished ?st")
        case True
        then have w': "w' = upd_state r (\<lambda>st. st\<lparr>st_phase := Completed\<rparr>) w" "received res = []"
          using assms(2) False Nil by (auto simp: poll_iteration_def received_def Let_def)
        show thesis
          by (rule witness [of "?st\<lparr>st_phase := Completed\<rparr>"])
            (use assms(1) fr False Nil in \<open>auto simp: w' fun_eq_iff\<close>)
      next
        case f: False
        then show thesis
          using assms(2) False Nil by (intro same) (auto simp: poll_iteration_def received_def Let_def
              split: option.splits if_splits)
      qed
    next
      case (Cons p rest)
      then obtain m ph where w': "w' = try_send CmdWake (upd_state r (\<lambda>st. st\<lparr>st_packets := rest,
           st_metrics := m, st_phase := ph\<rparr>) w)" and res: "received res = [p]"
        using assms(2) False by (auto simp: poll_iteration_def received_def Let_def)
      show thesis
        by (rule witness [of "?st\<lparr>st_packets := rest, st_metrics := m, st_phase := ph\<rparr>"])
          (use assms(1) fr False Cons in \<open>auto simp: w' res fun_eq_iff\<close>)
    qed
  qed
qed

lemma cancel_mark_effect:
  assumes "r < length (sc_shareds w)" and "queue_owned w r n" and "cancel_mark r w = (b, w')"
  shows "id_at w' = id_at w"
    and "state_at w' = state_at w \<and> free_at w' = free_at w \<or>
      (state_at w' = (state_at w)(r := (state_at w r)\<lparr>st_cancel_requested := True,
         st_finish_reason := FinishNone, st_packets := []\<rparr>) \<and>
       free_at w' = (free_at w)(r := free_at w r @ zeroed (st_packets (state_at w r))))"
proof -
  let ?w1 = "w\<lparr>sc_handles := (sc_handles w)[r := (sc_handles w ! r)\<lparr>rh_cancel_sent := True\<rparr>]\<rparr>"
  note eff = clear_effect [of r ?w1 n "\<lambda>st. st\<lparr>st_cancel_requested := True,
     st_finish_reason := FinishNone, st_packets := []\<rparr>"]
  have q: "queue_owned ?w1 r n" "r < length (sc_shareds ?w1)"
    using assms(1,2) by (simp_all add: queue_owned_def)
  show "id_at w' = id_at w"
    "state_at w' = state_at w \<and> free_at w' = free_at w \<or>
      (state_at w' = (state_at w)(r := (state_at w r)\<lparr>st_cancel_requested := True,
         st_finish_reason := FinishNone, st_packets := []\<rparr>) \<and>
       free_at w' = (free_at w)(r := free_at w r @ zeroed (st_packets (state_at w r))))"
    using assms(3) eff [OF q(2,1)] by (auto simp: cancel_mark_def Let_def split: if_splits)
qed

lemma drop_held_effect:
  assumes "r < length (sc_shareds w)" and "owned_by r n p"
  shows "state_at (drop_held alive p w) = state_at w" "id_at (drop_held alive p w) = id_at w"
    "\<exists>b. length b = n \<and> free_at (drop_held alive p w) = (free_at w)(r := free_at w r @ [b])"
proof -
  have r: "op_recycler p = r" "length (packet_buffer p) = n"
    using assms(2) by (auto simp: owned_by_def packet_buffer_def)
  have "state_at (drop_held alive p w) = state_at w \<and> id_at (drop_held alive p w) = id_at w \<and>
    free_at (drop_held alive p w) = (free_at w)(r := free_at w r @ [map (\<lambda>_. 0) (packet_buffer p)])"
  proof (cases alive)
    case True
    then have "drop_held alive p w = recycle_pcm r (packet_buffer p) w"
      using assms(2) by (simp add: drop_held_def drop_packet_owned)
    with assms(1) show ?thesis by (simp add: recycle_pcm_effect)
  next
    case False
    with assms(1) r show ?thesis
      by (simp add: drop_held_def state_at_def id_at_def free_at_def fun_eq_iff)
  qed
  with r(2) show "state_at (drop_held alive p w) = state_at w"
    "id_at (drop_held alive p w) = id_at w"
    "\<exists>b. length b = n \<and> free_at (drop_held alive p w) = (free_at w)(r := free_at w r @ [b])"
    by (auto intro: exI [of _ "map (\<lambda>_. 0) (packet_buffer p)"])
qed

lemma pushed_state_fields [simp]:
  "st_packets (pushed_state p m st) = st_packets st @ [p]"
  "st_packet_capacity (pushed_state p m st) = st_packet_capacity st"
  "st_cancel_requested (pushed_state p m st) = st_cancel_requested st"
  "st_failure (pushed_state p m st) = st_failure st"
  "st_retired (pushed_state p m st) = st_retired st"
  by (simp_all add: pushed_state_def Let_def)

lemma push_packet_effect:
  assumes "r < length (sc_shareds w)" and "owned_by r n p" and "push_packet r p m w = (b, w')"
  shows "if b
    then state_at w' = (state_at w)(r := pushed_state p m (state_at w r)) \<and>
         free_at w' = free_at w \<and> id_at w' = id_at w \<and> \<not> st_cancel_requested (state_at w r) \<and>
         st_failure (state_at w r) = None \<and>
         length (st_packets (state_at w r)) \<noteq> st_packet_capacity (state_at w r)
    else w' = recycle_pcm r (packet_buffer p) w \<and>
         (st_cancel_requested (state_at w r) \<or> st_failure (state_at w r) \<noteq> None \<or>
          length (st_packets (state_at w r)) = st_packet_capacity (state_at w r))"
proof (cases b)
  case True
  then have w': "w' = upd_state r (pushed_state p m) w"
    using assms(3) by (auto simp: push_packet_def Let_def split: if_splits)
  have "state_at w' = (state_at w)(r := pushed_state p m (state_at w r))"
    using assms(1) by (simp add: w' fun_eq_iff)
  then show ?thesis
    using assms(1,3) True by (auto simp: push_packet_def Let_def split: if_splits)
next
  case False
  then show ?thesis
    using assms(3) drop_packet_owned [OF assms(2), of w]
    by (auto simp: push_packet_def Let_def split: if_splits)
qed

lemma deliver_packet_shape:
  assumes "deliver_packet rcd limit packet frames buffer step_us elapsed r = Ok (rcd', owned)"
  shows "op_recycler owned = r" "op_pcm owned = Some buffer"
  using assms by (auto simp: deliver_packet_def and_then_Ok_iff Let_def split: if_splits prod.splits sum.splits)

lemma bufs_push:
  assumes "bufs w out" and "r < length (sc_shareds w)" and "out r = Suc k"
    and "owned_by r (packet_size (sc_config w)) p" and "push_packet r p m w = (b, w')"
  shows "bufs w' (out(r := k))"
proof (cases b)
  case True
  then have st: "state_at w' = (state_at w)(r := pushed_state p m (state_at w r))"
    and fr: "free_at w' = free_at w"
    using push_packet_effect [OF assms(2,4,5)] by auto
  show ?thesis
    using assms(1-4) frame_fields(1,11) [OF push_packet_frame [OF assms(5)]]
    by (auto simp: bufs_def queue_owned_def st fr)
next
  case False
  then have "w' = recycle_pcm r (packet_buffer p) w"
    using push_packet_effect [OF assms(2,4,5)] by simp
  then show ?thesis
    using assms(1-4) by (auto intro!: bufs_recycle simp: owned_by_def packet_buffer_def)
qed

lemma bufs_step_abort:
  assumes "bufs w out" and "active_ref w i < length (sc_shareds w)"
    and "out (active_ref w i) = Suc k" and "length buffer = packet_size (sc_config w)"
  shows "bufs (step_abort e (i, x, buffer) w) (out(active_ref w i := k))"
  using assms by (auto simp: step_abort_def intro!: bufs_mark_failed bufs_recycle)

lemma bufs_deliver_result:
  assumes "bufs w out" and "active_ref w i < length (sc_shareds w)"
    and "out (active_ref w i) = Suc k" and "length buffer = packet_size (sc_config w)"
  shows "bufs (deliver_result frames step_us now ((i, x, buffer), result) w) (out(active_ref w i := k))"
proof -
  let ?w1 = "set_session i (Some x) w"
  let ?a = "sc_active ?w1 ! i"
  let ?r = "active_ref w i"
  have r: "ar_shared ?a = ?r"
    using active_ref_set(1) [of i "Some x" w i] by (simp add: active_ref_def)
  have rec: "bufs (recycle_pcm ?r buffer ?w1) (out(?r := k))"
    using assms by (intro bufs_recycle) simp_all
  have fail: "bufs (mark_failed ?r e (recycle_pcm ?r buffer ?w1)) (out(?r := k))" for e
    using rec assms(2) by (intro bufs_mark_failed) simp_all
  show ?thesis
  proof (cases result)
    case (Inl e)
    then show ?thesis using fail by (simp add: deliver_result_def Let_def r)
  next
    case (Inr packet)
    let ?d = "deliver_packet (ar_record ?a) (ar_max_codec_frames ?a) packet frames buffer step_us
      (duration_microseconds (now - ar_started_at ?a)) ?r"
    show ?thesis
    proof (cases ?d)
      case (Inl e)
      then show ?thesis using fail Inr by (simp add: deliver_result_def Let_def r)
    next
      case (Inr ok)
      obtain rcd' owned where ok: "ok = (rcd', owned)" by (cases ok)
      let ?w2 = "set_record i rcd' ?w1"
      have own: "owned_by ?r (packet_size (sc_config ?w2)) owned"
        using deliver_packet_shape [of _ _ _ _ buffer _ _ ?r rcd' owned] Inr ok assms(4)
        by (simp add: owned_by_def)
      obtain b w3 where push: "push_packet ?r owned (rec_metrics rcd') ?w2 = (b, w3)"
        by (cases "push_packet ?r owned (rec_metrics rcd') ?w2")
      have b3: "bufs w3 (out(?r := k))"
        by (rule bufs_push [OF _ _ _ own push]) (simp_all add: assms)
      have "length (sc_shareds w3) = length (sc_shareds w)"
        using frame_fields(11) [OF push_packet_frame [OF push]] by simp
      then have "bufs (mark_failed ?r e w3) (out(?r := k))" for e
        using b3 assms(2) by (intro bufs_mark_failed) simp_all
      with b3 push Inr ok \<open>result = Inr packet\<close> show ?thesis
        by (simp add: deliver_result_def Let_def r split: bool.splits)
    qed
  qed
qed

section \<open>The invariant\<close>

definition held_of :: "('b, 's) sys \<Rightarrow> sref \<Rightarrow> owned_audio_packet list" where
  "held_of s r = filter (\<lambda>p. op_recycler p = r) (sy_held s)"

definition flight_of :: "('b, 's) sys \<Rightarrow> sref \<Rightarrow> (nat \<times> 's \<times> pcm) list" where
  "flight_of s r = filter (\<lambda>x. active_ref (sy_w s) (item_index x) = r) (pc_items (sy_pc s))"

definition outside :: "('b, 's) sys \<Rightarrow> sref \<Rightarrow> nat" where
  "outside s r = length (held_of s r) + length (flight_of s r)"

definition buffers_ok :: "('b, 's) sys \<Rightarrow> bool" where
  "buffers_ok s \<longleftrightarrow>
     bufs (sy_w s) (outside s) \<and>
     (\<forall>p \<in> set (sy_held s). op_recycler p < length (sc_shareds (sy_w s)) \<and>
        owned_by (op_recycler p) (packet_size (sc_config (sy_w s))) p) \<and>
     (\<forall>x \<in> set (pc_items (sy_pc s)). length (snd (snd x)) = packet_size (sc_config (sy_w s))) \<and>
     (\<forall>i \<in> set (pc_sure (sy_pc s)). free_at (sy_w s) (active_ref (sy_w s) i) \<noteq> [])"

lemma active_ref_bound:
  "slots_ok s \<Longrightarrow> i < length (sc_active (sy_w s)) \<Longrightarrow>
     active_ref (sy_w s) i < length (sc_shareds (sy_w s))"
  by (auto simp: slots_ok_def owners_def active_ref_def)

text \<open>Different active requests are different requests.\<close>

lemma active_ref_inj:
  assumes "slots_ok s" and "i < length (sc_active (sy_w s))" "j < length (sc_active (sy_w s))"
    and "active_ref (sy_w s) i = active_ref (sy_w s) j"
  shows "i = j"
proof (rule ccontr)
  assume "i \<noteq> j"
  let ?refs = "map ar_shared (sc_active (sy_w s))"
  have "count (mset ?refs) r \<le> 1" for r
  proof -
    have "count (mset ?refs) r \<le> count (owners s) r"
      by (simp add: owners_def)
    also have "\<dots> \<le> 1" using assms(1) by (simp add: slots_ok_def)
    finally show ?thesis .
  qed
  then have "distinct ?refs"
    by (metis One_nat_def count_mset_0_iff distinct_count_atmost_1 le_SucE le_zero_eq mset_eq_setD
        set_mset_mset)
  then show False
    using assms(2-4) \<open>i \<noteq> j\<close> by (metis active_ref_def length_map nth_eq_iff_index_eq nth_map)
qed

lemma start_prepare_effect:
  assumes "start_prepare input generation now w = (Inr p, w')"
  shows "shared_at w' q = (if q = length (sc_shareds w)
      then request_shared_new (sc_next_request_id w) (unat (pcm_ring_slots (sc_config w)))
             (packet_size (sc_config w)) now
      else if q < length (sc_shareds w) then shared_at w q else shared_at w' q)"
    and "br_id (ps_request p) = sc_next_request_id w"
    and "validate_generation generation = Ok ()" "br_generation (ps_request p) = generation"
    and "sc_next_request_id w' = sc_next_request_id w + 1"
    and "sc_handles w' = sc_handles w @ [\<lparr>rh_cancel_sent = False, rh_live = False\<rparr>]"
  using assms by (auto simp: start_prepare_def Let_def shared_at_def nth_append packet_size_def
      split: sum.splits option.splits)

lemma buffers_ok_client:
  assumes "client_step s s'" and "slots_ok s" "sessions_ok s" "static_ok config s" "buffers_ok s"
  shows "buffers_ok s'"
  using assms
proof (induction rule: client_step.induct)
  case (start s input generation now p w')
  let ?n = "length (sc_shareds (sy_w s))"
  let ?s = "s\<lparr>sy_w := w', sy_sending := p # sy_sending s,
      sy_limit := (sy_limit s)(ps_shared p := max_codec_frames generation)\<rparr>"
  note shape = start_prepare_shape [OF start(2)]
  note eff = start_prepare_effect [OF start(2)]
  have ref: "active_ref w' = active_ref (sy_w s)"
    by (rule active_ref_frame [OF shape(6)])
  have items: "\<forall>x \<in> set (pc_items (sy_pc s)). active_ref (sy_w s) (item_index x) < ?n"
    using start(3,4) by (auto simp: sessions_ok_def Let_def intro!: active_ref_bound)
  have sure: "\<forall>i \<in> set (pc_sure (sy_pc s)). active_ref (sy_w s) i < ?n"
    using start(3,4) by (cases "sy_pc s") (auto simp: sessions_ok_def Let_def intro!: active_ref_bound)
  have new: "outside s ?n = 0"
    using start(6) items by (auto simp: outside_def held_of_def flight_of_def buffers_ok_def filter_empty_conv)
  have same: "outside ?s = outside s"
    by (simp add: fun_eq_iff outside_def held_of_def flight_of_def ref)
  have old: "state_at w' q = state_at (sy_w s) q" "free_at w' q = free_at (sy_w s) q" if "q < ?n" for q
    using that eff(1) [of q] by (simp_all add: state_at_def free_at_def)
  have fresh: "state_at w' ?n = sh_state (request_shared_new (sc_next_request_id (sy_w s))
        (unat (pcm_ring_slots (sc_config (sy_w s)))) (packet_size (sc_config (sy_w s))) now)"
    "free_at w' ?n = replicate (unat (pcm_ring_slots (sc_config (sy_w s))))
        (replicate (packet_size (sc_config (sy_w s))) 0)"
    using eff(1) [of ?n] by (simp_all add: state_at_def free_at_def request_shared_new_def)
  have "bufs w' (outside s)"
    using start(6) new by (auto simp: buffers_ok_def bufs_def shape less_Suc_eq old fresh queue_owned_def
        request_shared_new_def)
  then show ?case
    using start(6) sure by (auto simp: buffers_ok_def same [unfolded shape(1)] shape ref old)
next
  case (send s ps p qs res w')
  let ?s = "s\<lparr>sy_w := w', sy_sending := ps @ qs\<rparr>"
  have w': "sc_active w' = sc_active (sy_w s)" "sc_shareds w' = sc_shareds (sy_w s)"
    "sc_config w' = sc_config (sy_w s)"
    using send(3) by (auto simp: start_send_def send_def split: if_splits)
  then have "state_at w' = state_at (sy_w s)" "free_at w' = free_at (sy_w s)"
    by (simp_all add: fun_eq_iff state_at_def free_at_def shared_at_def)
  then show ?case
    using send(7) by (simp add: buffers_ok_def outside_def [abs_def] held_of_def flight_of_def
        active_ref_frame [OF w'(1)] bufs_def queue_owned_def w')
next
  case (poll r s timeout deadline now res w')
  let ?s = "s\<lparr>sy_w := w', sy_held := received res @ sy_held s,
      sy_log := (sy_log s)(r := sy_log s r @ received res)\<rparr>"
  have r: "r < length (sc_shareds (sy_w s))"
    using poll(1,6) by (simp add: static_ok_def)
  obtain st where st: "state_at w' = (state_at (sy_w s))(r := st)" "free_at w' = free_at (sy_w s)"
    "frame w' = frame (sy_w s)" "st_packets (state_at (sy_w s) r) = received res @ st_packets st"
    "st_packet_capacity st = st_packet_capacity (state_at (sy_w s) r)"
    by (rule poll_iteration_effect [OF r poll(3)])
  note f = frame_fields [OF st(3)]
  let ?ps = "packet_size (sc_config (sy_w s))"
  have q: "\<forall>p \<in> set (received res @ st_packets st). owned_by r ?ps p"
    using poll(7) r st(4) by (auto simp: buffers_ok_def bufs_def queue_owned_def)
  then have rec: "\<forall>p \<in> set (received res). op_recycler p = r"
    by (simp add: owned_by_def)
  have out: "outside ?s q = outside s q + (if q = r then length (received res) else 0)" for q
    using rec by (auto simp: outside_def held_of_def flight_of_def active_ref_frame [OF f(8)]
        filter_id_conv)
  have "bufs w' (outside ?s)"
    using poll(7) q by (auto simp: buffers_ok_def bufs_def queue_owned_def f st(1,2,4,5) out)
  then show ?case
    using poll(7) q r rec by (auto simp: buffers_ok_def f st(2) active_ref_frame [OF f(8)])
next
  case (drop s ps p qs w')
  let ?s = "s\<lparr>sy_w := w', sy_held := ps @ qs\<rparr>"
  let ?r = "op_recycler p"
  let ?alive = "shared_alive s ?r"
  have r: "?r < length (sc_shareds (sy_w s))" "owned_by ?r (packet_size (sc_config (sy_w s))) p"
    using drop(1,6) by (auto simp: buffers_ok_def)
  obtain b where b: "length b = packet_size (sc_config (sy_w s))"
    "free_at w' = (free_at (sy_w s))(?r := free_at (sy_w s) ?r @ [b])"
    using drop_held_effect(3) [OF r, of ?alive] drop(2) by auto
  have st: "state_at w' = state_at (sy_w s)"
    using drop_held_effect(1) [OF r] drop(2) by simp
  have fr: "frame w' = frame (sy_w s)" by (simp add: drop(2))
  note f = frame_fields [OF fr]
  have out: "outside s q = outside ?s q + (if q = ?r then 1 else 0)" for q
    by (simp add: outside_def held_of_def flight_of_def active_ref_frame [OF f(8)] drop(1))
  have "bufs w' (outside ?s)"
    using drop(6) b(1) by (auto simp: buffers_ok_def bufs_def queue_owned_def f st b(2) out)
  then show ?case
    using drop(6) by (auto simp: buffers_ok_def f b(2) active_ref_frame [OF f(8)] drop(1))
next
  case (cancel r s must_send w')
  let ?s = "s\<lparr>sy_w := w',
      sy_cancelling := (if must_send then r # sy_cancelling s else sy_cancelling s)\<rparr>"
  have r: "r < length (sc_shareds (sy_w s))"
    using cancel(1,6) by (simp add: static_ok_def)
  have q: "queue_owned (sy_w s) r (packet_size (sc_config (sy_w s)))"
    using cancel(7) r by (auto simp: buffers_ok_def bufs_queue_owned)
  note f = cancel_mark_frame [OF cancel(3)]
  have out: "outside ?s = outside s"
    by (simp add: fun_eq_iff outside_def held_of_def flight_of_def active_ref_frame [OF f(5)])
  from cancel_mark_effect(2) [OF r q cancel(3)]
  have "bufs w' (outside s) \<and> (\<forall>q. free_at (sy_w s) q \<noteq> [] \<longrightarrow> free_at w' q \<noteq> [])"
    using cancel(7) zeroed_sizes [OF q] r
    by (elim disjE conjE; simp only: buffers_ok_def) (auto simp: bufs_def queue_owned_def f)
  then show ?case
    using cancel(7) by (simp add: buffers_ok_def out f active_ref_frame [OF f(5)])
next
  case (cancel_send s ps r qs res w')
  have w': "sc_active w' = sc_active (sy_w s)" "sc_shareds w' = sc_shareds (sy_w s)"
    "sc_config w' = sc_config (sy_w s)"
    using cancel_send(3) by (auto simp: RtShared.send_def split: if_splits)
  then have "state_at w' = state_at (sy_w s)" "free_at w' = free_at (sy_w s)"
    by (simp_all add: fun_eq_iff state_at_def free_at_def shared_at_def)
  then show ?case
    using cancel_send(7) by (simp add: buffers_ok_def outside_def [abs_def] held_of_def flight_of_def
        active_ref_frame [OF w'(1)] bufs_def queue_owned_def w')
next
  case (close r s)
  then show ?case
    by (simp add: buffers_ok_def outside_def [abs_def] held_of_def flight_of_def active_ref_def)
next
  case (shutdown s)
  then show ?case
    by (simp add: buffers_ok_def outside_def [abs_def] held_of_def flight_of_def active_ref_def
        scheduler_drop_def)
qed

section \<open>Worker steps outside the packet step\<close>

definition work_ok :: "('b, 's) sys \<Rightarrow> bool" where
  "work_ok s \<longleftrightarrow> sessions_ok s \<and> buffers_ok s"

lemma outside_quiet: "pc_items (sy_pc s) = [] \<Longrightarrow> outside s = (\<lambda>r. length (held_of s r))"
  by (simp add: outside_def flight_of_def fun_eq_iff)

lemma work_ok_quiet:
  assumes "work_ok s" and "pc_items (sy_pc s) = []"
    and "pc_items pc = []" "pc_todo pc = []" "pc_scan pc = ([], 0)" "pc_sure pc = []"
    and "bufs w' (outside s)" and "\<forall>a \<in> set (sc_active w'). ar_session a \<noteq> None"
    and "length (sc_shareds w') = length (sc_shareds (sy_w s))" "sc_config w' = sc_config (sy_w s)"
  shows "work_ok (s\<lparr>sy_w := w', sy_pc := pc\<rparr>)"
proof -
  have "sessions_ok (s\<lparr>sy_w := w', sy_pc := pc\<rparr>)"
    using assms(3-5,8) by (simp add: sessions_ok_quiet)
  moreover have "outside (s\<lparr>sy_w := w', sy_pc := pc\<rparr>) = outside s"
    using assms(2,3) by (simp add: outside_quiet held_of_def)
  ultimately show ?thesis
    using assms by (simp add: work_ok_def buffers_ok_def)
qed

text \<open>Steps that only move the position.\<close>

lemma work_ok_move:
  assumes "work_ok s" and "pc_items (sy_pc s) = []"
    and "pc_items pc = []" "pc_todo pc = []" "pc_scan pc = ([], 0)" "pc_sure pc = []"
  shows "work_ok (s\<lparr>sy_pc := pc\<rparr>)"
  using work_ok_quiet [OF assms, of "sy_w s"] assms(1,2) sessions_ok_all [of s]
  by (simp add: work_ok_def buffers_ok_def)

lemma bufs_cancel_id:
  assumes "bufs w out"
  shows "\<forall>p \<in> set (sc_pending w). ps_shared p < length (sc_shareds w) \<Longrightarrow>
      bufs (cancel_pending_id id' w) out"
    and "\<forall>a \<in> set (sc_active w). ar_shared a < length (sc_shareds w) \<Longrightarrow>
      bufs (cancel_active_id id' w) out"
  using assms by (auto simp: cancel_pending_id_def cancel_active_id_def Let_def find_Some_iff
      split: option.split dest!: position_bound intro!: bufs_retire bufs_mark_cancelled)

lemma cancel_id_fields [simp]:
  "length (sc_shareds (cancel_pending_id id' w)) = length (sc_shareds w)"
  "length (sc_shareds (cancel_active_id id' w)) = length (sc_shareds w)"
  "sc_active (cancel_pending_id id' w) = sc_active w"
  "sc_active (cancel_active_id id' w) = sc_active w"
  by (simp_all add: cancel_pending_id_def cancel_active_id_def Let_def split: option.split)

lemma bufs_receive_command:
  assumes "bufs w out" and "receive_command w = (stop, w')"
    and "\<forall>p \<in> set (sc_pending w). ps_shared p < length (sc_shareds w)"
    and "\<forall>a \<in> set (sc_active w). ar_shared a < length (sc_shareds w)"
  shows "bufs w' out"
  using assms by (cases "hd (sc_channel w)")
    (auto simp: receive_command_def handle_command_def pop_channel_def intro!: bufs_cancel_id)

lemma receive_command_active: "receive_command w = (stop, w') \<Longrightarrow> sc_active w' = sc_active w"
  by (auto simp: receive_command_def handle_command_def pop_channel_def split: command.splits)

lemma owners_bounds:
  assumes "slots_ok s"
  shows "\<forall>p \<in> set (sc_pending (sy_w s)). ps_shared p < length (sc_shareds (sy_w s))"
    "\<forall>a \<in> set (sc_active (sy_w s)). ar_shared a < length (sc_shareds (sy_w s))"
    "\<forall>p \<in> set (pc_pendings (sy_pc s)). ps_shared p < length (sc_shareds (sy_w s))"
    "\<forall>p \<in> set (chan_starts (sc_channel (sy_w s))). ps_shared p < length (sc_shareds (sy_w s))"
    "\<forall>p \<in> set (sy_sending s). ps_shared p < length (sc_shareds (sy_w s))"
  using assms by (auto simp: slots_ok_def owners_def)

lemma work_ok_receive:
  assumes "work_ok s" and "slots_ok s" and "receive_command (sy_w s) = (stop, w')"
    and "pc_items (sy_pc s) = []"
    and "pc_items pc = []" "pc_todo pc = []" "pc_scan pc = ([], 0)" "pc_sure pc = []"
  shows "work_ok (s\<lparr>sy_w := w', sy_pc := pc\<rparr>)"
proof (rule work_ok_quiet [OF assms(1,4-8)])
  show "bufs w' (outside s)"
    using assms(1) owners_bounds(1,2) [OF assms(2)]
    by (intro bufs_receive_command [OF _ assms(3)]) (auto simp: work_ok_def buffers_ok_def)
  show "\<forall>a \<in> set (sc_active w'). ar_session a \<noteq> None"
    using assms(1,4) sessions_ok_all [of s] by (simp add: work_ok_def receive_command_active [OF assms(3)])
qed (use receive_command_static [OF assms(3)] in simp_all)

text \<open>A quiet step whose effect on the shared states keeps the accounting.\<close>

lemma work_ok_quiet':
  assumes "work_ok s" and "pc_items (sy_pc s) = []"
    and "pc_items pc = []" "pc_todo pc = []" "pc_scan pc = ([], 0)" "pc_sure pc = []"
    and "\<And>out. bufs (sy_w s) out \<Longrightarrow> bufs w' out"
    and "set (sc_active w') \<subseteq> set (sc_active (sy_w s))"
    and "length (sc_shareds w') = length (sc_shareds (sy_w s))" "sc_config w' = sc_config (sy_w s)"
  shows "work_ok (s\<lparr>sy_w := w', sy_pc := pc\<rparr>)"
  using assms sessions_ok_all [of s]
  by (intro work_ok_quiet [OF assms(1-6)]) (auto simp: work_ok_def buffers_ok_def)

lemma work_ok_keep:
  assumes "work_ok s" and "pc_items (sy_pc s) = []" "pc_todo (sy_pc s) = []"
    "pc_scan (sy_pc s) = ([], 0)" "pc_sure (sy_pc s) = []"
    and "\<And>out. bufs (sy_w s) out \<Longrightarrow> bufs w' out"
    and "set (sc_active w') \<subseteq> set (sc_active (sy_w s))"
    and "length (sc_shareds w') = length (sc_shareds (sy_w s))" "sc_config w' = sc_config (sy_w s)"
  shows "work_ok (s\<lparr>sy_w := w'\<rparr>)"
proof -
  have "s\<lparr>sy_w := w', sy_pc := sy_pc s\<rparr> = s\<lparr>sy_w := w'\<rparr>"
    by (cases s) simp
  then show ?thesis
    using work_ok_quiet' [OF assms(1,2,2-9)] by simp
qed

lemma bufs_classify:
  assumes "classify_pending p (ready, w) = (ready', w')" and "bufs w out"
    and "ps_shared p < length (sc_shareds w)"
  shows "bufs w' out"
  using assms by (auto simp: classify_pending_def intro!: bufs_retire bufs_mark_cancelled
      split: if_splits)

lemma bufs_deliver_start:
  assumes "bufs w out" and "ps_shared (fst item) < length (sc_shareds w)"
  shows "bufs (deliver_start item w) out"
  using assms by (auto simp: deliver_start_def fail_pending_def Let_def bufs_marks
      intro!: bufs_retire bufs_mark_failed split: prod.split sum.split)

lemma deliver_start_sessions:
  "\<forall>a \<in> set (sc_active w). ar_session a \<noteq> None \<Longrightarrow>
     \<forall>a \<in> set (sc_active (deliver_start item w)). ar_session a \<noteq> None"
  by (auto simp: deliver_start_def fail_pending_def Let_def split: prod.split sum.split)

lemma bufs_removals:
  assumes "bufs w out" and "ar_shared a < length (sc_shareds w)"
  shows "bufs (remove_cancelled_one be a w) out" "bufs (remove_finished_one be a w) out"
    "bufs (finalise_active be failure a w) out"
  using assms by (auto simp: remove_cancelled_one_def remove_finished_one_def finalise_active_def
      intro!: bufs_retire bufs_mark_cancelled bufs_final_mark)

lemma bufs_finalise_pending:
  "bufs w out \<Longrightarrow> ps_shared p < length (sc_shareds w) \<Longrightarrow> bufs (finalise_pending failure p w) out"
  by (simp add: finalise_pending_def bufs_retire bufs_final_mark)

lemma bufs_fold_release [simp]: "bufs (fold (\<lambda>_. release_slot) xs w) out = bufs w out"
  by (induction xs arbitrary: w) simp_all

lemma bufs_close_channel [simp]: "bufs (close_channel w) out = bufs w out"
  by (simp add: close_channel_def)

lemma bufs_prefill_call:
  "RtWorker.prefill_call be ready w = (outcomes, w') \<Longrightarrow> bufs w out \<Longrightarrow> bufs w' out"
  by (auto simp: RtWorker.prefill_call_def split: prod.splits unwind.splits if_splits)

lemma prefill_call_active:
  "RtWorker.prefill_call be ready w = (outcomes, w') \<Longrightarrow> sc_active w' = sc_active w"
  by (auto simp: RtWorker.prefill_call_def split: prod.splits unwind.splits if_splits)

section \<open>Worker steps of the packet step\<close>

lemma length_filter_map_cong:
  assumes "map f xs = map f ys"
  shows "length (filter (\<lambda>x. P (f x)) xs) = length (filter (\<lambda>x. P (f x)) ys)"
proof -
  have "length (filter P (map f xs)) = length (filter P (map f ys))"
    by (simp only: assms)
  then show ?thesis by (simp add: filter_map comp_def)
qed

lemma outside_pc:
  assumes "active_ref w' = active_ref (sy_w s)"
    and "map item_index (pc_items pc) = map item_index (pc_items (sy_pc s))"
  shows "outside (s\<lparr>sy_w := w', sy_pc := pc\<rparr>) = outside s"
  using length_filter_map_cong [OF assms(2), of "\<lambda>i. active_ref (sy_w s) i = r" for r]
  by (simp add: fun_eq_iff outside_def held_of_def flight_of_def assms(1))

lemma set_session_nth:
  "j < length (sc_active w) \<Longrightarrow> ar_session (sc_active (set_session i x w) ! j) =
     (if j = i then x else ar_session (sc_active w ! j))"
  by (simp add: set_session_def nth_list_update)

lemma set_record_session [simp]:
  "ar_session (sc_active (set_record i rcd w) ! j) = ar_session (sc_active w ! j)"
  by (cases "i < length (sc_active w)"; cases "j = i"; simp add: set_record_def list_update_beyond)

lemma work_ok_eligible_state:
  assumes "work_ok s" and "sy_pc s = AtEligible i idxs" and "i < length (sc_active (sy_w s))"
  shows "work_ok (s\<lparr>sy_pc := (if state_accepts (sy_w s) (active_ref (sy_w s) i)
      then AtEligibleFree i idxs else AtEligible (i + 1) idxs)\<rparr>)"
  using assms outside_pc [of "sy_w s" s "AtEligibleFree i idxs"] outside_pc [of "sy_w s" s "AtEligible (i + 1) idxs"]
  by (auto simp: work_ok_def sessions_ok_def buffers_ok_def Let_def)

lemma work_ok_eligible_free:
  assumes "work_ok s" and "sy_pc s = AtEligibleFree i idxs"
  shows "work_ok (s\<lparr>sy_pc := AtEligible (i + 1)
      (if has_free_pcm (sy_w s) (active_ref (sy_w s) i) then idxs @ [i] else idxs)\<rparr>)"
  using assms outside_pc [of "sy_w s" s "AtEligible (i + 1) (idxs @ [i])"]
    outside_pc [of "sy_w s" s "AtEligible (i + 1) idxs"]
  by (auto simp: work_ok_def sessions_ok_def buffers_ok_def Let_def has_free_pcm_def free_at_def)

lemma work_ok_eligible_done:
  assumes "work_ok s" and "sy_pc s = AtEligible i idxs"
  shows "work_ok (s\<lparr>sy_pc := (if idxs = [] then AtIdle else AtSelect idxs [])\<rparr>)"
  using assms outside_pc [of "sy_w s" s "AtSelect idxs []"] outside_pc [of "sy_w s" s AtIdle]
  by (auto simp: work_ok_def sessions_ok_def buffers_ok_def Let_def)

lemma work_ok_select:
  assumes "work_ok s" "slots_ok s" and "sy_pc s = AtSelect (i # idxs) selected"
    and "select_one i (selected, sy_w s) = (selected', w')"
  shows "work_ok (s\<lparr>sy_w := w', sy_pc := AtSelect idxs selected'\<rparr>)"
proof -
  let ?r = "active_ref (sy_w s) i"
  let ?s = "s\<lparr>sy_w := w', sy_pc := AtSelect idxs selected'\<rparr>"
  have sess: "sessions_ok s" and buf: "buffers_ok s"
    using assms(1) by (simp_all add: work_ok_def)
  have i: "i < length (sc_active (sy_w s))" "i \<notin> set idxs" "i \<notin> set (map item_index selected)"
    using sess assms(3) by (auto simp: sessions_ok_def Let_def)
  then obtain x where x: "ar_session (sc_active (sy_w s) ! i) = Some x"
    using sess assms(3) by (auto simp: sessions_ok_def Let_def)
  have free: "free_at (sy_w s) ?r \<noteq> []"
    using buf assms(3) by (simp add: buffers_ok_def)
  have r: "?r < length (sc_shareds (sy_w s))"
    by (rule active_ref_bound [OF assms(2) i(1)])
  obtain buffer where sel: "selected' = selected @ [(i, x, map (\<lambda>_. PCM_SENTINEL) buffer)]"
    and act: "sc_active w' = sc_active (set_session i None (sy_w s))"
    and st: "state_at w' = state_at (sy_w s)"
    and fr: "free_at (sy_w s) ?r = free_at w' ?r @ [buffer]"
      "\<And>q. q \<noteq> ?r \<Longrightarrow> free_at w' q = free_at (sy_w s) q"
    and cf: "sc_config w' = sc_config (sy_w s)" "length (sc_shareds w') = length (sc_shareds (sy_w s))"
    using select_one_ok [OF assms(4) x free r] by metis
  have ref: "active_ref w' = active_ref (sy_w s)"
    using act by (simp add: fun_eq_iff active_ref_def) (metis active_ref_def active_ref_set(1))
  have "sessions_ok ?s"
    using sess assms(3) i unfolding sessions_ok_def Let_def
    by (auto simp: sel act set_session_nth)
  moreover have "outside ?s q = outside s q + (if q = ?r then 1 else 0)" for q
    using assms(3) by (simp add: outside_def held_of_def flight_of_def ref sel)
  then have "bufs w' (outside ?s)"
    using buf fr by (auto simp: buffers_ok_def bufs_def queue_owned_def st cf)
  moreover have "length buffer = packet_size (sc_config (sy_w s))"
    using buf r fr(1) by (simp add: buffers_ok_def bufs_def)
  moreover have "\<forall>j \<in> set idxs. active_ref (sy_w s) j \<noteq> ?r"
    using sess assms(3) i(1,2) active_ref_inj [OF assms(2) _ i(1)]
    unfolding sessions_ok_def Let_def by (metis Un_iff pc_todo.simps(1) set_append list.set_intros(2))
  ultimately show ?thesis
    using buf assms(3) by (simp add: work_ok_def buffers_ok_def cf sel ref fr(2))
qed

lemma work_ok_step_call:
  assumes "borrowing_backend (be_step_batch be)" and "work_ok s" and "sy_pc s = AtSelect [] selected"
    and "RtWorker.step_call be frames selected (sy_w s) = (plan, w')"
  shows "work_ok (s\<lparr>sy_w := w', sy_pc := (case plan of StepAbort e items \<Rightarrow> AtAbort e items
      | StepDeliver items \<Rightarrow> AtDeliver items)\<rparr>)"
proof -
  let ?pc = "case plan of StepAbort e items \<Rightarrow> AtAbort e items | StepDeliver items \<Rightarrow> AtDeliver items"
  let ?items = "case plan of StepAbort e items \<Rightarrow> items | StepDeliver items \<Rightarrow> map fst items"
  note eff = step_call_items [OF assms(1,4)]
  have pc: "pc_items ?pc = ?items" "pc_todo ?pc = []" "pc_scan ?pc = ([], 0)" "pc_sure ?pc = []"
    by (simp_all split: step_plan.split)
  have "sessions_ok (s\<lparr>sy_w := w', sy_pc := ?pc\<rparr>)"
    using assms(2,3) unfolding work_ok_def sessions_ok_def Let_def by (simp add: pc eff(1,3))
  moreover have out: "outside (s\<lparr>sy_w := w', sy_pc := ?pc\<rparr>) = outside s"
    by (rule outside_pc) (simp_all add: pc eff(1) assms(3) active_ref_frame [OF eff(3)])
  moreover have "set (map (length \<circ> snd \<circ> snd) ?items) = set (map (length \<circ> snd \<circ> snd) selected)"
    by (simp only: eff(2))
  then have "\<forall>x \<in> set ?items. length (snd (snd x)) = packet_size (sc_config (sy_w s))"
    using assms(2,3) by (auto simp: work_ok_def buffers_ok_def)
  moreover have "bufs w' (outside s)"
    using assms(2) by (simp add: work_ok_def buffers_ok_def bufs_def queue_owned_def eff)
  ultimately show ?thesis
    using assms(2) by (simp add: work_ok_def buffers_ok_def pc eff)
qed

text \<open>Handing one item back: its session returns, its buffer leaves the worker.\<close>

lemma work_ok_hand_back:
  assumes "work_ok s" and "slots_ok s" and "pc_items (sy_pc s) = (i, x, buffer) # pc_items pc"
    and "pc_todo (sy_pc s) = []" "pc_todo pc = []" "pc_scan pc = ([], 0)" "pc_sure pc = []"
    and "bufs w' ((outside s)(active_ref (sy_w s) i := outside s (active_ref (sy_w s) i) - 1))"
    and "sc_active w' = sc_active (set_record i rcd (set_session i (Some x) (sy_w s)))"
    and "length (sc_shareds w') = length (sc_shareds (sy_w s))" "sc_config w' = sc_config (sy_w s)"
  shows "work_ok (s\<lparr>sy_w := w', sy_pc := pc\<rparr>)"
proof -
  let ?s = "s\<lparr>sy_w := w', sy_pc := pc\<rparr>"
  have ref: "active_ref w' = active_ref (sy_w s)"
    using assms(9) by (simp add: fun_eq_iff active_ref_def) (metis active_ref_def active_ref_set)
  have "sessions_ok ?s"
    using assms(1,3-6) unfolding work_ok_def sessions_ok_def Let_def
    by (auto simp: assms(9) set_session_nth)
  moreover have "outside ?s = (outside s)(active_ref (sy_w s) i := outside s (active_ref (sy_w s) i) - 1)"
    by (simp add: fun_eq_iff outside_def held_of_def flight_of_def ref assms(3))
  ultimately show ?thesis
    using assms(1,3,7,8,10,11) by (simp add: work_ok_def buffers_ok_def)
qed

lemma outside_item:
  "pc_items (sy_pc s) = (i, x, buffer) # rest \<Longrightarrow>
     outside s (active_ref (sy_w s) i) = Suc (outside s (active_ref (sy_w s) i) - 1)"
  by (simp add: outside_def flight_of_def)

lemma work_ok_abort:
  assumes "work_ok s" "slots_ok s" and "sy_pc s = AtAbort e (item # items)"
  shows "work_ok (s\<lparr>sy_w := step_abort e item (sy_w s), sy_pc := AtAbort e items\<rparr>)"
proof -
  obtain i x buffer where item: "item = (i, x, buffer)" by (cases item)
  let ?w = "set_session i (Some x) (sy_w s)"
  have i: "i < length (sc_active (sy_w s))"
    using assms(1,3) item by (auto simp: work_ok_def sessions_ok_def Let_def)
  note r = active_ref_bound [OF assms(2) i]
  have pi: "pc_items (sy_pc s) = (i, x, buffer) # pc_items (AtAbort e items)"
    by (simp add: assms(3) item)
  have act: "sc_active (step_abort e item (sy_w s)) =
      sc_active (set_record i (ar_record (sc_active (sy_w s) ! i)) ?w)"
    using i by (simp add: item step_abort_active set_record_def set_session_def)
  have "bufs (step_abort e item (sy_w s))
      ((outside s)(active_ref (sy_w s) i := outside s (active_ref (sy_w s) i) - 1))"
    unfolding item using assms(1) pi
    by (intro bufs_step_abort r outside_item [OF pi]) (auto simp: work_ok_def buffers_ok_def)
  then show ?thesis
    using step_abort_frame [of "sy_w s" e i x buffer]
    by (intro work_ok_hand_back [OF assms(1,2) pi _ _ _ _ _ act])
      (simp_all add: assms(3) item step_frame_def)
qed

lemma work_ok_deliver:
  assumes "work_ok s" "slots_ok s" and "sy_pc s = AtDeliver (item # items)"
  shows "work_ok (s\<lparr>sy_w := deliver_result frames step_us now item (sy_w s), sy_pc := AtDeliver items\<rparr>)"
proof -
  obtain i x buffer result where item: "item = ((i, x, buffer), result)"
    by (metis surj_pair)
  let ?w' = "deliver_result frames step_us now item (sy_w s)"
  have i: "i < length (sc_active (sy_w s))"
    using assms(1,3) item by (auto simp: work_ok_def sessions_ok_def Let_def)
  note r = active_ref_bound [OF assms(2) i]
  have pi: "pc_items (sy_pc s) = (i, x, buffer) # pc_items (AtDeliver items)"
    by (simp add: assms(3) item)
  obtain rcd where act: "sc_active ?w' = sc_active (set_record i rcd (set_session i (Some x) (sy_w s)))"
    using deliver_result_active item by metis
  have "bufs ?w' ((outside s)(active_ref (sy_w s) i := outside s (active_ref (sy_w s) i) - 1))"
    unfolding item using assms(1) pi
    by (intro bufs_deliver_result r outside_item [OF pi]) (auto simp: work_ok_def buffers_ok_def)
  then show ?thesis
    using deliver_result_frame [of "sy_w s" frames step_us now i x buffer result]
    by (intro work_ok_hand_back [OF assms(1,2) pi _ _ _ _ _ act])
      (simp_all add: assms(3) item step_frame_def)
qed

section \<open>Every worker step\<close>

lemma work_ok_worker:
  assumes "worker_step be s s'" and "borrowing_backend (be_step_batch be)"
    and "slots_ok s" and "work_ok s"
  shows "work_ok s'"
  using assms
proof (induction rule: worker_step.induct)
  case (recv s stop w')
  then show ?case by (intro work_ok_receive) simp_all
next
  case (drain s cs stop w')
  then show ?case by (intro work_ok_receive) simp_all
next
  case (coalesce s available cs stop w')
  then show ?case by (intro work_ok_receive) simp_all
next
  case (idle s stop w')
  then show ?case by (intro work_ok_receive) simp_all
next
  case (check s available)
  then show ?case by (intro work_ok_quiet') simp_all
next
  case (classify s p todo ready ready' w')
  then have "ps_shared p < length (sc_shareds (sy_w s))"
    using owners_bounds(3) [of s] by simp
  with classify show ?case
    using classify_static [OF classify(2)] bufs_classify [OF classify(2)]
    by (intro work_ok_quiet') simp_all
next
  case (prefill s p todo marked now)
  then have "ps_shared p < length (sc_shareds (sy_w s))"
    using owners_bounds(3) [of s] by simp
  with prefill show ?case
    by (intro work_ok_quiet') (simp_all add: prefill_mark_def bufs_marks)
next
  case (prefill_call s ready outcomes w')
  then show ?case
    using prefill_call_frame(2) [OF prefill_call(2)] prefill_call_active [OF prefill_call(2)]
      bufs_prefill_call [OF prefill_call(2)]
    by (intro work_ok_quiet') (simp_all add: step_frame_def)
next
  case (started s item outcomes)
  then have "ps_shared (fst item) < length (sc_shareds (sy_w s))"
    using owners_bounds(3) [of s] by simp
  with started show ?case
    using deliver_start_sessions [OF sessions_ok_all, of s item]
    by (intro work_ok_quiet) (auto simp: work_ok_def buffers_ok_def intro!: bufs_deliver_start)
next
  case (remove_cancelled s i a)
  then have "ar_shared a < length (sc_shareds (sy_w s))"
    using owners_bounds(2) [of s] by simp
  with remove_cancelled show ?case
    using work_ok_keep [of s "remove_cancelled_one be a
      ((sy_w s)\<lparr>sc_active := swap_remove i (sc_active (sy_w s))\<rparr>)"]
    by (simp add: bufs_removals swap_remove_subset)
next
  case (remove_finished s i a)
  then have "ar_shared a < length (sc_shareds (sy_w s))"
    using owners_bounds(2) [of s] by simp
  with remove_finished show ?case
    using work_ok_keep [of s "remove_finished_one be a
      ((sy_w s)\<lparr>sc_active := swap_remove i (sc_active (sy_w s))\<rparr>)"]
    by (simp add: bufs_removals swap_remove_subset)
next
  case (eligible_state s i idxs)
  then show ?case by (intro work_ok_eligible_state)
next
  case (eligible_free s i idxs)
  then show ?case by (intro work_ok_eligible_free)
next
  case (eligible_done s i idxs)
  then show ?case by (intro work_ok_eligible_done)
next
  case (select s i idxs selected selected' w')
  then show ?case by (intro work_ok_select)
next
  case (step_call s selected plan w')
  then show ?case by (intro work_ok_step_call)
next
  case (abort s e item items)
  then show ?case by (intro work_ok_abort)
next
  case (deliver s item items step_us now)
  then show ?case by (intro work_ok_deliver)
next
  case (final_active s failure a rest)
  then have "ar_shared a < length (sc_shareds (sy_w s))"
    using owners_bounds(2) [of s] by simp
  with final_active show ?case
    using work_ok_keep [of s "finalise_active be failure a ((sy_w s)\<lparr>sc_active := rest\<rparr>)"]
    by (auto simp: bufs_removals)
next
  case (final_pending s failure p rest)
  then have "ps_shared p < length (sc_shareds (sy_w s))"
    using owners_bounds(1) [of s] by simp
  with final_pending show ?case
    using work_ok_keep [of s "finalise_pending failure p ((sy_w s)\<lparr>sc_pending := rest\<rparr>)"]
    by (auto simp: bufs_finalise_pending)
next
  case (final_drain s failure c rest)
  show ?case
  proof (cases c)
    case (CmdStart p)
    then have "ps_shared p < length (sc_shareds (sy_w s))"
      using owners_bounds(4) [of s] final_drain by simp
    with final_drain CmdStart show ?thesis
      using work_ok_keep [of s "finalise_command failure c ((sy_w s)\<lparr>sc_channel := rest\<rparr>)"]
      by (auto simp: finalise_command_def bufs_finalise_pending)
  qed (use final_drain work_ok_keep [of s "(sy_w s)\<lparr>sc_channel := rest\<rparr>"] in
      \<open>auto simp: finalise_command_def\<close>)
next
  case (closing s failure)
  then show ?case by (intro work_ok_quiet') (simp_all add: close_channel_def)
qed (auto intro!: work_ok_move)

lemma work_ok_initial:
  assumes "scheduler_new config b None = Ok w"
  shows "work_ok (sys_start w)"
  using scheduler_new_shape [OF assms]
  by (simp add: work_ok_def sessions_ok_def buffers_ok_def sys_start_def bufs_def Let_def)

lemma work_ok_client:
  assumes "client_step s s'" and "slots_ok s" and "static_ok config s" and "work_ok s"
  shows "work_ok s'"
  using assms sessions_ok_client [of s s'] buffers_ok_client [of s s' config]
  by (simp add: work_ok_def)

lemma work_ok_reachable:
  assumes "borrowing_backend (be_step_batch be)" and "reachable be config s"
  shows "work_ok s"
proof -
  have "slots_ok s \<and> static_ok config s \<and> work_ok s"
    by (rule reachable_invariant [OF assms(2)])
      (simp add: slots_ok_initial static_ok_initial work_ok_initial,
       (elim conjE, intro conjI; (erule (1) slots_ok_client static_ok_client | erule (3) work_ok_client)),
       (elim conjE, intro conjI; (erule (1) slots_ok_worker static_ok_worker
          | erule work_ok_worker [OF _ assms(1)], assumption+)))
  then show ?thesis by simp
qed

end
