(* ===== verification/RtPacketStream.thy ===== *)
theory RtPacketStream
  imports RtRequest
begin

text \<open>
  The contract on a request's sequence of audio packets, stated over descriptors alone:
  contiguous positions from zero, every packet valid, and nothing behind a final packet.
  The scheduler produces such streams and the server's checker accepts them.
\<close>

type_synonym stream_position = "u64 \<times> u64 \<times> u64"

definition advance :: "stream_position \<Rightarrow> audio_packet_descriptor \<Rightarrow> stream_position" where
  "advance pos d = (case pos of (q, f, x) \<Rightarrow>
     (q + 1, f + ucast (pd_codec_frames d), x + ucast (sample_count d)))"

definition fits_at :: "u32 \<Rightarrow> u64 \<Rightarrow> stream_position \<Rightarrow> audio_packet_descriptor \<Rightarrow> bool" where
  "fits_at frames id' pos d \<longleftrightarrow> is_ok (descriptor_validate d frames) \<and> pd_request_id d = id' \<and>
     (pd_sequence d, first_codec_frame d, first_sample d) = pos"

fun stream_end ::
  "u32 \<Rightarrow> u64 \<Rightarrow> stream_position \<Rightarrow> audio_packet_descriptor list \<Rightarrow> stream_position option" where
  "stream_end frames id' pos [] = Some pos"
| "stream_end frames id' pos (d # ds) =
     (if fits_at frames id' pos d \<and> (pd_is_final d \<noteq> 0 \<longrightarrow> ds = [])
      then stream_end frames id' (advance pos d) ds else None)"

definition open_stream :: "audio_packet_descriptor list \<Rightarrow> bool" where
  "open_stream ds \<longleftrightarrow> (\<forall>d \<in> set ds. pd_is_final d = 0)"

definition total_frames :: "audio_packet_descriptor list \<Rightarrow> nat" where
  "total_frames ds = sum_list (map (\<lambda>d. unat (pd_codec_frames d)) ds)"

lemma total_frames_simps [simp]:
  "total_frames [] = 0" "total_frames (d # ds) = unat (pd_codec_frames d) + total_frames ds"
  "total_frames (ds @ es) = total_frames ds + total_frames es"
  by (simp_all add: total_frames_def)

lemma open_stream_simps [simp]:
  "open_stream []" "open_stream (d # ds) \<longleftrightarrow> pd_is_final d = 0 \<and> open_stream ds"
  "open_stream (ds @ es) \<longleftrightarrow> open_stream ds \<and> open_stream es"
  by (auto simp: open_stream_def)

lemma stream_end_prefix:
  "stream_end frames id' pos (ds @ es) = Some pos' \<Longrightarrow> \<exists>mid. stream_end frames id' pos ds = Some mid"
  by (induction ds arbitrary: pos) (auto split: if_splits)

lemma stream_end_snoc:
  assumes "stream_end frames id' pos ds = Some mid" and "open_stream ds" and "fits_at frames id' mid d"
  shows "stream_end frames id' pos (ds @ [d]) = Some (advance mid d)"
  using assms by (induction ds arbitrary: pos) (auto split: if_splits)

text \<open>Only the last packet of a stream can be final.\<close>

lemma stream_end_butlast_open:
  "stream_end frames id' pos ds = Some pos' \<Longrightarrow> open_stream (butlast ds)"
  by (induction ds arbitrary: pos) (auto split: if_splits)

lemma unat_u32_bound: "unat w < 4294967296" for w :: u32
proof -
  have "unat w < 2 ^ LENGTH(32)" by (rule unsigned_less)
  then show ?thesis by simp
qed

lemma unat_ucast_u32 [simp]: "unat (ucast w :: u64) = unat w" for w :: u32
  using unat_u32_bound [of w] by (simp add: unsigned_ucast_eq take_bit_nat_eq_self)

text \<open>The position reached counts the packets and frames seen.\<close>

lemma stream_end_position:
  "stream_end frames id' (q, f, x) ds = Some (q', f', x') \<Longrightarrow>
     q' = q + of_nat (length ds) \<and> f' = f + of_nat (total_frames ds)"
proof (induction ds arbitrary: q f x)
  case (Cons d ds)
  then have "stream_end frames id' (q + 1, f + ucast (pd_codec_frames d), x + ucast (sample_count d)) ds
      = Some (q', f', x')"
    by (simp add: advance_def split: if_splits)
  from Cons.IH [OF this] show ?case
    by (simp add: algebra_simps)
qed simp

lemma stream_end_from_zero:
  assumes "stream_end frames id' (0, 0, 0) ds = Some (q, f, x)" and "total_frames ds < 2 ^ 64"
  shows "unat f = total_frames ds"
  using stream_end_position [OF assms(1)] assms(2) by (simp add: unat_of_nat)

end
