(* ===== verification/RtStreams.thy ===== *)
theory RtStreams
  imports RtBuffers RtPacketStream
begin

text \<open>
  The audio of a request: what a client has polled followed by what is queued is always one
  well-formed stream within the request's frame limit, it is closed by exactly the packets
  that say so, and the worker's record stands at its end. A request that failed or was
  cancelled has an empty queue for good.
\<close>

section \<open>The stream of one request\<close>

definition dead :: "request_state \<Rightarrow> bool" where
  "dead st \<longleftrightarrow> st_cancel_requested st \<or> st_failure st \<noteq> None"

abbreviation descriptors :: "owned_audio_packet list \<Rightarrow> audio_packet_descriptor list" where
  "descriptors \<equiv> map op_descriptor"

definition request_stream ::
  "u32 \<Rightarrow> u64 \<Rightarrow> u32 \<Rightarrow> owned_audio_packet list \<Rightarrow> request_state \<Rightarrow> bool" where
  "request_stream frames id' limit polled st \<longleftrightarrow>
     (let ps = polled @ st_packets st; ds = descriptors ps in
       stream_end frames id' (0, 0, 0) ds \<noteq> None \<and> total_frames ds \<le> unat limit \<and>
       (dead st \<longrightarrow> st_packets st = []) \<and>
       (\<not> dead st \<longrightarrow>
         (if st_producer_finished st
          then ps \<noteq> [] \<and> pd_is_final (op_descriptor (last ps)) \<noteq> 0 \<and>
               st_finish_reason st = op_finish_reason (last ps) \<and>
               finish_is_terminal (st_finish_reason st)
          else open_stream ds)))"

text \<open>A change of state that keeps the stream, or ends the request.\<close>

definition stream_part :: "request_state \<Rightarrow>
    owned_audio_packet list \<times> bool \<times> backend_error option \<times> bool \<times> finish_reason" where
  "stream_part st = (st_packets st, st_cancel_requested st, st_failure st,
     st_producer_finished st, st_finish_reason st)"

definition calm :: "request_state \<Rightarrow> request_state \<Rightarrow> bool" where
  "calm st st' \<longleftrightarrow> stream_part st' = stream_part st \<or> dead st' \<and> st_packets st' = []"

lemma stream_part_eq:
  assumes "stream_part st' = stream_part st"
  shows "st_packets st' = st_packets st" "dead st' = dead st"
    "st_producer_finished st' = st_producer_finished st" "st_finish_reason st' = st_finish_reason st"
    "st_failure st' = st_failure st" "st_cancel_requested st' = st_cancel_requested st"
  using assms by (simp_all add: stream_part_def dead_def)

lemma calm_refl [simp]: "calm st st"
  by (simp add: calm_def)

lemma calm_trans: "calm st st' \<Longrightarrow> calm st' st'' \<Longrightarrow> calm st st''"
  unfolding calm_def by (metis stream_part_eq(1,2))

lemma calm_marks:
  "calm st (cancelled_state st)" "calm st (failed_state e st)"
  "calm st (st\<lparr>st_retired := b\<rparr>)" "calm st (st\<lparr>st_phase := ph, st_metrics := m\<rparr>)"
  "calm st (st\<lparr>st_cancel_requested := True, st_finish_reason := FinishNone, st_packets := []\<rparr>)"
  by (simp_all add: calm_def stream_part_def cancelled_state_def failed_state_def dead_def)

lemma request_stream_calm:
  assumes "request_stream frames id' limit polled st" and "calm st st'"
  shows "request_stream frames id' limit polled st'"
proof (cases "stream_part st' = stream_part st")
  case True
  then have "request_stream frames id' limit polled st' = request_stream frames id' limit polled st"
    by (simp only: request_stream_def stream_part_eq [OF True])
  with assms(1) show ?thesis by simp
next
  case False
  then have "dead st'" "st_packets st' = []"
    using assms(2) by (auto simp: calm_def)
  moreover have "stream_end frames id' (0, 0, 0) (descriptors polled) \<noteq> None"
    using assms(1) stream_end_prefix [of frames id' "(0, 0, 0)" "descriptors polled" "descriptors (st_packets st)"]
    unfolding request_stream_def Let_def by (metis map_append option.exhaust option.simps(3))
  ultimately show ?thesis
    using assms(1) by (simp add: request_stream_def Let_def)
qed

text \<open>What the worker's entry for an active request says about it.\<close>

definition record_position :: "request_record \<Rightarrow> stream_position" where
  "record_position rcd = (next_packet_sequence rcd, next_codec_frame rcd, next_sample rcd)"

definition record_link ::
  "u32 \<Rightarrow> u64 \<Rightarrow> u32 \<Rightarrow> owned_audio_packet list \<Rightarrow> request_state \<Rightarrow> 's active_request \<Rightarrow> bool" where
  "record_link frames id' limit polled st a \<longleftrightarrow>
     rec_id (ar_record a) = id' \<and> ar_max_codec_frames a = limit \<and>
     (\<not> dead st \<longrightarrow>
        stream_end frames id' (0, 0, 0) (descriptors (polled @ st_packets st)) =
          Some (record_position (ar_record a)) \<and>
        (\<not> st_producer_finished st \<longrightarrow> rec_phase (ar_record a) = Generating))"

lemma record_link_calm:
  assumes "record_link frames id' limit polled st a" and "calm st st'"
  shows "record_link frames id' limit polled st' a"
proof (cases "stream_part st' = stream_part st")
  case True
  then have "record_link frames id' limit polled st' a = record_link frames id' limit polled st a"
    by (simp only: record_link_def stream_part_eq [OF True])
  with assms(1) show ?thesis by simp
next
  case False
  with assms show ?thesis by (simp add: record_link_def calm_def)
qed

text \<open>An active request that the worker goes on with.\<close>

definition producing :: "request_state \<Rightarrow> bool" where
  "producing st \<longleftrightarrow> st_failure st = None \<and> (st_producer_finished st \<longrightarrow> st_cancel_requested st)"

definition unstarted :: "request_state \<Rightarrow> bool" where
  "unstarted st \<longleftrightarrow> st_packets st = [] \<and> producing st"

section \<open>Delivering a packet\<close>

lemma deliver_packet_Ok:
  assumes "deliver_packet rcd limit packet frames buffer step_us elapsed r = Ok (rcd', owned)"
  shows "fits_at frames (rec_id rcd) (record_position rcd) (op_descriptor owned)"
    and "record_position rcd' = advance (record_position rcd) (op_descriptor owned)"
    and "rec_id rcd' = rec_id rcd"
    and "pd_is_final (op_descriptor owned) = 0 \<Longrightarrow> rec_phase rcd' = rec_phase rcd"
    and "pd_is_final (op_descriptor owned) \<noteq> 0 \<Longrightarrow> finish_is_terminal (op_finish_reason owned)"
    and "saturating_add (next_codec_frame rcd) (ucast (pd_codec_frames (op_descriptor owned)))
      \<le> (ucast limit :: u64)"
proof -
  let ?d = "packet_descriptor rcd packet step_us"
  obtain rcd1 where val: "validate_backend_packet packet frames buffer = Ok ()"
    and lim: "saturating_add (next_codec_frame rcd) (ucast (bp_codec_frames packet)) \<le> (ucast limit :: u64)"
    and rp: "fst (record_packet rcd ?d frames) = Ok ()" "snd (record_packet rcd ?d frames) = rcd1"
    and out: "rcd' = record_after_packet packet elapsed rcd1" "op_descriptor owned = ?d"
      "op_finish_reason owned = bp_finish_reason packet"
    using assms by (auto simp: deliver_packet_def and_then_Ok_iff Let_def not_less
        split: if_splits prod.splits sum.splits)
  have after: "next_packet_sequence (record_after_packet packet elapsed rcd1) = next_packet_sequence rcd1"
    "next_codec_frame (record_after_packet packet elapsed rcd1) = next_codec_frame rcd1"
    "next_sample (record_after_packet packet elapsed rcd1) = next_sample rcd1"
    "rec_id (record_after_packet packet elapsed rcd1) = rec_id rcd1"
    "\<not> bp_is_final packet \<Longrightarrow> rec_phase (record_after_packet packet elapsed rcd1) = rec_phase rcd1"
    by (auto simp: record_after_packet_def transition_def Let_def)
  show "fits_at frames (rec_id rcd) (record_position rcd) (op_descriptor owned)"
    using rp(1) by (simp add: record_packet_Ok_iff out fits_at_def next_position_def record_position_def)
  show "record_position rcd' = advance (record_position rcd) (op_descriptor owned)"
    "rec_id rcd' = rec_id rcd"
    using record_packet_Ok_state [OF rp(1)] rp(2)
    by (auto simp: out after record_position_def advance_def Let_def)
  show "rec_phase rcd' = rec_phase rcd" if "pd_is_final (op_descriptor owned) = 0"
    using that record_packet_Ok_state [OF rp(1)] rp(2) after(5)
    by (auto simp: out packet_descriptor_def Let_def split: if_splits)
  show "finish_is_terminal (op_finish_reason owned)" if "pd_is_final (op_descriptor owned) \<noteq> 0"
    using that val by (auto simp: out packet_descriptor_def validate_backend_packet_def split: if_splits)
  show "saturating_add (next_codec_frame rcd) (ucast (pd_codec_frames (op_descriptor owned)))
      \<le> (ucast limit :: u64)"
    using lim by (simp add: out packet_descriptor_def)
qed

lemma saturating_add_le_u32:
  fixes f :: u64 and c limit :: u32
  assumes "saturating_add f (ucast c) \<le> (ucast limit :: u64)"
  shows "unat f + unat c \<le> unat limit"
  using assms unat_u32_bound [of limit]
  by (auto simp: word_le_nat_alt unat_saturating_add min_def split: if_splits)

text \<open>An accepted packet extends the stream of its request.\<close>

lemma push_extends_stream:
  assumes "request_stream frames id' limit polled st" and "record_link frames id' limit polled st a"
    and "deliver_packet (ar_record a) (ar_max_codec_frames a) packet frames buffer step_us elapsed r
      = Ok (rcd', owned)"
    and "\<not> dead st" and "producing st"
  shows "request_stream frames id' limit polled (pushed_state owned m st)"
    and "record_link frames id' limit polled (pushed_state owned m st) (a\<lparr>ar_record := rcd'\<rparr>)"
proof -
  let ?d = "op_descriptor owned"
  let ?ds = "descriptors (polled @ st_packets st)"
  note ok = deliver_packet_Ok [OF assms(3)]
  have nf: "\<not> st_producer_finished st"
    using assms(4,5) by (auto simp: dead_def producing_def)
  have op: "open_stream ?ds"
    using assms(1,4) nf by (simp add: request_stream_def Let_def)
  have link: "stream_end frames id' (0, 0, 0) ?ds = Some (record_position (ar_record a))"
    "rec_id (ar_record a) = id'" "ar_max_codec_frames a = limit" "rec_phase (ar_record a) = Generating"
    using assms(2,4) nf by (simp_all add: record_link_def)
  have ext: "stream_end frames id' (0, 0, 0) (?ds @ [?d]) = Some (record_position rcd')"
    using stream_end_snoc [OF link(1) op] ok(1,2) link(2) by simp
  have tot: "total_frames ?ds \<le> unat limit"
    using assms(1) by (simp add: request_stream_def Let_def)
  have "unat (next_codec_frame (ar_record a)) = total_frames ?ds"
    using tot link(1) unat_u32_bound [of limit] by (intro stream_end_from_zero) (auto simp: record_position_def)
  then have lim: "total_frames ?ds + unat (pd_codec_frames ?d) \<le> unat limit"
    using saturating_add_le_u32 [OF ok(6)] link(3) by simp
  have dd: "\<not> dead (pushed_state owned m st)"
    using assms(4) by (simp add: dead_def)
  have fin: "st_producer_finished (pushed_state owned m st) \<longleftrightarrow> pd_is_final ?d \<noteq> 0"
    "pd_is_final ?d \<noteq> 0 \<Longrightarrow> st_finish_reason (pushed_state owned m st) = op_finish_reason owned"
    using nf by (simp_all add: pushed_state_def Let_def)
  show "request_stream frames id' limit polled (pushed_state owned m st)"
    using ext lim dd fin op ok(5) by (cases "record_position rcd'") (auto simp: request_stream_def Let_def)
  show "record_link frames id' limit polled (pushed_state owned m st) (a\<lparr>ar_record := rcd'\<rparr>)"
    using ext link ok(3,4) fin by (auto simp: record_link_def)
qed

section \<open>Steps that leave the streams alone\<close>

text \<open>Every state changes calmly; only requests in \<open>D\<close> may stop producing.\<close>

definition quiet :: "('b, 's) sched \<Rightarrow> ('b, 's) sched \<Rightarrow> sref set \<Rightarrow> bool" where
  "quiet w w' D \<longleftrightarrow>
     (\<forall>r < length (sc_shareds w). calm (state_at w r) (state_at w' r) \<and>
        (r \<notin> D \<longrightarrow> producing (state_at w r) \<longrightarrow> producing (state_at w' r))) \<and>
     id_at w' = id_at w \<and> length (sc_shareds w') = length (sc_shareds w) \<and>
     sc_config w' = sc_config w"

lemma quiet_trans: "quiet w w1 D \<Longrightarrow> quiet w1 w2 D' \<Longrightarrow> quiet w w2 (D \<union> D')"
  unfolding quiet_def by (auto intro: calm_trans)

lemma quiet_via: "quiet w w1 D \<Longrightarrow> quiet w1 w2 D \<Longrightarrow> quiet w w2 D"
  using quiet_trans [of w w1 D w2 D] by simp

lemma quiet_same:
  "state_at w' = state_at w \<Longrightarrow> id_at w' = id_at w \<Longrightarrow> length (sc_shareds w') = length (sc_shareds w) \<Longrightarrow>
     sc_config w' = sc_config w \<Longrightarrow> quiet w w' D"
  by (simp add: quiet_def)

lemma quiet_one:
  assumes "state_at w' = (state_at w)(r := st)" and "calm (state_at w r) st"
    and "r \<in> D \<or> (producing (state_at w r) \<longrightarrow> producing st)"
    and "id_at w' = id_at w" "frame w' = frame w"
  shows "quiet w w' D"
  using assms frame_fields(1,11) [OF assms(5)] by (auto simp: quiet_def)

lemma producing_marks [simp]:
  "producing (cancelled_state st) \<longleftrightarrow> st_failure st = None"
  "producing (st\<lparr>st_retired := b\<rparr>) \<longleftrightarrow> producing st"
  "producing (st\<lparr>st_phase := ph, st_metrics := m\<rparr>) \<longleftrightarrow> producing st"
  by (simp_all add: producing_def cancelled_state_def)

lemma producing_failure: "producing st \<Longrightarrow> st_failure st = None"
  by (simp add: producing_def)

lemma quiet_marks:
  assumes "bufs w out" and "r < length (sc_shareds w)"
  shows "quiet w (mark_cancelled r w) {}" "quiet w (mark_failed r e w) {r}"
    "quiet w (mark_retired r w) {}" "quiet w (mark_prefilling r us w) {}"
    "quiet w (mark_generating r started w) {}"
proof -
  note q = bufs_queue_owned [OF assms]
  show "quiet w (mark_cancelled r w) {}"
    using mark_cancelled_effect [OF assms(2) q]
    by (intro quiet_one) (auto simp: calm_marks producing_failure)
  show "quiet w (mark_failed r e w) {r}"
    using mark_failed_effect [OF assms(2) q] by (intro quiet_one) (auto simp: calm_marks)
  show "quiet w (mark_retired r w) {}"
    using mark_phase_effect [OF assms(2)] by (intro quiet_one) (auto simp: calm_marks)
  show "quiet w (mark_prefilling r us w) {}"
    by (rule quiet_one [where r = r and st = "(state_at w r)\<lparr>st_phase := Prefilling,
        st_metrics := (st_metrics (state_at w r))\<lparr>queue_microseconds := us\<rparr>\<rparr>"])
      (simp_all add: assms(2) calm_marks fun_eq_iff mark_prefilling_def)
  show "quiet w (mark_generating r started w) {}"
    by (rule quiet_one [where r = r and st = "(state_at w r)\<lparr>st_phase := Generating,
        st_metrics := (st_metrics (state_at w r))
         \<lparr>prefill_microseconds := bs_prefill_microseconds started,
          peak_request_device_bytes := bs_peak_request_device_bytes started,
          peak_request_host_bytes := bs_peak_request_host_bytes started\<rparr>\<rparr>"])
      (simp_all add: assms(2) calm_marks fun_eq_iff mark_generating_def)
qed

lemma quiet_recycle: "r < length (sc_shareds w) \<Longrightarrow> quiet w (recycle_pcm r buffer w) D"
  by (rule quiet_same) (simp_all add: recycle_pcm_effect)

lemma quiet_silent [simp]:
  "quiet w w D"
  "quiet w (w\<lparr>sc_active := x1\<rparr>) D" "quiet w (w\<lparr>sc_pending := x2\<rparr>) D"
  "quiet w (w\<lparr>sc_channel := x3\<rparr>) D" "quiet w (w\<lparr>sc_backend := x4\<rparr>) D"
  "quiet w (release_slot w) D" "quiet w (cancel_session be a w) D"
  "quiet w (set_session i x5 w) D" "quiet w (set_record i x6 w) D" "quiet w (pop_channel w) D"
  by (rule quiet_same; simp add: pop_channel_def)+

text \<open>\<open>qstep\<close> chains: the accounting and the streams both go through.\<close>

definition qstep :: "('b, 's) sched \<Rightarrow> ('b, 's) sched \<Rightarrow> sref set \<Rightarrow> bool" where
  "qstep w w' D \<longleftrightarrow> (\<forall>out. bufs w out \<longrightarrow> bufs w' out \<and> quiet w w' D)"

lemma qstep_trans:
  assumes "qstep w w1 D" and "qstep w1 w2 D'" and "D \<union> D' \<subseteq> E"
  shows "qstep w w2 E"
  using assms unfolding qstep_def quiet_def by (fastforce intro: calm_trans)

lemma qstep_ops [simp]:
  "qstep w w D"
  "qstep w (w\<lparr>sc_active := x1\<rparr>) D" "qstep w (w\<lparr>sc_pending := x2\<rparr>) D"
  "qstep w (w\<lparr>sc_channel := x3\<rparr>) D" "qstep w (w\<lparr>sc_backend := x4\<rparr>) D"
  "qstep w (release_slot w) D" "qstep w (cancel_session be a w) D" "qstep w (pop_channel w) D"
  by (simp_all add: qstep_def) (simp add: pop_channel_def)

lemma qstep_marks:
  assumes "r < length (sc_shareds w)"
  shows "qstep w (mark_cancelled r w) {}" "qstep w (mark_failed r e w) {r}"
    "qstep w (mark_retired r w) {}" "qstep w (mark_prefilling r us w) {}"
    "qstep w (mark_generating r started w) {}"
  using assms by (simp_all add: qstep_def bufs_mark_cancelled bufs_mark_failed bufs_marks quiet_marks)

lemma qstep_via: "qstep w w1 D \<Longrightarrow> qstep w1 w2 D \<Longrightarrow> qstep w w2 D"
  by (erule (1) qstep_trans) simp

lemma qstep_weaken: "qstep w w' {} \<Longrightarrow> qstep w w' D"
  by (erule qstep_trans [OF _ qstep_ops(1) [where D = "{}"]]) simp

lemma qstep_retire:
  "ps_shared p < length (sc_shareds w) \<Longrightarrow> qstep w (retire_pending p w) D"
  "ar_shared a < length (sc_shareds w) \<Longrightarrow> qstep w (retire_active a w) D"
  by (auto simp: retire_pending_def retire_active_def
      intro!: qstep_via [OF qstep_ops(6)] qstep_weaken [OF qstep_marks(3)])

lemma qstep_final_mark:
  "r < length (sc_shareds w) \<Longrightarrow> qstep w (final_mark failure r w) {r}"
  by (auto simp: final_mark_def qstep_marks split: option.split intro!: qstep_weaken [OF qstep_marks(1)])

lemma qstep_pending:
  assumes "ps_shared p < length (sc_shareds w)"
  shows "qstep w (fail_pending e p w) {ps_shared p}"
    and "qstep w (finalise_pending failure p w) {ps_shared p}"
    and "qstep w (retire_pending p (mark_cancelled (ps_shared p) w)) {}"
proof -
  show "qstep w (fail_pending e p w) {ps_shared p}"
    unfolding fail_pending_def
    by (rule qstep_via [OF qstep_marks(2) [OF assms]], rule qstep_retire) (simp add: assms)
  show "qstep w (finalise_pending failure p w) {ps_shared p}"
    unfolding finalise_pending_def
    by (rule qstep_via [OF qstep_final_mark [OF assms]], rule qstep_retire) (simp add: assms)
  show "qstep w (retire_pending p (mark_cancelled (ps_shared p) w)) {}"
    by (rule qstep_via [OF qstep_marks(1) [OF assms]], rule qstep_retire) (simp add: assms)
qed

lemma qstep_active:
  assumes "ar_shared a < length (sc_shareds w)"
  shows "qstep w (finalise_active be failure a w) {ar_shared a}"
    and "qstep w (remove_cancelled_one be a w) {}"
    and "qstep w (remove_finished_one be a w) {}"
proof -
  let ?w = "cancel_session be a w"
  have c: "qstep w ?w D" for D by simp
  have len: "ar_shared a < length (sc_shareds ?w)" using assms by simp
  show "qstep w (finalise_active be failure a w) {ar_shared a}"
    unfolding finalise_active_def
    by (rule qstep_via [OF c], rule qstep_via [OF qstep_final_mark [OF len]], rule qstep_retire)
      (simp add: assms)
  show "qstep w (remove_cancelled_one be a w) {}"
    unfolding remove_cancelled_one_def
    by (rule qstep_via [OF c], rule qstep_via [OF qstep_marks(1) [OF len]], rule qstep_retire)
      (simp add: assms)
  show "qstep w (remove_finished_one be a w) {}"
    unfolding remove_finished_one_def
    using qstep_via [OF c qstep_retire(2) [OF len]] qstep_retire(2) [OF assms] by simp
qed

lemma qstep_cancel_id:
  "\<forall>p \<in> set (sc_pending w). ps_shared p < length (sc_shareds w) \<Longrightarrow>
     qstep w (cancel_pending_id id' w) {}"
  "\<forall>a \<in> set (sc_active w). ar_shared a < length (sc_shareds w) \<Longrightarrow>
     qstep w (cancel_active_id id' w) {}"
proof -
  assume p: "\<forall>p \<in> set (sc_pending w). ps_shared p < length (sc_shareds w)"
  have "qstep w (retire_pending q (mark_cancelled (ps_shared q) (w\<lparr>sc_pending := ps\<rparr>))) {}"
    if "q \<in> set (sc_pending w)" for q ps
    by (rule qstep_via [OF qstep_ops(3) [of w ps]], rule qstep_pending(3)) (use that p in simp)
  then show "qstep w (cancel_pending_id id' w) {}"
    by (auto simp: cancel_pending_id_def Let_def dest!: position_bound split: option.split)
next
  assume "\<forall>a \<in> set (sc_active w). ar_shared a < length (sc_shareds w)"
  then show "qstep w (cancel_active_id id' w) {}"
    by (auto simp: cancel_active_id_def find_Some_iff intro!: qstep_marks split: option.split)
qed

lemma cancel_pending_id_pending:
  "set (sc_pending (cancel_pending_id id' w)) \<subseteq> set (sc_pending w)"
  by (auto simp: cancel_pending_id_def Let_def dest!: position_bound swap_remove_subset split: option.split)

lemma qstep_receive:
  assumes "receive_command w = (stop, w')"
    and "\<forall>p \<in> set (sc_pending w). ps_shared p < length (sc_shareds w)"
    and "\<forall>a \<in> set (sc_active w). ar_shared a < length (sc_shareds w)"
  shows "qstep w w' {}"
proof -
  have p: "qstep w (pop_channel w) {}" by simp
  show ?thesis
  proof (cases "hd (sc_channel w)")
    case (CmdCancel id')
    have "qstep w (cancel_active_id id' (cancel_pending_id id' (pop_channel w))) {}"
      by (rule qstep_via [OF p], rule qstep_via, rule qstep_cancel_id(1))
        (use assms(2,3) in \<open>auto simp: pop_channel_def intro!: qstep_cancel_id(2)\<close>)
    then show ?thesis
      using assms(1) by (auto simp: receive_command_def handle_command_def CmdCancel)
  qed (use assms(1) p in \<open>auto simp: receive_command_def handle_command_def
      intro: qstep_via [OF p]\<close>)
qed

text \<open>The starts in the channel and on the pending list after a command.\<close>

lemma receive_command_starts:
  assumes "receive_command w = (stop, w')" and "sc_channel w \<noteq> []"
  shows "set (chan_starts (sc_channel w')) \<union> set (sc_pending w') \<subseteq>
    set (chan_starts (sc_channel w)) \<union> set (sc_pending w)"
proof -
  obtain c cs where ch: "sc_channel w = c # cs"
    using assms(2) by (cases "sc_channel w") auto
  have fields: "sc_pending (cancel_active_id id' v) = sc_pending v"
    "chan_starts (sc_channel (cancel_active_id id' v)) = chan_starts (sc_channel v)"
    "chan_starts (sc_channel (cancel_pending_id id' v)) = chan_starts (sc_channel v)"
    for id' and v :: "('a, 'b) sched"
    by (simp_all add: cancel_active_id_def cancel_pending_id_def Let_def split: option.split)
  show ?thesis
    using assms(1)
    by (cases c) (auto simp: receive_command_def handle_command_def ch pop_channel_def fields
        dest!: cancel_pending_id_pending [THEN subsetD])
qed

end
