(* ===== verification/RtDelivery.thy ===== *)
theory RtDelivery
  imports RtStreams
begin

text \<open>
  The stream invariant of the scheduler system, for any backend that respects its borrows
  and any interleaving of clients and worker.
\<close>

fun pc_live :: "'s worker_pc \<Rightarrow> nat \<Rightarrow> nat set" where
  "pc_live (AtAbort e items) n = set (map item_index items)"
| "pc_live (AtDeliver items) n = set (map (\<lambda>x. item_index (fst x)) items)"
| "pc_live (AtRemoveFinished i) n = {..<i}"
| "pc_live (AtFinalActive f) n = {}"
| "pc_live (AtFinalPending f) n = {}"
| "pc_live (AtFinalDrain f) n = {}"
| "pc_live (AtClosing f) n = {}"
| "pc_live (AtStopped f) n = {}"
| "pc_live _ n = {..<n}"

definition live_refs :: "('b, 's) sys \<Rightarrow> sref set" where
  "live_refs s = active_ref (sy_w s) ` (pc_live (sy_pc s) (length (sc_active (sy_w s))) \<inter>
     {..<length (sc_active (sy_w s))})"

definition starts :: "('b, 's) sys \<Rightarrow> pending_start set" where
  "starts s = set (sy_sending s) \<union> set (chan_starts (sc_channel (sy_w s))) \<union>
     set (sc_pending (sy_w s)) \<union> set (pc_pendings (sy_pc s))"

abbreviation frames_of :: "('b, 's) sys \<Rightarrow> u32" where
  "frames_of s \<equiv> packet_frames (sc_config (sy_w s))"

definition stream_at :: "('b, 's) sys \<Rightarrow> sref \<Rightarrow> bool" where
  "stream_at s r \<longleftrightarrow> request_stream (frames_of s) (id_at (sy_w s) r) (sy_limit s r) (sy_log s r)
     (state_at (sy_w s) r)"

definition link_at :: "('b, 's) sys \<Rightarrow> 's active_request \<Rightarrow> bool" where
  "link_at s a \<longleftrightarrow> (let r = ar_shared a in
     record_link (frames_of s) (id_at (sy_w s) r) (sy_limit s r) (sy_log s r)
       (state_at (sy_w s) r) a)"

definition start_at :: "('b, 's) sys \<Rightarrow> pending_start \<Rightarrow> bool" where
  "start_at s p \<longleftrightarrow> (let r = ps_shared p in
     unstarted (state_at (sy_w s) r) \<and> sy_log s r = [] \<and>
     sy_limit s r = max_codec_frames (br_generation (ps_request p)) \<and>
     id_at (sy_w s) r = br_id (ps_request p))"

definition streams_ok :: "('b, 's) sys \<Rightarrow> bool" where
  "streams_ok s \<longleftrightarrow>
     (\<forall>r < length (sc_shareds (sy_w s)). stream_at s r) \<and>
     (\<forall>a \<in> set (sc_active (sy_w s)). link_at s a) \<and>
     (\<forall>r \<in> live_refs s. producing (state_at (sy_w s) r)) \<and>
     (\<forall>p \<in> starts s. start_at s p) \<and>
     (\<forall>r \<ge> length (sc_shareds (sy_w s)). sy_log s r = [])"

lemma live_refs_bound: "slots_ok s \<Longrightarrow> r \<in> live_refs s \<Longrightarrow> r < length (sc_shareds (sy_w s))"
  by (auto simp: live_refs_def intro: active_ref_bound)

lemma starts_bound: "slots_ok s \<Longrightarrow> p \<in> starts s \<Longrightarrow> ps_shared p < length (sc_shareds (sy_w s))"
  using owners_bounds [of s] by (auto simp: starts_def)

lemma unstarted_calm: "unstarted st \<Longrightarrow> calm st st' \<Longrightarrow> producing st' \<Longrightarrow> unstarted st'"
  unfolding unstarted_def calm_def by (auto dest: stream_part_eq(1))

text \<open>Every step but a poll, a start and a push of a packet.\<close>

lemma streams_ok_quiet:
  assumes "streams_ok s" and "slots_ok s" and "quiet (sy_w s) (sy_w s') D"
    and log: "sy_log s' = sy_log s" "sy_limit s' = sy_limit s"
    and act: "\<And>a'. a' \<in> set (sc_active (sy_w s')) \<Longrightarrow> \<exists>a \<in> set (sc_active (sy_w s)).
      ar_shared a' = ar_shared a \<and> ar_record a' = ar_record a \<and>
      ar_max_codec_frames a' = ar_max_codec_frames a"
    and live: "\<And>r. r \<in> live_refs s' \<Longrightarrow> r \<in> live_refs s \<and> r \<notin> D"
    and start: "\<And>p. p \<in> starts s' \<Longrightarrow> p \<in> starts s \<and> ps_shared p \<notin> D"
  shows "streams_ok s'"
proof -
  note q = assms(3) [unfolded quiet_def]
  have cfg: "frames_of s' = frames_of s" "id_at (sy_w s') = id_at (sy_w s)"
    "length (sc_shareds (sy_w s')) = length (sc_shareds (sy_w s))"
    using q by simp_all
  have "stream_at s' r" if "r < length (sc_shareds (sy_w s))" for r
    using assms(1) q that by (auto simp: stream_at_def streams_ok_def log intro: request_stream_calm)
  moreover have "link_at s' a'" if a': "a' \<in> set (sc_active (sy_w s'))" for a'
  proof -
    obtain a where a: "a \<in> set (sc_active (sy_w s))" "ar_shared a' = ar_shared a"
      "ar_record a' = ar_record a" "ar_max_codec_frames a' = ar_max_codec_frames a"
      using act [OF a'] by auto
    have "calm (state_at (sy_w s) (ar_shared a)) (state_at (sy_w s') (ar_shared a))"
      using q owners_bounds(2) [OF assms(2)] a(1) by auto
    moreover have "link_at s a" using assms(1) a(1) by (simp add: streams_ok_def)
    ultimately have "record_link (frames_of s) (id_at (sy_w s) (ar_shared a)) (sy_limit s (ar_shared a))
        (sy_log s (ar_shared a)) (state_at (sy_w s') (ar_shared a)) a"
      by (auto simp: link_at_def Let_def intro: record_link_calm)
    then show ?thesis
      using a(2-4) by (simp add: link_at_def Let_def cfg log record_link_def)
  qed
  moreover have "producing (state_at (sy_w s') r)" if "r \<in> live_refs s'" for r
    using live [OF that] assms(1) q live_refs_bound [OF assms(2), of r] by (auto simp: streams_ok_def)
  moreover have "start_at s' p" if "p \<in> starts s'" for p
  proof -
    have p: "p \<in> starts s" "ps_shared p \<notin> D" using start [OF that] by auto
    have b: "ps_shared p < length (sc_shareds (sy_w s))" by (rule starts_bound [OF assms(2) p(1)])
    have st: "start_at s p" using assms(1) p(1) by (simp add: streams_ok_def)
    then have "producing (state_at (sy_w s') (ps_shared p))"
      using q b p(2) by (auto simp: start_at_def unstarted_def Let_def)
    then have "unstarted (state_at (sy_w s') (ps_shared p))"
      using st q b by (auto simp: start_at_def Let_def intro: unstarted_calm)
    then show ?thesis using st by (simp add: start_at_def Let_def cfg log)
  qed
  ultimately show ?thesis
    using assms(1) by (simp add: streams_ok_def cfg(3) log)
qed

text \<open>Owners are distinct, so what one owner does to its request misses the others.\<close>

lemma starts_not_active:
  assumes "slots_ok s" and "p \<in> starts s" and "a \<in> set (sc_active (sy_w s))"
  shows "ps_shared p \<noteq> ar_shared a"
proof
  assume eq: "ps_shared p = ar_shared a"
  let ?S = "mset (sy_sending s) + mset (chan_starts (sc_channel (sy_w s))) + mset (sc_pending (sy_w s))
      + mset (pc_pendings (sy_pc s))"
  have "ps_shared p \<in># image_mset ps_shared ?S"
    using assms(2) by (auto simp: starts_def)
  then have "1 \<le> count (image_mset ps_shared ?S) (ps_shared p)"
    by (metis count_greater_eq_one_iff)
  moreover have "ps_shared p \<in># image_mset ar_shared (mset (sc_active (sy_w s)))"
    using assms(3) eq by auto
  then have "1 \<le> count (image_mset ar_shared (mset (sc_active (sy_w s)))) (ps_shared p)"
    by (metis count_greater_eq_one_iff)
  moreover have "owners s = image_mset ps_shared ?S + image_mset ar_shared (mset (sc_active (sy_w s)))"
    by (simp add: owners_def)
  then have "count (owners s) (ps_shared p) = count (image_mset ps_shared ?S) (ps_shared p) +
      count (image_mset ar_shared (mset (sc_active (sy_w s)))) (ps_shared p)"
    by (simp only: count_union)
  ultimately have "2 \<le> count (owners s) (ps_shared p)"
    by linarith
  then show False
    using assms(1) unfolding slots_ok_def by (metis le_trans not_less_eq_eq numeral_2_eq_2 One_nat_def)
qed

lemma starts_owned: "p \<in> starts s \<Longrightarrow> ps_shared p \<in># owners s"
  by (auto simp: starts_def owners_def)

lemma live_refs_owned: "r \<in> live_refs s \<Longrightarrow> r \<in># owners s"
  by (auto simp: live_refs_def owners_def active_ref_def)

text \<open>A request that has just left the owners is neither live nor to be started.\<close>

lemma retired_not_owned:
  assumes "slots_ok s" and "owners s = add_mset r (owners s')"
  shows "r \<notin># owners s'"
proof
  assume "r \<in># owners s'"
  then have "1 \<le> count (owners s') r" by (metis count_greater_eq_one_iff)
  then have "2 \<le> count (owners s) r" by (simp add: assms(2))
  then show False
    using assms(1) unfolding slots_ok_def by (metis le_trans not_less_eq_eq numeral_2_eq_2 One_nat_def)
qed

section \<open>Client steps\<close>

lemma streams_ok_start:
  assumes "streams_ok s" "slots_ok s" "static_ok config s"
    and "start_prepare input generation now (sy_w s) = (Inr p, w')"
  shows "streams_ok (s\<lparr>sy_w := w', sy_sending := p # sy_sending s,
      sy_limit := (sy_limit s)(ps_shared p := max_codec_frames generation)\<rparr>)" (is "streams_ok ?s")
proof -
  let ?n = "length (sc_shareds (sy_w s))"
  note shape = start_prepare_shape [OF assms(4)]
  note eff = start_prepare_effect [OF assms(4)]
  have old: "state_at w' q = state_at (sy_w s) q" "id_at w' q = id_at (sy_w s) q" if "q < ?n" for q
    using that eff(1) [of q] by (simp_all add: state_at_def id_at_def)
  have new: "state_at w' ?n = sh_state (request_shared_new (sc_next_request_id (sy_w s))
        (unat (pcm_ring_slots (sc_config (sy_w s)))) (packet_size (sc_config (sy_w s))) now)"
    "id_at w' ?n = sc_next_request_id (sy_w s)"
    using eff(1) [of ?n] by (simp_all add: state_at_def id_at_def request_shared_new_def)
  have st: "st_packets (state_at w' ?n) = []" "producing (state_at w' ?n)" "\<not> dead (state_at w' ?n)"
    "\<not> st_producer_finished (state_at w' ?n)"
    by (simp_all add: new producing_def dead_def request_shared_new_def)
  have log: "sy_log s ?n = []"
    using assms(1) by (simp add: streams_ok_def)
  have "stream_at ?s r" if "r < Suc ?n" for r
  proof (cases "r = ?n")
    case True
    then show ?thesis
      using log st by (simp add: stream_at_def request_stream_def Let_def shape)
  next
    case False
    then show ?thesis
      using assms(1) that by (simp add: stream_at_def streams_ok_def shape old)
  qed
  moreover have "link_at ?s a" if "a \<in> set (sc_active (sy_w s))" for a
    using assms(1) that owners_bounds(2) [OF assms(2)]
    by (auto simp: link_at_def streams_ok_def shape old Let_def)
  moreover have "producing (state_at w' r)" if "r \<in> live_refs ?s" for r
  proof -
    have "live_refs ?s = live_refs s"
      by (simp add: live_refs_def shape active_ref_frame [OF shape(6)])
    then show ?thesis
      using that assms(1) live_refs_bound [OF assms(2), of r] by (auto simp: streams_ok_def old)
  qed
  moreover have "start_at ?s q" if "q \<in> starts ?s" for q
  proof -
    have "q = p \<or> q \<in> starts s"
      using that by (auto simp: starts_def shape)
    then show ?thesis
    proof
      assume "q = p"
      then show ?thesis
        using st log eff(2,4) by (simp add: start_at_def Let_def unstarted_def shape new)
    next
      assume q: "q \<in> starts s"
      then show ?thesis
        using assms(1) starts_bound [OF assms(2) q]
        by (auto simp: start_at_def streams_ok_def Let_def old shape)
    qed
  qed
  ultimately show ?thesis
    using assms(1) by (simp add: streams_ok_def shape)
qed

text \<open>A poll moves the oldest queued packet to the history: the stream is the same.\<close>

lemma streams_ok_poll:
  assumes "streams_ok s" "slots_ok s" "r < length (sc_shareds (sy_w s))"
    and "poll_iteration r timeout deadline now (sy_w s) = (res, w')"
  shows "streams_ok (s\<lparr>sy_w := w', sy_held := received res @ sy_held s,
      sy_log := (sy_log s)(r := sy_log s r @ received res)\<rparr>)" (is "streams_ok ?s")
proof -
  obtain st where st: "state_at w' = (state_at (sy_w s))(r := st)" "id_at w' = id_at (sy_w s)"
    "frame w' = frame (sy_w s)" "st_packets (state_at (sy_w s) r) = received res @ st_packets st"
    "st_cancel_requested st = st_cancel_requested (state_at (sy_w s) r)"
    "st_failure st = st_failure (state_at (sy_w s) r)"
    "st_producer_finished st = st_producer_finished (state_at (sy_w s) r)"
    "st_finish_reason st = st_finish_reason (state_at (sy_w s) r)"
    "received res \<noteq> [] \<Longrightarrow> \<not> st_cancel_requested st \<and> st_failure st = None"
    by (rule poll_iteration_effect [OF assms(3,4)]) (rule that, assumption+)
  note f = frame_fields [OF st(3)]
  let ?st = "state_at (sy_w s) r"
  have d: "dead st = dead ?st" "producing st = producing ?st"
    by (simp_all add: dead_def producing_def st)
  have dead_empty: "dead ?st \<Longrightarrow> st_packets ?st = []"
    using assms(1,3) by (auto simp: streams_ok_def stream_at_def request_stream_def Let_def)
  have whole: "(sy_log s r @ received res) @ st_packets st = sy_log s r @ st_packets ?st"
    by (simp add: st(4))
  have stream: "request_stream fr i l (sy_log s r @ received res) st"
    if "request_stream fr i l (sy_log s r) ?st" for fr i l
    using that dead_empty unfolding request_stream_def whole d st(7,8) by (simp add: st(4))
  have link: "record_link fr i l (sy_log s r @ received res) st a"
    if "record_link fr i l (sy_log s r) ?st a" for fr i l a
    using that unfolding record_link_def whole d st(7) .
  have "stream_at ?s q" if "q < length (sc_shareds (sy_w s))" for q
    using assms(1) that stream by (auto simp: stream_at_def streams_ok_def f st(1,2))
  moreover have "link_at ?s a" if "a \<in> set (sc_active (sy_w s))" for a
  proof -
    have "link_at s a" using assms(1) that by (simp add: streams_ok_def)
    then show ?thesis
      using link by (cases "ar_shared a = r") (simp_all add: link_at_def Let_def f st(1,2))
  qed
  moreover have "live_refs ?s = live_refs s"
    by (simp add: live_refs_def f active_ref_frame [OF f(8)])
  then have "producing (state_at w' q)" if "q \<in> live_refs ?s" for q
    using assms(1) that d(2) by (auto simp: streams_ok_def st(1))
  moreover have "start_at ?s p" if p: "p \<in> starts ?s" for p
  proof -
    have "start_at s p"
      using p assms(1) by (simp add: starts_def streams_ok_def f)
    then show ?thesis
      using st(4) d(2) by (auto simp: start_at_def Let_def unstarted_def st(1,2))
  qed
  ultimately show ?thesis
    using assms(1,3) by (auto simp: streams_ok_def f)
qed

lemma scheduler_drop_reads:
  "state_at (scheduler_drop w) = state_at w" "id_at (scheduler_drop w) = id_at w"
  by (simp_all add: scheduler_drop_def)

lemma streams_ok_client:
  assumes "client_step s s'" and "streams_ok s" "slots_ok s" "static_ok config s" "work_ok s"
  shows "streams_ok s'"
  using assms
proof (induction rule: client_step.induct)
  case (start s input generation now p w')
  then show ?case by (intro streams_ok_start)
next
  case (send s ps p qs res w')
  have w': "sc_active w' = sc_active (sy_w s)" "sc_shareds w' = sc_shareds (sy_w s)"
    "sc_config w' = sc_config (sy_w s)" "sc_pending w' = sc_pending (sy_w s)"
    "set (chan_starts (sc_channel w')) \<subseteq> insert p (set (chan_starts (sc_channel (sy_w s))))"
    using send(3) by (auto simp: start_send_def send_def split: if_splits)
  have "state_at w' = state_at (sy_w s)" "id_at w' = id_at (sy_w s)"
    by (simp_all add: fun_eq_iff state_at_def id_at_def shared_at_def w')
  then have q: "quiet (sy_w s) w' {}"
    by (intro quiet_same) (simp_all add: w')
  show ?case
    by (rule streams_ok_quiet [OF send(4,5), where D = "{}"])
      (use q send(1) in \<open>auto simp: w'(1-4) starts_def live_refs_def active_ref_frame [OF w'(1)]
        dest!: w'(5) [THEN subsetD]\<close>)
next
  case (poll r s timeout deadline now res w')
  then show ?case by (intro streams_ok_poll) (simp_all add: static_ok_def)
next
  case (drop s ps p qs w')
  let ?r = "op_recycler p"
  have r: "?r < length (sc_shareds (sy_w s))" "owned_by ?r (packet_size (sc_config (sy_w s))) p"
    using drop(1,6) by (auto simp: work_ok_def buffers_ok_def)
  have fr: "frame w' = frame (sy_w s)" by (simp add: drop(2))
  note f = frame_fields [OF fr]
  have q: "quiet (sy_w s) w' {}"
    using drop_held_effect(1,2) [OF r] f by (intro quiet_same) (simp_all add: drop(2))
  show ?case
    by (rule streams_ok_quiet [OF drop(3,4), where D = "{}"])
      (use q in \<open>auto simp: f starts_def live_refs_def active_ref_frame [OF f(8)]\<close>)
next
  case (cancel r s must_send w')
  have r: "r < length (sc_shareds (sy_w s))"
    using cancel(1,6) by (simp add: static_ok_def)
  have qo: "queue_owned (sy_w s) r (packet_size (sc_config (sy_w s)))"
    using cancel(7) r by (auto simp: work_ok_def buffers_ok_def bufs_queue_owned)
  note f = cancel_mark_frame [OF cancel(3)]
  note eff = cancel_mark_effect [OF r qo cancel(3)]
  from eff(2) have q: "quiet (sy_w s) w' {}"
    using eff(1) f by (auto simp: quiet_def calm_marks producing_def)
  show ?case
    by (rule streams_ok_quiet [OF cancel(4,5), where D = "{}"])
      (use q in \<open>auto simp: f starts_def live_refs_def active_ref_frame [OF f(5)]\<close>)
next
  case (cancel_send s ps r qs res w')
  have w': "sc_active w' = sc_active (sy_w s)" "sc_shareds w' = sc_shareds (sy_w s)"
    "sc_config w' = sc_config (sy_w s)" "sc_pending w' = sc_pending (sy_w s)"
    "chan_starts (sc_channel w') = chan_starts (sc_channel (sy_w s))"
    using cancel_send(3) by (auto simp: RtShared.send_def split: if_splits)
  have "state_at w' = state_at (sy_w s)" "id_at w' = id_at (sy_w s)"
    by (simp_all add: fun_eq_iff state_at_def id_at_def shared_at_def w')
  then have q: "quiet (sy_w s) w' {}"
    by (intro quiet_same) (simp_all add: w')
  show ?case
    by (rule streams_ok_quiet [OF cancel_send(4,5), where D = "{}"])
      (use q in \<open>auto simp: w' starts_def live_refs_def active_ref_frame [OF w'(1)]\<close>)
next
  case (close r s)
  show ?case
    by (rule streams_ok_quiet [OF close(5,6), where D = "{}"])
      (auto simp: quiet_same starts_def live_refs_def active_ref_def)
next
  case (shutdown s)
  show ?case
    by (rule streams_ok_quiet [OF shutdown(3,4), where D = "{}"])
      (auto intro!: quiet_same simp: starts_def live_refs_def active_ref_def scheduler_drop_reads)
qed

section \<open>Worker steps\<close>

lemma qstep_quiet: "qstep (sy_w s) w' D \<Longrightarrow> work_ok s \<Longrightarrow> quiet (sy_w s) w' D"
  by (auto simp: qstep_def work_ok_def buffers_ok_def)

text \<open>Moving the worker on, with nothing else changed.\<close>

lemma streams_ok_move:
  assumes "streams_ok s" and "set (pc_pendings pc) \<subseteq> set (pc_pendings (sy_pc s))"
    and "\<And>r. r \<in> live_refs (s\<lparr>sy_pc := pc\<rparr>) \<Longrightarrow> producing (state_at (sy_w s) r)"
  shows "streams_ok (s\<lparr>sy_pc := pc\<rparr>)"
proof -
  have "starts (s\<lparr>sy_pc := pc\<rparr>) \<subseteq> starts s"
    using assms(2) by (auto simp: starts_def)
  then show ?thesis
    using assms(1,3) by (auto simp: streams_ok_def stream_at_def link_at_def start_at_def)
qed

lemma streams_ok_move_live:
  "streams_ok s \<Longrightarrow> set (pc_pendings pc) \<subseteq> set (pc_pendings (sy_pc s)) \<Longrightarrow>
     pc_live pc (length (sc_active (sy_w s))) \<inter> {..<length (sc_active (sy_w s))}
       \<subseteq> pc_live (sy_pc s) (length (sc_active (sy_w s))) \<Longrightarrow> streams_ok (s\<lparr>sy_pc := pc\<rparr>)"
  by (rule streams_ok_move) (auto simp: streams_ok_def live_refs_def)

text \<open>A step of one of the quiet operations that keeps the worker's entries.\<close>

lemma streams_ok_step:
  assumes "streams_ok s" "slots_ok s" "work_ok s" and "qstep (sy_w s) w' D"
    and act: "\<And>a'. a' \<in> set (sc_active w') \<Longrightarrow> \<exists>a \<in> set (sc_active (sy_w s)).
      ar_shared a' = ar_shared a \<and> ar_record a' = ar_record a \<and>
      ar_max_codec_frames a' = ar_max_codec_frames a"
    and live: "\<And>r. r \<in> live_refs (s\<lparr>sy_w := w', sy_pc := pc\<rparr>) \<Longrightarrow> r \<in> live_refs s \<and> r \<notin> D"
    and start: "\<And>p. p \<in> starts (s\<lparr>sy_w := w', sy_pc := pc\<rparr>) \<Longrightarrow> p \<in> starts s \<and> ps_shared p \<notin> D"
  shows "streams_ok (s\<lparr>sy_w := w', sy_pc := pc\<rparr>)"
  by (rule streams_ok_quiet [OF assms(1,2), where D = D])
    (use qstep_quiet [OF assms(4,3)] act live start in auto)

text \<open>The same when request \<open>r\<close> stops being owned by the step.\<close>

lemma streams_ok_release:
  assumes "streams_ok s" "slots_ok s" "work_ok s" and "qstep (sy_w s) w' {r}"
    and own: "owners s = add_mset r (owners (s\<lparr>sy_w := w', sy_pc := pc\<rparr>))"
    and "set (sc_active w') \<subseteq> set (sc_active (sy_w s))"
    and "live_refs (s\<lparr>sy_w := w', sy_pc := pc\<rparr>) \<subseteq> live_refs s"
    and "starts (s\<lparr>sy_w := w', sy_pc := pc\<rparr>) \<subseteq> starts s"
  shows "streams_ok (s\<lparr>sy_w := w', sy_pc := pc\<rparr>)"
proof -
  note gone = retired_not_owned [OF assms(2) own]
  show ?thesis
    by (rule streams_ok_step [OF assms(1-4)])
      (use assms(6-8) gone starts_owned live_refs_owned in blast)+
qed

lemma streams_ok_receive:
  assumes "streams_ok s" "slots_ok s" "work_ok s" and "receive_command (sy_w s) = (stop, w')"
    and "sc_channel (sy_w s) \<noteq> []" and "pc_pendings pc = []" "pc_pendings (sy_pc s) = []"
    and "pc_live (sy_pc s) = (\<lambda>n. {..<n})"
  shows "streams_ok (s\<lparr>sy_w := w', sy_pc := pc\<rparr>)"
proof (rule streams_ok_step [OF assms(1-3), where D = "{}"])
  note act = receive_command_active [OF assms(4)]
  show "qstep (sy_w s) w' {}"
    by (rule qstep_receive [OF assms(4) owners_bounds(1,2) [OF assms(2)]])
  show "\<And>r. r \<in> live_refs (s\<lparr>sy_w := w', sy_pc := pc\<rparr>) \<Longrightarrow> r \<in> live_refs s \<and> r \<notin> {}"
    by (auto simp: live_refs_def act active_ref_frame [OF act] assms(8))
  show "\<And>p. p \<in> starts (s\<lparr>sy_w := w', sy_pc := pc\<rparr>) \<Longrightarrow> p \<in> starts s \<and> ps_shared p \<notin> {}"
    using receive_command_starts [OF assms(4,5)] by (auto simp: starts_def assms(6,7))
qed (use receive_command_active [OF assms(4)] in auto)

section \<open>Handing an item back\<close>

lemma item_entry:
  assumes "i < length (sc_active w)" and "a' \<in> set (sc_active (set_record i rcd (set_session i y w)))"
  obtains (item) "a' = (sc_active w ! i)\<lparr>ar_session := y, ar_record := rcd\<rparr>"
  | (other) j where "j < length (sc_active w)" "j \<noteq> i" "a' = sc_active w ! j"
proof -
  obtain j where j: "j < length (sc_active w)" "a' = sc_active (set_record i rcd (set_session i y w)) ! j"
    using assms(2) by (auto simp: in_set_conv_nth set_record_def set_session_def)
  show thesis
  proof (cases "j = i")
    case True
    then show thesis
      using j assms(1) by (intro item) (simp add: set_record_def set_session_def)
  next
    case False
    then show thesis
      using j by (intro other) (simp_all add: set_record_def set_session_def)
  qed
qed

text \<open>One item of \<open>AtAbort\<close> or \<open>AtDeliver\<close> with its request \<open>r\<close>.\<close>

definition item_step ::
  "('b, 's) sys \<Rightarrow> nat \<Rightarrow> 's worker_pc \<Rightarrow> ('b, 's) sched \<Rightarrow> request_record \<Rightarrow> bool" where
  "item_step s i pc w' rcd \<longleftrightarrow>
     i < length (sc_active (sy_w s)) \<and>
     pc_live pc (length (sc_active (sy_w s))) \<subseteq> pc_live (sy_pc s) (length (sc_active (sy_w s))) - {i} \<and>
     i \<in> pc_live (sy_pc s) (length (sc_active (sy_w s))) \<and>
     pc_pendings pc = [] \<and> pc_pendings (sy_pc s) = [] \<and>
     (\<exists>y. sc_active w' = sc_active (set_record i rcd (set_session i y (sy_w s)))) \<and>
     step_frame (sy_w s) w'"

lemma item_step_refs:
  assumes "slots_ok s" and "item_step s i pc w' rcd"
  shows "active_ref w' = active_ref (sy_w s)"
    and "live_refs (s\<lparr>sy_w := w', sy_pc := pc\<rparr>) \<subseteq> live_refs s - {active_ref (sy_w s) i}"
    and "starts (s\<lparr>sy_w := w', sy_pc := pc\<rparr>) = starts s"
    and "p \<in> starts s \<Longrightarrow> ps_shared p \<noteq> active_ref (sy_w s) i"
    and "active_ref (sy_w s) i \<in> live_refs s"
    and "j < length (sc_active (sy_w s)) \<Longrightarrow> j \<noteq> i \<Longrightarrow>
      ar_shared (sc_active (sy_w s) ! j) \<noteq> active_ref (sy_w s) i"
proof -
  obtain y where act: "sc_active w' = sc_active (set_record i rcd (set_session i y (sy_w s)))"
    and i: "i < length (sc_active (sy_w s))"
    and live: "pc_live pc (length (sc_active (sy_w s))) \<subseteq> pc_live (sy_pc s) (length (sc_active (sy_w s))) - {i}"
    using assms(2) by (auto simp: item_step_def)
  show ref: "active_ref w' = active_ref (sy_w s)"
    using act by (simp add: fun_eq_iff active_ref_def) (metis active_ref_def active_ref_set)
  show "live_refs (s\<lparr>sy_w := w', sy_pc := pc\<rparr>) \<subseteq> live_refs s - {active_ref (sy_w s) i}"
    using live i active_ref_inj [OF assms(1) _ i] by (auto simp: live_refs_def act ref)
  show "starts (s\<lparr>sy_w := w', sy_pc := pc\<rparr>) = starts s"
    using assms(2) by (simp add: starts_def item_step_def step_frame_def)
  show "ps_shared p \<noteq> active_ref (sy_w s) i" if "p \<in> starts s"
    using starts_not_active [OF assms(1) that] i by (simp add: active_ref_def)
  show "active_ref (sy_w s) i \<in> live_refs s"
    using assms(2) by (auto simp: live_refs_def item_step_def)
  show "ar_shared (sc_active (sy_w s) ! j) \<noteq> active_ref (sy_w s) i"
    if "j < length (sc_active (sy_w s))" "j \<noteq> i"
    using active_ref_inj [OF assms(1) that(1) i] that(2) by (auto simp: active_ref_def)
qed

text \<open>The request fails or is cancelled, or its record is what it was.\<close>

lemma streams_ok_item:
  assumes "streams_ok s" "slots_ok s" and "item_step s i pc w' rcd"
    and "quiet (sy_w s) w' {active_ref (sy_w s) i}"
    and "rec_id rcd = rec_id (ar_record (sc_active (sy_w s) ! i))"
    and "rcd = ar_record (sc_active (sy_w s) ! i) \<or> dead (state_at w' (active_ref (sy_w s) i))"
  shows "streams_ok (s\<lparr>sy_w := w', sy_pc := pc\<rparr>)" (is "streams_ok ?s")
proof -
  let ?r = "active_ref (sy_w s) i"
  note refs = item_step_refs [OF assms(2,3)]
  have i: "i < length (sc_active (sy_w s))"
    using assms(3) by (simp add: item_step_def)
  obtain y where act: "sc_active w' = sc_active (set_record i rcd (set_session i y (sy_w s)))"
    using assms(3) by (auto simp: item_step_def)
  define w0 where "w0 = w'\<lparr>sc_active := sc_active (sy_w s)\<rparr>"
  let ?mid = "s\<lparr>sy_w := w0, sy_pc := pc\<rparr>"
  have w0: "state_at w0 = state_at w'" "id_at w0 = id_at w'" "sc_active w0 = sc_active (sy_w s)"
    "sc_config w0 = sc_config w'" "sc_shareds w0 = sc_shareds w'" "sc_channel w0 = sc_channel w'"
    "sc_pending w0 = sc_pending w'" "active_ref w0 = active_ref (sy_w s)"
    by (simp_all add: w0_def active_ref_def fun_eq_iff)
  have same: "starts ?mid = starts ?s" "live_refs ?mid = live_refs ?s"
    by (simp_all add: starts_def live_refs_def w0 refs(1) act)
  have q: "quiet (sy_w s) w0 {?r}"
    using assms(4) by (simp add: quiet_def w0)
  have sub: "live_refs ?mid \<subseteq> live_refs s - {?r}" "starts ?mid = starts s"
    by (rule ord_eq_le_trans [OF same(2) refs(2)], rule trans [OF same(1) refs(3)])
  have ok0: "streams_ok ?mid"
    by (rule streams_ok_quiet [OF assms(1,2), where D = "{?r}"])
      (use q sub refs(4) in \<open>auto simp: w0\<close>)
  have "link_at ?s a'" if a': "a' \<in> set (sc_active w')" for a'
  proof -
    from i a' [unfolded act] show ?thesis
    proof (cases rule: item_entry)
      case item
      have "link_at ?mid (sc_active (sy_w s) ! i)"
        using ok0 i by (simp add: streams_ok_def w0)
      then show ?thesis
        using assms(5,6) by (auto simp: item link_at_def Let_def w0 record_link_def active_ref_def)
    next
      case (other j)
      then have "link_at ?mid a'"
        using ok0 by (simp add: streams_ok_def w0)
      then show ?thesis by (simp add: link_at_def Let_def w0)
    qed
  qed
  then show ?thesis
    using ok0 by (simp add: streams_ok_def same w0 stream_at_def start_at_def)
qed

text \<open>The packet went into the queue.\<close>

lemma streams_ok_push:
  assumes "streams_ok s" "slots_ok s" and "item_step s i pc w' rcd"
    and st: "state_at w' = (state_at (sy_w s))(active_ref (sy_w s) i :=
        pushed_state owned m (state_at (sy_w s) (active_ref (sy_w s) i)))"
    and "id_at w' = id_at (sy_w s)"
    and "deliver_packet (ar_record (sc_active (sy_w s) ! i)) (ar_max_codec_frames (sc_active (sy_w s) ! i))
      packet (frames_of s) buffer step_us elapsed r = Ok (rcd, owned)"
    and "\<not> dead (state_at (sy_w s) (active_ref (sy_w s) i))"
  shows "streams_ok (s\<lparr>sy_w := w', sy_pc := pc\<rparr>)" (is "streams_ok ?s")
proof -
  let ?r = "active_ref (sy_w s) i"
  let ?a = "sc_active (sy_w s) ! i"
  note refs = item_step_refs [OF assms(2,3)]
  have i: "i < length (sc_active (sy_w s))" and fr: "step_frame (sy_w s) w'"
    using assms(3) by (simp_all add: item_step_def)
  then have cfg: "sc_config w' = sc_config (sy_w s)" "length (sc_shareds w') = length (sc_shareds (sy_w s))"
    by (simp_all add: step_frame_def)
  obtain y where act: "sc_active w' = sc_active (set_record i rcd (set_session i y (sy_w s)))"
    using assms(3) by (auto simp: item_step_def)
  have r: "?r < length (sc_shareds (sy_w s))" by (rule active_ref_bound [OF assms(2) i])
  have old: "stream_at s ?r" "link_at s ?a" "producing (state_at (sy_w s) ?r)"
    using assms(1) r i refs(5) by (simp_all add: streams_ok_def)
  note ext = push_extends_stream [OF old(1) [unfolded stream_at_def]
      old(2) [unfolded link_at_def Let_def, folded active_ref_def] assms(6,7) old(3), of m]
  have "stream_at ?s q" if "q < length (sc_shareds (sy_w s))" for q
    using assms(1) that ext(1) by (auto simp: stream_at_def streams_ok_def cfg st assms(5))
  moreover have "link_at ?s a'" if a': "a' \<in> set (sc_active w')" for a'
  proof -
    from i a' [unfolded act] show ?thesis
    proof (cases rule: item_entry)
      case item
      have "record_link (frames_of s) (id_at (sy_w s) ?r) (sy_limit s ?r) (sy_log s ?r)
          (pushed_state owned m (state_at (sy_w s) ?r)) a'"
        using ext(2) by (simp add: item record_link_def)
      then show ?thesis by (simp add: item link_at_def Let_def cfg st assms(5) active_ref_def)
    next
      case (other j)
      then have "link_at s a'" using assms(1) by (simp add: streams_ok_def)
      then show ?thesis
        using refs(6) [OF other(1,2)] other(3) by (simp add: link_at_def Let_def cfg st assms(5))
    qed
  qed
  moreover have "producing (state_at w' q)" if "q \<in> live_refs ?s" for q
    using that refs(2) assms(1) by (auto simp: st streams_ok_def)
  moreover have "start_at ?s p" if "p \<in> starts ?s" for p
    using that refs(3,4) assms(1) by (auto simp: start_at_def streams_ok_def Let_def st assms(5))
  ultimately show ?thesis
    using assms(1) by (simp add: streams_ok_def cfg)
qed

lemma quiet_fail_item:
  assumes "bufs w out" and "active_ref w i < length (sc_shareds w)" and "out (active_ref w i) = Suc k"
    and "length buffer = packet_size (sc_config w)"
  shows "quiet w (mark_failed (active_ref w i) e
    (recycle_pcm (active_ref w i) buffer (set_session i y w))) {active_ref w i}"
    and "dead (state_at (mark_failed (active_ref w i) e
    (recycle_pcm (active_ref w i) buffer (set_session i y w))) (active_ref w i))"
proof -
  let ?r = "active_ref w i"
  let ?w1 = "recycle_pcm ?r buffer (set_session i y w)"
  have b1: "bufs ?w1 (out(?r := k))"
    using assms by (intro bufs_recycle) simp_all
  have "quiet w ?w1 {?r}"
    by (rule quiet_via [OF quiet_silent(8)], rule quiet_recycle) (simp add: assms(2))
  then show "quiet w (mark_failed ?r e ?w1) {?r}"
    by (rule quiet_via, intro quiet_marks(2) [OF b1]) (simp add: assms(2))
  have "st_failure (state_at (mark_failed ?r e ?w1) ?r) = Some e"
    using mark_failed_effect(1) [OF _ bufs_queue_owned [OF b1]] assms(2)
    by (simp add: failed_state_def)
  then show "dead (state_at (mark_failed ?r e ?w1) ?r)" by (simp add: dead_def)
qed

lemma work_ok_item:
  assumes "work_ok s" "slots_ok s" and "pc_items (sy_pc s) = (i, x, buffer) # rest"
  shows "i < length (sc_active (sy_w s))" "active_ref (sy_w s) i < length (sc_shareds (sy_w s))"
    "bufs (sy_w s) (outside s)" "length buffer = packet_size (sc_config (sy_w s))"
    "i \<notin> set (map item_index rest)"
    "outside s (active_ref (sy_w s) i) = Suc (outside s (active_ref (sy_w s) i) - 1)"
proof -
  show i: "i < length (sc_active (sy_w s))"
    using assms(1,3) by (simp add: work_ok_def sessions_ok_def Let_def)
  show "active_ref (sy_w s) i < length (sc_shareds (sy_w s))"
    by (rule active_ref_bound [OF assms(2) i])
  show "bufs (sy_w s) (outside s)" "length buffer = packet_size (sc_config (sy_w s))"
    using assms(1,3) by (simp_all add: work_ok_def buffers_ok_def)
  show "i \<notin> set (map item_index rest)"
    using assms(1,3) by (simp add: work_ok_def sessions_ok_def Let_def)
  show "outside s (active_ref (sy_w s) i) = Suc (outside s (active_ref (sy_w s) i) - 1)"
    by (rule outside_item [OF assms(3)])
qed

lemma streams_ok_abort:
  assumes "streams_ok s" "slots_ok s" "work_ok s" and "sy_pc s = AtAbort e (item # items)"
  shows "streams_ok (s\<lparr>sy_w := step_abort e item (sy_w s), sy_pc := AtAbort e items\<rparr>)"
proof -
  obtain i x buffer where item: "item = (i, x, buffer)" by (cases item)
  let ?r = "active_ref (sy_w s) i"
  let ?rcd = "ar_record (sc_active (sy_w s) ! i)"
  have pi: "pc_items (sy_pc s) = (i, x, buffer) # items"
    by (simp add: assms(4) item)
  note w = work_ok_item [OF assms(3,2) pi]
  note fail = quiet_fail_item [OF w(3,2,6,4), of e "Some x"]
  have act: "sc_active (step_abort e item (sy_w s)) = sc_active (set_record i ?rcd (set_session i (Some x) (sy_w s)))"
    using w(1) by (simp add: item step_abort_active set_record_def set_session_def)
  have "item_step s i (AtAbort e items) (step_abort e item (sy_w s)) ?rcd"
    using w(1,5) act step_abort_frame [of "sy_w s" e i x buffer]
    by (auto simp: item_step_def assms(4) item)
  then show ?thesis
    by (rule streams_ok_item [OF assms(1,2)]) (use fail in \<open>simp_all add: step_abort_def item\<close>)
qed

lemma streams_ok_deliver:
  assumes "streams_ok s" "slots_ok s" "work_ok s" and "sy_pc s = AtDeliver (item # items)"
  shows "streams_ok (s\<lparr>sy_w := deliver_result (frames_of s) step_us now item (sy_w s),
    sy_pc := AtDeliver items\<rparr>)"
proof -
  obtain i x buffer result where item: "item = ((i, x, buffer), result)"
    by (metis surj_pair)
  let ?r = "active_ref (sy_w s) i"
  let ?a = "sc_active (sy_w s) ! i"
  let ?w1 = "set_session i (Some x) (sy_w s)"
  let ?w' = "deliver_result (frames_of s) step_us now item (sy_w s)"
  have pi: "pc_items (sy_pc s) = (i, x, buffer) # map fst items"
    by (simp add: assms(4) item)
  note w = work_ok_item [OF assms(3,2) pi]
  note fail = quiet_fail_item [OF w(3,2,6,4), of _ "Some x"]
  have a1: "ar_shared (sc_active ?w1 ! i) = ?r" "ar_record (sc_active ?w1 ! i) = ar_record ?a"
    "ar_max_codec_frames (sc_active ?w1 ! i) = ar_max_codec_frames ?a"
    "ar_started_at (sc_active ?w1 ! i) = ar_started_at ?a"
    using w(1) by (simp_all add: set_session_def active_ref_def)
  have same: "sc_active (set_record i (ar_record ?a) ?w1) = sc_active ?w1"
    using w(1) by (simp add: set_record_def set_session_def)
  have step: "item_step s i (AtDeliver items) ?w' rcd"
    if "sc_active ?w' = sc_active (set_record i rcd ?w1)" for rcd
    using w(1,5) that deliver_result_frame [of "sy_w s" "frames_of s" step_us now i x buffer result]
    by (auto simp: item_step_def assms(4) item)
  have failing: ?thesis if w': "?w' = mark_failed ?r e (recycle_pcm ?r buffer ?w1)" for e
  proof (rule streams_ok_item [OF assms(1,2) step])
    show "sc_active ?w' = sc_active (set_record i (ar_record ?a) ?w1)"
      by (simp add: w' same)
  qed (use fail in \<open>simp_all add: w'\<close>)
  show ?thesis
  proof (cases result)
    case (Inl e)
    then show ?thesis by (intro failing [of e]) (simp add: deliver_result_def Let_def item a1)
  next
    case (Inr packet)
    let ?d = "deliver_packet (ar_record ?a) (ar_max_codec_frames ?a) packet (frames_of s) buffer step_us
      (duration_microseconds (now - ar_started_at ?a)) ?r"
    show ?thesis
    proof (cases ?d)
      case (Inl e)
      then show ?thesis
        using Inr by (intro failing) (simp add: deliver_result_def Let_def item a1)
    next
      case ok: (Inr okay)
      obtain rcd owned where okay: "okay = (rcd, owned)" by (cases okay)
      let ?w2 = "set_record i rcd ?w1"
      obtain b w3 where push: "push_packet ?r owned (rec_metrics rcd) ?w2 = (b, w3)"
        by (cases "push_packet ?r owned (rec_metrics rcd) ?w2")
      have w': "?w' = (if b then w3 else if is_cancel_requested w3 ?r then w3
          else mark_failed ?r (backend_error_new ''scheduler packet queue overflowed'') w3)"
        using Inr ok okay push by (simp add: deliver_result_def Let_def item a1)
      have d: "deliver_packet (ar_record ?a) (ar_max_codec_frames ?a) packet (frames_of s) buffer step_us
          (duration_microseconds (now - ar_started_at ?a)) ?r = Ok (rcd, owned)"
        using ok okay by simp
      have own: "owned_by ?r (packet_size (sc_config ?w2)) owned"
        using deliver_packet_shape [OF d] w(4) by (simp add: owned_by_def)
      have r2: "?r < length (sc_shareds ?w2)" using w(2) by simp
      note eff = push_packet_effect [OF r2 own push]
      have act3: "sc_active w3 = sc_active ?w2"
        by (rule frame_active [OF push_packet_frame [OF push]])
      have st: "item_step s i (AtDeliver items) ?w' rcd"
        by (rule step) (simp add: w' act3)
      show ?thesis
      proof (cases b)
        case True
        then show ?thesis
          using eff w' by (intro streams_ok_push [OF assms(1,2) st, of owned "rec_metrics rcd"])
            (use d in \<open>auto simp: dead_def\<close>)
      next
        case False
        then have w3: "w3 = recycle_pcm ?r (packet_buffer owned) ?w2" using eff by simp
        have s3: "state_at w3 = state_at (sy_w s)" "length (sc_shareds w3) = length (sc_shareds (sy_w s))"
          using r2 by (simp_all add: w3 recycle_pcm_effect)
        have b3: "bufs w3 ((outside s)(?r := outside s ?r - 1))"
          by (rule bufs_push [where w = ?w2 and out = "outside s" and r = ?r, OF _ r2 w(6) own push])
            (simp add: w(3))
        have q3: "quiet (sy_w s) w3 {?r}"
          unfolding w3 by (rule quiet_via [OF quiet_silent(8)], rule quiet_via [OF quiet_silent(9)],
              rule quiet_recycle [OF r2])
        show ?thesis
        proof (cases "is_cancel_requested w3 ?r")
          case True
          then have "dead (state_at w3 ?r)" by (simp add: is_cancel_requested_def dead_def)
          with True False show ?thesis
            using q3 deliver_packet_Ok(3) [OF d]
            by (intro streams_ok_item [OF assms(1,2) st]) (simp_all add: w')
        next
          case nc: False
          let ?e = "backend_error_new ''scheduler packet queue overflowed''"
          have q4: "quiet (sy_w s) (mark_failed ?r ?e w3) {?r}"
            by (rule quiet_via [OF q3], rule quiet_marks(2) [OF b3]) (simp add: w(2) s3(2))
          have "st_failure (state_at (mark_failed ?r ?e w3) ?r) = Some ?e"
            using mark_failed_effect(1) [OF _ bufs_queue_owned [OF b3]] w(2) s3(2)
            by (simp add: failed_state_def)
          then have "dead (state_at (mark_failed ?r ?e w3) ?r)" by (simp add: dead_def)
          with nc False show ?thesis
            using q4 deliver_packet_Ok(3) [OF d]
            by (intro streams_ok_item [OF assms(1,2) st]) (simp_all add: w')
        qed
      qed
    qed
  qed
qed

section \<open>Starting and removing\<close>

lemma streams_ok_started:
  assumes "streams_ok s" "slots_ok s" "work_ok s" and "sy_pc s = AtStarted (item # outcomes)"
  shows "streams_ok (s\<lparr>sy_w := deliver_start item (sy_w s), sy_pc := AtStarted outcomes\<rparr>)"
proof -
  obtain p result where item: "item = (p, result)" by (cases item)
  have p: "p \<in> starts s" by (simp add: starts_def assms(4) item)
  note b = starts_bound [OF assms(2) p]
  show ?thesis
  proof (cases result)
    case (Inl e)
    then have w': "deliver_start item (sy_w s) = fail_pending e p (sy_w s)"
      by (simp add: deliver_start_def item)
    have f: "sc_active (fail_pending e p (sy_w s)) = sc_active (sy_w s)"
      "chan_starts (sc_channel (fail_pending e p (sy_w s))) = chan_starts (sc_channel (sy_w s))"
      "sc_pending (fail_pending e p (sy_w s)) = sc_pending (sy_w s)"
      by (simp_all add: fail_pending_def)
    show ?thesis
      unfolding w'
      by (rule streams_ok_release [OF assms(1-3) qstep_pending(1) [OF b]])
        (auto simp: owners_def starts_def live_refs_def f active_ref_frame [OF f(1)] assms(4) item)
  next
    case (Inr started)
    let ?r = "ps_shared p"
    let ?w1 = "mark_generating ?r started (sy_w s)"
    define a where "a = active_entry p started (st_metrics (state_at ?w1 ?r))"
    have w': "deliver_start item (sy_w s) = ?w1\<lparr>sc_active := sc_active (sy_w s) @ [a]\<rparr>"
      by (simp add: deliver_start_def item Inr Let_def a_def)
    have rec: "rec_id (ar_record a) = br_id (ps_request p)" "rec_phase (ar_record a) = Generating"
      "record_position (ar_record a) = (0, 0, 0)" "ar_shared a = ?r"
      "ar_max_codec_frames a = max_codec_frames (br_generation (ps_request p))"
      by (simp_all add: a_def record_position_def)
    let ?mid = "s\<lparr>sy_w := ?w1, sy_pc := sy_pc s\<rparr>"
    let ?fin = "s\<lparr>sy_w := ?w1\<lparr>sc_active := sc_active (sy_w s) @ [a]\<rparr>, sy_pc := AtStarted outcomes\<rparr>"
    have f: "sc_active ?w1 = sc_active (sy_w s)" by simp
    have mid: "streams_ok ?mid"
      by (rule streams_ok_step [OF assms(1-3) qstep_marks(5) [OF b]])
        (auto simp: starts_def live_refs_def active_ref_frame [OF f])
    have pm: "start_at ?mid p"
      using mid by (simp add: streams_ok_def starts_def assms(4) item)
    have "stream_at ?fin r" if "r < length (sc_shareds (sy_w s))" for r
      using mid that by (simp add: streams_ok_def stream_at_def)
    moreover have "link_at ?fin a'" if "a' \<in> set (sc_active (sy_w s) @ [a])" for a'
    proof (cases "a' = a")
      case True
      then show ?thesis
        using pm rec by (simp add: link_at_def start_at_def record_link_def unstarted_def Let_def)
    next
      case False
      then show ?thesis using mid that by (simp add: streams_ok_def link_at_def)
    qed
    moreover have "producing (state_at ?w1 r)" if "r \<in> live_refs ?fin" for r
    proof -
      have "r = ?r \<or> r \<in> live_refs ?mid"
        using that rec(4) by (auto simp: live_refs_def active_ref_def assms(4) nth_append less_Suc_eq)
      then show ?thesis
        using mid pm by (auto simp: streams_ok_def start_at_def unstarted_def Let_def)
    qed
    moreover have "start_at ?fin q" if "q \<in> starts ?fin" for q
    proof -
      have "q \<in> starts ?mid" using that by (auto simp: starts_def assms(4))
      then show ?thesis using mid by (simp add: streams_ok_def start_at_def)
    qed
    ultimately show ?thesis
      unfolding w' using mid by (simp add: streams_ok_def)
  qed
qed

lemma streams_ok_select:
  assumes "streams_ok s" "slots_ok s" "work_ok s" and "sy_pc s = AtSelect (i # idxs) selected"
    and "select_one i (selected, sy_w s) = (selected', w')"
  shows "streams_ok (s\<lparr>sy_w := w', sy_pc := AtSelect idxs selected'\<rparr>)"
proof -
  have i: "i < length (sc_active (sy_w s))"
    using assms(3,4) by (auto simp: work_ok_def sessions_ok_def Let_def)
  then obtain x where x: "ar_session (sc_active (sy_w s) ! i) = Some x"
    using assms(3,4) by (auto simp: work_ok_def sessions_ok_def Let_def)
  have free: "free_at (sy_w s) (active_ref (sy_w s) i) \<noteq> []"
    using assms(3,4) by (simp add: work_ok_def buffers_ok_def)
  obtain buffer where act: "sc_active w' = sc_active (set_session i None (sy_w s))"
    and st: "state_at w' = state_at (sy_w s)" "id_at w' = id_at (sy_w s)"
      "sc_config w' = sc_config (sy_w s)" "length (sc_shareds w') = length (sc_shareds (sy_w s))"
    using select_one_ok [OF assms(5) x free active_ref_bound [OF assms(2) i]] by metis
  have ref: "active_ref w' = active_ref (sy_w s)"
    using act by (simp add: fun_eq_iff active_ref_def) (metis active_ref_def active_ref_set(1))
  have q: "quiet (sy_w s) w' {}"
    by (rule quiet_same) (simp_all add: st)
  have entries: "\<exists>a \<in> set (sc_active (sy_w s)). ar_shared a' = ar_shared a \<and>
      ar_record a' = ar_record a \<and> ar_max_codec_frames a' = ar_max_codec_frames a"
    if a': "a' \<in> set (sc_active w')" for a'
  proof -
    have same: "sc_active w' = sc_active (set_record i (ar_record (sc_active (sy_w s) ! i)) (set_session i None (sy_w s)))"
      using act i by (simp add: set_record_def set_session_def)
    from i a' [unfolded same] show ?thesis
      by (cases rule: item_entry) (use i in \<open>auto intro: bexI [of _ "sc_active (sy_w s) ! i"]\<close>)
  qed
  show ?thesis
    by (rule streams_ok_quiet [OF assms(1,2), where D = "{}"])
      (use q entries select_one_frame [OF assms(5)] in
        \<open>auto simp: starts_def step_frame_def live_refs_def ref act assms(4)\<close>)
qed

lemma nth_swap_remove: "j < i \<Longrightarrow> i < length xs \<Longrightarrow> swap_remove i xs ! j = xs ! j"
  by (simp add: swap_remove_def nth_butlast)

lemma streams_ok_remove:
  assumes "streams_ok s" "slots_ok s" "work_ok s" and "i < length (sc_active (sy_w s))"
    and "qstep (sy_w s) w' {}" and "sc_active w' = swap_remove i (sc_active (sy_w s))"
    and "chan_starts (sc_channel w') = chan_starts (sc_channel (sy_w s))"
    and "sc_pending w' = sc_pending (sy_w s)"
    and "pc_live (sy_pc s) = (\<lambda>n. {..<n}) \<or> pc_live (sy_pc s) = (\<lambda>n. {..<i})"
  shows "streams_ok (s\<lparr>sy_w := w'\<rparr>)"
proof -
  have s': "s\<lparr>sy_w := w', sy_pc := sy_pc s\<rparr> = s\<lparr>sy_w := w'\<rparr>"
    by (cases s) simp
  have "r \<in> live_refs s" if r: "r \<in> live_refs (s\<lparr>sy_w := w'\<rparr>)" for r
    using assms(9)
  proof
    assume all: "pc_live (sy_pc s) = (\<lambda>n. {..<n})"
    then obtain j where "j < length (swap_remove i (sc_active (sy_w s)))"
      "r = ar_shared (swap_remove i (sc_active (sy_w s)) ! j)"
      using r assms(6) by (auto simp: live_refs_def active_ref_def)
    then have "r \<in> ar_shared ` set (sc_active (sy_w s))"
      using swap_remove_subset [OF assms(4)] by (meson image_eqI nth_mem subsetD)
    then show ?thesis
      using all by (auto simp: live_refs_def active_ref_def in_set_conv_nth)
  next
    assume below: "pc_live (sy_pc s) = (\<lambda>n. {..<i})"
    then obtain j where "j < i" "r = ar_shared (swap_remove i (sc_active (sy_w s)) ! j)"
      using r assms(6) by (auto simp: live_refs_def active_ref_def)
    then show ?thesis
      using below assms(4) by (auto simp: live_refs_def active_ref_def nth_swap_remove)
  qed
  then have "streams_ok (s\<lparr>sy_w := w', sy_pc := sy_pc s\<rparr>)"
    using swap_remove_subset [OF assms(4)] s'
    by (intro streams_ok_step [OF assms(1-3,5)]) (auto simp: starts_def assms(6-8))
  then show ?thesis by (simp only: s')
qed

section \<open>Every worker step\<close>

lemma streams_ok_final:
  assumes "streams_ok s" "slots_ok s" "work_ok s" and "qstep (sy_w s) w' {r}"
    and "owners s = add_mset r (owners (s\<lparr>sy_w := w'\<rparr>))"
    and "set (sc_active w') \<subseteq> set (sc_active (sy_w s))"
    and "set (sc_pending w') \<subseteq> set (sc_pending (sy_w s))"
    and "set (chan_starts (sc_channel w')) \<subseteq> set (chan_starts (sc_channel (sy_w s)))"
    and "\<And>n. pc_live (sy_pc s) n = {}"
  shows "streams_ok (s\<lparr>sy_w := w'\<rparr>)"
proof -
  have s': "s\<lparr>sy_w := w', sy_pc := sy_pc s\<rparr> = s\<lparr>sy_w := w'\<rparr>"
    by (cases s) simp
  have "streams_ok (s\<lparr>sy_w := w', sy_pc := sy_pc s\<rparr>)"
    by (rule streams_ok_release [OF assms(1-4)])
      (use assms(5-9) in \<open>auto simp: s' starts_def live_refs_def\<close>)
  then show ?thesis by (simp only: s')
qed

lemma step_call_live:
  assumes "borrowing_backend (be_step_batch be)"
    and "RtWorker.step_call be frames selected w = (plan, w')"
  shows "pc_live (case plan of StepAbort e items \<Rightarrow> AtAbort e items
      | StepDeliver items \<Rightarrow> AtDeliver items) n = set (map item_index selected)"
  using step_call_items(1) [OF assms]
  by (cases plan) (simp_all flip: set_map add: comp_def)

lemma streams_ok_worker:
  assumes "worker_step be s s'" and "borrowing_backend (be_step_batch be)"
    and "streams_ok s" "slots_ok s" "work_ok s"
  shows "streams_ok s'"
  using assms
proof (induction rule: worker_step.induct)
  case (recv s stop w')
  then show ?case by (intro streams_ok_receive) auto
next
  case (drain s cs stop w')
  then show ?case by (intro streams_ok_receive) auto
next
  case (coalesce s available cs stop w')
  then show ?case by (intro streams_ok_receive) auto
next
  case (idle s stop w')
  then show ?case by (intro streams_ok_receive) auto
next
  case (check s available)
  then show ?case
    by (intro streams_ok_step [where D = "{}"]) (auto simp: starts_def live_refs_def active_ref_def)
next
  case (classify s p todo ready ready' w')
  have p: "p \<in> starts s" by (simp add: starts_def classify(1))
  note b = starts_bound [OF classify(5) p]
  show ?case
  proof (cases "is_cancel_requested (sy_w s) (ps_shared p)")
    case True
    then have w': "w' = retire_pending p (mark_cancelled (ps_shared p) (sy_w s))" "ready' = ready"
      using classify(2) by (auto simp: classify_pending_def)
    have f: "sc_active w' = sc_active (sy_w s)" by (simp add: w')
    show ?thesis
      using qstep_pending(3) [OF b] classify
      by (intro streams_ok_step [where D = "{}"])
        (auto simp: w' starts_def live_refs_def active_ref_frame [OF f, unfolded w'])
  next
    case False
    then show ?thesis
      using classify by (intro streams_ok_step [where D = "{}"])
        (auto simp: classify_pending_def starts_def live_refs_def)
  qed
next
  case (classified s ready)
  then show ?case by (intro streams_ok_move_live) auto
next
  case (prefill s p todo marked now)
  have p: "p \<in> starts s" by (simp add: starts_def prefill(1))
  have f: "sc_active (prefill_mark now p (sy_w s)) = sc_active (sy_w s)" by (simp add: prefill_mark_def)
  show ?case
    using qstep_marks(4) [OF starts_bound [OF prefill(4) p]] prefill
    by (intro streams_ok_step [where D = "{}"])
      (auto simp: prefill_mark_def starts_def live_refs_def active_ref_frame [OF f, unfolded prefill_mark_def])
next
  case (prefill_call s ready outcomes w')
  note f = prefill_call_active [OF prefill_call(2)]
  have fr: "step_frame (sy_w s) w'" "map fst outcomes = ready"
    using prefill_call_frame [OF prefill_call(2)] by simp_all
  have "state_at w' = state_at (sy_w s)" "id_at w' = id_at (sy_w s)"
    using prefill_call(2) by (auto simp: RtWorker.prefill_call_def split: prod.splits unwind.splits if_splits)
  then have q: "quiet (sy_w s) w' {}"
    using fr(1) by (intro quiet_same) (simp_all add: step_frame_def)
  show ?case
    by (rule streams_ok_quiet [OF prefill_call(4,5), where D = "{}"])
      (use q fr prefill_call(1) in \<open>auto simp: f starts_def live_refs_def active_ref_frame [OF f] step_frame_def\<close>)
next
  case (started s item outcomes)
  then show ?case by (intro streams_ok_started)
next
  case (remove_cancelled s i a)
  have a: "ar_shared a < length (sc_shareds ((sy_w s)\<lparr>sc_active := swap_remove i (sc_active (sy_w s))\<rparr>))"
    using remove_cancelled owners_bounds(2) [of s] by simp
  show ?case
    by (rule streams_ok_remove [OF remove_cancelled(6-8,2) qstep_via [OF qstep_ops(2) qstep_active(2) [OF a]]])
      (simp_all add: remove_cancelled(1) fun_eq_iff)
next
  case (remove_finished s i a)
  have a: "ar_shared a < length (sc_shareds ((sy_w s)\<lparr>sc_active := swap_remove i (sc_active (sy_w s))\<rparr>))"
    using remove_finished owners_bounds(2) [of s] by simp
  show ?case
    by (rule streams_ok_remove [OF remove_finished(6-8,2) qstep_via [OF qstep_ops(2) qstep_active(3) [OF a]]])
      (simp_all add: remove_finished(1) fun_eq_iff)
next
  case (keep_unfinished s i)
  then show ?case
    by (intro streams_ok_move) (auto simp: live_refs_def streams_ok_def request_finished_def producing_def
        failed_or_cancelled_def Let_def active_ref_def less_Suc_eq)
next
  case (finished_done s i)
  then show ?case by (intro streams_ok_move_live) auto
next
  case (eligible_state s i idxs)
  then show ?case by (intro streams_ok_move_live) auto
next
  case (eligible_free s i idxs)
  then show ?case by (intro streams_ok_move_live) auto
next
  case (eligible_done s i idxs)
  then show ?case by (intro streams_ok_move_live) auto
next
  case (select s i idxs selected selected' w')
  then show ?case by (intro streams_ok_select)
next
  case (step_call s selected plan w')
  note eff = step_call_items [OF step_call(3,2)]
  let ?pc = "case plan of StepAbort e items \<Rightarrow> AtAbort e items | StepDeliver items \<Rightarrow> AtDeliver items"
  have pend: "pc_pendings ?pc = []" by (simp split: step_plan.split)
  have q: "quiet (sy_w s) w' {}"
    by (rule quiet_same) (simp_all add: eff)
  show ?case
    by (rule streams_ok_quiet [OF step_call(4,5), where D = "{}"])
      (use q pend in \<open>auto simp: eff starts_def live_refs_def step_call_live [OF step_call(3,2)]
        active_ref_frame [OF eff(3)] step_call(1)\<close>)
next
  case (abort s e item items)
  then show ?case by (intro streams_ok_abort)
next
  case (deliver s item items step_us now)
  then show ?case by (intro streams_ok_deliver)
next
  case (final_active s failure a rest)
  have a: "ar_shared a < length (sc_shareds ((sy_w s)\<lparr>sc_active := rest\<rparr>))"
    using final_active owners_bounds(2) [of s] by simp
  show ?case
    by (rule streams_ok_final [OF final_active(4-6) qstep_via [OF qstep_ops(2) qstep_active(1) [OF a]]])
      (auto simp: final_active(1,2) owners_def)
next
  case (final_pending s failure p rest)
  have p: "ps_shared p < length (sc_shareds ((sy_w s)\<lparr>sc_pending := rest\<rparr>))"
    using final_pending owners_bounds(1) [of s] by simp
  show ?case
    by (rule streams_ok_final [OF final_pending(4-6) qstep_via [OF qstep_ops(3) qstep_pending(2) [OF p]]])
      (auto simp: final_pending(1,2) owners_def)
next
  case (final_drain s failure c rest)
  show ?case
  proof (cases "\<exists>p. c = CmdStart p")
    case True
    then obtain p where c: "c = CmdStart p" by auto
    have p: "ps_shared p < length (sc_shareds ((sy_w s)\<lparr>sc_channel := rest\<rparr>))"
      using final_drain owners_bounds(4) [of s] by (simp add: c)
    have w': "finalise_command failure c ((sy_w s)\<lparr>sc_channel := rest\<rparr>) =
        finalise_pending failure p ((sy_w s)\<lparr>sc_channel := rest\<rparr>)"
      by (simp add: finalise_command_def c)
    show ?thesis
      unfolding w'
      by (rule streams_ok_final [OF final_drain(4-6) qstep_via [OF qstep_ops(4) qstep_pending(2) [OF p]]])
        (auto simp: final_drain(1,2) owners_def c)
  next
    case False
    then have w': "finalise_command failure c ((sy_w s)\<lparr>sc_channel := rest\<rparr>) = (sy_w s)\<lparr>sc_channel := rest\<rparr>"
      "chan_starts (c # rest) = chan_starts rest"
      by (cases c; simp add: finalise_command_def)+
    have "streams_ok (s\<lparr>sy_w := (sy_w s)\<lparr>sc_channel := rest\<rparr>, sy_pc := sy_pc s\<rparr>)"
      using final_drain w'(2) by (intro streams_ok_step [where D = "{}"])
        (auto simp: starts_def live_refs_def active_ref_def)
    moreover have "s\<lparr>sy_w := (sy_w s)\<lparr>sc_channel := rest\<rparr>, sy_pc := sy_pc s\<rparr> = s\<lparr>sy_w := (sy_w s)\<lparr>sc_channel := rest\<rparr>\<rparr>"
      by (cases s) simp
    ultimately show ?thesis by (simp add: w'(1))
  qed
next
  case (closing s failure)
  have f: "state_at (close_channel w) = state_at w" "id_at (close_channel w) = id_at w" for w :: "('a, 'b) sched"
  proof -
    have "sc_shareds (close_channel w) = sc_shareds w" by (simp add: close_channel_def)
    then show "state_at (close_channel w) = state_at w" "id_at (close_channel w) = id_at w"
      by (simp_all add: fun_eq_iff state_at_def id_at_def shared_at_def)
  qed
  have q: "quiet (sy_w s) (close_channel (sy_w s)) {}"
    by (rule quiet_same) (simp_all add: f, simp_all add: close_channel_def)
  show ?case
    by (rule streams_ok_quiet [OF closing(3,4), where D = "{}"])
      (use q in \<open>auto simp: starts_def live_refs_def, auto simp: close_channel_def\<close>)
qed (auto intro!: streams_ok_move_live)

section \<open>Reachable states\<close>

definition system_ok :: "engine_config \<Rightarrow> ('b, 's) sys \<Rightarrow> bool" where
  "system_ok config s \<longleftrightarrow> slots_ok s \<and> static_ok config s \<and> work_ok s \<and> streams_ok s"

lemma streams_ok_initial: "scheduler_new config b None = Ok w \<Longrightarrow> streams_ok (sys_start w)"
  using scheduler_new_shape [of config b w]
  by (simp add: streams_ok_def sys_start_def live_refs_def starts_def)

lemma system_ok_initial: "scheduler_new config b None = Ok w \<Longrightarrow> system_ok config (sys_start w)"
  by (simp add: system_ok_def slots_ok_initial static_ok_initial work_ok_initial streams_ok_initial)

lemma system_ok_client: "client_step s s' \<Longrightarrow> system_ok config s \<Longrightarrow> system_ok config s'"
  unfolding system_ok_def
  using slots_ok_client static_ok_client work_ok_client streams_ok_client by blast

lemma system_ok_worker:
  "worker_step be s s' \<Longrightarrow> borrowing_backend (be_step_batch be) \<Longrightarrow> system_ok config s \<Longrightarrow>
     system_ok config s'"
  unfolding system_ok_def
  using slots_ok_worker static_ok_worker work_ok_worker streams_ok_worker by blast

lemma system_ok_reachable:
  assumes "borrowing_backend (be_step_batch be)" and "reachable be config s"
  shows "system_ok config s"
  by (rule reachable_invariant [OF assms(2)])
    (auto intro: system_ok_initial system_ok_client system_ok_worker assms(1))

end
