(* ===== verification/RtShutdown.thy ===== *)
theory RtShutdown
  imports RtDelivery
begin

text \<open>
  Ending: a retired request has settled (its producer finished, it was cancelled or failed), a
  request a client can poll is retired or still has an owner, and when the worker has
  stopped after a shutdown, nothing is left unretired and every slot is free.
\<close>

definition settled :: "request_state \<Rightarrow> bool" where
  "settled st \<longleftrightarrow> st_producer_finished st \<or> st_cancel_requested st \<or> st_failure st \<noteq> None"

section \<open>Retirement of single operations\<close>

definition retires :: "('b, 's) sched \<Rightarrow> ('b, 's) sched \<Rightarrow> bool" where
  "retires w w' \<longleftrightarrow> (\<forall>r < length (sc_shareds w).
     (st_retired (state_at w r) \<longrightarrow> st_retired (state_at w' r)) \<and>
     (settled (state_at w r) \<longrightarrow> settled (state_at w' r)) \<and>
     (st_retired (state_at w' r) \<longrightarrow> st_retired (state_at w r) \<or> settled (state_at w' r)))"

lemma retires_trans:
  "retires w w1 \<Longrightarrow> retires w1 w2 \<Longrightarrow> length (sc_shareds w1) = length (sc_shareds w) \<Longrightarrow> retires w w2"
  unfolding retires_def by metis

lemma retires_same: "state_at w' = state_at w \<Longrightarrow> retires w w'"
  by (simp add: retires_def)

lemma retires_one:
  assumes "state_at w' = (state_at w)(r := st)"
    and "st_retired (state_at w r) \<Longrightarrow> st_retired st" "settled (state_at w r) \<Longrightarrow> settled st"
    and "st_retired st \<Longrightarrow> st_retired (state_at w r) \<or> settled st"
  shows "retires w w'"
  using assms by (auto simp: retires_def)

lemma settled_marks [simp]:
  "settled (cancelled_state st)" "settled (failed_state e st)"
  "st_retired (cancelled_state st) = st_retired st" "st_retired (failed_state e st) = st_retired st"
  by (simp_all add: settled_def cancelled_state_def failed_state_def)

text \<open>\<open>rstep\<close> is the chaining form, under the buffer accounting.\<close>

definition rstep :: "('b, 's) sched \<Rightarrow> ('b, 's) sched \<Rightarrow> bool" where
  "rstep w w' \<longleftrightarrow> (\<forall>out. bufs w out \<longrightarrow> bufs w' out \<and> retires w w') \<and>
     length (sc_shareds w') = length (sc_shareds w)"

lemma rstep_via: "rstep w w1 \<Longrightarrow> rstep w1 w2 \<Longrightarrow> rstep w w2"
  unfolding rstep_def using retires_trans by metis

lemma rstep_silent [simp]:
  "rstep w w" "rstep w (w\<lparr>sc_active := x1\<rparr>)" "rstep w (w\<lparr>sc_pending := x2\<rparr>)"
  "rstep w (w\<lparr>sc_channel := x3\<rparr>)" "rstep w (w\<lparr>sc_backend := x4\<rparr>)"
  "rstep w (release_slot w)" "rstep w (cancel_session be a w)" "rstep w (pop_channel w)"
  by (simp_all add: rstep_def retires_same) (simp add: pop_channel_def retires_same)

lemma rstep_marks:
  assumes "r < length (sc_shareds w)"
  shows "rstep w (mark_cancelled r w)" "rstep w (mark_failed r e w)"
    "rstep w (mark_prefilling r us w)" "rstep w (mark_generating r started w)"
proof -
  have "retires w (mark_cancelled r w)" "retires w (mark_failed r e w)" if "bufs w out" for out
    using mark_cancelled_effect(1) [OF assms bufs_queue_owned [OF that assms]]
      mark_failed_effect(1) [OF assms bufs_queue_owned [OF that assms]]
    by (auto intro: retires_one)
  then show "rstep w (mark_cancelled r w)" "rstep w (mark_failed r e w)"
    using assms by (auto simp: rstep_def bufs_mark_cancelled bufs_mark_failed)
  have "retires w (mark_prefilling r us w)"
    by (rule retires_one [where r = r and st = "(state_at w r)\<lparr>st_phase := Prefilling,
        st_metrics := (st_metrics (state_at w r))\<lparr>queue_microseconds := us\<rparr>\<rparr>"])
      (simp_all add: assms fun_eq_iff mark_prefilling_def settled_def)
  then show "rstep w (mark_prefilling r us w)"
    using assms by (simp add: rstep_def bufs_marks)
  have "retires w (mark_generating r started w)"
    by (rule retires_one [where r = r and st = "(state_at w r)\<lparr>st_phase := Generating,
        st_metrics := (st_metrics (state_at w r))
         \<lparr>prefill_microseconds := bs_prefill_microseconds started,
          peak_request_device_bytes := bs_peak_request_device_bytes started,
          peak_request_host_bytes := bs_peak_request_host_bytes started\<rparr>\<rparr>"])
      (simp_all add: assms fun_eq_iff mark_generating_def settled_def)
  then show "rstep w (mark_generating r started w)"
    using assms by (simp add: rstep_def bufs_marks)
qed

text \<open>\<open>mstep\<close>: the same, leaving request \<open>r\<close> settled, which is when it may be retired.\<close>

definition mstep :: "('b, 's) sched \<Rightarrow> ('b, 's) sched \<Rightarrow> sref \<Rightarrow> bool" where
  "mstep w w' r \<longleftrightarrow> rstep w w' \<and> (\<forall>out. bufs w out \<longrightarrow> settled (state_at w' r))"

lemma mstep_via: "rstep u w \<Longrightarrow> mstep w v r \<Longrightarrow> mstep u v r"
  unfolding mstep_def using rstep_via by (metis rstep_def)

lemma mstep_marks:
  assumes "r < length (sc_shareds w)"
  shows "mstep w (mark_cancelled r w) r" "mstep w (mark_failed r e w) r"
  using rstep_marks [OF assms] mark_cancelled_effect(1) [OF assms bufs_queue_owned [OF _ assms]]
    mark_failed_effect(1) [OF assms bufs_queue_owned [OF _ assms]]
  by (simp_all add: mstep_def)

lemma mstep_final_mark: "r < length (sc_shareds w) \<Longrightarrow> mstep w (final_mark failure r w) r"
  by (simp add: final_mark_def mstep_marks split: option.split)

lemma retires_mark_retired:
  assumes "r < length (sc_shareds w)" and "settled (state_at w r)"
  shows "retires w (mark_retired r w)"
  by (rule retires_one [OF mark_phase_effect(7) [OF assms(1)]]) (use assms(2) in \<open>auto simp: settled_def\<close>)

lemma rstep_retire:
  "mstep w v (ps_shared p) \<Longrightarrow> ps_shared p < length (sc_shareds w) \<Longrightarrow> rstep w (retire_pending p v)"
  "mstep w v (ar_shared a) \<Longrightarrow> ar_shared a < length (sc_shareds w) \<Longrightarrow> rstep w (retire_active a v)"
proof -
  have gen: "rstep w (mark_retired r (release_slot v))"
    if "mstep w v r" "r < length (sc_shareds w)" for r
  proof -
    have len: "r < length (sc_shareds (release_slot v))"
      using that by (simp add: mstep_def rstep_def)
    have "retires w (mark_retired r (release_slot v))" if b: "bufs w out" for out
    proof (rule retires_trans)
      show "retires w (release_slot v)"
        using \<open>mstep w v r\<close> b by (auto simp: mstep_def rstep_def retires_def)
      show "retires (release_slot v) (mark_retired r (release_slot v))"
        using \<open>mstep w v r\<close> b by (intro retires_mark_retired [OF len]) (auto simp: mstep_def)
    qed (use \<open>mstep w v r\<close> in \<open>simp add: mstep_def rstep_def\<close>)
    then show ?thesis
      using that len by (auto simp: mstep_def rstep_def bufs_marks)
  qed
  show "mstep w v (ps_shared p) \<Longrightarrow> ps_shared p < length (sc_shareds w) \<Longrightarrow> rstep w (retire_pending p v)"
    "mstep w v (ar_shared a) \<Longrightarrow> ar_shared a < length (sc_shareds w) \<Longrightarrow> rstep w (retire_active a v)"
    by (simp_all add: retire_pending_def retire_active_def gen)
qed

lemma retire_retired:
  "ps_shared p < length (sc_shareds w) \<Longrightarrow> st_retired (state_at (retire_pending p w) (ps_shared p))"
  "ar_shared a < length (sc_shareds w) \<Longrightarrow> st_retired (state_at (retire_active a w) (ar_shared a))"
  by (simp_all add: retire_pending_def retire_active_def mark_phase_effect(7))

lemma rstep_pending:
  assumes "ps_shared p < length (sc_shareds w)"
  shows "rstep w (fail_pending e p w)" "rstep w (finalise_pending failure p w)"
    "rstep w (retire_pending p (mark_cancelled (ps_shared p) w))"
    "st_retired (state_at (fail_pending e p w) (ps_shared p))"
    "st_retired (state_at (finalise_pending failure p w) (ps_shared p))"
    "st_retired (state_at (retire_pending p (mark_cancelled (ps_shared p) w)) (ps_shared p))"
  unfolding fail_pending_def finalise_pending_def
  by (rule rstep_retire(1) [OF mstep_marks(2) [OF assms] assms],
      rule rstep_retire(1) [OF mstep_final_mark [OF assms] assms],
      rule rstep_retire(1) [OF mstep_marks(1) [OF assms] assms],
      (rule retire_retired(1), simp add: assms)+)

lemma rstep_active:
  assumes "ar_shared a < length (sc_shareds w)"
  shows "rstep w (finalise_active be failure a w)" "rstep w (remove_cancelled_one be a w)"
    "request_finished w a \<Longrightarrow> rstep w (remove_finished_one be a w)"
    "st_retired (state_at (finalise_active be failure a w) (ar_shared a))"
    "st_retired (state_at (remove_cancelled_one be a w) (ar_shared a))"
    "st_retired (state_at (remove_finished_one be a w) (ar_shared a))"
proof -
  have len: "ar_shared a < length (sc_shareds (cancel_session be a w))" using assms by simp
  show "rstep w (finalise_active be failure a w)"
    unfolding finalise_active_def
    by (rule rstep_retire(2) [OF mstep_via [OF rstep_silent(7) mstep_final_mark [OF len]] assms])
  show "rstep w (remove_cancelled_one be a w)"
    unfolding remove_cancelled_one_def
    by (rule rstep_retire(2) [OF mstep_via [OF rstep_silent(7) mstep_marks(1) [OF len]] assms])
  show "rstep w (remove_finished_one be a w)" if "request_finished w a"
  proof -
    have "mstep w (if failed_or_cancelled w a then cancel_session be a w else w) (ar_shared a)"
      using that by (auto simp: mstep_def request_finished_def failed_or_cancelled_def settled_def Let_def)
    then show ?thesis
      unfolding remove_finished_one_def by (rule rstep_retire(2) [OF _ assms])
  qed
  show "st_retired (state_at (finalise_active be failure a w) (ar_shared a))"
    "st_retired (state_at (remove_cancelled_one be a w) (ar_shared a))"
    "st_retired (state_at (remove_finished_one be a w) (ar_shared a))"
    unfolding finalise_active_def remove_cancelled_one_def remove_finished_one_def
    by (rule retire_retired(2), simp add: assms)+
qed

text \<open>A command retires exactly the start it takes off the pending list.\<close>

lemma rstep_cancel_id:
  "\<forall>p \<in> set (sc_pending w). ps_shared p < length (sc_shareds w) \<Longrightarrow> rstep w (cancel_pending_id id' w)"
  "\<forall>a \<in> set (sc_active w). ar_shared a < length (sc_shareds w) \<Longrightarrow> rstep w (cancel_active_id id' w)"
proof -
  assume p: "\<forall>p \<in> set (sc_pending w). ps_shared p < length (sc_shareds w)"
  have "rstep w (retire_pending q (mark_cancelled (ps_shared q) (w\<lparr>sc_pending := ps\<rparr>)))"
    if "q \<in> set (sc_pending w)" for q ps
    by (rule rstep_via [OF rstep_silent(3) [of w ps]], rule rstep_pending(3)) (use that p in simp)
  then show "rstep w (cancel_pending_id id' w)"
    by (auto simp: cancel_pending_id_def Let_def dest!: position_bound split: option.split)
next
  assume "\<forall>a \<in> set (sc_active w). ar_shared a < length (sc_shareds w)"
  then show "rstep w (cancel_active_id id' w)"
    by (auto simp: cancel_active_id_def find_Some_iff intro!: rstep_marks split: option.split)
qed

lemma in_swap_remove: "i < length xs \<Longrightarrow> x \<in> set xs \<Longrightarrow> x = xs ! i \<or> x \<in> set (swap_remove i xs)"
  using mset_nth_swap_remove [of i xs] by (metis insert_iff set_mset_add_mset_insert set_mset_mset)

lemma cancel_pending_id_keeps:
  assumes "\<forall>p \<in> set (sc_pending w). ps_shared p < length (sc_shareds w)" and "p \<in> set (sc_pending w)"
  shows "p \<in> set (sc_pending (cancel_pending_id id' w)) \<or>
    st_retired (state_at (cancel_pending_id id' w) (ps_shared p))"
proof (cases "position (\<lambda>p. br_id (ps_request p) = id') (sc_pending w)")
  case None
  then show ?thesis using assms(2) by (simp add: cancel_pending_id_def)
next
  case (Some i)
  let ?p = "sc_pending w ! i"
  have i: "i < length (sc_pending w)" by (rule position_bound [OF Some])
  have "ps_shared ?p < length (sc_shareds (w\<lparr>sc_pending := swap_remove i (sc_pending w)\<rparr>))"
    using assms(1) i by simp
  from rstep_pending(6) [OF this]
  show ?thesis
    using in_swap_remove [OF i assms(2)] by (auto simp: cancel_pending_id_def Some Let_def)
qed

lemma receive_command_retires:
  assumes "receive_command w = (stop, w')" and "sc_channel w \<noteq> []"
    and "\<forall>p \<in> set (sc_pending w). ps_shared p < length (sc_shareds w)"
    and "\<forall>a \<in> set (sc_active w). ar_shared a < length (sc_shareds w)"
  shows "rstep w w'"
    and "bufs w out \<Longrightarrow> p \<in> set (chan_starts (sc_channel w)) \<union> set (sc_pending w) \<Longrightarrow>
      p \<in> set (chan_starts (sc_channel w')) \<union> set (sc_pending w') \<or> st_retired (state_at w' (ps_shared p))"
proof -
  obtain c cs where ch: "sc_channel w = c # cs"
    using assms(2) by (cases "sc_channel w") auto
  have pop: "pop_channel w = w\<lparr>sc_channel := cs\<rparr>" by (simp add: pop_channel_def ch)
  let ?w = "pop_channel w"
  have "rstep w w' \<and> (bufs w out \<longrightarrow> p \<in> set (chan_starts (sc_channel w)) \<union> set (sc_pending w) \<longrightarrow>
      p \<in> set (chan_starts (sc_channel w')) \<union> set (sc_pending w') \<or> st_retired (state_at w' (ps_shared p)))"
  proof (cases c)
    case (CmdCancel id')
    let ?w1 = "cancel_pending_id id' ?w"
    have w': "w' = cancel_active_id id' ?w1"
      using assms(1) by (auto simp: receive_command_def handle_command_def ch CmdCancel)
    have pb: "\<forall>p \<in> set (sc_pending ?w). ps_shared p < length (sc_shareds ?w)"
      using assms(3) by (simp add: pop)
    have ab: "\<forall>a \<in> set (sc_active ?w1). ar_shared a < length (sc_shareds ?w1)"
      using assms(4) by (simp add: pop)
    have r1: "rstep w ?w1"
      by (rule rstep_via [OF rstep_silent(8) rstep_cancel_id(1) [OF pb]])
    have r2: "rstep ?w1 w'" unfolding w' by (rule rstep_cancel_id(2) [OF ab])
    have f: "sc_pending w' = sc_pending ?w1" "chan_starts (sc_channel w') = chan_starts (sc_channel w)"
      by (simp_all add: w' cancel_active_id_def cancel_pending_id_def Let_def pop ch CmdCancel split: option.split)
    have "st_retired (state_at w' (ps_shared p))"
      if "bufs w out" "p \<in> set (sc_pending w)" "p \<notin> set (sc_pending w')"
    proof -
      have "st_retired (state_at ?w1 (ps_shared p))"
        using cancel_pending_id_keeps [OF pb, of p id'] that(2,3) by (simp add: f pop)
      moreover have "retires ?w1 w'" "length (sc_shareds ?w1) = length (sc_shareds w)"
        using r1 r2 that(1) by (auto simp: rstep_def)
      ultimately show ?thesis using assms(3) that(2) by (auto simp: retires_def)
    qed
    then show ?thesis using rstep_via [OF r1 r2] f(2) by auto
  qed (use assms(1) rstep_via [OF rstep_silent(4) rstep_silent(3)] in
      \<open>auto simp: receive_command_def handle_command_def ch pop\<close>)
  then show "rstep w w'" "bufs w out \<Longrightarrow> p \<in> set (chan_starts (sc_channel w)) \<union> set (sc_pending w) \<Longrightarrow>
      p \<in> set (chan_starts (sc_channel w')) \<union> set (sc_pending w') \<or> st_retired (state_at w' (ps_shared p))"
    by auto
qed

section \<open>The control invariant\<close>

fun pc_stopping :: "'s worker_pc \<Rightarrow> bool" where
  "pc_stopping (AtTop cs) = cs"
| "pc_stopping (AtDrain cs) = cs"
| "pc_stopping (AtCoalesce n cs) = cs"
| "pc_stopping (AtFinalActive f) = (f = None)"
| "pc_stopping (AtFinalPending f) = (f = None)"
| "pc_stopping (AtFinalDrain f) = (f = None)"
| "pc_stopping (AtClosing f) = (f = None)"
| "pc_stopping (AtStopped f) = (f = None)"
| "pc_stopping _ = False"

fun emptied :: "'s worker_pc \<Rightarrow> ('b, 's) sched \<Rightarrow> bool" where
  "emptied (AtFinalPending f) w = (sc_active w = [])"
| "emptied (AtFinalDrain f) w = (sc_active w = [] \<and> sc_pending w = [])"
| "emptied (AtClosing f) w = (sc_active w = [] \<and> sc_pending w = [] \<and>
     (f = None \<longrightarrow> chan_starts (sc_channel w) = []))"
| "emptied (AtStopped f) w = (sc_active w = [] \<and> sc_pending w = [] \<and>
     chan_starts (sc_channel w) = [] \<and> \<not> sc_receiver_alive w)"
| "emptied _ w = True"

definition control_ok :: "('b, 's) sys \<Rightarrow> bool" where
  "control_ok s \<longleftrightarrow>
     (sc_shutdown (sy_w s) \<longrightarrow> sy_sending s = []) \<and>
     (CmdShutdown \<in> set (cmds (sy_w s)) \<or> pc_stopping (sy_pc s) \<longrightarrow> sc_shutdown (sy_w s)) \<and>
     emptied (sy_pc s) (sy_w s) \<and>
     (\<forall>p \<in> set (sy_sending s). \<not> rh_live (sc_handles (sy_w s) ! ps_shared p))"

definition abandoned :: "'s worker_pc \<Rightarrow> bool" where
  "abandoned pc \<longleftrightarrow> (\<exists>e. pc = AtStopped (Some e))"

definition retirement_ok :: "('b, 's) sys \<Rightarrow> bool" where
  "retirement_ok s \<longleftrightarrow>
     (\<forall>r < length (sc_shareds (sy_w s)).
        (st_retired (state_at (sy_w s) r) \<longrightarrow> settled (state_at (sy_w s) r)) \<and>
        (\<not> abandoned (sy_pc s) \<longrightarrow> rh_live (sc_handles (sy_w s) ! r) \<longrightarrow>
           st_retired (state_at (sy_w s) r) \<or> r \<in># owners s))"

lemma chan_starts_of_cmds: "cmds w' = cmds w \<Longrightarrow> chan_starts (sc_channel w') = chan_starts (sc_channel w)"
  by (simp add: chan_starts_cmds)

lemma control_ok_client:
  assumes "client_step s s'" and "slots_ok s" "static_ok config s" "control_ok s"
  shows "control_ok s'"
  using assms
proof (induction rule: client_step.induct)
  case (start s input generation now p w')
  note shape = start_prepare_shape [OF start(2)]
  note eff = start_prepare_effect [OF start(2)]
  have n: "length (sc_handles (sy_w s)) = length (sc_shareds (sy_w s))"
    using start(4) by (simp add: static_ok_def)
  have "\<forall>q \<in> set (sy_sending s). ps_shared q < length (sc_shareds (sy_w s))"
    using owners_bounds(5) [OF start(3)] .
  then show ?case
    using start(1,5) n by (cases "sy_pc s")
      (auto simp: control_ok_def shape eff(6) nth_append cmds_def)
next
  case (send s ps p qs res w')
  have np: "\<forall>q \<in> set ps \<union> set qs. ps_shared q \<noteq> ps_shared p"
  proof -
    have "count (owners s) (ps_shared p) \<le> 1" using send(4) by (simp add: slots_ok_def)
    then have "count (image_mset ps_shared (mset (sy_sending s))) (ps_shared p) \<le> 1"
      by (simp add: owners_def)
    then have "ps_shared p \<notin># image_mset ps_shared (mset ps + mset qs)"
      by (auto simp: send(1) count_eq_zero_iff)
    then have "ps_shared p \<notin> ps_shared ` (set ps \<union> set qs)"
      by (simp add: image_Un)
    then show ?thesis by (metis image_eqI)
  qed
  have live: "sc_shutdown (sy_w s) = False" using send(1,6) by (auto simp: control_ok_def)
  show ?case
  proof (rule start_send_cases [OF send(3)])
    assume a: "sc_receiver_alive (sy_w s)"
    then have w': "w' = (sy_w s)\<lparr>sc_channel := sc_channel (sy_w s) @ [CmdStart p], sc_handles :=
        (sc_handles (sy_w s))[ps_shared p := \<lparr>rh_cancel_sent = False, rh_live = True\<rparr>]\<rparr>"
      using send(3) by (auto simp: start_send_def send_def)
    have "sc_handles w' ! ps_shared q = sc_handles (sy_w s) ! ps_shared q" if "q \<in> set ps \<union> set qs" for q
    proof -
      have "ps_shared q \<noteq> ps_shared p" using np that by blast
      then show ?thesis by (simp add: w')
    qed
    moreover have "set (cmds w') = insert (CmdStart p) (set (cmds (sy_w s)))" "sc_shutdown w' = sc_shutdown (sy_w s)"
      "emptied (sy_pc s) w'"
      using send(1,6) a live by (cases "sy_pc s"; auto simp: w' cmds_def control_ok_def)+
    ultimately show ?thesis
      using send(1,6) by (auto simp: control_ok_def)
  next
    assume w': "w' = release_slot (sy_w s)"
    show ?thesis
      using send(1,6) live by (cases "sy_pc s") (auto simp: control_ok_def w')
  qed
next
  case (poll r s timeout deadline now res w')
  note f = frame_fields [OF poll_iteration_frame [OF poll(3)]]
  show ?case using poll(6) by (cases "sy_pc s") (auto simp: control_ok_def f)
next
  case (drop s ps p qs w')
  have "frame w' = frame (sy_w s)" by (simp add: drop(2))
  note f = frame_fields [OF this]
  show ?case using drop(5) by (cases "sy_pc s") (auto simp: control_ok_def f)
next
  case (cancel r s must_send w')
  note f = cancel_mark_frame [OF cancel(3)]
  have c: "cmds w' = cmds (sy_w s)"
    using cancel(3) by (auto simp: cancel_mark_def Let_def split: if_splits)
  have h: "rh_live (sc_handles w' ! q) = rh_live (sc_handles (sy_w s) ! q)" for q
    using cancel(3) by (cases "q = r"; cases "r < length (sc_handles (sy_w s))")
      (auto simp: cancel_mark_def Let_def list_update_beyond not_less split: if_splits)
  show ?case using cancel(6) by (cases "sy_pc s") (auto simp: control_ok_def f c h)
next
  case (cancel_send s ps r qs res w')
  then show ?case
    by (cases "sy_pc s") (auto simp: control_ok_def RtShared.send_def cmds_def split: if_splits)
next
  case (close r s)
  have "rh_live ((sc_handles (sy_w s))[r := (sc_handles (sy_w s) ! r)\<lparr>rh_live := False\<rparr>] ! q) \<Longrightarrow>
      rh_live (sc_handles (sy_w s) ! q)" for q
    by (cases "q = r"; cases "r < length (sc_handles (sy_w s))")
      (auto simp: list_update_beyond not_less)
  then show ?case using close(7) by (cases "sy_pc s") (auto simp: control_ok_def)
next
  case (shutdown s)
  have "sc_shutdown (scheduler_drop (sy_w s))" "sc_receiver_alive (scheduler_drop (sy_w s)) = sc_receiver_alive (sy_w s)"
    by (simp_all add: scheduler_drop_def)
  then show ?case using shutdown by (cases "sy_pc s") (auto simp: control_ok_def)
qed

lemma receive_command_control:
  assumes "receive_command w = (stop, w')" and "sc_channel w \<noteq> []"
  shows "sc_shutdown w' = sc_shutdown w" "sc_handles w' = sc_handles w"
    "set (cmds w') \<subseteq> set (cmds w)" "stop \<Longrightarrow> CmdShutdown \<in> set (cmds w)"
proof -
  obtain c cs where ch: "sc_channel w = c # cs"
    using assms(2) by (cases "sc_channel w") auto
  have pop: "pop_channel w = w\<lparr>sc_channel := cs\<rparr>" by (simp add: pop_channel_def ch)
  have f: "cmds (cancel_active_id i v) = cmds v" "cmds (cancel_pending_id i v) = cmds v"
    "sc_shutdown (cancel_active_id i v) = sc_shutdown v" "sc_shutdown (cancel_pending_id i v) = sc_shutdown v"
    "sc_handles (cancel_active_id i v) = sc_handles v" "sc_handles (cancel_pending_id i v) = sc_handles v"
    for i and v :: "('a, 'b) sched"
    by (simp_all add: cancel_active_id_def cancel_pending_id_def Let_def split: option.split)
  have c2: "set (cmds (w\<lparr>sc_channel := cs\<rparr>)) \<subseteq> set (cmds w)" by (auto simp: cmds_def ch)
  have c3: "c = CmdShutdown \<Longrightarrow> CmdShutdown \<in> set (cmds w)" by (simp add: cmds_def ch)
  have "sc_shutdown w' = sc_shutdown w \<and> sc_handles w' = sc_handles w \<and> cmds w' = cmds (w\<lparr>sc_channel := cs\<rparr>)"
    using assms(1) by (cases c) (auto simp: receive_command_def handle_command_def ch pop f)
  then show "sc_shutdown w' = sc_shutdown w" "sc_handles w' = sc_handles w" "set (cmds w') \<subseteq> set (cmds w)"
    using c2 by simp_all
  show "stop \<Longrightarrow> CmdShutdown \<in> set (cmds w)"
    using assms(1) c3 by (cases c) (auto simp: receive_command_def handle_command_def ch)
qed

lemma control_ok_receive:
  assumes "control_ok s" and "receive_command (sy_w s) = (stop, w')" and "sc_channel (sy_w s) \<noteq> []"
    and "pc_stopping pc \<Longrightarrow> stop \<or> pc_stopping (sy_pc s)" and "emptied pc w'"
  shows "control_ok (s\<lparr>sy_w := w', sy_pc := pc\<rparr>)"
  using assms receive_command_control [OF assms(2,3)] by (auto simp: control_ok_def)

lemma control_ok_fields:
  assumes "control_ok s" and "cmds w' = cmds (sy_w s)" "sc_shutdown w' = sc_shutdown (sy_w s)"
    "sc_handles w' = sc_handles (sy_w s)"
    and "pc_stopping pc \<Longrightarrow> sc_shutdown (sy_w s)" and "emptied pc w'"
  shows "control_ok (s\<lparr>sy_w := w', sy_pc := pc\<rparr>)"
  using assms by (auto simp: control_ok_def)

lemma control_ok_worker:
  assumes "worker_step be s s'" and "control_ok s"
  shows "control_ok s'"
  using assms
proof (induction rule: worker_step.induct)
  case (recv s stop w')
  show ?case
    by (rule control_ok_receive [OF recv(4,3,2)]) (use recv in \<open>auto split: if_splits\<close>)
next
  case (drain s cs stop w')
  show ?case
    by (rule control_ok_receive [OF drain(4,3,2)]) (use drain in \<open>auto split: if_splits\<close>)
next
  case (coalesce s available cs stop w')
  show ?case
    by (rule control_ok_receive [OF coalesce(5,4,3)]) (use coalesce in \<open>auto split: if_splits\<close>)
next
  case (idle s stop w')
  show ?case
    by (rule control_ok_receive [OF idle(4,3,2)]) (use idle in \<open>auto split: if_splits\<close>)
next
  case (classify s p todo ready ready' w')
  then show ?case
    by (intro control_ok_fields) (auto simp: classify_pending_def retire_pending_def split: if_splits)
next
  case (prefill s p todo marked now)
  then show ?case by (intro control_ok_fields) (auto simp: prefill_mark_def)
next
  case (prefill_call s ready outcomes w')
  then show ?case
    using prefill_call_frame(2) [OF prefill_call(2)]
    by (intro control_ok_fields) (auto simp: step_frame_def)
next
  case (started s item outcomes)
  have "cmds (deliver_start item w) = cmds w" "sc_shutdown (deliver_start item w) = sc_shutdown w"
    for w :: "('a, 'b) sched"
    by (auto simp: deliver_start_def fail_pending_def Let_def split: prod.split sum.split)
  with started show ?case by (intro control_ok_fields) auto
next
  case (remove_cancelled s i a)
  then show ?case by (simp add: control_ok_def)
next
  case (remove_finished s i a)
  then show ?case by (simp add: control_ok_def)
next
  case (select s i idxs selected selected' w')
  then show ?case
    using select_one_frame [OF select(2)] by (intro control_ok_fields) (auto simp: step_frame_def)
next
  case (step_call s selected plan w')
  then show ?case
    using step_call_frame [OF step_call(2)]
    by (intro control_ok_fields) (auto simp: step_frame_def split: step_plan.splits)
next
  case (abort s e item items)
  obtain i x buffer where "item = (i, x, buffer)" by (cases item)
  with abort show ?case
    using step_abort_frame [of "sy_w s" e i x buffer]
    by (intro control_ok_fields) (auto simp: step_frame_def)
next
  case (deliver s item items step_us now)
  obtain i x buffer result where "item = ((i, x, buffer), result)"
    by (metis surj_pair)
  with deliver show ?case
    using deliver_result_frame [of "sy_w s" "packet_frames (sc_config (sy_w s))" step_us now i x buffer result]
    by (intro control_ok_fields) (auto simp: step_frame_def)
next
  case (final_active s failure a rest)
  then show ?case by (simp add: control_ok_def)
next
  case (final_pending s failure p rest)
  then show ?case by (simp add: control_ok_def)
next
  case (final_drain s failure c rest)
  have sub: "set (cmds ((sy_w s)\<lparr>sc_channel := rest\<rparr>)) \<subseteq> set (cmds (sy_w s))"
    by (auto simp: cmds_def final_drain(2))
  have "set (cmds (finalise_command failure c ((sy_w s)\<lparr>sc_channel := rest\<rparr>))) \<subseteq> set (cmds (sy_w s))"
    "sc_shutdown (finalise_command failure c ((sy_w s)\<lparr>sc_channel := rest\<rparr>)) = sc_shutdown (sy_w s)"
    "sc_handles (finalise_command failure c ((sy_w s)\<lparr>sc_channel := rest\<rparr>)) = sc_handles (sy_w s)"
    "sc_active (finalise_command failure c ((sy_w s)\<lparr>sc_channel := rest\<rparr>)) = sc_active (sy_w s)"
    "sc_pending (finalise_command failure c ((sy_w s)\<lparr>sc_channel := rest\<rparr>)) = sc_pending (sy_w s)"
    using sub by (cases c; simp add: finalise_command_def)+
  with final_drain show ?case by (auto simp: control_ok_def)
next
  case (closing s failure)
  then show ?case
    by (auto simp: control_ok_def close_channel_def cmds_def)
qed (auto simp: control_ok_def worker_failure_def cmds_def split: if_splits)

lemma control_ok_initial: "scheduler_new config b None = Ok w \<Longrightarrow> control_ok (sys_start w)"
  using scheduler_new_shape [of config b w] by (simp add: control_ok_def sys_start_def cmds_def)

section \<open>Retirement in the system\<close>

lemma retirement_ok_step:
  assumes "retirement_ok s" and "retires (sy_w s) (sy_w s')"
    and "length (sc_shareds (sy_w s')) = length (sc_shareds (sy_w s))"
    and "abandoned (sy_pc s) \<Longrightarrow> abandoned (sy_pc s')"
    and "\<And>r. rh_live (sc_handles (sy_w s') ! r) \<Longrightarrow> rh_live (sc_handles (sy_w s) ! r) \<or> r \<in># owners s'"
    and "\<And>r. \<not> abandoned (sy_pc s') \<Longrightarrow> r \<in># owners s \<Longrightarrow> rh_live (sc_handles (sy_w s') ! r) \<Longrightarrow>
      r \<in># owners s' \<or> st_retired (state_at (sy_w s') r)"
  shows "retirement_ok s'"
  using assms unfolding retirement_ok_def retires_def by metis

lemma retirement_ok_client:
  assumes "client_step s s'" and "slots_ok s" "static_ok config s" "work_ok s" "control_ok s" "retirement_ok s"
  shows "retirement_ok s'"
  using assms
proof (induction rule: client_step.induct)
  case (start s input generation now p w')
  let ?n = "length (sc_shareds (sy_w s))"
  note shape = start_prepare_shape [OF start(2)]
  note eff = start_prepare_effect [OF start(2)]
  have old: "state_at w' q = state_at (sy_w s) q" if "q < ?n" for q
    using that eff(1) [of q] by (simp add: state_at_def)
  have new: "\<not> st_retired (state_at w' ?n)"
    using eff(1) [of ?n] by (simp add: state_at_def request_shared_new_def)
  have h: "rh_live (sc_handles w' ! q) = (q < ?n \<and> rh_live (sc_handles (sy_w s) ! q))" if "q < Suc ?n" for q
    using start(4) that by (auto simp: eff(6) nth_append static_ok_def)
  have own: "owners (s\<lparr>sy_w := w', sy_sending := p # sy_sending s,
      sy_limit := (sy_limit s)(ps_shared p := max_codec_frames generation)\<rparr>) = add_mset (ps_shared p) (owners s)"
    by (simp add: owners_def shape)
  show ?case
    using start(7) old new h by (simp add: retirement_ok_def shape own [unfolded shape(1)] less_Suc_eq)
next
  case (send s ps p qs res w')
  show ?case
  proof (rule start_send_cases [OF send(3)])
    assume a: "sc_receiver_alive (sy_w s)"
    then have w': "w' = (sy_w s)\<lparr>sc_channel := sc_channel (sy_w s) @ [CmdStart p], sc_handles :=
        (sc_handles (sy_w s))[ps_shared p := \<lparr>rh_cancel_sent = False, rh_live = True\<rparr>]\<rparr>"
      using send(3) by (auto simp: start_send_def send_def)
    have own: "owners (s\<lparr>sy_w := w', sy_sending := ps @ qs\<rparr>) = owners s"
      by (simp add: owners_def w' send(1))
    have "ps_shared p \<in># owners s" by (simp add: owners_def send(1))
    then have "rh_live (sc_handles w' ! r) \<Longrightarrow> rh_live (sc_handles (sy_w s) ! r) \<or> r \<in># owners s" for r
      by (cases "r = ps_shared p") (simp_all add: w')
    then show ?thesis
      by (intro retirement_ok_step [OF send(8)]) (simp_all add: own, simp_all add: w' retires_same)
  next
    assume w': "w' = release_slot (sy_w s)"
    have own: "owners s = add_mset (ps_shared p) (owners (s\<lparr>sy_w := w', sy_sending := ps @ qs\<rparr>))"
      by (simp add: owners_def w' send(1))
    have "\<not> rh_live (sc_handles (sy_w s) ! ps_shared p)"
      using send(1,7) by (simp add: control_ok_def)
    then show ?thesis
      by (intro retirement_ok_step [OF send(8)]) (auto simp: own w' retires_same)
  qed
next
  case (poll r s timeout deadline now res w')
  have r: "r < length (sc_shareds (sy_w s))"
    using poll(1,5) by (simp add: static_ok_def)
  obtain st where st: "state_at w' = (state_at (sy_w s))(r := st)" "frame w' = frame (sy_w s)"
    "st_cancel_requested st = st_cancel_requested (state_at (sy_w s) r)"
    "st_failure st = st_failure (state_at (sy_w s) r)"
    "st_producer_finished st = st_producer_finished (state_at (sy_w s) r)"
    "st_retired st = st_retired (state_at (sy_w s) r)"
    by (rule poll_iteration_effect [OF r poll(3)]) (rule that, assumption+)
  note f = frame_fields [OF st(2)]
  have "retires (sy_w s) w'"
    by (rule retires_one [OF st(1)]) (simp_all add: settled_def st)
  then show ?case
    by (intro retirement_ok_step [OF poll(8)]) (auto simp: f owners_def)
next
  case (drop s ps p qs w')
  have "frame w' = frame (sy_w s)" by (simp add: drop(2))
  note f = frame_fields [OF this]
  have "state_at w' = state_at (sy_w s)"
    using drop_held_effect(1) drop(1,2,5) by (auto simp: work_ok_def buffers_ok_def)
  then show ?case
    by (intro retirement_ok_step [OF drop(7)]) (auto simp: f owners_def retires_same)
next
  case (cancel r s must_send w')
  have r: "r < length (sc_shareds (sy_w s))"
    using cancel(1,5) by (simp add: static_ok_def)
  have qo: "queue_owned (sy_w s) r (packet_size (sc_config (sy_w s)))"
    using cancel(6) r by (auto simp: work_ok_def buffers_ok_def bufs_queue_owned)
  note f = cancel_mark_frame [OF cancel(3)]
  have "retires (sy_w s) w'"
    using cancel_mark_effect(2) [OF r qo cancel(3)]
    by (auto intro: retires_same simp: retires_def settled_def)
  moreover have h: "rh_live (sc_handles w' ! q) = rh_live (sc_handles (sy_w s) ! q)" for q
    using cancel(3) by (cases "q = r"; cases "r < length (sc_handles (sy_w s))")
      (auto simp: cancel_mark_def Let_def list_update_beyond not_less split: if_splits)
  ultimately show ?case
    by (intro retirement_ok_step [OF cancel(8)]) (auto simp: f owners_def h)
next
  case (cancel_send s ps r qs res w')
  have w': "sc_shareds w' = sc_shareds (sy_w s)" "sc_handles w' = sc_handles (sy_w s)"
    "sc_active w' = sc_active (sy_w s)" "sc_pending w' = sc_pending (sy_w s)"
    "chan_starts (sc_channel w') = chan_starts (sc_channel (sy_w s))"
    using cancel_send(3) by (auto simp: RtShared.send_def split: if_splits)
  then have "state_at w' = state_at (sy_w s)"
    by (simp add: fun_eq_iff state_at_def shared_at_def)
  then show ?case
    by (intro retirement_ok_step [OF cancel_send(8)]) (auto simp: w' owners_def retires_same)
next
  case (close r s)
  have "rh_live ((sc_handles (sy_w s))[r := (sc_handles (sy_w s) ! r)\<lparr>rh_live := False\<rparr>] ! q) \<Longrightarrow>
      rh_live (sc_handles (sy_w s) ! q)" for q
    by (cases "q = r"; cases "r < length (sc_handles (sy_w s))")
      (auto simp: list_update_beyond not_less)
  then show ?case
    by (intro retirement_ok_step [OF close(9)]) (auto simp: owners_def retires_same)
next
  case (shutdown s)
  show ?case
    by (intro retirement_ok_step [OF shutdown(7)]) (auto simp: owners_def retires_same scheduler_drop_reads)
qed

lemma retirement_ok_work:
  assumes "retirement_ok s" "work_ok s" and "rstep (sy_w s) w'"
    and "abandoned (sy_pc s) \<Longrightarrow> abandoned pc" and "sc_handles w' = sc_handles (sy_w s)"
    and "\<And>r. r \<in># owners s \<Longrightarrow>
      r \<in># owners (s\<lparr>sy_w := w', sy_pc := pc\<rparr>) \<or> st_retired (state_at w' r)"
  shows "retirement_ok (s\<lparr>sy_w := w', sy_pc := pc\<rparr>)"
proof (rule retirement_ok_step [OF assms(1)])
  show "retires (sy_w s) (sy_w (s\<lparr>sy_w := w', sy_pc := pc\<rparr>))"
    using assms(2,3) by (auto simp: rstep_def work_ok_def buffers_ok_def)
qed (use assms(3-6) in \<open>auto simp: rstep_def\<close>)

lemma retirement_ok_work_keep:
  assumes "retirement_ok s" "work_ok s" and "rstep (sy_w s) w'" and "sc_handles w' = sc_handles (sy_w s)"
    and "\<And>r. r \<in># owners s \<Longrightarrow> r \<in># owners (s\<lparr>sy_w := w'\<rparr>) \<or> st_retired (state_at w' r)"
  shows "retirement_ok (s\<lparr>sy_w := w'\<rparr>)"
proof -
  have "s\<lparr>sy_w := w', sy_pc := sy_pc s\<rparr> = s\<lparr>sy_w := w'\<rparr>"
    by (cases s) simp
  then show ?thesis
    using retirement_ok_work [OF assms(1-3) _ assms(4), of "sy_pc s"] assms(5) by simp
qed

lemma retirement_ok_quiet:
  assumes "retirement_ok s" and "retires (sy_w s) w'" and "step_frame (sy_w s) w'"
    and "abandoned (sy_pc s) \<Longrightarrow> abandoned pc"
    and "mset (pc_pendings pc) = mset (pc_pendings (sy_pc s))"
  shows "retirement_ok (s\<lparr>sy_w := w', sy_pc := pc\<rparr>)"
proof -
  have own: "owners (s\<lparr>sy_w := w', sy_pc := pc\<rparr>) = owners s"
    using assms(3,5) step_frame_mset [OF assms(3)] by (simp add: owners_def step_frame_def)
  show ?thesis
    by (rule retirement_ok_step [OF assms(1)]) (use assms(2-4) own in \<open>auto simp: step_frame_def\<close>)
qed

lemma retirement_ok_move:
  assumes "retirement_ok s" and "abandoned (sy_pc s) \<Longrightarrow> abandoned pc"
    and "mset (pc_pendings pc) = mset (pc_pendings (sy_pc s))"
  shows "retirement_ok (s\<lparr>sy_pc := pc\<rparr>)"
proof -
  have "owners (s\<lparr>sy_pc := pc\<rparr>) = owners s"
    using assms(3) by (simp add: owners_def)
  then show ?thesis
    using assms(2) by (intro retirement_ok_step [OF assms(1)]) (auto simp: retires_same)
qed

lemma retirement_ok_receive:
  assumes "retirement_ok s" "slots_ok s" "work_ok s" and "receive_command (sy_w s) = (stop, w')"
    and "sc_channel (sy_w s) \<noteq> []" and "pc_pendings pc = []" "pc_pendings (sy_pc s) = []"
    and "abandoned (sy_pc s) \<Longrightarrow> abandoned pc"
  shows "retirement_ok (s\<lparr>sy_w := w', sy_pc := pc\<rparr>)"
proof (rule retirement_ok_work [OF assms(1,3) _ assms(8)])
  note rc = receive_command_retires [OF assms(4,5) owners_bounds(1,2) [OF assms(2)]]
  show "rstep (sy_w s) w'" by (rule rc(1))
  show "sc_handles w' = sc_handles (sy_w s)" by (rule receive_command_control(2) [OF assms(4,5)])
  show "r \<in># owners (s\<lparr>sy_w := w', sy_pc := pc\<rparr>) \<or> st_retired (state_at w' r)" if r: "r \<in># owners s" for r
  proof -
    have b: "bufs (sy_w s) (outside s)" using assms(3) by (simp add: work_ok_def buffers_ok_def)
    from r have "(\<exists>p \<in> set (chan_starts (sc_channel (sy_w s))) \<union> set (sc_pending (sy_w s)). r = ps_shared p) \<or>
        (\<exists>p \<in> set (sy_sending s). r = ps_shared p) \<or> (\<exists>a \<in> set (sc_active (sy_w s)). r = ar_shared a)"
      by (auto simp: owners_def assms(7))
    then show ?thesis
      using rc(2) [OF b] receive_command_active [OF assms(4)] by (auto simp: owners_def assms(6)) blast+
  qed
qed

text \<open>A delivered item never retires its request, and a settled one stays settled.\<close>

lemma retires_recycle: "r < length (sc_shareds w) \<Longrightarrow> retires w (recycle_pcm r buffer w)"
  by (rule retires_same) (simp add: recycle_pcm_effect)

lemma retires_fail_item:
  assumes "bufs w out" and "active_ref w i < length (sc_shareds w)" and "out (active_ref w i) = Suc k"
    and "length buffer = packet_size (sc_config w)"
  shows "retires w (mark_failed (active_ref w i) e (recycle_pcm (active_ref w i) buffer (set_session i y w)))"
proof -
  let ?r = "active_ref w i"
  let ?w1 = "recycle_pcm ?r buffer (set_session i y w)"
  have b1: "bufs ?w1 (out(?r := k))"
    using assms by (intro bufs_recycle) simp_all
  have r1: "?r < length (sc_shareds ?w1)" using assms(2) by simp
  have "state_at ?w1 = state_at w" using assms(2) by (simp add: recycle_pcm_effect)
  moreover have "retires ?w1 (mark_failed ?r e ?w1)"
    using rstep_marks(2) [OF r1] b1 by (auto simp: rstep_def)
  ultimately show ?thesis by (simp add: retires_def)
qed

lemma retires_pushed:
  "state_at w' = (state_at w)(r := pushed_state p m (state_at w r)) \<Longrightarrow> retires w w'"
  by (erule retires_one) (auto simp: settled_def pushed_state_def Let_def)

lemma retires_deliver:
  assumes "bufs w out" and "i < length (sc_active w)" and "active_ref w i < length (sc_shareds w)"
    and "out (active_ref w i) = Suc k" and "length buffer = packet_size (sc_config w)"
  shows "retires w (deliver_result frames step_us now ((i, x, buffer), result) w)"
proof -
  let ?r = "active_ref w i"
  let ?w1 = "set_session i (Some x) w"
  let ?a = "sc_active ?w1 ! i"
  note fail = retires_fail_item [OF assms(1,3,4,5), of _ "Some x"]
  have a: "ar_shared ?a = ?r"
    using active_ref_set(1) [of i "Some x" w i] by (simp add: active_ref_def)
  show ?thesis
  proof (cases result)
    case (Inl e)
    then show ?thesis using fail by (simp add: deliver_result_def Let_def a)
  next
    case (Inr packet)
    let ?d = "deliver_packet (ar_record ?a) (ar_max_codec_frames ?a) packet frames buffer step_us
      (duration_microseconds (now - ar_started_at ?a)) ?r"
    show ?thesis
    proof (cases ?d)
      case (Inl e)
      then show ?thesis using fail Inr by (simp add: deliver_result_def Let_def a)
    next
      case ok: (Inr okay)
      obtain rcd owned where okay: "okay = (rcd, owned)" by (cases okay)
      let ?w2 = "set_record i rcd ?w1"
      obtain b w3 where push: "push_packet ?r owned (rec_metrics rcd) ?w2 = (b, w3)"
        by (cases "push_packet ?r owned (rec_metrics rcd) ?w2")
      have own: "owned_by ?r (packet_size (sc_config ?w2)) owned"
        using deliver_packet_shape [of _ _ _ _ buffer _ _ ?r rcd owned] ok okay assms(5)
        by (simp add: owned_by_def)
      have r2: "?r < length (sc_shareds ?w2)" using assms(3) by simp
      note eff = push_packet_effect [OF r2 own push]
      have r3: "?r < length (sc_shareds w3)"
        using frame_fields(11) [OF push_packet_frame [OF push]] assms(3) by simp
      have w3: "retires w w3"
      proof (cases b)
        case True
        then show ?thesis using eff by (auto intro: retires_pushed)
      next
        case False
        then show ?thesis using eff retires_recycle [OF r2] by (simp add: retires_def)
      qed
      have b3: "bufs w3 (out(?r := k))"
        by (rule bufs_push [where w = ?w2 and out = out and r = ?r, OF _ r2 assms(4) own push])
          (simp add: assms(1))
      have "retires w (mark_failed ?r e w3)" for e
        using rstep_marks(2) [OF r3] b3 frame_fields(11) [OF push_packet_frame [OF push]]
        by (intro retires_trans [OF w3]) (auto simp: rstep_def)
      with w3 Inr ok okay push show ?thesis
        by (simp add: deliver_result_def Let_def a split: bool.splits)
    qed
  qed
qed

lemma retirement_ok_worker:
  assumes "worker_step be s s'" and "borrowing_backend (be_step_batch be)"
    and "slots_ok s" "work_ok s" "control_ok s" "retirement_ok s"
  shows "retirement_ok s'"
  using assms
proof (induction rule: worker_step.induct)
  case (recv s stop w')
  show ?case
    by (rule retirement_ok_receive [OF recv(8,5,6,3,2)]) (simp_all add: recv(1) abandoned_def)
next
  case (drain s cs stop w')
  show ?case
    by (rule retirement_ok_receive [OF drain(8,5,6,3,2)]) (simp_all add: drain(1) abandoned_def)
next
  case (coalesce s available cs stop w')
  show ?case
    by (rule retirement_ok_receive [OF coalesce(9,6,7,4,3)]) (simp_all add: coalesce(1) abandoned_def)
next
  case (idle s stop w')
  show ?case
    by (rule retirement_ok_receive [OF idle(8,5,6,3,2)]) (simp_all add: idle(1) abandoned_def)
next
  case (check s available)
  then show ?case
    by (intro retirement_ok_work) (auto simp: owners_def abandoned_def)
next
  case (classify s p todo ready ready' w')
  have b: "ps_shared p < length (sc_shareds (sy_w s))"
    using owners_bounds(3) [OF classify(4)] by (simp add: classify(1))
  show ?case
  proof (cases "is_cancel_requested (sy_w s) (ps_shared p)")
    case True
    then have w': "w' = retire_pending p (mark_cancelled (ps_shared p) (sy_w s))" "ready' = ready"
      using classify(2) by (auto simp: classify_pending_def)
    show ?thesis
      by (rule retirement_ok_work [OF classify(7,5)])
        (use rstep_pending(3,6) [OF b] classify(1) in \<open>auto simp: w' owners_def abandoned_def\<close>)
  next
    case False
    then show ?thesis
      using classify by (intro retirement_ok_work) (auto simp: classify_pending_def owners_def abandoned_def)
  qed
next
  case (classified s ready)
  then show ?case by (intro retirement_ok_move) (auto simp: abandoned_def)
next
  case (prefill s p todo marked now)
  have "ps_shared p < length (sc_shareds (sy_w s))"
    using owners_bounds(3) [OF prefill(3)] by (simp add: prefill(1))
  then show ?case
    using rstep_marks(3) prefill by (intro retirement_ok_work)
      (auto simp: owners_def abandoned_def prefill_mark_def)
next
  case (prefill_call s ready outcomes w')
  have "state_at w' = state_at (sy_w s)"
    using prefill_call(2) by (auto simp: RtWorker.prefill_call_def split: prod.splits unwind.splits if_splits)
  then show ?case
    using prefill_call_frame [OF prefill_call(2)] prefill_call(1)
    by (intro retirement_ok_quiet [OF prefill_call(7)]) (auto simp: retires_same abandoned_def)
next
  case (started s item outcomes)
  obtain p result where item: "item = (p, result)" by (cases item)
  have b: "ps_shared p < length (sc_shareds (sy_w s))"
    using owners_bounds(3) [OF started(3)] by (simp add: started(1) item)
  show ?case
  proof (cases result)
    case (Inl e)
    then have w': "deliver_start item (sy_w s) = fail_pending e p (sy_w s)"
      by (simp add: deliver_start_def item)
    have "sc_handles (fail_pending e p (sy_w s)) = sc_handles (sy_w s)"
      "sc_active (fail_pending e p (sy_w s)) = sc_active (sy_w s)"
      "chan_starts (sc_channel (fail_pending e p (sy_w s))) = chan_starts (sc_channel (sy_w s))"
      "sc_pending (fail_pending e p (sy_w s)) = sc_pending (sy_w s)"
      by (simp_all add: fail_pending_def)
    then show ?thesis
      unfolding w' using rstep_pending(1,4) [OF b] started(1)
      by (intro retirement_ok_work [OF started(6,4)]) (auto simp: owners_def abandoned_def item)
  next
    case (Inr ok)
    let ?a = "active_entry p ok (st_metrics (state_at (mark_generating (ps_shared p) ok (sy_w s)) (ps_shared p)))"
    have "deliver_start item (sy_w s) =
        (mark_generating (ps_shared p) ok (sy_w s))\<lparr>sc_active := sc_active (sy_w s) @ [?a]\<rparr>"
      by (simp add: deliver_start_def item Inr Let_def)
    then show ?thesis
      using rstep_via [OF rstep_marks(4) [OF b] rstep_silent(2)] started(1)
      by (intro retirement_ok_work [OF started(6,4)]) (auto simp: owners_def abandoned_def item)
  qed
next
  case (remove_cancelled s i a)
  let ?w = "(sy_w s)\<lparr>sc_active := swap_remove i (sc_active (sy_w s))\<rparr>"
  have a: "ar_shared a < length (sc_shareds ?w)"
    using remove_cancelled owners_bounds(2) [of s] by simp
  show ?case
    by (rule retirement_ok_work_keep [OF remove_cancelled(9,7) rstep_via [OF rstep_silent(2) rstep_active(2) [OF a]]])
      (use rstep_active(5) [OF a, of be] mset_nth_swap_remove [OF remove_cancelled(2)] remove_cancelled(3)
        in \<open>auto simp: owners_def\<close>)
next
  case (remove_finished s i a)
  let ?w = "(sy_w s)\<lparr>sc_active := swap_remove i (sc_active (sy_w s))\<rparr>"
  have a: "ar_shared a < length (sc_shareds ?w)"
    using remove_finished owners_bounds(2) [of s] by simp
  have fin: "request_finished ?w a"
    using remove_finished(4) by (simp add: request_finished_def failed_or_cancelled_def)
  show ?case
    by (rule retirement_ok_work_keep [OF remove_finished(9,7) rstep_via [OF rstep_silent(2) rstep_active(3) [OF a fin]]])
      (use rstep_active(6) [OF a, of be] mset_nth_swap_remove [OF remove_finished(2)] remove_finished(3)
        in \<open>auto simp: owners_def\<close>)
next
  case (select s i idxs selected selected' w')
  have i: "i < length (sc_active (sy_w s))"
    using select(1,5) by (auto simp: work_ok_def sessions_ok_def Let_def)
  then obtain x where x: "ar_session (sc_active (sy_w s) ! i) = Some x"
    using select(1,5) by (auto simp: work_ok_def sessions_ok_def Let_def)
  have free: "free_at (sy_w s) (active_ref (sy_w s) i) \<noteq> []"
    using select(1,5) by (simp add: work_ok_def buffers_ok_def)
  have "state_at w' = state_at (sy_w s)"
    using select_one_ok [OF select(2) x free active_ref_bound [OF select(4) i]] by metis
  then show ?case
    using select_one_frame [OF select(2)] select(1)
    by (intro retirement_ok_quiet [OF select(7)]) (auto simp: retires_same abandoned_def)
next
  case (step_call s selected plan w')
  then show ?case
    using step_call_items(4) [OF step_call(3,2)] step_call_frame [OF step_call(2)]
    by (intro retirement_ok_quiet [OF step_call(7)])
      (auto simp: retires_same abandoned_def split: step_plan.splits)
next
  case (abort s e item items)
  obtain i x buffer where item: "item = (i, x, buffer)" by (cases item)
  have pi: "pc_items (sy_pc s) = (i, x, buffer) # items"
    by (simp add: abort(1) item)
  note w = work_ok_item [OF abort(4,3) pi]
  show ?case
    using retires_fail_item [OF w(3,2,6,4), of e "Some x"] step_abort_frame [of "sy_w s" e i x buffer] abort(1)
    by (intro retirement_ok_quiet [OF abort(6)]) (auto simp: step_abort_def item abandoned_def)
next
  case (deliver s item items step_us now)
  obtain i x buffer result where item: "item = ((i, x, buffer), result)"
    by (metis surj_pair)
  have pi: "pc_items (sy_pc s) = (i, x, buffer) # map fst items"
    by (simp add: deliver(1) item)
  note w = work_ok_item [OF deliver(4,3) pi]
  show ?case
    using retires_deliver [OF w(3,1,2,6,4)] deliver(1)
      deliver_result_frame [of "sy_w s" "packet_frames (sc_config (sy_w s))" step_us now i x buffer result]
    by (intro retirement_ok_quiet [OF deliver(6)]) (auto simp: item abandoned_def)
next
  case (final_active s failure a rest)
  let ?w = "(sy_w s)\<lparr>sc_active := rest\<rparr>"
  have a: "ar_shared a < length (sc_shareds ?w)"
    using final_active owners_bounds(2) [of s] by simp
  show ?case
    by (rule retirement_ok_work_keep [OF final_active(7,5) rstep_via [OF rstep_silent(2) rstep_active(1) [OF a]]])
      (use rstep_active(4) [OF a, of be failure] final_active(2) in \<open>auto simp: owners_def\<close>)
next
  case (final_pending s failure p rest)
  let ?w = "(sy_w s)\<lparr>sc_pending := rest\<rparr>"
  have p: "ps_shared p < length (sc_shareds ?w)"
    using final_pending owners_bounds(1) [of s] by simp
  show ?case
    by (rule retirement_ok_work_keep [OF final_pending(7,5) rstep_via [OF rstep_silent(3) rstep_pending(2) [OF p]]])
      (use rstep_pending(5) [OF p, of failure] final_pending(2) in \<open>auto simp: owners_def\<close>)
next
  case (final_drain s failure c rest)
  let ?w = "(sy_w s)\<lparr>sc_channel := rest\<rparr>"
  show ?case
  proof (cases "\<exists>p. c = CmdStart p")
    case True
    then obtain p where c: "c = CmdStart p" by auto
    have p: "ps_shared p < length (sc_shareds ?w)"
      using final_drain(2) owners_bounds(4) [OF final_drain(4)] by (simp add: c)
    have w': "finalise_command failure c ?w = finalise_pending failure p ?w"
      by (simp add: finalise_command_def c)
    show ?thesis
      unfolding w'
      by (rule retirement_ok_work_keep [OF final_drain(7,5) rstep_via [OF rstep_silent(4) rstep_pending(2) [OF p]]])
        (use rstep_pending(5) [OF p, of failure] final_drain(2) in \<open>auto simp: owners_def c\<close>)
  next
    case False
    then have w': "finalise_command failure c ?w = ?w" "chan_starts (c # rest) = chan_starts rest"
      by (cases c; simp add: finalise_command_def)+
    show ?thesis
      unfolding w'(1)
      by (rule retirement_ok_work_keep [OF final_drain(7,5) rstep_silent(4)])
        (use final_drain(2) w'(2) in \<open>auto simp: owners_def\<close>)
  qed
next
  case (closing s failure)
  have f: "state_at (close_channel (sy_w s)) = state_at (sy_w s)"
    "sc_handles (close_channel (sy_w s)) = sc_handles (sy_w s)"
    "length (sc_shareds (close_channel (sy_w s))) = length (sc_shareds (sy_w s))"
    by (simp_all add: close_channel_def state_at_def shared_at_def fun_eq_iff)
  have "failure = None \<Longrightarrow> owners (s\<lparr>sy_w := close_channel (sy_w s), sy_pc := AtStopped failure\<rparr>) = owners s"
    using closing(1,5) by (simp add: control_ok_def owners_def close_channel_def)
  then show ?case
    by (intro retirement_ok_step [OF closing(6)]) (auto simp: f retires_same abandoned_def closing(1))
qed (auto intro!: retirement_ok_move simp: abandoned_def)

lemma retirement_ok_initial: "scheduler_new config b None = Ok w \<Longrightarrow> retirement_ok (sys_start w)"
  using scheduler_new_shape [of config b w] by (simp add: retirement_ok_def sys_start_def)

section \<open>Reachable states\<close>

definition full_ok :: "engine_config \<Rightarrow> ('b, 's) sys \<Rightarrow> bool" where
  "full_ok config s \<longleftrightarrow> system_ok config s \<and> control_ok s \<and> retirement_ok s"

lemma full_ok_reachable:
  assumes "borrowing_backend (be_step_batch be)" and "reachable be config s"
  shows "full_ok config s"
proof (rule reachable_invariant [OF assms(2)])
  fix b :: 'a and w assume "scheduler_new config b None = Ok w"
  then show "full_ok config (sys_start w)"
    by (simp add: full_ok_def system_ok_initial control_ok_initial retirement_ok_initial)
next
  fix s s' :: "('a, 'b) sys" assume ok: "full_ok config s" and step: "client_step s s'"
  then show "full_ok config s'"
    using system_ok_client [OF step] control_ok_client [OF step] retirement_ok_client [OF step]
    unfolding full_ok_def system_ok_def by blast
next
  fix s s' :: "('a, 'b) sys" assume ok: "full_ok config s" and step: "worker_step be s s'"
  then show "full_ok config s'"
    using system_ok_worker [OF step assms(1)] control_ok_worker [OF step]
      retirement_ok_worker [OF step assms(1)]
    unfolding full_ok_def system_ok_def by blast
qed

end
