(* ===== verification/RtRun.thy ===== *)
theory RtRun
  imports RtShutdown
begin

text \<open>
  The worker thread as a function: \<open>worker_next\<close> makes the step the code makes from each
  position, when no timeout fires early and the clock stands still. It is executable, so that
  whole runs of the scheduler system can be evaluated; and since it is defined everywhere but at
  an empty channel and after the end, it shows where the worker can block.
\<close>

definition move :: "'s worker_pc \<Rightarrow> ('b, 's) sys \<Rightarrow> ('b, 's) sys" where
  "move pc s = s\<lparr>sy_pc := pc\<rparr>"

definition go :: "'s worker_pc \<Rightarrow> ('b, 's) sched \<Rightarrow> ('b, 's) sys \<Rightarrow> ('b, 's) sys" where
  "go pc w s = s\<lparr>sy_w := w, sy_pc := pc\<rparr>"

fun worker_next :: "('b, 's) streaming_backend \<Rightarrow> ('b, 's) sys \<Rightarrow> ('b, 's) sys" where
  "worker_next be s = (let w = sy_w s in
     case sy_pc s of
       AtTop cs \<Rightarrow> move (if sc_shutdown w \<or> cs then AtFinalActive (worker_failure False)
         else if sc_active w = [] \<and> sc_pending w = [] then AtRecv else AtDrain False) s
     | AtRecv \<Rightarrow> (if sc_channel w = [] then s
         else (let (stop, w') = receive_command w in go (AtDrain stop) w' s))
     | AtDrain cs \<Rightarrow> (if sc_channel w = []
         then move (AtCoalesce (coalesce_available (unat (max_concurrent_requests (sc_config w))) w) cs) s
         else (let (stop, w') = receive_command w in
           go (if stop then AtCoalesce (coalesce_available
               (unat (max_concurrent_requests (sc_config w'))) w') True else AtDrain cs) w' s))
     | AtCoalesce available cs \<Rightarrow>
         (if sc_shutdown w \<or> cs then move (AtFinalActive (worker_failure False)) s
          else go (AtClassify (sc_pending w) []) (w\<lparr>sc_pending := []\<rparr>) s)
     | AtClassify todo ready \<Rightarrow> (case todo of
         [] \<Rightarrow> move (if ready = [] then AtRemoveCancelled 0 else AtPrefill ready []) s
       | p # todo' \<Rightarrow> (let (ready', w') = classify_pending p (ready, w) in go (AtClassify todo' ready') w' s))
     | AtPrefill todo marked \<Rightarrow> (case todo of
         [] \<Rightarrow> (let (outcomes, w') = RtWorker.prefill_call be marked w in go (AtStarted outcomes) w' s)
       | p # todo' \<Rightarrow> go (AtPrefill todo' (marked @ [p])) (prefill_mark 0 p w) s)
     | AtStarted outcomes \<Rightarrow> (case outcomes of
         [] \<Rightarrow> move (AtRemoveCancelled 0) s
       | item # outcomes' \<Rightarrow> go (AtStarted outcomes') (deliver_start item w) s)
     | AtRemoveCancelled i \<Rightarrow>
         (if length (sc_active w) \<le> i then move (AtEligible 0 []) s
          else if is_cancel_requested w (active_ref w i)
          then go (AtRemoveCancelled i) (remove_cancelled_one be (sc_active w ! i)
              (w\<lparr>sc_active := swap_remove i (sc_active w)\<rparr>)) s
          else move (AtRemoveCancelled (i + 1)) s)
     | AtEligible i idxs \<Rightarrow>
         (if length (sc_active w) \<le> i then move (if idxs = [] then AtIdle else AtSelect idxs []) s
          else move (if state_accepts w (active_ref w i) then AtEligibleFree i idxs
            else AtEligible (i + 1) idxs) s)
     | AtEligibleFree i idxs \<Rightarrow>
         move (AtEligible (i + 1) (if has_free_pcm w (active_ref w i) then idxs @ [i] else idxs)) s
     | AtIdle \<Rightarrow> (if sc_channel w = [] then move (AtTop False) s
         else (let (stop, w') = receive_command w in go (AtTop stop) w' s))
     | AtSelect idxs selected \<Rightarrow> (case idxs of
         [] \<Rightarrow> (let (plan, w') = RtWorker.step_call be (packet_frames (sc_config w)) selected w in
           go (case plan of StepAbort e items \<Rightarrow> AtAbort e items | StepDeliver items \<Rightarrow> AtDeliver items) w' s)
       | i # idxs' \<Rightarrow> (let (selected', w') = select_one i (selected, w) in go (AtSelect idxs' selected') w' s))
     | AtAbort e items \<Rightarrow> (case items of
         [] \<Rightarrow> move (AtRemoveFinished 0) s
       | item # items' \<Rightarrow> go (AtAbort e items') (step_abort e item w) s)
     | AtDeliver items \<Rightarrow> (case items of
         [] \<Rightarrow> move (AtRemoveFinished 0) s
       | item # items' \<Rightarrow> go (AtDeliver items')
           (deliver_result (packet_frames (sc_config w)) (FFin 0) 0 item w) s)
     | AtRemoveFinished i \<Rightarrow>
         (if length (sc_active w) \<le> i then move (AtTop False) s
          else if request_finished w (sc_active w ! i)
          then go (AtRemoveFinished i) (remove_finished_one be (sc_active w ! i)
              (w\<lparr>sc_active := swap_remove i (sc_active w)\<rparr>)) s
          else move (AtRemoveFinished (i + 1)) s)
     | AtFinalActive f \<Rightarrow> (case sc_active w of
         [] \<Rightarrow> move (AtFinalPending f) s
       | a # rest \<Rightarrow> go (AtFinalActive f) (finalise_active be f a (w\<lparr>sc_active := rest\<rparr>)) s)
     | AtFinalPending f \<Rightarrow> (case sc_pending w of
         [] \<Rightarrow> move (AtFinalDrain f) s
       | p # rest \<Rightarrow> go (AtFinalPending f) (finalise_pending f p (w\<lparr>sc_pending := rest\<rparr>)) s)
     | AtFinalDrain f \<Rightarrow> (case sc_channel w of
         [] \<Rightarrow> move (AtClosing f) s
       | c # rest \<Rightarrow> go (AtFinalDrain f) (finalise_command f c (w\<lparr>sc_channel := rest\<rparr>)) s)
     | AtClosing f \<Rightarrow> go (AtStopped f) (close_channel w) s
     | AtStopped f \<Rightarrow> s)"

declare worker_next.simps [simp del]

definition blocked :: "('b, 's) sys \<Rightarrow> bool" where
  "blocked s \<longleftrightarrow> (case sy_pc s of AtRecv \<Rightarrow> sc_channel (sy_w s) = [] | AtStopped f \<Rightarrow> True | _ \<Rightarrow> False)"

lemma same_w: "s\<lparr>sy_w := sy_w s, sy_pc := pc\<rparr> = s\<lparr>sy_pc := pc\<rparr>"
  by (cases s) simp

lemma same_pc: "sy_pc s = pc \<Longrightarrow> s\<lparr>sy_w := w, sy_pc := pc\<rparr> = s\<lparr>sy_w := w\<rparr>"
  by (cases s) simp

lemma worker_next_step:
  assumes "\<not> blocked s"
  shows "worker_step be s (worker_next be s)"
proof (cases "sy_pc s")
  case (AtTop cs)
  then show ?thesis
    using worker_step.top [of s be] worker_step.top_stop [of s cs be]
    by (auto simp: worker_next.simps Let_def move_def)
next
  case AtRecv
  then show ?thesis
    using assms worker_step.recv [of s] by (auto simp: worker_next.simps Let_def go_def blocked_def split: prod.split)
next
  case (AtDrain cs)
  then show ?thesis
    using worker_step.drain [OF AtDrain] worker_step.drained [OF AtDrain]
    by (auto simp: worker_next.simps Let_def move_def go_def split: prod.split)
next
  case (AtCoalesce n cs)
  then show ?thesis
    using worker_step.check [of s n] worker_step.check_stop [OF AtCoalesce]
    by (auto simp: worker_next.simps Let_def move_def go_def)
next
  case (AtClassify todo ready)
  then show ?thesis
    using worker_step.classify [of s] worker_step.classified [of s ready]
    by (cases todo) (auto simp: worker_next.simps Let_def move_def go_def split: prod.split)
next
  case (AtPrefill todo marked)
  then show ?thesis
    using worker_step.prefill [of s _ _ marked] worker_step.prefill_call [of s marked be]
    by (cases todo) (auto simp: worker_next.simps Let_def move_def go_def split: prod.split)
next
  case (AtStarted outcomes)
  then show ?thesis
    using worker_step.started [of s] worker_step.start_done [of s]
    by (cases outcomes) (auto simp: worker_next.simps Let_def move_def go_def)
next
  case (AtRemoveCancelled i)
  then show ?thesis
    using worker_step.remove_cancelled [OF AtRemoveCancelled _ refl] worker_step.keep_uncancelled [OF AtRemoveCancelled]
      worker_step.cancelled_done [OF AtRemoveCancelled]
    by (auto simp: worker_next.simps Let_def move_def go_def active_ref_def same_pc)
next
  case (AtEligible i idxs)
  then show ?thesis
    using worker_step.eligible_state [OF AtEligible] worker_step.eligible_done [OF AtEligible]
    by (auto simp: worker_next.simps Let_def move_def)
next
  case (AtEligibleFree i idxs)
  then show ?thesis
    using worker_step.eligible_free [OF AtEligibleFree] by (auto simp: worker_next.simps Let_def move_def)
next
  case AtIdle
  then show ?thesis
    using worker_step.idle [of s] worker_step.idle_timeout [of s]
    by (auto simp: worker_next.simps Let_def move_def go_def split: prod.split)
next
  case (AtSelect idxs selected)
  then show ?thesis
    using worker_step.select [of s] worker_step.step_call [of s selected]
    by (cases idxs) (auto simp: worker_next.simps Let_def move_def go_def split: prod.split)
next
  case (AtAbort e items)
  then show ?thesis
    using worker_step.abort [of s e] worker_step.abort_done [of s e]
    by (cases items) (auto simp: worker_next.simps Let_def move_def go_def)
next
  case (AtDeliver items)
  then show ?thesis
    using worker_step.deliver [of s] worker_step.deliver_done [of s]
    by (cases items) (auto simp: worker_next.simps Let_def move_def go_def)
next
  case (AtRemoveFinished i)
  then show ?thesis
    using worker_step.remove_finished [OF AtRemoveFinished _ refl] worker_step.keep_unfinished [OF AtRemoveFinished]
      worker_step.finished_done [OF AtRemoveFinished]
    by (auto simp: worker_next.simps Let_def move_def go_def same_pc)
next
  case (AtFinalActive f)
  then show ?thesis
    using worker_step.final_active [OF AtFinalActive] worker_step.final_active_done [OF AtFinalActive]
    by (cases "sc_active (sy_w s)") (auto simp: worker_next.simps Let_def move_def go_def same_pc)
next
  case (AtFinalPending f)
  then show ?thesis
    using worker_step.final_pending [OF AtFinalPending] worker_step.final_pending_done [OF AtFinalPending]
    by (cases "sc_pending (sy_w s)") (auto simp: worker_next.simps Let_def move_def go_def same_pc)
next
  case (AtFinalDrain f)
  then show ?thesis
    using worker_step.final_drain [OF AtFinalDrain] worker_step.final_drain_done [OF AtFinalDrain]
    by (cases "sc_channel (sy_w s)") (auto simp: worker_next.simps Let_def move_def go_def same_pc)
next
  case (AtClosing f)
  then show ?thesis
    using worker_step.closing [OF AtClosing] by (auto simp: worker_next.simps Let_def go_def)
qed (use assms in \<open>simp add: blocked_def\<close>)

fun worker_run :: "('b, 's) streaming_backend \<Rightarrow> nat \<Rightarrow> ('b, 's) sys \<Rightarrow> ('b, 's) sys" where
  "worker_run be 0 s = s"
| "worker_run be (Suc n) s = (if blocked s then s else worker_run be n (worker_next be s))"

lemma worker_run_reachable: "reachable be config s \<Longrightarrow> reachable be config (worker_run be n s)"
proof (induction n arbitrary: s)
  case (Suc n)
  show ?case
    using Suc.IH [OF reachable.step [OF Suc.prems]] Suc.prems worker_next_step
    by (auto simp: sys_step_def)
qed simp

lemma worker_run_add: "worker_run be (m + n) s = worker_run be n (worker_run be m s)"
proof (induction m arbitrary: s)
  case (Suc m)
  have "blocked s \<Longrightarrow> worker_run be n s = s" for n
    by (cases n) auto
  then show ?case using Suc.IH by simp
qed simp

section \<open>A client call in a run\<close>

definition client_start ::
  "request_input \<Rightarrow> generation_config \<Rightarrow> ('b, 's) sys \<Rightarrow> ('b, 's) sys" where
  "client_start input generation s =
     (case start_prepare input generation 0 (sy_w s) of
        (Inl e, w') \<Rightarrow> s
      | (Inr p, w') \<Rightarrow>
          (if \<not> sc_shutdown (sy_w s) \<and> channel_ready w'
           then s\<lparr>sy_w := snd (start_send p w'), sy_limit := (sy_limit s)(ps_shared p := max_codec_frames generation)\<rparr>
           else s))"

definition client_poll :: "sref \<Rightarrow> ('b, 's) sys \<Rightarrow> ('b, 's) sys" where
  "client_poll r s =
     (if r < length (sc_handles (sy_w s)) \<and> rh_live (sc_handles (sy_w s) ! r)
      then (let (res, w') = poll_iteration r 0 None 0 (sy_w s) in
        s\<lparr>sy_w := w', sy_held := received res @ sy_held s,
          sy_log := (sy_log s)(r := sy_log s r @ received res)\<rparr>)
      else s)"

lemma client_start_reachable:
  assumes "reachable be config s"
  shows "reachable be config (client_start input generation s)"
proof (cases "start_prepare input generation 0 (sy_w s)")
  case (Pair res w')
  show ?thesis
  proof (cases "\<exists>p. res = Inr p \<and> \<not> sc_shutdown (sy_w s) \<and> channel_ready w'")
    case True
    then obtain p where p: "res = Inr p" "\<not> sc_shutdown (sy_w s)" "channel_ready w'" by blast
    let ?s1 = "s\<lparr>sy_w := w', sy_sending := p # sy_sending s,
      sy_limit := (sy_limit s)(ps_shared p := max_codec_frames generation)\<rparr>"
    obtain res2 w2 where send: "start_send p w' = (res2, w2)" by (cases "start_send p w'")
    have "client_step s ?s1"
      using client_step.start [OF p(2)] Pair p(1) by simp
    moreover have "client_step ?s1 (?s1\<lparr>sy_w := w2, sy_sending := [] @ sy_sending s\<rparr>)"
      by (rule client_step.send [where ps = "[]" and p = p and res = res2]) (simp_all add: p(3) send)
    moreover have "?s1\<lparr>sy_w := w2, sy_sending := [] @ sy_sending s\<rparr> = client_start input generation s"
      using Pair p by (cases s) (simp add: client_start_def send)
    ultimately show ?thesis
      using assms by (metis reachable.step sys_step_def)
  next
    case False
    then have "client_start input generation s = s"
      using Pair by (auto simp: client_start_def split: sum.split)
    then show ?thesis using assms by simp
  qed
qed

definition client_shutdown :: "('b, 's) sys \<Rightarrow> ('b, 's) sys" where
  "client_shutdown s =
     (if sy_sending s = [] \<and> \<not> sc_shutdown (sy_w s) then s\<lparr>sy_w := scheduler_drop (sy_w s)\<rparr> else s)"

lemma client_shutdown_reachable: "reachable be config s \<Longrightarrow> reachable be config (client_shutdown s)"
  using client_step.shutdown [of s] reachable.step [of be config s]
  by (auto simp: client_shutdown_def sys_step_def)

lemma client_poll_reachable: "reachable be config s \<Longrightarrow> reachable be config (client_poll r s)"
  using client_step.poll [of r s 0 None 0] reachable.step [of be config s]
  by (auto simp: client_poll_def sys_step_def split: prod.split)

section \<open>One concrete system\<close>

text \<open>A backend whose every request is one frame of silence, and a run of it.\<close>

definition silent_result :: "backend_error + backend_packet" where
  "silent_result = Ok \<lparr>bp_codec_frames = 1, bp_is_final = True, bp_finish_reason = CodecEos,
     bp_talker_gpu_microseconds = FFin 0, bp_codec_gpu_microseconds = FFin 0,
     bp_peak_request_device_bytes = 0, bp_peak_request_host_bytes = 0\<rparr>"

definition silent_step :: "(unit, unit) step_fun" where
  "silent_step b x frames buf = (Returned silent_result, x, map (\<lambda>_. 0) buf, b)"

definition silent_start :: "(unit, unit) start_fun" where
  "silent_start b q =
     (Returned (Ok \<lparr>bs_session = (), bs_prefill_microseconds = 0, bs_peak_request_device_bytes = 0,
        bs_peak_request_host_bytes = 0\<rparr>), b)"

definition silent_backend :: "(unit, unit) streaming_backend" where
  "silent_backend = \<lparr>be_start_batch = default_start_batch silent_start,
     be_step_batch = default_step_batch silent_step, be_cancel = default_cancel\<rparr>"

interpretation silent: borrowing_backend "be_step_batch silent_backend"
proof unfold_locales
  fix b qs frames r qs' b'
  assume "be_step_batch silent_backend b qs frames = (r, qs', b')"
  then show "in_place qs qs'"
    by (intro default_step_batch_in_place [of silent_step b qs frames r qs' b'])
      (auto simp: silent_backend_def silent_step_def)
qed

definition silent_config :: engine_config where
  "silent_config = default_engine_config\<lparr>max_concurrent_requests := 1, packet_frames := 1, pcm_ring_slots := 1\<rparr>"

definition silent_generation :: generation_config where
  "silent_generation = \<lparr>gc_struct_size = 120, max_codec_frames = 8, gc_seed = 0,
      gc_temperature = FFin 1, gc_top_p = FFin 1, gc_repetition_penalty = FFin 1, gc_top_k = 50,
      gc_do_sample = 1, predictor_temperature = FFin 1, predictor_top_p = FFin 1,
      predictor_top_k = 50, predictor_do_sample = 1, gc_reserved = replicate 8 0\<rparr>"

definition silent_input :: request_input where
  "silent_input = \<lparr>ri_text = ''A'', ri_instruct = [], ri_language = LangAuto\<rparr>"

definition silent_sched :: "(unit, unit) sched" where
  "silent_sched = (case scheduler_new silent_config () None of Inr w \<Rightarrow> w)"

definition silent_started :: "(unit, unit) sys" where
  "silent_started = client_start silent_input silent_generation (sys_start silent_sched)"

text \<open>The packet in the worker's hands; delivered; polled.\<close>

definition silent_delivering :: "(unit, unit) sys" where
  "silent_delivering = worker_run silent_backend 17 silent_started"

definition silent_polled :: "(unit, unit) sys" where
  "silent_polled = client_poll 0 (worker_run silent_backend 1 silent_delivering)"

definition silent_stopped :: "(unit, unit) sys" where
  "silent_stopped = worker_run silent_backend 30 (client_shutdown silent_polled)"

lemma silent_config_fields [simp]:
  "max_concurrent_requests silent_config = 1" "packet_frames silent_config = 1"
  "pcm_ring_slots silent_config = 1" "max_text_bytes silent_config = 65536"
  "max_instruct_bytes silent_config = 16384"
  by (simp_all add: silent_config_def default_engine_config_def)

lemma silent_config_valid: "validate_config silent_config = Ok ()"
  by (simp add: validate_config_def silent_config_def default_engine_config_def rt_consts
      sizeof_engine_config_def list_ex_iff)

lemma silent_new: "scheduler_new silent_config () None = Ok silent_sched"
  by (simp add: silent_sched_def scheduler_new_def silent_config_valid
      usize_checked_mul_def usize_checked_add_def usize_max_def ok_or_def)

lemma silent_sched_eq:
  "silent_sched = \<lparr>sc_config = silent_config, sc_slots = \<lparr>sp_capacity = 1, sp_used = 0\<rparr>, sc_channel = [],
     sc_channel_capacity = 12, sc_receiver_alive = True, sc_shutdown = False,
     sc_next_request_id = 1, sc_shareds = [], sc_handles = [], sc_active = [],
     sc_pending = [], sc_backend = ()\<rparr>"
  by (simp add: silent_sched_def scheduler_new_def silent_config_valid slot_pool_new_def
      usize_checked_mul_def usize_checked_add_def usize_max_def ok_or_def)

lemma silent_reachable:
  "reachable silent_backend silent_config (sys_start silent_sched)"
  "reachable silent_backend silent_config silent_started"
  "reachable silent_backend silent_config silent_delivering"
  "reachable silent_backend silent_config silent_polled"
  "reachable silent_backend silent_config silent_stopped"
proof -
  show a: "reachable silent_backend silent_config (sys_start silent_sched)"
    by (rule reachable.initial [OF silent_new])
  show b: "reachable silent_backend silent_config silent_started"
    unfolding silent_started_def by (rule client_start_reachable [OF a])
  show c: "reachable silent_backend silent_config silent_delivering"
    unfolding silent_delivering_def by (rule worker_run_reachable [OF b])
  show d: "reachable silent_backend silent_config silent_polled"
    unfolding silent_polled_def by (intro client_poll_reachable worker_run_reachable c)
  show "reachable silent_backend silent_config silent_stopped"
    unfolding silent_stopped_def by (intro client_shutdown_reachable worker_run_reachable d)
qed

text \<open>Evaluation: one rewrite rule for each position of the worker.\<close>

lemmas worker_next_at =
  worker_next.simps [where s = "\<lparr>sy_w = w, sy_sending = x1, sy_cancelling = x2, sy_held = x3, sy_log = x4, sy_limit = x5,
    sy_pc = AtTop cs\<rparr>", unfolded Let_def, simplified]
  worker_next.simps [where s = "\<lparr>sy_w = w, sy_sending = x1, sy_cancelling = x2, sy_held = x3, sy_log = x4, sy_limit = x5,
    sy_pc = AtRecv\<rparr>", unfolded Let_def, simplified]
  worker_next.simps [where s = "\<lparr>sy_w = w, sy_sending = x1, sy_cancelling = x2, sy_held = x3, sy_log = x4, sy_limit = x5,
    sy_pc = AtDrain cs\<rparr>", unfolded Let_def, simplified]
  worker_next.simps [where s = "\<lparr>sy_w = w, sy_sending = x1, sy_cancelling = x2, sy_held = x3, sy_log = x4, sy_limit = x5,
    sy_pc = AtCoalesce n cs\<rparr>", unfolded Let_def, simplified]
  worker_next.simps [where s = "\<lparr>sy_w = w, sy_sending = x1, sy_cancelling = x2, sy_held = x3, sy_log = x4, sy_limit = x5,
    sy_pc = AtClassify todo ready\<rparr>", unfolded Let_def, simplified]
  worker_next.simps [where s = "\<lparr>sy_w = w, sy_sending = x1, sy_cancelling = x2, sy_held = x3, sy_log = x4, sy_limit = x5,
    sy_pc = AtPrefill todo ready\<rparr>", unfolded Let_def, simplified]
  worker_next.simps [where s = "\<lparr>sy_w = w, sy_sending = x1, sy_cancelling = x2, sy_held = x3, sy_log = x4, sy_limit = x5,
    sy_pc = AtStarted outcomes\<rparr>", unfolded Let_def, simplified]
  worker_next.simps [where s = "\<lparr>sy_w = w, sy_sending = x1, sy_cancelling = x2, sy_held = x3, sy_log = x4, sy_limit = x5,
    sy_pc = AtRemoveCancelled i\<rparr>", unfolded Let_def, simplified]
  worker_next.simps [where s = "\<lparr>sy_w = w, sy_sending = x1, sy_cancelling = x2, sy_held = x3, sy_log = x4, sy_limit = x5,
    sy_pc = AtEligible i idxs\<rparr>", unfolded Let_def, simplified]
  worker_next.simps [where s = "\<lparr>sy_w = w, sy_sending = x1, sy_cancelling = x2, sy_held = x3, sy_log = x4, sy_limit = x5,
    sy_pc = AtEligibleFree i idxs\<rparr>", unfolded Let_def, simplified]
  worker_next.simps [where s = "\<lparr>sy_w = w, sy_sending = x1, sy_cancelling = x2, sy_held = x3, sy_log = x4, sy_limit = x5,
    sy_pc = AtIdle\<rparr>", unfolded Let_def, simplified]
  worker_next.simps [where s = "\<lparr>sy_w = w, sy_sending = x1, sy_cancelling = x2, sy_held = x3, sy_log = x4, sy_limit = x5,
    sy_pc = AtSelect idxs selected\<rparr>", unfolded Let_def, simplified]
  worker_next.simps [where s = "\<lparr>sy_w = w, sy_sending = x1, sy_cancelling = x2, sy_held = x3, sy_log = x4, sy_limit = x5,
    sy_pc = AtDeliver items\<rparr>", unfolded Let_def, simplified]
  worker_next.simps [where s = "\<lparr>sy_w = w, sy_sending = x1, sy_cancelling = x2, sy_held = x3, sy_log = x4, sy_limit = x5,
    sy_pc = AtRemoveFinished i\<rparr>", unfolded Let_def, simplified]
  worker_next.simps [where s = "\<lparr>sy_w = w, sy_sending = x1, sy_cancelling = x2, sy_held = x3, sy_log = x4, sy_limit = x5,
    sy_pc = AtFinalActive f\<rparr>", unfolded Let_def, simplified]
  worker_next.simps [where s = "\<lparr>sy_w = w, sy_sending = x1, sy_cancelling = x2, sy_held = x3, sy_log = x4, sy_limit = x5,
    sy_pc = AtFinalPending f\<rparr>", unfolded Let_def, simplified]
  worker_next.simps [where s = "\<lparr>sy_w = w, sy_sending = x1, sy_cancelling = x2, sy_held = x3, sy_log = x4, sy_limit = x5,
    sy_pc = AtFinalDrain f\<rparr>", unfolded Let_def, simplified]
  worker_next.simps [where s = "\<lparr>sy_w = w, sy_sending = x1, sy_cancelling = x2, sy_held = x3, sy_log = x4, sy_limit = x5,
    sy_pc = AtClosing f\<rparr>", unfolded Let_def, simplified]
  for w x1 x2 x3 x4 x5 cs n todo ready outcomes i idxs selected items f

lemma worker_run_eval:
  "worker_run be (numeral n) s =
     (if blocked s then s else worker_run be (pred_numeral n) (worker_next be s))"
  "worker_run be (Suc 0) s = (if blocked s then s else worker_next be s)"
  "worker_run be 1 s = (if blocked s then s else worker_next be s)"
  by (simp_all add: numeral_eq_Suc)

lemmas run_eval = worker_run_eval worker_next_at blocked_def move_def go_def receive_command_def
  pop_channel_def handle_command_def classify_pending_def is_cancel_requested_def state_at_def
  shared_at_def coalesce_available_def prefill_mark_def mark_prefilling_def upd_state_def
  upd_shared_def RtWorker.prefill_call_def silent_backend_def silent_start_def deliver_start_def
  mark_generating_def active_entry_def transition_def transition_allowed_def
  request_record_new_def active_ref_def state_accepts_def has_free_pcm_def select_one_def
  set_session_def take_pcm_def RtWorker.step_call_def silent_step_def PCM_SENTINEL_def Let_def

lemmas start_eval = silent_input_def silent_generation_def client_start_def silent_sched_eq
  sys_start_def start_prepare_def request_input_validate_def
  validate_generation_Ok_iff [THEN iffD2] rt_consts try_acquire_def request_shared_new_def
  channel_ready_def start_send_def RtShared.send_def f32_finite_positive_def
  f32_unit_interval_def

lemmas deliver_eval = silent_result_def deliver_result_def deliver_packet_def validate_backend_packet_def
  packet_descriptor_def record_packet_def descriptor_validate_def saturating_add_def
  push_packet_def pushed_state_def set_record_def record_after_packet_def finish_is_terminal_def
  client_poll_def poll_iteration_def received_def try_send_def default_metrics_def f64_add_def
  f64_zero_def duration_microseconds_def

lemmas stop_eval = client_shutdown_def scheduler_drop_def worker_failure_def close_channel_def
  finalise_active_def finalise_command_def finalise_pending_def request_finished_def
  failed_or_cancelled_def remove_finished_one_def retire_active_def mark_retired_def
  release_slot_def release_def swap_remove_def cmds_def

lemma silent_delivering_pc:
  "sy_pc silent_delivering = AtDeliver [((0, (), replicate 1920 0), silent_result)]"
  by (simp add: silent_delivering_def silent_started_def start_eval run_eval)

lemma silent_polled_facts:
  "rh_live (sc_handles (sy_w silent_polled) ! 0)" "length (sc_shareds (sy_w silent_polled)) = 1"
  "length (sc_handles (sy_w silent_polled)) = 1"
  "poll_iteration 0 0 None 0 (sy_w silent_polled) =
     (Some (Ok (PollEndOfStream CodecEos)), snd (poll_iteration 0 0 None 0 (sy_w silent_polled)))"
  by (simp_all add: silent_polled_def silent_delivering_def silent_started_def start_eval
      run_eval deliver_eval)

lemma silent_stopped_facts:
  "sy_pc silent_stopped = AtStopped None" "length (sc_shareds (sy_w silent_stopped)) = 1"
  "rh_live (sc_handles (sy_w silent_stopped) ! 0)"
  by (simp_all add: silent_stopped_def silent_polled_def silent_delivering_def silent_started_def
      start_eval run_eval deliver_eval stop_eval)

end
