(* ===== verification/RtProgress.thy ===== *)
theory RtProgress
  imports RtRun
begin

text \<open>
  Progress: the worker can only block on an empty channel, never after the scheduler was
  dropped; and then it comes to its end in finitely many steps of its own.
\<close>

section \<open>The channel at the blocking receive\<close>

text \<open>Operations of clients never take commands out of the channel.\<close>

definition grows :: "('b, 's) sched \<Rightarrow> ('b, 's) sched \<Rightarrow> bool" where
  "grows w w' \<longleftrightarrow> (\<exists>cs. sc_channel w' = sc_channel w @ cs)"

lemma grows_refl [simp]: "grows w w"
  by (simp add: grows_def)

lemma grows_trans: "grows w w1 \<Longrightarrow> grows w1 w2 \<Longrightarrow> grows w w2"
  by (auto simp: grows_def)

lemma grows_ops [simp]:
  "grows w (try_send c w)" "grows w (upd_shared r f w)" "grows w (upd_state r g w)"
  "grows w (recycle_pcm r b w)" "grows w (drop_packet p w)" "grows w (snd (RtShared.send c w))"
proof -
  show t: "grows w (try_send c w)" for c and w :: "('a, 'b) sched"
    by (simp add: grows_def try_send_def)
  show u: "grows w (upd_shared r f w)" for r f and w :: "('a, 'b) sched"
    by (simp add: grows_def upd_shared_def)
  show "grows w (upd_state r g w)" by (simp add: upd_state_def u)
  show r: "grows w (recycle_pcm r b w)" for r b
    by (auto simp: recycle_pcm_def intro: grows_trans [OF u t])
  show "grows w (drop_packet p w)"
    by (simp add: drop_packet_def r split: option.split)
  show "grows w (snd (RtShared.send c w))"
    by (simp add: grows_def RtShared.send_def)
qed

lemma grows_fold [simp]: "grows w (fold drop_packet ps w)"
proof (induction ps arbitrary: w)
  case (Cons p ps)
  have "grows w (fold drop_packet ps (drop_packet p w))"
    by (rule grows_trans [OF grows_ops(5) Cons.IH])
  then show ?case by simp
qed simp

lemma grows_poll:
  assumes "poll_iteration r timeout deadline now w = (res, w')"
  shows "grows w w'"
proof -
  have "w' = w \<or> (\<exists>f. w' = upd_state r f w) \<or> (\<exists>f. w' = try_send CmdWake (upd_state r f w))"
    using assms by (auto simp: poll_iteration_def Let_def split: option.splits list.splits if_splits)
  then show ?thesis by (elim disjE exE) (simp_all add: grows_trans [OF grows_ops(3) grows_ops(1)])
qed

lemma grows_cancel:
  assumes "cancel_mark r w = (b, w')"
  shows "grows w w'"
proof -
  have h: "grows w (w\<lparr>sc_handles := h\<rparr>)" for h by (simp add: grows_def)
  have "w' = w \<or> (\<exists>h. w' = w\<lparr>sc_handles := h\<rparr>) \<or>
      (\<exists>h f ps. w' = fold drop_packet ps (upd_state r f (w\<lparr>sc_handles := h\<rparr>)))"
    using assms unfolding cancel_mark_def Let_def by (auto split: if_splits)
  then show ?thesis
    by (elim disjE exE) (simp_all add: h grows_trans [OF h grows_trans [OF grows_ops(3) grows_fold]])
qed

lemma client_step_grows: "client_step s s' \<Longrightarrow> grows (sy_w s) (sy_w s')"
proof (induction rule: client_step.induct)
  case (start s input generation now p w')
  then show ?case
    using start_prepare_shape [OF start(2)] by (simp add: grows_def)
next
  case (send s ps p qs res w')
  then show ?case
    by (auto simp: start_send_def RtShared.send_def release_slot_def grows_def split: if_splits)
next
  case (poll s r timeout deadline now res w')
  then show ?case by (simp add: grows_poll)
next
  case (drop s ps p qs w')
  then show ?case by (simp add: drop_held_def)
next
  case (cancel r s must_send w')
  then show ?case by (simp add: grows_cancel)
next
  case (cancel_send s ps r qs res w')
  then show ?case using grows_ops(6) [of "sy_w s" "CmdCancel (sh_id (shared_at (sy_w s) r))"] by simp
next
  case (shutdown s)
  have "grows (sy_w s) ((sy_w s)\<lparr>sc_shutdown := True\<rparr>)" by (simp add: grows_def)
  then show ?case by (simp add: scheduler_drop_def grows_trans [OF _ grows_ops(1)])
qed (simp add: grows_def)

text \<open>What stays as it was set up.\<close>

definition wiring :: "('b, 's) sched \<Rightarrow> nat \<times> bool \<times> bool" where
  "wiring w = (sc_channel_capacity w, sc_receiver_alive w, sc_shutdown w)"

lemma wiring_frame: "frame w' = frame w \<Longrightarrow> wiring w' = wiring w"
  using frame_fields [of w' w] by (simp add: wiring_def)

lemma wiring_updates [simp]:
  "wiring (w\<lparr>sc_active := x1\<rparr>) = wiring w" "wiring (w\<lparr>sc_pending := x2\<rparr>) = wiring w"
  "wiring (w\<lparr>sc_channel := x3\<rparr>) = wiring w" "wiring (w\<lparr>sc_backend := x4\<rparr>) = wiring w"
  "wiring (w\<lparr>sc_handles := x5\<rparr>) = wiring w"
  "wiring (release_slot w) = wiring w" "wiring (cancel_session be a w) = wiring w"
  "wiring (set_session i x w) = wiring w" "wiring (set_record i y w) = wiring w"
  "wiring (pop_channel w) = wiring w"
  by (simp_all add: wiring_def cancel_session_def set_session_def set_record_def pop_channel_def
      split: option.split)

lemma wiring_marks [simp]:
  "wiring (mark_cancelled r w) = wiring w" "wiring (mark_failed r e w) = wiring w"
  "wiring (mark_retired r w) = wiring w" "wiring (mark_prefilling r us w) = wiring w"
  "wiring (mark_generating r st w) = wiring w" "wiring (recycle_pcm r b w) = wiring w"
  by (rule wiring_frame, simp)+

lemma wiring_retire [simp]:
  "wiring (retire_pending p w) = wiring w" "wiring (retire_active a w) = wiring w"
  "wiring (final_mark f r w) = wiring w"
  by (simp_all add: retire_pending_def retire_active_def final_mark_def split: option.split)

lemma wiring_receive: "receive_command w = (stop, w') \<Longrightarrow> wiring w' = wiring w"
  by (auto simp: receive_command_def handle_command_def cancel_pending_id_def cancel_active_id_def Let_def
      split: command.splits option.splits)

lemma wiring_worker_ops:
  "classify_pending p (ready, w) = (ready', w') \<Longrightarrow> wiring w' = wiring w"
  "wiring (prefill_mark t p w) = wiring w"
  "RtWorker.prefill_call be ps w = (outcomes, w') \<Longrightarrow> wiring w' = wiring w"
  "wiring (deliver_start item w) = wiring w"
  "wiring (remove_cancelled_one be a w) = wiring w"
  "wiring (remove_finished_one be a w) = wiring w"
  "RtWorker.step_call be frames items w = (plan, w') \<Longrightarrow> wiring w' = wiring w"
  "wiring (step_abort e x w) = wiring w"
  "wiring (finalise_active be f a w) = wiring w"
  "wiring (finalise_pending f p w) = wiring w"
  "wiring (finalise_command f c w) = wiring w"
  by (auto simp: classify_pending_def prefill_mark_def RtWorker.prefill_call_def deliver_start_def
      fail_pending_def remove_cancelled_one_def remove_finished_one_def RtWorker.step_call_def
      step_abort_def finalise_active_def finalise_pending_def finalise_command_def Let_def
      split: if_splits prod.splits unwind.splits sum.splits command.splits)

lemma wiring_select: "select_one i (selected, w) = (selected', w') \<Longrightarrow> wiring w' = wiring w"
  by (auto simp: select_one_def Let_def split: option.splits prod.splits
      dest!: wiring_frame [OF take_pcm_frame])

lemma wiring_deliver: "wiring (deliver_result frames step_us now item w) = wiring w"
proof -
  obtain i x buffer result where item: "item = ((i, x, buffer), result)" by (metis surj_pair)
  show ?thesis
    by (auto simp: item deliver_result_def Let_def split: sum.splits prod.splits if_splits bool.splits
      dest!: wiring_frame [OF push_packet_frame])
qed

lemma wiring_worker:
  "worker_step be s s' \<Longrightarrow> (\<forall>f. sy_pc s \<noteq> AtClosing f) \<Longrightarrow> wiring (sy_w s') = wiring (sy_w s)"
  by (induction rule: worker_step.induct)
    (auto simp: wiring_receive wiring_worker_ops wiring_select wiring_deliver)

definition wakeable :: "('b, 's) sys \<Rightarrow> bool" where
  "wakeable s \<longleftrightarrow> 0 < sc_channel_capacity (sy_w s) \<and>
     ((\<forall>f. sy_pc s \<noteq> AtStopped f) \<longrightarrow> sc_receiver_alive (sy_w s)) \<and>
     (sy_pc s = AtRecv \<and> sc_shutdown (sy_w s) \<longrightarrow> sc_channel (sy_w s) \<noteq> [])"

lemma wiring_client:
  "client_step s s' \<Longrightarrow> sc_channel_capacity (sy_w s') = sc_channel_capacity (sy_w s) \<and>
     sc_receiver_alive (sy_w s') = sc_receiver_alive (sy_w s)"
proof (induction rule: client_step.induct)
  case (start s input generation now p w')
  then show ?case
    by (auto simp: start_prepare_def Let_def split: sum.splits option.splits)
next
  case (send s ps p qs res w')
  then show ?case by (auto simp: start_send_def RtShared.send_def split: if_splits)
next
  case (poll s r timeout deadline now res w')
  then show ?case using frame_fields [OF poll_iteration_frame [OF poll(3)]] by simp
next
  case (drop s ps p qs w')
  then show ?case by (simp add: drop_held_def upd_shared_def)
next
  case (cancel r s must_send w')
  have "wiring w' = wiring (sy_w s)"
    using cancel(3) wiring_frame [OF frame_fold_drop]
    by (auto simp: cancel_mark_def Let_def split: if_splits) (simp_all add: wiring_def)
  then show ?case by (simp add: wiring_def)
next
  case (cancel_send s ps r qs res w')
  then show ?case by (auto simp: RtShared.send_def split: if_splits)
qed (auto simp: scheduler_drop_def try_send_def)

lemma client_step_shutdown:
  "client_step s s' \<Longrightarrow>
     sc_shutdown (sy_w s') = sc_shutdown (sy_w s) \<or> sy_w s' = scheduler_drop (sy_w s)"
proof (induction rule: client_step.induct)
  case (start s input generation now p w')
  then show ?case using start_prepare_shape [OF start(2)] by simp
next
  case (send s ps p qs res w')
  then show ?case by (auto simp: start_send_def RtShared.send_def split: if_splits)
next
  case (poll s r timeout deadline now res w')
  then show ?case using frame_fields [OF poll_iteration_frame [OF poll(3)]] by simp
next
  case (drop s ps p qs w')
  then show ?case by (simp add: drop_held_def upd_shared_def)
next
  case (cancel r s must_send w')
  then show ?case using cancel_mark_frame [OF cancel(3)] by simp
next
  case (cancel_send s ps r qs res w')
  then show ?case by (auto simp: RtShared.send_def split: if_splits)
qed auto

lemma client_step_pc: "client_step s s' \<Longrightarrow> sy_pc s' = sy_pc s"
  by (induction rule: client_step.induct) auto

lemma wakeable_reachable: "reachable be config s \<Longrightarrow> wakeable s"
proof (erule reachable_invariant)
  fix b :: 'a and w :: "('a, 'b) sched" assume new: "scheduler_new config b None = Ok w"
  obtain v :: "('a, 'b) sched" where "scheduler_new config b None = Ok v"
    "sc_channel_capacity v = 4 * unat (max_concurrent_requests config) + 8"
    using scheduler_new_total [OF scheduler_new_shape(1) [OF new], of b] by auto
  moreover have "v = w" using new calculation(1) by simp
  ultimately have "0 < sc_channel_capacity w" by simp
  then show "wakeable (sys_start w)"
    using scheduler_new_shape [OF new] by (simp add: wakeable_def sys_start_def)
next
  fix s s' :: "('a, 'b) sys" assume ok: "wakeable s" and step: "client_step s s'"
  note pc = client_step_pc [OF step] and sd = client_step_shutdown [OF step]
  show "wakeable s'"
    unfolding wakeable_def pc
  proof (intro conjI impI)
    assume "sy_pc s = AtRecv \<and> sc_shutdown (sy_w s')"
    then show "sc_channel (sy_w s') \<noteq> []"
      using ok sd client_step_grows [OF step]
      by (auto simp: wakeable_def grows_def scheduler_drop_def try_send_def)
  qed (use ok wiring_client [OF step] in \<open>simp_all add: wakeable_def\<close>)
next
  fix s s' :: "('a, 'b) sys" assume ok: "wakeable s" and step: "worker_step be s s'"
  have "sy_pc s' = AtRecv \<Longrightarrow> \<not> sc_shutdown (sy_w s')"
    using step by cases (auto split: if_splits step_plan.splits)
  moreover have "\<exists>f. sy_pc s' = AtStopped f" if "sy_pc s = AtClosing f" for f
    using step that by cases auto
  moreover have "sy_pc s \<noteq> AtStopped f" for f
    using step by cases auto
  moreover have "sc_channel_capacity (sy_w s') = sc_channel_capacity (sy_w s)"
    if "sy_pc s = AtClosing f" for f
  proof -
    have cap: "sc_channel_capacity (fold (\<lambda>_. release_slot) xs w) = sc_channel_capacity w" for xs and w :: "('a, 'b) sched"
      by (induction xs arbitrary: w) simp_all
    show ?thesis
      by (rule worker_step.cases [OF step]) (use that in \<open>auto simp: close_channel_def cap\<close>)
  qed
  ultimately show "wakeable s'"
    using ok wiring_worker [OF step] unfolding wakeable_def wiring_def by (metis prod.inject)
qed

lemma not_blocked_after_shutdown:
  "reachable be config s \<Longrightarrow> sc_shutdown (sy_w s) \<Longrightarrow> (\<forall>f. sy_pc s \<noteq> AtStopped f) \<Longrightarrow> \<not> blocked s"
  using wakeable_reachable [of be config s]
  by (auto simp: blocked_def wakeable_def split: worker_pc.splits)

section \<open>The worker comes to its end\<close>

text \<open>Commands still to be handled: what is in the channel, and the wake-ups that dropping the
  queued packets may add.\<close>

definition queued_total :: "('b, 's) sched \<Rightarrow> nat" where
  "queued_total w = sum_list (map (\<lambda>sh. length (st_packets (sh_state sh))) (sc_shareds w))"

definition load :: "('b, 's) sched \<Rightarrow> nat" where
  "load w = length (sc_channel w) + 2 * queued_total w"

lemma queued_total_upd:
  assumes "r < length (sc_shareds w)"
  shows "queued_total (upd_state r f w) + length (st_packets (state_at w r)) =
    queued_total w + length (st_packets (f (state_at w r)))"
proof -
  let ?l = "map (\<lambda>sh. length (st_packets (sh_state sh))) (sc_shareds w)"
  have "?l ! r \<le> sum_list ?l"
    using assms by (intro elem_le_sum_list) simp
  then show ?thesis
    using assms sum_list_update [of r ?l "length (st_packets (f (state_at w r)))"]
    by (simp add: queued_total_def upd_state_def upd_shared_def map_update state_at_def shared_at_def)
qed

lemma queued_total_recycle: "queued_total (recycle_pcm r b w) = queued_total w"
proof -
  have "map (\<lambda>sh. length (st_packets (sh_state sh)))
      ((sc_shareds w)[r := (sc_shareds w ! r)\<lparr>sh_free_pcm := x\<rparr>]) =
    map (\<lambda>sh. length (st_packets (sh_state sh))) (sc_shareds w)" for x
    by (rule nth_equalityI, simp, cases "r < length (sc_shareds w)") (auto simp: nth_list_update)
  then show ?thesis
    by (simp add: queued_total_def recycle_pcm_def try_send_def upd_shared_def)
qed

lemma load_drop: "load (drop_packet p w) \<le> load w + 1"
  by (simp add: load_def drop_packet_def queued_total_recycle split: option.split)
    (simp add: recycle_pcm_def try_send_def)

lemma load_fold_drop: "load (fold drop_packet ps w) \<le> load w + length ps"
proof (induction ps arbitrary: w)
  case (Cons p ps)
  have "load (fold drop_packet ps (drop_packet p w)) \<le> load (drop_packet p w) + length ps"
    by (rule Cons.IH)
  also have "\<dots> \<le> load w + length (p # ps)" using load_drop [of p w] by simp
  finally show ?case by simp
qed simp

lemma load_updates [simp]:
  "load (w\<lparr>sc_active := x1\<rparr>) = load w" "load (w\<lparr>sc_pending := x2\<rparr>) = load w"
  "load (release_slot w) = load w"
  by (simp_all add: load_def queued_total_def)

lemma load_marks:
  assumes "r < length (sc_shareds w)"
  shows "load (mark_cancelled r w) \<le> load w" "load (mark_failed r e w) \<le> load w"
    "load (mark_retired r w) = load w"
proof -
  let ?n = "length (st_packets (state_at w r))"
  have clear: "load (fold drop_packet (st_packets (state_at w r)) (upd_state r f w)) \<le> load w"
    if "st_packets (f (state_at w r)) = []" for f
    using load_fold_drop [of "st_packets (state_at w r)" "upd_state r f w"]
      queued_total_upd [OF assms, of f] that
    by (simp add: load_def) (simp add: upd_state_def)
  show "load (mark_cancelled r w) \<le> load w" "load (mark_failed r e w) \<le> load w"
    unfolding mark_cancelled_def mark_failed_def by (rule clear, simp)+
  show "load (mark_retired r w) = load w"
    using queued_total_upd [OF assms, of "\<lambda>st. st\<lparr>st_retired := True\<rparr>"]
    by (simp add: load_def mark_retired_def) (simp add: upd_state_def)
qed

lemma load_final: "ps_shared p < length (sc_shareds w) \<Longrightarrow> load (finalise_pending f p w) \<le> load w"
  by (simp add: finalise_pending_def retire_pending_def final_mark_def load_marks split: option.split)


lemma load_receive:
  assumes "receive_command w = (stop, w')" and "sc_channel w \<noteq> []"
    and "\<forall>p \<in> set (sc_pending w). ps_shared p < length (sc_shareds w)"
    and "\<forall>a \<in> set (sc_active w). ar_shared a < length (sc_shareds w)"
  shows "load w' < load w"
proof -
  obtain c cs where ch: "sc_channel w = c # cs"
    using assms(2) by (cases "sc_channel w") auto
  let ?w = "w\<lparr>sc_channel := cs\<rparr>"
  have pop: "load ?w < load w" by (simp add: load_def queued_total_def ch)
  have pend: "load (cancel_pending_id id' ?w) \<le> load ?w" for id'
  proof (cases "position (\<lambda>p. br_id (ps_request p) = id') (sc_pending ?w)")
    case (Some i)
    then have "ps_shared (sc_pending w ! i) < length (sc_shareds w)"
      using assms(3) position_bound [OF Some] by simp
    then show ?thesis
      using load_marks(1) [of "ps_shared (sc_pending w ! i)" "?w\<lparr>sc_pending := swap_remove i (sc_pending w)\<rparr>"] Some
      by (simp add: cancel_pending_id_def Let_def retire_pending_def load_marks)
  qed (simp add: cancel_pending_id_def)
  have act: "load (cancel_active_id id' v) \<le> load v"
    if "\<forall>a \<in> set (sc_active v). ar_shared a < length (sc_shareds v)" for id' v
    using that by (auto simp: cancel_active_id_def find_Some_iff intro!: load_marks split: option.split)
  have "load (cancel_active_id id' (cancel_pending_id id' ?w)) \<le> load ?w" for id'
    by (rule order_trans [OF act pend])
      (use assms(4) in \<open>simp add: cancel_pending_id_def Let_def split: option.split\<close>)
  then show ?thesis
    using assms(1) pop le_less_trans
    by (auto simp: receive_command_def pop_channel_def ch handle_command_def split: command.splits)
qed

text \<open>How far the worker is from its end, once \<open>shutdown\<close> is set.\<close>

definition distance :: "('b, 's) sys \<Rightarrow> nat \<times> nat" where
  "distance s = (let w = sy_w s; n = length (sc_active w) in
     case sy_pc s of
       AtRecv \<Rightarrow> (17, 0)
     | AtDrain cs \<Rightarrow> (16, load w)
     | AtCoalesce available cs \<Rightarrow> (15, load w)
     | AtClassify todo ready \<Rightarrow> (14, length todo)
     | AtPrefill todo marked \<Rightarrow> (13, length todo)
     | AtStarted outcomes \<Rightarrow> (12, length outcomes)
     | AtRemoveCancelled i \<Rightarrow> (11, n - i)
     | AtEligible i idxs \<Rightarrow> (10, 2 * (n - i))
     | AtEligibleFree i idxs \<Rightarrow> (10, 2 * (n - (i + 1)) + 1)
     | AtIdle \<Rightarrow> (9, 0)
     | AtSelect idxs selected \<Rightarrow> (9, length idxs)
     | AtAbort e items \<Rightarrow> (8, length items)
     | AtDeliver items \<Rightarrow> (8, length items)
     | AtRemoveFinished i \<Rightarrow> (7, n - i)
     | AtTop cs \<Rightarrow> (6, 0)
     | AtFinalActive f \<Rightarrow> (5, n)
     | AtFinalPending f \<Rightarrow> (4, length (sc_pending w))
     | AtFinalDrain f \<Rightarrow> (3, load w)
     | AtClosing f \<Rightarrow> (2, 0)
     | AtStopped f \<Rightarrow> (0, 0))"

abbreviation closer :: "((nat \<times> nat) \<times> (nat \<times> nat)) set" where
  "closer \<equiv> less_than <*lex*> less_than"

lemma worker_step_closer:
  assumes "worker_step be s s'" and "slots_ok s" and "sc_shutdown (sy_w s)"
  shows "(distance s', distance s) \<in> closer"
  using assms
proof (induction rule: worker_step.induct)
  case (drain s cs stop w')
  then show ?case
    using load_receive [OF drain(3,2)] owners_bounds [OF drain(4)] by (auto simp: distance_def Let_def)
next
  case (coalesce s available cs stop w')
  then show ?case
    using load_receive [OF coalesce(4,3)] owners_bounds [OF coalesce(5)] by (auto simp: distance_def Let_def)
next
  case (remove_cancelled s i a)
  then show ?case
    by (auto simp: distance_def Let_def remove_cancelled_one_def)
next
  case (remove_finished s i a)
  then show ?case
    by (auto simp: distance_def Let_def remove_finished_one_def)
next
  case (final_active s f a rest)
  then show ?case
    by (auto simp: distance_def Let_def finalise_active_def final_mark_def split: option.split)
next
  case (final_pending s f p rest)
  then show ?case
    by (auto simp: distance_def Let_def finalise_pending_def final_mark_def retire_pending_def split: option.split)
next
  case (final_drain s f c rest)
  have "load (finalise_command f c (w\<lparr>sc_channel := rest\<rparr>)) \<le> load (w\<lparr>sc_channel := rest\<rparr>)"
    if "sc_channel w = c # rest" "slots_ok s" "sy_w s = w" for w
    using owners_bounds(4) [OF that(2)] that
    by (auto simp: finalise_command_def load_final split: command.split)
  moreover have "load ((sy_w s)\<lparr>sc_channel := rest\<rparr>) < load (sy_w s)"
    using final_drain(2) by (simp add: load_def queued_total_def)
  ultimately show ?case
    using final_drain by (auto simp: distance_def Let_def intro: le_less_trans)
qed (auto simp: distance_def Let_def split: step_plan.splits)

lemma worker_step_shutdown:
  assumes "worker_step be s s'" and "sc_shutdown (sy_w s)"
  shows "sc_shutdown (sy_w s')"
proof (cases "\<exists>f. sy_pc s = AtClosing f")
  case True
  have sd: "sc_shutdown (fold (\<lambda>_. release_slot) xs w) = sc_shutdown w" for xs and w :: "('a, 'b) sched"
    by (induction xs arbitrary: w) simp_all
  show ?thesis
    by (rule worker_step.cases [OF assms(1)]) (use True assms(2) in \<open>auto simp: close_channel_def sd\<close>)
next
  case False
  then show ?thesis
    using wiring_worker [OF assms(1)] assms(2) by (simp add: wiring_def)
qed

lemma worker_run_ends:
  assumes "reachable be config s" and "sc_shutdown (sy_w s)"
  shows "\<exists>n f. sy_pc (worker_run be n s) = AtStopped f"
  using assms
proof (induction s rule: wf_induct [OF wf_inv_image [of closer distance]])
  case 1
  show ?case by (simp add: wf_lex_prod)
next
  case (2 s)
  show ?case
  proof (cases "\<exists>f. sy_pc s = AtStopped f")
    case True
    then show ?thesis by (metis worker_run.simps(1))
  next
    case False
    then have nb: "\<not> blocked s"
      using not_blocked_after_shutdown [OF 2(2,3)] by simp
    let ?s = "worker_next be s"
    have step: "worker_step be s ?s" by (rule worker_next_step [OF nb])
    have "(?s, s) \<in> inv_image closer distance"
      using worker_step_closer [OF step slots_ok_reachable [OF 2(2)] 2(3)] by (simp add: inv_image_def)
    moreover have "reachable be config ?s"
      using reachable.step [OF 2(2)] step by (simp add: sys_step_def)
    ultimately obtain n f where "sy_pc (worker_run be n ?s) = AtStopped f"
      using 2(1) worker_step_shutdown [OF step 2(3)] by blast
    then have "sy_pc (worker_run be (Suc n) s) = AtStopped f"
      using nb by simp
    then show ?thesis by blast
  qed
qed

end
