(* ===== verification/RtProperties.thy ===== *)
theory RtProperties
  imports RtProgress
begin

text \<open>
  The properties of the runtime scheduler: what a client of the crate can rely on, for any
  backend, any number of clients and any interleaving with the worker.
\<close>

text \<open>What a reachable state satisfies, in the form the properties use.\<close>

lemma reachable_config: "reachable be config s \<Longrightarrow> sc_config (sy_w s) = config"
  using static_ok_reachable [of be config s] by (simp add: static_ok_def)

lemma reachable_parts:
  assumes "borrowing_backend (be_step_batch be)" and "reachable be config s"
  shows "slots_ok s" "work_ok s" "streams_ok s" "control_ok s" "retirement_ok s"
    "static_ok config s"
  using full_ok_reachable [OF assms] by (simp_all add: full_ok_def system_ok_def)

lemma reachable_buffers:
  assumes "borrowing_backend (be_step_batch be)" and "reachable be config s"
  shows "bufs (sy_w s) (outside s)"
  using reachable_parts(2) [OF assms] by (simp add: work_ok_def buffers_ok_def)

lemma reachable_stream:
  assumes "borrowing_backend (be_step_batch be)" and "reachable be config s"
    and "r < length (sc_shareds (sy_w s))"
  shows "request_stream (packet_frames config) (id_at (sy_w s) r) (sy_limit s r) (sy_log s r)
    (state_at (sy_w s) r)"
  using reachable_parts(3) [OF assms(1,2)] assms(3) reachable_config [OF assms(2)]
  by (simp add: streams_ok_def stream_at_def)

lemma handles_bound:
  "reachable be config s \<Longrightarrow> length (sc_handles (sy_w s)) = length (sc_shareds (sy_w s))"
  using static_ok_reachable [of be config s] by (simp add: static_ok_def)

section \<open>Admission\<close>

text \<open>C4: the slot pool counts the requests that hold a permit, wherever they are (being sent, in the
  command channel, pending, or active): never more than \<open>max_concurrent_requests\<close>, and no
  request twice.\<close>

theorem requests_bounded:
  assumes "reachable be config s"
  shows "sp_used (sc_slots (sy_w s)) = size (owners s) \<and>
    size (owners s) \<le> unat (max_concurrent_requests config) \<and> (\<forall>r. count (owners s) r \<le> 1)"
  using slots_ok_reachable [OF assms] static_ok_reachable [OF assms]
  by (simp add: slots_ok_def static_ok_def)

lemma requests_bounded_witness:
  "sp_used (sc_slots (sy_w silent_delivering)) = size (owners silent_delivering) \<and>
   size (owners silent_delivering) \<le> 1"
  using requests_bounded [OF silent_reachable(3)] by simp

section \<open>Buffers\<close>

text \<open>C3: PCM buffers are conserved: those free, queued, held by the client and in flight in the
  worker always add up to \<open>pcm_ring_slots\<close>, and every free one has the packet size.\<close>

theorem buffers_conserved:
  assumes "borrowing_backend (be_step_batch be)" and "reachable be config s"
    and "r < length (sc_shareds (sy_w s))"
  shows "length (free_at (sy_w s) r) + length (st_packets (state_at (sy_w s) r)) +
      length (held_of s r) + length (flight_of s r) = unat (pcm_ring_slots config) \<and>
    (\<forall>b \<in> set (free_at (sy_w s) r). length b = unat (packet_frames config) * 1920)"
proof -
  have size: "packet_size config = unat (packet_frames config) * 1920"
    by (simp add: packet_size_def SAMPLES_PER_CODEC_FRAME_def)
  show ?thesis
    using reachable_buffers [OF assms(1,2)] assms(3) reachable_config [OF assms(2)]
    by (simp add: bufs_def outside_def add.assoc size)
qed

lemma buffers_conserved_witness:
  "length (free_at (sy_w silent_polled) 0) + length (st_packets (state_at (sy_w silent_polled) 0)) +
     length (held_of silent_polled 0) + length (flight_of silent_polled 0) = 1"
  using buffers_conserved [OF silent.borrowing_backend_axioms silent_reachable(4), of 0]
  by (simp add: silent_polled_facts)

section \<open>The audio stream\<close>

text \<open>C1: the packets a client has polled from a request are always a prefix of one well-formed
  stream: sequence numbers, frame positions and sample positions contiguous from zero, every
  descriptor valid, nothing behind a final packet, and never more than the
  \<open>max_codec_frames\<close> the request was started with.\<close>

theorem delivered_stream:
  assumes "borrowing_backend (be_step_batch be)" and "reachable be config s"
    and "r < length (sc_shareds (sy_w s))"
  shows "stream_end (packet_frames config) (id_at (sy_w s) r) (0, 0, 0) (descriptors (sy_log s r)) \<noteq> None \<and>
    total_frames (descriptors (sy_log s r)) \<le> unat (sy_limit s r)"
proof -
  let ?q = "st_packets (state_at (sy_w s) r)"
  have "stream_end (packet_frames config) (id_at (sy_w s) r) (0, 0, 0)
      (descriptors (sy_log s r) @ descriptors ?q) \<noteq> None"
    "total_frames (descriptors (sy_log s r)) + total_frames (descriptors ?q) \<le> unat (sy_limit s r)"
    using reachable_stream [OF assms] by (simp_all add: request_stream_def Let_def)
  then show ?thesis
    using stream_end_prefix [of "packet_frames config" "id_at (sy_w s) r" "(0, 0, 0)"] by fastforce
qed

lemma delivered_stream_witness:
  "stream_end 1 (id_at (sy_w silent_polled) 0) (0, 0, 0) (descriptors (sy_log silent_polled 0)) \<noteq> None"
  using delivered_stream [OF silent.borrowing_backend_axioms silent_reachable(4), of 0]
  by (simp add: silent_polled_facts)

text \<open>C2: a poll reports the end of the stream only after the whole stream has been polled: the last
  packet was the only final one, and the reason reported is that packet's.\<close>

theorem end_of_stream_complete:
  assumes "borrowing_backend (be_step_batch be)" and "reachable be config s"
    and "r < length (sc_shareds (sy_w s))"
    and "poll_iteration r timeout deadline now (sy_w s) = (Some (Ok (PollEndOfStream reason)), w')"
  shows "sy_log s r \<noteq> [] \<and> pd_is_final (op_descriptor (last (sy_log s r))) \<noteq> 0 \<and>
    open_stream (butlast (descriptors (sy_log s r))) \<and>
    reason = op_finish_reason (last (sy_log s r)) \<and> finish_is_terminal reason"
proof -
  let ?st = "state_at (sy_w s) r"
  have p: "\<not> dead ?st" "st_packets ?st = []" "st_producer_finished ?st" "reason = st_finish_reason ?st"
    using assms(4) by (auto simp: poll_iteration_def dead_def Let_def
        split: option.splits list.splits if_splits)
  then show ?thesis
    using reachable_stream [OF assms(1-3)]
      stream_end_butlast_open [of "packet_frames config" "id_at (sy_w s) r" "(0, 0, 0)" "descriptors (sy_log s r)"]
    by (auto simp: request_stream_def Let_def)
qed

lemma end_of_stream_complete_witness:
  "sy_log silent_polled 0 \<noteq> [] \<and> op_finish_reason (last (sy_log silent_polled 0)) = CodecEos"
  using end_of_stream_complete [OF silent.borrowing_backend_axioms silent_reachable(4) _ silent_polled_facts(4)]
  by (simp add: silent_polled_facts)

text \<open>C8: after a cancellation or a failure no packet is left for the client: the queue is empty and
  every poll returns an error.\<close>

theorem no_packet_after_end:
  assumes "borrowing_backend (be_step_batch be)" and "reachable be config s"
    and "r < length (sc_shareds (sy_w s))"
    and "st_cancel_requested (state_at (sy_w s) r) \<or> st_failure (state_at (sy_w s) r) \<noteq> None"
  shows "st_packets (state_at (sy_w s) r) = [] \<and>
    (\<exists>e. poll_iteration r timeout deadline now (sy_w s) = (Some (Err e), sy_w s))"
  using reachable_stream [OF assms(1-3)] assms(4)
  by (auto simp: request_stream_def Let_def dead_def poll_iteration_def split: option.split)

lemma no_packet_after_end_witness:
  "st_packets (state_at (snd (cancel_mark 0 (sy_w silent_started))) 0) = []"
proof -
  let ?w = "snd (cancel_mark 0 (sy_w silent_started))"
  have m: "cancel_mark 0 (sy_w silent_started) = (True, ?w)" "length (sc_shareds ?w) = 1"
    "st_cancel_requested (state_at ?w 0)" "rh_live (sc_handles (sy_w silent_started) ! 0)"
    "length (sc_handles (sy_w silent_started)) = 1"
    by (simp_all add: silent_started_def start_eval cancel_mark_def Let_def state_at_def shared_at_def
        phase_is_terminal_def upd_state_def upd_shared_def)
  have "reachable silent_backend silent_config (silent_started\<lparr>sy_w := ?w,
      sy_cancelling := 0 # sy_cancelling silent_started\<rparr>)"
    using client_step.cancel [OF _ m(4,1)] m(5) reachable.step [OF silent_reachable(2)]
    by (auto simp: sys_step_def)
  from no_packet_after_end [OF silent.borrowing_backend_axioms this, of 0] show ?thesis
    using m(2,3) by simp
qed

section \<open>The worker\<close>

text \<open>C10: when the worker selects a request for a packet step, the session and a free PCM buffer are
  there, so both internal error branches are dead: no request's state changes.\<close>

theorem selection_never_fails:
  assumes "borrowing_backend (be_step_batch be)" and "reachable be config s"
    and "sy_pc s = AtSelect (i # idxs) selected"
    and "select_one i (selected, sy_w s) = (selected', w')"
  shows "state_at w' = state_at (sy_w s) \<and> length selected' = Suc (length selected)"
proof -
  have ok: "work_ok s" "slots_ok s" using reachable_parts [OF assms(1,2)] by auto
  have i: "i < length (sc_active (sy_w s))" "ar_session (sc_active (sy_w s) ! i) \<noteq> None"
    using ok(1) assms(3) by (auto simp: work_ok_def sessions_ok_def Let_def)
  have free: "free_at (sy_w s) (active_ref (sy_w s) i) \<noteq> []"
    using ok(1) assms(3) by (simp add: work_ok_def buffers_ok_def)
  obtain x where "ar_session (sc_active (sy_w s) ! i) = Some x" using i(2) by auto
  from select_one_ok [OF assms(4) this free active_ref_bound [OF ok(2) i(1)]]
  show ?thesis by (metis length_append_singleton)
qed

lemma selection_never_fails_witness:
  "\<exists>s i idxs selected. sy_pc (s :: (unit, unit) sys) = AtSelect (i # idxs) selected \<and>
     state_at (snd (select_one i (selected, sy_w s))) = state_at (sy_w s)"
proof -
  let ?s = "worker_run silent_backend 15 silent_started"
  have r: "reachable silent_backend silent_config ?s"
    by (rule worker_run_reachable [OF silent_reachable(2)])
  have pc: "sy_pc ?s = AtSelect [0] []"
    by (simp add: silent_started_def start_eval run_eval)
  show ?thesis
    using selection_never_fails [OF silent.borrowing_backend_axioms r pc] pc
    by (metis prod.collapse)
qed

text \<open>A request whose packet is being delivered has room for it, unless it was cancelled.\<close>

lemma item_has_room:
  assumes "work_ok s" "slots_ok s" "streams_ok s" and "sy_pc s = AtDeliver (((i, x, buffer), result) # items)"
  defines "r \<equiv> active_ref (sy_w s) i"
  shows "length (st_packets (state_at (sy_w s) r)) < st_packet_capacity (state_at (sy_w s) r)"
    and "producing (state_at (sy_w s) r)"
proof -
  have pi: "pc_items (sy_pc s) = (i, x, buffer) # map fst items"
    by (simp add: assms(4))
  note w = work_ok_item [OF assms(1,2) pi]
  show "length (st_packets (state_at (sy_w s) r)) < st_packet_capacity (state_at (sy_w s) r)"
  proof -
    have "0 < outside s r" using w(6) unfolding r_def by linarith
    moreover have "length (free_at (sy_w s) r) + length (st_packets (state_at (sy_w s) r)) + outside s r =
        st_packet_capacity (state_at (sy_w s) r)"
      using w(2,3) by (simp add: r_def bufs_def)
    ultimately show ?thesis by linarith
  qed
  have "r \<in> live_refs s"
    using w(1) by (auto simp: r_def live_refs_def assms(4))
  then show "producing (state_at (sy_w s) r)"
    using assms(3) by (simp add: streams_ok_def)
qed

lemma validated_descriptor:
  assumes "validate_backend_packet packet frames buffer = Ok ()"
  shows "descriptor_validate (packet_descriptor rcd packet us) frames = Ok ()"
proof -
  have "bp_codec_frames packet \<noteq> 0" "bp_codec_frames packet \<le> frames"
    using assms by (auto simp: validate_backend_packet_def not_less split: if_splits)
  then show ?thesis
    by (simp add: descriptor_validate_Ok_iff packet_descriptor_def word_neq_0_conv)
qed

lemma deliver_packet_total:
  assumes "rec_phase rcd = Generating" and "validate_backend_packet packet frames buffer = Ok ()"
    and "saturating_add (next_codec_frame rcd) (ucast (bp_codec_frames packet)) < (ucast limit :: u64) \<or>
      saturating_add (next_codec_frame rcd) (ucast (bp_codec_frames packet)) = ucast limit \<and> bp_is_final packet"
  shows "\<exists>rcd' owned. deliver_packet rcd limit packet frames buffer step_us elapsed r = Ok (rcd', owned) \<and>
    op_descriptor owned = packet_descriptor rcd packet step_us \<and> op_pcm owned = Some buffer \<and> op_recycler owned = r"
proof -
  let ?d = "packet_descriptor rcd packet step_us"
  have "next_position rcd ?d"
    by (simp add: next_position_def packet_descriptor_def)
  then have "fst (record_packet rcd ?d frames) = Ok ()"
    using assms(1) validated_descriptor [OF assms(2)] by (simp add: record_packet_Ok_iff)
  then show ?thesis
    using assms(2,3) by (auto simp: deliver_packet_def Let_def not_less split: prod.splits sum.splits)
qed

text \<open>C9: a packet that keeps the backend contract (\<open>validate_backend_packet\<close> and the frame limit)
  is always accepted: neither the packet bookkeeping nor the queue can refuse it. The request
  does not fail, and the packet is queued behind the earlier ones (unless the client cancelled).\<close>

theorem delivery_never_refused:
  assumes "borrowing_backend (be_step_batch be)" and "reachable be config s"
    and "sy_pc s = AtDeliver (((i, x, buffer), Ok packet) # items)"
    and "a = sc_active (sy_w s) ! i"
    and "\<not> st_cancel_requested (state_at (sy_w s) (ar_shared a))"
    and "validate_backend_packet packet (packet_frames config) buffer = Ok ()"
    and "n = saturating_add (next_codec_frame (ar_record a)) (ucast (bp_codec_frames packet))"
    and "n < ucast (ar_max_codec_frames a) \<or> n = ucast (ar_max_codec_frames a) \<and> bp_is_final packet"
    and "w' = deliver_result (packet_frames config) step_us now ((i, x, buffer), Ok packet) (sy_w s)"
  shows "st_failure (state_at w' (ar_shared a)) = None \<and>
    descriptors (st_packets (state_at w' (ar_shared a))) =
      descriptors (st_packets (state_at (sy_w s) (ar_shared a))) @ [packet_descriptor (ar_record a) packet step_us]"
proof -
  let ?r = "active_ref (sy_w s) i"
  let ?w1 = "set_session i (Some x) (sy_w s)"
  have ok: "work_ok s" "slots_ok s" "streams_ok s" using reachable_parts [OF assms(1,2)] by auto
  have r: "ar_shared a = ?r" by (simp add: assms(4) active_ref_def)
  have pi: "pc_items (sy_pc s) = (i, x, buffer) # map fst items" by (simp add: assms(3))
  note w = work_ok_item [OF ok(1,2) pi]
  note room = item_has_room [OF ok assms(3)]
  have a1: "ar_shared (sc_active ?w1 ! i) = ?r" "ar_record (sc_active ?w1 ! i) = ar_record a"
    "ar_max_codec_frames (sc_active ?w1 ! i) = ar_max_codec_frames a"
    using w(1) by (simp_all add: set_session_def active_ref_def assms(4))
  have live: "\<not> dead (state_at (sy_w s) ?r)" "\<not> st_producer_finished (state_at (sy_w s) ?r)"
    "st_failure (state_at (sy_w s) ?r) = None"
    using room(2) assms(5) by (auto simp: producing_def dead_def r)
  have "link_at s a"
    using ok(3) w(1) by (simp add: streams_ok_def assms(4))
  then have gen: "rec_phase (ar_record a) = Generating"
    using live by (simp add: link_at_def record_link_def Let_def r)
  obtain rcd' owned where d: "deliver_packet (ar_record a) (ar_max_codec_frames a) packet (packet_frames config)
      buffer step_us (duration_microseconds (now - ar_started_at (sc_active ?w1 ! i))) ?r = Ok (rcd', owned)"
    and owned: "op_descriptor owned = packet_descriptor (ar_record a) packet step_us"
    using deliver_packet_total [OF gen assms(6)] assms(7,8) by metis
  let ?w2 = "set_record i rcd' ?w1"
  have st2: "state_at ?w2 = state_at (sy_w s)"
    by (simp add: fun_eq_iff set_record_def set_session_def state_at_def shared_at_def)
  have "w' = upd_state ?r (pushed_state owned (rec_metrics rcd')) ?w2"
    using room(1) live assms(5)
    by (simp add: assms(9) deliver_result_def Let_def a1 d push_packet_def st2 r)
  then have "state_at w' ?r = pushed_state owned (rec_metrics rcd') (state_at (sy_w s) ?r)"
    using w(2) by (simp add: st2)
  then show ?thesis
    using live(3) by (simp add: r pushed_state_def Let_def owned)
qed

lemma delivery_never_refused_witness:
  "st_failure (state_at (deliver_result 1 (FFin 0) 0 ((0, (), replicate 1920 0), silent_result)
     (sy_w silent_delivering)) 0) = None"
proof -
  note pc = silent_delivering_pc [unfolded silent_result_def]
  have a: "ar_shared (sc_active (sy_w silent_delivering) ! 0) = 0"
    "\<not> st_cancel_requested (state_at (sy_w silent_delivering) 0)"
    "next_codec_frame (ar_record (sc_active (sy_w silent_delivering) ! 0)) = 0"
    "ar_max_codec_frames (sc_active (sy_w silent_delivering) ! 0) = 8"
    by (simp_all add: silent_delivering_def silent_started_def start_eval run_eval)
  show ?thesis
    using delivery_never_refused [OF silent.borrowing_backend_axioms silent_reachable(3) pc refl _ _ refl _ refl,
        of "FFin 0" 0] a
    by (simp add: silent_result_def validate_backend_packet_def SAMPLES_PER_CODEC_FRAME_def
        finish_is_terminal_def saturating_add_def)
qed

section \<open>Ending\<close>

text \<open>C6: once the worker has stopped after a shutdown, nothing is left behind: no request holds a
  slot, every slot is free, and every request a client can still ask about has retired and has
  finished, been cancelled or failed.\<close>

theorem shutdown_leaves_nothing:
  assumes "borrowing_backend (be_step_batch be)" and "reachable be config s"
    and "sy_pc s = AtStopped None"
  shows "owners s = {#} \<and> sp_used (sc_slots (sy_w s)) = 0 \<and>
    (\<forall>r < length (sc_handles (sy_w s)). rh_live (sc_handles (sy_w s) ! r) \<longrightarrow>
       st_retired (state_at (sy_w s) r) \<and> settled (state_at (sy_w s) r))"
proof -
  note ok = reachable_parts [OF assms(1,2)]
  have empty: "owners s = {#}"
    using ok(4) assms(3) by (simp add: control_ok_def owners_def)
  then show ?thesis
    using ok(1,5) handles_bound [OF assms(2)] assms(3)
    by (simp add: slots_ok_def retirement_ok_def abandoned_def)
qed

lemma shutdown_leaves_nothing_witness:
  "owners silent_stopped = {#} \<and> st_retired (state_at (sy_w silent_stopped) 0)"
  using shutdown_leaves_nothing [OF silent.borrowing_backend_axioms silent_reachable(5) silent_stopped_facts(1)]
    silent_stopped_facts handles_bound [OF silent_reachable(5)]
  by simp

text \<open>C5: dropping the scheduler always ends the worker: from any reachable state with \<open>shutdown\<close>
  set, the worker is never blocked before it has stopped, and it stops after finitely many of its
  own steps, whatever the backend does.\<close>

theorem shutdown_terminates:
  assumes "reachable be config s" and "sc_shutdown (sy_w s)"
  shows "(\<exists>n f. sy_pc (worker_run be n s) = AtStopped f) \<and>
    ((\<exists>f. sy_pc s = AtStopped f) \<or> (\<exists>s'. worker_step be s s'))"
  using worker_run_ends [OF assms] not_blocked_after_shutdown [OF assms] worker_next_step by blast

lemma shutdown_terminates_witness:
  "\<exists>n f. sy_pc (worker_run silent_backend n (client_shutdown silent_polled)) = AtStopped f"
proof -
  have "sc_shutdown (sy_w (client_shutdown silent_polled))"
    by (simp add: silent_polled_def silent_delivering_def silent_started_def start_eval run_eval
        deliver_eval stop_eval)
  then show ?thesis
    using shutdown_terminates [OF client_shutdown_reachable [OF silent_reachable(4)]] by simp
qed

section \<open>Removal of requests\<close>

lemma state_at_drop [simp]:
  "st_cancel_requested (state_at (fold drop_packet ps w) r) = st_cancel_requested (state_at w r)"
proof (induction ps arbitrary: w)
  case (Cons p ps)
  have "state_at (recycle_pcm q b w) r = state_at w r" for q b
    by (cases "q < length (sc_shareds w)")
      (simp_all add: recycle_pcm_def state_at_def shared_at_def upd_shared_def nth_list_update not_less list_update_beyond)
  then have "state_at (drop_packet p w) r = state_at w r"
    by (simp add: drop_packet_def split: option.split)
  then show ?case by (simp add: Cons.IH)
qed simp

lemma remove_loop_exact:
  assumes "\<And>w a b. gone w a \<Longrightarrow> b \<in> S \<Longrightarrow> gone (finish a w) b = gone w b"
    and "set active \<subseteq> S" and "i \<le> length active"
  shows "mset (fst (remove_loop gone finish i active w)) =
    mset (take i active) + filter_mset (\<lambda>a. \<not> gone w a) (mset (drop i active))"
  using assms
proof (induction gone finish i active w rule: remove_loop.induct)
  case (1 gone finish i active w)
  show ?case
  proof (cases "i < length active")
    case i: True
    let ?a = "active ! i"
    let ?rest = "swap_remove i active"
    have a: "?a \<in> S" using i 1(4) by auto
    have drop: "drop i active = ?a # drop (Suc i) active" by (simp add: Cons_nth_drop_Suc i)
    show ?thesis
    proof (cases "gone w ?a")
      case True
      have take: "take i ?rest = take i active"
        using i by (intro nth_equalityI) (auto simp: nth_swap_remove)
      have "mset (take i ?rest) + mset (drop i ?rest) + {#?a#} = mset (take i active) + mset (drop i active)"
        using mset_nth_swap_remove [OF i] by (metis add_mset_add_single append_take_drop_id mset_append)
      then have rest: "mset (drop i ?rest) = mset (drop (Suc i) active)"
        by (simp add: take drop)
      have sub: "set ?rest \<subseteq> S" using 1(4) swap_remove_subset [OF i] by blast
      have "mset (fst (remove_loop gone finish i ?rest (finish ?a w))) =
          mset (take i ?rest) + filter_mset (\<lambda>b. \<not> gone (finish ?a w) b) (mset (drop i ?rest))"
        using 1(1) [OF i True 1(3) sub] i by simp
      also have "filter_mset (\<lambda>b. \<not> gone (finish ?a w) b) (mset (drop i ?rest)) =
          filter_mset (\<lambda>b. \<not> gone w b) (mset (drop i ?rest))"
        using 1(3) [OF True] sub by (intro filter_mset_cong) (auto dest: in_set_dropD)
      finally show ?thesis
        by (subst remove_loop.simps) (simp add: i True take rest drop)
    next
      case False
      have "mset (fst (remove_loop gone finish (Suc i) active w)) =
          mset (take (Suc i) active) + filter_mset (\<lambda>b. \<not> gone w b) (mset (drop (Suc i) active))"
        using 1(2) [OF i False 1(3,4)] i by simp
      then show ?thesis
        by (subst remove_loop.simps) (simp add: i False drop take_Suc_conv_app_nth)
    qed
  next
    case False
    then show ?thesis using 1(5) by (subst remove_loop.simps) simp
  qed
qed

lemma remove_cancelled_one_cancel:
  assumes "is_cancel_requested w (ar_shared a)"
  shows "is_cancel_requested (remove_cancelled_one be a w) r = is_cancel_requested w r"
proof -
  have "st_cancel_requested (state_at (upd_state q f v) r) = st_cancel_requested (state_at v r)"
    if "st_cancel_requested (f (state_at v q)) = st_cancel_requested (state_at v q)"
    for q f and v :: "('a, 'b) sched"
    using that by (cases "q < length (sc_shareds v)")
      (auto simp: upd_state_def state_at_def shared_at_def upd_shared_def nth_list_update not_less list_update_beyond)
  then show ?thesis
    using assms by (simp add: is_cancel_requested_def remove_cancelled_one_def retire_active_def
        mark_retired_def mark_cancelled_def)
qed

text \<open>\<open>remove_cancelled\<close>, with its index loop over \<open>swap_remove\<close>, removes exactly the active
  requests whose cancellation was requested when it started: it skips none and takes no other.\<close>

theorem remove_cancelled_exact:
  "mset (sc_active (remove_cancelled be w)) =
     filter_mset (\<lambda>a. \<not> is_cancel_requested w (ar_shared a)) (mset (sc_active w))"
proof -
  let ?gone = "\<lambda>w a. is_cancel_requested w (ar_shared a)"
  have "mset (fst (remove_loop ?gone (remove_cancelled_one be) 0 (sc_active w) w)) =
      filter_mset (\<lambda>a. \<not> ?gone w a) (mset (sc_active w))"
    by (subst remove_loop_exact [where S = UNIV]) (auto simp: remove_cancelled_one_cancel)
  then show ?thesis
    by (simp add: remove_cancelled_def case_prod_beta)
qed

section \<open>Data of the request\<close>

text \<open>Whatever sequence of phase changes is attempted on a request record, its phase never goes
  back, and a terminal phase (completed, cancelled, failed) is final.\<close>

theorem phases_monotone:
  "rec_phase r \<le> rec_phase (transitions r ps) \<and>
   (phase_is_terminal (rec_phase (transitions r ps)) \<longrightarrow> transitions r (ps @ qs) = transitions r ps)"
  by (simp add: transitions_mono transitions_append transitions_terminal)

lemma phases_monotone_witness:
  "transitions (request_record_new 7) ([Prefilling, Cancelled] @ [Generating, Completed]) =
     transitions (request_record_new 7) [Prefilling, Cancelled]"
proof -
  have "phase_is_terminal (rec_phase (transitions (request_record_new 7) [Prefilling, Cancelled]))"
    by (simp add: request_record_new_def transition_def transition_allowed_def phase_is_terminal_def)
  then show ?thesis using phases_monotone by blast
qed

text \<open>The packet queue is a bounded first-in first-out queue: of the values pushed into a new
  queue it keeps exactly the first \<open>capacity\<close>, and pops return those in the order pushed.\<close>

theorem packet_queue_order:
  assumes "packet_queue_new capacity = Some q"
    and "q' = fold (\<lambda>x q. snd (packet_queue_push x q)) xs q"
    and "i < length xs"
  shows "fst (packet_queue_pop (((\<lambda>q. snd (packet_queue_pop q)) ^^ i) q')) =
    (if i < capacity then Some (xs ! i) else None)"
proof -
  have q: "pq_values q = []" "pq_capacity q = capacity"
    using assms(1) by (auto simp: packet_queue_new_def split: if_splits)
  have c: "pq_values q' = take capacity xs"
    using pq.push_all_contents [of q xs] q by (simp add: assms(2))
  have "drop i (take capacity xs) = (if i < capacity then xs ! i # drop (Suc i) (take capacity xs) else [])"
    using assms(3) Cons_nth_drop_Suc [of i "take capacity xs"] by auto
  then show ?thesis
    by (simp add: pq.pop_head pq.pops_contents c)
qed

lemma packet_queue_order_witness:
  "\<exists>q. packet_queue_new 2 = Some q \<and> fst (packet_queue_pop (((\<lambda>q. snd (packet_queue_pop q)) ^^ 1)
     (fold (\<lambda>x q. snd (packet_queue_push x q)) [10, 20, 30 :: nat] q))) = Some 20"
  using packet_queue_order [of 2 _ _ "[10, 20, 30 :: nat]" 1, OF _ refl]
  by (simp add: packet_queue_new_def)

text \<open>\<open>Scheduler::new\<close> accepts exactly the configurations within the documented bounds, and then
  sets up \<open>max_concurrent_requests\<close> free slots and a command channel of four commands a slot
  and eight more; the overflow check on that capacity never fires.\<close>

theorem scheduler_new_accepts:
  "(\<exists>w :: ('b, 's) sched. scheduler_new config b None = Ok w \<and> sp_used (sc_slots w) = 0 \<and>
      sp_capacity (sc_slots w) = unat (max_concurrent_requests config) \<and>
      sc_channel_capacity w = 4 * unat (max_concurrent_requests config) + 8) \<longleftrightarrow> config_ok config"
proof
  assume "\<exists>w :: ('b, 's) sched. scheduler_new config b None = Ok w \<and> sp_used (sc_slots w) = 0 \<and>
      sp_capacity (sc_slots w) = unat (max_concurrent_requests config) \<and>
      sc_channel_capacity w = 4 * unat (max_concurrent_requests config) + 8"
  then obtain w :: "('b, 's) sched" where "scheduler_new config b None = Ok w" by blast
  then show "config_ok config" by (rule scheduler_new_shape(1))
next
  assume "config_ok config"
  then have "\<exists>w :: ('b, 's) sched. scheduler_new config b None = Ok w \<and>
      sc_channel_capacity w = 4 * unat (max_concurrent_requests config) + 8 \<and>
      sp_capacity (sc_slots w) = unat (max_concurrent_requests config) \<and> sp_used (sc_slots w) = 0"
    by (rule scheduler_new_total)
  then obtain w :: "('b, 's) sched" where "scheduler_new config b None = Ok w"
    "sc_channel_capacity w = 4 * unat (max_concurrent_requests config) + 8"
    "sp_capacity (sc_slots w) = unat (max_concurrent_requests config)" "sp_used (sc_slots w) = 0"
    by (elim exE conjE) (rule that)
  then show "\<exists>w :: ('b, 's) sched. scheduler_new config b None = Ok w \<and>
      sp_used (sc_slots w) = 0 \<and> sp_capacity (sc_slots w) = unat (max_concurrent_requests config) \<and>
      sc_channel_capacity w = 4 * unat (max_concurrent_requests config) + 8"
    by (intro exI [of _ w]) simp
qed

end
