(* ===== verification/RtFfi.thy ===== *)
theory RtFfi
  imports RtProperties
begin

text \<open>
  The C interface of the runtime: \<open>ffi_support.rs\<close> (copying in what C callers pass, the error
  buffer) and \<open>ffi.rs\<close> (the exported calls). The caller's memory is a typed heap at byte
  addresses, address 0 being null. Engines and requests are boxes at addresses the allocator
  chooses; an engine's scheduler lives as long as its engine box or one of its request boxes.
\<close>

section \<open>Error messages\<close>

fun request_input_error_display :: "request_input_error \<Rightarrow> bytes" where
  "request_input_error_display EmptyText = ''text must not be empty''"
| "request_input_error_display (TextTooLarge actual maximum) =
     ''text is '' @ show_nat actual @ '' bytes; maximum is '' @ show_nat maximum"
| "request_input_error_display (InstructTooLarge actual maximum) =
     ''voice instruction is '' @ show_nat actual @ '' bytes; maximum is '' @ show_nat maximum"

fun scheduler_error_display :: "scheduler_error \<Rightarrow> bytes" where
  "scheduler_error_display (InvalidConfiguration m) = ''invalid scheduler configuration: '' @ m"
| "scheduler_error_display (InvalidGeneration m) = ''invalid generation configuration: '' @ m"
| "scheduler_error_display (InvalidInput e) =
     ''invalid request input: '' @ request_input_error_display e"
| "scheduler_error_display SchedFull = ''request capacity is full''"
| "scheduler_error_display SchedClosed = ''scheduler is closed''"
| "scheduler_error_display (SchedWorker m) = ''scheduler worker failed: '' @ m"

section \<open>The caller's memory\<close>

record request_input_v1 =
  rv_struct_size :: u32
  rv_language :: u32
  rv_text_utf8 :: nat
  rv_text_bytes :: nat
  rv_instruct_utf8 :: nat
  rv_instruct_bytes :: nat
  rv_generation :: generation_config

record c_heap =
  ch_byte :: "nat \<Rightarrow> byte"
  ch_i16 :: "nat \<Rightarrow> i16"
  ch_u32 :: "nat \<Rightarrow> u32"
  ch_pointer :: "nat \<Rightarrow> nat"
  ch_engine_config :: "nat \<Rightarrow> engine_config"
  ch_request_input :: "nat \<Rightarrow> request_input_v1"
  ch_packet :: "nat \<Rightarrow> audio_packet_descriptor"
  ch_metrics :: "nat \<Rightarrow> request_metrics"

definition read_bytes :: "c_heap \<Rightarrow> nat \<Rightarrow> nat \<Rightarrow> bytes" where
  "read_bytes h p n = map (\<lambda>i. ch_byte h (p + i)) [0..<n]"

definition write_bytes :: "nat \<Rightarrow> bytes \<Rightarrow> c_heap \<Rightarrow> c_heap" where
  "write_bytes p bs h = h\<lparr>ch_byte :=
     (\<lambda>a. if p \<le> a \<and> a < p + length bs then bs ! (a - p) else ch_byte h a)\<rparr>"

definition write_samples :: "nat \<Rightarrow> pcm \<Rightarrow> c_heap \<Rightarrow> c_heap" where
  "write_samples p xs h = h\<lparr>ch_i16 :=
     (\<lambda>a. if p \<le> a \<and> a < p + 2 * length xs \<and> even (a - p) then xs ! ((a - p) div 2) else ch_i16 h a)\<rparr>"

section \<open>\<open>ffi_support.rs\<close>\<close>

record ffi_error =
  fe_status :: runtime_status
  fe_message :: bytes

definition ffi_invalid_argument :: "bytes \<Rightarrow> ffi_error" where
  "ffi_invalid_argument m = \<lparr>fe_status = StatusInvalidArgument, fe_message = m\<rparr>"

text \<open>Alignment and size of the structures of ABI version 1.\<close>

definition sizeof_request_input_v1 :: nat where
  "sizeof_request_input_v1 = 2 * 4 + 4 * 8 + sizeof_generation_config"

definition misplaced :: "nat \<Rightarrow> nat \<Rightarrow> bool" where
  "misplaced p align \<longleftrightarrow> p = 0 \<or> \<not> align dvd p"

definition copy_versioned_struct ::
  "(nat \<Rightarrow> 'a) \<Rightarrow> ('a \<Rightarrow> u32) \<Rightarrow> nat \<Rightarrow> nat \<Rightarrow> bytes \<Rightarrow> ffi_error + 'a" where
  "copy_versioned_struct fetch struct_size n p pointer_message =
     (if misplaced p 8 then Err (ffi_invalid_argument pointer_message)
      else if struct_size (fetch p) \<noteq> of_nat n
      then Err (ffi_invalid_argument ''struct_size does not match ABI v1'')
      else Ok (fetch p))"

definition copy_utf8 :: "c_heap \<Rightarrow> nat \<Rightarrow> nat \<Rightarrow> bytes \<Rightarrow> ffi_error + bytes" where
  "copy_utf8 h p n field =
     (if isize_max < n then Err (ffi_invalid_argument ''UTF-8 input length is too large'')
      else if n = 0 then Ok []
      else if p = 0 then Err (ffi_invalid_argument
        (if field = ''text'' then ''text pointer is null for a non-empty input''
         else if field = ''instruction'' then ''instruction pointer is null for a non-empty input''
         else ''model root pointer is null for a non-empty input''))
      else if utf8_valid (read_bytes h p n) then Ok (read_bytes h p n)
      else Err \<lparr>fe_status = StatusInvalidUtf8, fe_message = ''input is not valid UTF-8''\<rparr>)"

definition copy_engine_config :: "c_heap \<Rightarrow> nat \<Rightarrow> ffi_error + engine_config" where
  "copy_engine_config h p =
     copy_versioned_struct (ch_engine_config h) ec_struct_size sizeof_engine_config p
       ''engine config pointer is null or misaligned''"

definition language_from_raw :: "u32 \<Rightarrow> ffi_error + language" where
  "language_from_raw value =
     (if value = 0 then Ok LangAuto else if value = 1 then Ok Chinese
      else if value = 2 then Ok English else if value = 3 then Ok Japanese
      else if value = 4 then Ok Korean else if value = 5 then Ok German
      else if value = 6 then Ok French else if value = 7 then Ok Russian
      else if value = 8 then Ok Portuguese else if value = 9 then Ok Spanish
      else if value = 10 then Ok Italian
      else Err \<lparr>fe_status = StatusUnsupportedLanguage,
        fe_message = ''language is not supported by Qwen3-TTS VoiceDesign''\<rparr>)"

definition copy_request_input ::
  "c_heap \<Rightarrow> nat \<Rightarrow> engine_config \<Rightarrow> ffi_error + request_input \<times> generation_config" where
  "copy_request_input h p config =
     and_then (copy_versioned_struct (ch_request_input h) rv_struct_size sizeof_request_input_v1 p
       ''request input pointer is null or misaligned'') (\<lambda>raw.
     if gc_struct_size (rv_generation raw) \<noteq> of_nat sizeof_generation_config
     then Err (ffi_invalid_argument ''generation struct_size does not match ABI v1'')
     else if unat (max_text_bytes config) < rv_text_bytes raw
     then Err (ffi_invalid_argument ''text exceeds configured byte limit'')
     else if unat (max_instruct_bytes config) < rv_instruct_bytes raw
     then Err (ffi_invalid_argument ''instruction exceeds configured byte limit'')
     else and_then (language_from_raw (rv_language raw)) (\<lambda>language.
     and_then (copy_utf8 h (rv_text_utf8 raw) (rv_text_bytes raw) ''text'') (\<lambda>text.
     if text = [] then Err (ffi_invalid_argument ''text must not be empty'')
     else and_then (copy_utf8 h (rv_instruct_utf8 raw) (rv_instruct_bytes raw) ''instruction'')
       (\<lambda>instruct.
     Ok (\<lparr>ri_text = text, ri_instruct = instruct, ri_language = language\<rparr>, rv_generation raw)))))"

definition copy_model_root :: "c_heap \<Rightarrow> nat \<Rightarrow> nat \<Rightarrow> ffi_error + bytes" where
  "copy_model_root h p n =
     (if unat MAX_TEXT_BYTES < n
      then Err (ffi_invalid_argument ''model root exceeds the supported byte limit'')
      else and_then (copy_utf8 h p n ''model root'') (\<lambda>root.
        if root = [] then Err (ffi_invalid_argument ''model root must not be empty'')
        else if char_of (0::nat) \<in> set root
        then Err (ffi_invalid_argument ''model root must not contain embedded NUL bytes'')
        else Ok root))"

definition clear_error_buffer :: "nat \<Rightarrow> nat \<Rightarrow> c_heap \<Rightarrow> bool \<times> c_heap" where
  "clear_error_buffer p capacity h =
     (if capacity = 0 then (p = 0, h)
      else if p = 0 then (False, h)
      else (True, write_bytes p [char_of (0::nat)] h))"

text \<open>The \<open>while !message.is_char_boundary(end)\<close> loop.\<close>

primrec boundary_below :: "bytes \<Rightarrow> nat \<Rightarrow> nat" where
  "boundary_below s 0 = 0"
| "boundary_below s (Suc e) = (if is_char_boundary s (Suc e) then Suc e else boundary_below s e)"

definition write_error_buffer :: "nat \<Rightarrow> nat \<Rightarrow> bytes \<Rightarrow> c_heap \<Rightarrow> c_heap" where
  "write_error_buffer p capacity message h =
     (if p = 0 \<or> capacity = 0 then h
      else (let e = boundary_below message (min (length message) (capacity - 1))
            in write_bytes (p + e) [char_of (0::nat)] (write_bytes p (take e message) h)))"

lemma boundary_below: "boundary_below s e \<le> e \<and> is_char_boundary s (boundary_below s e)"
  by (induction e) (auto simp: is_char_boundary_def)

lemma ch_byte_write [simp]:
  "ch_byte (write_bytes p bs h) a = (if p \<le> a \<and> a < p + length bs then bs ! (a - p) else ch_byte h a)"
  by (simp add: write_bytes_def)

lemma read_write_bytes:
  "read_bytes (write_bytes p bs h) p (length bs) = bs"
  by (rule nth_equalityI) (simp_all add: read_bytes_def write_bytes_def)

lemma language_roundtrip: "language_from_raw (language_code l) = Ok l"
  by (cases l) (simp_all add: language_from_raw_def)

lemma copy_utf8_Ok:
  "copy_utf8 h p n field = Ok s \<Longrightarrow> utf8_valid s \<and> length s = n"
  by (auto simp: copy_utf8_def read_bytes_def split: if_splits)


section \<open>Blocking calls of the request handle\<close>

text \<open>
  \<open>poll\<close> and \<open>wait_retired\<close> wait on the request's condition variable; what the other threads do
  during the \<open>n\<close>-th wait, and whether it timed out, is \<open>wait n\<close>. \<open>clock n\<close> is the time read
  before it. \<open>None\<close>: still waiting when the fuel is used up.
\<close>

record ('b, 's) waiting =
  wt_wait :: "nat \<Rightarrow> ('b, 's) sched \<Rightarrow> bool \<times> ('b, 's) sched"
  wt_clock :: "nat \<Rightarrow> instant"

fun handle_poll ::
  "('b, 's) waiting \<Rightarrow> nat \<Rightarrow> sref \<Rightarrow> duration \<Rightarrow> instant option \<Rightarrow> ('b, 's) sched \<Rightarrow>
     ((poll_error + poll_outcome) \<times> ('b, 's) sched) option" where
  "handle_poll env 0 r timeout deadline w = None"
| "handle_poll env (Suc n) r timeout deadline w =
     (case poll_iteration r timeout deadline (wt_clock env n) w of
        (Some res, w') \<Rightarrow> Some (res, w')
      | (None, w') \<Rightarrow>
          (case wt_wait env n w' of
             (timed_out, w'') \<Rightarrow>
               if timed_out then Some (Ok PollWouldBlock, w'')
               else handle_poll env n r timeout deadline w''))"

fun handle_wait_retired ::
  "('b, 's) waiting \<Rightarrow> nat \<Rightarrow> sref \<Rightarrow> instant option \<Rightarrow> bool \<Rightarrow> ('b, 's) sched \<Rightarrow>
     (bool \<times> ('b, 's) sched) option" where
  "handle_wait_retired env 0 r deadline timed_out w = None"
| "handle_wait_retired env (Suc n) r deadline timed_out w =
     (case wait_retired_once r deadline (wt_clock env n) timed_out w of
        Some res \<Rightarrow> Some (res, w)
      | None \<Rightarrow> (case wt_wait env n w of
          (timed_out', w') \<Rightarrow> handle_wait_retired env n r deadline timed_out' w'))"

definition cancel_and_wait ::
  "('b, 's) waiting \<Rightarrow> nat \<Rightarrow> sref \<Rightarrow> instant option \<Rightarrow> ('b, 's) sched \<Rightarrow>
     ((scheduler_error + bool) \<times> ('b, 's) sched) option" where
  "cancel_and_wait env fuel r deadline w =
     (case handle_cancel r w of
        (Inl e, w') \<Rightarrow> Some (Err e, w')
      | (Inr _, w') \<Rightarrow> map_option (\<lambda>(res, w''). (Ok res, w''))
          (handle_wait_retired env fuel r deadline False w'))"

section \<open>\<open>ffi.rs\<close>: engines and requests\<close>

record call_error =
  ce_status :: runtime_status
  ce_message :: bytes

definition call_invalid_argument :: "bytes \<Rightarrow> call_error" where
  "call_invalid_argument m = \<lparr>ce_status = StatusInvalidArgument, ce_message = m\<rparr>"

definition of_ffi_error :: "ffi_error \<Rightarrow> call_error" where
  "of_ffi_error e = \<lparr>ce_status = fe_status e, ce_message = fe_message e\<rparr>"

definition of_backend_error :: "backend_error \<Rightarrow> call_error" where
  "of_backend_error e = \<lparr>ce_status = be_status e, ce_message = be_message e\<rparr>"

definition map_scheduler_error :: "scheduler_error \<Rightarrow> call_error" where
  "map_scheduler_error e =
     \<lparr>ce_status = (case e of
        InvalidConfiguration _ \<Rightarrow> StatusInvalidArgument
      | InvalidGeneration _ \<Rightarrow> StatusInvalidArgument
      | InvalidInput _ \<Rightarrow> StatusInvalidArgument
      | SchedFull \<Rightarrow> StatusWouldBlock
      | SchedClosed \<Rightarrow> StatusState
      | SchedWorker _ \<Rightarrow> StatusInternal),
      ce_message = scheduler_error_display e\<rparr>"

text \<open>
  Boxes: \<open>fw_engines\<close> maps an engine's address to its core, \<open>fw_requests\<close> a request's address to
  its core and its handle. \<open>Stuck\<close> is a call that does not come back: it was given an address
  that is no live box, or it is still waiting.
\<close>

record ('b, 's) ffi_world =
  fw_heap :: c_heap
  fw_cores :: "(nat \<times> ('b, 's) sched) list"
  fw_engines :: "(nat \<times> nat) list"
  fw_requests :: "(nat \<times> nat \<times> sref) list"

datatype 'a ffi_outcome = Done 'a | Unwound | Stuck

type_synonym ('b, 's) ffi_op =
  "('b, 's) ffi_world \<Rightarrow> (call_error + runtime_status) ffi_outcome \<times> ('b, 's) ffi_world"

definition ffi_call :: "nat \<Rightarrow> nat \<Rightarrow> ('b, 's) ffi_op \<Rightarrow> ('b, 's) ffi_world \<Rightarrow>
    int option \<times> ('b, 's) ffi_world" where
  "ffi_call error capacity op x =
     (case clear_error_buffer error capacity (fw_heap x) of
        (False, h) \<Rightarrow> (Some (status_code StatusInvalidArgument), x\<lparr>fw_heap := h\<rparr>)
      | (True, h) \<Rightarrow>
          (case op (x\<lparr>fw_heap := h\<rparr>) of
             (Done (Inr status), y) \<Rightarrow> (Some (status_code status), y)
           | (Done (Inl e), y) \<Rightarrow> (Some (status_code (ce_status e)),
               y\<lparr>fw_heap := write_error_buffer error capacity (ce_message e) (fw_heap y)\<rparr>)
           | (Unwound, y) \<Rightarrow> (Some (status_code StatusInternal),
               y\<lparr>fw_heap := write_error_buffer error capacity ''runtime FFI call panicked'' (fw_heap y)\<rparr>)
           | (Stuck, y) \<Rightarrow> (None, y)))"

definition validate_const_pointer :: "nat \<Rightarrow> nat \<Rightarrow> bytes \<Rightarrow> call_error + unit" where
  "validate_const_pointer p align m =
     (if misplaced p align then Err (call_invalid_argument m) else Ok ())"

definition validate_pcm_output :: "nat \<Rightarrow> nat \<Rightarrow> call_error + unit" where
  "validate_pcm_output p capacity =
     (if capacity = 0 then Err (call_invalid_argument ''PCM output capacity must not be zero'')
      else validate_const_pointer p 2 ''PCM output pointer is null or misaligned'')"

definition prepare_handle_output :: "nat \<Rightarrow> bytes \<Rightarrow> c_heap \<Rightarrow> (call_error + unit) \<times> c_heap" where
  "prepare_handle_output p m h =
     (case validate_const_pointer p 8 m of
        Inl e \<Rightarrow> (Err e, h)
      | Inr _ \<Rightarrow> (Ok (), h\<lparr>ch_pointer := (ch_pointer h)(p := 0)\<rparr>))"

definition default_descriptor :: audio_packet_descriptor where
  "default_descriptor = \<lparr>pd_request_id = 0, pd_sequence = 0, first_codec_frame = 0, first_sample = 0,
     pd_codec_frames = 0, sample_count = 0, sample_rate = 0, pd_channels = 0, pd_is_final = 0,
     pd_reserved = 0, pd_talker_gpu_microseconds = FFin 0, pd_codec_gpu_microseconds = FFin 0,
     end_to_end_microseconds = FFin 0\<rparr>"

text \<open>The core of a scheduler no box refers to any more is dropped, which stops its worker.\<close>

definition core_at :: "nat \<Rightarrow> ('b, 's) ffi_world \<Rightarrow> ('b, 's) sched option" where
  "core_at c x = map_of (fw_cores x) c"

definition set_core :: "nat \<Rightarrow> ('b, 's) sched \<Rightarrow> ('b, 's) ffi_world \<Rightarrow> ('b, 's) ffi_world" where
  "set_core c w x = x\<lparr>fw_cores := map (\<lambda>(d, v). (d, if d = c then w else v)) (fw_cores x)\<rparr>"

definition core_referenced :: "nat \<Rightarrow> ('b, 's) ffi_world \<Rightarrow> bool" where
  "core_referenced c x \<longleftrightarrow> c \<in> snd ` set (fw_engines x) \<or> c \<in> (fst \<circ> snd) ` set (fw_requests x)"

definition release_core :: "nat \<Rightarrow> ('b, 's) ffi_world \<Rightarrow> ('b, 's) ffi_world" where
  "release_core c x =
     (if core_referenced c x then x
      else x\<lparr>fw_cores := map (\<lambda>(d, v). (d, if d = c then scheduler_drop v else v)) (fw_cores x)\<rparr>)"

section \<open>The exported calls\<close>

definition path_join :: "bytes \<Rightarrow> bytes \<Rightarrow> bytes" where
  "path_join dir name =
     (if dir = [] \<or> last dir = CHR ''/'' then dir @ name else dir @ ''/'' @ name)"

text \<open>\<open>env\<close> is the environment variable, \<open>runtime_dir\<close> what \<open>dladdr\<close> leads to.\<close>

definition component_library_directory :: "bytes option \<Rightarrow> bytes + bytes \<Rightarrow> call_error + bytes" where
  "component_library_directory env runtime_dir =
     (case env of
        Some dir \<Rightarrow> if dir = []
          then Err (call_invalid_argument ''QWEN3_TTS_LIBRARY_DIR must not be empty'') else Ok dir
      | None \<Rightarrow> map_err (\<lambda>m. \<lparr>ce_status = StatusModel, ce_message = m\<rparr>) runtime_dir)"

definition engine_create_v1 ::
  "(bytes \<Rightarrow> bytes \<Rightarrow> bytes \<Rightarrow> 32 word \<Rightarrow> backend_error + 'b) \<Rightarrow> bytes option \<Rightarrow> bytes + bytes \<Rightarrow>
     bytes option \<Rightarrow> nat \<Rightarrow> nat \<Rightarrow> nat \<Rightarrow> nat \<Rightarrow> nat \<Rightarrow> nat \<Rightarrow> ('b, 's) ffi_op" where
  "engine_create_v1 load_backend env runtime_dir spawn_error box core root_p root_n config_p output x =
     (case prepare_handle_output output ''engine output pointer is null or misaligned'' (fw_heap x) of
        (Inl e, h) \<Rightarrow> (Done (Err e), x\<lparr>fw_heap := h\<rparr>)
      | (Inr _, h) \<Rightarrow>
          (case
             and_then (map_err of_ffi_error (copy_model_root h root_p root_n)) (\<lambda>root.
             and_then (map_err of_ffi_error (copy_engine_config h config_p)) (\<lambda>config.
             and_then (component_library_directory env runtime_dir) (\<lambda>dir.
             and_then (map_err of_backend_error (load_backend (path_join dir ''libqwen3_tts_cuda.so'')
               (path_join dir ''libqwen3_tts_codec_cuda.so'') root (ec_device_index config))) (\<lambda>backend.
             map_err map_scheduler_error (scheduler_new config backend spawn_error)))))
           of Inl e \<Rightarrow> (Done (Err e), x\<lparr>fw_heap := h\<rparr>)
            | Inr w \<Rightarrow> (Done (Ok StatusOk),
                x\<lparr>fw_heap := h\<lparr>ch_pointer := (ch_pointer h)(output := box)\<rparr>,
                  fw_cores := (core, w) # fw_cores x, fw_engines := (box, core) # fw_engines x\<rparr>)))"

definition engine_destroy_v1 :: "nat \<Rightarrow> ('b, 's) ffi_op" where
  "engine_destroy_v1 engine x =
     (case validate_const_pointer engine 8 ''engine pointer is null or misaligned'' of
        Inl e \<Rightarrow> (Done (Err e), x)
      | Inr _ \<Rightarrow> (case map_of (fw_engines x) engine of
          None \<Rightarrow> (Stuck, x)
        | Some c \<Rightarrow> (Done (Ok StatusOk),
            release_core c (x\<lparr>fw_engines := filter (\<lambda>(p, _). p \<noteq> engine) (fw_engines x)\<rparr>))))"

definition request_start_v1 :: "instant \<Rightarrow> nat \<Rightarrow> nat \<Rightarrow> nat \<Rightarrow> nat \<Rightarrow> ('b, 's) ffi_op" where
  "request_start_v1 now box engine input output x =
     (case prepare_handle_output output ''request output pointer is null or misaligned'' (fw_heap x) of
        (Inl e, h) \<Rightarrow> (Done (Err e), x\<lparr>fw_heap := h\<rparr>)
      | (Inr _, h) \<Rightarrow> (let y = x\<lparr>fw_heap := h\<rparr> in
          case validate_const_pointer engine 8 ''engine pointer is null or misaligned'' of
            Inl e \<Rightarrow> (Done (Err e), y)
          | Inr _ \<Rightarrow> (case map_of (fw_engines y) engine of
              None \<Rightarrow> (Stuck, y)
            | Some c \<Rightarrow> (case core_at c y of
                None \<Rightarrow> (Stuck, y)
              | Some w \<Rightarrow> (case copy_request_input h input (sc_config w) of
                  Inl e \<Rightarrow> (Done (Err (of_ffi_error e)), y)
                | Inr (request, generation) \<Rightarrow>
                    (case scheduler_start request generation now w of
                       (Inl e, w') \<Rightarrow> (Done (Err (map_scheduler_error e)), set_core c w' y)
                     | (Inr r, w') \<Rightarrow> (Done (Ok StatusOk),
                         (set_core c w' y)\<lparr>fw_heap := h\<lparr>ch_pointer := (ch_pointer h)(output := box)\<rparr>,
                           fw_requests := (box, c, r) # fw_requests y\<rparr>)))))))"

text \<open>A request box, its core's scheduler and its handle.\<close>

definition request_at :: "nat \<Rightarrow> ('b, 's) ffi_world \<Rightarrow> (nat \<times> ('b, 's) sched \<times> sref) option" where
  "request_at p x =
     (case map_of (fw_requests x) p of
        None \<Rightarrow> None
      | Some (c, r) \<Rightarrow> (case core_at c x of None \<Rightarrow> None | Some w \<Rightarrow> Some (c, w, r)))"

definition poll_outcome_status :: "poll_error + poll_outcome \<Rightarrow> call_error + runtime_status" where
  "poll_outcome_status res =
     (case res of
        Inr (PollPacket p) \<Rightarrow> Ok StatusOk
      | Inr PollWouldBlock \<Rightarrow> Ok StatusWouldBlock
      | Inr (PollEndOfStream _) \<Rightarrow> Ok StatusEndOfStream
      | Inl PollCancelled \<Rightarrow>
          Err \<lparr>ce_status = StatusCancelled, ce_message = ''request was cancelled''\<rparr>
      | Inl (PollFailed e) \<Rightarrow> Err (of_backend_error e))"

text \<open>What a poll result writes to the caller; the packet is then dropped, which recycles its
  buffer.\<close>

definition deliver_poll ::
  "nat \<Rightarrow> nat \<Rightarrow> nat \<Rightarrow> poll_error + poll_outcome \<Rightarrow> ('b, 's) sched \<Rightarrow> ('b, 's) ffi_op" where
  "deliver_poll pcm_output packet c res w x =
     (case res of
        Inr (PollPacket p) \<Rightarrow>
          (case packet_pcm p of
             Panicked \<Rightarrow> (Unwound, set_core c (drop_packet p w) x)
           | Returned samples \<Rightarrow>
               (let h = write_samples pcm_output samples (fw_heap x)
                in (Done (Ok StatusOk), (set_core c (drop_packet p w) x)
                     \<lparr>fw_heap := h\<lparr>ch_packet := (ch_packet h)(packet := op_descriptor p)\<rparr>\<rparr>)))
      | _ \<Rightarrow> (Done (poll_outcome_status res), set_core c w x))"

definition request_poll_v1 ::
  "('b, 's) waiting \<Rightarrow> nat \<Rightarrow> instant \<Rightarrow> nat \<Rightarrow> u32 \<Rightarrow> nat \<Rightarrow> nat \<Rightarrow> nat \<Rightarrow> ('b, 's) ffi_op" where
  "request_poll_v1 env fuel now request timeout_ms pcm_output pcm_capacity packet x =
     (case validate_const_pointer request 8 ''request pointer is null or misaligned'' of
        Inl e \<Rightarrow> (Done (Err e), x)
      | Inr _ \<Rightarrow> (case request_at request x of
          None \<Rightarrow> (Stuck, x)
        | Some (c, w, r) \<Rightarrow>
          (case validate_const_pointer packet 8 ''packet output pointer is null or misaligned'' of
             Inl e \<Rightarrow> (Done (Err e), x)
           | Inr _ \<Rightarrow>
              (let h = (fw_heap x)\<lparr>ch_packet := (ch_packet (fw_heap x))(packet := default_descriptor)\<rparr>;
                   y = x\<lparr>fw_heap := h\<rparr>
               in case usize_checked_mul (unat (packet_frames (sc_config w))) (unat SAMPLES_PER_CODEC_FRAME) of
                    None \<Rightarrow> (Done (Err (call_invalid_argument ''configured PCM capacity overflowed'')), y)
                  | Some required \<Rightarrow>
                      if pcm_capacity < required
                      then (Done (Err (call_invalid_argument
                        ''PCM output capacity is smaller than the configured packet size'')), y)
                      else (case validate_pcm_output pcm_output pcm_capacity of
                        Inl e \<Rightarrow> (Done (Err e), y)
                      | Inr _ \<Rightarrow>
                          (let timeout = unat timeout_ms * 1000000 in
                           case handle_poll env fuel r timeout (Some (now + timeout)) w of
                             None \<Rightarrow> (Stuck, y)
                           | Some (res, w') \<Rightarrow> deliver_poll pcm_output packet c res w' y))))))"

definition request_cancel_v1 :: "nat \<Rightarrow> ('b, 's) ffi_op" where
  "request_cancel_v1 request x =
     (case validate_const_pointer request 8 ''request pointer is null or misaligned'' of
        Inl e \<Rightarrow> (Done (Err e), x)
      | Inr _ \<Rightarrow> (case request_at request x of
          None \<Rightarrow> (Stuck, x)
        | Some (c, w, r) \<Rightarrow> (case handle_cancel r w of
            (Inl e, w') \<Rightarrow> (Done (Err (map_scheduler_error e)), set_core c w' x)
          | (Inr _, w') \<Rightarrow> (Done (Ok StatusOk), set_core c w' x))))"

definition request_metrics_v1 :: "nat \<Rightarrow> nat \<Rightarrow> ('b, 's) ffi_op" where
  "request_metrics_v1 request output x =
     (case validate_const_pointer request 8 ''request pointer is null or misaligned'' of
        Inl e \<Rightarrow> (Done (Err e), x)
      | Inr _ \<Rightarrow> (case request_at request x of
          None \<Rightarrow> (Stuck, x)
        | Some (c, w, r) \<Rightarrow>
          (case validate_const_pointer output 8 ''metrics output pointer is null or misaligned'' of
             Inl e \<Rightarrow> (Done (Err e), x)
           | Inr _ \<Rightarrow> (Done (Ok StatusOk), x\<lparr>fw_heap := (fw_heap x)
               \<lparr>ch_metrics := (ch_metrics (fw_heap x))(output := handle_metrics w r)\<rparr>\<rparr>))))"

definition request_finish_reason_v1 :: "nat \<Rightarrow> nat \<Rightarrow> ('b, 's) ffi_op" where
  "request_finish_reason_v1 request output x =
     (case validate_const_pointer request 8 ''request pointer is null or misaligned'' of
        Inl e \<Rightarrow> (Done (Err e), x)
      | Inr _ \<Rightarrow> (case request_at request x of
          None \<Rightarrow> (Stuck, x)
        | Some (c, w, r) \<Rightarrow>
          (case validate_const_pointer output 4 ''finish reason output pointer is null or misaligned'' of
             Inl e \<Rightarrow> (Done (Err e), x)
           | Inr _ \<Rightarrow> (Done (Ok StatusOk), x\<lparr>fw_heap := (fw_heap x)
               \<lparr>ch_u32 := (ch_u32 (fw_heap x))(output := finish_code (handle_finish_reason w r))\<rparr>\<rparr>))))"

text \<open>The box is gone on every path once its address was accepted: also when the cancellation
  could not be sent, and when the request did not retire in time.\<close>

definition request_destroy_v1 :: "('b, 's) waiting \<Rightarrow> nat \<Rightarrow> instant \<Rightarrow> nat \<Rightarrow> ('b, 's) ffi_op" where
  "request_destroy_v1 env fuel now request x =
     (case validate_const_pointer request 8 ''request pointer is null or misaligned'' of
        Inl e \<Rightarrow> (Done (Err e), x)
      | Inr _ \<Rightarrow> (case request_at request x of
          None \<Rightarrow> (Stuck, x)
        | Some (c, w, r) \<Rightarrow>
          (case cancel_and_wait env fuel r (Some (now + 30 * 1000000000)) w of
             None \<Rightarrow> (Stuck, x)
           | Some (res, w') \<Rightarrow>
               (let y = release_core c ((set_core c (handle_drop r w') x)
                      \<lparr>fw_requests := filter (\<lambda>(p, _). p \<noteq> request) (fw_requests x)\<rparr>)
                in case res of
                     Inl e \<Rightarrow> (Done (Err (map_scheduler_error e)), y)
                   | Inr True \<Rightarrow> (Done (Ok StatusOk), y)
                   | Inr False \<Rightarrow> (Done (Err \<lparr>ce_status = StatusState,
                       ce_message = ''request cancellation did not retire within 30 seconds''\<rparr>), y)))))"

section \<open>Properties\<close>

text \<open>The error buffer of a C caller is never overrun: with a buffer of \<open>capacity\<close> bytes, a message
  is cut at a character boundary, ends in a NUL inside the buffer, is valid UTF-8 up to it, and
  no byte outside the buffer changes.\<close>

theorem write_error_buffer_bounded:
  assumes "p \<noteq> 0" and "capacity \<noteq> 0" and "utf8_valid message"
    and "h' = write_error_buffer p capacity message h"
  shows "\<exists>e < capacity. ch_byte h' (p + e) = char_of (0::nat) \<and> read_bytes h' p e = take e message \<and>
    utf8_valid (read_bytes h' p e) \<and>
    (\<forall>a. a < p \<or> p + capacity \<le> a \<longrightarrow> ch_byte h' a = ch_byte h a)"
proof -
  obtain e where e_def: "e = boundary_below message (min (length message) (capacity - 1))" by simp
  have e: "e \<le> length message" "e < capacity" "is_char_boundary message e"
    using boundary_below [of message "min (length message) (capacity - 1)"] assms(2) by (auto simp: e_def)
  have h': "h' = write_bytes (p + e) [char_of (0::nat)] (write_bytes p (take e message) h)"
    using assms(1,2,4) by (simp add: write_error_buffer_def Let_def e_def)
  have read: "read_bytes h' p e = take e message"
    by (rule nth_equalityI) (use e in \<open>auto simp: h' read_bytes_def\<close>)
  have "utf8_valid (take e message)"
    by (rule utf8_valid_take [OF assms(3) e(3)])
  moreover have "ch_byte h' (p + e) = char_of (0::nat)"
    "\<forall>a. a < p \<or> p + capacity \<le> a \<longrightarrow> ch_byte h' a = ch_byte h a"
    using e by (auto simp: h')
  ultimately show ?thesis
    using e read by (intro exI [of _ e]) simp
qed

lemma write_error_buffer_bounded_witness:
  "\<forall>h. \<exists>e < 5. ch_byte (write_error_buffer 64 5 ''failure'' h) (64 + e) = char_of (0::nat)"
proof
  fix h
  show "\<exists>e < 5. ch_byte (write_error_buffer 64 5 ''failure'' h) (64 + e) = char_of (0::nat)"
    using write_error_buffer_bounded [of 64 5 "''failure''" _ h, OF _ _ _ refl] utf8_valid_ascii [of "''failure''"]
    by (auto simp: bv_def)
qed

text \<open>A request that \<open>copy_request_input\<close> accepts from C is within the engine's limits, is valid UTF-8
  and has a supported language, so \<open>Scheduler::start\<close> cannot refuse it for its input; and the
  language read back is the one whose number the caller passed.\<close>

theorem copied_input_valid:
  assumes "copy_request_input h p config = Ok (input, generation)"
  shows "request_input_validate input config = Ok () \<and> utf8_valid (ri_text input) \<and>
    utf8_valid (ri_instruct input) \<and> gc_struct_size generation = 120 \<and>
    rv_language (ch_request_input h p) = language_code (ri_language input)"
proof -
  have lang: "language_from_raw v = Ok l \<Longrightarrow> v = language_code l" for v l
    by (auto simp: language_from_raw_def split: if_splits)
  obtain raw l t i where
    raw: "copy_versioned_struct (ch_request_input h) rv_struct_size sizeof_request_input_v1 p
        ''request input pointer is null or misaligned'' = Ok raw"
    and g: "gc_struct_size (rv_generation raw) = of_nat sizeof_generation_config"
      "rv_text_bytes raw \<le> unat (max_text_bytes config)"
      "rv_instruct_bytes raw \<le> unat (max_instruct_bytes config)"
    and l: "language_from_raw (rv_language raw) = Ok l"
    and t: "copy_utf8 h (rv_text_utf8 raw) (rv_text_bytes raw) ''text'' = Ok t" "t \<noteq> []"
    and i: "copy_utf8 h (rv_instruct_utf8 raw) (rv_instruct_bytes raw) ''instruction'' = Ok i"
    and out: "input = \<lparr>ri_text = t, ri_instruct = i, ri_language = l\<rparr>" "generation = rv_generation raw"
    using assms unfolding copy_request_input_def and_then_Ok_iff
    by (auto simp: and_then_Ok_iff not_less split: if_splits)
  have "raw = ch_request_input h p"
    using raw by (auto simp: copy_versioned_struct_def split: if_splits)
  then show ?thesis
    using copy_utf8_Ok [OF t(1)] copy_utf8_Ok [OF i] g t(2) lang [OF l]
    by (auto simp: out request_input_validate_Ok_iff sizeof_generation_config_def)
qed

definition example_heap :: c_heap where
  "example_heap = \<lparr>ch_byte = (\<lambda>_. CHR ''a''), ch_i16 = (\<lambda>_. 0), ch_u32 = (\<lambda>_. 0), ch_pointer = (\<lambda>_. 0),
     ch_engine_config = (\<lambda>_. silent_config), ch_request_input = (\<lambda>_. \<lparr>rv_struct_size = 160, rv_language = 5,
       rv_text_utf8 = 8, rv_text_bytes = 3, rv_instruct_utf8 = 0, rv_instruct_bytes = 0,
       rv_generation = silent_generation\<rparr>),
     ch_packet = (\<lambda>_. default_descriptor), ch_metrics = (\<lambda>_. default_metrics)\<rparr>"

lemma copied_input_valid_witness:
  "\<exists>input generation. copy_request_input example_heap 64 silent_config = Ok (input, generation) \<and>
     request_input_validate input silent_config = Ok () \<and> ri_language input = German"
proof -
  have c: "copy_request_input example_heap 64 silent_config =
      Ok (\<lparr>ri_text = ''aaa'', ri_instruct = [], ri_language = German\<rparr>, silent_generation)"
    by (simp add: copy_request_input_def copy_versioned_struct_def example_heap_def misplaced_def
        sizeof_request_input_v1_def sizeof_generation_config_def silent_generation_def language_from_raw_def
        copy_utf8_def isize_max_def read_bytes_def upt_conv_Cons bv_def)
  show ?thesis using copied_input_valid [OF c] c by auto
qed

text \<open>What is in a request's queue: valid packets that own a buffer of the packet size.\<close>

lemma queued_packet:
  assumes "borrowing_backend (be_step_batch be)" and "reachable be config s"
    and "r < length (sc_shareds (sy_w s))" and "p \<in> set (st_packets (state_at (sy_w s) r))"
  shows "is_ok (descriptor_validate (op_descriptor p) (packet_frames config))"
    and "\<exists>buffer. op_pcm p = Some buffer \<and> length buffer = packet_size config"
proof -
  have fits: "stream_end frames id' pos ds = Some pos' \<Longrightarrow> \<forall>d \<in> set ds. is_ok (descriptor_validate d frames)"
    for frames id' pos pos' ds
    by (induction ds arbitrary: pos) (auto simp: fits_at_def split: if_splits)
  show "is_ok (descriptor_validate (op_descriptor p) (packet_frames config))"
    using reachable_stream [OF assms(1-3)] assms(4) fits
    unfolding request_stream_def Let_def by fastforce
  have "queue_owned (sy_w s) r (packet_size (sc_config (sy_w s)))"
    using reachable_buffers [OF assms(1,2)] assms(3) by (rule bufs_queue_owned)
  then show "\<exists>buffer. op_pcm p = Some buffer \<and> length buffer = packet_size config"
    using assms(4) reachable_config [OF assms(2)] by (auto simp: queue_owned_def owned_by_def)
qed

lemma valid_sample_count:
  assumes "is_ok (descriptor_validate d frames)" and "unat frames \<le> 4"
  shows "unat (sample_count d) \<le> unat frames * 1920"
proof -
  have "pd_codec_frames d \<le> frames" "sample_count d = pd_codec_frames d * 1920"
    using assms(1) descriptor_validate_Ok_iff [of d frames]
    by (auto simp: is_ok_iff SAMPLES_PER_CODEC_FRAME_def)
  moreover have "unat (pd_codec_frames d * 1920) \<le> unat (pd_codec_frames d) * 1920"
    by (simp add: unat_word_ariths)
  ultimately show ?thesis
    by (metis le_trans mult_le_mono1 word_le_nat_alt)
qed

definition still_env :: "('b, 's) waiting" where
  "still_env = \<lparr>wt_wait = (\<lambda>_ w. (True, w)), wt_clock = (\<lambda>_. 0)\<rparr>"

definition example_world :: "('b, 's) sched \<Rightarrow> ('b, 's) ffi_world" where
  "example_world w = \<lparr>fw_heap = example_heap, fw_cores = [(1, w)], fw_engines = [(8, 1)],
     fw_requests = [(64, 1, 0)]\<rparr>"

end
