(* ===== verification/RtContain.thy ===== *)
theory RtContain
  imports RtProperties
begin

text \<open>
  What a panic of the worker or of the backend can reach: which requests a dying worker may
  lose, and that a failed \<open>step_batch\<close> call fails exactly the requests handed to it.
\<close>

section \<open>What client steps keep of a request\<close>

definition failed_with :: "backend_error \<Rightarrow> request_state \<Rightarrow> bool" where
  "failed_with e st \<longleftrightarrow> st_phase st = Failed \<and> st_failure st = Some e \<and> st_packets st = []"

lemma failed_state_failed_with [simp]: "failed_with e (failed_state e st)"
  by (simp add: failed_with_def failed_state_def)

text \<open>Retired requests stay retired, and nothing a client does changes how a request failed.\<close>

definition keeps_end :: "('b, 's) sched \<Rightarrow> ('b, 's) sched \<Rightarrow> bool" where
  "keeps_end w w' \<longleftrightarrow> (\<forall>r < length (sc_shareds w).
     (st_retired (state_at w r) \<longrightarrow> st_retired (state_at w' r)) \<and>
     (\<forall>e. failed_with e (state_at w r) \<longrightarrow> failed_with e (state_at w' r)))"

lemma keeps_end_same: "state_at w' = state_at w \<Longrightarrow> keeps_end w w'"
  by (simp add: keeps_end_def)

lemma keeps_end_shareds: "sc_shareds w' = sc_shareds w \<Longrightarrow> keeps_end w w'"
  by (intro keeps_end_same) (simp add: fun_eq_iff state_at_def shared_at_def)

lemma keeps_end_cancel:
  assumes "cancel_mark r w = (b, w')" and "r < length (sc_shareds w)" and "queue_owned w r n"
  shows "keeps_end w w'"
proof (cases "phase_is_terminal (st_phase (state_at w r)) \<or> rh_cancel_sent (sc_handles w ! r)")
  case True
  then have "sc_shareds w' = sc_shareds w"
    using assms(1) by (auto simp: cancel_mark_def Let_def split: if_splits)
  then show ?thesis by (rule keeps_end_shareds)
next
  case False
  then have "st_phase (state_at w r) \<noteq> Failed" by (auto simp: phase_is_terminal_def)
  then show ?thesis
    using cancel_mark_effect(2) [OF assms(2,3,1)]
    by (auto simp: keeps_end_def failed_with_def)
qed

lemma keeps_end_poll:
  assumes "r < length (sc_shareds w)" and "poll_iteration r timeout deadline now w = (res, w')"
  shows "keeps_end w w'"
proof (cases "st_failure (state_at w r)")
  case None
  obtain st where st: "state_at w' = (state_at w)(r := st)" "st_retired st = st_retired (state_at w r)"
    by (rule poll_iteration_effect [OF assms]) (rule that, assumption+)
  then show ?thesis
    using None by (simp add: keeps_end_def failed_with_def)
next
  case (Some e)
  then have "w' = w" using assms(2) by (simp add: poll_iteration_def)
  then show ?thesis by (simp add: keeps_end_same)
qed

lemma client_step_keeps_end:
  assumes "client_step s s'" and "static_ok config s" "work_ok s"
  shows "keeps_end (sy_w s) (sy_w s')"
  using assms
proof (induction rule: client_step.induct)
  case (start s input generation now p w')
  have "state_at w' q = state_at (sy_w s) q" if "q < length (sc_shareds (sy_w s))" for q
    using that start_prepare_effect(1) [OF start(2), of q] by (simp add: state_at_def)
  then show ?case by (simp add: keeps_end_def)
next
  case (send s ps p qs res w')
  then show ?case
    by (auto intro!: keeps_end_shareds simp: start_send_def send_def split: if_splits)
next
  case (poll r s timeout deadline now res w')
  then show ?case by (simp add: static_ok_def keeps_end_poll)
next
  case (drop s ps p qs w')
  then have "state_at w' = state_at (sy_w s)"
    using drop_held_effect(1) by (auto simp: work_ok_def buffers_ok_def)
  then show ?case by (simp add: keeps_end_same)
next
  case (cancel r s must_send w')
  have r: "r < length (sc_shareds (sy_w s))"
    using cancel(1,4) by (simp add: static_ok_def)
  then have "queue_owned (sy_w s) r (packet_size (sc_config (sy_w s)))"
    using cancel(5) by (auto simp: work_ok_def buffers_ok_def bufs_queue_owned)
  then show ?case using keeps_end_cancel [OF cancel(3) r] by simp
next
  case (cancel_send s ps r qs res w')
  then show ?case
    by (auto intro!: keeps_end_shareds simp: RtShared.send_def split: if_splits)
qed (simp_all add: keeps_end_shareds)

section \<open>What a dying worker can lose\<close>

lemma client_step_owners:
  assumes "client_step s s'" and "control_ok s"
    and "r \<in># owners s" and "rh_live (sc_handles (sy_w s') ! r)"
  shows "r \<in># owners s'"
  using assms
proof (induction rule: client_step.induct)
  case (start s input generation now p w')
  then show ?case
    using start_prepare_shape [OF start(2)] by (simp add: owners_def)
next
  case (send s ps p qs res w')
  show ?case
  proof (rule start_send_cases [OF send(3)])
    assume "sc_receiver_alive (sy_w s)" "sc_channel w' = sc_channel (sy_w s) @ [CmdStart p]"
      "sc_pending w' = sc_pending (sy_w s)" "sc_active w' = sc_active (sy_w s)"
    then show ?thesis using send(1,5) by (auto simp: owners_def)
  next
    assume w': "w' = release_slot (sy_w s)"
    have "\<not> rh_live (sc_handles (sy_w s) ! ps_shared p)"
      using send(1,4) by (simp add: control_ok_def)
    then show ?thesis using send(1,5,6) by (auto simp: owners_def w')
  qed
next
  case (poll r s timeout deadline now res w')
  then show ?case using frame_fields [OF poll_iteration_frame [OF poll(3)]] by (simp add: owners_def)
next
  case (cancel r s must_send w')
  then show ?case using cancel_mark_frame [OF cancel(3)] by (simp add: owners_def)
next
  case (cancel_send s ps r qs res w')
  then show ?case by (auto simp: owners_def RtShared.send_def split: if_splits)
qed (simp_all add: owners_def)

lemma abandoned_worker_step:
  assumes "worker_step be s s'" and "abandoned (sy_pc s')"
  obtains e where "sy_pc s = AtClosing (Some e)" "s' = s\<lparr>sy_w := close_channel (sy_w s), sy_pc := AtStopped (Some e)\<rparr>"
  using assms
  by (induction rule: worker_step.induct) (auto simp: abandoned_def split: if_splits step_plan.splits)

lemma worker_step_shareds:
  "worker_step be s s' \<Longrightarrow> length (sc_shareds (sy_w s')) = length (sc_shareds (sy_w s))"
proof (induction rule: worker_step.induct)
  case (prefill_call s ready outcomes w')
  then show ?case using prefill_call_frame(2) by (fastforce simp: step_frame_def)
next
  case (step_call s selected plan w')
  then show ?case using step_call_frame by (fastforce simp: step_frame_def)
next
  case (select s i idxs selected selected' w')
  then show ?case using select_one_frame by (fastforce simp: step_frame_def)
next
  case (abort s e item items)
  then show ?case
    using step_abort_frame by (cases item) (fastforce simp: step_frame_def)
next
  case (deliver s item items step_us now)
  obtain i x buffer result where "item = ((i, x, buffer), result)" by (metis surj_pair)
  then show ?case using deliver_result_frame by (fastforce simp: step_frame_def)
next
  case (final_drain s failure c rest)
  then show ?case by (cases c) (simp_all add: finalise_command_def)
qed (auto simp: receive_command_static classify_static prefill_mark_def close_channel_def)

lemma close_channel_owners:
  "r \<in># owners s \<Longrightarrow> r \<in># owners (s\<lparr>sy_w := close_channel (sy_w s), sy_pc := AtStopped f\<rparr>) \<or>
     r \<in> ps_shared ` set (chan_starts (sc_channel (sy_w s))) \<or> r \<in># image_mset ps_shared (mset (pc_pendings (sy_pc s)))"
  by (auto simp: owners_def close_channel_def)

lemma close_channel_state [simp]: "state_at (close_channel w) = state_at w"
  by (simp add: close_channel_def fun_eq_iff state_at_def shared_at_def)

text \<open>C7: \<open>cancel_and_wait\<close> and \<open>wait_retired\<close> can be trusted while the worker lives: a retired
  request has settled, and a request with a live handle is retired or still owned by someone who
  will retire it, unless the worker has died of a panic. Even then only one thing can be lost: in
  every step of the system a live request that was retired or owned stays so, except a request whose
  start command was still in the channel when the dying worker closed it.\<close>

theorem retirement_sound:
  assumes "borrowing_backend (be_step_batch be)" and "reachable be config s"
    and "r < length (sc_handles (sy_w s))"
  shows "(st_retired (state_at (sy_w s) r) \<longrightarrow> settled (state_at (sy_w s) r)) \<and>
    (rh_live (sc_handles (sy_w s) ! r) \<longrightarrow>
       st_retired (state_at (sy_w s) r) \<or> r \<in># owners s \<or> (\<exists>e. sy_pc s = AtStopped (Some e))) \<and>
    (\<forall>s'. sys_step be s s' \<longrightarrow> rh_live (sc_handles (sy_w s') ! r) \<longrightarrow>
       st_retired (state_at (sy_w s) r) \<or> r \<in># owners s \<longrightarrow>
       st_retired (state_at (sy_w s') r) \<or> r \<in># owners s' \<or>
       (\<exists>e. sy_pc s = AtClosing (Some e) \<and> r \<in> ps_shared ` set (chan_starts (sc_channel (sy_w s)))))"
proof (intro conjI)
  note ok = reachable_parts [OF assms(1,2)]
  have r: "r < length (sc_shareds (sy_w s))"
    using assms(3) handles_bound [OF assms(2)] by simp
  show "st_retired (state_at (sy_w s) r) \<longrightarrow> settled (state_at (sy_w s) r)"
    "rh_live (sc_handles (sy_w s) ! r) \<longrightarrow>
       st_retired (state_at (sy_w s) r) \<or> r \<in># owners s \<or> (\<exists>e. sy_pc s = AtStopped (Some e))"
    using ok(5) r by (auto simp: retirement_ok_def abandoned_def)
  show "\<forall>s'. sys_step be s s' \<longrightarrow> rh_live (sc_handles (sy_w s') ! r) \<longrightarrow>
       st_retired (state_at (sy_w s) r) \<or> r \<in># owners s \<longrightarrow>
       st_retired (state_at (sy_w s') r) \<or> r \<in># owners s' \<or>
       (\<exists>e. sy_pc s = AtClosing (Some e) \<and> r \<in> ps_shared ` set (chan_starts (sc_channel (sy_w s))))"
  proof (intro allI impI)
    fix s' assume step: "sys_step be s s'" and live: "rh_live (sc_handles (sy_w s') ! r)"
      and held: "st_retired (state_at (sy_w s) r) \<or> r \<in># owners s"
    show "st_retired (state_at (sy_w s') r) \<or> r \<in># owners s' \<or>
       (\<exists>e. sy_pc s = AtClosing (Some e) \<and> r \<in> ps_shared ` set (chan_starts (sc_channel (sy_w s))))"
      using step unfolding sys_step_def
    proof
      assume c: "client_step s s'"
      show ?thesis
        using held client_step_keeps_end [OF c ok(6,2)] client_step_owners [OF c ok(4) _ live] r
        by (auto simp: keeps_end_def)
    next
      assume w: "worker_step be s s'"
      show ?thesis
      proof (cases "abandoned (sy_pc s')")
        case True
        then obtain e where e: "sy_pc s = AtClosing (Some e)"
          "s' = s\<lparr>sy_w := close_channel (sy_w s), sy_pc := AtStopped (Some e)\<rparr>"
          by (rule abandoned_worker_step [OF w])
        then show ?thesis
          using held close_channel_owners [of r s "Some e"] by auto
      next
        case False
        have reach: "reachable be config s'" by (rule reachable.step [OF assms(2) step])
        have "r < length (sc_shareds (sy_w s'))"
          using r worker_step_shareds [OF w] by simp
        then show ?thesis
          using reachable_parts(5) [OF assms(1) reach] live False by (auto simp: retirement_ok_def)
      qed
    qed
  qed
qed

lemma retirement_sound_witness:
  "(st_retired (state_at (sy_w silent_polled) 0) \<or> 0 \<in># owners silent_polled) \<and>
   (let s' = worker_next silent_backend silent_polled in st_retired (state_at (sy_w s') 0) \<or> 0 \<in># owners s')"
proof -
  let ?s' = "worker_next silent_backend silent_polled"
  have pc: "sy_pc silent_polled = AtDeliver []" and live: "rh_live (sc_handles (sy_w ?s') ! 0)"
    by (simp_all add: silent_polled_def silent_delivering_def silent_started_def start_eval run_eval deliver_eval)
  have step: "sys_step silent_backend silent_polled ?s'"
    using worker_next_step [of silent_polled silent_backend] pc by (simp add: sys_step_def blocked_def)
  have r: "0 < length (sc_handles (sy_w silent_polled))" using silent_polled_facts by simp
  note all = retirement_sound [OF silent.borrowing_backend_axioms silent_reachable(4) r]
  have held: "st_retired (state_at (sy_w silent_polled) 0) \<or> 0 \<in># owners silent_polled"
    using all silent_polled_facts pc by simp
  then show ?thesis
    using conjunct2 [OF conjunct2 [OF all], rule_format, OF step live] pc by simp
qed

section \<open>A failed batch call\<close>

lemma worker_step_select_done:
  "worker_step be a b \<Longrightarrow> sy_pc a = AtSelect [] selected \<Longrightarrow> b = worker_next be a"
  by (erule worker_step.cases) (auto simp: worker_next.simps go_def)

lemma worker_step_abort:
  "worker_step be a b \<Longrightarrow> sy_pc a = AtAbort e (item # items) \<Longrightarrow>
     b = a\<lparr>sy_w := step_abort e item (sy_w a), sy_pc := AtAbort e items\<rparr>"
  by (erule worker_step.cases) auto

text \<open>Steps of the whole system while the worker's abort loop has items left.\<close>

definition abort_step :: "('b, 's) streaming_backend \<Rightarrow> ('b, 's) sys \<Rightarrow> ('b, 's) sys \<Rightarrow> bool" where
  "abort_step be a b \<longleftrightarrow> sys_step be a b \<and> (\<exists>e item items. sy_pc a = AtAbort e (item # items))"

lemma step_abort_effect:
  fixes s :: "('b, 's) sys" and e :: backend_error
  assumes "work_ok s" "slots_ok s" and "pc_items (sy_pc s) = (i, x, buffer) # rest"
  defines "r \<equiv> active_ref (sy_w s) i" and "w' \<equiv> step_abort e (i, x, buffer) (sy_w s)"
  shows "state_at w' = (state_at (sy_w s))(r := failed_state e (state_at (sy_w s) r))"
    and "free_at w' = (free_at (sy_w s))(r := free_at (sy_w s) r @ [map (\<lambda>_. 0) buffer] @
      zeroed (st_packets (state_at (sy_w s) r)))"
    and "active_ref w' = active_ref (sy_w s)"
    and "sc_active w' = (sc_active (sy_w s))[i := (sc_active (sy_w s) ! i)\<lparr>ar_session := Some x\<rparr>]"
    and "length (sc_shareds w') = length (sc_shareds (sy_w s))"
proof -
  note w = work_ok_item [OF assms(1-3), folded r_def]
  let ?w1 = "set_session i (Some x) (sy_w s)"
  let ?w2 = "recycle_pcm r buffer ?w1"
  have w': "w' = mark_failed r e ?w2"
    by (simp add: w'_def step_abort_def r_def)
  have r2: "r < length (sc_shareds ?w1)" "r < length (sc_shareds ?w2)" using w(2) by simp_all
  have b2: "bufs ?w2 ((outside s)(r := outside s r - 1))"
    by (rule bufs_recycle [of ?w1 "outside s" r]) (use w r_def in simp_all)
  note m = mark_failed_effect [OF r2(2) bufs_queue_owned [OF b2 r2(2)], of e]
  note rec = recycle_pcm_effect [OF r2(1), of buffer]
  have same: "state_at ?w1 = state_at (sy_w s)" "free_at ?w1 = free_at (sy_w s)"
    by (simp_all add: fun_eq_iff set_session_def state_at_def free_at_def shared_at_def)
  show "state_at w' = (state_at (sy_w s))(r := failed_state e (state_at (sy_w s) r))"
    "free_at w' = (free_at (sy_w s))(r := free_at (sy_w s) r @ [map (\<lambda>_. 0) buffer] @
      zeroed (st_packets (state_at (sy_w s) r)))"
    by (simp_all add: w' m rec same fun_eq_iff)
  show "active_ref w' = active_ref (sy_w s)"
    by (simp add: w' fun_eq_iff active_ref_def) (metis active_ref_def active_ref_set)
  show "sc_active w' = (sc_active (sy_w s))[i := (sc_active (sy_w s) ! i)\<lparr>ar_session := Some x\<rparr>]"
    by (simp add: w'_def step_abort_active set_session_def)
  show "length (sc_shareds w') = length (sc_shareds (sy_w s))" by (simp add: w')
qed

text \<open>In the abort loop, in any interleaving with clients: the items handed back so far have
  failed with the error and own their session again, the others wait.\<close>

definition handed_back :: "backend_error \<Rightarrow> nat \<times> 's \<times> pcm \<Rightarrow> ('b, 's) sched \<Rightarrow> bool" where
  "handed_back e item w \<longleftrightarrow> failed_with e (state_at w (active_ref w (fst item))) \<and>
     ar_session (sc_active w ! fst item) = Some (fst (snd item))"

definition abort_inv ::
  "backend_error \<Rightarrow> (nat \<times> 's \<times> pcm) list \<Rightarrow> (nat \<Rightarrow> sref) \<Rightarrow> ('b, 's) sys \<Rightarrow> bool" where
  "abort_inv e items ref s \<longleftrightarrow> active_ref (sy_w s) = ref \<and>
     (\<exists>past todo. items = past @ todo \<and> sy_pc s = AtAbort e todo \<and>
        (\<forall>item \<in> set past. fst item < length (sc_active (sy_w s)) \<and> handed_back e item (sy_w s)))"

lemma abort_inv_client:
  assumes "client_step s s'" and "static_ok config s" "work_ok s" "slots_ok s" and "abort_inv e items ref s"
  shows "abort_inv e items ref s'"
proof -
  note same = client_step_active [OF assms(1)]
  then have ref: "active_ref (sy_w s') = active_ref (sy_w s)"
    by (simp add: fun_eq_iff active_ref_def)
  have keep: "handed_back e item (sy_w s')"
    if "fst item < length (sc_active (sy_w s))" "handed_back e item (sy_w s)" for item
    using that active_ref_bound [OF assms(4) that(1)] client_step_keeps_end [OF assms(1-3)] same
    by (auto simp: handed_back_def keeps_end_def ref)
  obtain past todo where "items = past @ todo" "sy_pc s = AtAbort e todo" "active_ref (sy_w s) = ref"
    and past: "\<forall>item \<in> set past. fst item < length (sc_active (sy_w s)) \<and> handed_back e item (sy_w s)"
    using assms(5) by (auto simp: abort_inv_def)
  moreover have "\<forall>item \<in> set past. fst item < length (sc_active (sy_w s')) \<and> handed_back e item (sy_w s')"
    using past keep same by metis
  ultimately show ?thesis
    using same ref unfolding abort_inv_def by metis
qed

lemma abort_inv_worker:
  assumes "worker_step be s s'" and "work_ok s" "slots_ok s" and "abort_inv e items ref s"
    and "sy_pc s = AtAbort f (item # rest)" and "distinct (map fst items)"
  shows "abort_inv e items ref s'"
proof -
  obtain i x buffer where item: "item = (i, x, buffer)" by (cases item)
  obtain past where d: "items = past @ item # rest" "f = e"
    "\<forall>a \<in> set past. fst a < length (sc_active (sy_w s)) \<and> handed_back e a (sy_w s)"
    and ref: "active_ref (sy_w s) = ref"
    using assms(4,5) by (auto simp: abort_inv_def)
  have pi: "pc_items (sy_pc s) = (i, x, buffer) # rest" by (simp add: assms(5) item)
  note eff = step_abort_effect [OF assms(2,3) pi, of e]
  have i: "i < length (sc_active (sy_w s))" by (rule work_ok_item(1) [OF assms(2,3) pi])
  have s': "sy_pc s' = AtAbort e rest" "sy_w s' = step_abort e (i, x, buffer) (sy_w s)"
    using worker_step_abort [OF assms(1,5)] d(2) item by simp_all
  have "handed_back e a (sy_w s')" if "a \<in> set (past @ [item])" for a
  proof (cases "a = item")
    case True
    then show ?thesis using i by (simp add: handed_back_def s' eff item)
  next
    case False
    then have a: "a \<in> set past" using that by simp
    then have "fst a \<noteq> i" using assms(6) d(1) item by (force simp: image_iff)
    then show ?thesis using d(3) a by (auto simp: handed_back_def s' eff)
  qed
  then show ?thesis
    using d(1,3) i ref
    by (auto simp: abort_inv_def s' eff item intro!: exI [of _ "past @ [item]"])
qed

lemma abort_run_inv:
  assumes "borrowing_backend (be_step_batch be)" and "(abort_step be)\<^sup>*\<^sup>* s s'"
    and "reachable be config s" and "abort_inv e items ref s" and "distinct (map fst items)"
  shows "abort_inv e items ref s' \<and> reachable be config s'"
  using assms(2-4)
proof (induction rule: rtranclp_induct)
  case (step t u)
  then have t: "abort_inv e items ref t" "reachable be config t" by simp_all
  note ok = reachable_parts [OF assms(1) t(2)]
  have u: "sys_step be t u" using step(2) by (simp add: abort_step_def)
  obtain f item rest where pc: "sy_pc t = AtAbort f (item # rest)"
    using step(2) by (auto simp: abort_step_def)
  have "abort_inv e items ref u"
    using u abort_inv_client [OF _ ok(6,2,1) t(1)] abort_inv_worker [OF _ ok(2,1) t(1) pc assms(5)]
    by (auto simp: sys_step_def)
  then show ?case using reachable.step [OF t(2) u] by simp
qed simp

text \<open>The loop alone: it ends after one step per item, and only the items' requests change.\<close>

definition aborted_buffers :: "sref set \<Rightarrow> ('b, 's) sched \<Rightarrow> ('b, 's) sched \<Rightarrow> bool" where
  "aborted_buffers R w w' \<longleftrightarrow> (\<forall>r.
     length (free_at w' r) = length (free_at w r) +
       (if r \<in> R then Suc (length (st_packets (state_at w r))) else 0) \<and>
     (r \<notin> R \<longrightarrow> state_at w' r = state_at w r))"

lemma abort_run:
  assumes "borrowing_backend (be_step_batch be)" and "reachable be config s" and "sy_pc s = AtAbort e todo"
  shows "sy_pc (worker_run be (length todo) s) = AtAbort e [] \<and>
    (abort_step be)\<^sup>*\<^sup>* s (worker_run be (length todo) s) \<and>
    aborted_buffers (set (map (active_ref (sy_w s) \<circ> fst) todo)) (sy_w s)
      (sy_w (worker_run be (length todo) s))"
  using assms(2,3)
proof (induction todo arbitrary: s)
  case Nil
  then show ?case by (simp add: aborted_buffers_def)
next
  case (Cons item rest)
  obtain i x buffer where item: "item = (i, x, buffer)" by (cases item)
  note ok = reachable_parts [OF assms(1) Cons.prems(1)]
  have pi: "pc_items (sy_pc s) = (i, x, buffer) # rest" by (simp add: Cons.prems(2) item)
  note eff = step_abort_effect [OF ok(2,1) pi, of e] and w = work_ok_item [OF ok(2,1) pi]
  let ?t = "worker_next be s" and ?r = "active_ref (sy_w s) i"
  have unblocked: "\<not> blocked s" by (simp add: blocked_def Cons.prems(2))
  note step = worker_next_step [OF unblocked, of be]
  have t: "sy_pc ?t = AtAbort e rest" "sy_w ?t = step_abort e (i, x, buffer) (sy_w s)"
    using Cons.prems(2) item by (simp_all add: worker_next.simps go_def)
  have reach: "reachable be config ?t"
    using reachable.step [OF Cons.prems(1)] step by (simp add: sys_step_def)
  have first: "abort_step be s ?t"
    using step Cons.prems(2) item by (simp add: abort_step_def sys_step_def)
  have fresh: "?r \<notin> set (map (active_ref (sy_w s) \<circ> fst) rest)"
  proof
    assume "?r \<in> set (map (active_ref (sy_w s) \<circ> fst) rest)"
    then obtain a where "a \<in> set rest" "active_ref (sy_w s) (fst a) = ?r" by fastforce
    then obtain j where j: "j \<in> fst ` set rest" "active_ref (sy_w s) j = ?r" by blast
    moreover have "j < length (sc_active (sy_w s))"
      using ok(2) j(1) pi by (auto simp: work_ok_def sessions_ok_def Let_def)
    ultimately have "j = i" using active_ref_inj [OF ok(1) _ w(1)] by metis
    then show False using j(1) w(5) by simp
  qed
  have "aborted_buffers (set (map (active_ref (sy_w s) \<circ> fst) (item # rest))) (sy_w s)
      (sy_w (worker_run be (length rest) ?t))"
    using Cons.IH [OF reach t(1)] fresh
    by (auto simp: aborted_buffers_def t(2) eff item zeroed_def)
  then show ?case
    using Cons.IH [OF reach t(1)] first unblocked
    by (auto intro: converse_rtranclp_into_rtranclp)
qed

definition refused_call :: "(backend_error + backend_packet) list unwind \<Rightarrow> nat \<Rightarrow> backend_error option" where
  "refused_call outcome n = (case outcome of
     Panicked \<Rightarrow> Some (backend_error_with_status StatusInternal ''backend step_batch panicked'')
   | Returned results \<Rightarrow> if length results = n then None
       else Some (backend_error_new ''backend returned the wrong number of generation results''))"

lemma abort_call:
  assumes "borrowing_backend (be_step_batch be)" and "sy_pc s = AtSelect [] selected"
    and "be_step_batch be (sc_backend (sy_w s)) (map snd selected) (packet_frames (sc_config (sy_w s))) =
      (outcome, qs, b')"
    and "refused_call outcome (length selected) = Some e"
  shows "sy_pc (worker_next be s) = AtAbort e (zip (map fst selected) qs)"
    and "sy_w (worker_next be s) = (sy_w s)\<lparr>sc_backend := b'\<rparr>" and "length qs = length selected"
proof -
  show "length qs = length selected"
    using borrowing_backend.step_count [OF assms(1,3)] by simp
  then show "sy_pc (worker_next be s) = AtAbort e (zip (map fst selected) qs)"
    "sy_w (worker_next be s) = (sy_w s)\<lparr>sc_backend := b'\<rparr>"
    using assms(2-4)
    by (auto simp: worker_next.simps RtWorker.step_call_def go_def refused_call_def Let_def
        split: unwind.splits if_splits)
qed

text \<open>C11: when \<open>step_batch\<close> panics or gives the wrong number of results, every request that was
  selected for the call, and no other, pays for it: whatever clients do meanwhile, when the worker
  has left the abort loop each selected request has failed with that error, its queue is empty and
  its session is back for the cancel call; the loop takes one step per request, and alone it
  recycles each selected request's buffer together with its queued packets and leaves every other
  request as it was.\<close>

theorem abort_contained:
  assumes "borrowing_backend (be_step_batch be)" and "reachable be config s"
    and "sy_pc s = AtSelect [] selected"
    and "be_step_batch be (sc_backend (sy_w s)) (map snd selected) (packet_frames config) = (outcome, qs, b')"
    and "refused_call outcome (length selected) = Some e"
  shows "(\<forall>t s' f. worker_step be s t \<and> (abort_step be)\<^sup>*\<^sup>* t s' \<and> sy_pc s' = AtAbort f [] \<longrightarrow>
      f = e \<and> (\<forall>k < length selected. let i = fst (selected ! k); r = active_ref (sy_w s) i in
        st_phase (state_at (sy_w s') r) = Failed \<and> st_failure (state_at (sy_w s') r) = Some e \<and>
        st_packets (state_at (sy_w s') r) = [] \<and>
        ar_session (sc_active (sy_w s') ! i) = Some (fst (qs ! k)))) \<and>
    sy_pc (worker_run be (Suc (length selected)) s) = AtAbort e [] \<and>
    aborted_buffers (set (map (active_ref (sy_w s) \<circ> fst) selected)) (sy_w s)
      (sy_w (worker_run be (Suc (length selected)) s))"
proof (intro conjI allI impI)
  let ?items = "zip (map fst selected) qs" and ?t = "worker_next be s"
  have "sc_config (sy_w s) = config" by (rule reachable_config [OF assms(2)])
  note call = abort_call [OF assms(1,3) _ assms(5), unfolded this, OF assms(4)]
  have unblocked: "\<not> blocked s" by (simp add: blocked_def assms(3))
  have reach: "reachable be config ?t"
    using reachable.step [OF assms(2)] worker_next_step [OF unblocked, of be] by (simp add: sys_step_def)
  have same: "state_at (sy_w ?t) = state_at (sy_w s)" "free_at (sy_w ?t) = free_at (sy_w s)"
    "active_ref (sy_w ?t) = active_ref (sy_w s)"
    by (simp_all add: call(2) fun_eq_iff state_at_def free_at_def shared_at_def active_ref_def)
  have items: "map fst ?items = map fst selected" using call(3) by simp
  have "distinct (map fst ?items)"
    using reachable_parts(2) [OF assms(1,2)] assms(3)
    by (simp add: items work_ok_def sessions_ok_def Let_def)
  note inv = abort_run_inv [OF assms(1) _ reach _ this]
  note run = abort_run [OF assms(1) reach call(1), unfolded same]
  have refs: "map (active_ref (sy_w s) \<circ> fst) ?items = map (active_ref (sy_w s) \<circ> fst) selected"
    using items by (metis map_map)
  show "sy_pc (worker_run be (Suc (length selected)) s) = AtAbort e []"
    "aborted_buffers (set (map (active_ref (sy_w s) \<circ> fst) selected)) (sy_w s)
      (sy_w (worker_run be (Suc (length selected)) s))"
    using run unblocked call(3) refs by (simp_all add: aborted_buffers_def same)
  fix t s' f assume a: "worker_step be s t \<and> (abort_step be)\<^sup>*\<^sup>* t s' \<and> sy_pc s' = AtAbort f []"
  then have t: "t = ?t" using worker_step_select_done assms(3) by blast
  have start: "abort_inv e ?items (active_ref (sy_w s)) ?t"
    by (simp add: abort_inv_def same call(1))
  have "abort_inv e ?items (active_ref (sy_w s)) s'"
    using inv [OF _ start] a t by blast
  then have fin: "f = e" "active_ref (sy_w s') = active_ref (sy_w s)" "\<forall>item \<in> set ?items. handed_back e item (sy_w s')"
    using a by (auto simp: abort_inv_def)
  show "f = e" by (rule fin(1))
  fix k assume k: "k < length selected"
  then have "?items ! k = (fst (selected ! k), qs ! k)" using call(3) by simp
  then have "handed_back e (fst (selected ! k), qs ! k) (sy_w s')"
    using fin(3) k call(3) by (metis length_map length_zip min.idem nth_mem)
  then show "let i = fst (selected ! k); r = active_ref (sy_w s) i in
        st_phase (state_at (sy_w s') r) = Failed \<and> st_failure (state_at (sy_w s') r) = Some e \<and>
        st_packets (state_at (sy_w s') r) = [] \<and>
        ar_session (sc_active (sy_w s') ! i) = Some (fst (qs ! k))"
    by (simp add: handed_back_def failed_with_def fin(2) Let_def)
qed

text \<open>Two requests in one batch, and a backend whose \<open>step_batch\<close> panics after handing its
  buffers back.\<close>

definition panicking_backend :: "(unit, unit) streaming_backend" where
  "panicking_backend = silent_backend\<lparr>be_step_batch :=
     default_step_batch (\<lambda>b x frames buf. (Panicked, x, buf, b))\<rparr>"

definition duo_config :: engine_config where
  "duo_config = silent_config\<lparr>max_concurrent_requests := 2\<rparr>"

definition duo_sched :: "(unit, unit) sched" where
  "duo_sched = (case scheduler_new duo_config () None of Inr w \<Rightarrow> w)"

definition duo_started :: "(unit, unit) sys" where
  "duo_started = client_start silent_input silent_generation
     (client_start silent_input silent_generation (sys_start duo_sched))"

lemma duo_config_valid: "validate_config duo_config = Ok ()"
  by (simp add: validate_config_def duo_config_def silent_config_def default_engine_config_def rt_consts
      sizeof_engine_config_def list_ex_iff)

lemma duo_config_fields [simp]:
  "max_concurrent_requests duo_config = 2" "packet_frames duo_config = 1"
  "pcm_ring_slots duo_config = 1" "max_text_bytes duo_config = 65536"
  "max_instruct_bytes duo_config = 16384"
  by (simp_all add: duo_config_def)

lemma duo_sched_eq:
  "duo_sched = \<lparr>sc_config = duo_config, sc_slots = \<lparr>sp_capacity = 2, sp_used = 0\<rparr>, sc_channel = [],
     sc_channel_capacity = 16, sc_receiver_alive = True, sc_shutdown = False,
     sc_next_request_id = 1, sc_shareds = [], sc_handles = [], sc_active = [],
     sc_pending = [], sc_backend = ()\<rparr>"
  by (simp add: duo_sched_def scheduler_new_def duo_config_valid slot_pool_new_def
      usize_checked_mul_def usize_checked_add_def usize_max_def ok_or_def)

lemma duo_selected:
  "sy_pc (worker_run panicking_backend 24 duo_started) =
     AtSelect [] [(0, (), replicate 1920 PCM_SENTINEL), (1, (), replicate 1920 PCM_SENTINEL)]"
  by (simp add: duo_started_def duo_sched_eq start_eval run_eval panicking_backend_def)

lemma duo_reachable: "reachable panicking_backend duo_config (worker_run panicking_backend n duo_started)"
proof -
  have "scheduler_new duo_config () None = Ok duo_sched"
    by (simp add: duo_sched_def scheduler_new_def duo_config_valid
        usize_checked_mul_def usize_checked_add_def usize_max_def ok_or_def)
  then show ?thesis
    unfolding duo_started_def by (intro worker_run_reachable client_start_reachable reachable.initial)
qed

lemma panicking_borrows: "borrowing_backend (be_step_batch panicking_backend)"
  by unfold_locales (use default_step_batch_in_place in \<open>fastforce simp: panicking_backend_def\<close>)

lemma panicking_call:
  "be_step_batch panicking_backend b [((), p), ((), q)] frames = (Panicked, [((), p), ((), q)], b)"
  by (simp add: panicking_backend_def)

lemma abort_contained_witness:
  "let e = backend_error_with_status StatusInternal ''backend step_batch panicked'';
       u = worker_run panicking_backend 27 duo_started
   in sy_pc u = AtAbort e [] \<and>
     (\<forall>r \<in> {0, 1}. st_phase (state_at (sy_w u) r) = Failed \<and> st_failure (state_at (sy_w u) r) = Some e \<and>
        ar_session (sc_active (sy_w u) ! r) = Some () \<and> length (free_at (sy_w u) r) = 1)"
proof -
  let ?e = "backend_error_with_status StatusInternal ''backend step_batch panicked''"
  let ?s = "worker_run panicking_backend 24 duo_started" and ?u = "worker_run panicking_backend 27 duo_started"
  let ?p = "replicate 1920 PCM_SENTINEL"
  let ?sel = "[(0, (), ?p), (1, (), ?p)] :: (nat \<times> unit \<times> pcm) list"
  have run: "worker_run panicking_backend (Suc (length ?sel)) ?s = ?u"
    by (simp add: worker_run_add [symmetric])
  have refused: "refused_call Panicked (length ?sel) = Some ?e" by (simp add: refused_call_def)
  have call: "be_step_batch panicking_backend (sc_backend (sy_w ?s)) (map snd ?sel) (packet_frames duo_config) =
      (Panicked, [((), ?p), ((), ?p)], sc_backend (sy_w ?s))"
    using panicking_call by simp
  have refs: "active_ref (sy_w ?s) 0 = 0" "active_ref (sy_w ?s) (Suc 0) = 1"
    "length (free_at (sy_w ?s) 0) = 0" "length (free_at (sy_w ?s) 1) = 0"
    "st_packets (state_at (sy_w ?s) 0) = []" "st_packets (state_at (sy_w ?s) 1) = []"
    by (simp_all add: duo_started_def duo_sched_eq start_eval run_eval panicking_backend_def free_at_def)
  note cont = abort_contained [OF panicking_borrows duo_reachable duo_selected call refused, unfolded run]
  have unblocked: "\<not> blocked ?s" by (simp add: blocked_def duo_selected)
  let ?t = "worker_next panicking_backend ?s"
  note first = worker_next_step [OF unblocked, of panicking_backend]
  have "sy_pc ?t = AtAbort ?e ?sel"
    using abort_call(1) [OF panicking_borrows duo_selected _ refused] call
      reachable_config [OF duo_reachable, of 24] by simp
  then have "(abort_step panicking_backend)\<^sup>*\<^sup>* ?t (worker_run panicking_backend 2 ?t)"
    using abort_run [OF panicking_borrows, of duo_config ?t ?e ?sel] duo_reachable [of 25]
      worker_run_add [of panicking_backend 24 1 duo_started] unblocked by (simp add: numeral_2_eq_2)
  moreover have "worker_run panicking_backend 2 ?t = ?u"
    using run unblocked by (simp add: numeral_2_eq_2)
  ultimately have "(abort_step panicking_backend)\<^sup>*\<^sup>* ?t ?u" by simp
  then have path: "worker_step panicking_backend ?s ?t \<and> (abort_step panicking_backend)\<^sup>*\<^sup>* ?t ?u \<and>
      sy_pc ?u = AtAbort ?e []"
    using first cont by blast
  have each: "st_phase (state_at (sy_w ?u) k) = Failed \<and> st_failure (state_at (sy_w ?u) k) = Some ?e \<and>
      ar_session (sc_active (sy_w ?u) ! k) = Some ()" if "k < 2" for k
  proof -
    have k: "k < length ?sel" "fst (?sel ! k) = k" "active_ref (sy_w ?s) k = k"
      using that refs(1,2) by (auto simp: less_2_cases_iff)
    show ?thesis
      using conjunct2 [OF conjunct1 [OF cont, rule_format, OF path], rule_format, OF k(1)] k(2,3)
      by (simp only: Let_def) simp
  qed
  have bufs: "length (free_at (sy_w ?u) k) = 1" if "k < 2" for k
    using conjunct2 [OF conjunct2 [OF cont], unfolded aborted_buffers_def, rule_format, of k] that refs
    by (auto simp: less_2_cases_iff)
  show ?thesis
    unfolding Let_def using each [of 0] each [of 1] bufs [of 0] bufs [of 1] path
    by (simp only: ball_simps)
qed

end
