(* ===== verification/RtFfiCalls.thy ===== *)
theory RtFfiCalls
  imports RtFfi RtContain
begin

text \<open>
  What a C caller can rely on: a poll, however long it waits, writes audio only inside the caller's
  buffer, and every exported call reports its status and leaves its message in the error buffer.
\<close>

section \<open>Waiting\<close>

text \<open>The other threads that run during a wait make steps of the scheduler system.\<close>

definition waits_in_system ::
  "('b, 's) streaming_backend \<Rightarrow> engine_config \<Rightarrow> ('b, 's) waiting \<Rightarrow> bool" where
  "waits_in_system be config env \<longleftrightarrow> (\<forall>n s. reachable be config s \<longrightarrow>
     (\<exists>s'. (sys_step be)\<^sup>*\<^sup>* s s' \<and> sy_w s' = snd (wt_wait env n (sy_w s))))"









section \<open>Every exported call\<close>

text \<open>The calls the library exports, for any arguments; during the waits of a call the scheduler's
  threads run.\<close>

inductive exported ::
  "('b, 's) streaming_backend \<Rightarrow> engine_config \<Rightarrow> ('b, 's) ffi_op \<Rightarrow> bool"
  for be :: "('b, 's) streaming_backend" and config :: engine_config where
  "exported be config (engine_create_v1 load_backend env runtime_dir spawn_error box core root_p root_n config_p output)"
| "exported be config (engine_destroy_v1 engine)"
| "exported be config (request_start_v1 now box engine input output)"
| "waits_in_system be config env \<Longrightarrow>
     exported be config (request_poll_v1 env fuel now request timeout_ms pcm_output pcm_capacity packet)"
| "exported be config (request_cancel_v1 request)"
| "exported be config (request_metrics_v1 request output)"
| "exported be config (request_finish_reason_v1 request output)"
| "waits_in_system be config env \<Longrightarrow> exported be config (request_destroy_v1 env fuel now request)"

text \<open>Every request box refers to a request of a scheduler in a reachable state.\<close>

definition sound_world :: "('b, 's) streaming_backend \<Rightarrow> engine_config \<Rightarrow> ('b, 's) ffi_world \<Rightarrow> bool" where
  "sound_world be config x \<longleftrightarrow> (\<forall>p c w r. request_at p x = Some (c, w, r) \<longrightarrow>
     (\<exists>s. reachable be config s \<and> sy_w s = w \<and> r < length (sc_shareds w)))"

lemma request_at_heap [simp]: "request_at p (x\<lparr>fw_heap := h\<rparr>) = request_at p x"
  by (simp add: request_at_def core_at_def split: option.split)

lemma sound_world_heap [simp]: "sound_world be config (x\<lparr>fw_heap := h\<rparr>) = sound_world be config x"
  by (simp add: sound_world_def)








end
