(* ===== verification/NtTokenizer.thy ===== *)
theory NtTokenizer
  imports Prelude "HOL-Library.Product_Lexorder"
begin

text \<open>
  The Qwen2 tokenizer of the talker (\<open>tokenizer.rs\<close>): the byte encoder, byte-pair merging, the
  segmentation of a text at its added tokens, and loading from the parsed files. A \<open>String\<close> is
  its UTF-8 bytes. Unicode normalisation and the pre-tokenizer's regular expression belong to
  third-party crates and are arguments (\<open>nfc\<close> and \<open>pieces\<close>), as are the parsed JSON files.
\<close>

section \<open>Errors\<close>

text \<open>\<open>anyhow::Error\<close>: a message, a message about a value that is shown in it, the native
  library's status, and context added on the way up.\<close>

datatype anyhow =
    Message bytes
  | MessageOn bytes bytes
  | NativeStatus "32 word" bytes
  | Context bytes anyhow

definition ensure :: "bool \<Rightarrow> bytes \<Rightarrow> anyhow + unit" where
  "ensure b m = (if b then Ok () else Err (Message m))"

lemma ensure_Ok_iff [simp]: "ensure b m = Ok u \<longleftrightarrow> b"
  by (simp add: ensure_def)

lemma ensure_simps [simp]: "ensure True m = Ok ()" "ensure False m = Err (Message m)"
  by (simp_all add: ensure_def)

section \<open>The byte encoder\<close>

definition utf8_of :: "nat \<Rightarrow> bytes" where
  "utf8_of n = (if n < 128 then [char_of n] else [char_of (192 + n div 64), char_of (128 + n mod 64)])"

definition printable_bytes :: "nat list" where
  "printable_bytes = [33..<127] @ [161..<173] @ [174..<256]"

text \<open>The two vectors \<open>values\<close> and \<open>mapped\<close> after the loop over all bytes.\<close>

fun encoder_loop :: "nat list \<Rightarrow> nat list \<times> nat list \<times> nat \<Rightarrow> nat list \<times> nat list \<times> nat" where
  "encoder_loop [] acc = acc"
| "encoder_loop (byte # rest) (values, mapped, offset) =
     (if byte \<in> set printable_bytes
      then encoder_loop rest (values, mapped, offset)
      else encoder_loop rest (values @ [byte], mapped @ [256 + offset], Suc offset))"

definition build_byte_encoder :: "bytes list" where
  "build_byte_encoder =
     (let (values, mapped, offset) = encoder_loop [0..<256] (printable_bytes, printable_bytes, 0)
      in fold (\<lambda>(byte, codepoint) encoder. encoder[byte := utf8_of codepoint])
           (zip values mapped) (replicate 256 [char_of (0::nat)]))"

section \<open>Byte-pair encoding\<close>

type_synonym merge_ranks = "bytes \<times> bytes \<Rightarrow> nat option"

fun windows2 :: "'a list \<Rightarrow> ('a \<times> 'a) list" where
  "windows2 (x # y # rest) = (x, y) # windows2 (y # rest)"
| "windows2 _ = []"

definition best_pair :: "merge_ranks \<Rightarrow> bytes list \<Rightarrow> (bytes \<times> bytes) option" where
  "best_pair ranks symbols =
     map_option snd (min_first fst
       (List.map_filter (\<lambda>pair. map_option (\<lambda>rank. (rank, pair)) (ranks pair)) (windows2 symbols)))"

fun merge_pass :: "bytes \<Rightarrow> bytes \<Rightarrow> bytes list \<Rightarrow> bytes list" where
  "merge_pass left right (x # y # rest) =
     (if x = left \<and> y = right then (left @ right) # merge_pass left right rest
      else x # merge_pass left right (y # rest))"
| "merge_pass left right xs = xs"

lemma merge_pass_length: "length (merge_pass l r xs) \<le> length xs"
  by (induction l r xs rule: merge_pass.induct) auto

lemma merge_pass_shorter: "(l, r) \<in> set (windows2 xs) \<Longrightarrow> length (merge_pass l r xs) < length xs"
proof (induction l r xs rule: merge_pass.induct)
  case (1 left right x y rest)
  then show ?case using merge_pass_length [of left right rest] by auto
qed auto

lemma concat_merge_pass [simp]: "concat (merge_pass l r xs) = concat xs"
  by (induction l r xs rule: merge_pass.induct) auto

lemma best_pair_in: "best_pair ranks xs = Some (l, r) \<Longrightarrow> (l, r) \<in> set (windows2 xs)"
  by (auto simp: best_pair_def List.map_filter_def dest!: min_first_Some split: option.splits)

lemma best_pair_None: "best_pair ranks xs = None \<longleftrightarrow> (\<forall>p \<in> set (windows2 xs). ranks p = None)"
  by (auto simp: best_pair_def List.map_filter_def filter_empty_conv)

function merge_loop :: "merge_ranks \<Rightarrow> bytes list \<Rightarrow> bytes list" where
  "merge_loop ranks symbols =
     (case best_pair ranks symbols of
        None \<Rightarrow> symbols
      | Some (left, right) \<Rightarrow> merge_loop ranks (merge_pass left right symbols))"
  by pat_completeness auto
termination
  by (relation "measure (\<lambda>(_, symbols). length symbols)")
    (auto dest: best_pair_in intro: merge_pass_shorter)

declare merge_loop.simps [simp del]

definition byte_pair_encode :: "merge_ranks \<Rightarrow> bytes \<Rightarrow> bytes list" where
  "byte_pair_encode ranks token =
     (let symbols = chars token
      in if length symbols < 2 then symbols else merge_loop ranks symbols)"

section \<open>Encoding a text\<close>

record qwen2_tokenizer =
  tk_pieces :: "bytes \<Rightarrow> bytes option list"
  tk_vocabulary :: "bytes \<Rightarrow> u32 option"
  tk_merge_ranks :: merge_ranks
  tk_byte_encoder :: "bytes list"
  tk_added_tokens :: "(bytes \<times> u32) list"

definition next_added_token :: "qwen2_tokenizer \<Rightarrow> bytes \<Rightarrow> (nat \<times> bytes \<times> u32) option" where
  "next_added_token t text =
     min_first (\<lambda>(offset, token, ident). (offset, - int (length token), ident))
       (List.map_filter (\<lambda>(token, ident). map_option (\<lambda>offset. (offset, token, ident)) (find_sub token text))
         (tk_added_tokens t))"

fun token_ids :: "qwen2_tokenizer \<Rightarrow> bytes list \<Rightarrow> anyhow + u32 list" where
  "token_ids t [] = Ok []"
| "token_ids t (token # rest) =
     (case tk_vocabulary t token of
        None \<Rightarrow> Err (MessageOn ''BPE token is missing from the vocabulary'' token)
      | Some ident \<Rightarrow> and_then (token_ids t rest) (\<lambda>ids. Ok (ident # ids)))"

definition encode_piece :: "qwen2_tokenizer \<Rightarrow> bytes \<Rightarrow> bytes" where
  "encode_piece t piece = concat (map (\<lambda>byte. tk_byte_encoder t ! bv byte) piece)"

fun encode_pieces :: "qwen2_tokenizer \<Rightarrow> bytes option list \<Rightarrow> anyhow + u32 list" where
  "encode_pieces t [] = Ok []"
| "encode_pieces t (None # rest) = Err (Context ''Qwen2 pre-tokenizer failed'' (Message []))"
| "encode_pieces t (Some piece # rest) =
     and_then (token_ids t (byte_pair_encode (tk_merge_ranks t) (encode_piece t piece))) (\<lambda>ids.
     and_then (encode_pieces t rest) (\<lambda>others. Ok (ids @ others)))"

definition encode_ordinary :: "qwen2_tokenizer \<Rightarrow> bytes \<Rightarrow> anyhow + u32 list" where
  "encode_ordinary t text = encode_pieces t (tk_pieces t text)"

text \<open>The loop over the normalised text; \<open>rest\<close> is the text from the cursor on. \<open>None\<close>: the loop
  does not end.\<close>

partial_function (option) encode_loop ::
  "qwen2_tokenizer \<Rightarrow> bytes \<Rightarrow> u32 list \<Rightarrow> (anyhow + u32 list) option" where
  "encode_loop t rest ids =
     (if rest = [] then Some (Ok ids)
      else case next_added_token t rest of
        None \<Rightarrow> Some (and_then (encode_ordinary t rest) (\<lambda>others. Ok (ids @ others)))
      | Some (offset, token, ident) \<Rightarrow>
          (case if offset > 0 then encode_ordinary t (take offset rest) else Ok [] of
             Inl e \<Rightarrow> Some (Err e)
           | Inr others \<Rightarrow> encode_loop t (drop (offset + length token) rest) (ids @ others @ [ident])))"

definition encode :: "(bytes \<Rightarrow> bytes) \<Rightarrow> qwen2_tokenizer \<Rightarrow> bytes \<Rightarrow> (anyhow + u32 list) option" where
  "encode nfc t text = encode_loop t (nfc text) []"

section \<open>Loading\<close>

text \<open>\<open>str::split_whitespace\<close>.\<close>

function words_from :: "bytes \<Rightarrow> bytes \<Rightarrow> bytes list" where
  "words_from acc s =
     (case s of
        [] \<Rightarrow> if acc = [] then [] else [rev acc]
      | c # cs \<Rightarrow>
          (case strip_ws s of
             Some r \<Rightarrow> if acc = [] then words_from [] r else rev acc # words_from [] r
           | None \<Rightarrow> words_from (c # acc) cs))"
  by pat_completeness auto
termination
  by (relation "measure (\<lambda>(_, s). length s)") (auto simp del: strip_ws.simps dest: strip_ws_shorter)

declare words_from.simps [simp del]

definition split_whitespace :: "bytes \<Rightarrow> bytes list" where
  "split_whitespace s = words_from [] s"

text \<open>Later lines override earlier ones with the same pair, as \<open>HashMap::insert\<close> does.\<close>

fun merges_from :: "nat \<Rightarrow> bytes list \<Rightarrow> merge_ranks \<Rightarrow> anyhow + merge_ranks" where
  "merges_from rank [] ranks = Ok ranks"
| "merges_from rank (line # rest) ranks =
     (case split_whitespace line of
        [] \<Rightarrow> Err (Message ''merge is missing its left symbol'')
      | [_] \<Rightarrow> Err (Message ''merge is missing its right symbol'')
      | [left, right] \<Rightarrow> merges_from (Suc rank) rest (ranks((left, right) \<mapsto> rank))
      | _ \<Rightarrow> Err (MessageOn ''merge line contains more than two symbols'' line))"

fun added_tokens_from :: "(bytes \<times> bytes) list \<Rightarrow> anyhow + (bytes \<times> u32) list" where
  "added_tokens_from [] = Ok []"
| "added_tokens_from ((ident, content) # rest) =
     (case parse_unsigned (2 ^ 32 - 1) ident of
        None \<Rightarrow> Err (MessageOn ''invalid added-token ID'' ident)
      | Some n \<Rightarrow> and_then (added_tokens_from rest) (\<lambda>ts. Ok ((content, of_nat n) # ts)))"

text \<open>\<open>vocabulary\<close>, \<open>merges\<close> and \<open>decoder\<close> are what reading and parsing the three files gave.\<close>

definition tokenizer_load ::
  "(bytes \<Rightarrow> bytes option list) \<Rightarrow> anyhow + (bytes \<Rightarrow> u32 option) \<Rightarrow> anyhow + bytes \<Rightarrow>
     anyhow + (bytes \<times> bytes) list \<Rightarrow> anyhow + qwen2_tokenizer" where
  "tokenizer_load pieces vocabulary merges decoder =
     and_then vocabulary (\<lambda>vocabulary.
     and_then merges (\<lambda>merges.
     and_then (merges_from 0
       (filter (\<lambda>line. \<not> starts_with ''#'' line) (text_lines merges)) (\<lambda>_. None)) (\<lambda>ranks.
     and_then decoder (\<lambda>decoder.
     and_then (added_tokens_from decoder) (\<lambda>added.
     Ok \<lparr>tk_pieces = pieces, tk_vocabulary = vocabulary, tk_merge_ranks = ranks,
         tk_byte_encoder = build_byte_encoder,
         tk_added_tokens = sort_key (\<lambda>(token, ident). (- int (length token), ident)) added\<rparr>)))))"

section \<open>Properties\<close>

lemma merge_loop_spec:
  "concat (merge_loop ranks xs) = concat xs \<and> best_pair ranks (merge_loop ranks xs) = None"
proof (induction ranks xs rule: merge_loop.induct)
  case (1 ranks symbols)
  show ?case
  proof (cases "best_pair ranks symbols")
    case (Some p)
    with 1 show ?thesis by (cases p) (simp add: merge_loop.simps [of ranks symbols])
  qed (simp add: merge_loop.simps)
qed

text \<open>C34: byte-pair encoding loses nothing and merges as far as the ranks allow: the symbols joined
  again are the encoded piece, and no two neighbours of the result have a merge rank.\<close>

theorem bpe_lossless_maximal:
  "concat (byte_pair_encode ranks token) = token \<and>
    (\<forall>p \<in> set (windows2 (byte_pair_encode ranks token)). ranks p = None)"
proof (cases "length (chars token) < 2")
  case True
  then have "windows2 (chars token) = []" by (cases "chars token" rule: windows2.cases) auto
  with True show ?thesis by (simp add: byte_pair_encode_def)
next
  case False
  then show ?thesis
    using merge_loop_spec [of ranks "chars token"]
    by (auto simp: byte_pair_encode_def Let_def best_pair_None [symmetric])
qed

lemma bpe_lossless_maximal_witness:
  "concat (byte_pair_encode (\<lambda>p. if p = (''a'', ''b'') then Some 0 else None) ''cab'') = ''cab'' \<and>
     (''a'', ''b'') \<notin> set (windows2 (byte_pair_encode (\<lambda>p. if p = (''a'', ''b'') then Some 0 else None) ''cab''))"
  using bpe_lossless_maximal [of "\<lambda>p. if p = (''a'', ''b'') then Some 0 else None" "''cab''"] by auto

lemma encoder_loop_eq:
  "encoder_loop xs (v, m, k) =
     (v @ filter (\<lambda>b. b \<notin> set printable_bytes) xs,
      m @ [256 + k ..< 256 + k + length (filter (\<lambda>b. b \<notin> set printable_bytes) xs)],
      k + length (filter (\<lambda>b. b \<notin> set printable_bytes) xs))"
proof (induction xs arbitrary: v m k)
  case (Cons x xs)
  show ?case
    by (cases "x \<in> set printable_bytes") (simp_all add: Cons.IH upt_conv_Cons ac_simps)
qed simp

lemma fold_update_nth:
  assumes "distinct (map fst ps)" and "(b, c) \<in> set ps" and "b < length e"
  shows "fold (\<lambda>(b, c) e. e[b := f c]) ps e ! b = f c"
proof -
  have other: "b \<notin> fst ` set ps \<Longrightarrow> fold (\<lambda>(b, c) e. e[b := f c]) ps e ! b = e ! b" for ps b and e :: "'b list"
    by (induction ps arbitrary: e) auto
  show ?thesis
    using assms
  proof (induction ps arbitrary: e)
    case (Cons q ps)
    show ?case
    proof (cases "q = (b, c)")
      case True
      then show ?thesis using Cons.prems other [of b ps] by auto
    next
      case False
      then show ?thesis
        using Cons.prems Cons.IH [of "e[fst q := f (snd q)]"] by (cases q) auto
    qed
  qed simp
qed

lemma length_fold_update [simp]: "length (fold (\<lambda>(b, c) e. e[b := f c]) ps e) = length e"
  by (induction ps arbitrary: e) auto

lemma printable_facts: "distinct printable_bytes" "\<forall>b \<in> set printable_bytes. b < 256"
  unfolding printable_bytes_def by (auto simp del: upt_rec_numeral)

text \<open>The encoder maps every byte to the character of its own code point, all different.\<close>

lemma byte_encoder_code:
  obtains code where "length build_byte_encoder = 256"
    and "\<And>i. i < 256 \<Longrightarrow> build_byte_encoder ! i = utf8_of (code i) \<and> code i < 1024"
    and "inj_on code {0..<256}"
proof -
  obtain all rest where all: "all = [0..<256::nat]"
    and rest_def: "rest = filter (\<lambda>b. b \<notin> set printable_bytes) all" by simp
  let ?vals = "printable_bytes @ rest"
  let ?mapped = "printable_bytes @ [256..<256 + length rest]"
  have d_all: "distinct all" "set all = {0..<256}" "length all = 256"
    unfolding all by (simp_all del: upt_rec_numeral)
  have dv: "distinct ?vals" using printable_facts d_all by (auto simp: rest_def)
  have dm: "distinct ?mapped" using printable_facts by fastforce
  have len: "length ?mapped = length ?vals" by simp
  have rest: "length rest \<le> 256"
    unfolding rest_def by (rule order_trans [OF length_filter_le]) (simp add: d_all)
  have mapped: "n < 1024" if "n \<in> set ?mapped" for n
    using that rest printable_facts(2) by fastforce
  have vals: "set ?vals = {0..<256}" using printable_facts d_all by (auto simp: rest_def)
  define code where "code i = the (map_of (zip ?vals ?mapped) i)" for i
  have pair: "(i, code i) \<in> set (zip ?vals ?mapped)" if "i < 256" for i
  proof -
    have "i \<in> set ?vals" using that by (simp only: vals) simp
    then obtain c where "map_of (zip ?vals ?mapped) i = Some c"
      by (metis len map_of_zip_is_Some)
    then show ?thesis unfolding code_def by (auto dest: map_of_SomeD)
  qed
  have enc: "build_byte_encoder =
      fold (\<lambda>(b, c) e. e[b := utf8_of c]) (zip ?vals ?mapped) (replicate 256 [char_of (0::nat)])"
    unfolding build_byte_encoder_def Let_def encoder_loop_eq all [symmetric] rest_def [symmetric] by simp
  have "map fst (zip ?vals ?mapped) = ?vals" using len by (simp only: map_fst_zip)
  with dv have d: "distinct (map fst (zip ?vals ?mapped))" by simp
  show ?thesis
  proof
    show "length build_byte_encoder = 256" by (simp only: enc length_fold_update length_replicate)
    show "build_byte_encoder ! i = utf8_of (code i) \<and> code i < 1024" if "i < 256" for i
    proof
      show "build_byte_encoder ! i = utf8_of (code i)"
        unfolding enc using d pair [OF that] by (rule fold_update_nth) (use that in simp)
      show "code i < 1024"
        using pair [OF that] mapped by (metis set_zip_rightD)
    qed
    show "inj_on code {0..<256}"
    proof (rule inj_onI)
      fix i j assume "i \<in> {0..<256}" "j \<in> {0..<256}" and eq: "code i = code j"
      then have "(i, code i) \<in> set (zip ?vals ?mapped)" "(j, code i) \<in> set (zip ?vals ?mapped)"
        using pair [of i] pair [of j] by auto
      then obtain a b where ab: "a < length ?vals" "b < length ?vals" "?vals ! a = i" "?vals ! b = j"
          "?mapped ! a = code i" "?mapped ! b = code i"
        using len unfolding in_set_zip by (metis fst_conv snd_conv)
      then have "a = b" using dm len by (metis nth_eq_iff_index_eq)
      then show "i = j" using ab by simp
    qed
  qed
qed

lemma utf8_of_chars:
  assumes "n < 1024"
  shows "utf8_of n \<noteq> []" "\<not> is_cont (hd (utf8_of n))" "\<forall>c \<in> set (tl (utf8_of n)). is_cont c"
  using assms by (auto simp: utf8_of_def is_cont_def)

lemma utf8_of_inj: "m < 1024 \<Longrightarrow> n < 1024 \<Longrightarrow> utf8_of m = utf8_of n \<Longrightarrow> m = n"
proof -
  assume less: "m < 1024" "n < 1024" and eq: "utf8_of m = utf8_of n"
  have "map bv (utf8_of m) = map bv (utf8_of n)" using eq by simp
  then show "m = n"
    using less by (auto simp: utf8_of_def split: if_splits) (metis div_mult_mod_eq)
qed

lemma chars_utf8_append:
  assumes "n < 1024" and "rest = [] \<or> \<not> is_cont (hd rest)"
  shows "chars (utf8_of n @ rest) = utf8_of n # chars rest"
proof -
  obtain c cs where u: "utf8_of n = c # cs" "\<not> is_cont c" "\<forall>x \<in> set cs. is_cont x"
    using utf8_of_chars [OF assms(1)] by (cases "utf8_of n") auto
  have "takeWhile is_cont (cs @ rest) = cs" "dropWhile is_cont (cs @ rest) = rest"
    using u(3) assms(2) by (cases rest; simp)+
  with u(1) show ?thesis by simp
qed

lemma chars_encode_piece:
  assumes "tk_byte_encoder t = build_byte_encoder"
  shows "chars (encode_piece t piece) = map (\<lambda>byte. build_byte_encoder ! bv byte) piece"
proof -
  obtain code where code: "\<And>i. i < 256 \<Longrightarrow> build_byte_encoder ! i = utf8_of (code i) \<and> code i < 1024"
    using byte_encoder_code by metis
  show ?thesis
  proof (induction piece)
    case (Cons b piece)
    have b: "build_byte_encoder ! bv b = utf8_of (code (bv b))" "code (bv b) < 1024"
      using code [OF bv_less] by blast+
    have "encode_piece t piece = [] \<or> \<not> is_cont (hd (encode_piece t piece))"
    proof (cases piece)
      case (Cons b' piece')
      have "build_byte_encoder ! bv b' = utf8_of (code (bv b'))" "code (bv b') < 1024"
        using code [OF bv_less] by blast+
      then show ?thesis
        using utf8_of_chars [of "code (bv b')"] by (simp add: Cons encode_piece_def assms)
    qed (simp add: encode_piece_def)
    then have "chars (utf8_of (code (bv b)) @ encode_piece t piece) =
        utf8_of (code (bv b)) # chars (encode_piece t piece)"
      using b(2) by (intro chars_utf8_append)
    then show ?case using Cons.IH b by (simp add: encode_piece_def assms)
  qed (simp add: encode_piece_def)
qed

text \<open>C35: the tokens of a piece determine its bytes: the byte encoder gives each byte a character of
  its own, and merging only joins neighbours.\<close>

theorem bpe_tokens_determine_piece:
  assumes "tk_byte_encoder t = build_byte_encoder"
    and "byte_pair_encode ranks (encode_piece t p) = byte_pair_encode ranks (encode_piece t q)"
  shows "p = q"
proof -
  obtain code where code: "\<And>i. i < 256 \<Longrightarrow> build_byte_encoder ! i = utf8_of (code i) \<and> code i < 1024"
    and inj: "inj_on code {0..<256}" using byte_encoder_code by metis
  have joined: "concat (byte_pair_encode ranks s) = s" for s
    using merge_loop_spec [of ranks "chars s"] by (simp add: byte_pair_encode_def Let_def)
  have "encode_piece t p = encode_piece t q" using assms(2) joined by metis
  then have eq: "map (\<lambda>byte. build_byte_encoder ! bv byte) p = map (\<lambda>byte. build_byte_encoder ! bv byte) q"
    using chars_encode_piece [OF assms(1)] by metis
  have "inj (\<lambda>byte. build_byte_encoder ! bv byte)"
  proof (rule injI)
    fix x y assume "build_byte_encoder ! bv x = build_byte_encoder ! bv y"
    then have "code (bv x) = code (bv y)"
      using code [OF bv_less] utf8_of_inj by metis
    then have "bv x = bv y" using inj bv_less by (simp add: inj_on_def)
    then show "x = y" by (metis char_of_bv)
  qed
  then show ?thesis using eq by (simp add: inj_map_eq_map)
qed

definition example_tokenizer :: qwen2_tokenizer where
  "example_tokenizer = \<lparr>tk_pieces = (\<lambda>s. [Some s]), tk_vocabulary = (\<lambda>s. Some (of_nat (length s))),
     tk_merge_ranks = (\<lambda>p. if p = (''a'', ''b'') then Some 0 else None),
     tk_byte_encoder = build_byte_encoder, tk_added_tokens = [(''<|im_start|>'', 151644)]\<rparr>"

lemma bpe_tokens_determine_piece_witness:
  "byte_pair_encode (tk_merge_ranks example_tokenizer) (encode_piece example_tokenizer ''abd'') \<noteq>
     byte_pair_encode (tk_merge_ranks example_tokenizer) (encode_piece example_tokenizer ''abc'')"
  using bpe_tokens_determine_piece [of example_tokenizer _ "''abd''" "''abc''"]
  by (auto simp: example_tokenizer_def)

end
