(* ===== verification/NtPrompt.thy ===== *)
theory NtPrompt
  imports NtTokenizer RustFloat
begin

text \<open>
  The talker's model configuration and its contract (\<open>config.rs\<close>) and the VoiceDesign prompt
  (\<open>prompt.rs\<close>): which text token and which codec token each prefill step embeds, and which text
  follows during decoding. Reading and parsing \<open>config.json\<close> is an argument.
\<close>

section \<open>\<open>config.rs\<close>\<close>

record rope_scaling =
  rs_interleaved :: bool
  rs_mrope_section :: "nat list"

record predictor_config =
  pc_attention_bias :: bool
  pc_attention_dropout :: f32
  pc_head_dim :: nat
  pc_hidden_act :: bytes
  pc_hidden_size :: nat
  pc_intermediate_size :: nat
  pc_max_position_embeddings :: nat
  pc_num_attention_heads :: nat
  pc_num_code_groups :: nat
  pc_num_hidden_layers :: nat
  pc_num_key_value_heads :: nat
  pc_rms_norm_eps :: f32
  pc_rope_theta :: f32
  pc_vocab_size :: nat

record talker_config =
  tc_attention_bias :: bool
  tc_attention_dropout :: f32
  tc_code_predictor :: predictor_config
  tc_codec_bos_id :: u32
  tc_codec_eos_token_id :: u32
  tc_codec_language_id :: "bytes \<Rightarrow> u32 option"
  tc_codec_nothink_id :: u32
  tc_codec_pad_id :: u32
  tc_codec_think_bos_id :: u32
  tc_codec_think_eos_id :: u32
  tc_codec_think_id :: u32
  tc_head_dim :: nat
  tc_hidden_act :: bytes
  tc_hidden_size :: nat
  tc_intermediate_size :: nat
  tc_max_position_embeddings :: nat
  tc_num_attention_heads :: nat
  tc_num_code_groups :: nat
  tc_num_hidden_layers :: nat
  tc_num_key_value_heads :: nat
  tc_position_id_per_seconds :: nat
  tc_rms_norm_eps :: f32
  tc_rope_scaling :: rope_scaling
  tc_rope_theta :: f32
  tc_text_hidden_size :: nat
  tc_text_vocab_size :: nat
  tc_vocab_size :: nat

record model_config =
  mc_tts_bos_token_id :: u32
  mc_tts_eos_token_id :: u32
  mc_tts_pad_token_id :: u32
  mc_tts_model_type :: bytes
  mc_tokenizer_type :: bytes
  mc_talker_config :: talker_config

text \<open>The checks run in order; the first that fails gives its message.\<close>

fun first_failure :: "(bool \<times> anyhow) list \<Rightarrow> anyhow + unit" where
  "first_failure [] = Ok ()"
| "first_failure ((holds, e) # rest) = (if holds then first_failure rest else Err e)"

definition validate_voice_design_1_7b :: "model_config \<Rightarrow> anyhow + unit" where
  "validate_voice_design_1_7b c =
     (let t = mc_talker_config c; p = tc_code_predictor t in first_failure
       [(mc_tts_model_type c = ''voice_design'',
           MessageOn ''expected VoiceDesign model'' (mc_tts_model_type c)),
        (mc_tokenizer_type c = ''qwen3_tts_tokenizer_12hz'',
           MessageOn ''unsupported speech tokenizer'' (mc_tokenizer_type c)),
        (\<not> tc_attention_bias t, Message ''talker attention bias is unsupported''),
        (fp_eq (tc_attention_dropout t) (FFin 0), Message ''talker dropout must be zero''),
        (tc_hidden_size t = 2048, Message ''talker hidden size must be 2048''),
        (tc_intermediate_size t = 6144, Message ''talker intermediate size must be 6144''),
        (tc_num_hidden_layers t = 28, Message ''talker must have 28 layers''),
        (tc_num_attention_heads t = 16 \<and> tc_num_key_value_heads t = 8,
           Message ''talker must use 16 query and 8 KV heads''),
        (tc_head_dim t = 128, Message ''talker head dimension must be 128''),
        (tc_num_code_groups t = 16, Message ''talker must use 16 codebooks''),
        (tc_vocab_size t = 3072, Message ''talker codec vocabulary must be 3072''),
        (tc_text_vocab_size t = 151936 \<and> tc_text_hidden_size t = 2048,
           Message ''unexpected talker text embedding dimensions''),
        (tc_hidden_act t = ''silu'', Message ''talker activation must be SiLU''),
        (rs_interleaved (tc_rope_scaling t) \<and> rs_mrope_section (tc_rope_scaling t) = [24, 20, 20],
           Message ''talker must use interleaved MRoPE sections [24, 20, 20]''),
        (\<not> pc_attention_bias p, Message ''predictor attention bias is unsupported''),
        (fp_eq (pc_attention_dropout p) (FFin 0), Message ''predictor dropout must be zero''),
        (pc_hidden_size p = 1024, Message ''predictor hidden size must be 1024''),
        (pc_intermediate_size p = 3072, Message ''predictor intermediate size must be 3072''),
        (pc_num_hidden_layers p = 5, Message ''predictor must have 5 layers''),
        (pc_num_attention_heads p = 16 \<and> pc_num_key_value_heads p = 8,
           Message ''predictor must use 16 query and 8 KV heads''),
        (pc_head_dim p = 128, Message ''predictor head dimension must be 128''),
        (pc_num_code_groups p = 16, Message ''predictor must use 16 codebooks''),
        (pc_vocab_size p = 2048, Message ''predictor vocabulary must be 2048''),
        (pc_hidden_act p = ''silu'', Message ''predictor activation must be SiLU''),
        (tc_codec_language_id t ''turkish'' = None,
           Message ''the pinned model unexpectedly claims an explicit Turkish language ID'')])"

definition model_config_load :: "anyhow + model_config \<Rightarrow> anyhow + model_config" where
  "model_config_load parsed =
     and_then parsed (\<lambda>config. and_then (validate_voice_design_1_7b config) (\<lambda>_. Ok config))"

definition language_id :: "model_config \<Rightarrow> bytes \<Rightarrow> anyhow + u32 option" where
  "language_id config lang =
     (if eq_ignore_ascii_case lang ''auto'' then Ok None
      else case tc_codec_language_id (mc_talker_config config) (to_ascii_lower lang) of
        Some n \<Rightarrow> Ok (Some n)
      | None \<Rightarrow> Err (MessageOn ''unsupported explicit language'' lang))"

section \<open>\<open>prompt.rs\<close>\<close>

datatype text_source = TextToken u32 | TtsBos | TtsEos | TtsPad

record embedding_step =
  es_text :: "text_source option"
  es_codec :: "u32 option"

record voice_design_prompt =
  vp_instruction_ids :: "u32 list"
  vp_assistant_ids :: "u32 list"
  vp_prefill :: "embedding_step list"
  vp_trailing_text :: "text_source list"

datatype text_mode = Streaming | NonStreaming

text \<open>\<open>xs[a..b]\<close> panics unless \<open>a \<le> b \<le> length xs\<close>.\<close>

definition slice :: "nat \<Rightarrow> nat \<Rightarrow> 'a list \<Rightarrow> 'a list unwind" where
  "slice a b xs = (if a \<le> b \<and> b \<le> length xs then Returned (take (b - a) (drop a xs)) else Panicked)"

definition text_step :: "u32 \<Rightarrow> embedding_step" where
  "text_step token = \<lparr>es_text = Some (TextToken token), es_codec = None\<rparr>"

definition codec_prefix :: "talker_config \<Rightarrow> u32 option \<Rightarrow> u32 list" where
  "codec_prefix talker lang =
     (case lang of
        Some n \<Rightarrow> [tc_codec_think_id talker, tc_codec_think_bos_id talker, n, tc_codec_think_eos_id talker]
      | None \<Rightarrow> [tc_codec_nothink_id talker, tc_codec_think_bos_id talker, tc_codec_think_eos_id talker])
     @ [tc_codec_pad_id talker, tc_codec_bos_id talker]"

text \<open>The loop over all codec ids of the prefix but the last.\<close>

definition prefix_steps :: "u32 list \<Rightarrow> embedding_step list" where
  "prefix_steps prefix =
     map (\<lambda>(index, codec). \<lparr>es_text = Some (if index + 1 = length prefix - 1 then TtsBos else TtsPad),
         es_codec = Some codec\<rparr>)
       (List.enumerate 0 (butlast prefix))"

definition from_token_ids ::
  "model_config \<Rightarrow> u32 list \<Rightarrow> u32 list \<Rightarrow> bytes \<Rightarrow> text_mode \<Rightarrow> (anyhow + voice_design_prompt) unwind" where
  "from_token_ids config instruction assistant lang mode =
     (if \<not> 8 \<le> length assistant then Returned (Err (Message ''assistant prompt is too short''))
      else case language_id config lang of
        Inl e \<Rightarrow> Returned (Err e)
      | Inr language \<Rightarrow>
          (let talker = mc_talker_config config;
               prefix = codec_prefix talker language;
               prefill = map text_step instruction @ map text_step (take 3 assistant) @ prefix_steps prefix
           in case mode of
                Streaming \<Rightarrow>
                  (case slice 4 (length assistant - 5) assistant of
                     Panicked \<Rightarrow> Panicked
                   | Returned trailing \<Rightarrow> Returned (Ok
                       \<lparr>vp_instruction_ids = instruction, vp_assistant_ids = assistant,
                        vp_prefill = prefill @ [\<lparr>es_text = Some (TextToken (assistant ! 3)),
                                                 es_codec = Some (last prefix)\<rparr>],
                        vp_trailing_text = map TextToken trailing @ [TtsEos]\<rparr>))
              | NonStreaming \<Rightarrow>
                  (case slice 3 (length assistant - 5) assistant of
                     Panicked \<Rightarrow> Panicked
                   | Returned body \<Rightarrow> Returned (Ok
                       \<lparr>vp_instruction_ids = instruction, vp_assistant_ids = assistant,
                        vp_prefill = prefill
                          @ map (\<lambda>token. \<lparr>es_text = Some (TextToken token),
                                          es_codec = Some (tc_codec_pad_id talker)\<rparr>) body
                          @ [\<lparr>es_text = Some TtsEos, es_codec = Some (tc_codec_pad_id talker)\<rparr>,
                             \<lparr>es_text = Some TtsPad, es_codec = Some (tc_codec_bos_id talker)\<rparr>],
                        vp_trailing_text = [TtsPad]\<rparr>))))"

definition newline :: bytes where "newline = [char_of (10::nat)]"

definition instruction_text :: "bytes \<Rightarrow> bytes" where
  "instruction_text instruction =
     ''<|im_start|>user'' @ newline @ instruction @ ''<|im_end|>'' @ newline"

definition assistant_text :: "bytes \<Rightarrow> bytes" where
  "assistant_text text =
     ''<|im_start|>assistant'' @ newline @ text @ ''<|im_end|>'' @ newline @ ''<|im_start|>assistant'' @ newline"

text \<open>\<open>None\<close>: the tokenizer does not return.\<close>

definition prompt_tokenize ::
  "(bytes \<Rightarrow> (anyhow + u32 list) option) \<Rightarrow> model_config \<Rightarrow> bytes \<Rightarrow> bytes \<Rightarrow> bytes \<Rightarrow> text_mode \<Rightarrow>
     (anyhow + voice_design_prompt) unwind option" where
  "prompt_tokenize encode_text config text instruction lang mode =
     Option.bind (if instruction = [] then Some (Ok []) else encode_text (instruction_text instruction))
       (\<lambda>instruction_ids. case instruction_ids of
          Inl e \<Rightarrow> Some (Returned (Err e))
        | Inr instruction_ids \<Rightarrow>
            Option.bind (encode_text (assistant_text text)) (\<lambda>assistant_ids. case assistant_ids of
              Inl e \<Rightarrow> Some (Returned (Err e))
            | Inr assistant_ids \<Rightarrow>
                Some (from_token_ids config instruction_ids assistant_ids lang mode)))"

definition codec_frame_from_predictor :: "u32 \<Rightarrow> u32 list \<Rightarrow> anyhow + u32 list" where
  "codec_frame_from_predictor codebook_zero residual =
     (if length residual = 15 then Ok (codebook_zero # residual)
      else Err (Message ''predictor must return exactly 15 residual codebooks''))"

definition codec_frame_is_eos :: "u32 list \<Rightarrow> model_config \<Rightarrow> bool" where
  "codec_frame_is_eos frame config \<longleftrightarrow> frame ! 0 = tc_codec_eos_token_id (mc_talker_config config)"

section \<open>Properties\<close>

text \<open>The ids of the text a prompt embeds, in order: first the prefill steps, then the trailing text.\<close>

definition source_ids :: "text_source list \<Rightarrow> u32 list" where
  "source_ids ts = List.map_filter (\<lambda>s. case s of TextToken n \<Rightarrow> Some n | _ \<Rightarrow> None) ts"

definition prompt_text :: "voice_design_prompt \<Rightarrow> u32 list" where
  "prompt_text p = source_ids (List.map_filter es_text (vp_prefill p) @ vp_trailing_text p)"

lemma map_filter_append [simp]: "List.map_filter f (xs @ ys) = List.map_filter f xs @ List.map_filter f ys"
  by (simp add: List.map_filter_def)

lemma text_of_text_steps [simp]: "List.map_filter es_text (map text_step xs) = map TextToken xs"
  by (induction xs) (simp_all add: text_step_def List.map_filter_def)

lemma text_of_codec_steps [simp]:
  "List.map_filter es_text (map (\<lambda>x. \<lparr>es_text = Some (TextToken x), es_codec = c\<rparr>) xs) = map TextToken xs"
  by (induction xs) (simp_all add: List.map_filter_def)

lemma source_ids_simps [simp]:
  "source_ids [] = []" "source_ids (xs @ ys) = source_ids xs @ source_ids ys"
  "source_ids (TextToken n # xs) = n # source_ids xs" "source_ids (TtsBos # xs) = source_ids xs"
  "source_ids (TtsEos # xs) = source_ids xs" "source_ids (TtsPad # xs) = source_ids xs"
  "source_ids (map TextToken ns) = ns"
  by (induction ns) (simp_all add: source_ids_def List.map_filter_def)

lemma source_ids_prefix [simp]: "source_ids (List.map_filter es_text (prefix_steps (codec_prefix t l))) = []"
  by (simp add: prefix_steps_def codec_prefix_def List.map_filter_def split: option.split)

lemma length_prefix_steps [simp]:
  "length (prefix_steps (codec_prefix t l)) = (case l of None \<Rightarrow> 4 | Some _ \<Rightarrow> 5)"
  by (simp add: prefix_steps_def codec_prefix_def split: option.split)

lemma take_drop_split: "a \<le> b \<Longrightarrow> take a xs @ take (b - a) (drop a xs) = take b xs"
  by (metis add_diff_inverse_nat not_less take_add)

text \<open>C31: a prompt embeds every token of the instruction and of the assistant turn's text exactly once and
  in order, whichever text mode: what the prefill does not hold follows as trailing text. Only the
  five tokens that close the turn are left out.\<close>

theorem prompt_embeds_text_once:
  assumes "from_token_ids config instruction assistant lang mode = Returned (Ok p)"
  shows "prompt_text p = instruction @ take (length assistant - 5) assistant \<and>
    (\<forall>s \<in> set (vp_prefill p). es_text s \<noteq> None) \<and>
    length (vp_prefill p) \<le> length instruction + length assistant + 5"
proof -
  obtain language where lang: "language_id config lang = Ok language" and n: "8 \<le> length assistant"
    using assms by (auto simp: from_token_ids_def split: if_splits sum.splits)
  have prefix: "\<forall>s \<in> set (prefix_steps (codec_prefix t l)). es_text s \<noteq> None" for t l
    by (auto simp: prefix_steps_def)
  have tail3: "take 3 assistant @ take (length assistant - 8) (drop 3 assistant) = take (length assistant - 5) assistant"
    using n take_drop_split [of 3 "length assistant - 5" assistant] by simp
  show ?thesis
  proof (cases mode)
    case Streaming
    with assms lang n have c: "4 \<le> length assistant - 5"
      by (auto simp: from_token_ids_def slice_def split: if_splits)
    have "take 4 assistant = take 3 assistant @ [assistant ! 3]"
      using n take_Suc_conv_app_nth [of 3 assistant] by (simp add: eval_nat_numeral)
    then have tail4: "take 3 assistant @ assistant ! 3 # take (length assistant - 9) (drop 4 assistant) =
        take (length assistant - 5) assistant"
      using take_drop_split [OF c, of assistant] by simp
    show ?thesis
      using assms lang n c prefix tail4
      by (auto simp: from_token_ids_def slice_def Streaming prompt_text_def text_step_def
          List.map_filter_simps Let_def split: option.split)
  next
    case NonStreaming
    have c: "3 \<le> length assistant - 5" using n by simp
    from NonStreaming show ?thesis
      using assms lang n c prefix tail3
      by (auto simp: from_token_ids_def slice_def prompt_text_def text_step_def
          List.map_filter_simps Let_def split: option.split)
  qed
qed

text \<open>C32: building a prompt panics exactly when the assistant turn has eight tokens in streaming mode:
  the guard admits eight, but the streaming branch needs nine.\<close>

theorem from_token_ids_panics_iff:
  "from_token_ids config instruction assistant lang mode = Panicked \<longleftrightarrow>
     length assistant = 8 \<and> mode = Streaming \<and> is_ok (language_id config lang)"
  by (auto simp: from_token_ids_def slice_def Let_def is_ok_iff split: sum.split text_mode.split)

lemma first_failure_Ok [simp]: "first_failure cs = Ok () \<longleftrightarrow> (\<forall>c \<in> set cs. fst c)"
  by (induction cs) (auto split: if_splits)

definition example_config :: model_config where
  "example_config =
     \<lparr>mc_tts_bos_token_id = 151672, mc_tts_eos_token_id = 151673, mc_tts_pad_token_id = 151671,
      mc_tts_model_type = ''voice_design'', mc_tokenizer_type = ''qwen3_tts_tokenizer_12hz'',
      mc_talker_config =
        \<lparr>tc_attention_bias = False, tc_attention_dropout = FFin 0,
         tc_code_predictor =
           \<lparr>pc_attention_bias = False, pc_attention_dropout = FFin 0, pc_head_dim = 128,
            pc_hidden_act = ''silu'', pc_hidden_size = 1024, pc_intermediate_size = 3072,
            pc_max_position_embeddings = 65536, pc_num_attention_heads = 16, pc_num_code_groups = 16,
            pc_num_hidden_layers = 5, pc_num_key_value_heads = 8, pc_rms_norm_eps = FFin 0,
            pc_rope_theta = FFin 1000000, pc_vocab_size = 2048\<rparr>,
         tc_codec_bos_id = 2149, tc_codec_eos_token_id = 2150,
         tc_codec_language_id = [''german'' \<mapsto> 2053, ''english'' \<mapsto> 2050],
         tc_codec_nothink_id = 2155, tc_codec_pad_id = 2148, tc_codec_think_bos_id = 2156,
         tc_codec_think_eos_id = 2157, tc_codec_think_id = 2154, tc_head_dim = 128,
         tc_hidden_act = ''silu'', tc_hidden_size = 2048, tc_intermediate_size = 6144,
         tc_max_position_embeddings = 32768, tc_num_attention_heads = 16, tc_num_code_groups = 16,
         tc_num_hidden_layers = 28, tc_num_key_value_heads = 8, tc_position_id_per_seconds = 13,
         tc_rms_norm_eps = FFin 0,
         tc_rope_scaling = \<lparr>rs_interleaved = True, rs_mrope_section = [24, 20, 20]\<rparr>,
         tc_rope_theta = FFin 1000000, tc_text_hidden_size = 2048, tc_text_vocab_size = 151936,
         tc_vocab_size = 3072\<rparr>\<rparr>"

lemma example_config_valid: "validate_voice_design_1_7b example_config = Ok ()"
  by (simp add: validate_voice_design_1_7b_def example_config_def)

lemma prompt_embeds_text_once_witness:
  "\<exists>p. from_token_ids example_config [1, 2] [3, 4, 5, 6, 7, 8, 9, 10, 11, 12] ''auto'' Streaming = Returned (Ok p) \<and>
     prompt_text p = [1, 2, 3, 4, 5, 6, 7]"
proof -
  have a: "language_id example_config ''auto'' = Ok None"
    by (simp add: language_id_def eq_ignore_ascii_case_def)
  obtain p where "from_token_ids example_config [1, 2] [3, 4, 5, 6, 7, 8, 9, 10, 11, 12] ''auto'' Streaming = Returned (Ok p)"
    by (simp add: from_token_ids_def slice_def Let_def a)
  then show ?thesis using prompt_embeds_text_once by fastforce
qed

end
