(* ===== verification/NtTalker.thy ===== *)
theory NtTalker
  imports NtPrompt
begin

text \<open>
  The talker of \<open>native_talker.rs\<close>: sampling settings, the session pool, starting a session,
  decoding frame by frame on the host and on device leases, recycling and teardown. The CUDA
  library is a record of functions on a state of its own, of which the model asks nothing; a
  session handle is a number, 0 being null. Wall-clock measurements are left out.
\<close>

section \<open>Sampling and requests\<close>

record sampling_config =
  sg_do_sample :: bool
  sg_top_k :: u32
  sg_top_p :: f32
  sg_temperature :: f32
  sg_repetition_penalty :: f32

record native_sampling_config =
  ns_do_sample :: "32 word"
  ns_top_k :: "32 word"
  ns_top_p :: f32
  ns_temperature :: f32
  ns_repetition_penalty :: f32

definition official_talker_defaults :: sampling_config where
  "official_talker_defaults = \<lparr>sg_do_sample = True, sg_top_k = 50, sg_top_p = FFin 1,
     sg_temperature = f32_lit (9 / 10), sg_repetition_penalty = f32_lit (105 / 100)\<rparr>"

definition official_predictor_defaults :: sampling_config where
  "official_predictor_defaults = \<lparr>sg_do_sample = True, sg_top_k = 50, sg_top_p = FFin 1,
     sg_temperature = f32_lit (9 / 10), sg_repetition_penalty = FFin 1\<rparr>"

definition greedy :: sampling_config where
  "greedy = \<lparr>sg_do_sample = False, sg_top_k = 0, sg_top_p = FFin 1, sg_temperature = FFin 1,
     sg_repetition_penalty = FFin 1\<rparr>"

definition sampling_native :: "sampling_config \<Rightarrow> anyhow + native_sampling_config" where
  "sampling_native s =
     and_then (ensure (unat (sg_top_k s) \<le> 2 ^ 31 - 1) ''top_k is too large'') (\<lambda>_.
     and_then (ensure (fp_lt (FFin 0) (sg_top_p s) \<and> fp_le (sg_top_p s) (FFin 1)) ''top_p must be in (0, 1]'') (\<lambda>_.
     and_then (ensure (fp_lt (FFin 0) (sg_temperature s)) ''temperature must be positive'') (\<lambda>_.
     and_then (ensure (fp_lt (FFin 0) (sg_repetition_penalty s)) ''repetition penalty must be positive'') (\<lambda>_.
     Ok \<lparr>ns_do_sample = (if sg_do_sample s then 1 else 0), ns_top_k = sg_top_k s, ns_top_p = sg_top_p s,
         ns_temperature = sg_temperature s, ns_repetition_penalty = sg_repetition_penalty s\<rparr>))))"

record voice_design_request =
  vr_text :: bytes
  vr_instruction :: bytes
  vr_language :: bytes
  vr_text_mode :: text_mode
  vr_max_frames :: nat
  vr_max_sequence_length :: nat
  vr_random_seed :: u64
  vr_talker_sampling :: sampling_config
  vr_predictor_sampling :: sampling_config

definition voice_design_request_new :: "bytes \<Rightarrow> bytes \<Rightarrow> bytes \<Rightarrow> voice_design_request" where
  "voice_design_request_new text instruction lang =
     \<lparr>vr_text = text, vr_instruction = instruction, vr_language = lang, vr_text_mode = Streaming,
      vr_max_frames = 512, vr_max_sequence_length = 1024, vr_random_seed = 0,
      vr_talker_sampling = official_talker_defaults, vr_predictor_sampling = official_predictor_defaults\<rparr>"

record generation_settings =
  gs_max_frames :: nat
  gs_max_sequence_length :: nat
  gs_random_seed :: u64
  gs_talker_sampling :: sampling_config
  gs_predictor_sampling :: sampling_config

section \<open>The native library\<close>

type_synonym handle = nat
type_synonym native_status = "32 word \<times> bytes"

record session_memory =
  sm_talker_kv_bytes :: u64
  sm_predictor_kv_bytes :: u64
  sm_workspace_bytes :: u64
  sm_max_sequence_length :: u32

record native_prefill_result =
  np_first_semantic_token :: u16
  np_prompt_tokens :: u32
  np_talker_gpu_milliseconds :: f32

record native_frame_info =
  ni_talker_position :: u32
  ni_ended_by_eos :: u32
  ni_predictor_gpu_milliseconds :: f32
  ni_talker_gpu_milliseconds :: f32

record device_frame_view =
  dv_struct_size :: u32
  dv_code_count :: u32
  dv_device_codes :: nat
  dv_ready_event :: nat
  dv_lease_id :: u64
  dv_device_index :: "32 word"
  dv_reserved :: u32

record native_state_info =
  si_abi_version :: u32
  si_phase :: u32
  si_talker_position :: u32
  si_semantic_history_count :: u32
  si_frames_generated :: u64
  si_device_sample_count :: u64
  si_host_sync_count :: u64

text \<open>\<open>tl_missing\<close> lists the symbols the loaded library does not export.\<close>

record 'l talker_library =
  tl_missing :: "bytes list"
  tl_abi_version :: u32
  tl_model_create :: "32 word \<Rightarrow> 'l \<Rightarrow> (native_status \<times> handle) \<times> 'l"
  tl_model_destroy :: "handle \<Rightarrow> 'l \<Rightarrow> 'l"
  tl_upload :: "handle \<Rightarrow> bytes \<Rightarrow> bytes \<Rightarrow> nat list \<Rightarrow> 'l \<Rightarrow> native_status \<times> 'l"
  tl_finalize :: "handle \<Rightarrow> 'l \<Rightarrow> (native_status \<times> u64 \<times> u32 \<times> 32 word) \<times> 'l"
  tl_session_create :: "handle \<Rightarrow> 32 word \<Rightarrow> u64 \<Rightarrow> 'l \<Rightarrow> (native_status \<times> handle \<times> session_memory) \<times> 'l"
  tl_session_destroy :: "handle \<Rightarrow> 'l \<Rightarrow> 'l"
  tl_session_reset :: "handle \<Rightarrow> u64 \<Rightarrow> 'l \<Rightarrow> native_status \<times> 'l"
  tl_prefill :: "handle \<Rightarrow> 32 word list \<Rightarrow> 32 word list \<Rightarrow> native_sampling_config \<Rightarrow> 'l \<Rightarrow>
    (native_status \<times> native_prefill_result) \<times> 'l"
  tl_next_frame :: "handle \<Rightarrow> u16 \<Rightarrow> 32 word \<Rightarrow> native_sampling_config \<Rightarrow> native_sampling_config \<Rightarrow> 'l \<Rightarrow>
    (native_status \<times> u16 list \<times> u16 \<times> native_frame_info) \<times> 'l"
  tl_state_info :: "handle \<Rightarrow> 'l \<Rightarrow> (native_status \<times> native_state_info) \<times> 'l"
  tl_begin :: "handle \<Rightarrow> 32 word \<Rightarrow> native_sampling_config \<Rightarrow> native_sampling_config \<Rightarrow> 'l \<Rightarrow>
    (native_status \<times> device_frame_view) \<times> 'l"
  tl_finish :: "handle \<Rightarrow> u64 \<Rightarrow> nat \<Rightarrow> 'l \<Rightarrow> (native_status \<times> u16 \<times> native_frame_info) \<times> 'l"

definition ensure_native_success :: "native_status \<Rightarrow> anyhow + unit" where
  "ensure_native_success s = (if fst s = 0 then Ok () else Err (NativeStatus (fst s) (snd s)))"

definition with_context :: "bytes \<Rightarrow> anyhow + 'a \<Rightarrow> anyhow + 'a" where
  "with_context m = map_err (Context m)"

definition find_symbol :: "'l talker_library \<Rightarrow> bytes \<Rightarrow> anyhow + unit" where
  "find_symbol lib name =
     (if name \<in> set (tl_missing lib) then Err (Context (''missing '' @ name @ '' symbol'') (Message [])) else Ok ())"

definition find_abi_symbol :: "'l talker_library \<Rightarrow> nat \<Rightarrow> bytes \<Rightarrow> anyhow + unit" where
  "find_abi_symbol lib version name =
     (if name \<in> set (tl_missing lib)
      then Err (Context (''talker ABI v'' @ show_nat version @ '' is missing '' @ name) (Message [])) else Ok ())"

section \<open>Models, sessions and the pool\<close>

record shared_model_memory =
  mm_weight_bytes :: u64
  mm_tensor_count :: u32
  mm_device_index :: "32 word"

record pooled_session =
  ps_handle :: handle
  ps_memory :: session_memory

datatype session_end_reason = CodecEos | MaxFrames | SessionCancelled

record talker_session =
  ts_handle :: handle
  ts_memory :: session_memory
  ts_trailing_text :: "text_source list"
  ts_current_semantic :: u16
  ts_codec_eos_token :: u16
  ts_frames_emitted :: nat
  ts_max_frames :: nat
  ts_talker_sampling :: native_sampling_config
  ts_predictor_sampling :: native_sampling_config
  ts_prefill :: native_prefill_result
  ts_pool_hit :: bool
  ts_end_reason :: "session_end_reason option"
  ts_recyclable :: bool

record 'l talker_model =
  tm_library :: "'l talker_library"
  tm_handle :: handle
  tm_has_pump :: bool
  tm_device_api :: bool
  tm_config :: model_config
  tm_memory :: shared_model_memory

text \<open>What changes while the model is in use: the library's state and the pool.\<close>

record 'l talker_world =
  tw_native :: 'l
  tw_pool :: "pooled_session list"

definition MIN_SESSION_CAPACITY :: nat where "MIN_SESSION_CAPACITY = 16"
definition SESSION_CAPACITY_BLOCK :: nat where "SESSION_CAPACITY_BLOCK = 32"
definition MAX_POOLED_SESSIONS :: nat where "MAX_POOLED_SESSIONS = 8"

definition session_capacity :: "nat \<Rightarrow> nat \<Rightarrow> nat \<Rightarrow> anyhow + nat" where
  "session_capacity prompt_tokens max_frames max_sequence_length =
     and_then (ensure (MIN_SESSION_CAPACITY \<le> max_sequence_length) ''max_sequence_length must be at least 16'') (\<lambda>_.
     and_then (ok_or (usize_checked_add prompt_tokens max_frames)
       (Message ''prompt and frame count overflow the session capacity'')) (\<lambda>required.
     and_then (ensure (required \<le> max_sequence_length)
       (''request needs '' @ show_nat required @ '' talker positions ('' @ show_nat prompt_tokens
        @ '' prompt tokens + '' @ show_nat max_frames @ '' codec frames), exceeding max_sequence_length=''
        @ show_nat max_sequence_length)) (\<lambda>_.
     and_then (ok_or (usize_checked_add (max required MIN_SESSION_CAPACITY) (SESSION_CAPACITY_BLOCK - 1))
       (Message ''session capacity overflow'')) (\<lambda>padded.
     Ok (min (padded div SESSION_CAPACITY_BLOCK * SESSION_CAPACITY_BLOCK) max_sequence_length)))))"

definition smallest_adequate_session_index :: "pooled_session list \<Rightarrow> nat \<Rightarrow> nat option" where
  "smallest_adequate_session_index pool required =
     map_option fst
       (min_first (\<lambda>(_, e). sm_max_sequence_length (ps_memory e))
         (filter (\<lambda>(_, e). required \<le> unat (sm_max_sequence_length (ps_memory e)))
           (List.enumerate 0 pool)))"

definition destroy_session :: "'l talker_library \<Rightarrow> handle \<Rightarrow> 'l talker_world \<Rightarrow> 'l talker_world" where
  "destroy_session lib h w =
     (if h = 0 \<or> ''qwen3_tts_session_destroy'' \<in> set (tl_missing lib) then w
      else w\<lparr>tw_native := tl_session_destroy lib h (tw_native w)\<rparr>)"

definition recycle_session :: "'l talker_library \<Rightarrow> pooled_session \<Rightarrow> 'l talker_world \<Rightarrow> 'l talker_world" where
  "recycle_session lib pooled w =
     (if length (tw_pool w) < MAX_POOLED_SESSIONS then w\<lparr>tw_pool := tw_pool w @ [pooled]\<rparr>
      else destroy_session lib (ps_handle pooled) w)"

text \<open>Reset of a pooled session; the flag of the result says that it came from the pool.\<close>

definition reset_pooled :: "'l talker_library \<Rightarrow> pooled_session \<Rightarrow> u64 \<Rightarrow> 'l talker_world \<Rightarrow>
    (anyhow + pooled_session \<times> bool) \<times> 'l talker_world" where
  "reset_pooled lib pooled seed w =
     (case find_symbol lib ''qwen3_tts_session_reset'' of
        Inl e \<Rightarrow> (Err e, destroy_session lib (ps_handle pooled) w)
      | Inr _ \<Rightarrow>
          (case tl_session_reset lib (ps_handle pooled) seed (tw_native w) of
             (status, l) \<Rightarrow>
               (case ensure_native_success status of
                  Inl e \<Rightarrow> (Err (Context ''failed to reset a pooled talker session'' e),
                     destroy_session lib (ps_handle pooled) (w\<lparr>tw_native := l\<rparr>))
                | Inr _ \<Rightarrow> (Ok (pooled, True), w\<lparr>tw_native := l\<rparr>))))"

definition create_session :: "'l talker_model \<Rightarrow> nat \<Rightarrow> u64 \<Rightarrow> 'l talker_world \<Rightarrow>
    (anyhow + pooled_session \<times> bool) \<times> 'l talker_world" where
  "create_session m capacity seed w =
     (case find_symbol (tm_library m) ''qwen3_tts_session_create'' of
        Inl e \<Rightarrow> (Err e, w)
      | Inr _ \<Rightarrow>
          (case tl_session_create (tm_library m) (tm_handle m) (of_nat capacity) seed (tw_native w) of
             ((status, h, memory), l) \<Rightarrow>
               (and_then (ensure_native_success status) (\<lambda>_.
                and_then (ensure (h \<noteq> 0) ''native session creation returned a null handle'') (\<lambda>_.
                Ok (\<lparr>ps_handle = h, ps_memory = memory\<rparr>, False))), w\<lparr>tw_native := l\<rparr>)))"

definition acquire_session :: "'l talker_model \<Rightarrow> nat \<Rightarrow> u64 \<Rightarrow> 'l talker_world \<Rightarrow>
    (anyhow + pooled_session \<times> bool) \<times> 'l talker_world" where
  "acquire_session m capacity seed w =
     (case smallest_adequate_session_index (tw_pool w) capacity of
        Some index \<Rightarrow> reset_pooled (tm_library m) (tw_pool w ! index) seed
          (w\<lparr>tw_pool := swap_remove index (tw_pool w)\<rparr>)
      | None \<Rightarrow> create_session m capacity seed w)"

definition i32_try_from :: "bytes \<Rightarrow> u32 \<Rightarrow> anyhow + 32 word" where
  "i32_try_from m token =
     (if unat token \<le> 2 ^ 31 - 1 then Ok token else Err (Context m (Message [])))"

definition text_source_id :: "model_config \<Rightarrow> text_source \<Rightarrow> anyhow + 32 word" where
  "text_source_id config source =
     i32_try_from ''text token exceeds i32''
       (case source of TextToken token \<Rightarrow> token | TtsBos \<Rightarrow> mc_tts_bos_token_id config
        | TtsEos \<Rightarrow> mc_tts_eos_token_id config | TtsPad \<Rightarrow> mc_tts_pad_token_id config)"

fun native_prompt_steps :: "model_config \<Rightarrow> embedding_step list \<Rightarrow> anyhow + 32 word list \<times> 32 word list" where
  "native_prompt_steps config [] = Ok ([], [])"
| "native_prompt_steps config (step # rest) =
     and_then (case es_text step of Some source \<Rightarrow> text_source_id config source | None \<Rightarrow> Ok (- 1)) (\<lambda>text.
     and_then (case es_codec step of Some token \<Rightarrow> i32_try_from ''codec token exceeds i32'' token | None \<Rightarrow> Ok (- 1)) (\<lambda>codec.
     and_then (native_prompt_steps config rest) (\<lambda>(texts, codecs). Ok (text # texts, codec # codecs))))"

text \<open>Dropping a session gives its handle back to the pool or destroys it.\<close>

definition drop_session :: "'l talker_library \<Rightarrow> talker_session \<Rightarrow> 'l talker_world \<Rightarrow> 'l talker_world" where
  "drop_session lib s w =
     (if ts_handle s = 0 then w
      else if ts_recyclable s
      then recycle_session lib \<lparr>ps_handle = ts_handle s, ps_memory = ts_memory s\<rparr> w
      else destroy_session lib (ts_handle s) w)"

definition prefill_native :: "'l talker_library \<Rightarrow> talker_session \<Rightarrow> 32 word list \<Rightarrow> 32 word list \<Rightarrow>
    native_sampling_config \<Rightarrow> 'l talker_world \<Rightarrow> (anyhow + native_prefill_result) \<times> 'l talker_world" where
  "prefill_native lib s text_ids codec_ids sampling w =
     (case find_symbol lib ''qwen3_tts_session_prefill'' of
        Inl e \<Rightarrow> (Err e, w)
      | Inr _ \<Rightarrow>
          (case tl_prefill lib (ts_handle s) text_ids codec_ids sampling (tw_native w) of
             ((status, out), l) \<Rightarrow>
               (and_then (ensure_native_success status) (\<lambda>_. Ok out), w\<lparr>tw_native := l\<rparr>)))"

definition new_session :: "'l talker_model \<Rightarrow> voice_design_prompt \<Rightarrow> generation_settings \<Rightarrow>
    native_sampling_config \<Rightarrow> native_sampling_config \<Rightarrow> pooled_session \<times> bool \<Rightarrow> talker_session" where
  "new_session m prompt settings talker predictor acquired =
     \<lparr>ts_handle = ps_handle (fst acquired), ts_memory = ps_memory (fst acquired),
      ts_trailing_text = vp_trailing_text prompt, ts_current_semantic = 0,
      ts_codec_eos_token = ucast (tc_codec_eos_token_id (mc_talker_config (tm_config m))),
      ts_frames_emitted = 0, ts_max_frames = gs_max_frames settings,
      ts_talker_sampling = talker, ts_predictor_sampling = predictor,
      ts_prefill = \<lparr>np_first_semantic_token = 0, np_prompt_tokens = 0, np_talker_gpu_milliseconds = FFin 0\<rparr>,
      ts_pool_hit = snd acquired, ts_end_reason = None, ts_recyclable = False\<rparr>"

text \<open>The part of \<open>start_prompt\<close> before a session is acquired.\<close>

definition plan_prompt :: "'l talker_model \<Rightarrow> voice_design_prompt \<Rightarrow> generation_settings \<Rightarrow>
    anyhow + (32 word list \<times> 32 word list) \<times> nat \<times> native_sampling_config \<times> native_sampling_config" where
  "plan_prompt m prompt settings =
     and_then (ensure (0 < gs_max_frames settings) ''max_frames must be positive'') (\<lambda>_.
     and_then (ensure (gs_max_sequence_length settings \<le> 2 ^ 31 - 1) ''max sequence length is too large'') (\<lambda>_.
     and_then (native_prompt_steps (tm_config m) (vp_prefill prompt)) (\<lambda>(text_ids, codec_ids).
     and_then (ensure (length text_ids \<le> 2 ^ 31 - 1) ''prompt is too long'') (\<lambda>_.
     and_then (session_capacity (length text_ids) (gs_max_frames settings) (gs_max_sequence_length settings)) (\<lambda>capacity.
     and_then (sampling_native (gs_talker_sampling settings)) (\<lambda>talker.
     and_then (sampling_native (gs_predictor_sampling settings)) (\<lambda>predictor.
     Ok ((text_ids, codec_ids), capacity, talker, predictor))))))))"

definition start_prompt :: "'l talker_model \<Rightarrow> voice_design_prompt \<Rightarrow> generation_settings \<Rightarrow> 'l talker_world \<Rightarrow>
    (anyhow + talker_session) \<times> 'l talker_world" where
  "start_prompt m prompt settings w =
     (case plan_prompt m prompt settings of
        Inl e \<Rightarrow> (Err e, w)
      | Inr ((text_ids, codec_ids), capacity, talker, predictor) \<Rightarrow>
          (case acquire_session m capacity (gs_random_seed settings) w of
             (Inl e, w1) \<Rightarrow> (Err e, w1)
           | (Inr acquired, w1) \<Rightarrow>
               (let session = new_session m prompt settings talker predictor acquired in
                case prefill_native (tm_library m) session text_ids codec_ids talker w1 of
                  (Inl e, w2) \<Rightarrow> (Err e, drop_session (tm_library m) session w2)
                | (Inr prefill, w2) \<Rightarrow>
                    (Ok (session\<lparr>ts_current_semantic := np_first_semantic_token prefill, ts_prefill := prefill,
                       ts_end_reason := (if np_first_semantic_token prefill = ts_codec_eos_token session
                                         then Some CodecEos else None),
                       ts_recyclable := True\<rparr>), w2))))"

definition settings_of :: "voice_design_request \<Rightarrow> generation_settings" where
  "settings_of request =
     \<lparr>gs_max_frames = vr_max_frames request, gs_max_sequence_length = vr_max_sequence_length request,
      gs_random_seed = vr_random_seed request, gs_talker_sampling = vr_talker_sampling request,
      gs_predictor_sampling = vr_predictor_sampling request\<rparr>"

text \<open>\<open>start\<close>, given the prompt the tokenizer made.\<close>

definition talker_start :: "'l talker_model \<Rightarrow> anyhow + voice_design_prompt \<Rightarrow> voice_design_request \<Rightarrow>
    'l talker_world \<Rightarrow> (anyhow + talker_session) \<times> 'l talker_world" where
  "talker_start m prompt request w =
     (case prompt of Inl e \<Rightarrow> (Err e, w) | Inr p \<Rightarrow> start_prompt m p (settings_of request) w)"

end
