(* ===== verification/NtDecode.thy ===== *)
theory NtDecode
  imports NtTalker "HOL-Library.List_Lexorder"
begin

text \<open>
  Decoding with a talker session (\<open>native_talker.rs\<close>): frames on the host, device leases, the
  whole-utterance loop, and the model's loading and teardown.
\<close>

section \<open>Host frames\<close>

record streaming_codec_frame =
  sf_codes :: "u16 list"
  sf_frame_index :: nat
  sf_next_semantic_token :: u16
  sf_talker_position :: u32
  sf_predictor_gpu_milliseconds :: f32
  sf_talker_gpu_milliseconds :: f32
  sf_ended_by_eos :: bool

record finished_device_frame =
  ff_frame_index :: nat
  ff_next_semantic_token :: u16
  ff_talker_position :: u32
  ff_predictor_gpu_milliseconds :: f32
  ff_talker_gpu_milliseconds :: f32
  ff_ended_by_eos :: bool

definition session_cancel :: "talker_session \<Rightarrow> talker_session" where
  "session_cancel s =
     (if ts_end_reason s = None then s\<lparr>ts_end_reason := Some SessionCancelled\<rparr> else s)"

text \<open>The three checks at the head of every frame operation: \<open>None\<close> when there is no next frame.\<close>

definition frame_guard :: "talker_session \<Rightarrow> talker_session option" where
  "frame_guard s =
     (if ts_end_reason s \<noteq> None then Some s
      else if ts_max_frames s \<le> ts_frames_emitted s then Some (s\<lparr>ts_end_reason := Some MaxFrames\<rparr>)
      else if ts_current_semantic s = ts_codec_eos_token s then Some (s\<lparr>ts_end_reason := Some CodecEos\<rparr>)
      else None)"

definition next_text :: "talker_session \<Rightarrow> text_source" where
  "next_text s =
     (if ts_frames_emitted s < length (ts_trailing_text s)
      then ts_trailing_text s ! ts_frames_emitted s else TtsPad)"

definition next_native :: "'l talker_library \<Rightarrow> talker_session \<Rightarrow> 32 word \<Rightarrow> 'l talker_world \<Rightarrow>
    (anyhow + u16 list \<times> u16 \<times> native_frame_info) \<times> 'l talker_world" where
  "next_native lib s text_id w =
     (case tl_next_frame lib (ts_handle s) (ts_current_semantic s) text_id
         (ts_talker_sampling s) (ts_predictor_sampling s) (tw_native w) of
        ((status, codes, token, info), l) \<Rightarrow>
          (and_then (ensure_native_success status) (\<lambda>_. Ok (codes, token, info)), w\<lparr>tw_native := l\<rparr>))"

definition end_after :: "talker_session \<Rightarrow> bool \<Rightarrow> talker_session" where
  "end_after s ended_by_eos =
     (if ended_by_eos then s\<lparr>ts_end_reason := Some CodecEos\<rparr>
      else if ts_max_frames s \<le> ts_frames_emitted s then s\<lparr>ts_end_reason := Some MaxFrames\<rparr>
      else s)"

text \<open>After the native call: the session has already moved on when the EOS flags are compared.\<close>

definition take_frame :: "talker_session \<Rightarrow> u16 list \<times> u16 \<times> native_frame_info \<Rightarrow>
    (anyhow + streaming_codec_frame option) \<times> talker_session" where
  "take_frame s frame =
     (case frame of (codes, token, info) \<Rightarrow>
        (let s1 = s\<lparr>ts_frames_emitted := ts_frames_emitted s + 1, ts_current_semantic := token\<rparr>;
             ended_by_eos = (token = ts_codec_eos_token s1)
         in if ended_by_eos \<noteq> (ni_ended_by_eos info \<noteq> 0)
            then (Err (Message ''native EOS flag disagrees with the semantic token''), s1)
            else (Ok (Some \<lparr>sf_codes = codes, sf_frame_index = ts_frames_emitted s,
                     sf_next_semantic_token = token, sf_talker_position = ni_talker_position info,
                     sf_predictor_gpu_milliseconds = ni_predictor_gpu_milliseconds info,
                     sf_talker_gpu_milliseconds = ni_talker_gpu_milliseconds info,
                     sf_ended_by_eos = ended_by_eos\<rparr>), end_after s1 ended_by_eos)))"

definition next_frame :: "'l talker_model \<Rightarrow> talker_session \<Rightarrow> 'l talker_world \<Rightarrow>
    (anyhow + streaming_codec_frame option) \<times> talker_session \<times> 'l talker_world" where
  "next_frame m s w =
     (case frame_guard s of
        Some s' \<Rightarrow> (Ok None, s', w)
      | None \<Rightarrow>
          (case text_source_id (tm_config m) (next_text s) of
             Inl e \<Rightarrow> (Err e, s, w)
           | Inr text_id \<Rightarrow>
               (case next_native (tm_library m) s text_id w of
                  (Inl e, w') \<Rightarrow> (Err e, s\<lparr>ts_recyclable := False\<rparr>, w')
                | (Inr frame, w') \<Rightarrow> (case take_frame s frame of (r, s') \<Rightarrow> (r, s', w')))))"

section \<open>Device frames\<close>

definition sizeof_device_frame_view :: nat where
  "sizeof_device_frame_view = 2 * 4 + 2 * 8 + 8 + 2 * 4"

definition validate_view :: "'l talker_model \<Rightarrow> device_frame_view \<Rightarrow> anyhow + unit" where
  "validate_view m v = first_failure
     [(unat (dv_struct_size v) = sizeof_device_frame_view,
         Message ''native device-frame view has an invalid size''),
      (unat (dv_code_count v) = 16, Message ''native device-frame view has an invalid code count''),
      (dv_device_codes v \<noteq> 0 \<and> dv_ready_event v \<noteq> 0,
         Message ''native device-frame view returned a null CUDA value''),
      (dv_lease_id v \<noteq> 0, Message ''native device-frame view returned lease zero''),
      (dv_device_index v = mm_device_index (tm_memory m),
         Message ''native device-frame view returned the wrong CUDA device''),
      (dv_reserved v = 0, Message ''native device-frame view returned a nonzero reserved field'')]"

text \<open>A returned view is the pending frame; it borrows the session until it is finished or dropped.\<close>

definition begin_device_frame :: "'l talker_model \<Rightarrow> talker_session \<Rightarrow> 'l talker_world \<Rightarrow>
    (anyhow + device_frame_view option) \<times> talker_session \<times> 'l talker_world" where
  "begin_device_frame m s w =
     (case frame_guard s of
        Some s' \<Rightarrow> (Ok None, s', w)
      | None \<Rightarrow>
          if \<not> tm_device_api m
          then (Err (Context ''native talker does not support device-frame leases'' (Message [])), s, w)
          else (case text_source_id (tm_config m) (next_text s) of
             Inl e \<Rightarrow> (Err e, s, w)
           | Inr text_id \<Rightarrow>
               (case tl_begin (tm_library m) (ts_handle s) text_id (ts_talker_sampling s)
                   (ts_predictor_sampling s) (tw_native w) of
                  ((status, view), l) \<Rightarrow>
                    (case and_then (with_context ''failed to begin a native device frame''
                        (ensure_native_success status)) (\<lambda>_. validate_view m view) of
                       Inl e \<Rightarrow> (Err e, s\<lparr>ts_recyclable := False\<rparr>, w\<lparr>tw_native := l\<rparr>)
                     | Inr _ \<Rightarrow> (Ok (Some view), s, w\<lparr>tw_native := l\<rparr>)))))"

record frame_request =
  fr_session :: handle
  fr_trailing_text_token :: "32 word"
  fr_talker_sampling :: native_sampling_config
  fr_predictor_sampling :: native_sampling_config

text \<open>What comes back from the batch pump for a submitted request.\<close>

datatype pump_reply = NotSubmitted | PumpView device_frame_view | PumpFailed bytes | PumpDropped

definition begin_device_frame_batched ::
  "(frame_request \<Rightarrow> 'l \<Rightarrow> pump_reply \<times> 'l) \<Rightarrow> 'l talker_model \<Rightarrow> talker_session \<Rightarrow> 'l talker_world \<Rightarrow>
     (anyhow + device_frame_view option) \<times> talker_session \<times> 'l talker_world" where
  "begin_device_frame_batched pump m s w =
     (if \<not> tm_has_pump m \<or> ts_frames_emitted s = 0 then begin_device_frame m s w
      else case frame_guard s of
        Some s' \<Rightarrow> (Ok None, s', w)
      | None \<Rightarrow>
          (case text_source_id (tm_config m) (next_text s) of
             Inl e \<Rightarrow> (Err e, s, w)
           | Inr text_id \<Rightarrow>
               (case pump \<lparr>fr_session = ts_handle s, fr_trailing_text_token = text_id,
                   fr_talker_sampling = ts_talker_sampling s,
                   fr_predictor_sampling = ts_predictor_sampling s\<rparr> (tw_native w) of
                  (reply, l) \<Rightarrow>
                    (case
                       (case reply of
                          NotSubmitted \<Rightarrow> Err (Message ''the batch frame pump has shut down'')
                        | PumpFailed m \<Rightarrow>
                            Err (Message (''failed to begin a native batched device frame: '' @ m))
                        | PumpDropped \<Rightarrow> Err (Message ''the batch frame pump dropped a pending frame request'')
                        | PumpView view \<Rightarrow> and_then (validate_view m view) (\<lambda>_. Ok view))
                     of Inl e \<Rightarrow> (Err e, s\<lparr>ts_recyclable := False\<rparr>, w\<lparr>tw_native := l\<rparr>)
                      | Inr view \<Rightarrow> (Ok (Some view), s, w\<lparr>tw_native := l\<rparr>)))))"

definition finish_device_native_raw :: "'l talker_model \<Rightarrow> talker_session \<Rightarrow> u64 \<Rightarrow> nat \<Rightarrow> 'l talker_world \<Rightarrow>
    (anyhow + u16 \<times> native_frame_info) \<times> talker_session \<times> 'l talker_world" where
  "finish_device_native_raw m s lease event w =
     (if \<not> tm_device_api m
      then (Err (Context ''native talker does not support device-frame leases'' (Message [])), s, w)
      else case tl_finish (tm_library m) (ts_handle s) lease event (tw_native w) of
        ((status, token, info), l) \<Rightarrow>
          (case with_context ''failed to finish a native device frame'' (ensure_native_success status) of
             Inl e \<Rightarrow> (Err e, s\<lparr>ts_recyclable := False\<rparr>, w\<lparr>tw_native := l\<rparr>)
           | Inr _ \<Rightarrow> (Ok (token, info), s, w\<lparr>tw_native := l\<rparr>)))"

definition commit_finished_device_frame :: "talker_session \<Rightarrow> u16 \<Rightarrow> native_frame_info \<Rightarrow>
    (anyhow + finished_device_frame) \<times> talker_session" where
  "commit_finished_device_frame s token info =
     (let ended_by_eos = (token = ts_codec_eos_token s) in
      if ended_by_eos \<noteq> (ni_ended_by_eos info \<noteq> 0)
      then (Err (Message ''native EOS flag disagrees with the semantic token''), s\<lparr>ts_recyclable := False\<rparr>)
      else (Ok \<lparr>ff_frame_index = ts_frames_emitted s, ff_next_semantic_token = token,
              ff_talker_position = ni_talker_position info,
              ff_predictor_gpu_milliseconds = ni_predictor_gpu_milliseconds info,
              ff_talker_gpu_milliseconds = ni_talker_gpu_milliseconds info,
              ff_ended_by_eos = ended_by_eos\<rparr>,
            end_after (s\<lparr>ts_frames_emitted := ts_frames_emitted s + 1, ts_current_semantic := token\<rparr>)
              ended_by_eos))"

text \<open>Dropping a pending frame that was not finished: the lease is closed and the session is spent.\<close>

definition drop_pending :: "'l talker_model \<Rightarrow> device_frame_view \<Rightarrow> talker_session \<Rightarrow> 'l talker_world \<Rightarrow>
    talker_session \<times> 'l talker_world" where
  "drop_pending m view s w =
     (case finish_device_native_raw m s (dv_lease_id view) 0 w of
        (_, s', w') \<Rightarrow> (s'\<lparr>ts_recyclable := False, ts_end_reason := Some SessionCancelled\<rparr>, w'))"

text \<open>\<open>complete\<close>, with the drop of the pending frame that follows: once the native frame is finished
  it does nothing, before that it closes the lease.\<close>

definition complete_pending :: "'l talker_model \<Rightarrow> device_frame_view \<Rightarrow> nat \<Rightarrow> talker_session \<Rightarrow> 'l talker_world \<Rightarrow>
    (anyhow + finished_device_frame) \<times> talker_session \<times> 'l talker_world" where
  "complete_pending m view event s w =
     (case finish_device_native_raw m s (dv_lease_id view) event w of
        (Inl e, s', w') \<Rightarrow> (case drop_pending m view s' w' of (s'', w'') \<Rightarrow> (Err e, s'', w''))
      | (Inr (token, info), s', w') \<Rightarrow>
          (case commit_finished_device_frame s' token info of (r, s'') \<Rightarrow> (r, s'', w')))"

definition finish_without_consumer :: "'l talker_model \<Rightarrow> device_frame_view \<Rightarrow> talker_session \<Rightarrow> 'l talker_world \<Rightarrow>
    (anyhow + finished_device_frame) \<times> talker_session \<times> 'l talker_world" where
  "finish_without_consumer m view s w = complete_pending m view 0 s w"

definition finish_with_consumer_event :: "'l talker_model \<Rightarrow> device_frame_view \<Rightarrow> nat \<Rightarrow> talker_session \<Rightarrow>
    'l talker_world \<Rightarrow> (anyhow + finished_device_frame) \<times> talker_session \<times> 'l talker_world" where
  "finish_with_consumer_event m view event s w =
     (if event = 0
      then (case drop_pending m view s w of
        (s', w') \<Rightarrow> (Err (Message ''consumer completion event must not be null''), s', w'))
      else complete_pending m view event s w)"

datatype talker_phase = PhaseCreated | PhaseReady | PhasePrefilled | PhaseEnded

definition session_runtime_state :: "'l talker_library \<Rightarrow> talker_session \<Rightarrow> 'l talker_world \<Rightarrow>
    (anyhow + talker_phase \<times> native_state_info) \<times> 'l talker_world" where
  "session_runtime_state lib s w =
     (case find_symbol lib ''qwen3_tts_session_state_info'' of
        Inl e \<Rightarrow> (Err e, w)
      | Inr _ \<Rightarrow>
          (case tl_state_info lib (ts_handle s) (tw_native w) of
             ((status, info), l) \<Rightarrow>
               (and_then (ensure_native_success status) (\<lambda>_.
                if si_phase info = 0 then Ok (PhaseCreated, info)
                else if si_phase info = 1 then Ok (PhaseReady, info)
                else if si_phase info = 2 then Ok (PhasePrefilled, info)
                else if si_phase info = 3 then Ok (PhaseEnded, info)
                else Err (Message (''native session returned unknown phase '' @ show_nat (unat (si_phase info))))),
                w\<lparr>tw_native := l\<rparr>)))"

section \<open>A whole utterance\<close>

record generation_output =
  go_codec_codes :: "u16 list"
  go_frame_count :: nat
  go_ended_by_eos :: bool
  go_first_semantic_token :: u16
  go_final_semantic_token :: u16
  go_prompt_tokens :: u32
  go_prefill_talker_gpu_milliseconds :: f32
  go_frame_timings :: "(u32 \<times> f32 \<times> f32) list"
  go_session_memory :: session_memory
  go_model_memory :: shared_model_memory

lemma next_frame_advances:
  assumes "next_frame m s w = (Ok (Some frame), s', w')"
  shows "ts_frames_emitted s < ts_max_frames s" "ts_frames_emitted s' = Suc (ts_frames_emitted s)"
    "ts_max_frames s' = ts_max_frames s" "sf_frame_index frame = ts_frames_emitted s"
  using assms
  by (auto simp: next_frame_def frame_guard_def take_frame_def end_after_def Let_def
      split: option.splits sum.splits prod.splits if_splits)

lemma next_frame_decreases:
  "next_frame m s w = (Ok (Some frame), s', w') \<Longrightarrow>
     ts_max_frames s' - ts_frames_emitted s' < ts_max_frames s - ts_frames_emitted s"
  using next_frame_advances [of m s w frame s' w'] by simp

text \<open>The \<open>while let\<close> loop; \<open>codes\<close> and \<open>timings\<close> are the vectors filled so far.\<close>

function generate_loop :: "'l talker_model \<Rightarrow> u16 list \<Rightarrow> (u32 \<times> f32 \<times> f32) list \<Rightarrow> talker_session \<Rightarrow>
    'l talker_world \<Rightarrow>
    (anyhow + u16 list \<times> (u32 \<times> f32 \<times> f32) list) \<times> talker_session \<times> 'l talker_world" where
  "generate_loop m codes timings s w =
     (case next_frame m s w of
        (Inl e, s', w') \<Rightarrow> (Err e, s', w')
      | (Inr None, s', w') \<Rightarrow> (Ok (codes, timings), s', w')
      | (Inr (Some frame), s', w') \<Rightarrow>
          generate_loop m (codes @ sf_codes frame)
            (timings @ [(sf_talker_position frame, sf_predictor_gpu_milliseconds frame,
               sf_talker_gpu_milliseconds frame)]) s' w')"
  by pat_completeness auto
termination
  by (relation "measure (\<lambda>(_, _, _, s, _). ts_max_frames s - ts_frames_emitted s)")
    (auto dest: next_frame_decreases [OF sym])

declare generate_loop.simps [simp del]

definition generate_prompt :: "'l talker_model \<Rightarrow> voice_design_prompt \<Rightarrow> generation_settings \<Rightarrow>
    'l talker_world \<Rightarrow> (anyhow + generation_output) \<times> 'l talker_world" where
  "generate_prompt m prompt settings w =
     (case start_prompt m prompt settings w of
        (Inl e, w1) \<Rightarrow> (Err e, w1)
      | (Inr s, w1) \<Rightarrow>
          (case generate_loop m [] [] s w1 of
             (r, s', w2) \<Rightarrow>
               (and_then r (\<lambda>(codes, timings). Ok
                  \<lparr>go_codec_codes = codes, go_frame_count = length codes div 16,
                   go_ended_by_eos = (ts_end_reason s' = Some CodecEos),
                   go_first_semantic_token = np_first_semantic_token (ts_prefill s),
                   go_final_semantic_token = ts_current_semantic s',
                   go_prompt_tokens = np_prompt_tokens (ts_prefill s),
                   go_prefill_talker_gpu_milliseconds = np_talker_gpu_milliseconds (ts_prefill s),
                   go_frame_timings = timings, go_session_memory = ts_memory s,
                   go_model_memory = tm_memory m\<rparr>),
                drop_session (tm_library m) s' w2)))"

section \<open>Loading and dropping a model\<close>

record tensor_view =
  tv_name :: bytes
  tv_is_bf16 :: bool
  tv_shape :: "nat list"
  tv_data :: bytes

text \<open>Uploading in name order; \<open>tensor\<close> is the weight provider's lookup.\<close>

fun upload_each :: "'l talker_library \<Rightarrow> handle \<Rightarrow> (bytes \<Rightarrow> anyhow + tensor_view) \<Rightarrow> bytes list \<Rightarrow> 'l \<Rightarrow>
    (anyhow + unit) \<times> 'l" where
  "upload_each lib h tensor [] l = (Ok (), l)"
| "upload_each lib h tensor (name # rest) l =
     (case and_then (tensor name) (\<lambda>t.
           and_then (ensure (tv_is_bf16 t) (name @ '' is not BF16'')) (\<lambda>_.
           and_then (ensure (length (tv_shape t) \<le> 4) (name @ '' has more than four dimensions'')) (\<lambda>_.
           and_then (if char_of (0::nat) \<in> set name
                     then Err (Context ''tensor name contains NUL'' (Message [])) else Ok ()) (\<lambda>_. Ok t)))) of
        Inl e \<Rightarrow> (Err e, l)
      | Inr t \<Rightarrow>
          (case tl_upload lib h name (tv_data t) (tv_shape t) l of
             (status, l') \<Rightarrow>
               (case ensure_native_success status of
                  Inl e \<Rightarrow> (Err e, l')
                | Inr _ \<Rightarrow> upload_each lib h tensor rest l')))"

definition upload_weights :: "'l talker_library \<Rightarrow> handle \<Rightarrow> anyhow + bytes list \<Rightarrow>
    (bytes \<Rightarrow> anyhow + tensor_view) \<Rightarrow> 'l \<Rightarrow> (anyhow + unit) \<times> 'l" where
  "upload_weights lib h names tensor l =
     (case and_then (find_symbol lib ''qwen3_tts_model_upload_tensor'') (\<lambda>_. names) of
        Inl e \<Rightarrow> (Err e, l)
      | Inr names \<Rightarrow> upload_each lib h tensor (sort_key (map bv) names) l)"

text \<open>Dropping the model joins the pump, destroys the pooled sessions and then the model.\<close>

definition drop_model :: "'l talker_model \<Rightarrow> 'l talker_world \<Rightarrow> 'l talker_world" where
  "drop_model m w =
     (let w1 = fold (\<lambda>p. destroy_session (tm_library m) (ps_handle p)) (tw_pool w) (w\<lparr>tw_pool := []\<rparr>)
      in if tm_handle m = 0 \<or> ''qwen3_tts_model_destroy'' \<in> set (tl_missing (tm_library m)) then w1
         else w1\<lparr>tw_native := tl_model_destroy (tm_library m) (tm_handle m) (tw_native w1)\<rparr>)"

definition finalize_weights :: "'l talker_library \<Rightarrow> handle \<Rightarrow> 'l \<Rightarrow> (anyhow + shared_model_memory) \<times> 'l" where
  "finalize_weights lib h l =
     (case find_symbol lib ''qwen3_tts_model_finalize'' of
        Inl e \<Rightarrow> (Err e, l)
      | Inr _ \<Rightarrow>
          (case tl_finalize lib h l of
             ((status, weight_bytes, tensor_count, device), l') \<Rightarrow>
               (and_then (ensure_native_success status) (\<lambda>_.
                Ok \<lparr>mm_weight_bytes = weight_bytes, mm_tensor_count = tensor_count,
                    mm_device_index = device\<rparr>), l')))"

text \<open>\<open>load\<close>, given the parsed configuration, the tokenizer and the opened weights. A model whose
  weights cannot be uploaded or finalised is dropped; the handle of a created model is not
  released when only the batch entry point is missing.\<close>

definition talker_load :: "anyhow + model_config \<Rightarrow> anyhow + unit \<Rightarrow> anyhow + bytes list \<times> (bytes \<Rightarrow> anyhow + tensor_view) \<Rightarrow>
    anyhow + 'l talker_library \<Rightarrow> 32 word \<Rightarrow> 'l \<Rightarrow> (anyhow + 'l talker_model) \<times> 'l talker_world" where
  "talker_load config tokenizer provider opened device l =
     (case and_then config (\<lambda>config. and_then tokenizer (\<lambda>_. and_then provider (\<lambda>provider.
           and_then opened (\<lambda>lib.
           and_then (find_symbol lib ''qwen3_tts_talker_abi_version'') (\<lambda>_.
           and_then (ensure (1 \<le> tl_abi_version lib)
             (''unsupported talker ABI version '' @ show_nat (unat (tl_abi_version lib)))) (\<lambda>_.
           and_then (find_symbol lib ''qwen3_tts_session_next_frame'') (\<lambda>_.
           and_then (if 2 \<le> tl_abi_version lib
             then and_then (find_abi_symbol lib 2 ''qwen3_tts_session_next_frame_begin_v2'') (\<lambda>_.
                  find_abi_symbol lib 2 ''qwen3_tts_session_next_frame_finish_v2'')
             else Ok ()) (\<lambda>_.
           and_then (find_symbol lib ''qwen3_tts_model_create'') (\<lambda>_. Ok (config, provider, lib)))))))))) of
        Inl e \<Rightarrow> (Err e, \<lparr>tw_native = l, tw_pool = []\<rparr>)
      | Inr (config, (names, tensor), lib) \<Rightarrow>
          (case tl_model_create lib device l of
             ((status, h), l1) \<Rightarrow>
               (let w1 = \<lparr>tw_native = l1, tw_pool = []\<rparr> in
                case and_then (ensure_native_success status) (\<lambda>_.
                     if 3 \<le> tl_abi_version lib
                     then find_abi_symbol lib 3 ''qwen3_tts_model_batch_next_frame_begin_v2'' else Ok ()) of
                  Inl e \<Rightarrow> (Err e, w1)
                | Inr _ \<Rightarrow>
                    (let model = \<lparr>tm_library = lib, tm_handle = h, tm_has_pump = (3 \<le> tl_abi_version lib),
                           tm_device_api = (2 \<le> tl_abi_version lib), tm_config = config,
                           tm_memory = \<lparr>mm_weight_bytes = 0, mm_tensor_count = 0, mm_device_index = device\<rparr>\<rparr>
                     in case upload_weights lib h (Ok names) tensor l1 of
                          (Inl e, l2) \<Rightarrow> (Err e, drop_model model (w1\<lparr>tw_native := l2\<rparr>))
                        | (Inr _, l2) \<Rightarrow>
                            (case finalize_weights lib h l2 of
                               (Inl e, l3) \<Rightarrow> (Err e, drop_model model (w1\<lparr>tw_native := l3\<rparr>))
                             | (Inr memory, l3) \<Rightarrow>
                                 (Ok (model\<lparr>tm_memory := memory\<rparr>), w1\<lparr>tw_native := l3\<rparr>))))))"

end
