(* ===== verification/NtPump.thy ===== *)
theory NtPump
  imports NtDecode
begin

text \<open>
  The batch frame pump of \<open>native_talker.rs\<close>: a worker thread that gathers the frame requests of
  concurrent sessions into one native call. What arrives on the channel, the clock and the number of
  registered participants are the environment's.
\<close>

definition MAX_BATCH_SESSIONS :: nat where "MAX_BATCH_SESSIONS = 8"

datatype received = Received frame_request | TimedOut | Disconnected

text \<open>What the \<open>n\<close>-th turn of the gather loop finds: the registered count, whether the window is over,
  and the result of \<open>recv_timeout\<close>.\<close>

record gather_turn =
  gt_registered :: nat
  gt_expired :: bool
  gt_received :: received

definition expected_requests :: "nat \<Rightarrow> nat" where
  "expected_requests registered = max 1 (min MAX_BATCH_SESSIONS registered)"

lemma expected_requests_bounds: "1 \<le> expected_requests n \<and> expected_requests n \<le> 8"
  by (simp add: expected_requests_def MAX_BATCH_SESSIONS_def)

function gather :: "(nat \<Rightarrow> gather_turn) \<Rightarrow> nat \<Rightarrow> frame_request list \<Rightarrow> frame_request list" where
  "gather env n batch =
     (let turn = env n in
      if expected_requests (gt_registered turn) \<le> length batch then batch
      else if gt_expired turn then batch
      else case gt_received turn of
             Received request \<Rightarrow> gather env (Suc n) (batch @ [request])
           | TimedOut \<Rightarrow> batch
           | Disconnected \<Rightarrow> batch)"
  by pat_completeness auto
termination
proof (relation "measure (\<lambda>(_, _, batch). 8 - length batch)", goal_cases)
  case (2 env n batch x request)
  then show ?case using expected_requests_bounds [of "gt_registered (env n)"] by auto
qed simp

declare gather.simps [simp del]

type_synonym 'l batch_begin =
  "handle \<Rightarrow> frame_request list \<Rightarrow> 'l \<Rightarrow> (native_status \<times> device_frame_view list) \<times> 'l"

definition default_view :: device_frame_view where
  "default_view = \<lparr>dv_struct_size = of_nat sizeof_device_frame_view, dv_code_count = 0, dv_device_codes = 0,
     dv_ready_event = 0, dv_lease_id = 0, dv_device_index = - 1, dv_reserved = 0\<rparr>"

text \<open>The library fills at most as many views as were handed to it.\<close>

definition filled_views :: "nat \<Rightarrow> device_frame_view list \<Rightarrow> device_frame_view list" where
  "filled_views number written = take number written @ replicate (number - length written) default_view"

definition run_batch :: "'l batch_begin \<Rightarrow> handle \<Rightarrow> frame_request list \<Rightarrow> 'l \<Rightarrow>
    (frame_request \<times> pump_reply) list \<times> 'l" where
  "run_batch begin_v2 model batch l =
     (let number = min (length batch) MAX_BATCH_SESSIONS in
      case begin_v2 model (take number batch) l of
        ((status, written), l') \<Rightarrow>
          (if fst status = 0 then zip batch (map PumpView (filled_views number written))
           else map (\<lambda>request. (request, PumpFailed
             (''status '' @ (if sint (fst status) < 0 then ''-'' else [])
              @ show_nat (nat \<bar>sint (fst status)\<bar>) @ '': '' @ snd status))) batch, l'))"

text \<open>One round of the worker: the first request was received, the others are gathered.\<close>

definition pump_round :: "'l batch_begin \<Rightarrow> handle \<Rightarrow> (nat \<Rightarrow> gather_turn) \<Rightarrow> frame_request \<Rightarrow> 'l \<Rightarrow>
    (frame_request \<times> pump_reply) list \<times> 'l" where
  "pump_round begin_v2 model env first l = run_batch begin_v2 model (gather env 0 [first]) l"

text \<open>Registration is counted up by \<open>register\<close> and down when the registration is dropped.\<close>

definition register_participant :: "nat \<Rightarrow> nat" where "register_participant n = n + 1"
definition drop_registration :: "nat \<Rightarrow> nat" where "drop_registration n = n - 1"

section \<open>Properties\<close>

lemma gather_length: "length batch \<le> 8 \<Longrightarrow> length batch \<le> length (gather env n batch) \<and> length (gather env n batch) \<le> 8"
proof (induction env n batch rule: gather.induct)
  case (1 env n batch)
  then show ?case
    using expected_requests_bounds [of "gt_registered (env n)"]
    by (subst (1 2) gather.simps) (fastforce simp: Let_def split: received.split)
qed

text \<open>C30: a gathered batch never exceeds what one native call takes, so every request in it is answered
  exactly once and, when the call succeeds, with the view of its own place.\<close>

theorem pump_round_answers_all:
  "length (gather env 0 [first]) \<le> MAX_BATCH_SESSIONS \<and>
    map fst (fst (pump_round begin_v2 model env first l)) = gather env 0 [first]"
proof -
  have n: "length (gather env 0 [first]) \<le> 8" using gather_length [of "[first]" env 0] by simp
  have views: "length (filled_views number written) = number" for number written
    by (simp add: filled_views_def)
  show ?thesis
    using n by (auto simp: pump_round_def run_batch_def Let_def MAX_BATCH_SESSIONS_def views o_def
        split: prod.split)
qed

end
