(* ===== verification/NtProperties.thy ===== *)
theory NtProperties
  imports NtPump
begin

text \<open>
  Properties of the talker's session pool and of decoding: capacities, best fit, the order and
  bound of the frames of a session under any sequence of operations, and the accounting of native
  handles over any number of sessions.
\<close>

section \<open>Capacity and best fit\<close>

lemmas capacity_defs = session_capacity_def MIN_SESSION_CAPACITY_def SESSION_CAPACITY_BLOCK_def
  usize_checked_add_def ok_or_def

text \<open>The capacity chosen for a session holds the prompt and all frames, stays within the request's
  hard limit, and is a multiple of the block size unless the limit itself cuts it.\<close>

theorem session_capacity_adequate:
  assumes "session_capacity prompt frames limit = Ok c"
  shows "prompt + frames \<le> c \<and> c \<le> limit \<and> 16 \<le> c \<and> (32 dvd c \<or> c = limit) \<and> c < max 16 (prompt + frames) + 32"
proof -
  have h: "16 \<le> limit" "prompt + frames \<le> limit"
      "c = min ((max (prompt + frames) 16 + 31) div 32 * 32) limit"
    using assms by (auto simp: capacity_defs and_then_Ok_iff split: if_splits)
  have "max (prompt + frames) 16 \<le> (max (prompt + frames) 16 + 31) div 32 * 32"
    "(max (prompt + frames) 16 + 31) div 32 * 32 < max (prompt + frames) 16 + 32" by linarith+
  then show ?thesis using h by (auto simp: max.commute min_def)
qed

lemma session_capacity_adequate_witness:
  "session_capacity 40 512 1024 = Ok 576 \<and> (40::nat) + 512 \<le> 576"
  using session_capacity_adequate [of 40 512 1024 576] by (simp add: capacity_defs usize_max_def)

text \<open>No prompt leaves room for as many frames as the limit itself.\<close>

lemma session_capacity_full_length:
  "0 < prompt \<Longrightarrow> \<not> is_ok (session_capacity prompt limit limit)"
  by (auto simp: capacity_defs is_ok_iff and_then_Ok_iff split: if_splits)

lemma filter_enumerate: "(i, x) \<in> set (List.enumerate n xs) \<longleftrightarrow> n \<le> i \<and> i < n + length xs \<and> xs ! (i - n) = x"
  by (auto simp: in_set_enumerate_eq)

text \<open>A pooled session is reused by best fit: the one found holds the required capacity and no
  adequate session is smaller; none is found only when none is adequate.\<close>

theorem smallest_adequate_best_fit:
  "case smallest_adequate_session_index pool required of
     None \<Rightarrow> \<forall>e \<in> set pool. unat (sm_max_sequence_length (ps_memory e)) < required
   | Some i \<Rightarrow> i < length pool \<and> required \<le> unat (sm_max_sequence_length (ps_memory (pool ! i))) \<and>
       (\<forall>e \<in> set pool. required \<le> unat (sm_max_sequence_length (ps_memory e)) \<longrightarrow>
          sm_max_sequence_length (ps_memory (pool ! i)) \<le> sm_max_sequence_length (ps_memory e))"
proof -
  let ?ok = "\<lambda>(_, e). required \<le> unat (sm_max_sequence_length (ps_memory e))"
  have all: "e \<in> set pool \<Longrightarrow> \<exists>j. (j, e) \<in> set (List.enumerate 0 pool)" for e
    unfolding filter_enumerate by (simp add: in_set_conv_nth)
  show ?thesis
  proof (cases "min_first (\<lambda>(_, e). sm_max_sequence_length (ps_memory e)) (filter ?ok (List.enumerate 0 pool))")
    case None
    then have "\<forall>p \<in> set (List.enumerate 0 pool). \<not> ?ok p" by (simp add: filter_empty_conv)
    then show ?thesis
      using None all by (fastforce simp: smallest_adequate_session_index_def)
  next
    case (Some p)
    obtain i e where p: "p = (i, e)" by (cases p)
    have "(i, e) \<in> set (List.enumerate 0 pool)" "required \<le> unat (sm_max_sequence_length (ps_memory e))"
      "\<forall>q \<in> set (filter ?ok (List.enumerate 0 pool)).
         sm_max_sequence_length (ps_memory e) \<le> sm_max_sequence_length (ps_memory (snd q))"
      using min_first_Some [OF Some [unfolded p]] by (auto simp: case_prod_unfold)
    then show ?thesis
      using Some p all by (fastforce simp: smallest_adequate_session_index_def filter_enumerate)
  qed
qed

definition pooled_of :: "handle \<Rightarrow> u32 \<Rightarrow> pooled_session" where
  "pooled_of h n = \<lparr>ps_handle = h, ps_memory = \<lparr>sm_talker_kv_bytes = 0, sm_predictor_kv_bytes = 0,
     sm_workspace_bytes = 0, sm_max_sequence_length = n\<rparr>\<rparr>"

lemma smallest_adequate_best_fit_witness:
  "smallest_adequate_session_index [pooled_of 1 64, pooled_of 2 512, pooled_of 3 128] 100 = Some 2 \<and>
     \<not> (\<exists>e \<in> set [pooled_of 1 64, pooled_of 2 512, pooled_of 3 128].
          100 \<le> unat (sm_max_sequence_length (ps_memory e)) \<and> sm_max_sequence_length (ps_memory e) < 128)"
  using smallest_adequate_best_fit [of "[pooled_of 1 64, pooled_of 2 512, pooled_of 3 128]" 100]
  by (simp add: smallest_adequate_session_index_def pooled_of_def)

section \<open>One session under any sequence of operations\<close>

datatype session_command =
    CmdNextFrame
  | CmdBegin
  | CmdBeginBatched
  | CmdFinish nat
  | CmdDropPending
  | CmdCancel

text \<open>What the client sees: a frame's index, that there is no frame, an error.\<close>

datatype observed = SawFrame nat | SawEnd | SawError

text \<open>While a frame is pending it borrows the session, so only finishing or dropping it is possible.\<close>

fun session_exec :: "(frame_request \<Rightarrow> 'l \<Rightarrow> pump_reply \<times> 'l) \<Rightarrow> 'l talker_model \<Rightarrow> session_command \<Rightarrow>
    talker_session \<times> device_frame_view option \<times> 'l talker_world \<Rightarrow>
    (talker_session \<times> device_frame_view option \<times> 'l talker_world) \<times> observed list" where
  "session_exec pump m CmdNextFrame (s, None, w) =
     (case next_frame m s w of
        (Inl e, s', w') \<Rightarrow> ((s', None, w'), [SawError])
      | (Inr None, s', w') \<Rightarrow> ((s', None, w'), [SawEnd])
      | (Inr (Some f), s', w') \<Rightarrow> ((s', None, w'), [SawFrame (sf_frame_index f)]))"
| "session_exec pump m CmdBegin (s, None, w) =
     (case begin_device_frame m s w of
        (Inl e, s', w') \<Rightarrow> ((s', None, w'), [SawError])
      | (Inr None, s', w') \<Rightarrow> ((s', None, w'), [SawEnd])
      | (Inr (Some v), s', w') \<Rightarrow> ((s', Some v, w'), []))"
| "session_exec pump m CmdBeginBatched (s, None, w) =
     (case begin_device_frame_batched pump m s w of
        (Inl e, s', w') \<Rightarrow> ((s', None, w'), [SawError])
      | (Inr None, s', w') \<Rightarrow> ((s', None, w'), [SawEnd])
      | (Inr (Some v), s', w') \<Rightarrow> ((s', Some v, w'), []))"
| "session_exec pump m CmdCancel (s, None, w) = ((session_cancel s, None, w), [])"
| "session_exec pump m (CmdFinish event) (s, Some v, w) =
     (case (if event = 0 then finish_without_consumer m v s w else finish_with_consumer_event m v event s w) of
        (Inl e, s', w') \<Rightarrow> ((s', None, w'), [SawError])
      | (Inr f, s', w') \<Rightarrow> ((s', None, w'), [SawFrame (ff_frame_index f)]))"
| "session_exec pump m CmdDropPending (s, Some v, w) =
     (case drop_pending m v s w of (s', w') \<Rightarrow> ((s', None, w'), []))"
| "session_exec pump m _ st = (st, [])"

fun session_run :: "(frame_request \<Rightarrow> 'l \<Rightarrow> pump_reply \<times> 'l) \<Rightarrow> 'l talker_model \<Rightarrow> session_command list \<Rightarrow>
    talker_session \<times> device_frame_view option \<times> 'l talker_world \<Rightarrow>
    (talker_session \<times> device_frame_view option \<times> 'l talker_world) \<times> observed list" where
  "session_run pump m [] st = (st, [])"
| "session_run pump m (c # cs) st =
     (case session_exec pump m c st of (st', seen) \<Rightarrow>
        (case session_run pump m cs st' of (st'', seen') \<Rightarrow> (st'', seen @ seen')))"

definition frames_seen :: "observed list \<Rightarrow> nat list" where
  "frames_seen = List.map_filter (\<lambda>x. case x of SawFrame i \<Rightarrow> Some i | _ \<Rightarrow> None)"

lemma frames_seen_simps [simp]:
  "frames_seen [] = []" "frames_seen (SawFrame i # xs) = i # frames_seen xs"
  "frames_seen (SawEnd # xs) = frames_seen xs" "frames_seen (SawError # xs) = frames_seen xs"
  "frames_seen (xs @ ys) = frames_seen xs @ frames_seen ys"
  by (simp_all add: frames_seen_def List.map_filter_def)

text \<open>A pending frame exists only while the session has room and has not ended.\<close>

definition session_ok :: "talker_session \<Rightarrow> device_frame_view option \<Rightarrow> bool" where
  "session_ok s pending \<longleftrightarrow> ts_frames_emitted s \<le> ts_max_frames s \<and>
     (pending \<noteq> None \<longrightarrow> ts_frames_emitted s < ts_max_frames s \<and> ts_end_reason s = None)"

lemma frame_guard_Some:
  "frame_guard s = Some s' \<Longrightarrow> ts_frames_emitted s' = ts_frames_emitted s \<and> ts_max_frames s' = ts_max_frames s \<and>
     ts_end_reason s' \<noteq> None"
  by (auto simp: frame_guard_def split: if_splits)

lemma frame_guard_None:
  "frame_guard s = None \<longleftrightarrow> ts_end_reason s = None \<and> ts_frames_emitted s < ts_max_frames s \<and>
     ts_current_semantic s \<noteq> ts_codec_eos_token s"
  by (auto simp: frame_guard_def)

lemma end_after_fields [simp]:
  "ts_frames_emitted (end_after s b) = ts_frames_emitted s" "ts_max_frames (end_after s b) = ts_max_frames s"
  by (simp_all add: end_after_def)

lemma next_frame_result:
  assumes "next_frame m s w = (r, s', w')"
  shows "ts_max_frames s' = ts_max_frames s \<and>
    (case r of
       Inl e \<Rightarrow> ts_frames_emitted s < ts_max_frames s \<and>
         ts_frames_emitted s' \<in> {ts_frames_emitted s, Suc (ts_frames_emitted s)}
     | Inr None \<Rightarrow> ts_frames_emitted s' = ts_frames_emitted s
     | Inr (Some f) \<Rightarrow> ts_frames_emitted s < ts_max_frames s \<and> ts_frames_emitted s' = Suc (ts_frames_emitted s) \<and>
         sf_frame_index f = ts_frames_emitted s)"
proof (cases "frame_guard s")
  case None
  show ?thesis
  proof (cases "text_source_id (tm_config m) (next_text s)")
    case (Inr text_id)
    obtain n l where n: "next_native (tm_library m) s text_id w = (n, l)" by fastforce
    show ?thesis
    proof (cases n)
      case (Inr frame)
      obtain codes token info where "frame = (codes, token, info)" by (cases frame)
      then show ?thesis
        using assms None n Inr \<open>text_source_id _ _ = _\<close>
        by (auto simp: next_frame_def take_frame_def Let_def frame_guard_None split: if_splits)
    qed (use assms None n Inr in \<open>auto simp: next_frame_def frame_guard_None\<close>)
  qed (use assms None in \<open>auto simp: next_frame_def frame_guard_None\<close>)
qed (use assms in \<open>auto simp: next_frame_def dest: frame_guard_Some\<close>)

lemma begin_device_frame_result:
  assumes "begin_device_frame m s w = (r, s', w')"
  shows "ts_max_frames s' = ts_max_frames s \<and> ts_frames_emitted s' = ts_frames_emitted s \<and>
    (\<forall>v. r = Ok (Some v) \<longrightarrow> s' = s \<and> frame_guard s = None)"
  using assms
  by (auto simp: begin_device_frame_def dest: frame_guard_Some split: option.splits sum.splits prod.splits if_splits)

lemma begin_device_frame_batched_result:
  assumes "begin_device_frame_batched pump m s w = (r, s', w')"
  shows "ts_max_frames s' = ts_max_frames s \<and> ts_frames_emitted s' = ts_frames_emitted s \<and>
    (\<forall>v. r = Ok (Some v) \<longrightarrow> s' = s \<and> frame_guard s = None)"
proof (cases "\<not> tm_has_pump m \<or> ts_frames_emitted s = 0")
  case True
  with assms show ?thesis
    by (auto simp: begin_device_frame_batched_def dest: begin_device_frame_result)
next
  case False
  with assms show ?thesis
    by (auto simp: begin_device_frame_batched_def dest: frame_guard_Some
        split: option.splits sum.splits prod.splits)
qed

lemma drop_pending_result:
  "drop_pending m v s w = (s', w') \<Longrightarrow> ts_max_frames s' = ts_max_frames s \<and>
     ts_frames_emitted s' = ts_frames_emitted s"
  by (auto simp: drop_pending_def finish_device_native_raw_def split: sum.splits prod.splits if_splits)

lemma finish_raw_result:
  "finish_device_native_raw m s lease event w = (r, s', w') \<Longrightarrow> ts_max_frames s' = ts_max_frames s \<and>
     ts_frames_emitted s' = ts_frames_emitted s"
  by (auto simp: finish_device_native_raw_def split: sum.splits prod.splits if_splits)

lemma commit_result:
  "commit_finished_device_frame s token info = (r, s') \<Longrightarrow> ts_max_frames s' = ts_max_frames s \<and>
     (case r of Inl e \<Rightarrow> ts_frames_emitted s' = ts_frames_emitted s
      | Inr f \<Rightarrow> ts_frames_emitted s' = Suc (ts_frames_emitted s) \<and> ff_frame_index f = ts_frames_emitted s)"
  by (auto simp: commit_finished_device_frame_def Let_def split: if_splits)

lemma complete_pending_result:
  assumes "complete_pending m v event s w = (r, s', w')"
  shows "ts_max_frames s' = ts_max_frames s \<and>
     (case r of Inl e \<Rightarrow> ts_frames_emitted s' = ts_frames_emitted s
      | Inr f \<Rightarrow> ts_frames_emitted s' = Suc (ts_frames_emitted s) \<and> ff_frame_index f = ts_frames_emitted s)"
proof -
  obtain n s1 w1 where n: "finish_device_native_raw m s (dv_lease_id v) event w = (n, s1, w1)"
    by (metis prod_cases3)
  note same = finish_raw_result [OF n]
  show ?thesis
  proof (cases n)
    case (Inl e)
    with assms n same show ?thesis
      by (auto simp: complete_pending_def split: prod.splits dest!: drop_pending_result)
  next
    case (Inr p)
    obtain token info where "p = (token, info)" by (cases p)
    with assms n Inr same show ?thesis
      by (auto simp: complete_pending_def split: prod.splits sum.splits dest!: commit_result)
  qed
qed

text \<open>One step: either nothing is emitted, or one frame with the session's next index is, or an error.\<close>

lemma session_exec_step:
  assumes "session_ok s pending" and "session_exec pump m c (s, pending, w) = ((s', pending', w'), seen)"
  shows "session_ok s' pending' \<and> ts_max_frames s' = ts_max_frames s \<and>
    (seen = [SawFrame (ts_frames_emitted s)] \<and> ts_frames_emitted s' = Suc (ts_frames_emitted s) \<or>
     frames_seen seen = [] \<and> SawError \<notin> set seen \<and> ts_frames_emitted s' = ts_frames_emitted s \<or>
     seen = [SawError] \<and> ts_frames_emitted s \<le> ts_frames_emitted s')"
proof -
  have no_frame: ?thesis if "pending = None"
  proof (cases c)
    case CmdNextFrame
    obtain r s1 w1 where n: "next_frame m s w = (r, s1, w1)" by (metis prod_cases3)
    show ?thesis
      using assms n next_frame_result [OF n] that
      by (auto simp: CmdNextFrame session_ok_def split: sum.splits option.splits)
  next
    case CmdBegin
    obtain r s1 w1 where n: "begin_device_frame m s w = (r, s1, w1)" by (metis prod_cases3)
    show ?thesis
      using assms n begin_device_frame_result [OF n] that
      by (auto simp: CmdBegin session_ok_def frame_guard_None split: sum.splits option.splits)
  next
    case CmdBeginBatched
    obtain r s1 w1 where n: "begin_device_frame_batched pump m s w = (r, s1, w1)" by (metis prod_cases3)
    show ?thesis
      using assms n begin_device_frame_batched_result [OF n] that
      by (auto simp: CmdBeginBatched session_ok_def frame_guard_None split: sum.splits option.splits)
  qed (use assms that in \<open>auto simp: session_ok_def session_cancel_def split: if_splits\<close>)
  have pending_frame: ?thesis if v: "pending = Some v" for v
  proof (cases c)
    case (CmdFinish event)
    show ?thesis
    proof (cases "event = 0")
      case True
      obtain r s1 w1 where n: "complete_pending m v 0 s w = (r, s1, w1)" by (metis prod_cases3)
      show ?thesis
        using assms n complete_pending_result [OF n]
        by (auto simp: v CmdFinish True session_ok_def finish_without_consumer_def split: sum.splits)
    next
      case False
      obtain r s1 w1 where n: "complete_pending m v event s w = (r, s1, w1)" by (metis prod_cases3)
      show ?thesis
        using assms n complete_pending_result [OF n] False
        by (auto simp: v CmdFinish session_ok_def finish_with_consumer_event_def split: sum.splits)
    qed
  next
    case CmdDropPending
    with assms show ?thesis
      by (auto simp: v session_ok_def split: prod.splits dest!: drop_pending_result)
  qed (use assms v in auto)
  show ?thesis using no_frame pending_frame by (cases pending) auto
qed

lemma session_run_frames:
  assumes "session_ok s pending" and "session_run pump m cs (s, pending, w) = ((s', pending', w'), seen)"
  shows "session_ok s' pending' \<and> ts_max_frames s' = ts_max_frames s \<and> ts_frames_emitted s \<le> ts_frames_emitted s' \<and>
    sorted_wrt (<) (frames_seen seen) \<and>
    set (frames_seen seen) \<subseteq> {ts_frames_emitted s..<ts_frames_emitted s'} \<and>
    (SawError \<notin> set seen \<longrightarrow> frames_seen seen = [ts_frames_emitted s..<ts_frames_emitted s'])"
  using assms
proof (induction cs arbitrary: s pending w seen)
  case (Cons c cs)
  obtain s1 p1 w1 seen1 where e: "session_exec pump m c (s, pending, w) = ((s1, p1, w1), seen1)"
    by (metis prod_cases3 prod.collapse)
  obtain seen2 where r: "session_run pump m cs (s1, p1, w1) = ((s', pending', w'), seen2)" "seen = seen1 @ seen2"
    using Cons.prems(2) e by (auto split: prod.splits)
  note step = session_exec_step [OF Cons.prems(1) e]
  note ih = Cons.IH [OF conjunct1 [OF step] r(1)]
  obtain a b where ab: "a = ts_frames_emitted s" "b = ts_frames_emitted s1" by simp
  have range: "set (frames_seen seen2) \<subseteq> {b..<ts_frames_emitted s'}" "b \<le> ts_frames_emitted s'"
    using ih ab by auto
  consider (frame) "seen1 = [SawFrame a]" "b = Suc a" | (quiet) "frames_seen seen1 = []" "SawError \<notin> set seen1" "b = a"
    | (error) "seen1 = [SawError]" "a \<le> b" using step ab by blast
  then have "a \<le> ts_frames_emitted s' \<and> sorted_wrt (<) (frames_seen seen) \<and>
      set (frames_seen seen) \<subseteq> {a..<ts_frames_emitted s'} \<and>
      (SawError \<notin> set seen \<longrightarrow> frames_seen seen = [a..<ts_frames_emitted s'])"
  proof cases
    case frame
    then show ?thesis using ih range ab by (auto simp: r(2) upt_conv_Cons Suc_le_eq)
  next
    case quiet
    then show ?thesis using ih range ab by (simp add: r(2))
  next
    case error
    then show ?thesis using ih range ab by (auto simp: r(2))
  qed
  then show ?case using ih step ab by simp
qed simp

text \<open>C28: whatever a client does with a session, on the host or through device leases, finishing,
  dropping and cancelling in any order: the frames it receives have ascending indices below the
  frame limit, and as long as no operation failed they are numbered from 0 without a gap.\<close>

theorem session_frames_in_order:
  assumes "ts_frames_emitted s = 0"
    and "session_run pump m cs (s, None, w) = ((s', pending', w'), seen)"
  shows "ts_frames_emitted s' \<le> ts_max_frames s \<and> sorted_wrt (<) (frames_seen seen) \<and>
    (\<forall>i \<in> set (frames_seen seen). i < ts_max_frames s) \<and>
    (SawError \<notin> set seen \<longrightarrow> frames_seen seen = [0..<ts_frames_emitted s'])"
proof -
  have "session_ok s None" using assms(1) by (simp add: session_ok_def)
  from session_run_frames [OF this assms(2)] assms(1) show ?thesis
    by (auto simp: session_ok_def)
qed

end
