(* ===== verification/NtHandles.thy ===== *)
theory NtHandles
  imports NtProperties
begin

text \<open>
  Any number of talker sessions on one model: every native session handle is at any moment either
  pooled or held by one session, never both, never twice, and none is lost. What the CUDA library
  promises about its own handles is the hypothesis \<open>library_accounts\<close>.
\<close>

datatype talker_command =
    StartSession voice_design_prompt generation_settings
  | UseSession nat session_command
  | ReleaseSession nat

record 'l talker_system =
  ty_world :: "'l talker_world"
  ty_sessions :: "(talker_session \<times> device_frame_view option) list"

text \<open>A pending frame borrows its session, so it is dropped before the session is.\<close>

definition release_session :: "'l talker_model \<Rightarrow> talker_session \<times> device_frame_view option \<Rightarrow>
    'l talker_world \<Rightarrow> 'l talker_world" where
  "release_session m held w =
     (case snd held of
        None \<Rightarrow> drop_session (tm_library m) (fst held) w
      | Some v \<Rightarrow> (case drop_pending m v (fst held) w of (s', w') \<Rightarrow> drop_session (tm_library m) s' w'))"

fun system_exec :: "(frame_request \<Rightarrow> 'l \<Rightarrow> pump_reply \<times> 'l) \<Rightarrow> 'l talker_model \<Rightarrow> talker_command \<Rightarrow>
    'l talker_system \<Rightarrow> 'l talker_system" where
  "system_exec pump m (StartSession prompt settings) y =
     (case start_prompt m prompt settings (ty_world y) of
        (Inl e, w) \<Rightarrow> y\<lparr>ty_world := w\<rparr>
      | (Inr s, w) \<Rightarrow> \<lparr>ty_world = w, ty_sessions = ty_sessions y @ [(s, None)]\<rparr>)"
| "system_exec pump m (UseSession i c) y =
     (if i < length (ty_sessions y)
      then (case session_exec pump m c (fst (ty_sessions y ! i), snd (ty_sessions y ! i), ty_world y) of
              ((s', pending', w'), _) \<Rightarrow> \<lparr>ty_world = w', ty_sessions = (ty_sessions y)[i := (s', pending')]\<rparr>)
      else y)"
| "system_exec pump m (ReleaseSession i) y =
     (if i < length (ty_sessions y)
      then \<lparr>ty_world = release_session m (ty_sessions y ! i) (ty_world y),
            ty_sessions = take i (ty_sessions y) @ drop (Suc i) (ty_sessions y)\<rparr>
      else y)"

text \<open>What the native library promises: a successful creation returns a handle that is not in use,
  destruction ends its use, and nothing else changes which handles are in use.\<close>

definition library_accounts :: "'l talker_library \<Rightarrow> (frame_request \<Rightarrow> 'l \<Rightarrow> pump_reply \<times> 'l) \<Rightarrow>
    ('l \<Rightarrow> handle set) \<Rightarrow> bool" where
  "library_accounts lib pump live \<longleftrightarrow>
     tl_missing lib = [] \<and>
     (\<forall>m c seed l st h memory l'. tl_session_create lib m c seed l = ((st, h, memory), l') \<longrightarrow>
        (if fst st = 0 \<and> h \<noteq> 0 then h \<notin> live l \<and> live l' = insert h (live l) else live l' = live l)) \<and>
     (\<forall>h l. live (tl_session_destroy lib h l) = live l - {h}) \<and>
     (\<forall>h seed l. live (snd (tl_session_reset lib h seed l)) = live l) \<and>
     (\<forall>h ts cs sampling l. live (snd (tl_prefill lib h ts cs sampling l)) = live l) \<and>
     (\<forall>h token t a b l. live (snd (tl_next_frame lib h token t a b l)) = live l) \<and>
     (\<forall>h t a b l. live (snd (tl_begin lib h t a b l)) = live l) \<and>
     (\<forall>h lease event l. live (snd (tl_finish lib h lease event l)) = live l) \<and>
     (\<forall>r l. live (snd (pump r l)) = live l) \<and>
     (\<forall>h l. live (tl_model_destroy lib h l) = live l)"

text \<open>The pool and the handles \<open>hs\<close> held outside it are together the handles in use, each once.\<close>

definition accounted :: "('l \<Rightarrow> handle set) \<Rightarrow> handle list \<Rightarrow> 'l talker_world \<Rightarrow> bool" where
  "accounted live hs w \<longleftrightarrow>
     distinct (map ps_handle (tw_pool w) @ hs) \<and> set (map ps_handle (tw_pool w) @ hs) = live (tw_native w) \<and>
     0 \<notin> live (tw_native w) \<and> length (tw_pool w) \<le> MAX_POOLED_SESSIONS"

lemma accounted_mset: "mset hs = mset hs' \<Longrightarrow> accounted live hs w \<longleftrightarrow> accounted live hs' w"
  using mset_eq_setD [of hs hs'] mset_eq_imp_distinct_iff [of hs hs'] by (simp add: accounted_def)

lemma accounted_native:
  "live l = live (tw_native w) \<Longrightarrow> accounted live hs (w\<lparr>tw_native := l\<rparr>) \<longleftrightarrow> accounted live hs w"
  by (simp add: accounted_def)

lemma accounts_sym:
  assumes "library_accounts lib pump live"
  shows "find_symbol lib name = Ok ()" "tl_missing lib = []"
  using assms by (simp_all add: library_accounts_def find_symbol_def)

lemma destroy_accounted:
  assumes "library_accounts lib pump live" and "accounted live (h # hs) w"
  shows "accounted live hs (destroy_session lib h w)"
proof -
  have "h \<noteq> 0" using assms(2) by (auto simp: accounted_def)
  then show ?thesis using assms by (auto simp: destroy_session_def library_accounts_def accounted_def)
qed

lemma recycle_accounted:
  assumes "library_accounts lib pump live" and "accounted live (ps_handle p # hs) w"
  shows "accounted live hs (recycle_session lib p w)"
proof (cases "length (tw_pool w) < MAX_POOLED_SESSIONS")
  case True
  then show ?thesis using assms(2) by (auto simp: recycle_session_def accounted_def)
next
  case False
  then show ?thesis using destroy_accounted [OF assms] by (simp add: recycle_session_def)
qed

lemma drop_session_accounted:
  assumes "library_accounts lib pump live" and "accounted live (ts_handle s # hs) w"
  shows "accounted live hs (drop_session lib s w)"
proof -
  have "ts_handle s \<noteq> 0" using assms(2) by (auto simp: accounted_def)
  then show ?thesis
    using recycle_accounted [OF assms(1), of "\<lparr>ps_handle = ts_handle s, ps_memory = ts_memory s\<rparr>"]
      destroy_accounted [OF assms] assms(2) by (simp add: drop_session_def)
qed

lemma take_from_pool:
  assumes "accounted live hs w" and "i < length (tw_pool w)"
  shows "accounted live (ps_handle (tw_pool w ! i) # hs) (w\<lparr>tw_pool := swap_remove i (tw_pool w)\<rparr>)"
proof -
  have m: "mset (tw_pool w) = add_mset (tw_pool w ! i) (mset (swap_remove i (tw_pool w)))"
    using assms(2) by (simp add: mset_swap_remove)
  have "mset (map ps_handle (tw_pool w) @ hs) =
      mset (map ps_handle (swap_remove i (tw_pool w)) @ ps_handle (tw_pool w ! i) # hs)"
    by (simp add: m)
  then have "distinct (map ps_handle (tw_pool w) @ hs) \<longleftrightarrow>
        distinct (map ps_handle (swap_remove i (tw_pool w)) @ ps_handle (tw_pool w ! i) # hs)"
      "set (map ps_handle (tw_pool w) @ hs) =
        set (map ps_handle (swap_remove i (tw_pool w)) @ ps_handle (tw_pool w ! i) # hs)"
    by (rule mset_eq_imp_distinct_iff, rule mset_eq_setD)
  moreover have "length (swap_remove i (tw_pool w)) \<le> length (tw_pool w)" using assms(2) by simp
  ultimately show ?thesis using assms(1) unfolding accounted_def by simp
qed

lemma create_live:
  assumes "library_accounts lib pump live" and "tl_session_create lib m c seed l = ((st, h, memory), l')"
  shows "if fst st = 0 \<and> h \<noteq> 0 then h \<notin> live l \<and> live l' = insert h (live l) else live l' = live l"
  using assms unfolding library_accounts_def by (elim conjE allE impE) assumption+

lemma accounted_create:
  assumes "accounted live hs w" and "h \<notin> live (tw_native w)" and "h \<noteq> 0" and "live l = insert h (live (tw_native w))"
  shows "accounted live (h # hs) (w\<lparr>tw_native := l\<rparr>)"
proof -
  have "live (tw_native w) = set (map ps_handle (tw_pool w) @ hs)" using assms(1) by (simp add: accounted_def)
  with assms show ?thesis by (simp add: accounted_def)
qed

lemma acquire_accounted:
  assumes lib: "library_accounts (tm_library m) pump live" and acc: "accounted live hs w"
    and "acquire_session m capacity seed w = (r, w')"
  shows "case r of Inl e \<Rightarrow> accounted live hs w' | Inr (p, hit) \<Rightarrow> accounted live (ps_handle p # hs) w'"
proof (cases "smallest_adequate_session_index (tw_pool w) capacity")
  case (Some i)
  have i: "i < length (tw_pool w)"
    using smallest_adequate_best_fit [of "tw_pool w" capacity] Some by simp
  let ?p = "tw_pool w ! i" and ?w = "w\<lparr>tw_pool := swap_remove i (tw_pool w)\<rparr>"
  have a: "accounted live (ps_handle ?p # hs) ?w" by (rule take_from_pool [OF acc i])
  obtain st l where reset: "tl_session_reset (tm_library m) (ps_handle ?p) seed (tw_native w) = (st, l)" by fastforce
  have "live l = live (tw_native w)" using lib reset unfolding library_accounts_def by (metis snd_conv)
  then have a': "accounted live (ps_handle ?p # hs) (?w\<lparr>tw_native := l\<rparr>)" using a by (simp add: accounted_native)
  show ?thesis
    using assms(3) Some a' reset accounts_sym [OF lib] destroy_accounted [OF lib a']
    by (auto simp: acquire_session_def reset_pooled_def split: sum.splits)
next
  case None
  obtain st h memory l where create:
    "tl_session_create (tm_library m) (tm_handle m) (of_nat capacity) seed (tw_native w) = ((st, h, memory), l)"
    by (metis prod_cases3 prod.collapse)
  then have live: "if fst st = 0 \<and> h \<noteq> 0 then h \<notin> live (tw_native w) \<and> live l = insert h (live (tw_native w))
      else live l = live (tw_native w)" by (rule create_live [OF lib])
  have out: "acquire_session m capacity seed w = (r, w') \<longleftrightarrow>
      w' = w\<lparr>tw_native := l\<rparr> \<and> r = (if fst st \<noteq> 0 then Err (NativeStatus (fst st) (snd st))
        else if h = 0 then Err (Message ''native session creation returned a null handle'')
        else Ok (\<lparr>ps_handle = h, ps_memory = memory\<rparr>, False))"
    using None create accounts_sym [OF lib]
    by (auto simp: acquire_session_def create_session_def ensure_native_success_def)
  show ?thesis
  proof (cases "fst st = 0 \<and> h \<noteq> 0")
    case True
    then show ?thesis using assms(3) live accounted_create [OF acc] by (simp add: out)
  next
    case False
    then show ?thesis using assms(3) live acc by (auto simp: out accounted_native)
  qed
qed

lemma start_accounted:
  assumes lib: "library_accounts (tm_library m) pump live" and acc: "accounted live hs w"
    and "start_prompt m prompt settings w = (r, w')"
  shows "case r of Inl e \<Rightarrow> accounted live hs w' | Inr s \<Rightarrow> accounted live (ts_handle s # hs) w'"
proof (cases "plan_prompt m prompt settings")
  case (Inl e)
  then show ?thesis using assms by (auto simp: start_prompt_def)
next
  case (Inr plan)
  obtain text_ids codec_ids capacity talker predictor where plan:
    "plan = ((text_ids, codec_ids), capacity, talker, predictor)" by (metis prod.collapse)
  obtain a w1 where a: "acquire_session m capacity (gs_random_seed settings) w = (a, w1)" by fastforce
  note acquired = acquire_accounted [OF lib acc a]
  show ?thesis
  proof (cases a)
    case (Inl e)
    then show ?thesis using assms(3) Inr plan a acquired by (auto simp: start_prompt_def)
  next
    case (Inr p)
    let ?s = "new_session m prompt settings talker predictor p"
    have h: "ts_handle ?s = ps_handle (fst p)" by (simp add: new_session_def)
    obtain out l where pre: "tl_prefill (tm_library m) (ts_handle ?s) text_ids codec_ids talker (tw_native w1) = (out, l)"
      by fastforce
    have "live l = live (tw_native w1)" using lib pre unfolding library_accounts_def by (metis snd_conv)
    then have acc1: "accounted live (ts_handle ?s # hs) (w1\<lparr>tw_native := l\<rparr>)"
      using acquired Inr h by (cases p) (simp add: accounted_native)
    show ?thesis
      using assms(3) \<open>plan_prompt _ _ _ = _\<close> plan a Inr pre acc1 accounts_sym [OF lib]
        drop_session_accounted [OF lib acc1]
      by (auto simp: start_prompt_def prefill_native_def Let_def split: sum.splits prod.splits)
  qed
qed

text \<open>Using a session changes neither its handle nor the accounts.\<close>

definition keeps_accounts :: "('l \<Rightarrow> handle set) \<Rightarrow> talker_session \<times> 'l talker_world \<Rightarrow>
    talker_session \<times> 'l talker_world \<Rightarrow> bool" where
  "keeps_accounts live a b \<longleftrightarrow> ts_handle (fst b) = ts_handle (fst a) \<and> tw_pool (snd b) = tw_pool (snd a) \<and>
     live (tw_native (snd b)) = live (tw_native (snd a))"

lemma frame_guard_handle: "frame_guard s = Some s' \<Longrightarrow> ts_handle s' = ts_handle s"
  by (auto simp: frame_guard_def split: if_splits)

lemma end_after_handle [simp]: "ts_handle (end_after s b) = ts_handle s"
  by (simp add: end_after_def)

lemma native_calls_live:
  assumes "library_accounts lib pump live"
  shows "tl_next_frame lib h token t a b l = (x, l') \<Longrightarrow> live l' = live l"
    "tl_begin lib h t a b l = (y, l') \<Longrightarrow> live l' = live l"
    "tl_finish lib h lease event l = (z, l') \<Longrightarrow> live l' = live l"
    "pump r l = (u, l') \<Longrightarrow> live l' = live l"
  using assms unfolding library_accounts_def by (metis snd_conv)+

lemma finish_raw_keeps:
  assumes "library_accounts (tm_library m) pump live" and "finish_device_native_raw m s lease event w = (r, s', w')"
  shows "keeps_accounts live (s, w) (s', w')"
  using assms(2) native_calls_live(3) [OF assms(1)]
  by (auto simp: finish_device_native_raw_def keeps_accounts_def split: sum.splits prod.splits if_splits)

lemma drop_pending_keeps:
  assumes "library_accounts (tm_library m) pump live" and "drop_pending m v s w = (s', w')"
  shows "keeps_accounts live (s, w) (s', w')"
  using assms(2) finish_raw_keeps [OF assms(1)]
  by (fastforce simp: drop_pending_def keeps_accounts_def split: prod.splits)

lemma complete_keeps:
  assumes lib: "library_accounts (tm_library m) pump live" and "complete_pending m v event s w = (r, s', w')"
  shows "keeps_accounts live (s, w) (s', w')"
proof -
  obtain n s1 w1 where n: "finish_device_native_raw m s (dv_lease_id v) event w = (n, s1, w1)"
    by (metis prod_cases3)
  have same: "keeps_accounts live (s, w) (s1, w1)" by (rule finish_raw_keeps [OF lib n])
  show ?thesis
  proof (cases n)
    case (Inl e)
    then have "keeps_accounts live (s1, w1) (s', w')"
      using assms(2) n drop_pending_keeps [OF lib] by (auto simp: complete_pending_def split: prod.splits)
    with same show ?thesis by (simp add: keeps_accounts_def)
  next
    case (Inr p)
    then show ?thesis
      using assms(2) n same
      by (cases p) (auto simp: complete_pending_def commit_finished_device_frame_def Let_def keeps_accounts_def
          split: prod.splits if_splits)
  qed
qed

lemma next_frame_keeps:
  assumes "library_accounts (tm_library m) pump live" and "next_frame m s w = (r, s', w')"
  shows "keeps_accounts live (s, w) (s', w')"
proof (cases "frame_guard s")
  case None
  have native: "next_native (tm_library m) s text_id w = (x, w1) \<Longrightarrow>
      tw_pool w1 = tw_pool w \<and> live (tw_native w1) = live (tw_native w)" for text_id x w1
    using native_calls_live(1) [OF assms(1)] by (auto simp: next_native_def split: prod.splits)
  have taken: "take_frame s frame = (r, s1) \<Longrightarrow> ts_handle s1 = ts_handle s" for frame r s1
    by (auto simp: take_frame_def Let_def split: prod.splits if_splits)
  show ?thesis
    using assms(2) None native taken
    by (auto simp: next_frame_def keeps_accounts_def split: sum.splits prod.splits)
qed (use assms in \<open>auto simp: next_frame_def keeps_accounts_def dest: frame_guard_handle\<close>)

lemma begin_keeps:
  assumes "library_accounts (tm_library m) pump live" and "begin_device_frame m s w = (r, s', w')"
  shows "keeps_accounts live (s, w) (s', w')"
  using assms(2) native_calls_live(2) [OF assms(1)]
  by (auto simp: begin_device_frame_def keeps_accounts_def dest: frame_guard_handle
      split: option.splits sum.splits prod.splits if_splits)

lemma begin_batched_keeps:
  assumes "library_accounts (tm_library m) pump live" and "begin_device_frame_batched pump m s w = (r, s', w')"
  shows "keeps_accounts live (s, w) (s', w')"
proof (cases "\<not> tm_has_pump m \<or> ts_frames_emitted s = 0")
  case True
  with assms show ?thesis by (auto simp: begin_device_frame_batched_def dest: begin_keeps)
next
  case False
  with assms(2) native_calls_live(4) [OF assms(1)] show ?thesis
    by (auto simp: begin_device_frame_batched_def keeps_accounts_def dest: frame_guard_handle
        split: option.splits sum.splits prod.splits)
qed

lemma session_exec_keeps:
  assumes lib: "library_accounts (tm_library m) pump live"
    and exec: "session_exec pump m c (s, pending, w) = ((s', pending', w'), seen)"
  shows "keeps_accounts live (s, w) (s', w')"
proof -
  have refl: "keeps_accounts live (s, w) (s, w)" by (simp add: keeps_accounts_def)
  show ?thesis
  proof (cases pending)
    case None
    show ?thesis
    proof (cases c)
      case CmdNextFrame
      then show ?thesis using exec None next_frame_keeps [OF lib]
        by (auto split: prod.splits sum.splits option.splits)
    next
      case CmdBegin
      then show ?thesis using exec None begin_keeps [OF lib]
        by (auto split: prod.splits sum.splits option.splits)
    next
      case CmdBeginBatched
      then show ?thesis using exec None begin_batched_keeps [OF lib]
        by (auto split: prod.splits sum.splits option.splits)
    qed (use exec None refl in \<open>auto simp: session_cancel_def keeps_accounts_def\<close>)
  next
    case (Some v)
    show ?thesis
    proof (cases c)
      case (CmdFinish event)
      then show ?thesis using exec Some complete_keeps [OF lib] drop_pending_keeps [OF lib]
        by (auto simp: finish_without_consumer_def finish_with_consumer_event_def
            split: prod.splits sum.splits if_splits)
    next
      case CmdDropPending
      then show ?thesis using exec Some drop_pending_keeps [OF lib] by (auto split: prod.splits)
    qed (use exec Some refl in auto)
  qed
qed

definition held_handles :: "'l talker_system \<Rightarrow> handle list" where
  "held_handles y = map (ts_handle \<circ> fst) (ty_sessions y)"

lemma keeps_accounted:
  "keeps_accounts live (s, w) (s', w') \<Longrightarrow> accounted live hs w \<Longrightarrow> accounted live hs w' \<and> ts_handle s' = ts_handle s"
  by (simp add: keeps_accounts_def accounted_def)

lemma release_accounted:
  assumes lib: "library_accounts (tm_library m) pump live" and acc: "accounted live (ts_handle (fst held) # hs) w"
  shows "accounted live hs (release_session m held w)"
proof (cases "snd held")
  case None
  then show ?thesis using drop_session_accounted [OF lib acc] by (simp add: release_session_def)
next
  case (Some v)
  obtain s' w' where d: "drop_pending m v (fst held) w = (s', w')" by fastforce
  from keeps_accounted [OF drop_pending_keeps [OF lib d] acc]
  have "accounted live (ts_handle s' # hs) w'" by simp
  from drop_session_accounted [OF lib this] show ?thesis by (simp add: release_session_def Some d)
qed

lemma system_exec_accounted:
  assumes lib: "library_accounts (tm_library m) pump live"
    and acc: "accounted live (held_handles y) (ty_world y)"
  shows "accounted live (held_handles (system_exec pump m c y)) (ty_world (system_exec pump m c y))"
proof (cases c)
  case (StartSession prompt settings)
  obtain r w' where r: "start_prompt m prompt settings (ty_world y) = (r, w')" by fastforce
  have perm: "accounted live (h # held_handles y) w' \<longleftrightarrow> accounted live (held_handles y @ [h]) w'" for h
    by (rule accounted_mset) simp
  show ?thesis
    using start_accounted [OF lib acc r]
    by (cases r) (simp_all add: StartSession r held_handles_def perm [unfolded held_handles_def])
next
  case (UseSession i u)
  show ?thesis
  proof (cases "i < length (ty_sessions y)")
    case True
    obtain s' pending' w' seen where e:
      "session_exec pump m u (fst (ty_sessions y ! i), snd (ty_sessions y ! i), ty_world y) = ((s', pending', w'), seen)"
      by (metis prod_cases3 prod.collapse)
    note k = keeps_accounted [OF session_exec_keeps [OF lib e] acc]
    have "ts_handle (fst (ty_sessions y ! j)) = ts_handle (fst ((ty_sessions y)[i := (s', pending')] ! j))"
      if "j < length (ty_sessions y)" for j
      using k that by (cases "j = i") simp_all
    then have "held_handles y = map (ts_handle \<circ> fst) ((ty_sessions y)[i := (s', pending')])"
      unfolding held_handles_def by (intro nth_equalityI) (simp_all del: map_update)
    then show ?thesis using k True e by (simp add: UseSession held_handles_def)
  qed (use acc in \<open>simp add: UseSession\<close>)
next
  case (ReleaseSession i)
  show ?thesis
  proof (cases "i < length (ty_sessions y)")
    case True
    let ?rest = "take i (ty_sessions y) @ drop (Suc i) (ty_sessions y)"
    have "mset (held_handles y) = mset (ts_handle (fst (ty_sessions y ! i)) # map (ts_handle \<circ> fst) ?rest)"
      unfolding held_handles_def by (subst id_take_nth_drop [OF True]) (simp only: list.map map_append, simp)
    then have "accounted live (ts_handle (fst (ty_sessions y ! i)) # map (ts_handle \<circ> fst) ?rest) (ty_world y)"
      using acc accounted_mset by blast
    from release_accounted [OF lib this] show ?thesis by (simp add: ReleaseSession True held_handles_def)
  qed (use acc in \<open>simp add: ReleaseSession\<close>)
qed

lemma system_run_accounted:
  assumes "library_accounts (tm_library m) pump live" and "accounted live (held_handles y) (ty_world y)"
  shows "accounted live (held_handles (fold (system_exec pump m) cs y)) (ty_world (fold (system_exec pump m) cs y))"
  using assms(2)
proof (induction cs arbitrary: y)
  case (Cons c cs)
  show ?case using Cons.IH [OF system_exec_accounted [OF assms(1) Cons.prems]] by simp
qed simp

lemma destroy_keeps_pool [simp]: "tw_pool (destroy_session lib h w) = tw_pool w"
  by (simp add: destroy_session_def)

lemma fold_destroy_keeps_pool [simp]: "tw_pool (fold (\<lambda>p. destroy_session lib (ps_handle p)) ps w) = tw_pool w"
  by (induction ps arbitrary: w) simp_all

text \<open>Destroying the pooled sessions one after the other.\<close>

lemma destroy_pool_accounted:
  assumes "library_accounts lib pump live" and "accounted live (map ps_handle ps @ hs) w"
  shows "accounted live hs (fold (\<lambda>p. destroy_session lib (ps_handle p)) ps w)"
  using assms(2)
proof (induction ps arbitrary: w)
  case (Cons p ps)
  then show ?case using destroy_accounted [OF assms(1), of "ps_handle p" "map ps_handle ps @ hs" w] by simp
qed simp

definition fresh_system :: "'l \<Rightarrow> 'l talker_system" where
  "fresh_system l = \<lparr>ty_world = \<lparr>tw_native = l, tw_pool = []\<rparr>, ty_sessions = []\<rparr>"

text \<open>C27: no native session is lost, shared or destroyed while in use: after any operations on any number
  of sessions the handles in use are exactly those in the pool and those held by a session, each
  once, and the pool keeps at most eight; when the last session is gone, dropping the model leaves
  no handle in use.\<close>

theorem session_handles_conserved:
  assumes "library_accounts (tm_library m) pump live" and "live l = {}"
    and "y = fold (system_exec pump m) cs (fresh_system l)"
  shows "distinct (map ps_handle (tw_pool (ty_world y)) @ held_handles y) \<and>
    set (map ps_handle (tw_pool (ty_world y)) @ held_handles y) = live (tw_native (ty_world y)) \<and>
    length (tw_pool (ty_world y)) \<le> MAX_POOLED_SESSIONS \<and>
    (ty_sessions y = [] \<longrightarrow> live (tw_native (drop_model m (ty_world y))) = {})"
proof -
  have "accounted live (held_handles (fresh_system l)) (ty_world (fresh_system l))"
    using assms(2) by (simp add: fresh_system_def held_handles_def accounted_def)
  from system_run_accounted [OF assms(1) this] have acc: "accounted live (held_handles y) (ty_world y)"
    by (simp add: assms(3))
  have "live (tw_native (drop_model m (ty_world y))) = {}" if "ty_sessions y = []"
  proof -
    let ?w = "ty_world y"
    have "accounted live (map ps_handle (tw_pool ?w)) (?w\<lparr>tw_pool := []\<rparr>)"
      using acc that by (simp add: accounted_def held_handles_def)
    from destroy_pool_accounted [OF assms(1), of "tw_pool ?w" "[]"] this
    have "accounted live [] (fold (\<lambda>p. destroy_session (tm_library m) (ps_handle p)) (tw_pool ?w) (?w\<lparr>tw_pool := []\<rparr>))"
      by simp
    moreover have "live (tl_model_destroy (tm_library m) h l) = live l" for h l
      using assms(1) by (simp add: library_accounts_def)
    ultimately show ?thesis by (auto simp: drop_model_def Let_def accounted_def)
  qed
  with acc show ?thesis by (simp add: accounted_def)
qed

text \<open>A library that counts its handles up.\<close>

definition counting_library :: "(nat \<times> nat list) talker_library" where
  "counting_library = \<lparr>tl_missing = [], tl_abi_version = 1,
     tl_model_create = (\<lambda>d l. (((0, []), 1), l)), tl_model_destroy = (\<lambda>h l. l),
     tl_upload = (\<lambda>h n d s l. ((0, []), l)), tl_finalize = (\<lambda>h l. (((0, []), 0, 0, 0), l)),
     tl_session_create = (\<lambda>m c seed (n, hs). (((0, []), Suc (Max (set (n # hs))),
        \<lparr>sm_talker_kv_bytes = 0, sm_predictor_kv_bytes = 0, sm_workspace_bytes = 0, sm_max_sequence_length = ucast c\<rparr>),
        (n, Suc (Max (set (n # hs))) # hs))),
     tl_session_destroy = (\<lambda>h (n, hs). (n, filter (\<lambda>x. x \<noteq> h) hs)),
     tl_session_reset = (\<lambda>h seed l. ((0, []), l)),
     tl_prefill = (\<lambda>h ts cs s l. (((0, []), \<lparr>np_first_semantic_token = 7, np_prompt_tokens = of_nat (length ts),
        np_talker_gpu_milliseconds = FFin 0\<rparr>), l)),
     tl_next_frame = (\<lambda>h token t a b l. (((0, []), replicate 16 token, token,
        \<lparr>ni_talker_position = 0, ni_ended_by_eos = 0, ni_predictor_gpu_milliseconds = FFin 0,
         ni_talker_gpu_milliseconds = FFin 0\<rparr>), l)),
     tl_state_info = (\<lambda>h l. (((0, []), \<lparr>si_abi_version = 1, si_phase = 2, si_talker_position = 0,
        si_semantic_history_count = 0, si_frames_generated = 0, si_device_sample_count = 0,
        si_host_sync_count = 0\<rparr>), l)),
     tl_begin = (\<lambda>h t a b l. (((1, []), default_view), l)),
     tl_finish = (\<lambda>h lease e l. (((1, []), 0, \<lparr>ni_talker_position = 0, ni_ended_by_eos = 0,
        ni_predictor_gpu_milliseconds = FFin 0, ni_talker_gpu_milliseconds = FFin 0\<rparr>), l))\<rparr>"

definition no_pump :: "frame_request \<Rightarrow> 'l \<Rightarrow> pump_reply \<times> 'l" where
  "no_pump r l = (NotSubmitted, l)"

lemma counting_library_accounts: "library_accounts counting_library no_pump (\<lambda>(n, hs). set hs)"
proof -
  have "Suc (Max (insert n (set hs))) \<notin> set hs" for n and hs :: "nat list"
    by (metis List.finite_set Max_ge Suc_n_not_le_n finite_insert insertCI)
  then show ?thesis
    by (auto simp: library_accounts_def counting_library_def no_pump_def split: prod.splits)
qed

definition counting_model :: "(nat \<times> nat list) talker_model" where
  "counting_model = \<lparr>tm_library = counting_library, tm_handle = 1, tm_has_pump = False, tm_device_api = False,
     tm_config = example_config, tm_memory = \<lparr>mm_weight_bytes = 0, mm_tensor_count = 0, mm_device_index = 0\<rparr>\<rparr>"

definition example_prompt :: voice_design_prompt where
  "example_prompt = \<lparr>vp_instruction_ids = [], vp_assistant_ids = [5], vp_prefill = [text_step 5],
     vp_trailing_text = [TtsEos]\<rparr>"

definition example_settings :: generation_settings where
  "example_settings = \<lparr>gs_max_frames = 2, gs_max_sequence_length = 64, gs_random_seed = 1,
     gs_talker_sampling = greedy, gs_predictor_sampling = greedy\<rparr>"

lemma session_handles_conserved_witness:
  "\<exists>y. y = fold (system_exec no_pump counting_model)
       [StartSession example_prompt example_settings, UseSession 0 CmdNextFrame, ReleaseSession 0] (fresh_system (0, [])) \<and>
     length (tw_pool (ty_world y)) \<le> MAX_POOLED_SESSIONS \<and>
     set (map ps_handle (tw_pool (ty_world y)) @ held_handles y) = set (snd (tw_native (ty_world y)))"
  using session_handles_conserved [of counting_model no_pump "\<lambda>(n, hs). set hs" "(0, [])" _
      "[StartSession example_prompt example_settings, UseSession 0 CmdNextFrame, ReleaseSession 0]", OF _ _ refl]
    counting_library_accounts
  by (simp add: counting_model_def case_prod_unfold)

end
