(* ===== verification/NtGenerate.thy ===== *)
theory NtGenerate
  imports NtHandles
begin

text \<open>
  The end of a session and the whole-utterance loop of the talker: what a session does once it has
  ended, and what \<open>generate_prompt\<close> returns.
\<close>

definition example_session :: talker_session where
  "example_session = \<lparr>ts_handle = 1, ts_memory = ps_memory (pooled_of 1 64), ts_trailing_text = [TtsEos],
     ts_current_semantic = 7, ts_codec_eos_token = 2150, ts_frames_emitted = 0, ts_max_frames = 2,
     ts_talker_sampling = \<lparr>ns_do_sample = 0, ns_top_k = 0, ns_top_p = FFin 1, ns_temperature = FFin 1, ns_repetition_penalty = FFin 1\<rparr>,
     ts_predictor_sampling = \<lparr>ns_do_sample = 0, ns_top_k = 0, ns_top_p = FFin 1, ns_temperature = FFin 1, ns_repetition_penalty = FFin 1\<rparr>,
     ts_prefill = \<lparr>np_first_semantic_token = 7, np_prompt_tokens = 1, np_talker_gpu_milliseconds = FFin 0\<rparr>,
     ts_pool_hit = False, ts_end_reason = None, ts_recyclable = True\<rparr>"

lemma session_frames_in_order_witness:
  "\<exists>st seen. session_run no_pump counting_model [CmdNextFrame, CmdNextFrame, CmdNextFrame]
       (example_session, None, \<lparr>tw_native = (0, []), tw_pool = []\<rparr>) = (st, seen) \<and>
     sorted_wrt (<) (frames_seen seen)"
proof -
  obtain s' p' w' seen where run: "session_run no_pump counting_model [CmdNextFrame, CmdNextFrame, CmdNextFrame]
       (example_session, None, \<lparr>tw_native = (0, []), tw_pool = []\<rparr>) = ((s', p', w'), seen)"
    by (metis prod.collapse)
  have "ts_frames_emitted example_session = 0" "ts_max_frames example_session = 2"
    by (simp_all add: example_session_def)
  with session_frames_in_order [OF _ run] run show ?thesis by auto
qed

text \<open>An ended session stays ended: no operation produces another frame, touches the native library
  or changes the session, and its reason stays the first one.\<close>

theorem session_end_sticky:
  assumes "ts_end_reason s = Some reason"
  shows "\<exists>seen. session_run pump m cs (s, None, w) = ((s, None, w), seen) \<and> set seen \<subseteq> {SawEnd}"
proof -
  have guard: "frame_guard s = Some s" using assms by (simp add: frame_guard_def)
  have step: "\<exists>seen. session_exec pump m c (s, None, w) = ((s, None, w), seen) \<and> set seen \<subseteq> {SawEnd}" for c
    using assms guard
    by (cases c) (simp_all add: next_frame_def begin_device_frame_def begin_device_frame_batched_def session_cancel_def)
  show ?thesis
  proof (induction cs)
    case (Cons c cs)
    then show ?case using step [of c] by fastforce
  qed simp
qed

lemma session_end_sticky_witness:
  "\<exists>seen. session_run no_pump counting_model [CmdNextFrame, CmdCancel, CmdBegin]
     (session_cancel example_session, None, \<lparr>tw_native = (0, []), tw_pool = []\<rparr>) =
     ((session_cancel example_session, None, \<lparr>tw_native = (0, []), tw_pool = []\<rparr>), seen)"
  using session_end_sticky [of "session_cancel example_session" SessionCancelled no_pump counting_model
      "[CmdNextFrame, CmdCancel, CmdBegin]" "\<lparr>tw_native = (0, []), tw_pool = []\<rparr>"]
  by (auto simp: session_cancel_def example_session_def)

text \<open>The host path keeps a session recyclable when the native EOS flag disagrees, although the native
  session has moved on; the device path does not.\<close>

lemma eos_disagreement_host_keeps_recyclable:
  assumes "frame_guard s = None" and "text_source_id (tm_config m) (next_text s) = Ok text_id"
    and "next_native (tm_library m) s text_id w = (Ok (codes, token, info), w')"
    and "(token = ts_codec_eos_token s) \<noteq> (ni_ended_by_eos info \<noteq> 0)"
  shows "\<exists>e s'. next_frame m s w = (Err e, s', w') \<and> ts_recyclable s' = ts_recyclable s"
  using assms by (auto simp: next_frame_def take_frame_def Let_def)

lemma eos_disagreement_device_not_recyclable:
  "(token = ts_codec_eos_token s) \<noteq> (ni_ended_by_eos info \<noteq> 0) \<Longrightarrow>
     \<not> ts_recyclable (snd (commit_finished_device_frame s token info))"
  by (auto simp: commit_finished_device_frame_def)

section \<open>Whole utterances\<close>

text \<open>The session's end reason and its last semantic token agree.\<close>

definition eos_agrees :: "talker_session \<Rightarrow> bool" where
  "eos_agrees s \<longleftrightarrow> ts_end_reason s \<noteq> Some SessionCancelled \<and>
     (ts_end_reason s = Some CodecEos \<longrightarrow> ts_current_semantic s = ts_codec_eos_token s) \<and>
     (ts_end_reason s = Some MaxFrames \<longrightarrow> ts_max_frames s \<le> ts_frames_emitted s \<and>
        (ts_frames_emitted s = 0 \<or> ts_current_semantic s \<noteq> ts_codec_eos_token s)) \<and>
     (ts_end_reason s = None \<longrightarrow> ts_frames_emitted s < ts_max_frames s)"

definition sixteen_codes :: "'l talker_library \<Rightarrow> bool" where
  "sixteen_codes lib \<longleftrightarrow> (\<forall>h token t a b l. length (fst (snd (fst (tl_next_frame lib h token t a b l)))) = 16)"

lemma next_frame_eos:
  assumes "eos_agrees s" and "next_frame m s w = (Ok r, s', w')"
  shows "eos_agrees s' \<and> ts_codec_eos_token s' = ts_codec_eos_token s \<and> (r = None \<longrightarrow> ts_end_reason s' \<noteq> None \<and> ts_frames_emitted s' = ts_frames_emitted s)"
  using assms
  by (auto simp: next_frame_def frame_guard_def take_frame_def end_after_def Let_def eos_agrees_def
      split: option.splits sum.splits prod.splits if_splits)

lemma next_frame_codes:
  assumes "sixteen_codes (tm_library m)" and "next_frame m s w = (Ok (Some frame), s', w')"
  shows "length (sf_codes frame) = 16"
proof -
  have "next_native (tm_library m) s text_id w = (Ok (codes, token, info), w1) \<Longrightarrow> length codes = 16"
    for text_id codes token info w1
    using assms(1) unfolding sixteen_codes_def next_native_def
    by (auto simp: and_then_Ok_iff split: prod.splits) (metis fst_conv snd_conv)
  then show ?thesis
    using assms(2)
    by (auto simp: next_frame_def take_frame_def Let_def split: option.splits sum.splits prod.splits if_splits)
qed

lemma generate_loop_spec:
  assumes "sixteen_codes (tm_library m)" and "eos_agrees s" and "ts_frames_emitted s \<le> ts_max_frames s"
    and "generate_loop m codes timings s w = (Ok (codes', timings'), s', w')"
  shows "\<exists>n. length codes' = length codes + 16 * n \<and> length timings' = length timings + n \<and>
    ts_frames_emitted s' = ts_frames_emitted s + n \<and> ts_frames_emitted s' \<le> ts_max_frames s \<and>
    ts_end_reason s' \<noteq> None \<and> eos_agrees s' \<and>
    ts_codec_eos_token s' = ts_codec_eos_token s \<and> ts_max_frames s' = ts_max_frames s"
  using assms
proof (induction m codes timings s w rule: generate_loop.induct)
  case (1 m codes timings s w)
  note sixteen = 1(2) and agrees = 1(3) and below = 1(4) and loop = 1(5)
  obtain r s1 w1 where n: "next_frame m s w = (r, s1, w1)" by (metis prod_cases3)
  show ?case
  proof (cases r)
    case (Inl e)
    then show ?thesis using loop n by (simp add: generate_loop.simps)
  next
    case (Inr f)
    note eos = next_frame_eos [OF agrees n [unfolded Inr]]
    show ?thesis
    proof (cases f)
      case None
      then have "codes' = codes" "timings' = timings" "s' = s1"
        using loop n Inr by (auto simp: generate_loop.simps [of m codes timings s w])
      moreover have "ts_max_frames s1 = ts_max_frames s"
        using next_frame_result [OF n] by simp
      ultimately show ?thesis using eos None below by (intro exI [of _ 0]) auto
    next
      case (Some frame)
      note adv = next_frame_advances [OF n [unfolded Inr Some]]
      note codes = next_frame_codes [OF sixteen n [unfolded Inr Some]]
      have "generate_loop m (codes @ sf_codes frame) (timings @ [(sf_talker_position frame,
          sf_predictor_gpu_milliseconds frame, sf_talker_gpu_milliseconds frame)]) s1 w1 = (Ok (codes', timings'), s', w')"
        using loop n Inr Some by (simp add: generate_loop.simps [of m codes timings s w])
      moreover have "ts_frames_emitted s1 \<le> ts_max_frames s1" using adv by simp
      ultimately obtain k where "length codes' = length (codes @ sf_codes frame) + 16 * k"
          "length timings' = length timings + 1 + k" "ts_frames_emitted s' = ts_frames_emitted s1 + k"
          "ts_frames_emitted s' \<le> ts_max_frames s1" "ts_end_reason s' \<noteq> None" "eos_agrees s'"
          "ts_codec_eos_token s' = ts_codec_eos_token s1" "ts_max_frames s' = ts_max_frames s1"
        using 1(1) [OF n [unfolded Inr Some, symmetric] refl refl refl sixteen] eos by auto
      then show ?thesis using adv codes by (intro exI [of _ "Suc k"]) (simp add: eos)
    qed
  qed
qed

lemma plan_frames: "plan_prompt m prompt settings = Ok plan \<Longrightarrow> 0 < gs_max_frames settings"
  by (auto simp: plan_prompt_def and_then_Ok_iff)

lemma start_prompt_session:
  assumes "start_prompt m prompt settings w = (Ok s, w')"
  shows "eos_agrees s \<and> ts_frames_emitted s = 0 \<and> ts_max_frames s = gs_max_frames settings \<and>
    ts_recyclable s \<and> 0 < gs_max_frames settings \<and>
    ts_codec_eos_token s = ucast (tc_codec_eos_token_id (mc_talker_config (tm_config m))) \<and> 0 < gs_max_frames settings \<and>
    ts_current_semantic s = np_first_semantic_token (ts_prefill s)"
  using assms plan_frames
  by (auto simp: start_prompt_def Let_def new_session_def eos_agrees_def
      split: sum.splits prod.splits if_splits)

text \<open>C29: a whole utterance has sixteen codes per frame, one timing per frame and at most the frames
  asked for; it ended by the codec's end token exactly when its last semantic token is that token,
  and otherwise ran to the frame limit.\<close>

theorem generate_prompt_output:
  assumes "sixteen_codes (tm_library m)"
    and "generate_prompt m prompt settings w = (Ok out, w')"
  shows "length (go_codec_codes out) = 16 * go_frame_count out \<and>
    length (go_frame_timings out) = go_frame_count out \<and>
    go_frame_count out \<le> gs_max_frames settings \<and>
    (go_ended_by_eos out \<longleftrightarrow>
       go_final_semantic_token out = ucast (tc_codec_eos_token_id (mc_talker_config (tm_config m)))) \<and>
    (\<not> go_ended_by_eos out \<longrightarrow> go_frame_count out = gs_max_frames settings)"
proof -
  obtain r w1 where start: "start_prompt m prompt settings w = (r, w1)" by fastforce
  obtain s where r: "r = Ok s" using assms(2) start by (cases r) (auto simp: generate_prompt_def)
  note s = start_prompt_session [OF start [unfolded r]]
  obtain g s' w2 where loop: "generate_loop m [] [] s w1 = (g, s', w2)" by (metis prod_cases3)
  obtain codes timings where g: "g = Ok (codes, timings)"
    using assms(2) start r loop by (cases g) (auto simp: generate_prompt_def)
  have out: "go_codec_codes out = codes" "go_frame_count out = length codes div 16" "go_frame_timings out = timings"
    "go_ended_by_eos out = (ts_end_reason s' = Some CodecEos)" "go_final_semantic_token out = ts_current_semantic s'"
    using assms(2) start r loop g by (auto simp: generate_prompt_def)
  obtain n where n: "length codes = 16 * n" "length timings = n" "ts_frames_emitted s' = n"
      "n \<le> gs_max_frames settings" "ts_end_reason s' \<noteq> None" "eos_agrees s'"
      "ts_codec_eos_token s' = ts_codec_eos_token s" "ts_max_frames s' = gs_max_frames settings"
    using generate_loop_spec [OF assms(1) conjunct1 [OF s] _ loop [unfolded g]] s by auto
  have "ts_end_reason s' = Some CodecEos \<or> ts_end_reason s' = Some MaxFrames"
    using n(5,6) by (cases "ts_end_reason s'"; cases "the (ts_end_reason s')") (auto simp: eos_agrees_def)
  then show ?thesis using n s by (auto simp: out eos_agrees_def)
qed

lemma counting_library_sixteen: "sixteen_codes counting_library"
  by (simp add: sixteen_codes_def counting_library_def)

lemma generate_prompt_output_witness:
  "\<exists>out w'. generate_prompt counting_model example_prompt example_settings \<lparr>tw_native = (0, []), tw_pool = []\<rparr> = (Ok out, w') \<and>
     go_frame_count out \<le> 2 \<and> length (go_codec_codes out) = 16 * go_frame_count out"
proof -
  have "is_ok (fst (generate_prompt counting_model example_prompt example_settings \<lparr>tw_native = (0, []), tw_pool = []\<rparr>))"
  proof -
    have plan: "plan_prompt counting_model example_prompt example_settings = Ok (([5], [- 1]), 32,
        \<lparr>ns_do_sample = 0, ns_top_k = 0, ns_top_p = FFin 1, ns_temperature = FFin 1, ns_repetition_penalty = FFin 1\<rparr>,
        \<lparr>ns_do_sample = 0, ns_top_k = 0, ns_top_p = FFin 1, ns_temperature = FFin 1, ns_repetition_penalty = FFin 1\<rparr>)"
      by (simp add: plan_prompt_def example_settings_def example_prompt_def counting_model_def text_step_def
          text_source_id_def i32_try_from_def capacity_defs usize_max_def sampling_native_def greedy_def)
    show ?thesis
      unfolding generate_prompt_def start_prompt_def plan
      by (simp add: example_settings_def example_prompt_def counting_model_def
          acquire_session_def smallest_adequate_session_index_def create_session_def find_symbol_def counting_library_def
          ensure_native_success_def prefill_native_def new_session_def Let_def example_config_def generate_loop.simps
          next_frame_def frame_guard_def text_source_id_def next_text_def i32_try_from_def next_native_def take_frame_def
          end_after_def)
  qed
  then obtain out w' where g: "generate_prompt counting_model example_prompt example_settings
      \<lparr>tw_native = (0, []), tw_pool = []\<rparr> = (Ok out, w')" by (metis is_ok_iff prod.collapse)
  have "sixteen_codes (tm_library counting_model)" by (simp add: counting_model_def counting_library_sixteen)
  from generate_prompt_output [OF this g] g show ?thesis by (auto simp: example_settings_def)
qed

end
