(* ===== verification/CdCodec.thy ===== *)
theory CdCodec
  imports RustFloat
begin

text \<open>
  The codec's host interface (\<open>ffi.rs\<close> of \<open>qwen3-tts-native-codec\<close>): loading the shared model,
  decoder sessions, host packets and device packets with their pending guard. The CUDA library is a
  record of functions on a state of its own; a handle is a number, 0 being null. The library writes
  PCM only inside the slice it is given.
\<close>

section \<open>Results\<close>

type_synonym status_message = "32 word \<times> bytes"

definition CODEC_CODEBOOKS :: nat where "CODEC_CODEBOOKS = 16"
definition CODEC_MAX_PACKET_FRAMES :: nat where "CODEC_MAX_PACKET_FRAMES = 4"
definition SAMPLES_PER_FRAME :: nat where "SAMPLES_PER_FRAME = 1920"
definition MAX_BATCH_STREAMS :: nat where "MAX_BATCH_STREAMS = 6"
definition DEVICE_PACKET_ABI_VERSION :: "32 word" where "DEVICE_PACKET_ABI_VERSION = 2"
definition STATUS_INVALID_ARGUMENT :: "32 word" where "STATUS_INVALID_ARGUMENT = - 1"
definition STATUS_STATE :: "32 word" where "STATUS_STATE = - 3"
definition STATUS_MODEL :: "32 word" where "STATUS_MODEL = - 5"

definition show_i32 :: "32 word \<Rightarrow> bytes" where
  "show_i32 w = (if sint w < 0 then ''-'' else []) @ show_nat (nat \<bar>sint w\<bar>)"

definition status_result :: "status_message \<Rightarrow> bytes + unit" where
  "status_result s = (if fst s = 0 then Ok () else Err (''status '' @ show_i32 (fst s) @ '': '' @ snd s))"

record packet_result =
  pr_first_frame_position :: u64
  pr_first_sample_position :: u64
  pr_frame_count :: u32
  pr_sample_count :: u32
  pr_ring_slot :: u32
  pr_is_final :: u32
  pr_gpu_microseconds :: f32
  pr_end_to_end_microseconds :: f32

definition default_packet_result :: packet_result where
  "default_packet_result = \<lparr>pr_first_frame_position = 0, pr_first_sample_position = 0, pr_frame_count = 0,
     pr_sample_count = 0, pr_ring_slot = 0, pr_is_final = 0, pr_gpu_microseconds = FFin 0,
     pr_end_to_end_microseconds = FFin 0\<rparr>"

record session_memory_info =
  sx_device_bytes :: u64
  sx_host_pinned_bytes :: u64
  sx_transformer_kv_bytes :: u64
  sx_convolution_history_bytes :: u64
  sx_codec_ring_bytes :: u64
  sx_pcm_ring_bytes :: u64
  sx_workspace_device_bytes :: u64

type_synonym codec_frame = "u16 list"

section \<open>The library and its loading\<close>

text \<open>What the library reads of a weight, through a callback from the tensor's number to the status and
  what was written through the output pointers. A callback that unwinds is a value.\<close>

record tensor_out =
  to_name :: bytes
  to_data :: bytes
  to_shape :: "nat list"
  to_rank :: nat
  to_dtype :: u32

type_synonym tensor_callback = "nat \<Rightarrow> (32 word \<times> tensor_out option) unwind"

text \<open>\<open>cl_missing\<close> lists the symbols the library does not export. Writing PCM is a list laid over the
  slice.\<close>

record 'l codec_library =
  cl_missing :: "bytes list"
  cl_abi_version_v2 :: "32 word"
  cl_shared_model_create :: "32 word \<Rightarrow> 'l \<Rightarrow> (status_message \<times> nat) \<times> 'l"
  cl_shared_model_destroy :: "nat \<Rightarrow> 'l \<Rightarrow> 'l"
  cl_shared_model_load :: "nat \<Rightarrow> nat \<Rightarrow> tensor_callback \<Rightarrow> 'l \<Rightarrow> status_message \<times> 'l"
  cl_shared_model_warmup :: "nat \<Rightarrow> 'l \<Rightarrow> status_message \<times> 'l"
  cl_session_create :: "nat \<Rightarrow> 'l \<Rightarrow> (status_message \<times> nat) \<times> 'l"
  cl_session_destroy :: "nat \<Rightarrow> 'l \<Rightarrow> 'l"
  cl_session_reset :: "nat \<Rightarrow> 'l \<Rightarrow> status_message \<times> 'l"
  cl_session_cancel :: "nat \<Rightarrow> 'l \<Rightarrow> status_message \<times> 'l"
  cl_session_memory_info :: "nat \<Rightarrow> 'l \<Rightarrow> (status_message \<times> session_memory_info) \<times> 'l"
  cl_session_process :: "nat \<Rightarrow> codec_frame list \<Rightarrow> bool \<Rightarrow> nat \<Rightarrow> 'l \<Rightarrow>
    (status_message \<times> pcm \<times> packet_result) \<times> 'l"
  cl_device_begin :: "nat \<Rightarrow> nat \<Rightarrow> nat \<Rightarrow> nat \<Rightarrow> 'l \<Rightarrow> (status_message \<times> u64 \<times> nat) \<times> 'l"
  cl_device_finish :: "nat \<Rightarrow> u64 \<Rightarrow> bool \<Rightarrow> nat \<Rightarrow> 'l \<Rightarrow> (status_message \<times> pcm \<times> packet_result) \<times> 'l"
  cl_batch_process :: "(nat \<times> codec_frame list \<times> bool \<times> nat) list \<Rightarrow> 'l \<Rightarrow>
    (status_message \<times> (pcm \<times> packet_result) list) \<times> 'l"

definition overlay :: "pcm \<Rightarrow> pcm \<Rightarrow> pcm" where
  "overlay written buf = take (length buf) written @ drop (length written) buf"

lemma length_overlay [simp]: "length (overlay written buf) = length buf"
  by (simp add: overlay_def)

definition required_symbols :: "bytes list" where
  "required_symbols = map (\<lambda>n. ''qwen3_tts_codec_'' @ n)
     [''abi_version_v1'', ''create_v1'', ''destroy_v1'', ''reset_v1'', ''warmup_v1'', ''state_info_v1'',
      ''load_model_v1'', ''model_info_v1'', ''debug_frontend_packet_v1'', ''debug_transformer_packet_v1'',
      ''debug_latent_packet_v1'', ''debug_decoder_checkpoint_v1'', ''process_packet_v1'', ''process_batch_v1'',
      ''process_fixture_packet_v1'']"

definition has_symbol :: "'l codec_library \<Rightarrow> bytes \<Rightarrow> bool" where
  "has_symbol lib name \<longleftrightarrow> ''qwen3_tts_codec_'' @ name \<notin> set (cl_missing lib)"

definition show_bool :: "bool \<Rightarrow> bytes" where
  "show_bool b = (if b then ''true'' else ''false'')"

definition validate_device_packet_symbol_set :: "32 word option \<Rightarrow> bool \<Rightarrow> bool \<Rightarrow> bytes + bool" where
  "validate_device_packet_symbol_set reported has_begin has_finish =
     (if reported = None \<and> \<not> has_begin \<and> \<not> has_finish then Ok False
      else if reported = Some DEVICE_PACKET_ABI_VERSION \<and> has_begin \<and> has_finish then Ok True
      else case reported of
        Some version \<Rightarrow> if has_begin \<and> has_finish
          then Err (''device packet ABI version mismatch: expected 2, got '' @ show_i32 version)
          else Err (''incomplete device packet ABI v2 symbol set: abi_version_v2=true, begin_v2=''
            @ show_bool has_begin @ '', finish_v2='' @ show_bool has_finish)
      | None \<Rightarrow> Err (''incomplete device packet ABI v2 symbol set: abi_version_v2=false, begin_v2=''
            @ show_bool has_begin @ '', finish_v2='' @ show_bool has_finish))"

text \<open>A loaded library and whether it has the device-packet entry points. The text of a missing
  symbol's error is the loader's.\<close>

record 'l codec_api =
  ca_library :: "'l codec_library"
  ca_device_packet :: bool

definition codec_api_load :: "(bytes \<Rightarrow> bytes) \<Rightarrow> bytes + 'l codec_library \<Rightarrow> bytes + 'l codec_api" where
  "codec_api_load missing_text opened =
     and_then opened (\<lambda>lib.
     case List.find (\<lambda>s. s \<in> set (cl_missing lib)) required_symbols of
       Some s \<Rightarrow> Err (missing_text s)
     | None \<Rightarrow>
         and_then (validate_device_packet_symbol_set
           (if has_symbol lib ''abi_version_v2'' then Some (cl_abi_version_v2 lib) else None)
           (has_symbol lib ''session_process_device_packet_begin_v2'')
           (has_symbol lib ''session_process_device_packet_finish_v2'')) (\<lambda>device.
         Ok \<lparr>ca_library = lib, ca_device_packet = device\<rparr>))"

record 'l codec_model =
  cm_api :: "'l codec_api"
  cm_handle :: nat

definition supports_device_packets :: "'l codec_model \<Rightarrow> bool" where
  "supports_device_packets m = ca_device_packet (cm_api m)"

definition drop_codec_model :: "'l codec_model \<Rightarrow> 'l \<Rightarrow> 'l" where
  "drop_codec_model m l =
     (if cm_handle m = 0 \<or> \<not> has_symbol (ca_library (cm_api m)) ''shared_model_destroy_v1'' then l
      else cl_shared_model_destroy (ca_library (cm_api m)) (cm_handle m) l)"

text \<open>\<open>ModelProvider::new\<close>: names become C strings.\<close>

fun provider_names :: "bytes list \<Rightarrow> bytes + bytes list" where
  "provider_names [] = Ok []"
| "provider_names (name # rest) =
     (if char_of (0::nat) \<in> set name then Err (''tensor name contains NUL: '' @ name)
      else and_then (provider_names rest) (\<lambda>names. Ok (name # names)))"

definition shared_symbols :: "bytes list" where
  "shared_symbols = [''shared_model_destroy_v1'', ''shared_model_info_v1'', ''shared_model_memory_info_v1'',
     ''session_create_v1'', ''session_destroy_v1'', ''session_reset_v1'', ''session_cancel_v1'',
     ''session_state_info_v1'', ''session_memory_info_v1'', ''session_process_packet_v1'']"

definition load_shared_model :: "'l codec_api \<Rightarrow> 32 word \<Rightarrow> bytes list \<Rightarrow> (bytes list \<Rightarrow> tensor_callback) \<Rightarrow> 'l \<Rightarrow>
    (bytes + 'l codec_model) \<times> 'l" where
  "load_shared_model api device weights tensor_at l =
     (let lib = ca_library api in
      if \<not> list_all (has_symbol lib) [''shared_model_create_v1'', ''shared_model_load_v1'', ''shared_model_warmup_v1'']
      then (Err ''shared model ABI is unavailable'', l)
      else if \<not> list_all (has_symbol lib) shared_symbols then (Err ''shared model ABI is incomplete'', l)
      else case cl_shared_model_create lib device l of
        ((status, h), l1) \<Rightarrow>
          (case status_result status of
             Inl e \<Rightarrow> (Err e, l1)
           | Inr _ \<Rightarrow>
               if h = 0 then (Err ''shared model create returned a null handle'', l1)
               else (let model = \<lparr>cm_api = api, cm_handle = h\<rparr> in
                 case provider_names weights of
                   Inl e \<Rightarrow> (Err e, drop_codec_model model l1)
                 | Inr names \<Rightarrow>
                     (case cl_shared_model_load lib h (length names) (tensor_at names) l1 of
                        (loaded, l2) \<Rightarrow>
                          (case status_result loaded of
                             Inl e \<Rightarrow> (Err e, drop_codec_model model l2)
                           | Inr _ \<Rightarrow>
                               (case cl_shared_model_warmup lib h l2 of
                                  (warm, l3) \<Rightarrow>
                                    (case status_result warm of
                                       Inl e \<Rightarrow> (Err e, drop_codec_model model l3)
                                     | Inr _ \<Rightarrow> (Ok model, l3))))))))"

section \<open>Sessions\<close>

record 'l codec_session =
  cs_model :: "'l codec_model"
  cs_handle :: nat

abbreviation session_library :: "'l codec_session \<Rightarrow> 'l codec_library" where
  "session_library s \<equiv> ca_library (cm_api (cs_model s))"

definition start_codec_session :: "'l codec_model \<Rightarrow> 'l \<Rightarrow> (bytes + 'l codec_session) \<times> 'l" where
  "start_codec_session m l =
     (if \<not> has_symbol (ca_library (cm_api m)) ''session_create_v1''
      then (Err ''shared session ABI is unavailable'', l)
      else case cl_session_create (ca_library (cm_api m)) (cm_handle m) l of
        ((status, h), l1) \<Rightarrow>
          (and_then (status_result status) (\<lambda>_.
           if h = 0 then Err ''session create returned a null handle''
           else Ok \<lparr>cs_model = m, cs_handle = h\<rparr>), l1))"

definition drop_codec_session :: "'l codec_session \<Rightarrow> 'l \<Rightarrow> 'l" where
  "drop_codec_session s l =
     (if cs_handle s = 0 \<or> \<not> has_symbol (session_library s) ''session_destroy_v1'' then l
      else cl_session_destroy (session_library s) (cs_handle s) l)"

text \<open>The calls that only pass a status on.\<close>

definition session_call :: "bytes \<Rightarrow> ('l codec_library \<Rightarrow> nat \<Rightarrow> 'l \<Rightarrow> status_message \<times> 'l) \<Rightarrow>
    'l codec_session \<Rightarrow> 'l \<Rightarrow> (bytes + unit) \<times> 'l" where
  "session_call symbol f s l =
     (if \<not> has_symbol (session_library s) symbol then (Err ''shared session ABI is unavailable'', l)
      else case f (session_library s) (cs_handle s) l of (status, l1) \<Rightarrow> (status_result status, l1))"

definition codec_session_reset :: "'l codec_session \<Rightarrow> 'l \<Rightarrow> (bytes + unit) \<times> 'l" where
  "codec_session_reset = session_call ''session_reset_v1'' cl_session_reset"

definition codec_session_cancel :: "'l codec_session \<Rightarrow> 'l \<Rightarrow> (bytes + unit) \<times> 'l" where
  "codec_session_cancel = session_call ''session_cancel_v1'' cl_session_cancel"

definition codec_memory_info :: "'l codec_session \<Rightarrow> 'l \<Rightarrow> (bytes + session_memory_info) \<times> 'l" where
  "codec_memory_info s l =
     (if \<not> has_symbol (session_library s) ''session_memory_info_v1''
      then (Err ''shared session ABI is unavailable'', l)
      else case cl_session_memory_info (session_library s) (cs_handle s) l of
        ((status, info), l1) \<Rightarrow> (and_then (status_result status) (\<lambda>_. Ok info), l1))"

text \<open>The result, the PCM slice afterwards and the library's state. The slice may have been written
  even when the call fails.\<close>

definition process_into :: "'l codec_session \<Rightarrow> codec_frame list \<Rightarrow> bool \<Rightarrow> pcm \<Rightarrow> 'l \<Rightarrow>
    (status_message + packet_result) \<times> pcm \<times> 'l" where
  "process_into s frames is_final pcm l =
     (if \<not> has_symbol (session_library s) ''session_process_packet_v1''
      then (Err (- 1, ''shared session ABI is unavailable''), pcm, l)
      else case cl_session_process (session_library s) (cs_handle s) frames is_final (length pcm) l of
        ((status, written, result), l1) \<Rightarrow>
          (if fst status \<noteq> 0 then Err status else Ok result, overlay written pcm, l1))"

definition codec_process :: "'l codec_session \<Rightarrow> codec_frame list \<Rightarrow> bool \<Rightarrow> 'l \<Rightarrow>
    (status_message + pcm \<times> packet_result) \<times> 'l" where
  "codec_process s frames is_final l =
     (case process_into s frames is_final (replicate (length frames * SAMPLES_PER_FRAME) 0) l of
        (r, pcm, l1) \<Rightarrow> (and_then r (\<lambda>result. Ok (pcm, result)), l1))"

section \<open>Device packets\<close>

definition required_device_packet_samples :: "nat \<Rightarrow> status_message + nat" where
  "required_device_packet_samples frame_count =
     (if \<not> (1 \<le> frame_count \<and> frame_count \<le> CODEC_MAX_PACKET_FRAMES)
      then Err (STATUS_INVALID_ARGUMENT, ''device packet must contain 1-4 frames'')
      else ok_or (usize_checked_mul frame_count SAMPLES_PER_FRAME)
        (STATUS_INVALID_ARGUMENT, ''device packet sample count overflowed usize''))"

definition validate_device_pcm_capacity :: "nat \<Rightarrow> nat \<Rightarrow> status_message + nat" where
  "validate_device_pcm_capacity frame_count capacity =
     and_then (required_device_packet_samples frame_count) (\<lambda>required.
     if capacity < required
     then Err (STATUS_INVALID_ARGUMENT, ''PCM output capacity is too small: need '' @ show_nat required
       @ '' samples, got '' @ show_nat capacity)
     else Ok required)"

definition malformed_begin_output_message :: "bytes \<Rightarrow> bytes option \<Rightarrow> bytes" where
  "malformed_begin_output_message reason cleanup =
     (case cleanup of
        Some e \<Rightarrow> ''device packet begin '' @ reason @ ''; defensive session reset also failed: '' @ e
      | None \<Rightarrow> ''device packet begin '' @ reason @ ''; session was reset defensively'')"

record pending_packet =
  pk_ticket_id :: u64
  pk_codes_consumed_event :: nat
  pk_frame_count :: nat
  pk_active :: bool

definition cleanup_of :: "(bytes + unit) \<times> 'l \<Rightarrow> bytes option" where
  "cleanup_of r = (case fst r of Inl e \<Rightarrow> Some e | Inr _ \<Rightarrow> None)"

definition begin_device_packet :: "'l codec_session \<Rightarrow> nat \<Rightarrow> nat \<Rightarrow> nat \<Rightarrow> 'l \<Rightarrow>
    (status_message + pending_packet) \<times> 'l" where
  "begin_device_packet s codes frame_count ready l =
     (case required_device_packet_samples frame_count of
        Inl e \<Rightarrow> (Err e, l)
      | Inr _ \<Rightarrow>
          if codes = 0 then (Err (STATUS_INVALID_ARGUMENT, ''device codec frame pointer must not be null''), l)
          else if ready = 0 then (Err (STATUS_INVALID_ARGUMENT, ''producer-ready CUDA event must not be null''), l)
          else if \<not> ca_device_packet (cm_api (cs_model s))
          then (Err (STATUS_STATE, ''device packet ABI v2 is unavailable''), l)
          else case cl_device_begin (session_library s) (cs_handle s) codes frame_count ready l of
            ((status, ticket, event), l1) \<Rightarrow>
              if fst status \<noteq> 0 then (Err status, l1)
              else if event = 0
              then (case codec_session_reset s l1 of
                (r, l2) \<Rightarrow> (Err (STATUS_STATE, malformed_begin_output_message
                  ''returned a null codes-consumed event'' (cleanup_of (r, l2))), l2))
              else if ticket = 0
              then (case codec_session_reset s l1 of
                (r, l2) \<Rightarrow> (Err (STATUS_STATE, malformed_begin_output_message
                  ''returned ticket zero'' (cleanup_of (r, l2))), l2))
              else (Ok \<lparr>pk_ticket_id = ticket, pk_codes_consumed_event = event,
                       pk_frame_count = frame_count, pk_active = True\<rparr>, l1))"

definition required_pcm_samples :: "pending_packet \<Rightarrow> nat" where
  "required_pcm_samples p = pk_frame_count p * SAMPLES_PER_FRAME"

definition try_finish :: "'l codec_session \<Rightarrow> pending_packet \<Rightarrow> bool \<Rightarrow> pcm \<Rightarrow> 'l \<Rightarrow>
    (status_message + packet_result) \<times> pending_packet \<times> pcm \<times> 'l" where
  "try_finish s p is_final pcm l =
     (if \<not> pk_active p then (Err (STATUS_STATE, ''device packet is no longer pending''), p, pcm, l)
      else case validate_device_pcm_capacity (pk_frame_count p) (length pcm) of
        Inl e \<Rightarrow> (Err e, p, pcm, l)
      | Inr _ \<Rightarrow>
          (case cl_device_finish (session_library s) (cs_handle s) (pk_ticket_id p) is_final (length pcm) l of
             ((status, written, result), l1) \<Rightarrow>
               if fst status \<noteq> 0 then (Err status, p, overlay written pcm, l1)
               else if unat (pr_frame_count result) \<noteq> pk_frame_count p
                 \<or> unat (pr_sample_count result) \<noteq> required_pcm_samples p
               then (Err (STATUS_STATE, ''device finish returned inconsistent metadata: expected ''
                   @ show_nat (pk_frame_count p) @ '' frames/'' @ show_nat (required_pcm_samples p)
                   @ '' samples, got '' @ show_nat (unat (pr_frame_count result)) @ '' frames/''
                   @ show_nat (unat (pr_sample_count result)) @ '' samples''),
                 p\<lparr>pk_active := False\<rparr>, overlay written pcm, l1)
               else (Ok result, p\<lparr>pk_active := False\<rparr>, overlay written pcm, l1)))"

text \<open>Dropping an active guard resets the session, and cancels it when that fails.\<close>

definition drop_pending_packet :: "'l codec_session \<Rightarrow> pending_packet \<Rightarrow> 'l \<Rightarrow> 'l" where
  "drop_pending_packet s p l =
     (if \<not> pk_active p then l
      else case codec_session_reset s l of
        (Inr _, l1) \<Rightarrow> l1
      | (Inl _, l1) \<Rightarrow> snd (codec_session_cancel s l1))"

definition finish_packet :: "'l codec_session \<Rightarrow> pending_packet \<Rightarrow> bool \<Rightarrow> pcm \<Rightarrow> 'l \<Rightarrow>
    (status_message + packet_result) \<times> pcm \<times> 'l" where
  "finish_packet s p is_final pcm l =
     (case try_finish s p is_final pcm l of (r, p', pcm', l1) \<Rightarrow> (r, pcm', drop_pending_packet s p' l1))"

definition cancel_packet :: "'l codec_session \<Rightarrow> pending_packet \<Rightarrow> 'l \<Rightarrow> (bytes + unit) \<times> 'l" where
  "cancel_packet s p l =
     (case codec_session_cancel s l of
        (r, l1) \<Rightarrow> (r, drop_pending_packet s (p\<lparr>pk_active := pk_active p \<and> \<not> is_ok r\<rparr>) l1))"

definition reset_packet :: "'l codec_session \<Rightarrow> pending_packet \<Rightarrow> 'l \<Rightarrow> (bytes + unit) \<times> 'l" where
  "reset_packet s p l =
     (case codec_session_reset s l of
        (r, l1) \<Rightarrow> (r, drop_pending_packet s (p\<lparr>pk_active := pk_active p \<and> \<not> is_ok r\<rparr>) l1))"

section \<open>Batches of streams\<close>

definition process_batch :: "'l codec_library \<Rightarrow> nat list \<Rightarrow> codec_frame list list \<Rightarrow> bool list \<Rightarrow> 'l \<Rightarrow>
    (status_message + (pcm \<times> packet_result) list) \<times> 'l" where
  "process_batch lib contexts frames finals l =
     (if contexts = [] \<or> MAX_BATCH_STREAMS < length contexts \<or> length frames \<noteq> length contexts
        \<or> length finals \<noteq> length contexts
      then (Err (- 1, ''batch vectors must contain 1-6 matching items''), l)
      else (let pcm = map (\<lambda>packet. replicate (length packet * SAMPLES_PER_FRAME) 0) frames;
                items = zip contexts (zip frames (zip finals (map length pcm)))
            in case cl_batch_process lib items l of
              ((status, out), l1) \<Rightarrow>
                (if fst status \<noteq> 0 then Err status
                 else Ok (map (\<lambda>(buf, i). if i < length out then (overlay (fst (out ! i)) buf, snd (out ! i))
                                             else (buf, default_packet_result)) (zip pcm [0..<length pcm])), l1)))"

section \<open>Lemmas\<close>

lemma process_into_length: "process_into s frames f pcm l = (r, pcm', l') \<Longrightarrow> length pcm' = length pcm"
  by (auto simp: process_into_def split: if_splits prod.splits)

lemma try_finish_length: "try_finish s p f pcm l = (r, p', pcm', l') \<Longrightarrow> length pcm' = length pcm"
  by (auto simp: try_finish_def split: if_splits prod.splits sum.splits)

lemma finish_packet_length: "finish_packet s p f pcm l = (r, pcm', l') \<Longrightarrow> length pcm' = length pcm"
  by (auto simp: finish_packet_def split: prod.splits dest: try_finish_length)

lemma begin_device_packet_Ok:
  "begin_device_packet s codes n ready l = (Ok p, l') \<Longrightarrow>
     pk_active p \<and> pk_frame_count p = n \<and> 1 \<le> n \<and> n \<le> 4 \<and> pk_ticket_id p \<noteq> 0 \<and> pk_codes_consumed_event p \<noteq> 0"
  by (auto simp: begin_device_packet_def required_device_packet_samples_def CODEC_MAX_PACKET_FRAMES_def
      split: if_splits sum.splits prod.splits)

end
