(* ===== verification/Json.thy ===== *)
theory Json
  imports Prelude "HOL-Library.List_Lexorder" "HOL-Library.Char_ord"
begin

text \<open>
  Parsed JSON as the datatype of the documented \<open>serde_json::Value\<close>, with the accessors the program uses,
  and ordered maps (\<open>BTreeMap\<close>) as sorted association lists. The parser itself is a third-party crate's
  and an argument wherever it is used.
\<close>

datatype json =
    JNull
  | JBool bool
  | JUnsigned nat
  | JSigned int
  | JFloat
  | JString bytes
  | JArray "json list"
  | JObject "(bytes \<times> json) list"

fun as_u64 :: "json \<Rightarrow> nat option" where
  "as_u64 (JUnsigned n) = Some n"
| "as_u64 _ = None"

fun as_bool :: "json \<Rightarrow> bool option" where
  "as_bool (JBool b) = Some b"
| "as_bool _ = None"

fun as_str :: "json \<Rightarrow> bytes option" where
  "as_str (JString s) = Some s"
| "as_str _ = None"

fun as_array :: "json \<Rightarrow> json list option" where
  "as_array (JArray vs) = Some vs"
| "as_array _ = None"

fun as_object :: "json \<Rightarrow> (bytes \<times> json) list option" where
  "as_object (JObject kvs) = Some kvs"
| "as_object _ = None"

text \<open>\<open>value[key]\<close> is null when there is no such key, or no object.\<close>

fun json_get :: "json \<Rightarrow> bytes \<Rightarrow> json" where
  "json_get (JObject kvs) k = (case map_of kvs k of Some v \<Rightarrow> v | None \<Rightarrow> JNull)"
| "json_get _ _ = JNull"

text \<open>\<open>value.pointer(path)\<close>, the path split at its slashes; no part of a path in use is an array index.\<close>

fun json_pointer :: "bytes list \<Rightarrow> json \<Rightarrow> json option" where
  "json_pointer [] v = Some v"
| "json_pointer (k # ks) (JObject kvs) = Option.bind (map_of kvs k) (json_pointer ks)"
| "json_pointer (k # ks) _ = None"

section \<open>Ordered maps\<close>

fun bt_insert :: "'k::linorder \<Rightarrow> 'v \<Rightarrow> ('k \<times> 'v) list \<Rightarrow> ('k \<times> 'v) list" where
  "bt_insert k v [] = [(k, v)]"
| "bt_insert k v ((k', v') # m) =
     (if k < k' then (k, v) # (k', v') # m
      else if k = k' then (k, v) # m
      else (k', v') # bt_insert k v m)"

abbreviation bt_map :: "('k::linorder \<times> 'v) list \<Rightarrow> bool" where
  "bt_map m \<equiv> sorted_wrt (<) (map fst m)"

lemma bt_insert_keys [simp]: "fst ` set (bt_insert k v m) = insert k (fst ` set m)"
  by (induction k v m rule: bt_insert.induct) (simp_all add: insert_commute)

lemma bt_insert_map: "bt_map m \<Longrightarrow> bt_map (bt_insert k v m)"
  by (induction k v m rule: bt_insert.induct) (auto intro: less_trans)

lemma bt_insert_lookup: "bt_map m \<Longrightarrow> map_of (bt_insert k v m) = (map_of m)(k \<mapsto> v)"
proof (induction k v m rule: bt_insert.induct)
  case (2 k v k' v' m)
  then show ?case by (auto simp: fun_eq_iff)
qed simp

lemma bt_insert_last: "bt_map m \<Longrightarrow> \<forall>k' \<in> set (map fst m). k' < k \<Longrightarrow> bt_insert k v m = m @ [(k, v)]"
  by (induction k v m rule: bt_insert.induct) (auto dest: less_not_sym)

lemma bt_insert_length: "k \<notin> set (map fst m) \<Longrightarrow> length (bt_insert k v m) = Suc (length m)"
  by (induction k v m rule: bt_insert.induct) auto

end
