(* ===== verification/CdWeights.thy ===== *)
theory CdWeights
  imports CdCodec Json
begin

text \<open>
  Decoder weights (\<open>model.rs\<close> of \<open>qwen3-tts-native-codec\<close>): opening a safetensors file, the tensors it
  holds, and the callback through which the CUDA library reads them (\<open>model_tensor_at\<close> of
  \<open>ffi.rs\<close>). The parser of the JSON header is an argument.
\<close>

datatype tensor_dtype = F32 | Bf16

definition dtype_from_safetensors :: "bytes \<Rightarrow> bytes + tensor_dtype" where
  "dtype_from_safetensors s =
     (if s = ''F32'' then Ok F32 else if s = ''BF16'' then Ok Bf16
      else Err (''unsupported tensor dtype '' @ s))"

fun dtype_bytes :: "tensor_dtype \<Rightarrow> nat" where
  "dtype_bytes F32 = 4"
| "dtype_bytes Bf16 = 2"

record tensor_entry =
  te_dtype :: tensor_dtype
  te_shape :: "nat list"
  te_data_start :: nat
  te_data_end :: nat

definition byte_len :: "tensor_entry \<Rightarrow> nat" where
  "byte_len e = te_data_end e - te_data_start e"

fun element_count :: "nat \<Rightarrow> nat list \<Rightarrow> bytes + nat" where
  "element_count acc [] = Ok acc"
| "element_count acc (d # ds) =
     (if usize_max < d then Err ''tensor dimension exceeds usize''
      else and_then (ok_or (usize_checked_mul acc d) ''tensor element count overflow'') (\<lambda>t.
        element_count t ds))"

record safetensors_file =
  sf_storage :: bytes
  sf_tensors :: "(bytes \<times> tensor_entry) list"

fun shape_from :: "bytes \<Rightarrow> json list \<Rightarrow> bytes + nat list" where
  "shape_from name [] = Ok []"
| "shape_from name (v # vs) =
     and_then (ok_or (as_u64 v) (''tensor '' @ name @ '' has a non-integer dimension'')) (\<lambda>d.
     and_then (shape_from name vs) (\<lambda>ds. Ok (d # ds)))"

definition offsets_from :: "json \<Rightarrow> (json \<times> json) option" where
  "offsets_from v = (case as_array v of Some [a, b] \<Rightarrow> Some (a, b) | _ \<Rightarrow> None)"

text \<open>One turn of the loop over the header's entries. The offsets are taken relative to the end of the
  header; a \<open>u64\<close> fits a \<open>usize\<close> on the 64-bit target.\<close>

definition tensor_from :: "nat \<Rightarrow> nat \<Rightarrow> bytes \<Rightarrow> json \<Rightarrow> bytes + tensor_entry" where
  "tensor_from data_base storage_len name value =
     and_then (ok_or (as_object value) (''tensor '' @ name @ '' is not an object'')) (\<lambda>tensor.
     and_then (ok_or (Option.bind (map_of tensor ''dtype'') as_str) (''tensor '' @ name @ '' has no dtype'')) (\<lambda>dtype_name.
     and_then (dtype_from_safetensors dtype_name) (\<lambda>dtype.
     and_then (ok_or (Option.bind (map_of tensor ''shape'') as_array) (''tensor '' @ name @ '' has no shape'')) (\<lambda>dims.
     and_then (shape_from name dims) (\<lambda>shape.
     and_then (ok_or (Option.bind (map_of tensor ''data_offsets'') offsets_from)
       (''tensor '' @ name @ '' has invalid offsets'')) (\<lambda>(o0, o1).
     and_then (ok_or (as_u64 o0) (''tensor '' @ name @ '' has invalid start offset'')) (\<lambda>relative_start.
     and_then (ok_or (as_u64 o1) (''tensor '' @ name @ '' has invalid end offset'')) (\<lambda>relative_end.
     and_then (ok_or (usize_checked_add data_base relative_start) (''tensor '' @ name @ '' start offset overflow'')) (\<lambda>data_start.
     and_then (ok_or (usize_checked_add data_base relative_end) (''tensor '' @ name @ '' end offset overflow'')) (\<lambda>data_end.
     if data_end < data_start \<or> storage_len < data_end
     then Err (''tensor '' @ name @ '' data range is outside the file'')
     else (let entry = \<lparr>te_dtype = dtype, te_shape = shape, te_data_start = data_start, te_data_end = data_end\<rparr> in
       and_then (element_count 1 shape) (\<lambda>elements.
       and_then (ok_or (usize_checked_mul elements (dtype_bytes dtype)) ''tensor byte count overflow'') (\<lambda>expected.
       if byte_len entry \<noteq> expected
       then Err (''tensor '' @ name @ '' byte count is '' @ show_nat (byte_len entry) @ '', expected '' @ show_nat expected)
       else Ok entry)))))))))))))"

fun tensors_from :: "nat \<Rightarrow> nat \<Rightarrow> (bytes \<times> json) list \<Rightarrow> bytes + (bytes \<times> tensor_entry) list" where
  "tensors_from data_base storage_len [] = Ok []"
| "tensors_from data_base storage_len ((name, value) # rest) =
     (if name = ''__metadata__'' then tensors_from data_base storage_len rest
      else and_then (tensor_from data_base storage_len name value) (\<lambda>entry.
           and_then (tensors_from data_base storage_len rest) (\<lambda>entries. Ok ((name, entry) # entries))))"

text \<open>\<open>open\<close>, given the file's bytes. The parser gives the entries of an object in key order, each key
  once.\<close>

definition safetensors_open :: "(bytes \<Rightarrow> bytes + json) \<Rightarrow> bytes \<Rightarrow> bytes + safetensors_file" where
  "safetensors_open parse storage =
     (if length storage < 8 then Err ''truncated safetensors file''
      else and_then (ok_or (usize_checked_add 8 (le_value (take 8 storage))) ''safetensors header length overflow'') (\<lambda>data_base.
        if length storage < data_base then Err ''truncated safetensors header''
        else and_then (parse (take (data_base - 8) (drop 8 storage))) (\<lambda>header.
          and_then (ok_or (as_object header) ''safetensors header is not an object'') (\<lambda>object.
          and_then (tensors_from data_base (length storage) object) (\<lambda>tensors.
          Ok \<lparr>sf_storage = storage, sf_tensors = tensors\<rparr>)))))"

text \<open>\<open>&storage[start..end]\<close> panics unless the range is inside the storage.\<close>

definition tensor :: "safetensors_file \<Rightarrow> bytes \<Rightarrow> (tensor_entry \<times> bytes unwind) option" where
  "tensor f name = map_option (\<lambda>e.
     (e, if te_data_start e \<le> te_data_end e \<and> te_data_end e \<le> length (sf_storage f)
         then Returned (take (byte_len e) (drop (te_data_start e) (sf_storage f))) else Panicked))
     (map_of (sf_tensors f) name)"

definition tensor_count :: "safetensors_file \<Rightarrow> nat" where
  "tensor_count f = length (sf_tensors f)"

definition decoder_tensors :: "safetensors_file \<Rightarrow> (bytes \<times> tensor_entry) list" where
  "decoder_tensors f = filter (\<lambda>(name, _). starts_with ''decoder.'' name) (sf_tensors f)"

definition decoder_tensor_names :: "safetensors_file \<Rightarrow> bytes list" where
  "decoder_tensor_names f = map fst (decoder_tensors f)"

definition decoder_tensor_count :: "safetensors_file \<Rightarrow> nat" where
  "decoder_tensor_count f = length (decoder_tensors f)"

definition decoder_payload_bytes :: "safetensors_file \<Rightarrow> nat" where
  "decoder_payload_bytes f = sum_list (map (byte_len \<circ> snd) (decoder_tensors f))"

definition decoder_dtype_counts :: "safetensors_file \<Rightarrow> nat \<times> nat" where
  "decoder_dtype_counts f =
     fold (\<lambda>(_, e) (f32s, bf16s). case te_dtype e of F32 \<Rightarrow> (f32s + 1, bf16s) | Bf16 \<Rightarrow> (f32s, bf16s + 1))
       (decoder_tensors f) (0, 0)"

section \<open>The weight callback\<close>

definition model_tensor_at :: "safetensors_file \<Rightarrow> bool \<Rightarrow> bytes list \<Rightarrow> tensor_callback" where
  "model_tensor_at f pointers_ok names index =
     (if \<not> pointers_ok then Returned (STATUS_MODEL, None)
      else if \<not> index < length names then Returned (STATUS_MODEL, None)
      else if \<not> utf8_valid (names ! index) then Returned (STATUS_MODEL, None)
      else case tensor f (names ! index) of
        None \<Rightarrow> Returned (STATUS_MODEL, None)
      | Some (e, Panicked) \<Rightarrow> Panicked
      | Some (e, Returned data) \<Rightarrow>
          if 4 < length (te_shape e) then Returned (STATUS_MODEL, None)
          else Returned (0, Some \<lparr>to_name = names ! index, to_data = data,
            to_shape = te_shape e @ replicate (4 - length (te_shape e)) 0, to_rank = length (te_shape e),
            to_dtype = (case te_dtype e of F32 \<Rightarrow> 1 | Bf16 \<Rightarrow> 2)\<rparr>))"

section \<open>Properties\<close>

definition entry_ok :: "nat \<Rightarrow> tensor_entry \<Rightarrow> bool" where
  "entry_ok n e \<longleftrightarrow> te_data_start e \<le> te_data_end e \<and> te_data_end e \<le> n \<and>
     byte_len e = prod_list (te_shape e) * dtype_bytes (te_dtype e)"

lemma element_count_Ok: "element_count t ds = Ok n \<Longrightarrow> n = t * prod_list ds"
  by (induction t ds arbitrary: n rule: element_count.induct)
    (fastforce simp: and_then_Ok_iff usize_checked_mul_def ok_or_def mult.assoc split: if_splits)+

lemma tensor_from_ok: "tensor_from base n name v = Ok e \<Longrightarrow> entry_ok n e"
  by (auto simp: tensor_from_def and_then_Ok_iff entry_ok_def not_less usize_checked_mul_def ok_or_def
      byte_len_def Let_def dest!: element_count_Ok split: if_splits option.splits)

lemma tensors_from_ok: "tensors_from base n kvs = Ok ts \<Longrightarrow> \<forall>(name, e) \<in> set ts. entry_ok n e"
  by (induction base n kvs arbitrary: ts rule: tensors_from.induct)
    (auto simp: and_then_Ok_iff dest: tensor_from_ok split: if_splits)

text \<open>C21: whatever the bytes of a weights file: when it opens, reading any of its tensors never panics and
  gives exactly as many bytes as the tensor's shape and type say; so the callback for the CUDA
  library never unwinds, and the data it hands out has the size of the shape it hands out.\<close>

theorem weights_file_consistent:
  assumes "safetensors_open parse storage = Ok f"
  shows "\<exists>status out. model_tensor_at f pointers_ok names index = Returned (status, out) \<and>
    (\<forall>t. out = Some t \<longrightarrow> status = 0 \<and>
       length (to_data t) = prod_list (take (to_rank t) (to_shape t)) * (if to_dtype t = 1 then 4 else 2))"
proof -
  obtain base kvs where f: "sf_storage f = storage" "tensors_from base (length storage) kvs = Ok (sf_tensors f)"
    using assms by (auto simp: safetensors_open_def and_then_Ok_iff split: if_splits)
  have ok: "map_of (sf_tensors f) name = Some e \<Longrightarrow> entry_ok (length (sf_storage f)) e" for name e
    using tensors_from_ok [OF f(2)] by (auto simp: f(1) dest!: map_of_SomeD)
  have read: "\<exists>data. tensor f name = Some (e, Returned data) \<and> length data = byte_len e"
    if "map_of (sf_tensors f) name = Some e" for name e
    using ok [OF that] that by (auto simp: tensor_def entry_ok_def byte_len_def)
  show ?thesis
  proof (cases "map_of (sf_tensors f) (names ! index)")
    case None
    then show ?thesis by (simp add: model_tensor_at_def tensor_def)
  next
    case (Some e)
    obtain data where "tensor f (names ! index) = Some (e, Returned data)" "length data = byte_len e"
      using read [OF Some] by blast
    then show ?thesis
      using ok [OF Some] by (cases "te_dtype e") (auto simp: model_tensor_at_def entry_ok_def)
  qed
qed

definition example_storage :: bytes where
  "example_storage = le_bytes 8 2 @ ''{}'' @ ''abcd''"

definition example_header :: json where
  "example_header = JObject [(''decoder.w'', JObject [(''dtype'', JString ''F32''), (''shape'', JArray [JUnsigned 1]),
     (''data_offsets'', JArray [JUnsigned 0, JUnsigned 4])])]"

lemma weights_file_consistent_witness:
  "\<exists>f status out. safetensors_open (\<lambda>_. Ok example_header) example_storage = Ok f \<and>
     model_tensor_at f True [''decoder.w''] 0 = Returned (status, out)"
proof -
  have "is_ok (safetensors_open (\<lambda>_. Ok example_header) example_storage)"
    by (simp add: safetensors_open_def example_storage_def example_header_def le_value_le_bytes usize_checked_add_def
        usize_max_def ok_or_def tensor_from_def dtype_from_safetensors_def offsets_from_def byte_len_def
        usize_checked_mul_def)
  then obtain f where "safetensors_open (\<lambda>_. Ok example_header) example_storage = Ok f" by (auto simp: is_ok_iff)
  with weights_file_consistent [OF this, of True "[''decoder.w'']" 0] show ?thesis by blast
qed

end
