(* ===== verification/RtStager.thy ===== *)
theory RtStager
  imports CdCodec
begin

text \<open>
  The CUDA packet stager of \<open>qwen3-tts-runtime/src/cuda_packet_stager.rs\<close>: finding the CUDA runtime, and
  the buffer of four codec frames between the talker and the codec. The CUDA runtime is one
  function from the call made to the status and the value written through the output pointer,
  on a state of its own; a device pointer, stream or event is a number, 0 being null.
\<close>

section \<open>The CUDA runtime\<close>

datatype cuda_call =
    SetDevice "32 word"
  | Malloc nat
  | Free nat
  | StreamCreate u32
  | StreamDestroy nat
  | StreamSynchronize nat
  | StreamWaitEvent nat nat
  | EventCreate u32
  | EventDestroy nat
  | EventRecord nat nat
  | Memcpy nat nat nat nat

record 'c cuda_runtime =
  cr_missing :: "bytes list"
  cr_version :: "32 word \<times> 32 word"
  cr_error_string :: "32 word \<Rightarrow> bytes option"
  cr_invoke :: "cuda_call \<Rightarrow> 'c \<Rightarrow> (32 word \<times> nat) \<times> 'c"

definition CUDA_STREAM_NON_BLOCKING :: u32 where "CUDA_STREAM_NON_BLOCKING = 1"
definition CUDA_EVENT_DISABLE_TIMING :: u32 where "CUDA_EVENT_DISABLE_TIMING = 2"
definition FRAME_BYTES :: nat where "FRAME_BYTES = CODEC_CODEBOOKS * 2"
definition PACKET_BYTES :: nat where "PACKET_BYTES = CODEC_CODEBOOKS * CODEC_MAX_PACKET_FRAMES * 2"

definition cuda_symbols :: "bytes list" where
  "cuda_symbols = [''cudaSetDevice'', ''cudaMalloc'', ''cudaFree'', ''cudaStreamCreateWithFlags'',
     ''cudaStreamDestroy'', ''cudaStreamSynchronize'', ''cudaStreamWaitEvent'', ''cudaEventCreateWithFlags'',
     ''cudaEventDestroy'', ''cudaEventRecord'', ''cudaMemcpyAsync'', ''cudaGetErrorString'',
     ''cudaRuntimeGetVersion'']"

text \<open>\<open>reason\<close> is what the loader says of a missing symbol.\<close>

definition from_library :: "(bytes \<Rightarrow> bytes) \<Rightarrow> 'c cuda_runtime \<Rightarrow> bytes + 'c cuda_runtime" where
  "from_library reason lib =
     (case List.find (\<lambda>s. s \<in> set (cr_missing lib)) cuda_symbols of
        Some s \<Rightarrow> Err (''missing CUDA runtime symbol '' @ s @ '': '' @ reason s)
      | None \<Rightarrow>
          if fst (cr_version lib) \<noteq> 0
          then Err (''cudaRuntimeGetVersion failed with CUDA status '' @ show_i32 (fst (cr_version lib)))
          else if sint (snd (cr_version lib)) < 13000
          then Err (''CUDA runtime '' @ show_i32 (snd (cr_version lib)) @ '' is older than required CUDA 13.0'')
          else Ok lib)"

definition cudart_candidates :: "bytes option \<Rightarrow> bytes list" where
  "cudart_candidates override =
     (case override of Some path \<Rightarrow> [path] | None \<Rightarrow> []) @ [''libcudart.so.13'', ''libcudart.so'']"

fun join_with :: "bytes \<Rightarrow> bytes list \<Rightarrow> bytes" where
  "join_with sep [] = []"
| "join_with sep [s] = s"
| "join_with sep (s # t # rest) = s @ sep @ join_with sep (t # rest)"

fun cuda_load_loop :: "(bytes \<Rightarrow> bytes) \<Rightarrow> (bytes \<Rightarrow> bytes + 'c cuda_runtime) \<Rightarrow> bytes list \<Rightarrow> bytes list \<Rightarrow>
    bytes + 'c cuda_runtime" where
  "cuda_load_loop reason opened failures [] =
     Err (''failed to load CUDA runtime ('' @ join_with ''; '' failures @ '')'')"
| "cuda_load_loop reason opened failures (candidate # rest) =
     (case and_then (opened candidate) (from_library reason) of
        Inr runtime \<Rightarrow> Ok runtime
      | Inl e \<Rightarrow> cuda_load_loop reason opened (failures @ [candidate @ '': '' @ e]) rest)"

definition cuda_runtime_load :: "(bytes \<Rightarrow> bytes) \<Rightarrow> (bytes \<Rightarrow> bytes + 'c cuda_runtime) \<Rightarrow> bytes option \<Rightarrow>
    bytes + 'c cuda_runtime" where
  "cuda_runtime_load reason opened override = cuda_load_loop reason opened [] (cudart_candidates override)"

definition check_status :: "'c cuda_runtime \<Rightarrow> bytes \<Rightarrow> 32 word \<Rightarrow> bytes + unit" where
  "check_status rt operation status =
     (if status = 0 then Ok ()
      else Err (operation @ '': ''
        @ (case cr_error_string rt status of None \<Rightarrow> ''CUDA status '' @ show_i32 status | Some m \<Rightarrow> m)
        @ '' ('' @ show_i32 status @ '')''))"

text \<open>A call whose status is checked, and one whose status is ignored.\<close>

definition checked_call :: "'c cuda_runtime \<Rightarrow> bytes \<Rightarrow> cuda_call \<Rightarrow> 'c \<Rightarrow> (bytes + unit) \<times> nat \<times> 'c" where
  "checked_call rt operation call c =
     (case cr_invoke rt call c of ((status, out), c') \<Rightarrow> (check_status rt operation status, out, c'))"

definition unchecked_call :: "'c cuda_runtime \<Rightarrow> cuda_call \<Rightarrow> 'c \<Rightarrow> 'c" where
  "unchecked_call rt call c = snd (cr_invoke rt call c)"

definition select_device :: "'c cuda_runtime \<Rightarrow> 32 word \<Rightarrow> 'c \<Rightarrow> (bytes + unit) \<times> 'c" where
  "select_device rt device c =
     (case checked_call rt ''select CUDA packet-stager device'' (SetDevice device) c of (r, _, c') \<Rightarrow> (r, c'))"

section \<open>The stager\<close>

record 'c packet_stager =
  sg_runtime :: "'c cuda_runtime"
  sg_device_index :: "32 word"
  sg_device_codes :: nat
  sg_stream :: nat
  sg_copied_event :: nat
  sg_staged_frames :: nat
  sg_poisoned :: bool

definition drop_stager :: "'c packet_stager \<Rightarrow> 'c \<Rightarrow> 'c" where
  "drop_stager s c =
     (let rt = sg_runtime s;
          c1 = snd (select_device rt (sg_device_index s) c);
          c2 = (if sg_stream s \<noteq> 0 then unchecked_call rt (StreamSynchronize (sg_stream s)) c1 else c1);
          c3 = (if sg_copied_event s \<noteq> 0 then unchecked_call rt (EventDestroy (sg_copied_event s)) c2 else c2);
          c4 = (if sg_stream s \<noteq> 0 then unchecked_call rt (StreamDestroy (sg_stream s)) c3 else c3)
      in if sg_device_codes s \<noteq> 0 then unchecked_call rt (Free (sg_device_codes s)) c4 else c4)"

definition stager_new :: "'c cuda_runtime \<Rightarrow> 32 word \<Rightarrow> 'c \<Rightarrow> (bytes + 'c packet_stager) \<times> 'c" where
  "stager_new rt device c =
     (case select_device rt device c of
        (Inl e, c1) \<Rightarrow> (Err e, c1)
      | (Inr _, c1) \<Rightarrow>
          (let s0 = \<lparr>sg_runtime = rt, sg_device_index = device, sg_device_codes = 0, sg_stream = 0,
                     sg_copied_event = 0, sg_staged_frames = 0, sg_poisoned = False\<rparr> in
           case checked_call rt ''allocate CUDA packet staging buffer'' (Malloc PACKET_BYTES) c1 of
             (r1, codes, c2) \<Rightarrow>
               (let s1 = s0\<lparr>sg_device_codes := codes\<rparr> in
                case r1 of
                  Inl e \<Rightarrow> (Err e, drop_stager s1 c2)
                | Inr _ \<Rightarrow>
                    (case checked_call rt ''create CUDA packet staging stream''
                        (StreamCreate CUDA_STREAM_NON_BLOCKING) c2 of
                       (r2, stream, c3) \<Rightarrow>
                         (let s2 = s1\<lparr>sg_stream := stream\<rparr> in
                          case r2 of
                            Inl e \<Rightarrow> (Err e, drop_stager s2 c3)
                          | Inr _ \<Rightarrow>
                              (case checked_call rt ''create CUDA packet staging event''
                                  (EventCreate CUDA_EVENT_DISABLE_TIMING) c3 of
                                 (r3, event, c4) \<Rightarrow>
                                   (let s3 = s2\<lparr>sg_copied_event := event\<rparr> in
                                    case r3 of
                                      Inl e \<Rightarrow> (Err e, drop_stager s3 c4)
                                    | Inr _ \<Rightarrow> (Ok s3, c4))))))))"

definition stager_device_bytes :: "'c packet_stager \<Rightarrow> u64" where
  "stager_device_bytes s = of_nat PACKET_BYTES"

text \<open>The guards of \<open>stage_frame\<close> before the device is selected.\<close>

definition stage_guard :: "'c packet_stager \<Rightarrow> nat \<Rightarrow> nat \<Rightarrow> nat \<Rightarrow> 32 word \<Rightarrow> bytes + unit" where
  "stage_guard s codes code_count ready source_device =
     (if sg_poisoned s then Err ''CUDA packet stager is poisoned''
      else if source_device \<noteq> sg_device_index s
      then Err (''Talker device '' @ show_i32 source_device @ '' does not match stager device ''
        @ show_i32 (sg_device_index s))
      else if codes = 0 \<or> ready = 0 then Err ''Talker device codes and ready event are required''
      else if code_count \<noteq> CODEC_CODEBOOKS
      then Err (''Talker returned '' @ show_nat code_count @ '' codes; expected 16'')
      else if CODEC_MAX_PACKET_FRAMES \<le> sg_staged_frames s then Err ''CUDA packet staging buffer is full''
      else Ok ())"

definition poison :: "'c packet_stager \<Rightarrow> 'c packet_stager" where
  "poison s = s\<lparr>sg_poisoned := True\<rparr>"

definition stage_frame :: "'c packet_stager \<Rightarrow> nat \<Rightarrow> nat \<Rightarrow> nat \<Rightarrow> 32 word \<Rightarrow> 'c \<Rightarrow>
    (bytes + nat) \<times> 'c packet_stager \<times> 'c" where
  "stage_frame s codes code_count ready source_device c =
     (case stage_guard s codes code_count ready source_device of
        Inl e \<Rightarrow> (Err e, s, c)
      | Inr _ \<Rightarrow>
          (case select_device (sg_runtime s) (sg_device_index s) c of
             (Inl e, c1) \<Rightarrow> (Err e, s, c1)
           | (Inr _, c1) \<Rightarrow>
               (case checked_call (sg_runtime s) ''wait for Talker frame'' (StreamWaitEvent (sg_stream s) ready) c1 of
                  (Inl e, _, c2) \<Rightarrow> (Err e, poison s, c2)
                | (Inr _, _, c2) \<Rightarrow>
                    (let destination = sg_device_codes s + sg_staged_frames s * CODEC_CODEBOOKS * 2 in
                     case checked_call (sg_runtime s) ''stage Talker codec frame''
                         (Memcpy destination codes (CODEC_CODEBOOKS * 2) (sg_stream s)) c2 of
                       (Inl e, _, c3) \<Rightarrow> (Err e, poison s, c3)
                     | (Inr _, _, c3) \<Rightarrow>
                         (case checked_call (sg_runtime s) ''record staged Talker frame''
                             (EventRecord (sg_copied_event s) (sg_stream s)) c3 of
                            (Inl e, _, c4) \<Rightarrow> (Err e, poison s, c4)
                          | (Inr _, _, c4) \<Rightarrow>
                              (Ok (sg_copied_event s), s\<lparr>sg_staged_frames := sg_staged_frames s + 1\<rparr>, c4))))))"

record staged_packet_view =
  sv_device_codes :: nat
  sv_frame_count :: nat
  sv_ready_event :: nat

definition packet_view :: "'c packet_stager \<Rightarrow> bytes + staged_packet_view" where
  "packet_view s =
     (if sg_poisoned s then Err ''CUDA packet stager is poisoned''
      else if sg_staged_frames s = 0 then Err ''CUDA packet staging buffer is empty''
      else Ok \<lparr>sv_device_codes = sg_device_codes s, sv_frame_count = sg_staged_frames s,
              sv_ready_event = sg_copied_event s\<rparr>)"

definition release_after_consumer :: "'c packet_stager \<Rightarrow> nat \<Rightarrow> 'c \<Rightarrow> (bytes + unit) \<times> 'c packet_stager \<times> 'c" where
  "release_after_consumer s consumer_done c =
     (if sg_poisoned s then (Err ''CUDA packet stager is poisoned'', s, c)
      else if sg_staged_frames s = 0 then (Err ''no staged packet is awaiting a consumer'', s, c)
      else if consumer_done = 0 then (Err ''Codec consume event is required'', s, c)
      else case select_device (sg_runtime s) (sg_device_index s) c of
        (Inl e, c1) \<Rightarrow> (Err e, s, c1)
      | (Inr _, c1) \<Rightarrow>
          (case checked_call (sg_runtime s) ''wait for Codec packet snapshot''
              (StreamWaitEvent (sg_stream s) consumer_done) c1 of
             (Inl e, _, c2) \<Rightarrow> (Err e, poison s, c2)
           | (Inr _, _, c2) \<Rightarrow> (Ok (), s\<lparr>sg_staged_frames := 0\<rparr>, c2)))"

section \<open>What the runtime is asked to do\<close>

text \<open>A runtime that also writes down every call with its status and output.\<close>

type_synonym cuda_log = "(cuda_call \<times> 32 word \<times> nat) list"

definition recording :: "'c cuda_runtime \<Rightarrow> ('c \<times> cuda_log) cuda_runtime" where
  "recording rt =
     \<lparr>cr_missing = cr_missing rt, cr_version = cr_version rt, cr_error_string = cr_error_string rt,
      cr_invoke = (\<lambda>call (c, calls). case cr_invoke rt call c of (r, c') \<Rightarrow> (r, (c', calls @ [(call, r)])))\<rparr>"

fun is_memcpy :: "cuda_call \<Rightarrow> bool" where
  "is_memcpy (Memcpy _ _ _ _) = True"
| "is_memcpy _ = False"

fun copy_target :: "cuda_call \<Rightarrow> nat \<times> nat" where
  "copy_target (Memcpy dst src n st) = (dst, n)"
| "copy_target _ = (0, 0)"

text \<open>Where the copies that were accepted went, and all that were asked for.\<close>

definition copies :: "cuda_log \<Rightarrow> nat list" where
  "copies calls = map (fst \<circ> copy_target \<circ> fst) (filter (\<lambda>(call, status, _). is_memcpy call \<and> status = 0) calls)"

definition copies_within :: "nat \<Rightarrow> cuda_log \<Rightarrow> bool" where
  "copies_within base calls \<longleftrightarrow>
     list_all (\<lambda>(call, _). is_memcpy call \<longrightarrow>
       base \<le> fst (copy_target call) \<and> fst (copy_target call) + snd (copy_target call) \<le> base + PACKET_BYTES) calls"

fun is_release :: "cuda_call \<Rightarrow> bool" where
  "is_release (Free _) = True"
| "is_release (StreamDestroy _) = True"
| "is_release (EventDestroy _) = True"
| "is_release _ = False"

fun release_of :: "cuda_call \<Rightarrow> nat \<Rightarrow> cuda_call option" where
  "release_of (Malloc _) h = (if h = 0 then None else Some (Free h))"
| "release_of (StreamCreate _) h = (if h = 0 then None else Some (StreamDestroy h))"
| "release_of (EventCreate _) h = (if h = 0 then None else Some (EventDestroy h))"
| "release_of _ h = None"

definition owed :: "cuda_log \<Rightarrow> cuda_call multiset" where
  "owed calls = mset (List.map_filter (\<lambda>(call, _, out). release_of call out) calls)"

definition released :: "cuda_log \<Rightarrow> cuda_call multiset" where
  "released calls = mset (filter is_release (map fst calls))"

lemma calls_simps [simp]:
  "copies [] = []" "copies_within base []" "owed [] = {#}" "released [] = {#}"
  "copies ((call, status, out) # calls) =
     (if is_memcpy call \<and> status = 0 then [fst (copy_target call)] else []) @ copies calls"
  "copies_within base ((call, r) # calls) \<longleftrightarrow>
     (is_memcpy call \<longrightarrow>
       base \<le> fst (copy_target call) \<and> fst (copy_target call) + snd (copy_target call) \<le> base + PACKET_BYTES) \<and>
     copies_within base calls"
  "owed ((call, status, out) # calls) =
     (case release_of call out of None \<Rightarrow> {#} | Some x \<Rightarrow> {#x#}) + owed calls"
  "released ((call, r) # calls) = (if is_release call then {#call#} else {#}) + released calls"
  by (auto simp: copies_def copies_within_def owed_def released_def List.map_filter_def split: option.splits)

lemma calls_append [simp]:
  "copies (calls @ calls') = copies calls @ copies calls'"
  "copies_within base (calls @ calls') \<longleftrightarrow> copies_within base calls \<and> copies_within base calls'"
  "owed (calls @ calls') = owed calls + owed calls'"
  "released (calls @ calls') = released calls + released calls'"
  by (simp_all add: copies_def copies_within_def owed_def released_def List.map_filter_def)

lemma recording_invoke:
  "cr_invoke (recording rt) call (c, calls) =
     (fst (cr_invoke rt call c), (snd (cr_invoke rt call c), calls @ [(call, fst (cr_invoke rt call c))]))"
  by (simp add: recording_def split: prod.split)

lemma recording_checked:
  assumes "checked_call (recording rt) operation call w = (r, out, w')"
  obtains status where "snd w' = snd w @ [(call, status, out)]" "(\<exists>u. r = Ok u) \<longleftrightarrow> status = 0"
  using assms by (cases w)
    (auto simp: checked_call_def recording_invoke check_status_def split: prod.splits if_splits)

lemma recording_unchecked:
  "\<exists>r. snd (unchecked_call (recording rt) call w) = snd w @ [(call, r)]"
  by (cases w) (auto simp: unchecked_call_def recording_invoke)

lemma recording_select:
  assumes "select_device (recording rt) device w = (r, w')"
  obtains q where "snd w' = snd w @ [(SetDevice device, q)]"
  using assms by (auto simp: select_device_def split: prod.splits elim!: recording_checked)

section \<open>The invariant\<close>

definition held :: "nat \<Rightarrow> (nat \<Rightarrow> cuda_call) \<Rightarrow> cuda_call multiset" where
  "held h f = (if h = 0 then {#} else {#f h#})"

definition stager_holds :: "'c packet_stager \<Rightarrow> cuda_call multiset" where
  "stager_holds s = held (sg_device_codes s) Free + held (sg_stream s) StreamDestroy
     + held (sg_copied_event s) EventDestroy"

definition slots :: "'c packet_stager \<Rightarrow> nat list" where
  "slots s = map (\<lambda>i. sg_device_codes s + i * 32) [0..<sg_staged_frames s]"

definition stager_inv :: "'c cuda_runtime \<Rightarrow> ('c \<times> cuda_log) packet_stager \<Rightarrow> cuda_log \<Rightarrow> bool" where
  "stager_inv rt s calls \<longleftrightarrow>
     sg_runtime s = recording rt \<and> sg_staged_frames s \<le> 4 \<and> copies_within (sg_device_codes s) calls \<and>
     owed calls = released calls + stager_holds s \<and>
     (\<not> sg_poisoned s \<longrightarrow> (\<exists>earlier. copies calls = earlier @ slots s))"

lemma release_of_held: "(case release_of call h of None \<Rightarrow> {#} | Some x \<Rightarrow> {#x#}) =
    (case call of Malloc _ \<Rightarrow> held h Free | StreamCreate _ \<Rightarrow> held h StreamDestroy
     | EventCreate _ \<Rightarrow> held h EventDestroy | _ \<Rightarrow> {#})"
  by (cases call) (auto simp: held_def)

declare release_of.simps [simp del]

lemma held_0 [simp]: "held 0 f = {#}"
  by (simp add: held_def)

lemma drop_stager_releases:
  assumes "sg_runtime s = recording rt" and "owed (snd w) = released (snd w) + stager_holds s"
  shows "owed (snd (drop_stager s w)) = released (snd (drop_stager s w))"
    and "copies (snd (drop_stager s w)) = copies (snd w)"
proof -
  obtain st out where q1:
    "snd (snd (select_device (recording rt) (sg_device_index s) w)) = snd w @ [(SetDevice (sg_device_index s), st, out)]"
    by (metis recording_select prod.collapse)
  have step: "owed (snd (unchecked_call (recording rt) call v)) = owed (snd v)"
      "released (snd (unchecked_call (recording rt) call v)) = released (snd v) + (if is_release call then {#call#} else {#})"
      "copies (snd (unchecked_call (recording rt) call v)) = copies (snd v)"
    if "\<not> is_memcpy call" "\<And>h. release_of call h = None" for call v
    using recording_unchecked [of rt call v] that by auto
  note steps = step [of "StreamSynchronize _"] step [of "EventDestroy _"] step [of "StreamDestroy _"] step [of "Free _"]
  show "owed (snd (drop_stager s w)) = released (snd (drop_stager s w))"
    using assms by (simp add: drop_stager_def Let_def steps q1 stager_holds_def held_def release_of.simps)
  show "copies (snd (drop_stager s w)) = copies (snd w)"
    using assms by (simp add: drop_stager_def Let_def steps q1 release_of.simps)
qed

lemma stage_frame_inv:
  assumes "stager_inv rt s (snd w)" and "stage_frame s codes n ready device w = (r, s', w')"
  shows "stager_inv rt s' (snd w')"
    and "is_ok r \<Longrightarrow> sg_staged_frames s' = sg_staged_frames s + 1"
    and "\<not> is_ok r \<Longrightarrow> sg_staged_frames s' = sg_staged_frames s"
proof -
  have rt: "sg_runtime s = recording rt" using assms(1) by (simp add: stager_inv_def)
  show "stager_inv rt s' (snd w')"
    using assms
    by (auto simp: stage_frame_def stage_guard_def stager_inv_def poison_def Let_def slots_def stager_holds_def
        CODEC_MAX_PACKET_FRAMES_def CODEC_CODEBOOKS_def PACKET_BYTES_def release_of_held
        elim!: recording_checked recording_select split: sum.splits prod.splits if_splits)
  show "is_ok r \<Longrightarrow> sg_staged_frames s' = sg_staged_frames s + 1"
    "\<not> is_ok r \<Longrightarrow> sg_staged_frames s' = sg_staged_frames s"
    using assms(2)
    by (auto simp: stage_frame_def stage_guard_def poison_def Let_def
        split: sum.splits prod.splits if_splits)
qed

lemma release_inv:
  assumes "stager_inv rt s (snd w)" and "release_after_consumer s event w = (r, s', w')"
  shows "stager_inv rt s' (snd w')"
proof -
  have rt: "sg_runtime s = recording rt" using assms(1) by (simp add: stager_inv_def)
  show ?thesis
    using assms
    by (auto simp: release_after_consumer_def stager_inv_def poison_def slots_def stager_holds_def release_of_held
        elim!: recording_checked recording_select split: sum.splits prod.splits if_splits)
qed

lemma new_inv:
  assumes "stager_new (recording rt) device (c, []) = (r, w')"
  shows "case r of Inr s \<Rightarrow> stager_inv rt s (snd w') | Inl _ \<Rightarrow> owed (snd w') = released (snd w')"
proof -
  show ?thesis
    using assms
    by (auto simp: stager_new_def stager_inv_def Let_def slots_def stager_holds_def release_of_held 
          drop_stager_releases(1) [where rt = rt]
        elim!: recording_checked recording_select
        split: sum.splits prod.splits if_splits)
qed

section \<open>Properties\<close>

datatype stager_op = StageFrame nat nat nat "32 word" | ReleasePacket nat

fun stager_exec :: "stager_op \<Rightarrow> 'c packet_stager \<times> 'c \<Rightarrow> 'c packet_stager \<times> 'c" where
  "stager_exec (StageFrame codes n ready device) (s, c) = snd (stage_frame s codes n ready device c)"
| "stager_exec (ReleasePacket event) (s, c) = snd (release_after_consumer s event c)"

definition stager_run :: "stager_op list \<Rightarrow> 'c packet_stager \<times> 'c \<Rightarrow> 'c packet_stager \<times> 'c" where
  "stager_run ops = fold stager_exec ops"

lemma run_inv:
  "stager_inv rt s (snd w) \<Longrightarrow> stager_run ops (s, w) = (s', w') \<Longrightarrow> stager_inv rt s' (snd w')"
proof (induction ops arbitrary: s w)
  case (Cons op ops)
  obtain s1 w1 where step: "stager_exec op (s, w) = (s1, w1)" by (cases "stager_exec op (s, w)")
  then have "stager_inv rt s1 (snd w1)"
    using Cons.prems(1)
    by (cases op) (metis stager_exec.simps stage_frame_inv(1) release_inv prod.collapse)+
  then show ?case
    using Cons.IH Cons.prems(2) by (simp add: stager_run_def step)
qed (simp add: stager_run_def)

text \<open>C19: whatever is staged and released in whatever order, and whatever fails on the way: every copy
  the stager asks for lies inside the buffer it allocated, and a packet it shows holds one to four
  frames, which are the last accepted copies, in order, at consecutive places from the buffer's
  start.\<close>

theorem staged_packet_in_order:
  assumes "stager_new (recording rt) device (c, []) = (Ok s, w)" and "stager_run ops (s, w) = (s', w')"
  shows "copies_within (sg_device_codes s') (snd w') \<and>
    (\<forall>v. packet_view s' = Ok v \<longrightarrow> 1 \<le> sv_frame_count v \<and> sv_frame_count v \<le> 4 \<and>
       (\<exists>earlier. copies (snd w') =
          earlier @ map (\<lambda>i. sv_device_codes v + i * 32) [0..<sv_frame_count v]))"
proof -
  have "stager_inv rt s' (snd w')"
    using new_inv [OF assms(1)] run_inv [OF _ assms(2)] by simp
  then show ?thesis
    by (auto simp: stager_inv_def packet_view_def slots_def split: if_splits)
qed

definition working_runtime :: "nat cuda_runtime" where
  "working_runtime = \<lparr>cr_missing = [], cr_version = (0, 13000), cr_error_string = (\<lambda>_. None),
     cr_invoke = (\<lambda>call n. ((0, n + 1000), n + 1000))\<rparr>"

lemmas stager_eval = stager_new_def select_device_def checked_call_def check_status_def recording_def
  working_runtime_def PACKET_BYTES_def CODEC_CODEBOOKS_def CODEC_MAX_PACKET_FRAMES_def
  stage_frame_def stage_guard_def release_after_consumer_def packet_view_def

definition staged_twice :: "(nat \<times> cuda_log) packet_stager \<times> nat \<times> cuda_log" where
  "staged_twice = stager_run [StageFrame 7 16 8 0, StageFrame 9 16 8 0]
     (case stager_new (recording working_runtime) 0 (0, []) of (Inr s, w) \<Rightarrow> (s, w))"

lemma staged_packet_in_order_witness:
  "\<exists>s' w' v. staged_twice = (s', w') \<and> packet_view s' = Ok v \<and> sv_frame_count v = 2 \<and>
     (\<exists>earlier. copies (snd w') = earlier @ map (\<lambda>i. sv_device_codes v + i * 32) [0..<2])"
proof -
  obtain s w where new: "stager_new (recording working_runtime) 0 (0, []) = (Ok s, w)"
    by (simp add: stager_eval)
  obtain s' w' where run: "staged_twice = (s', w')" by (cases staged_twice)
  then have ran: "stager_run [StageFrame 7 16 8 0, StageFrame 9 16 8 0] (s, w) = (s', w')"
    by (simp add: staged_twice_def new)
  have twice: "staged_twice = (case stager_new (recording working_runtime) 0 (0, []) of (Inr s, w) \<Rightarrow>
      stager_run [StageFrame 7 16 8 0, StageFrame 9 16 8 0] (s, w))"
    by (simp add: staged_twice_def new)
  have "\<not> sg_poisoned (fst staged_twice) \<and> sg_staged_frames (fst staged_twice) = 2"
    unfolding twice by (simp add: stager_eval stager_run_def)
  then have "\<exists>v. packet_view (fst staged_twice) = Ok v \<and> sv_frame_count v = 2"
    by (simp add: packet_view_def)
  then obtain v where v: "packet_view s' = Ok v" "sv_frame_count v = 2" by (auto simp: run)
  show ?thesis
    using staged_packet_in_order [OF new ran] run v by metis
qed

text \<open>C20: what the CUDA runtime handed out is given back exactly once, whether creating the stager
  succeeds or fails half-way, and whatever happened to it before it is dropped.\<close>

theorem stager_releases_everything:
  assumes "stager_new (recording rt) device (c, []) = (r, w)"
  shows "case r of
      Inl _ \<Rightarrow> owed (snd w) = released (snd w)
    | Inr s \<Rightarrow> (case stager_run ops (s, w) of
        (s', w') \<Rightarrow> owed (snd (drop_stager s' w')) = released (snd (drop_stager s' w')))"
proof (cases r)
  case (Inl e)
  then show ?thesis using new_inv [OF assms] by simp
next
  case (Inr s)
  obtain s' w' where run: "stager_run ops (s, w) = (s', w')" by (cases "stager_run ops (s, w)")
  have "stager_inv rt s' (snd w')"
    using new_inv [OF assms] run_inv [OF _ run] Inr by simp
  then show ?thesis
    using drop_stager_releases(1) [of s' rt w'] by (simp add: Inr run stager_inv_def)
qed

lemma stager_releases_everything_witness:
  "case staged_twice of (s, w) \<Rightarrow> owed (snd (drop_stager s w)) = released (snd (drop_stager s w))"
proof -
  obtain s w where new: "stager_new (recording working_runtime) 0 (0, []) = (Ok s, w)"
    by (simp add: stager_eval)
  show ?thesis
    using stager_releases_everything [OF new, of "[StageFrame 7 16 8 0, StageFrame 9 16 8 0]"]
    by (simp add: staged_twice_def new)
qed

end
