(* ===== verification/RtBackend.thy ===== *)
theory RtBackend
  imports RtProperties NtGenerate CdWeights RtStager
begin

text \<open>
  The production backend of \<open>qwen3-tts-runtime/src/native_backend.rs\<close>: a talker session and a codec session
  per request, joined through host memory or through the CUDA packet stager. The three native
  libraries, the batch pump and the prompt (the tokenizer's work, modelled in \<open>NtPrompt\<close>) are
  arguments. The threads of one batch run one after the other here; as the libraries are any
  functions on any state, what one thread sees of another through them is not restricted.
\<close>

section \<open>Errors and requests\<close>

fun downcast_status :: "anyhow \<Rightarrow> 32 word option" where
  "downcast_status (NativeStatus status _) = Some status"
| "downcast_status (Context _ e) = downcast_status e"
| "downcast_status _ = None"

definition talker_status :: "32 word \<Rightarrow> runtime_status" where
  "talker_status status =
     (if status = - 1 then StatusInvalidArgument else if status = - 2 then StatusCuda
      else if status = - 3 then StatusState else if status = - 4 then StatusAllocation
      else if status = - 5 then StatusModel else StatusInternal)"

text \<open>\<open>render\<close> is the alternate display of the error, with its chain of causes.\<close>

definition map_talker_error :: "(anyhow \<Rightarrow> bytes) \<Rightarrow> bytes \<Rightarrow> runtime_status \<Rightarrow> anyhow \<Rightarrow> backend_error" where
  "map_talker_error render context fallback e =
     backend_error_with_status
       (case downcast_status e of Some status \<Rightarrow> talker_status status | None \<Rightarrow> fallback)
       (context @ '': '' @ render e)"

definition codec_status :: "32 word \<Rightarrow> runtime_status" where
  "codec_status status =
     (if status = - 1 then StatusInvalidArgument else if status = - 2 then StatusCuda
      else if status = - 3 then StatusState else if status = - 4 then StatusAllocation
      else if status = - 5 then StatusModel else StatusInternal)"

definition map_codec_error :: "bytes \<Rightarrow> status_message \<Rightarrow> backend_error" where
  "map_codec_error context e = backend_error_with_status (codec_status (fst e)) (context @ '': '' @ snd e)"

fun checked_sum_from :: "u64 \<Rightarrow> u64 list \<Rightarrow> bytes \<Rightarrow> backend_error + u64" where
  "checked_sum_from acc [] message = Ok acc"
| "checked_sum_from acc (x # xs) message =
     and_then (ok_or (checked_add acc x) (backend_error_with_status StatusInternal message)) (\<lambda>sum.
       checked_sum_from sum xs message)"

definition checked_sum :: "u64 list \<Rightarrow> bytes \<Rightarrow> backend_error + u64" where
  "checked_sum = checked_sum_from 0"

definition voice_request :: "backend_request \<Rightarrow> voice_design_request" where
  "voice_request q =
     (let g = br_generation q in
      (voice_design_request_new (ri_text (br_input q)) (ri_instruct (br_input q))
         (as_official_name (ri_language (br_input q))))
      \<lparr>vr_max_frames := unat (max_codec_frames g),
       vr_max_sequence_length := unat MAX_CODEC_FRAMES,
       vr_random_seed := gc_seed g,
       vr_talker_sampling := \<lparr>sg_do_sample = (gc_do_sample g \<noteq> 0), sg_top_k = gc_top_k g, sg_top_p = gc_top_p g,
         sg_temperature = gc_temperature g, sg_repetition_penalty = gc_repetition_penalty g\<rparr>,
       vr_predictor_sampling := \<lparr>sg_do_sample = (predictor_do_sample g \<noteq> 0), sg_top_k = predictor_top_k g,
         sg_top_p = predictor_top_p g, sg_temperature = predictor_temperature g,
         sg_repetition_penalty = FFin 1\<rparr>\<rparr>)"

section \<open>The backend and its sessions\<close>

record ('l, 'k, 'c) native_world =
  nw_talker :: "'l talker_world"
  nw_codec :: 'k
  nw_cuda :: 'c
  nw_registered :: nat

record ('l, 'k, 'c) native_backend =
  nb_talker :: "'l talker_model"
  nb_codec :: "'k codec_model"
  nb_stager_runtime :: "'c cuda_runtime option"
  nb_device_index :: "32 word"

text \<open>What the backend does not decide itself.\<close>

record 'l native_env =
  ne_prompt :: "voice_design_request \<Rightarrow> (anyhow + voice_design_prompt) unwind"
  ne_pump :: "frame_request \<Rightarrow> 'l \<Rightarrow> pump_reply \<times> 'l"
  ne_render :: "anyhow \<Rightarrow> bytes"
  ne_prefill_time :: "backend_request \<Rightarrow> duration"

record ('k, 'c) native_session =
  ns_talker :: talker_session
  ns_codec :: "'k codec_session"
  ns_stager :: "'c packet_stager option"
  ns_registered :: bool
  ns_first_packet :: bool
  ns_peak_device_bytes :: u64
  ns_peak_host_bytes :: u64

definition drop_opt_stager :: "'c packet_stager option \<Rightarrow> ('l, 'k, 'c) native_world \<Rightarrow> ('l, 'k, 'c) native_world" where
  "drop_opt_stager so w = (case so of None \<Rightarrow> w | Some s \<Rightarrow> w\<lparr>nw_cuda := drop_stager s (nw_cuda w)\<rparr>)"

text \<open>Dropping a session drops its fields in order.\<close>

definition drop_native_session ::
  "('l, 'k, 'c) native_backend \<Rightarrow> ('k, 'c) native_session \<Rightarrow> ('l, 'k, 'c) native_world \<Rightarrow> ('l, 'k, 'c) native_world" where
  "drop_native_session nb s w =
     (let w1 = w\<lparr>nw_talker := drop_session (tm_library (nb_talker nb)) (ns_talker s) (nw_talker w)\<rparr>;
          w2 = w1\<lparr>nw_codec := drop_codec_session (ns_codec s) (nw_codec w1)\<rparr>;
          w3 = drop_opt_stager (ns_stager s) w2
      in if ns_registered s then w3\<lparr>nw_registered := drop_registration (nw_registered w3)\<rparr> else w3)"

text \<open>\<open>load\<close>, given what loading the talker, opening the codec library, the weights and the CUDA
  runtime gave. What was loaded before a failure is dropped.\<close>

definition native_load ::
  "(anyhow \<Rightarrow> bytes) \<Rightarrow> anyhow + 'l talker_model \<Rightarrow> bytes + 'k codec_api \<Rightarrow> bytes + safetensors_file \<Rightarrow>
   bytes + 'c cuda_runtime \<Rightarrow> 32 word \<Rightarrow> ('l, 'k, 'c) native_world \<Rightarrow>
   (backend_error + ('l, 'k, 'c) native_backend) \<times> ('l, 'k, 'c) native_world" where
  "native_load render talker api weights cuda device w =
     (case talker of
        Inl e \<Rightarrow> (Err (map_talker_error render ''failed to load talker model'' StatusModel e), w)
      | Inr talker \<Rightarrow>
          (let unload = (\<lambda>w. w\<lparr>nw_talker := drop_model talker (nw_talker w)\<rparr>);
               fail = (\<lambda>status m w. (Err (backend_error_with_status status m), unload w)) in
           case api of
             Inl e \<Rightarrow> fail StatusModel (''failed to load codec library: '' @ e) w
           | Inr api \<Rightarrow>
               (case weights of
                  Inl e \<Rightarrow> fail StatusModel (''failed to open decoder weights: '' @ e) w
                | Inr weights \<Rightarrow>
                    (case load_shared_model api device (decoder_tensor_names weights)
                        (model_tensor_at weights True) (nw_codec w) of
                       (Inl e, k) \<Rightarrow> fail StatusModel (''failed to load codec model: '' @ e) (w\<lparr>nw_codec := k\<rparr>)
                     | (Inr codec, k) \<Rightarrow>
                         (let w1 = w\<lparr>nw_codec := k\<rparr>;
                              close = (\<lambda>w. w\<lparr>nw_codec := drop_codec_model codec (nw_codec w)\<rparr>);
                              frames = tm_device_api talker;
                              packets = supports_device_packets codec
                          in if frames \<and> packets then
                               (case cuda of
                                  Inl e \<Rightarrow> fail StatusCuda (''failed to load CUDA packet stager: '' @ e) (close w1)
                                | Inr rt \<Rightarrow> (Ok \<lparr>nb_talker = talker, nb_codec = codec,
                                    nb_stager_runtime = Some rt, nb_device_index = device\<rparr>, w1))
                             else if \<not> frames \<and> \<not> packets then
                               (Ok \<lparr>nb_talker = talker, nb_codec = codec, nb_stager_runtime = None,
                                  nb_device_index = device\<rparr>, w1)
                             else fail StatusModel
                               (''native device handoff ABI mismatch: talker device frames='' @ show_bool frames
                                @ '', codec device packets='' @ show_bool packets) (close w1))))))"

section \<open>Starting a session\<close>

definition start_stager :: "'c cuda_runtime option \<Rightarrow> 32 word \<Rightarrow> 'c \<Rightarrow> (backend_error + 'c packet_stager option) \<times> 'c" where
  "start_stager rt device c =
     (case rt of
        None \<Rightarrow> (Ok None, c)
      | Some rt \<Rightarrow>
          (case stager_new rt device c of
             (Inl m, c') \<Rightarrow> (Err (backend_error_with_status StatusCuda
               (''failed to create CUDA packet stager: '' @ m)), c')
           | (Inr s, c') \<Rightarrow> (Ok (Some s), c')))"

text \<open>After the talker session has started; on an error the locals are dropped in reverse order.\<close>

definition start_codec_side ::
  "'l native_env \<Rightarrow> ('l, 'k, 'c) native_backend \<Rightarrow> backend_request \<Rightarrow> talker_session \<Rightarrow> ('l, 'k, 'c) native_world \<Rightarrow>
   (backend_error + ('k, 'c) native_session backend_started) \<times> ('l, 'k, 'c) native_world" where
  "start_codec_side env nb q talker w =
     (let drop_talker = (\<lambda>w. w\<lparr>nw_talker := drop_session (tm_library (nb_talker nb)) talker (nw_talker w)\<rparr>) in
      case start_codec_session (nb_codec nb) (nw_codec w) of
        (Inl m, k) \<Rightarrow> (Err (backend_error_with_status StatusState (''failed to start codec session: '' @ m)),
          drop_talker (w\<lparr>nw_codec := k\<rparr>))
      | (Inr codec, k) \<Rightarrow>
          (let drop_codec = (\<lambda>w. w\<lparr>nw_codec := drop_codec_session codec (nw_codec w)\<rparr>) in
           case codec_memory_info codec k of
             (Inl m, k1) \<Rightarrow> (Err (backend_error_with_status StatusState
                 (''failed to inspect codec session memory: '' @ m)),
               drop_talker (drop_codec (w\<lparr>nw_codec := k1\<rparr>)))
           | (Inr memory, k1) \<Rightarrow>
               (case start_stager (nb_stager_runtime nb) (nb_device_index nb) (nw_cuda w) of
                  (Inl e, c) \<Rightarrow> (Err e, drop_talker (drop_codec (w\<lparr>nw_codec := k1, nw_cuda := c\<rparr>)))
                | (Inr stager, c) \<Rightarrow>
                    (let w1 = w\<lparr>nw_codec := k1, nw_cuda := c\<rparr> in
                     case checked_sum [sm_talker_kv_bytes (ts_memory talker), sm_predictor_kv_bytes (ts_memory talker),
                         sm_workspace_bytes (ts_memory talker), sx_device_bytes memory,
                         (case stager of None \<Rightarrow> 0 | Some s \<Rightarrow> stager_device_bytes s)]
                         ''request device memory accounting overflowed'' of
                       Inl e \<Rightarrow> (Err e, drop_talker (drop_codec (drop_opt_stager stager w1)))
                     | Inr peak \<Rightarrow>
                         (Ok \<lparr>bs_session = \<lparr>ns_talker = talker, ns_codec = codec, ns_stager = stager,
                                ns_registered = tm_has_pump (nb_talker nb), ns_first_packet = True,
                                ns_peak_device_bytes = peak, ns_peak_host_bytes = sx_host_pinned_bytes memory\<rparr>,
                             bs_prefill_microseconds = duration_microseconds (ne_prefill_time env q),
                             bs_peak_request_device_bytes = peak,
                             bs_peak_request_host_bytes = sx_host_pinned_bytes memory\<rparr>,
                          w1\<lparr>nw_registered := (if tm_has_pump (nb_talker nb)
                               then register_participant (nw_registered w1) else nw_registered w1)\<rparr>)))))"

definition start_native_session ::
  "'l native_env \<Rightarrow> ('l, 'k, 'c) native_backend \<Rightarrow> backend_request \<Rightarrow> ('l, 'k, 'c) native_world \<Rightarrow>
   (backend_error + ('k, 'c) native_session backend_started) unwind \<times> ('l, 'k, 'c) native_world" where
  "start_native_session env nb q w =
     (case ne_prompt env (voice_request q) of
        Panicked \<Rightarrow> (Panicked, w)
      | Returned prompt \<Rightarrow>
          (case talker_start (nb_talker nb) prompt (voice_request q) (nw_talker w) of
             (Inl e, t) \<Rightarrow> (Returned (Err (map_talker_error (ne_render env) ''failed to start talker session''
                 StatusState e)), w\<lparr>nw_talker := t\<rparr>)
           | (Inr talker, t) \<Rightarrow>
               if ts_end_reason talker \<noteq> None
               then (Returned (Err (backend_error_with_status StatusState
                   ''talker ended during prefill without producing a codec frame'')),
                 w\<lparr>nw_talker := drop_session (tm_library (nb_talker nb)) talker t\<rparr>)
               else (case start_codec_side env nb q talker (w\<lparr>nw_talker := t\<rparr>) of
                 (r, w1) \<Rightarrow> (Returned r, w1))))"

text \<open>Joining a thread of a batch.\<close>

definition join_thread :: "bytes \<Rightarrow> (backend_error + 'a) unwind \<Rightarrow> backend_error + 'a" where
  "join_thread m r = (case r of Returned x \<Rightarrow> x | Panicked \<Rightarrow> Err (backend_error_with_status StatusInternal m))"

fun native_start_threads ::
  "'l native_env \<Rightarrow> ('l, 'k, 'c) native_backend \<Rightarrow> ('l, 'k, 'c) native_world \<Rightarrow> backend_request list \<Rightarrow>
   (backend_error + ('k, 'c) native_session backend_started) list \<times> ('l, 'k, 'c) native_world" where
  "native_start_threads env nb w [] = ([], w)"
| "native_start_threads env nb w (q # qs) =
     (case start_native_session env nb q w of
        (r, w1) \<Rightarrow>
          (case native_start_threads env nb w1 qs of
             (rs, w2) \<Rightarrow> (join_thread ''native backend prefill thread panicked'' r # rs, w2)))"

definition native_start_batch where
  "native_start_batch env nb w qs = (case native_start_threads env nb w qs of (rs, w1) \<Rightarrow> (Returned rs, w1))"

end
