(* ===== verification/RtBackendStep.thy ===== *)
theory RtBackendStep
  imports RtBackend
begin

text \<open>
  Stepping a session of the production backend (\<open>native_backend.rs\<close>): the talker's frames go to the codec
  through host memory or through the stager, and one packet of PCM comes back.
\<close>

section \<open>Host frames\<close>

definition add_gpu_time :: "f32 \<Rightarrow> f32 \<Rightarrow> f32 \<Rightarrow> f32" where
  "add_gpu_time acc talker predictor = f32_add acc (f32_mul (f32_add talker predictor) (FFin 1000))"

text \<open>The loop of \<open>step_host_session\<close>, with the number of frames still to make.\<close>

fun host_frames :: "(anyhow \<Rightarrow> bytes) \<Rightarrow> 'l talker_model \<Rightarrow> nat \<Rightarrow> codec_frame list \<Rightarrow> f32 \<Rightarrow> talker_session \<Rightarrow>
    'l talker_world \<Rightarrow> (backend_error + codec_frame list \<times> f32) \<times> talker_session \<times> 'l talker_world" where
  "host_frames render m 0 frames gpu s w = (Ok (frames, gpu), s, w)"
| "host_frames render m (Suc n) frames gpu s w =
     (case next_frame m s w of
        (Inl e, s', w') \<Rightarrow> (Err (map_talker_error render ''talker frame generation failed'' StatusState e), s', w')
      | (Inr None, s', w') \<Rightarrow> (Ok (frames, gpu), s', w')
      | (Inr (Some fr), s', w') \<Rightarrow>
          (let frames' = frames @ [sf_codes fr];
               gpu' = add_gpu_time gpu (sf_talker_gpu_milliseconds fr) (sf_predictor_gpu_milliseconds fr)
           in if ts_end_reason s' \<noteq> None then (Ok (frames', gpu'), s', w')
              else host_frames render m n frames' gpu' s' w'))"

definition map_finish_reason :: "talker_session \<Rightarrow> bool \<Rightarrow> backend_error + finish_reason" where
  "map_finish_reason s is_final =
     and_then (case ts_end_reason s of
         None \<Rightarrow> Ok FinishNone
       | Some session_end_reason.CodecEos \<Rightarrow> Ok finish_reason.CodecEos
       | Some MaxFrames \<Rightarrow> Ok MaxCodecFrames
       | Some SessionCancelled \<Rightarrow> Err (backend_error_with_status StatusState
           ''cancelled Talker session attempted to emit a successful final packet'')) (\<lambda>reason.
     if is_final \<noteq> finish_is_terminal reason
     then Err (backend_error_with_status StatusState ''Talker final state and finish reason disagree'')
     else Ok reason)"

text \<open>The check of the codec's descriptor and the packet made from it.\<close>

definition packet_from :: "bytes \<Rightarrow> ('k, 'c) native_session \<Rightarrow> nat \<Rightarrow> bool \<Rightarrow> finish_reason \<Rightarrow> f32 \<Rightarrow> packet_result \<Rightarrow>
    backend_error + backend_packet" where
  "packet_from message s frame_count is_final reason gpu result =
     (if unat (pr_frame_count result) \<noteq> frame_count
         \<or> unat (pr_sample_count result) \<noteq> frame_count * SAMPLES_PER_FRAME
         \<or> (pr_is_final result \<noteq> 0) \<noteq> is_final
      then Err (backend_error_with_status StatusState message)
      else Ok \<lparr>bp_codec_frames = of_nat frame_count, bp_is_final = is_final, bp_finish_reason = reason,
             bp_talker_gpu_microseconds = gpu, bp_codec_gpu_microseconds = pr_gpu_microseconds result,
             bp_peak_request_device_bytes = ns_peak_device_bytes s,
             bp_peak_request_host_bytes = ns_peak_host_bytes s\<rparr>)"

definition step_host_session ::
  "'l native_env \<Rightarrow> ('l, 'k, 'c) native_backend \<Rightarrow> ('k, 'c) native_session \<Rightarrow> nat \<Rightarrow> pcm \<Rightarrow> ('l, 'k, 'c) native_world \<Rightarrow>
   (backend_error + backend_packet) \<times> ('k, 'c) native_session \<times> pcm \<times> ('l, 'k, 'c) native_world" where
  "step_host_session env nb s requested pcm w =
     (case host_frames (ne_render env) (nb_talker nb) requested [] (FFin 0) (ns_talker s) (nw_talker w) of
        (r, talker, t) \<Rightarrow>
          (let s1 = s\<lparr>ns_talker := talker\<rparr>; w1 = w\<lparr>nw_talker := t\<rparr> in
           case r of
             Inl e \<Rightarrow> (Err e, s1, pcm, w1)
           | Inr (frames, gpu) \<Rightarrow>
               if frames = []
               then (Err (backend_error_with_status StatusState ''talker ended without a decodable codec frame''),
                 s1, pcm, w1)
               else (let is_final = (ts_end_reason talker \<noteq> None) in
                 case map_finish_reason talker is_final of
                   Inl e \<Rightarrow> (Err e, s1, pcm, w1)
                 | Inr reason \<Rightarrow>
                     (let samples = length frames * SAMPLES_PER_FRAME in
                      case process_into (ns_codec s1) frames is_final (take samples pcm) (nw_codec w1) of
                        (result, head, k) \<Rightarrow>
                          (and_then (map_err (map_codec_error ''codec packet generation failed'') result)
                             (packet_from ''codec returned an inconsistent packet descriptor'' s1
                                (length frames) is_final reason gpu),
                           s1, head @ drop samples pcm, w1\<lparr>nw_codec := k\<rparr>)))))"

section \<open>Device frames\<close>

fun device_frames ::
  "'l native_env \<Rightarrow> 'l talker_model \<Rightarrow> nat \<Rightarrow> nat \<Rightarrow> f32 \<Rightarrow> 'c packet_stager \<Rightarrow> talker_session \<Rightarrow>
   ('l, 'k, 'c) native_world \<Rightarrow>
   (backend_error + nat \<times> f32) \<times> 'c packet_stager \<times> talker_session \<times> ('l, 'k, 'c) native_world" where
  "device_frames env m 0 made gpu g s w = (Ok (made, gpu), g, s, w)"
| "device_frames env m (Suc n) made gpu g s w =
     (case begin_device_frame_batched (ne_pump env) m s (nw_talker w) of
        (Inl e, s1, t) \<Rightarrow>
          (Err (map_talker_error (ne_render env) ''Talker device-frame generation failed'' StatusState e),
           g, s1, w\<lparr>nw_talker := t\<rparr>)
      | (Inr None, s1, t) \<Rightarrow> (Ok (made, gpu), g, s1, w\<lparr>nw_talker := t\<rparr>)
      | (Inr (Some view), s1, t) \<Rightarrow>
          (case stage_frame g (dv_device_codes view) (unat (dv_code_count view)) (dv_ready_event view)
              (dv_device_index view) (nw_cuda w) of
             (Inl m', g1, c) \<Rightarrow>
               (case drop_pending m view s1 t of
                  (s2, t1) \<Rightarrow>
                    (Err (backend_error_with_status StatusCuda (''failed to stage Talker device frame: '' @ m')),
                     g1, s2, w\<lparr>nw_talker := t1, nw_cuda := c\<rparr>))
           | (Inr event, g1, c) \<Rightarrow>
               (case finish_with_consumer_event m view event s1 t of
                  (Inl e, s2, t1) \<Rightarrow>
                    (Err (map_talker_error (ne_render env) ''Talker device-frame completion failed'' StatusState e),
                     g1, s2, w\<lparr>nw_talker := t1, nw_cuda := c\<rparr>)
                | (Inr finished, s2, t1) \<Rightarrow>
                    (let gpu' = add_gpu_time gpu (ff_talker_gpu_milliseconds finished)
                           (ff_predictor_gpu_milliseconds finished);
                         w' = w\<lparr>nw_talker := t1, nw_cuda := c\<rparr>
                     in if ts_end_reason s2 \<noteq> None then (Ok (made + 1, gpu'), g1, s2, w')
                        else device_frames env m n (made + 1) gpu' g1 s2 w'))))"

text \<open>The codec's part of \<open>step_device_session\<close>: from the staged packet to the PCM.\<close>

definition device_packet ::
  "('k, 'c) native_session \<Rightarrow> 'c packet_stager \<Rightarrow> nat \<Rightarrow> f32 \<Rightarrow> pcm \<Rightarrow> ('l, 'k, 'c) native_world \<Rightarrow>
   (backend_error + backend_packet) \<times> 'c packet_stager \<times> pcm \<times> ('l, 'k, 'c) native_world" where
  "device_packet s g made gpu pcm w =
     (case packet_view g of
        Inl m \<Rightarrow> (Err (backend_error_with_status StatusState (''failed to inspect staged CUDA packet: '' @ m)), g, pcm, w)
      | Inr view \<Rightarrow>
          if sv_frame_count view \<noteq> made
          then (Err (backend_error_with_status StatusState ''CUDA packet stager returned an inconsistent frame count''),
            g, pcm, w)
          else (case begin_device_packet (ns_codec s) (sv_device_codes view) (sv_frame_count view)
              (sv_ready_event view) (nw_codec w) of
             (Inl e, k) \<Rightarrow> (Err (map_codec_error ''Codec device-packet begin failed'' e), g, pcm, w\<lparr>nw_codec := k\<rparr>)
           | (Inr packet, k) \<Rightarrow>
               (case release_after_consumer g (pk_codes_consumed_event packet) (nw_cuda w) of
                  (Inl m, g1, c) \<Rightarrow>
                    (Err (backend_error_with_status StatusCuda (''failed to release CUDA packet staging buffer: '' @ m)),
                     g1, pcm, w\<lparr>nw_codec := drop_pending_packet (ns_codec s) packet k, nw_cuda := c\<rparr>)
                | (Inr _, g1, c) \<Rightarrow>
                    (let is_final = (ts_end_reason (ns_talker s) \<noteq> None) in
                     case map_finish_reason (ns_talker s) is_final of
                       Inl e \<Rightarrow> (Err e, g1, pcm,
                         w\<lparr>nw_codec := drop_pending_packet (ns_codec s) packet k, nw_cuda := c\<rparr>)
                     | Inr reason \<Rightarrow>
                         (let samples = made * SAMPLES_PER_FRAME in
                          case finish_packet (ns_codec s) packet is_final (take samples pcm) k of
                            (result, head, k1) \<Rightarrow>
                              (and_then (map_err (map_codec_error ''Codec device-packet finish failed'') result)
                                 (packet_from ''Codec device path returned an inconsistent packet descriptor'' s
                                    made is_final reason gpu),
                               g1, head @ drop samples pcm, w\<lparr>nw_codec := k1, nw_cuda := c\<rparr>))))))"

definition step_device_session ::
  "'l native_env \<Rightarrow> ('l, 'k, 'c) native_backend \<Rightarrow> ('k, 'c) native_session \<Rightarrow> nat \<Rightarrow> pcm \<Rightarrow> ('l, 'k, 'c) native_world \<Rightarrow>
   (backend_error + backend_packet) \<times> ('k, 'c) native_session \<times> pcm \<times> ('l, 'k, 'c) native_world" where
  "step_device_session env nb s requested pcm w =
     (case ns_stager s of
        None \<Rightarrow> (Err (backend_error_with_status StatusInternal ''CUDA packet stager is missing''), s, pcm, w)
      | Some g \<Rightarrow>
          if sg_staged_frames g \<noteq> 0
          then (Err (backend_error_with_status StatusState ''CUDA packet stager contains an unconsumed packet''), s, pcm, w)
          else (case device_frames env (nb_talker nb) requested 0 (FFin 0) g (ns_talker s) w of
             (r, g1, talker, w1) \<Rightarrow>
               (let s1 = s\<lparr>ns_talker := talker, ns_stager := Some g1\<rparr> in
                case r of
                  Inl e \<Rightarrow> (Err e, s1, pcm, w1)
                | Inr (made, gpu) \<Rightarrow>
                    if made = 0
                    then (Err (backend_error_with_status StatusState
                        ''Talker ended without a decodable device codec frame''), s1, pcm, w1)
                    else (case device_packet s1 g1 made gpu pcm w1 of
                        (r2, g2, pcm2, w2) \<Rightarrow> (r2, s1\<lparr>ns_stager := Some g2\<rparr>, pcm2, w2)))))"

section \<open>A step, and a batch of steps\<close>

definition requested_frames :: "('k, 'c) native_session \<Rightarrow> u32 \<Rightarrow> nat" where
  "requested_frames s frames = (if ns_first_packet s then 1 else unat frames)"

definition step_native_session ::
  "'l native_env \<Rightarrow> ('l, 'k, 'c) native_backend \<Rightarrow> ('k, 'c) native_session \<Rightarrow> u32 \<Rightarrow> pcm \<Rightarrow> ('l, 'k, 'c) native_world \<Rightarrow>
   (backend_error + backend_packet) \<times> ('k, 'c) native_session \<times> pcm \<times> ('l, 'k, 'c) native_world" where
  "step_native_session env nb s frames pcm w =
     (let requested = requested_frames s frames in
      if requested = 0 \<or> CODEC_MAX_PACKET_FRAMES < requested
      then (Err (backend_error_with_status StatusInvalidArgument ''packet frame count is outside the decoder limit''),
        s, pcm, w)
      else case usize_checked_mul requested SAMPLES_PER_FRAME of
        None \<Rightarrow> (Err (backend_error_with_status StatusInvalidArgument ''PCM capacity overflowed''), s, pcm, w)
      | Some required \<Rightarrow>
          if length pcm < required
          then (Err (backend_error_with_status StatusInvalidArgument
              ''caller PCM buffer is too small for the configured packet''), s, pcm, w)
          else (case (if ns_stager s \<noteq> None then step_device_session env nb s requested pcm w
                      else step_host_session env nb s requested pcm w) of
             (Inl e, s1, pcm1, w1) \<Rightarrow> (Err e, s1, pcm1, w1)
           | (Inr packet, s1, pcm1, w1) \<Rightarrow> (Ok packet, s1\<lparr>ns_first_packet := False\<rparr>, pcm1, w1)))"

text \<open>No operation of a step can unwind, so joining its thread always gives its result.\<close>

fun native_step_threads ::
  "'l native_env \<Rightarrow> ('l, 'k, 'c) native_backend \<Rightarrow> ('l, 'k, 'c) native_world \<Rightarrow>
   (('k, 'c) native_session \<times> pcm) list \<Rightarrow> u32 \<Rightarrow>
   (backend_error + backend_packet) list \<times> (('k, 'c) native_session \<times> pcm) list \<times> ('l, 'k, 'c) native_world" where
  "native_step_threads env nb w [] frames = ([], [], w)"
| "native_step_threads env nb w ((s, pcm) # qs) frames =
     (case step_native_session env nb s frames pcm w of
        (r, s1, pcm1, w1) \<Rightarrow>
          (case native_step_threads env nb w1 qs frames of
             (rs, qs1, w2) \<Rightarrow>
               (join_thread ''native backend generation thread panicked'' (Returned r) # rs, (s1, pcm1) # qs1, w2)))"

definition native_step_batch where
  "native_step_batch env nb w qs frames =
     (case native_step_threads env nb w qs frames of (rs, qs1, w1) \<Rightarrow> (Returned rs, qs1, w1))"

definition native_cancel ::
  "('l, 'k, 'c) native_world \<Rightarrow> ('k, 'c) native_session \<Rightarrow>
   (backend_error + unit) unwind \<times> ('k, 'c) native_session \<times> ('l, 'k, 'c) native_world" where
  "native_cancel w s =
     (case codec_session_cancel (ns_codec s) (nw_codec w) of
        (r, k) \<Rightarrow>
          (Returned (map_err (\<lambda>m. backend_error_with_status StatusState (''failed to cancel codec session: '' @ m)) r),
           s\<lparr>ns_talker := session_cancel (ns_talker s)\<rparr>, w\<lparr>nw_codec := k\<rparr>))"

text \<open>The backend as the scheduler's trait has it.\<close>

definition native_streaming ::
  "'l native_env \<Rightarrow> ('l, 'k, 'c) native_backend \<Rightarrow>
   (('l, 'k, 'c) native_world, ('k, 'c) native_session) streaming_backend" where
  "native_streaming env nb =
     \<lparr>be_start_batch = native_start_batch env nb, be_step_batch = native_step_batch env nb,
      be_cancel = native_cancel\<rparr>"

end
