(* ===== verification/RtNative.thy ===== *)
theory RtNative
  imports RtBackendStep
begin

text \<open>
  The production backend keeps the contract of the scheduler: what a started session makes is what
  \<open>deliver_packet\<close> accepts, packet after packet, until the final one.
\<close>

section \<open>The talker's side\<close>

text \<open>A session that still has frames to make, and one that has made \<open>k\<close> more.\<close>

definition going :: "talker_session \<Rightarrow> bool" where
  "going s \<longleftrightarrow> ts_end_reason s = None \<and> ts_frames_emitted s < ts_max_frames s \<and>
     ts_current_semantic s \<noteq> ts_codec_eos_token s"

definition made :: "nat \<Rightarrow> talker_session \<Rightarrow> talker_session \<Rightarrow> bool" where
  "made k s s' \<longleftrightarrow> ts_frames_emitted s' = ts_frames_emitted s + k \<and> ts_max_frames s' = ts_max_frames s \<and>
     ts_frames_emitted s' \<le> ts_max_frames s' \<and> ts_end_reason s' \<noteq> Some SessionCancelled \<and>
     (ts_end_reason s' = None \<longrightarrow> going s')"

lemma made_trans: "made k s s1 \<Longrightarrow> made n s1 s2 \<Longrightarrow> made (k + n) s s2"
  by (auto simp: made_def)

lemma going_guard: "going s \<Longrightarrow> frame_guard s = None"
  by (simp add: going_def frame_guard_def)

lemma next_frame_made:
  assumes "going s" and "next_frame m s w = (Ok r, s', w')"
  shows "\<exists>fr. r = Some fr \<and> made 1 s s'"
  using assms
  by (auto simp: next_frame_def going_guard take_frame_def end_after_def Let_def made_def going_def
      split: option.splits sum.splits prod.splits if_splits)

lemma begin_batched_going:
  assumes "going s" and "begin_device_frame_batched pump m s w = (Ok r, s', w')"
  shows "s' = s \<and> r \<noteq> None"
  using assms
  by (auto simp: begin_device_frame_batched_def begin_device_frame_def going_guard
      split: option.splits sum.splits prod.splits if_splits)

lemma finish_made:
  assumes "going s" and "finish_with_consumer_event m view event s w = (Ok r, s', w')"
  shows "made 1 s s'"
  using assms
  by (auto simp: finish_with_consumer_event_def complete_pending_def finish_device_native_raw_def
      commit_finished_device_frame_def end_after_def Let_def made_def going_def
      split: option.splits sum.splits prod.splits if_splits)

lemma host_frames_made:
  assumes "going s" and "0 < n" and "host_frames render m n frames gpu s w = (Ok (frames', gpu'), s', w')"
  shows "\<exists>k. 1 \<le> k \<and> k \<le> n \<and> length frames' = length frames + k \<and> made k s s'"
  using assms
proof (induction n arbitrary: frames gpu s w)
  case (Suc n)
  obtain r s1 w1 where nf: "next_frame m s w = (r, s1, w1)" by (metis prod_cases3)
  obtain fr where r: "r = Ok (Some fr)" and m1: "made 1 s s1"
  proof (cases r)
    case (Inl e)
    then show ?thesis using Suc.prems(3) nf by simp
  next
    case (Inr q)
    then show ?thesis using next_frame_made [OF Suc.prems(1) nf [unfolded Inr]] that by blast
  qed
  show ?case
  proof (cases "ts_end_reason s1 \<noteq> None \<or> n = 0")
    case True
    then show ?thesis using Suc.prems(3) nf r m1 by (cases n) (auto simp: Let_def split: if_splits)
  next
    case False
    then have "going s1" using m1 by (simp add: made_def)
    moreover have "host_frames render m n (frames @ [sf_codes fr])
        (add_gpu_time gpu (sf_talker_gpu_milliseconds fr) (sf_predictor_gpu_milliseconds fr)) s1 w1 =
        (Ok (frames', gpu'), s', w')"
      using Suc.prems(3) nf r False by (simp add: Let_def)
    ultimately obtain k where k: "1 \<le> k" "k \<le> n" "length frames' = length frames + 1 + k" "made k s1 s'"
      using Suc.IH [of s1 "frames @ [sf_codes fr]"] False by auto
    then have "made (1 + k) s s'" using made_trans [OF m1] by blast
    then show ?thesis using k by (intro exI [of _ "1 + k"]) simp
  qed
qed simp

lemma device_frames_made:
  assumes "going s" and "0 < n" and "device_frames env m n c gpu g s w = (Ok (c', gpu'), g', s', w')"
  shows "\<exists>k. 1 \<le> k \<and> k \<le> n \<and> c' = c + k \<and> made k s s'"
  using assms
proof (induction n arbitrary: c gpu g s w)
  case (Suc n)
  note prem = Suc.prems(3)
  obtain r s1 t where bg: "begin_device_frame_batched (ne_pump env) m s (nw_talker w) = (r, s1, t)"
    by (metis prod_cases3)
  obtain view where r: "r = Ok (Some view)" and s1: "s1 = s"
    using begin_batched_going [OF Suc.prems(1)] bg prem by (cases r) force+
  obtain q g1 cu where st: "stage_frame g (dv_device_codes view) (unat (dv_code_count view)) (dv_ready_event view)
      (dv_device_index view) (nw_cuda w) = (q, g1, cu)"
    by (metis prod_cases3)
  obtain event where q: "q = Ok event"
    using prem bg r st by (cases q) (auto split: prod.splits)
  obtain f s2 t1 where fi: "finish_with_consumer_event m view event s1 t = (f, s2, t1)"
    by (metis prod_cases3)
  obtain fin where f: "f = Ok fin"
    using prem bg r st q fi by (cases f) auto
  have m1: "made 1 s s2" using finish_made [of s] Suc.prems(1) fi f s1 by blast
  show ?case
  proof (cases "ts_end_reason s2 \<noteq> None \<or> n = 0")
    case True
    then show ?thesis using prem bg r st q fi f m1 by (cases n) (auto simp: Let_def split: if_splits)
  next
    case False
    then have g2: "going s2" using m1 by (simp add: made_def)
    have rest: "device_frames env m n (c + 1)
        (add_gpu_time gpu (ff_talker_gpu_milliseconds fin) (ff_predictor_gpu_milliseconds fin)) g1 s2
        (w\<lparr>nw_talker := t1, nw_cuda := cu\<rparr>) = (Ok (c', gpu'), g', s', w')"
      using prem bg r st q fi f False by (simp add: Let_def)
    obtain k where k: "1 \<le> k" "k \<le> n" "c' = c + 1 + k" "made k s2 s'"
      using Suc.IH [OF g2 _ rest] False by blast
    then have "made (1 + k) s s'" using made_trans [OF m1] by blast
    then show ?thesis using k by (intro exI [of _ "1 + k"]) simp
  qed
qed simp

section \<open>A packet\<close>

text \<open>What a successful step says of its packet, the session and the caller's buffer.\<close>

definition good_packet ::
  "nat \<Rightarrow> talker_session \<Rightarrow> talker_session \<Rightarrow> pcm \<Rightarrow> pcm \<Rightarrow> backend_packet \<Rightarrow> bool" where
  "good_packet k s s' pcm pcm' packet \<longleftrightarrow>
     made k s s' \<and> bp_codec_frames packet = of_nat k \<and>
     bp_is_final packet = (ts_end_reason s' \<noteq> None) \<and>
     bp_is_final packet = finish_is_terminal (bp_finish_reason packet) \<and>
     length pcm' = length pcm \<and> drop (k * SAMPLES_PER_FRAME) pcm' = drop (k * SAMPLES_PER_FRAME) pcm"

lemma map_finish_reason_terminal:
  "map_finish_reason s is_final = Ok reason \<Longrightarrow> is_final = finish_is_terminal reason"
  by (auto simp: map_finish_reason_def and_then_Ok_iff split: if_splits)

lemma packet_from_Ok:
  "packet_from m s k is_final reason gpu result = Ok packet \<Longrightarrow>
     bp_codec_frames packet = of_nat k \<and> bp_is_final packet = is_final \<and> bp_finish_reason packet = reason"
  by (auto simp: packet_from_def split: if_splits)

lemma host_step_good:
  assumes "going (ns_talker s)" and "0 < n" and "n * SAMPLES_PER_FRAME \<le> length pcm"
    and "step_host_session env nb s n pcm w = (Ok packet, s', pcm', w')"
  shows "\<exists>k. 1 \<le> k \<and> k \<le> n \<and> good_packet k (ns_talker s) (ns_talker s') pcm pcm' packet"
proof -
  obtain r talker t where hf: "host_frames (ne_render env) (nb_talker nb) n [] (FFin 0) (ns_talker s) (nw_talker w)
      = (r, talker, t)" by (metis prod_cases3)
  obtain frames gpu where r: "r = Ok (frames, gpu)"
    using assms(4) hf by (cases r) (auto simp: step_host_session_def Let_def)
  obtain k where k: "1 \<le> k" "k \<le> n" "length frames = k" "made k (ns_talker s) talker"
    using host_frames_made [OF assms(1,2) hf [unfolded r]] by auto
  define final where "final = (ts_end_reason talker \<noteq> None)"
  obtain reason where reason: "map_finish_reason talker final = Ok reason"
    using assms(4) hf r k(1,3)
    by (cases "map_finish_reason talker final") (auto simp: step_host_session_def Let_def final_def split: if_splits)
  obtain result head c where pr: "process_into (ns_codec s) frames final (take (k * SAMPLES_PER_FRAME) pcm)
      (nw_codec w) = (result, head, c)" by (metis prod_cases3)
  have eqs: "ns_talker s' = talker" "pcm' = head @ drop (k * SAMPLES_PER_FRAME) pcm"
    and "\<exists>q. packet_from ''codec returned an inconsistent packet descriptor'' (s\<lparr>ns_talker := talker\<rparr>) k final
        reason gpu q = Ok packet"
    using assms(4) hf r k(1,3) reason pr
    by (auto simp: step_host_session_def Let_def final_def and_then_Ok_iff split: if_splits)
  then have "bp_codec_frames packet = of_nat k" "bp_is_final packet = final" "bp_finish_reason packet = reason"
    by (auto dest: packet_from_Ok)
  moreover have "length head = k * SAMPLES_PER_FRAME"
    using process_into_length [OF pr] k(2) assms(3) order_trans [OF mult_le_mono1 assms(3)] by simp
  moreover have "k * SAMPLES_PER_FRAME \<le> length pcm"
    using k(2) order_trans [OF mult_le_mono1 assms(3)] by simp
  ultimately show ?thesis
    using k map_finish_reason_terminal [OF reason] eqs
    by (intro exI [of _ k]) (simp add: good_packet_def final_def)
qed

lemma device_packet_good:
  assumes "device_packet s g k gpu pcm w = (Ok packet, g', pcm', w')" and "k * SAMPLES_PER_FRAME \<le> length pcm"
  shows "bp_codec_frames packet = of_nat k \<and> bp_is_final packet = (ts_end_reason (ns_talker s) \<noteq> None) \<and>
    bp_is_final packet = finish_is_terminal (bp_finish_reason packet) \<and>
    length pcm' = length pcm \<and> drop (k * SAMPLES_PER_FRAME) pcm' = drop (k * SAMPLES_PER_FRAME) pcm"
proof -
  define final where "final = (ts_end_reason (ns_talker s) \<noteq> None)"
  obtain p reason result head c c' q where
    "map_finish_reason (ns_talker s) final = Ok reason"
    "finish_packet (ns_codec s) p final (take (k * SAMPLES_PER_FRAME) pcm) c = (result, head, c')"
    "packet_from ''Codec device path returned an inconsistent packet descriptor'' s k final reason gpu q = Ok packet"
    "pcm' = head @ drop (k * SAMPLES_PER_FRAME) pcm"
    using assms(1)
    by (auto simp: device_packet_def Let_def final_def and_then_Ok_iff split: sum.splits prod.splits if_splits)
  then show ?thesis
    using assms(2) by (auto simp: final_def dest!: packet_from_Ok map_finish_reason_terminal finish_packet_length)
qed

lemma device_step_good:
  assumes "going (ns_talker s)" and "0 < n" and "n * SAMPLES_PER_FRAME \<le> length pcm"
    and "step_device_session env nb s n pcm w = (Ok packet, s', pcm', w')"
  shows "\<exists>k. 1 \<le> k \<and> k \<le> n \<and> good_packet k (ns_talker s) (ns_talker s') pcm pcm' packet"
proof -
  obtain g where g: "ns_stager s = Some g"
    using assms(4) by (cases "ns_stager s") (auto simp: step_device_session_def)
  obtain r g1 talker w1 where df: "device_frames env (nb_talker nb) n 0 (FFin 0) g (ns_talker s) w = (r, g1, talker, w1)"
    by (metis prod_cases4)
  obtain c gpu where r: "r = Ok (c, gpu)"
    using assms(4) g df by (cases r) (auto simp: step_device_session_def Let_def split: if_splits)
  obtain k where k: "1 \<le> k" "k \<le> n" "c = k" "made k (ns_talker s) talker"
    using device_frames_made [OF assms(1,2) df [unfolded r]] by auto
  obtain g2 where dp: "device_packet (s\<lparr>ns_talker := talker, ns_stager := Some g1\<rparr>) g1 k gpu pcm w1 =
      (Ok packet, g2, pcm', w')" and s': "ns_talker s' = talker"
    using assms(4) g df r k(1,3)
    by (auto simp: step_device_session_def Let_def split: if_splits prod.splits)
  have "k * SAMPLES_PER_FRAME \<le> length pcm"
    using k(2) order_trans [OF mult_le_mono1 assms(3)] by simp
  then show ?thesis
    using k device_packet_good [OF dp] s' by (intro exI [of _ k]) (auto simp: good_packet_def)
qed

lemma step_good:
  assumes "going (ns_talker s)" and "step_native_session env nb s frames pcm w = (Ok packet, s', pcm', w')"
  shows "\<exists>k. 1 \<le> k \<and> k \<le> requested_frames s frames \<and> k \<le> 4 \<and> k * SAMPLES_PER_FRAME \<le> length pcm \<and>
    good_packet k (ns_talker s) (ns_talker s') pcm pcm' packet"
proof -
  let ?n = "requested_frames s frames"
  obtain s1 where guard: "0 < ?n" "?n \<le> 4" "?n * SAMPLES_PER_FRAME \<le> length pcm"
    and step: "(if ns_stager s \<noteq> None then step_device_session env nb s ?n pcm w
      else step_host_session env nb s ?n pcm w) = (Ok packet, s1, pcm', w')" and s': "ns_talker s' = ns_talker s1"
    using assms(2)
    by (fastforce simp: step_native_session_def Let_def CODEC_MAX_PACKET_FRAMES_def usize_checked_mul_def not_less
        split: if_splits option.splits sum.splits prod.splits)
  obtain k where k: "1 \<le> k" "k \<le> ?n" "good_packet k (ns_talker s) (ns_talker s1) pcm pcm' packet"
    using host_step_good [OF assms(1) guard(1,3)] device_step_good [OF assms(1) guard(1,3)] step
    by (metis (full_types))
  moreover have "k * SAMPLES_PER_FRAME \<le> length pcm"
    using k(2) order_trans [OF mult_le_mono1 guard(3)] by simp
  ultimately show ?thesis using guard(2) s' by auto
qed

section \<open>The scheduler's contract\<close>

text \<open>A request's record and its session agree, and there is more to come.\<close>

definition tracks :: "u32 \<Rightarrow> request_record \<Rightarrow> ('k, 'c) native_session \<Rightarrow> bool" where
  "tracks limit rcd s \<longleftrightarrow> rec_phase rcd = Generating \<and>
     unat (next_codec_frame rcd) = ts_frames_emitted (ns_talker s) \<and>
     ts_max_frames (ns_talker s) = unat limit \<and> going (ns_talker s)"

lemma sum_below_limit:
  fixes limit :: u32 and position :: u64
  assumes "unat position + k \<le> unat limit" and "k \<le> 4"
  shows "unat (saturating_add position (ucast (of_nat k :: u32))) = unat position + k"
    and "unat (position + ucast (of_nat k :: u32)) = unat position + k"
proof -
  have k: "unat (of_nat k :: u32) = k" using assms(2) by (simp add: unat_of_nat)
  have "unat position + k < 2 ^ 64" using assms(1) unat_u32_bound [of limit] by simp
  then show "unat (saturating_add position (ucast (of_nat k :: u32))) = unat position + k"
    and "unat (position + ucast (of_nat k :: u32)) = unat position + k"
    by (simp_all add: unat_saturating_add unat_word_ariths k)
qed

lemma good_packet_valid:
  assumes "good_packet k s s' pcm pcm' packet" and "1 \<le> k" "k \<le> 4" "k \<le> unat frames"
    and "k * SAMPLES_PER_FRAME \<le> length pcm" and "set pcm \<subseteq> {PCM_SENTINEL}"
  shows "validate_backend_packet packet frames pcm' = Ok ()"
proof -
  have k: "unat (of_nat k :: u32) = k" using assms(3) by (simp add: unat_of_nat)
  have "of_nat k \<noteq> (0 :: u32)" using k assms(2) by auto
  moreover have "\<not> frames < of_nat k" using assms(4) by (simp add: word_less_nat_alt k)
  moreover have "drop (k * 1920) pcm' = drop (k * 1920) pcm"
    using assms(1) by (simp add: good_packet_def SAMPLES_PER_FRAME_def)
  then have "set (drop (k * 1920) pcm') \<subseteq> {PCM_SENTINEL}"
    using set_drop_subset [of "k * 1920" pcm] assms(6) by auto
  then have "\<not> list_ex (\<lambda>x. x \<noteq> PCM_SENTINEL) (drop (k * 1920) pcm')"
    by (auto simp: list_ex_iff)
  ultimately show ?thesis
    using assms(1,5)
    by (auto simp: validate_backend_packet_def good_packet_def k SAMPLES_PER_CODEC_FRAME_def SAMPLES_PER_FRAME_def)
qed

lemma step_refines:
  assumes "tracks limit rcd s" and "1 \<le> frames" and "set pcm \<subseteq> {PCM_SENTINEL}"
    and "step_native_session env nb s frames pcm w = (Ok packet, s', buffer, w')"
  shows "\<exists>rcd' owned. deliver_packet rcd limit packet frames buffer step_us elapsed r = Ok (rcd', owned) \<and>
    op_pcm owned = Some buffer \<and>
    unat (next_codec_frame rcd) < unat (next_codec_frame rcd') \<and>
    unat (next_codec_frame rcd') \<le> unat limit \<and>
    (if bp_is_final packet then rec_phase rcd' = Draining else tracks limit rcd' s')"
proof -
  have going: "going (ns_talker s)" and gen: "rec_phase rcd = Generating" using assms(1) by (simp_all add: tracks_def)
  obtain k where k: "1 \<le> k" "k \<le> requested_frames s frames" "k \<le> 4" "k * SAMPLES_PER_FRAME \<le> length pcm"
    and good: "good_packet k (ns_talker s) (ns_talker s') pcm buffer packet"
    using step_good [OF going assms(4)] by blast
  have "1 \<le> unat frames" using assms(2) by (metis word_le_nat_alt unat_1)
  then have "k \<le> unat frames" using k(2) by (simp add: requested_frames_def split: if_splits)
  note valid = good_packet_valid [OF good k(1,3) this k(4) assms(3)]
  have made: "made k (ns_talker s) (ns_talker s')" "bp_codec_frames packet = of_nat k"
      "bp_is_final packet = (ts_end_reason (ns_talker s') \<noteq> None)"
    using good by (simp_all add: good_packet_def)
  have le: "unat (next_codec_frame rcd) + k \<le> unat limit"
    using made(1) assms(1) by (simp add: made_def tracks_def)
  note sums = sum_below_limit [OF le k(3)]
  have ends: "unat (next_codec_frame rcd) + k = unat limit \<Longrightarrow> bp_is_final packet"
    using made(1,3) assms(1) by (auto simp: made_def tracks_def going_def)
  have bound: "saturating_add (next_codec_frame rcd) (ucast (bp_codec_frames packet)) < (ucast limit :: u64) \<or>
      saturating_add (next_codec_frame rcd) (ucast (bp_codec_frames packet)) = ucast limit \<and> bp_is_final packet"
    using le ends
    by (cases "unat (next_codec_frame rcd) + k = unat limit")
      (simp_all add: made(2) sums(1) word_less_nat_alt word_unat_eq_iff)
  obtain rcd' owned where d: "deliver_packet rcd limit packet frames buffer step_us elapsed r = Ok (rcd', owned)"
      "op_pcm owned = Some buffer"
    using deliver_packet_total [OF gen valid bound] by metis
  have "next_codec_frame rcd' = next_codec_frame rcd + ucast (of_nat k :: u32) \<and>
      rec_phase rcd' = (if bp_is_final packet then Draining else Generating)"
    using d(1) gen
    by (auto simp: deliver_packet_def and_then_Ok_iff Let_def record_packet_def record_after_packet_def
        packet_descriptor_def made(2) transition_def transition_allowed_def
        split: if_splits sum.splits prod.splits)
  then have "unat (next_codec_frame rcd') = unat (next_codec_frame rcd) + k"
      "rec_phase rcd' = (if bp_is_final packet then Draining else Generating)"
    using sums(2) by simp_all
  then show ?thesis
    using d k(1) le made assms(1) by (auto simp: tracks_def made_def)
qed

section \<open>The trait's borrow rules\<close>

lemma host_step_length:
  "step_host_session env nb s n pcm w = (r, s', pcm', w') \<Longrightarrow> length pcm' = length pcm"
  by (auto simp: step_host_session_def Let_def split: sum.splits prod.splits if_splits dest!: process_into_length)

lemma device_packet_length:
  "device_packet s g k gpu pcm w = (r, g', pcm', w') \<Longrightarrow> length pcm' = length pcm"
  by (auto simp: device_packet_def Let_def split: sum.splits prod.splits if_splits dest!: finish_packet_length)

lemma device_step_length:
  "step_device_session env nb s n pcm w = (r, s', pcm', w') \<Longrightarrow> length pcm' = length pcm"
  by (auto simp: step_device_session_def Let_def split: option.splits sum.splits prod.splits if_splits
      dest: device_packet_length)

lemma step_native_length:
  "step_native_session env nb s frames pcm w = (r, s', pcm', w') \<Longrightarrow> length pcm' = length pcm"
  by (auto simp: step_native_session_def Let_def split: option.splits sum.splits prod.splits if_splits
      dest: host_step_length device_step_length)

lemma native_threads_in_place:
  "native_step_threads env nb w qs frames = (rs, qs', w') \<Longrightarrow> in_place qs qs' \<and> length rs = length qs"
  by (induction env nb w qs frames arbitrary: rs qs' w' rule: native_step_threads.induct)
    (auto simp: in_place_def split: prod.splits dest: step_native_length)

interpretation native: borrowing_backend "native_step_batch env nb" for env nb
proof
  fix b qs frames r qs' b'
  assume "native_step_batch env nb b qs frames = (r, qs', b')"
  then show "in_place qs qs'"
    by (auto simp: native_step_batch_def split: prod.splits dest: native_threads_in_place)
qed

section \<open>From start to final packet\<close>

lemma start_prompt_going:
  assumes "start_prompt m prompt settings w = (Ok s, w')" and "ts_end_reason s = None"
  shows "going s \<and> ts_frames_emitted s = 0 \<and> ts_max_frames s = gs_max_frames settings"
  using assms plan_frames
  by (auto simp: start_prompt_def Let_def new_session_def going_def split: sum.splits prod.splits if_splits)

lemma start_tracks:
  assumes "start_native_session env nb q w = (Returned (Ok started), w')"
    and "rec_phase rcd = Generating" and "next_codec_frame rcd = 0"
  shows "tracks (max_codec_frames (br_generation q)) rcd (bs_session started)"
proof -
  obtain prompt talker t where talker: "start_prompt (nb_talker nb) prompt (settings_of (voice_request q)) (nw_talker w)
      = (Ok talker, t)" "ts_end_reason talker = None"
    and side: "start_codec_side env nb q talker (w\<lparr>nw_talker := t\<rparr>) = (Ok started, w')"
    using assms(1)
    by (auto simp: start_native_session_def talker_start_def split: unwind.splits sum.splits prod.splits if_splits)
  have "ns_talker (bs_session started) = talker"
    using side by (auto simp: start_codec_side_def Let_def split: sum.splits prod.splits)
  then show ?thesis
    using start_prompt_going [OF talker] assms(2,3)
    by (simp add: tracks_def settings_of_def voice_request_def Let_def)
qed

text \<open>A request alone with the backend: fresh buffers are filled and delivered until the final packet.
  Between two steps the other requests and the client may do anything to the native state.\<close>

datatype served = Served request_record | BackendFailed backend_error | ContractBroken string | StillGoing

fun serve :: "'l native_env \<Rightarrow> ('l, 'k, 'c) native_backend \<Rightarrow> u32 \<Rightarrow> u32 \<Rightarrow>
    (nat \<Rightarrow> ('l, 'k, 'c) native_world \<Rightarrow> ('l, 'k, 'c) native_world) \<Rightarrow> nat \<Rightarrow>
    request_record \<Rightarrow> ('k, 'c) native_session \<Rightarrow> ('l, 'k, 'c) native_world \<Rightarrow> served" where
  "serve env nb frames limit others 0 rcd s w = StillGoing"
| "serve env nb frames limit others (Suc n) rcd s w =
     (case step_native_session env nb s frames
         (replicate (unat frames * unat SAMPLES_PER_CODEC_FRAME) PCM_SENTINEL) (others n w) of
        (Inl e, _) \<Rightarrow> BackendFailed e
      | (Inr packet, s', buffer, w') \<Rightarrow>
          (case deliver_packet rcd limit packet frames buffer (FFin 0) 0 0 of
             Inl m \<Rightarrow> ContractBroken m
           | Inr (rcd', owned) \<Rightarrow>
               if bp_is_final packet then Served rcd' else serve env nb frames limit others n rcd' s' w'))"

lemma serve_ends:
  assumes "tracks limit rcd s" and "1 \<le> frames" and "unat limit - unat (next_codec_frame rcd) \<le> n"
  shows "case serve env nb frames limit others n rcd s w of
      Served rcd' \<Rightarrow> unat (next_codec_frame rcd') \<le> unat limit \<and> rec_phase rcd' = Draining
    | BackendFailed e \<Rightarrow> True | _ \<Rightarrow> False"
  using assms
proof (induction n arbitrary: rcd s w)
  case 0
  then show ?case by (auto simp: tracks_def going_def)
next
  case (Suc n)
  let ?pcm = "replicate (unat frames * unat SAMPLES_PER_CODEC_FRAME) PCM_SENTINEL"
  obtain r s' buffer w' where st: "step_native_session env nb s frames ?pcm (others n w) = (r, s', buffer, w')"
    by (metis prod_cases4)
  show ?case
  proof (cases r)
    case (Inl e)
    then show ?thesis using st by simp
  next
    case (Inr packet)
    have "set ?pcm \<subseteq> {PCM_SENTINEL}" by auto
    then obtain rcd' owned where d: "deliver_packet rcd limit packet frames buffer (FFin 0) 0 0 = Ok (rcd', owned)"
        "unat (next_codec_frame rcd) < unat (next_codec_frame rcd')" "unat (next_codec_frame rcd') \<le> unat limit"
        "if bp_is_final packet then rec_phase rcd' = Draining else tracks limit rcd' s'"
      using step_refines [OF Suc.prems(1,2) _ st [unfolded Inr]] by metis
    show ?thesis
    proof (cases "bp_is_final packet")
      case True
      then show ?thesis using st Inr d by simp
    next
      case False
      then have "tracks limit rcd' s'" "unat limit - unat (next_codec_frame rcd') \<le> n"
        using d(2-4) Suc.prems(3) by auto
      then show ?thesis using Suc.IH [OF _ Suc.prems(2)] st Inr d(1) False by simp
    qed
  qed
qed

section \<open>Properties\<close>

text \<open>C12: the production backend implements the packet contract of the scheduler: as long as a request's
  record and its native session agree, a successful step's packet and buffer pass every check of
  \<open>deliver_packet\<close>, and afterwards they agree again, one to four frames further, unless the packet was
  the final one. Whatever the native libraries do.\<close>

theorem native_step_refines:
  assumes "tracks limit rcd s" and "1 \<le> frames" and "set pcm \<subseteq> {PCM_SENTINEL}"
    and "step_native_session env nb s frames pcm w = (Ok packet, s', buffer, w')"
  shows "\<exists>rcd' owned. deliver_packet rcd limit packet frames buffer step_us elapsed r = Ok (rcd', owned) \<and>
    op_pcm owned = Some buffer \<and>
    unat (next_codec_frame rcd) < unat (next_codec_frame rcd') \<and>
    unat (next_codec_frame rcd') \<le> unat limit \<and>
    (if bp_is_final packet then rec_phase rcd' = Draining else tracks limit rcd' s')"
  by (rule step_refines [OF assms])

definition silent_codec_library :: "unit codec_library" where
  "silent_codec_library = \<lparr>cl_missing = [], cl_abi_version_v2 = 2,
     cl_shared_model_create = (\<lambda>d l. (((0, []), 1), l)), cl_shared_model_destroy = (\<lambda>h l. l),
     cl_shared_model_load = (\<lambda>h n t l. ((0, []), l)), cl_shared_model_warmup = (\<lambda>h l. ((0, []), l)),
     cl_session_create = (\<lambda>h l. (((0, []), 1), l)), cl_session_destroy = (\<lambda>h l. l),
     cl_session_reset = (\<lambda>h l. ((0, []), l)), cl_session_cancel = (\<lambda>h l. ((0, []), l)),
     cl_session_memory_info = (\<lambda>h l. (((0, []), \<lparr>sx_device_bytes = 1, sx_host_pinned_bytes = 1,
        sx_transformer_kv_bytes = 0, sx_convolution_history_bytes = 0, sx_codec_ring_bytes = 0,
        sx_pcm_ring_bytes = 0, sx_workspace_device_bytes = 0\<rparr>), l)),
     cl_session_process = (\<lambda>h fs final n l. (((0, []), replicate n 0, default_packet_result
        \<lparr>pr_frame_count := of_nat (length fs), pr_sample_count := of_nat n,
         pr_is_final := if final then 1 else 0\<rparr>), l)),
     cl_device_begin = (\<lambda>h c n e l. (((1, []), 0, 0), l)),
     cl_device_finish = (\<lambda>h t f n l. (((1, []), [], default_packet_result), l)),
     cl_batch_process = (\<lambda>items l. (((1, []), []), l))\<rparr>"

definition example_backend :: "(nat \<times> nat list, unit, unit) native_backend" where
  "example_backend = \<lparr>nb_talker = counting_model,
     nb_codec = \<lparr>cm_api = \<lparr>ca_library = silent_codec_library, ca_device_packet = True\<rparr>, cm_handle = 1\<rparr>,
     nb_stager_runtime = None, nb_device_index = 0\<rparr>"

definition example_env :: "(nat \<times> nat list) native_env" where
  "example_env = \<lparr>ne_prompt = (\<lambda>_. Returned (Ok example_prompt)), ne_pump = no_pump, ne_render = (\<lambda>_. []),
     ne_prefill_time = (\<lambda>_. 0)\<rparr>"

definition example_request :: backend_request where
  "example_request = \<lparr>br_id = 1, br_input = \<lparr>ri_text = ''Hi'', ri_instruct = [], ri_language = English\<rparr>,
     br_generation = default_generation_config
       \<lparr>max_codec_frames := 2, gc_temperature := FFin 1, gc_top_p := FFin 1, gc_repetition_penalty := FFin 1,
        predictor_temperature := FFin 1, predictor_top_p := FFin 1\<rparr>\<rparr>"

definition example_world :: "(nat \<times> nat list, unit, unit) native_world" where
  "example_world = \<lparr>nw_talker = \<lparr>tw_native = (0, []), tw_pool = []\<rparr>, nw_codec = (), nw_cuda = (), nw_registered = 0\<rparr>"

lemma example_plan:
  "plan_prompt counting_model example_prompt (settings_of (voice_request example_request)) =
     Ok (([5], [- 1]), 32,
        \<lparr>ns_do_sample = 1, ns_top_k = 50, ns_top_p = FFin 1, ns_temperature = FFin 1, ns_repetition_penalty = FFin 1\<rparr>,
        \<lparr>ns_do_sample = 1, ns_top_k = 50, ns_top_p = FFin 1, ns_temperature = FFin 1, ns_repetition_penalty = FFin 1\<rparr>)"
  by (simp add: plan_prompt_def settings_of_def voice_request_def voice_design_request_new_def Let_def
      example_request_def example_prompt_def counting_model_def text_step_def default_generation_config_def
      text_source_id_def i32_try_from_def capacity_defs usize_max_def sampling_native_def MAX_CODEC_FRAMES_def)

lemma example_started:
  "\<exists>started w'. start_native_session example_env example_backend example_request example_world =
     (Returned (Ok started), w')"
  unfolding start_native_session_def talker_start_def start_prompt_def
  apply (simp add: example_env_def example_backend_def example_plan example_world_def)
  apply (simp add: example_backend_def counting_model_def acquire_session_def smallest_adequate_session_index_def create_session_def
      find_symbol_def counting_library_def ensure_native_success_def prefill_native_def new_session_def Let_def
      example_config_def settings_of_def voice_request_def voice_design_request_new_def example_request_def)
  apply (simp add: start_codec_side_def start_codec_session_def silent_codec_library_def has_symbol_def
      status_result_def codec_memory_info_def start_stager_def checked_sum_def checked_add_def ok_or_def Let_def)
  done

definition example_native_session :: "(unit, unit) native_session" where
  "example_native_session = \<lparr>ns_talker = example_session,
     ns_codec = \<lparr>cs_model = nb_codec example_backend, cs_handle = 1\<rparr>, ns_stager = None, ns_registered = False,
     ns_first_packet = True, ns_peak_device_bytes = 1, ns_peak_host_bytes = 1\<rparr>"

definition silence :: pcm where
  "silence = replicate 1920 PCM_SENTINEL"

lemma example_step:
  "is_ok (fst (step_native_session example_env example_backend example_native_session 1 silence example_world))"
proof -
  have len: "length silence = 1920" by (simp add: silence_def)
  have frames: "host_frames render counting_model (Suc 0) [] (FFin 0) example_session w =
      (Ok ([replicate 16 7], add_gpu_time (FFin 0) (FFin 0) (FFin 0)),
       example_session\<lparr>ts_frames_emitted := 1\<rparr>, w)" for render w
    by (simp add: example_session_def counting_model_def counting_library_def next_frame_def frame_guard_def
        text_source_id_def next_text_def i32_try_from_def next_native_def take_frame_def end_after_def
        ensure_native_success_def example_config_def Let_def)
  have "ts_end_reason example_session = None" by (simp add: example_session_def)
  then show ?thesis
    by (simp add: step_native_session_def step_host_session_def requested_frames_def example_native_session_def
        example_env_def example_backend_def example_world_def frames len Let_def
        CODEC_MAX_PACKET_FRAMES_def usize_checked_mul_def usize_max_def SAMPLES_PER_FRAME_def map_finish_reason_def
        finish_is_terminal_def process_into_def silent_codec_library_def has_symbol_def packet_from_def
        del: host_frames.simps)
qed

lemma native_step_refines_witness:
  "\<exists>packet s' buffer w' rcd' owned.
     step_native_session example_env example_backend example_native_session 1 silence example_world =
       (Ok packet, s', buffer, w') \<and>
     deliver_packet ((request_record_new 7)\<lparr>rec_phase := Generating\<rparr>) 2 packet 1 buffer (FFin 0) 0 0 = Ok (rcd', owned)"
proof -
  obtain r s' buffer w' where st: "step_native_session example_env example_backend example_native_session 1 silence
      example_world = (r, s', buffer, w')" by (metis prod_cases4)
  then obtain packet where r: "r = Ok packet" using example_step by (auto simp: is_ok_iff)
  have "tracks 2 ((request_record_new 7)\<lparr>rec_phase := Generating\<rparr>) example_native_session"
    by (simp add: tracks_def request_record_new_def example_native_session_def example_session_def going_def)
  moreover have "set silence \<subseteq> {PCM_SENTINEL}" by (simp add: silence_def)
  ultimately show ?thesis
    using native_step_refines [OF _ _ _ st [unfolded r]] st r by (metis order_refl)
qed

end
