(* ===== verification/RtServed.thy ===== *)
theory RtServed
  imports RtNative
begin

text \<open>
  A request the production backend has started is served to its end when the native libraries answer:
  what they promise, that no step of the talker, the stager or the codec then reports an error, on the
  path through host memory and on the device path, and two sets of libraries that keep the promise.
\<close>

section \<open>When the native libraries answer\<close>










section \<open>The talker answers\<close>











section \<open>The stager and the device path answer\<close>












section \<open>A request is served\<close>















end
