(* ===== verification/NtSha.thy ===== *)
theory NtSha
  imports Prelude
begin

text \<open>
  \<open>sha256.rs\<close> of \<open>qwen3-tts-native\<close>: the incremental hasher with its block buffer, and hashing a reader. A
  panic of an overflowing length is a value. The abstract digest pads the whole message first.
\<close>

unbundle bit_operations_syntax

section \<open>Compression\<close>

definition INITIAL_STATE :: "u32 list" where
  "INITIAL_STATE = [1779033703, 3144134277, 1013904242, 2773480762,
     1359893119, 2600822924, 528734635, 1541459225]"

definition ROUND_CONSTANTS :: "u32 list" where
  "ROUND_CONSTANTS =
    [1116352408, 1899447441, 3049323471, 3921009573, 961987163, 1508970993, 2453635748, 2870763221,
     3624381080, 310598401, 607225278, 1426881987, 1925078388, 2162078206, 2614888103, 3248222580,
     3835390401, 4022224774, 264347078, 604807628, 770255983, 1249150122, 1555081692, 1996064986,
     2554220882, 2821834349, 2952996808, 3210313671, 3336571891, 3584528711, 113926993, 338241895,
     666307205, 773529912, 1294757372, 1396182291, 1695183700, 1986661051, 2177026350, 2456956037,
     2730485921, 2820302411, 3259730800, 3345764771, 3516065817, 3600352804, 4094571909, 275423344,
     430227734, 506948616, 659060556, 883997877, 958139571, 1322822218, 1537002063, 1747873779,
     1955562222, 2024104815, 2227730452, 2361852424, 2428436474, 2756734187, 3204031479, 3329325298]"

text \<open>Big-endian numbers.\<close>

definition be_value :: "bytes \<Rightarrow> nat" where "be_value cs = le_value (rev cs)"
definition be_bytes :: "nat \<Rightarrow> nat \<Rightarrow> bytes" where "be_bytes k n = rev (le_bytes k n)"

fun block_words :: "bytes \<Rightarrow> u32 list" where
  "block_words (a # b # c # d # rest) = of_nat (be_value [a, b, c, d]) # block_words rest"
| "block_words _ = []"

definition schedule_step :: "u32 list \<Rightarrow> u32 list" where
  "schedule_step w =
     (let index = length w;
          x = w ! (index - 15);
          y = w ! (index - 2);
          s0 = word_rotr 7 x XOR word_rotr 18 x XOR drop_bit 3 x;
          s1 = word_rotr 17 y XOR word_rotr 19 y XOR drop_bit 10 y
      in w @ [w ! (index - 16) + s0 + w ! (index - 7) + s1])"

definition schedule :: "bytes \<Rightarrow> u32 list" where
  "schedule block = (schedule_step ^^ 48) (block_words block)"

fun sha_round :: "u32 \<times> u32 \<Rightarrow> u32 list \<Rightarrow> u32 list" where
  "sha_round (k, w) [a, b, c, d, e, f, g, h] =
     (let sum1 = word_rotr 6 e XOR word_rotr 11 e XOR word_rotr 25 e;
          choice = (e AND f) XOR (NOT e AND g);
          temporary1 = h + sum1 + choice + k + w;
          sum0 = word_rotr 2 a XOR word_rotr 13 a XOR word_rotr 22 a;
          majority = (a AND b) XOR (a AND c) XOR (b AND c);
          temporary2 = sum0 + majority
      in [temporary1 + temporary2, a, b, c, d + temporary1, e, f, g])"
| "sha_round _ state = state"

definition compress :: "u32 list \<Rightarrow> bytes \<Rightarrow> u32 list" where
  "compress state block = map2 (+) state (fold sha_round (zip ROUND_CONSTANTS (schedule block)) state)"

section \<open>The hasher\<close>

record sha256 =
  sh_state :: "u32 list"
  sh_block :: bytes
  sh_block_len :: nat
  sh_bytes_seen :: u64

definition sha_new :: sha256 where
  "sha_new = \<lparr>sh_state = INITIAL_STATE, sh_block = replicate 64 (char_of (0::nat)), sh_block_len = 0, sh_bytes_seen = 0\<rparr>"

text \<open>\<open>block[at..at + len].copy_from_slice\<close>.\<close>

definition write_at :: "nat \<Rightarrow> 'a list \<Rightarrow> 'a list \<Rightarrow> 'a list" where
  "write_at i xs ys = take i ys @ xs @ drop (i + length xs) ys"

text \<open>Whole blocks are compressed, the rest is returned.\<close>

function absorb :: "u32 list \<Rightarrow> bytes \<Rightarrow> u32 list \<times> bytes" where
  "absorb state input =
     (if length input < 64 then (state, input) else absorb (compress state (take 64 input)) (drop 64 input))"
  by pat_completeness auto
termination by (relation "measure (length \<circ> snd)") auto

declare absorb.simps [simp del]

definition absorb_rest :: "sha256 \<Rightarrow> bytes \<Rightarrow> sha256" where
  "absorb_rest s input =
     (case absorb (sh_state s) input of
        (state, remainder) \<Rightarrow>
          s\<lparr>sh_state := state, sh_block := write_at 0 remainder (sh_block s), sh_block_len := length remainder\<rparr>)"

definition sha_update :: "sha256 \<Rightarrow> bytes \<Rightarrow> sha256 unwind" where
  "sha_update s input =
     (case checked_add (sh_bytes_seen s) (of_nat (length input)) of
        None \<Rightarrow> Panicked
      | Some seen \<Rightarrow>
          (let s1 = s\<lparr>sh_bytes_seen := seen\<rparr> in
           if sh_block_len s1 \<noteq> 0
           then (let copied = min (64 - sh_block_len s1) (length input);
                     s2 = s1\<lparr>sh_block := write_at (sh_block_len s1) (take copied input) (sh_block s1),
                            sh_block_len := sh_block_len s1 + copied\<rparr>;
                     rest = drop copied input
                 in if sh_block_len s2 = 64
                    then Returned (absorb_rest (s2\<lparr>sh_state := compress (sh_state s2) (sh_block s2), sh_block_len := 0\<rparr>) rest)
                    else Returned s2)
           else Returned (absorb_rest s1 input)))"

definition sha_finalize :: "sha256 \<Rightarrow> bytes unwind" where
  "sha_finalize s =
     (case checked_mul (sh_bytes_seen s) 8 of
        None \<Rightarrow> Panicked
      | Some message_bits \<Rightarrow>
          (let block = write_at (sh_block_len s) [char_of (128::nat)] (sh_block s);
               len = sh_block_len s + 1;
               (state, padded) =
                 (if 56 < len
                  then (compress (sh_state s) (write_at len (replicate (64 - len) (char_of (0::nat))) block),
                        replicate 64 (char_of (0::nat)))
                  else (sh_state s, write_at len (replicate (56 - len) (char_of (0::nat))) block));
               final = write_at 56 (be_bytes 8 (unat message_bits)) padded
           in Returned (concat (map (\<lambda>w. be_bytes 4 (unat w)) (compress state final)))))"

definition digest_bytes :: "bytes \<Rightarrow> bytes unwind" where
  "digest_bytes input = (case sha_update sha_new input of Panicked \<Rightarrow> Panicked | Returned s \<Rightarrow> sha_finalize s)"

text \<open>A reader is the list of what its reads give: an error, or bytes (none at the end, as after it).\<close>

fun digest_loop :: "sha256 \<Rightarrow> u64 \<Rightarrow> (bytes + bytes) list \<Rightarrow> (bytes + bytes \<times> u64) unwind" where
  "digest_loop s n (Inl e # _) = Returned (Err e)"
| "digest_loop s n (Inr [] # _) =
     (case sha_finalize s of Panicked \<Rightarrow> Panicked | Returned d \<Rightarrow> Returned (Ok (d, n)))"
| "digest_loop s n [] =
     (case sha_finalize s of Panicked \<Rightarrow> Panicked | Returned d \<Rightarrow> Returned (Ok (d, n)))"
| "digest_loop s n (Inr data # reads) =
     (case checked_add n (of_nat (length data)) of
        None \<Rightarrow> Returned (Err ''hashed byte count overflowed'')
      | Some n' \<Rightarrow>
          (case sha_update s data of Panicked \<Rightarrow> Panicked | Returned s' \<Rightarrow> digest_loop s' n' reads))"

definition digest_reader :: "nat \<Rightarrow> (bytes + bytes) list \<Rightarrow> (bytes + bytes \<times> u64) unwind" where
  "digest_reader buffer_bytes reads =
     (if buffer_bytes = 0 then Returned (Err ''SHA-256 buffer size must be greater than zero'')
      else digest_loop sha_new 0 reads)"

definition hex_digit :: "nat \<Rightarrow> byte" where
  "hex_digit n = (if n < 10 then char_of (48 + n) else char_of (87 + n))"

definition to_hex :: "bytes \<Rightarrow> bytes" where
  "to_hex digest = concat (map (\<lambda>c. [hex_digit (bv c div 16), hex_digit (bv c mod 16)]) digest)"

section \<open>The digest of a whole message\<close>

definition sha_padding :: "nat \<Rightarrow> bytes" where
  "sha_padding n = char_of (128::nat) # replicate ((119 - n mod 64) mod 64) (char_of (0::nat)) @ be_bytes 8 (n * 8)"

definition sha256_digest :: "bytes \<Rightarrow> bytes" where
  "sha256_digest message =
     concat (map (\<lambda>w. be_bytes 4 (unat w)) (fst (absorb INITIAL_STATE (message @ sha_padding (length message)))))"

section \<open>The block buffer\<close>

lemma length_write_at [simp]: "i + length xs \<le> length ys \<Longrightarrow> length (write_at i xs ys) = length ys"
  by (simp add: write_at_def)

lemma take_write_at: "i + length xs \<le> length ys \<Longrightarrow> take (i + length xs) (write_at i xs ys) = take i ys @ xs"
  by (simp add: write_at_def)

lemma absorb_short: "length input < 64 \<Longrightarrow> absorb state input = (state, input)"
  by (subst absorb.simps) simp

lemma absorb_block: "length block = 64 \<Longrightarrow> absorb state (block @ rest) = absorb (compress state block) rest"
  by (subst absorb.simps) simp

lemma absorb_rest_short: "length (snd (absorb state input)) < 64"
  by (induction state input rule: absorb.induct) (subst absorb.simps, simp)

lemma absorb_append: "absorb state (a @ b) = (case absorb state a of (s, r) \<Rightarrow> absorb s (r @ b))"
proof (induction state a rule: absorb.induct)
  case (1 state a)
  show ?case
  proof (cases "length a < 64")
    case True
    then show ?thesis by (simp add: absorb_short)
  next
    case False
    have "absorb state (a @ b) = absorb state (take 64 a @ (drop 64 a @ b))"
      by (metis append.assoc append_take_drop_id)
    also have "\<dots> = absorb (compress state (take 64 a)) (drop 64 a @ b)"
      using False by (subst absorb_block) auto
    also have "\<dots> = (case absorb state a of (s, r) \<Rightarrow> absorb s (r @ b))"
      using 1 False absorb.simps [of state a] by simp
    finally show ?thesis .
  qed
qed

text \<open>A hasher that has seen a message.\<close>

definition has_seen :: "bytes \<Rightarrow> sha256 \<Rightarrow> bool" where
  "has_seen m s \<longleftrightarrow> length (sh_block s) = 64 \<and> sh_block_len s < 64 \<and>
     absorb INITIAL_STATE m = (sh_state s, take (sh_block_len s) (sh_block s)) \<and>
     unat (sh_bytes_seen s) = length m"

lemma has_seen_new: "has_seen [] sha_new"
  by (simp add: has_seen_def sha_new_def absorb_short)

lemma absorb_rest_seen:
  assumes "absorb (sh_state s) input = absorb INITIAL_STATE m" and "length (sh_block s) = 64"
    and "unat (sh_bytes_seen s) = length m"
  shows "has_seen m (absorb_rest s input)"
proof -
  obtain state r where a: "absorb (sh_state s) input = (state, r)" by fastforce
  then have r: "length r < 64" using absorb_rest_short [of "sh_state s" input] by simp
  have "absorb INITIAL_STATE m = (state, r)" using a assms(1) by simp
  then show ?thesis
    using assms(2,3) r take_write_at [of 0 r "sh_block s"] by (simp add: has_seen_def absorb_rest_def a)
qed

lemma update_seen:
  assumes "has_seen m s" and "length m + length input < 2 ^ 64"
  shows "\<exists>s'. sha_update s input = Returned s' \<and> has_seen (m @ input) s'"
proof -
  have seen: "unat (sh_bytes_seen s) = length m" "length (sh_block s) = 64" "sh_block_len s < 64"
    and abs: "absorb INITIAL_STATE m = (sh_state s, take (sh_block_len s) (sh_block s))"
    using assms(1) by (simp_all add: has_seen_def)
  have len: "unat (of_nat (length input) :: u64) = length input"
    using assms(2) by (simp add: unat_of_nat)
  define n where "n = sh_bytes_seen s + of_nat (length input)"
  have n: "checked_add (sh_bytes_seen s) (of_nat (length input)) = Some n" "unat n = length (m @ input)"
    using assms(2) by (simp_all add: n_def checked_add_def seen len unat_word_ariths)
  let ?k = "sh_block_len s"
  have all: "absorb INITIAL_STATE (m @ input) = absorb (sh_state s) (take ?k (sh_block s) @ input)"
    using absorb_append [of INITIAL_STATE m input] by (simp add: abs)
  show ?thesis
  proof (cases "?k = 0")
    case True
    have "sha_update s input = Returned (absorb_rest (s\<lparr>sh_bytes_seen := n\<rparr>) input)"
      by (simp add: sha_update_def n(1) True)
    moreover have "has_seen (m @ input) (absorb_rest (s\<lparr>sh_bytes_seen := n\<rparr>) input)"
      using all n(2) by (intro absorb_rest_seen) (simp_all add: seen True)
    ultimately show ?thesis by blast
  next
    case False
    define copied where "copied = min (64 - ?k) (length input)"
    define block where "block = write_at ?k (take copied input) (sh_block s)"
    have le: "copied \<le> length input" "?k + copied \<le> 64" using seen(3) by (simp_all add: copied_def)
    have block: "length block = 64" "take (?k + copied) block = take ?k (sh_block s) @ take copied input"
      using seen(2) le take_write_at [of ?k "take copied input" "sh_block s"] by (simp_all add: block_def)
    have upd: "sha_update s input = Returned (if ?k + copied = 64
        then absorb_rest (s\<lparr>sh_bytes_seen := n, sh_block := block,
            sh_state := compress (sh_state s) block, sh_block_len := 0\<rparr>) (drop copied input)
        else s\<lparr>sh_bytes_seen := n, sh_block := block, sh_block_len := ?k + copied\<rparr>)"
      using False by (simp add: sha_update_def n(1) Let_def copied_def [symmetric] block_def [symmetric])
    show ?thesis
    proof (cases "?k + copied = 64")
      case True
      then have "take ?k (sh_block s) @ take copied input = block" using block by simp
      then have "take ?k (sh_block s) @ input = block @ drop copied input"
        by (metis append.assoc append_take_drop_id)
      then have "absorb INITIAL_STATE (m @ input) = absorb (compress (sh_state s) block) (drop copied input)"
        using absorb_block [OF block(1)] all by simp
      then have "has_seen (m @ input) (absorb_rest (s\<lparr>sh_bytes_seen := n, sh_block := block,
            sh_state := compress (sh_state s) block, sh_block_len := 0\<rparr>) (drop copied input))"
        using n(2) block(1) by (intro absorb_rest_seen) simp_all
      then show ?thesis using upd True by simp
    next
      case short: False
      then have c: "copied = length input" "?k + copied < 64" using le seen(3) by (auto simp: copied_def)
      have "absorb INITIAL_STATE (m @ input) = (sh_state s, take (?k + copied) block)"
        using all seen(3) c block(2) by (simp add: absorb_short)
      then have "has_seen (m @ input) (s\<lparr>sh_bytes_seen := n, sh_block := block, sh_block_len := ?k + copied\<rparr>)"
        using block(1) c(2) n(2) by (simp add: has_seen_def)
      then show ?thesis using upd short by simp
    qed
  qed
qed

lemma finalize_seen:
  assumes "has_seen m s" and "length m < 2 ^ 61"
  shows "sha_finalize s = Returned (sha256_digest m)"
proof -
  let ?k = "sh_block_len s" and ?z = "char_of (0::nat) :: byte" and ?one = "char_of (128::nat) :: byte"
  let ?bits = "be_bytes 8 (length m * 8)"
  define r where "r = take ?k (sh_block s)"
  define block where "block = write_at ?k [?one] (sh_block s)"
  have seen: "unat (sh_bytes_seen s) = length m" "length (sh_block s) = 64" "?k < 64"
    and abs: "absorb INITIAL_STATE m = (sh_state s, r)"
    using assms(1) by (simp_all add: has_seen_def r_def)
  define w where "w = sh_bytes_seen s * 8"
  have mul: "checked_mul (sh_bytes_seen s) 8 = Some w" and bits: "unat w = length m * 8"
    using assms(2) by (simp_all add: checked_mul_def seen w_def unat_word_ariths)
  have r: "length r = ?k" using seen by (simp add: r_def)
  have block: "length block = 64" "take (?k + 1) block = r @ [?one]"
    using seen take_write_at [of ?k "[?one]" "sh_block s"] by (simp_all add: block_def r_def)
  have km: "length m mod 64 = ?k"
  proof -
    have "length r mod 64 = length m mod 64 \<and> length r < 64" if "absorb st x = (st', r)" "length x mod 64 = length m mod 64"
      for st x st' r
      using that
    proof (induction st x rule: absorb.induct)
      case (1 st x)
      show ?case
      proof (cases "length x < 64")
        case True
        then show ?thesis using 1 by (simp add: absorb_short)
      next
        case False
        then have "absorb (compress st (take 64 x)) (drop 64 x) = (st', r)"
          using 1(2) absorb.simps [of st x] by simp
        moreover have "(length x - 64) mod 64 = length x mod 64"
          using False by (simp add: le_mod_geq)
        ultimately show ?thesis using 1 False by simp
      qed
    qed
    from this [OF abs] r show ?thesis by (metis mod_less)
  qed
  have eight: "length ?bits = 8" by (simp add: be_bytes_def)
  have pad: "absorb INITIAL_STATE (m @ sha_padding (length m)) = absorb (sh_state s) (r @ sha_padding (length m))"
    using absorb_append [of INITIAL_STATE m "sha_padding (length m)"] by (simp add: abs)
  have last: "fst (absorb st b) = compress st b" if "length b = 64" for st b
    using absorb_block [OF that, of st "[]"] by (simp add: absorb_short)
  show ?thesis
  proof (cases "56 < ?k + 1")
    case True
    have z: "(119 - ?k) mod 64 = (63 - ?k) + 56" using True seen(3) by simp
    define first where "first = write_at (?k + 1) (replicate (63 - ?k) ?z) block"
    have first: "first = r @ [?one] @ replicate (63 - ?k) ?z"
      using block True seen(3) by (simp add: first_def write_at_def)
    define second where "second = write_at 56 ?bits (replicate 64 ?z)"
    have second: "second = replicate 56 ?z @ ?bits"
      using eight by (simp add: second_def write_at_def)
    have "r @ sha_padding (length m) = first @ second"
      by (simp add: sha_padding_def km z first second replicate_add)
    moreover have "length first = 64" using r seen(3) by (simp add: first)
    ultimately have "fst (absorb (sh_state s) (r @ sha_padding (length m))) = compress (compress (sh_state s) first) second"
      using absorb_block [of first] last [of second] eight by (simp add: second)
    moreover have "sha_finalize s = Returned (concat (map (\<lambda>w. be_bytes 4 (unat w))
        (compress (compress (sh_state s) first) second)))"
      using True by (simp add: sha_finalize_def mul bits Let_def block_def [symmetric] first_def second_def)
    ultimately show ?thesis by (simp add: sha256_digest_def pad)
  next
    case False
    have z: "(119 - ?k) mod 64 = 55 - ?k" using False by (simp add: le_mod_geq)
    define padded where "padded = write_at (?k + 1) (replicate (55 - ?k) ?z) block"
    have padded: "length padded = 64" "take 56 padded = r @ [?one] @ replicate (55 - ?k) ?z"
      using block False take_write_at [of "?k + 1" "replicate (55 - ?k) ?z" block] by (simp_all add: padded_def)
    define final where "final = write_at 56 ?bits padded"
    have final: "final = r @ sha_padding (length m)"
      using padded eight by (simp add: final_def write_at_def sha_padding_def km z)
    then have "length final = 64" using eight False r by (simp add: sha_padding_def km z)
    then have "fst (absorb (sh_state s) (r @ sha_padding (length m))) = compress (sh_state s) final"
      using last final by simp
    moreover have "sha_finalize s = Returned (concat (map (\<lambda>w. be_bytes 4 (unat w)) (compress (sh_state s) final)))"
      using False by (simp add: sha_finalize_def mul bits Let_def block_def [symmetric] final_def padded_def)
    ultimately show ?thesis by (simp add: sha256_digest_def pad)
  qed
qed

text \<open>What \<open>digest_bytes\<close> returns, when it does: eight words of four bytes.\<close>

lemma sha_round_length: "length s = 8 \<Longrightarrow> length (sha_round kw s) = 8"
  by (cases "(kw, s)" rule: sha_round.cases) (simp_all add: Let_def)

lemma fold_sha_round_length: "length s = 8 \<Longrightarrow> length (fold sha_round kws s) = 8"
  by (induction kws arbitrary: s) (simp_all add: sha_round_length)

lemma absorb_length: "length s = 8 \<Longrightarrow> length (fst (absorb s input)) = 8"
proof (induction s input rule: absorb.induct)
  case (1 s input)
  then show ?case by (subst absorb.simps) (simp add: compress_def fold_sha_round_length)
qed

lemma length_concat_const: "(\<And>x. length (f x) = n) \<Longrightarrow> length (concat (map f xs)) = length xs * n"
  by (induction xs) simp_all

lemma sha256_digest_length [simp]: "length (sha256_digest m) = 32"
proof -
  have "length (concat (map (\<lambda>w :: u32. be_bytes 4 (unat w)) ws)) = length ws * 4" for ws
    by (rule length_concat_const) (simp add: be_bytes_def)
  then show ?thesis
    using absorb_length [of INITIAL_STATE "m @ sha_padding (length m)"] by (simp add: sha256_digest_def INITIAL_STATE_def)
qed

lemma digest_bytes_Returned:
  assumes "digest_bytes m = Returned d" and "length m < 2 ^ 64"
  shows "d = sha256_digest m"
proof -
  obtain s where s: "sha_update sha_new m = Returned s" "has_seen m s"
    using update_seen [OF has_seen_new, of m] assms(2) by auto
  then have fin: "sha_finalize s = Returned d" using assms(1) by (simp add: digest_bytes_def)
  then have "unat (sh_bytes_seen s) * 8 < 2 ^ 64"
    by (auto simp: sha_finalize_def checked_mul_def split: if_splits)
  then have "length m < 2 ^ 61" using s(2) by (simp add: has_seen_def)
  then show ?thesis using finalize_seen [OF s(2)] fin by simp
qed

lemma digest_bytes_short: "length m < 2 ^ 61 \<Longrightarrow> digest_bytes m = Returned (sha256_digest m)"
  using update_seen [OF has_seen_new, of m] finalize_seen [of m] by (auto simp: digest_bytes_def)

text \<open>A digest that comes out of the loop is the digest of everything read.\<close>

lemma digest_loop_Ok:
  assumes "has_seen m s" and "unat n = length m" and "\<forall>r \<in> set reads. r \<noteq> [] \<and> length r < 2 ^ 64"
    and "digest_loop s n (map Inr reads) = Returned (Ok (d, n'))"
  shows "d = sha256_digest (m @ concat reads)"
  using assms
proof (induction reads arbitrary: m s n)
  case Nil
  then have fin: "sha_finalize s = Returned d" by (simp split: unwind.splits)
  then have "unat (sh_bytes_seen s) * 8 < 2 ^ 64"
    by (auto simp: sha_finalize_def checked_mul_def split: if_splits)
  then have "length m < 2 ^ 61" using Nil.prems(1) by (simp add: has_seen_def)
  then show ?case using finalize_seen [OF Nil.prems(1)] fin by simp
next
  case (Cons r reads)
  obtain c cs where r: "r = c # cs" using Cons.prems(3) by (cases r) auto
  have "length r < 2 ^ 64" using Cons.prems(3) by simp
  then have len: "unat (of_nat (length r) :: u64) = length r" by (simp add: unat_of_nat)
  obtain n1 where n1: "checked_add n (of_nat (length r)) = Some n1"
    using Cons.prems(4) by (cases "checked_add n (of_nat (length r))") (auto simp: r)
  have n: "unat n1 = length (m @ r)"
    using checked_add_Some [OF n1] len Cons.prems(2) by simp
  moreover have "unat n1 < 2 ^ LENGTH(64)" by (rule unsigned_less)
  ultimately have "length m + length r < 2 ^ 64" by simp
  then obtain s1 where s1: "sha_update s r = Returned s1" "has_seen (m @ r) s1"
    using update_seen [OF Cons.prems(1)] by blast
  have "digest_loop s1 n1 (map Inr reads) = Returned (Ok (d, n'))"
    using Cons.prems(4) n1 s1(1) by (simp add: r)
  then show ?case using Cons.IH [OF s1(2) n] Cons.prems(3) by simp
qed

section \<open>Properties\<close>

lemma digest_loop_seen:
  assumes "has_seen m s" and "unat n = length m" and "\<forall>r \<in> set reads. r \<noteq> []"
    and "length m + length (concat reads) < 2 ^ 61"
  shows "digest_loop s n (map Inr reads) =
    Returned (Ok (sha256_digest (m @ concat reads), of_nat (length m + length (concat reads))))"
  using assms
proof (induction reads arbitrary: m s n)
  case Nil
  have "n = of_nat (length m)" using Nil.prems(2) by (auto dest: sym)
  then show ?case using finalize_seen [OF Nil.prems(1)] Nil.prems(4) by simp
next
  case (Cons r reads)
  obtain c cs where r: "r = c # cs" using Cons.prems(3) by (cases r) auto
  have len: "unat (of_nat (length r) :: u64) = length r" using Cons.prems(4) by (simp add: unat_of_nat)
  have n: "checked_add n (of_nat (length r)) = Some (n + of_nat (length r))"
      "unat (n + of_nat (length r)) = length (m @ r)"
    using Cons.prems(4) by (simp_all add: checked_add_def Cons.prems(2) len unat_word_ariths)
  obtain s' where s': "sha_update s r = Returned s'" "has_seen (m @ r) s'"
    using update_seen [OF Cons.prems(1), of r] Cons.prems(4) by auto
  have "digest_loop s n (map Inr (r # reads)) = digest_loop s' (n + of_nat (length r)) (map Inr reads)"
    using n(1) s'(1) by (simp add: r)
  also have "\<dots> = Returned (Ok (sha256_digest ((m @ r) @ concat reads), of_nat (length (m @ r) + length (concat reads))))"
    using Cons.prems by (intro Cons.IH [OF s'(2) n(2)]) simp_all
  finally show ?case by (simp add: add.assoc)
qed

text \<open>C24: hashing a reader gives the digest of everything read and its length, whatever the sizes of the
  reads; hashing the same bytes at once gives the same digest, which is that of the padded message.\<close>

theorem sha256_incremental:
  assumes "0 < buffer_bytes" and "\<forall>r \<in> set reads. r \<noteq> []" and "length (concat reads) < 2 ^ 61"
  shows "digest_reader buffer_bytes (map Inr reads) =
      Returned (Ok (sha256_digest (concat reads), of_nat (length (concat reads)))) \<and>
    digest_bytes (concat reads) = Returned (sha256_digest (concat reads))"
proof -
  have "digest_loop sha_new 0 (map Inr reads) =
      Returned (Ok (sha256_digest ([] @ concat reads), of_nat (length ([] :: bytes) + length (concat reads))))"
    by (rule digest_loop_seen [OF has_seen_new]) (use assms in simp_all)
  then show ?thesis
    using assms(1) digest_bytes_short [OF assms(3)] by (simp add: digest_reader_def)
qed

lemma sha256_incremental_witness:
  "digest_reader 2 (map Inr [''ab'', ''c'']) = Returned (Ok (sha256_digest ''abc'', 3)) \<and>
     digest_bytes ''abc'' = Returned (sha256_digest ''abc'')"
  using sha256_incremental [of 2 "[''ab'', ''c'']"] by simp

end
