(* ===== verification/NtContract.thy ===== *)
theory NtContract
  imports NtTokenizer NtSha Json
begin

text \<open>
  The weight contract of \<open>contract.rs\<close>: the tensors a checkpoint must have, read from an inventory, and
  the check of a checkpoint against it. A checkpoint is the list of its tensors as the
  \<open>safetensors\<close> crate gives them. A list or value that a message shows is appended to it plainly.
\<close>

section \<open>Types\<close>

datatype weight_dtype = DtBf16 | DtF32 | DtOther bytes

fun dtype_debug :: "weight_dtype \<Rightarrow> bytes" where
  "dtype_debug DtBf16 = ''BF16''"
| "dtype_debug DtF32 = ''F32''"
| "dtype_debug (DtOther s) = s"

datatype codec_weight_dtype = CodecF32 | CodecBf16

definition codec_dtype_parse :: "bytes \<Rightarrow> anyhow + codec_weight_dtype" where
  "codec_dtype_parse value =
     (if value = ''f32'' then Ok CodecF32 else if value = ''bf16'' then Ok CodecBf16
      else Err (Message (''unsupported codec weight dtype '' @ value @ ''; expected f32 or bf16'')))"

fun codec_dtype_label :: "codec_weight_dtype \<Rightarrow> bytes" where
  "codec_dtype_label CodecF32 = ''F32''"
| "codec_dtype_label CodecBf16 = ''BF16''"

fun codec_safetensors_dtype :: "codec_weight_dtype \<Rightarrow> weight_dtype" where
  "codec_safetensors_dtype CodecF32 = DtF32"
| "codec_safetensors_dtype CodecBf16 = DtBf16"

record tensor_spec =
  tp_name :: bytes
  tp_dtype :: weight_dtype
  tp_shape :: "nat list"
  tp_parameters :: nat
  tp_bytes :: nat

record tensor_contract =
  ct_label :: bytes
  ct_tensors :: "(bytes \<times> tensor_spec) list"
  ct_tensor_count :: nat
  ct_parameter_count :: nat
  ct_payload_bytes :: nat
  ct_exact_file_bytes :: "nat option"

record contract_summary =
  su_tensor_count :: nat
  su_parameter_count :: nat
  su_payload_bytes :: nat

text \<open>A tensor of a checkpoint.\<close>

record st_tensor =
  sx_dtype :: weight_dtype
  sx_shape :: "nat list"
  sx_data :: bytes

type_synonym checkpoint = "(bytes \<times> st_tensor) list"

text \<open>\<open>u64\<close> sums and products.\<close>

definition u64_add :: "nat \<Rightarrow> nat \<Rightarrow> nat option" where
  "u64_add a b = (if a + b \<le> u64_max then Some (a + b) else None)"

definition u64_mul :: "nat \<Rightarrow> nat \<Rightarrow> nat option" where
  "u64_mul a b = (if a * b \<le> u64_max then Some (a * b) else None)"

definition or_message :: "'a option \<Rightarrow> bytes \<Rightarrow> anyhow + 'a" where
  "or_message v m = ok_or v (Message m)"

lemma or_message_Ok [simp]: "or_message v m = Ok x \<longleftrightarrow> v = Some x"
  by (cases v) (simp_all add: or_message_def ok_or_def)

section \<open>Reading an inventory\<close>

definition parse_dtype :: "bytes \<Rightarrow> anyhow + weight_dtype" where
  "parse_dtype label =
     (if label = ''BF16'' then Ok DtBf16 else if label = ''F32'' then Ok DtF32
      else Err (Message (''unsupported inventory dtype '' @ label)))"

fun bytes_per_element :: "weight_dtype \<Rightarrow> anyhow + nat" where
  "bytes_per_element DtBf16 = Ok 2"
| "bytes_per_element DtF32 = Ok 4"
| "bytes_per_element (DtOther s) = Err (Message (''unsupported contract dtype '' @ s))"

fun shape_dims :: "bytes \<Rightarrow> json list \<Rightarrow> anyhow + nat list" where
  "shape_dims what [] = Ok []"
| "shape_dims what (v # vs) =
     and_then (or_message (as_u64 v) (what @ '' dimension is invalid'')) (\<lambda>d.
     and_then (shape_dims what vs) (\<lambda>ds. Ok (d # ds)))"

fun shape_product :: "bytes \<Rightarrow> nat \<Rightarrow> nat list \<Rightarrow> anyhow + nat" where
  "shape_product what acc [] = Ok acc"
| "shape_product what acc (d # ds) =
     and_then (or_message (u64_mul acc d) (what @ '' shape overflows'')) (\<lambda>p. shape_product what p ds)"

text \<open>One entry of an inventory.\<close>

definition inventory_spec :: "bytes \<Rightarrow> weight_dtype option \<Rightarrow> bytes \<Rightarrow> json \<Rightarrow> anyhow + tensor_spec" where
  "inventory_spec label dtype_override name e =
     (let what = label @ '' tensor '' @ name in
      and_then (or_message (as_str (json_get e ''dtype'')) (what @ '' has no dtype'')) (\<lambda>dtype_name.
      and_then (parse_dtype dtype_name) (\<lambda>source_dtype.
      let dtype = (case dtype_override of Some d \<Rightarrow> d | None \<Rightarrow> source_dtype) in
      and_then (or_message (as_array (json_get e ''shape'')) (what @ '' shape is not an array'')) (\<lambda>dims.
      and_then (shape_dims what dims) (\<lambda>shape.
      and_then (shape_product what 1 shape) (\<lambda>parameters.
      and_then (or_message (as_u64 (json_get e ''parameters'')) (what @ '' has no parameter count'')) (\<lambda>claimed.
      if parameters \<noteq> claimed
      then Err (Message (what @ '' shape has '' @ show_nat parameters @ '' parameters, inventory claims '' @ show_nat claimed))
      else
      and_then (bytes_per_element dtype) (\<lambda>width.
      and_then (or_message (u64_mul parameters width) (what @ '' byte count overflows'')) (\<lambda>size_bytes.
      and_then (case dtype_override of Some _ \<Rightarrow> Ok () | None \<Rightarrow>
          and_then (or_message (as_u64 (json_get e ''bytes'')) (what @ '' has no byte count'')) (\<lambda>inventory_bytes.
          ensure (size_bytes = inventory_bytes)
            (what @ '' dtype/shape implies '' @ show_nat size_bytes @ '' bytes, inventory claims '' @ show_nat inventory_bytes)))
        (\<lambda>_. Ok \<lparr>tp_name = name, tp_dtype = dtype, tp_shape = shape, tp_parameters = parameters, tp_bytes = size_bytes\<rparr>))))))))))"

fun inventory_entries :: "bytes \<Rightarrow> (bytes \<Rightarrow> bool) \<Rightarrow> weight_dtype option \<Rightarrow> (bytes \<times> tensor_spec) list \<Rightarrow> nat \<Rightarrow> nat \<Rightarrow>
    json list \<Rightarrow> anyhow + (bytes \<times> tensor_spec) list \<times> nat \<times> nat" where
  "inventory_entries label wanted dtype_override tensors params payload [] = Ok (tensors, params, payload)"
| "inventory_entries label wanted dtype_override tensors params payload (e # rest) =
     and_then (or_message (as_str (json_get e ''name'')) (label @ '' inventory tensor has no name'')) (\<lambda>name.
     if \<not> wanted name then inventory_entries label wanted dtype_override tensors params payload rest
     else and_then (inventory_spec label dtype_override name e) (\<lambda>spec.
       if name \<in> fst ` set tensors
       then Err (Message (label @ '' inventory contains duplicate tensor '' @ name))
       else and_then (or_message (u64_add params (tp_parameters spec)) ''contract parameter count overflowed'') (\<lambda>params'.
            and_then (or_message (u64_add payload (tp_bytes spec)) ''contract payload byte count overflowed'') (\<lambda>payload'.
            inventory_entries label wanted dtype_override (bt_insert name spec tensors) params' payload' rest))))"

definition parse_inventory :: "anyhow + json \<Rightarrow> bytes \<Rightarrow> (bytes \<Rightarrow> bool) \<Rightarrow> weight_dtype option \<Rightarrow> bool \<Rightarrow>
    anyhow + tensor_contract" where
  "parse_inventory parsed label wanted dtype_override retain_exact_file_bytes =
     and_then (map_err (Context (''embedded '' @ label @ '' inventory is invalid JSON'')) parsed) (\<lambda>inventory.
     and_then (or_message (as_array (json_get inventory ''tensors'')) (label @ '' inventory has no tensor array'')) (\<lambda>es.
     and_then (inventory_entries label wanted dtype_override [] 0 0 es) (\<lambda>(tensors, params, payload).
     and_then (ensure (tensors \<noteq> []) (label @ '' contract selected no tensors'')) (\<lambda>_.
     and_then (if retain_exact_file_bytes
         then and_then (or_message (as_u64 (json_get inventory ''file_bytes'')) (label @ '' inventory has no file_bytes'')) (\<lambda>n.
           Ok (Some n))
         else Ok None) (\<lambda>exact.
     Ok \<lparr>ct_label = label, ct_tensors = tensors, ct_tensor_count = length tensors, ct_parameter_count = params,
         ct_payload_bytes = payload, ct_exact_file_bytes = exact\<rparr>)))))"

definition voice_design_contract :: "anyhow + json \<Rightarrow> anyhow + tensor_contract" where
  "voice_design_contract inventory = parse_inventory inventory ''voice-design-1.7b'' (\<lambda>_. True) None True"

definition speech_tokenizer_contract :: "anyhow + json \<Rightarrow> anyhow + tensor_contract" where
  "speech_tokenizer_contract inventory = parse_inventory inventory ''speech-tokenizer'' (\<lambda>_. True) None True"

definition speech_decoder_contract :: "anyhow + json \<Rightarrow> codec_weight_dtype \<Rightarrow> anyhow + tensor_contract" where
  "speech_decoder_contract inventory dtype =
     parse_inventory inventory
       (case dtype of CodecF32 \<Rightarrow> ''speech-decoder-f32'' | CodecBf16 \<Rightarrow> ''speech-decoder-bf16'')
       (starts_with ''decoder.'') (Some (codec_safetensors_dtype dtype)) False"

section \<open>Checking a checkpoint\<close>

definition validate_tensor :: "bytes \<Rightarrow> bytes \<Rightarrow> tensor_spec \<Rightarrow> st_tensor \<Rightarrow> anyhow + unit" where
  "validate_tensor label name spec t =
     (let what = label @ '' tensor '' @ name in
      if sx_dtype t \<noteq> tp_dtype spec
      then Err (Message (what @ '' dtype mismatch: expected '' @ dtype_debug (tp_dtype spec) @ '', found '' @ dtype_debug (sx_dtype t)))
      else if sx_shape t \<noteq> tp_shape spec
      then Err (Message (what @ '' shape mismatch: expected '' @ concat (map show_nat (tp_shape spec)) @ '', found ''
        @ concat (map show_nat (sx_shape t))))
      else if length (sx_data t) \<noteq> tp_bytes spec
      then Err (Message (what @ '' byte mismatch: expected '' @ show_nat (tp_bytes spec) @ '', found '' @ show_nat (length (sx_data t))))
      else Ok ())"

fun validate_each :: "bytes \<Rightarrow> checkpoint \<Rightarrow> nat \<Rightarrow> nat \<Rightarrow> (bytes \<times> tensor_spec) list \<Rightarrow> anyhow + nat \<times> nat" where
  "validate_each label tensors params payload [] = Ok (params, payload)"
| "validate_each label tensors params payload ((name, spec) # rest) =
     and_then (or_message (map_of tensors name) (label @ '' is missing tensor '' @ name)) (\<lambda>t.
     and_then (validate_tensor label name spec t) (\<lambda>_.
     and_then (or_message (u64_add params (tp_parameters spec)) ''contract parameter count overflowed'') (\<lambda>params'.
     and_then (or_message (u64_add payload (tp_bytes spec)) ''contract payload byte count overflowed'') (\<lambda>payload'.
     validate_each label tensors params' payload' rest))))"

definition validate_tensors :: "checkpoint \<Rightarrow> tensor_contract \<Rightarrow> anyhow + contract_summary" where
  "validate_tensors tensors contract =
     (if length tensors \<noteq> ct_tensor_count contract
      then Err (Message (ct_label contract @ '' tensor count mismatch: expected '' @ show_nat (ct_tensor_count contract)
        @ '', found '' @ show_nat (length tensors)))
      else if fst ` set tensors \<noteq> fst ` set (ct_tensors contract)
      then Err (Message (ct_label contract @ '' tensor names differ; missing ''
        @ concat (take 8 (filter (\<lambda>n. n \<notin> fst ` set tensors) (map fst (ct_tensors contract)))) @ '', unexpected ''
        @ concat (take 8 (filter (\<lambda>n. n \<notin> fst ` set (ct_tensors contract)) (sort (map fst tensors))))))
      else and_then (validate_each (ct_label contract) tensors 0 0 (ct_tensors contract)) (\<lambda>(params, payload).
        if params \<noteq> ct_parameter_count contract \<or> payload \<noteq> ct_payload_bytes contract
        then Err (Message (ct_label contract @ '' aggregate totals do not match its contract''))
        else Ok \<lparr>su_tensor_count = length tensors, su_parameter_count = params, su_payload_bytes = payload\<rparr>))"

section \<open>What a contract guarantees\<close>

lemma shape_product_Ok: "shape_product what acc ds = Ok n \<Longrightarrow> n = acc * prod_list ds"
  by (induction what acc ds rule: shape_product.induct)
    (fastforce simp: and_then_Ok_iff u64_mul_def mult.assoc split: if_splits)+

definition spec_ok :: "bytes \<Rightarrow> tensor_spec \<Rightarrow> bool" where
  "spec_ok name spec \<longleftrightarrow> tp_name spec = name \<and> tp_parameters spec = prod_list (tp_shape spec) \<and>
        (tp_dtype spec = DtBf16 \<and> tp_bytes spec = 2 * tp_parameters spec \<or>
         tp_dtype spec = DtF32 \<and> tp_bytes spec = 4 * tp_parameters spec)"

definition contract_ok :: "tensor_contract \<Rightarrow> bool" where
  "contract_ok c \<longleftrightarrow> bt_map (ct_tensors c) \<and> ct_tensor_count c = length (ct_tensors c) \<and>
     ct_parameter_count c = sum_list (map (tp_parameters \<circ> snd) (ct_tensors c)) \<and>
     ct_payload_bytes c = sum_list (map (tp_bytes \<circ> snd) (ct_tensors c)) \<and> ct_payload_bytes c \<le> u64_max \<and>
     (\<forall>(name, spec) \<in> set (ct_tensors c). spec_ok name spec)"

lemma bytes_per_element_Ok: "bytes_per_element d = Ok n \<Longrightarrow> d = DtBf16 \<and> n = 2 \<or> d = DtF32 \<and> n = 4"
  by (cases d) auto

lemma inventory_spec_ok: "inventory_spec label ov name e = Ok spec \<Longrightarrow> spec_ok name spec"
  by (auto simp: inventory_spec_def and_then_Ok_iff Let_def spec_ok_def u64_mul_def
      dest!: shape_product_Ok bytes_per_element_Ok split: if_splits)

lemma inventory_entries_Cons:
  assumes "inventory_entries label wanted ov tensors params payload (e # rest) = Ok r"
  obtains name where "\<not> wanted name" "inventory_entries label wanted ov tensors params payload rest = Ok r"
  | name spec where "inventory_spec label ov name e = Ok spec" "name \<notin> fst ` set tensors"
      "payload + tp_bytes spec \<le> u64_max"
      "inventory_entries label wanted ov (bt_insert name spec tensors) (params + tp_parameters spec)
        (payload + tp_bytes spec) rest = Ok r"
proof -
  obtain name where name: "as_str (json_get e ''name'') = Some name"
    using assms by (auto simp: and_then_Ok_iff)
  show ?thesis
  proof (cases "wanted name")
    case False
    then show ?thesis using assms name that(1) by (simp add: or_message_def ok_or_def)
  next
    case True
    then obtain spec where spec: "inventory_spec label ov name e = Ok spec"
      using assms name by (auto simp: and_then_Ok_iff or_message_def ok_or_def)
    show ?thesis
    proof (cases "name \<in> fst ` set tensors \<or> u64_max < params + tp_parameters spec \<or> u64_max < payload + tp_bytes spec")
      case True
      then show ?thesis using assms name \<open>wanted name\<close> spec
        by (auto simp: or_message_def ok_or_def u64_add_def split: if_splits)
    next
      case False
      then show ?thesis using assms name \<open>wanted name\<close> spec that(2) [OF spec]
        by (simp add: or_message_def ok_or_def u64_add_def)
    qed
  qed
qed

definition entries_ok :: "(bytes \<times> tensor_spec) list \<Rightarrow> nat \<Rightarrow> nat \<Rightarrow> bool" where
  "entries_ok tensors params payload \<longleftrightarrow> bt_map tensors \<and> (\<forall>(name, spec) \<in> set tensors. spec_ok name spec) \<and>
     payload \<le> u64_max \<and> params = sum_list (map (tp_parameters \<circ> snd) tensors) \<and>
     payload = sum_list (map (tp_bytes \<circ> snd) tensors)"

lemma bt_insert_mset: "k \<notin> fst ` set m \<Longrightarrow> mset (bt_insert k v m) = add_mset (k, v) (mset m)"
  by (induction k v m rule: bt_insert.induct) auto

lemma bt_insert_sum:
  assumes "k \<notin> fst ` set m"
  shows "sum_list (map (f \<circ> snd) (bt_insert k v m)) = sum_list (map (f \<circ> snd) m) + (f v :: nat)"
proof -
  have "sum_mset (image_mset (f \<circ> snd) (mset (bt_insert k v m))) = f v + sum_mset (image_mset (f \<circ> snd) (mset m))"
    by (simp add: bt_insert_mset [OF assms])
  then show ?thesis by (metis add.commute mset_map sum_mset_sum_list)
qed

lemma entries_ok_insert:
  assumes "entries_ok tensors params payload" and "spec_ok name spec" and "name \<notin> fst ` set tensors"
    and "payload + tp_bytes spec \<le> u64_max"
  shows "entries_ok (bt_insert name spec tensors) (params + tp_parameters spec) (payload + tp_bytes spec)"
proof -
  have "set (bt_insert name spec tensors) = insert (name, spec) (set tensors)"
    using arg_cong [OF bt_insert_mset [OF assms(3), of spec], of set_mset] by simp
  then show ?thesis
    using assms by (auto simp: entries_ok_def bt_insert_map bt_insert_sum)
qed

lemma inventory_entries_ok:
  "entries_ok tensors params payload \<Longrightarrow>
     inventory_entries label wanted ov tensors params payload es = Ok (tensors', params', payload') \<Longrightarrow>
     entries_ok tensors' params' payload'"
proof (induction es arbitrary: tensors params payload)
  case (Cons e es)
  from Cons.prems(2) show ?case
  proof (cases rule: inventory_entries_Cons)
    case (1 name)
    then show ?thesis using Cons by blast
  next
    case (2 name spec)
    then show ?thesis
      using Cons.IH [OF entries_ok_insert [OF Cons.prems(1) inventory_spec_ok [OF 2(1)] 2(2,3)] 2(4)] by blast
  qed
qed simp

lemma parse_inventory_ok: "parse_inventory parsed label wanted ov retain = Ok c \<Longrightarrow> contract_ok c"
  using inventory_entries_ok [of "[]" 0 0]
  by (fastforce simp: parse_inventory_def and_then_Ok_iff contract_ok_def entries_ok_def u64_max_def)

end
