(* ===== verification/NtArtifact.thy ===== *)
theory NtArtifact
  imports NtContract NtPrompt
begin

text \<open>
  The packed artifact (\<open>artifact.rs\<close>, \<open>loader.rs\<close>): the conversion of the decoder to BF16, the tensor
  index the packer writes into the manifest, and everything the loader checks before it hands a
  tensor out. The file system is a tree of nodes; a manifest is a parsed JSON value.
\<close>

unbundle bit_operations_syntax

section \<open>Conversion to BF16\<close>

fun f32_bytes_to_bf16 :: "bytes \<Rightarrow> bytes" where
  "f32_bytes_to_bf16 (a # b # c # d # rest) =
     (let bits = (of_nat (le_value [a, b, c, d]) :: u32);
          rounded = bits + (0x7fff + (drop_bit 16 bits AND 1))
      in le_bytes 2 (unat (drop_bit 16 rounded)) @ f32_bytes_to_bf16 rest)"
| "f32_bytes_to_bf16 _ = []"

datatype packed_tensor = BorrowedTensor "nat list" bytes | F32ToBf16 "nat list" bytes

fun packed_dtype :: "packed_tensor \<Rightarrow> weight_dtype" where
  "packed_dtype (BorrowedTensor _ _) = DtF32"
| "packed_dtype (F32ToBf16 _ _) = DtBf16"

fun packed_shape :: "packed_tensor \<Rightarrow> nat list" where
  "packed_shape (BorrowedTensor shape _) = shape"
| "packed_shape (F32ToBf16 shape _) = shape"

fun packed_data :: "packed_tensor \<Rightarrow> bytes" where
  "packed_data (BorrowedTensor _ data) = data"
| "packed_data (F32ToBf16 _ data) = f32_bytes_to_bf16 data"

fun packed_data_len :: "packed_tensor \<Rightarrow> nat" where
  "packed_data_len (BorrowedTensor _ data) = length data"
| "packed_data_len (F32ToBf16 _ data) = length data div 2"

fun decoder_tensors_packed :: "checkpoint \<Rightarrow> codec_weight_dtype \<Rightarrow> (bytes \<times> tensor_spec) list \<Rightarrow>
    anyhow + (bytes \<times> packed_tensor) list" where
  "decoder_tensors_packed source dtype [] = Ok []"
| "decoder_tensors_packed source dtype ((name, spec) # rest) =
     and_then (or_message (map_of source name) (''source speech tokenizer is missing '' @ name)) (\<lambda>t.
     and_then (ensure (sx_dtype t = DtF32) (''source tensor '' @ name @ '' is not F32'')) (\<lambda>_.
     and_then (decoder_tensors_packed source dtype rest) (\<lambda>packed.
     Ok ((name, case dtype of CodecF32 \<Rightarrow> BorrowedTensor (tp_shape spec) (sx_data t)
                            | CodecBf16 \<Rightarrow> F32ToBf16 (tp_shape spec) (sx_data t)) # packed))))"

text \<open>A word's float is not finite when its exponent bits are all ones.\<close>

fun first_non_finite :: "nat \<Rightarrow> bytes \<Rightarrow> nat option" where
  "first_non_finite index (a # b # c # d # rest) =
     (if drop_bit 23 (of_nat (le_value [a, b, c, d]) :: u32) AND 0xff = 0xff then Some index
      else first_non_finite (index + 1) rest)"
| "first_non_finite index _ = None"

fun validate_decoder_finite :: "checkpoint \<Rightarrow> (bytes \<times> tensor_spec) list \<Rightarrow> anyhow + unit" where
  "validate_decoder_finite source [] = Ok ()"
| "validate_decoder_finite source ((name, spec) # rest) =
     and_then (or_message (map_of source name) (''source speech tokenizer is missing '' @ name)) (\<lambda>t.
     case first_non_finite 0 (sx_data t) of
       Some index \<Rightarrow> Err (Message (''source decoder tensor '' @ name @ '' contains non-finite value at index '' @ show_nat index))
     | None \<Rightarrow>
         if length (sx_data t) mod 4 \<noteq> 0
         then Err (Message (''source decoder tensor '' @ name @ '' has a truncated F32 payload''))
         else validate_decoder_finite source rest)"

section \<open>The tensor index of a manifest\<close>

definition tensor_component :: "bytes \<Rightarrow> bytes" where
  "tensor_component name =
     (if starts_with ''talker.code_predictor.'' name then ''code-predictor''
      else if starts_with ''talker.'' name then ''talker'' else ''speech-decoder'')"

definition index_entry :: "bytes \<Rightarrow> tensor_spec \<Rightarrow> nat \<Rightarrow> bytes \<Rightarrow> json" where
  "index_entry name spec offset digest = JObject
     [(''name'', JString name), (''component'', JString (tensor_component name)),
      (''dtype'', JString (dtype_debug (tp_dtype spec))), (''shape'', JArray (map JUnsigned (tp_shape spec))),
      (''parameters'', JUnsigned (tp_parameters spec)), (''arena_offset_bytes'', JUnsigned offset),
      (''bytes'', JUnsigned (tp_bytes spec)), (''sha256'', JString (to_hex digest))]"

text \<open>The packer's loop. Releasing mapped pages has no effect on the data.\<close>

fun index_loop :: "bytes \<Rightarrow> checkpoint \<Rightarrow> nat \<Rightarrow> (bytes \<times> tensor_spec) list \<Rightarrow> (anyhow + json list \<times> nat) unwind" where
  "index_loop label tensors offset [] = Returned (Ok ([], offset))"
| "index_loop label tensors offset ((name, spec) # rest) =
     (case map_of tensors name of
        None \<Rightarrow> Returned (Err (Message (label @ '' is missing tensor '' @ name)))
      | Some t \<Rightarrow>
          if sx_dtype t \<noteq> tp_dtype spec \<or> sx_shape t \<noteq> tp_shape spec \<or> length (sx_data t) \<noteq> tp_bytes spec
          then Returned (Err (Message (label @ '' tensor '' @ name @ '' changed after validation'')))
          else (case digest_bytes (sx_data t) of
             Panicked \<Rightarrow> Panicked
           | Returned digest \<Rightarrow>
               (case u64_add offset (tp_bytes spec) of
                  None \<Rightarrow> Returned (Err (Message ''tensor arena offset overflowed''))
                | Some offset' \<Rightarrow>
                    (case index_loop label tensors offset' rest of
                       Returned (Inr (es, end)) \<Rightarrow> Returned (Ok (index_entry name spec offset digest # es, end))
                     | r \<Rightarrow> r))))"

definition build_tensor_index :: "checkpoint \<Rightarrow> tensor_contract \<Rightarrow> (anyhow + json list) unwind" where
  "build_tensor_index tensors contract =
     (case index_loop (ct_label contract) tensors 0 (ct_tensors contract) of
        Panicked \<Rightarrow> Panicked
      | Returned (Inl e) \<Rightarrow> Returned (Err e)
      | Returned (Inr (es, offset)) \<Rightarrow>
          Returned (if offset \<noteq> ct_payload_bytes contract
            then Err (Message (ct_label contract @ '' tensor index covers '' @ show_nat offset @ '' bytes, expected ''
              @ show_nat (ct_payload_bytes contract)))
            else Ok es))"

section \<open>What the loader checks of an index\<close>

record tensor_descriptor =
  td_name :: bytes
  td_sha256 :: bytes
  td_dtype :: weight_dtype
  td_shape :: "nat list"
  td_arena_offset_bytes :: nat
  td_bytes :: nat

definition lower_hex :: "byte \<Rightarrow> bool" where
  "lower_hex c \<longleftrightarrow> 48 \<le> bv c \<and> bv c \<le> 57 \<or> 97 \<le> bv c \<and> bv c \<le> 102"

definition hex_value :: "byte \<Rightarrow> nat" where
  "hex_value c = (if bv c \<le> 57 then bv c - 48 else bv c - 87)"

fun hex_pairs :: "bytes \<Rightarrow> bytes" where
  "hex_pairs (a # b # rest) = char_of (16 * hex_value a + hex_value b) # hex_pairs rest"
| "hex_pairs _ = []"

definition parse_sha256 :: "bytes \<Rightarrow> anyhow + bytes" where
  "parse_sha256 encoded =
     (if length encoded \<noteq> 64 \<or> \<not> list_all lower_hex encoded
      then Err (Message ''SHA-256 must be exactly 64 lowercase hexadecimal characters'')
      else Ok (hex_pairs encoded))"

definition expect_tensor_u64 :: "json \<Rightarrow> bytes \<Rightarrow> nat \<Rightarrow> bytes \<Rightarrow> anyhow + unit" where
  "expect_tensor_u64 e field expected context =
     and_then (or_message (as_u64 (json_get e field)) (context @ '' field '' @ field @ '' is not a u64'')) (\<lambda>actual.
     ensure (actual = expected) (context @ '' field '' @ field @ '': expected '' @ show_nat expected @ '', found '' @ show_nat actual))"

fun index_shape :: "bytes \<Rightarrow> nat \<Rightarrow> json list \<Rightarrow> anyhow + nat list" where
  "index_shape context n [] = Ok []"
| "index_shape context n (v # vs) =
     and_then (or_message (as_u64 v) (context @ '' shape['' @ show_nat n @ ''] is not a u64'')) (\<lambda>d.
     and_then (index_shape context (n + 1) vs) (\<lambda>ds. Ok (d # ds)))"

text \<open>One pair of the loop: the entry at a position and what the contract expects there.\<close>

definition check_entry :: "bytes \<Rightarrow> bytes \<Rightarrow> tensor_spec \<Rightarrow> nat \<Rightarrow> json \<Rightarrow> anyhow + tensor_descriptor" where
  "check_entry context expected_name spec expected_offset e =
     and_then (or_message (as_str (json_get e ''name'')) (context @ '' has no name'')) (\<lambda>name.
     and_then (ensure (name = expected_name) (context @ '' name mismatch: expected '' @ expected_name @ '', found '' @ name)) (\<lambda>_.
     and_then (or_message (as_str (json_get e ''component'')) (context @ '' has no component'')) (\<lambda>component.
     and_then (ensure (component = tensor_component expected_name)
       (context @ '' component mismatch: expected '' @ tensor_component expected_name @ '', found '' @ component)) (\<lambda>_.
     and_then (or_message (as_str (json_get e ''dtype'')) (context @ '' has no dtype'')) (\<lambda>dtype.
     and_then (ensure (dtype = dtype_debug (tp_dtype spec))
       (context @ '' dtype mismatch: expected '' @ dtype_debug (tp_dtype spec) @ '', found '' @ dtype)) (\<lambda>_.
     and_then (or_message (as_array (json_get e ''shape'')) (context @ '' shape is not an array'')) (\<lambda>dims.
     and_then (index_shape context 0 dims) (\<lambda>shape.
     and_then (ensure (shape = tp_shape spec) (context @ '' shape mismatch: expected ''
       @ concat (map show_nat (tp_shape spec)) @ '', found '' @ concat (map show_nat shape))) (\<lambda>_.
     and_then (expect_tensor_u64 e ''parameters'' (tp_parameters spec) context) (\<lambda>_.
     and_then (expect_tensor_u64 e ''arena_offset_bytes'' expected_offset context) (\<lambda>_.
     and_then (expect_tensor_u64 e ''bytes'' (tp_bytes spec) context) (\<lambda>_.
     and_then (or_message (as_str (json_get e ''sha256'')) (context @ '' has no SHA-256'')) (\<lambda>encoded.
     and_then (map_err (Context (context @ '' has an invalid SHA-256'')) (parse_sha256 encoded)) (\<lambda>digest.
     Ok \<lparr>td_name = name, td_sha256 = digest, td_dtype = tp_dtype spec, td_shape = shape,
         td_arena_offset_bytes = expected_offset, td_bytes = tp_bytes spec\<rparr>))))))))))))))"

fun check_entries :: "bytes \<Rightarrow> nat \<Rightarrow> (bytes \<times> tensor_descriptor) list \<Rightarrow> nat \<Rightarrow>
    (json \<times> bytes \<times> tensor_spec) list \<Rightarrow> anyhow + (bytes \<times> tensor_descriptor) list \<times> nat" where
  "check_entries pointer i ds offset [] = Ok (ds, offset)"
| "check_entries pointer i ds offset ((e, name, spec) # rest) =
     (let context = ''manifest tensor '' @ pointer @ ''['' @ show_nat i @ '']'' in
      and_then (check_entry context name spec offset e) (\<lambda>d.
      if name \<in> fst ` set ds then Err (Message (context @ '' duplicates tensor '' @ name))
      else and_then (or_message (u64_add offset (tp_bytes spec)) ''tensor arena byte offset overflowed'') (\<lambda>offset'.
        check_entries pointer (i + 1) (bt_insert name d ds) offset' rest)))"

definition pointer_text :: "bytes list \<Rightarrow> bytes" where
  "pointer_text keys = concat (map (\<lambda>k. CHR ''/'' # k) keys)"

definition validate_manifest_tensor_index :: "json \<Rightarrow> bytes list \<Rightarrow> tensor_contract \<Rightarrow>
    anyhow + (bytes \<times> tensor_descriptor) list" where
  "validate_manifest_tensor_index manifest pointer contract =
     (let path = pointer @ [''tensors''] in
      and_then (or_message (Option.bind (json_pointer path manifest) as_array)
        (''manifest field '' @ pointer_text path @ '' is missing or not an array'')) (\<lambda>es.
      if length es \<noteq> ct_tensor_count contract
      then Err (Message (''manifest field '' @ pointer_text path @ '': expected '' @ show_nat (ct_tensor_count contract)
        @ '' tensors, found '' @ show_nat (length es)))
      else and_then (check_entries (pointer_text path) 0 [] 0 (zip es (ct_tensors contract))) (\<lambda>(ds, offset).
        if offset \<noteq> ct_payload_bytes contract
        then Err (Message (''manifest tensor index covers '' @ show_nat offset @ '' bytes, expected ''
          @ show_nat (ct_payload_bytes contract)))
        else Ok ds)))"

section \<open>Packing and loading agree\<close>

lemma hex_digit_value: "n < 16 \<Longrightarrow> lower_hex (hex_digit n) \<and> hex_value (hex_digit n) = n"
  by (auto simp: lower_hex_def hex_digit_def hex_value_def)

lemma to_hex_simps [simp]:
  "to_hex [] = []"
  "to_hex (c # cs) = hex_digit (bv c div 16) # hex_digit (bv c mod 16) # to_hex cs"
  by (simp_all add: to_hex_def)

lemma hex_round_trip: "list_all lower_hex (to_hex d) \<and> length (to_hex d) = 2 * length d \<and> hex_pairs (to_hex d) = d"
proof (induction d)
  case (Cons c d)
  have "bv c div 16 < 16" "bv c mod 16 < 16" using bv_less [of c] by auto
  then show ?case
    using Cons hex_digit_value [of "bv c div 16"] hex_digit_value [of "bv c mod 16"] by simp
qed simp

lemma parse_sha256_to_hex: "length d = 32 \<Longrightarrow> parse_sha256 (to_hex d) = Ok d"
  using hex_round_trip [of d] by (simp add: parse_sha256_def)

lemma index_shape_numbers: "index_shape context n (map JUnsigned ds) = Ok ds"
  by (induction ds arbitrary: n) (simp_all add: or_message_def ok_or_def)

lemma check_index_entry:
  assumes "length digest = 32"
  shows "check_entry context name spec offset (index_entry name spec offset digest) =
    Ok \<lparr>td_name = name, td_sha256 = digest, td_dtype = tp_dtype spec, td_shape = tp_shape spec,
        td_arena_offset_bytes = offset, td_bytes = tp_bytes spec\<rparr>"
  using assms
  by (simp add: check_entry_def index_entry_def expect_tensor_u64_def or_message_def ok_or_def
      index_shape_numbers parse_sha256_to_hex)

text \<open>The descriptors of a contract's tensors laid out one after the other.\<close>

fun laid_out :: "checkpoint \<Rightarrow> nat \<Rightarrow> (bytes \<times> tensor_spec) list \<Rightarrow> (bytes \<times> tensor_descriptor) list" where
  "laid_out tensors offset [] = []"
| "laid_out tensors offset ((name, spec) # rest) =
     (name, \<lparr>td_name = name, td_sha256 = sha256_digest (sx_data (the (map_of tensors name))),
        td_dtype = tp_dtype spec, td_shape = tp_shape spec, td_arena_offset_bytes = offset,
        td_bytes = tp_bytes spec\<rparr>) # laid_out tensors (offset + tp_bytes spec) rest"

lemma index_checked:
  assumes "index_loop label tensors offset specs = Returned (Ok (es, end))"
    and "bt_map specs" and "\<forall>k \<in> fst ` set ds. \<forall>k' \<in> fst ` set specs. k < k'" and "bt_map ds"
    and "\<forall>(name, spec) \<in> set specs. tp_bytes spec \<le> u64_max"
  shows "check_entries pointer i ds offset (zip es specs) = Ok (ds @ laid_out tensors offset specs, end) \<and>
    length es = length specs"
  using assms
proof (induction label tensors offset specs arbitrary: es ds i rule: index_loop.induct)
  case (1 label tensors offset)
  then show ?case by simp
next
  case (2 label tensors offset name spec rest)
  obtain t digest es' where t: "map_of tensors name = Some t" "sx_dtype t = tp_dtype spec" "sx_shape t = tp_shape spec"
      "length (sx_data t) = tp_bytes spec" and digest: "digest_bytes (sx_data t) = Returned digest"
    and offset: "u64_add offset (tp_bytes spec) = Some (offset + tp_bytes spec)"
    and es: "es = index_entry name spec offset digest # es'"
    and rest: "index_loop label tensors (offset + tp_bytes spec) rest = Returned (Ok (es', end))"
    using "2.prems"(1) by (auto simp: u64_add_def split: option.splits unwind.splits sum.splits if_splits)
  have "tp_bytes spec \<le> u64_max" using "2.prems"(5) by simp
  then have d: "digest = sha256_digest (sx_data t)"
    using digest_bytes_Returned [OF digest] t(4) by (simp add: u64_max_def)
  let ?d = "\<lparr>td_name = name, td_sha256 = digest, td_dtype = tp_dtype spec, td_shape = tp_shape spec,
        td_arena_offset_bytes = offset, td_bytes = tp_bytes spec\<rparr>"
  have ins: "bt_insert name ?d ds = ds @ [(name, ?d)]"
    using "2.prems"(3,4) by (intro bt_insert_last) auto
  have new: "name \<notin> fst ` set ds" using "2.prems"(3) by force
  have "check_entries pointer (i + 1) (ds @ [(name, ?d)]) (offset + tp_bytes spec) (zip es' rest) =
      Ok ((ds @ [(name, ?d)]) @ laid_out tensors (offset + tp_bytes spec) rest, end) \<and> length es' = length rest"
  proof (rule "2.IH" [OF t(1) _ digest offset rest])
    show "\<not> (sx_dtype t \<noteq> tp_dtype spec \<or> sx_shape t \<noteq> tp_shape spec \<or> length (sx_data t) \<noteq> tp_bytes spec)"
      using t by simp
    show "bt_map (ds @ [(name, ?d)])" using "2.prems"(3,4) by (auto simp: sorted_wrt_append)
  qed (use "2.prems" in auto)
  then show ?case
    using check_index_entry [of digest _ name spec offset] ins new offset
    by (simp add: es d t(1) Let_def or_message_def ok_or_def)
qed

text \<open>C23: what the packer writes the loader accepts: the tensor index built from a checkpoint and its
  contract passes every check, and the descriptors it gives have the tensors' digests and lie one
  directly after the other, in the contract's order, from offset zero to the payload's end.\<close>

theorem manifest_index_roundtrip:
  assumes "contract_ok contract" and "build_tensor_index tensors contract = Returned (Ok es)"
    and "json_pointer (pointer @ [''tensors'']) manifest = Some (JArray es)"
  shows "validate_manifest_tensor_index manifest pointer contract = Ok (laid_out tensors 0 (ct_tensors contract))"
proof -
  have ok: "bt_map (ct_tensors contract)" "ct_tensor_count contract = length (ct_tensors contract)"
    and payload: "sum_list (map (tp_bytes \<circ> snd) (ct_tensors contract)) \<le> u64_max"
    using assms(1) by (simp_all add: contract_ok_def)
  have "tp_bytes spec \<le> u64_max" if "(name, spec) \<in> set (ct_tensors contract)" for name spec
  proof -
    have "tp_bytes spec \<in> set (map (tp_bytes \<circ> snd) (ct_tensors contract))" using that by force
    then have "tp_bytes spec \<le> sum_list (map (tp_bytes \<circ> snd) (ct_tensors contract))" by (rule member_le_sum_list) simp
    then show ?thesis using payload by linarith
  qed
  then have small: "\<forall>(name, spec) \<in> set (ct_tensors contract). tp_bytes spec \<le> u64_max" by auto
  have loop: "index_loop (ct_label contract) tensors 0 (ct_tensors contract) = Returned (Ok (es, ct_payload_bytes contract))"
    using assms(2) by (auto simp: build_tensor_index_def split: unwind.splits sum.splits if_splits)
  have checked: "check_entries p i [] 0 (zip es (ct_tensors contract)) =
      Ok (laid_out tensors 0 (ct_tensors contract), ct_payload_bytes contract)" "length es = length (ct_tensors contract)"
    for p i
    using index_checked [OF loop ok(1) _ _ small, of "[]"] by simp_all
  then show ?thesis
    using assms(3) ok(2)
    by (simp add: validate_manifest_tensor_index_def Let_def or_message_def ok_or_def)
qed

definition example_contract :: tensor_contract where
  "example_contract = \<lparr>ct_label = ''example'',
     ct_tensors = [(''decoder.b'', \<lparr>tp_name = ''decoder.b'', tp_dtype = DtF32, tp_shape = [1], tp_parameters = 1, tp_bytes = 4\<rparr>),
                   (''talker.w'', \<lparr>tp_name = ''talker.w'', tp_dtype = DtBf16, tp_shape = [3], tp_parameters = 3, tp_bytes = 6\<rparr>)],
     ct_tensor_count = 2, ct_parameter_count = 4, ct_payload_bytes = 10, ct_exact_file_bytes = None\<rparr>"

definition example_checkpoint :: checkpoint where
  "example_checkpoint = [(''talker.w'', \<lparr>sx_dtype = DtBf16, sx_shape = [3], sx_data = ''abcdef''\<rparr>),
     (''decoder.b'', \<lparr>sx_dtype = DtF32, sx_shape = [1], sx_data = ''wxyz''\<rparr>)]"

lemma manifest_index_roundtrip_witness:
  "\<exists>es. build_tensor_index example_checkpoint example_contract = Returned (Ok es) \<and>
     validate_manifest_tensor_index (JObject [(''tensors'', JArray es)]) [] example_contract =
       Ok (laid_out example_checkpoint 0 (ct_tensors example_contract))"
proof -
  have ok: "contract_ok example_contract"
    by (simp add: contract_ok_def example_contract_def spec_ok_def u64_max_def less_char_def)
  obtain es where es: "build_tensor_index example_checkpoint example_contract = Returned (Ok es)"
    by (simp add: build_tensor_index_def example_contract_def example_checkpoint_def digest_bytes_short u64_add_def
        u64_max_def)
  show ?thesis using manifest_index_roundtrip [OF ok es, of "[]" "JObject [(''tensors'', JArray es)]"] es by simp
qed

end
