(* ===== verification/NtLoader.thy ===== *)
theory NtLoader
  imports NtArtifact
begin

text \<open>
  Opening a packed artifact (\<open>loader.rs\<close>): the checks of the directory tree, the manifest, its files and
  their digests, the tensor indices and the mapped checkpoints, and the tensors handed out in
  aligned chunks. The file system is a tree; the deserialiser of a checkpoint and the embedded
  inventories are arguments.
\<close>

section \<open>Files and paths\<close>

datatype fs_node = RegularFile bytes | SymbolicLink | SpecialFile | DirNode "(bytes \<times> fs_node) list"

fun fs_lookup :: "bytes list \<Rightarrow> fs_node \<Rightarrow> fs_node option" where
  "fs_lookup [] n = Some n"
| "fs_lookup (c # cs) (DirNode es) = Option.bind (map_of es c) (fs_lookup cs)"
| "fs_lookup (c # cs) _ = None"

fun show_path :: "bytes list \<Rightarrow> bytes" where
  "show_path [] = []"
| "show_path [c] = c"
| "show_path (c # d # cs) = c @ ''/'' @ show_path (d # cs)"

definition regular_file :: "fs_node option \<Rightarrow> bytes \<Rightarrow> anyhow + bytes" where
  "regular_file n path =
     (case n of
        None \<Rightarrow> Err (Context (''required artifact file is missing: '' @ path) (Message []))
      | Some SymbolicLink \<Rightarrow> Err (Message (''artifact material must not be a symlink: '' @ path))
      | Some (RegularFile data) \<Rightarrow> Ok data
      | _ \<Rightarrow> Err (Message (''artifact material is not a regular file: '' @ path)))"

text \<open>The entries of one directory: the directories among them are pushed, the last one is next.\<close>

fun scan_dir :: "(bytes \<times> fs_node) list \<Rightarrow> anyhow + (bytes \<times> fs_node) list list" where
  "scan_dir [] = Ok []"
| "scan_dir ((name, n) # es) =
     (case n of
        SymbolicLink \<Rightarrow> Err (Message (''artifact tree contains a symlink: '' @ name))
      | SpecialFile \<Rightarrow> Err (Message (''artifact tree contains non-regular material: '' @ name))
      | RegularFile _ \<Rightarrow> scan_dir es
      | DirNode inner \<Rightarrow> and_then (scan_dir es) (\<lambda>ds. Ok (inner # ds)))"

fun node_count :: "fs_node \<Rightarrow> nat" where
  "node_count (DirNode es) = Suc (sum_list (map (\<lambda>(_, n). node_count n) es))"
| "node_count _ = 1"

definition dir_count :: "(bytes \<times> fs_node) list \<Rightarrow> nat" where
  "dir_count es = Suc (sum_list (map (\<lambda>(_, n). node_count n) es))"

lemma scan_dir_count: "scan_dir es = Ok ds \<Longrightarrow> sum_list (map dir_count ds) < dir_count es"
proof (induction es arbitrary: ds)
  case (Cons e es)
  obtain name n where e: "e = (name, n)" by (cases e)
  show ?case
  proof (cases n)
    case (DirNode inner)
    then show ?thesis using Cons by (auto simp: e and_then_Ok_iff dir_count_def)
  qed (use Cons in \<open>auto simp: e dir_count_def\<close>)
qed (simp add: dir_count_def)

text \<open>\<open>ensure_regular_tree\<close>: a stack of directories still to look at.\<close>

function walk_tree :: "(bytes \<times> fs_node) list list \<Rightarrow> anyhow + unit" where
  "walk_tree [] = Ok ()"
| "walk_tree (d # pending) = (case scan_dir d of
      Inl e \<Rightarrow> Err e
    | Inr inner \<Rightarrow> walk_tree (rev inner @ pending))"
  by pat_completeness auto
termination
  by (relation "measure (\<lambda>ds. sum_list (map dir_count ds))")
    (auto simp: rev_map [symmetric] intro: scan_dir_count)

declare walk_tree.simps [simp del]

datatype path_part = NormalPart bytes | CurDir | ParentDir | RootDir

definition classify_part :: "bytes \<Rightarrow> path_part" where
  "classify_part s = (if s = ''..'' then ParentDir else if s = ''.'' then CurDir else NormalPart s)"

text \<open>\<open>Path::components\<close> on Unix: repeated slashes and inner dots are skipped.\<close>

definition path_components :: "bytes \<Rightarrow> path_part list" where
  "path_components s =
     (let parts = split_on ''/'' [] s;
          absolute = starts_with ''/'' s
      in (if absolute then [RootDir] else [])
         @ (if \<not> absolute \<and> hd parts = ''.'' then [CurDir] else [])
         @ map classify_part (filter (\<lambda>p. p \<noteq> [] \<and> p \<noteq> ''.'') parts))"

fun normal_parts :: "path_part list \<Rightarrow> bytes list option" where
  "normal_parts [] = Some []"
| "normal_parts (NormalPart p # ps) = map_option (Cons p) (normal_parts ps)"
| "normal_parts _ = None"

definition safe_relative_path :: "bytes \<Rightarrow> anyhow + bytes list" where
  "safe_relative_path encoded =
     (if encoded = [] \<or> starts_with ''/'' encoded
      then Err (Message (''manifest path must be a non-empty relative path: '' @ encoded))
      else or_message (normal_parts (path_components encoded))
        (''manifest path contains an unsafe component: '' @ encoded))"

section \<open>The manifest\<close>

definition MODEL_ID :: bytes where "MODEL_ID = ''Qwen/Qwen3-TTS-12Hz-1.7B-VoiceDesign''"
definition ARTIFACT_KIND :: bytes where "ARTIFACT_KIND = ''qwen3-tts-native-1.7b-voice-design''"
definition VOICE_PATH :: bytes where "VOICE_PATH = ''model.safetensors''"
definition CODEC_PATH :: bytes where "CODEC_PATH = ''speech_tokenizer/model.safetensors''"
definition VOICE_PARTS :: "bytes list" where "VOICE_PARTS = [''model.safetensors'']"
definition CODEC_PARTS :: "bytes list" where "CODEC_PARTS = [''speech_tokenizer'', ''model.safetensors'']"
definition MANIFEST_MAX_BYTES :: nat where "MANIFEST_MAX_BYTES = 1024 * 1024"
definition HASH_BUFFER_BYTES :: nat where "HASH_BUFFER_BYTES = 8 * 1024 * 1024"

definition expect_manifest :: "(json \<Rightarrow> 'a option) \<Rightarrow> bytes \<Rightarrow> ('a \<Rightarrow> bytes) \<Rightarrow> json \<Rightarrow> bytes list \<Rightarrow> 'a \<Rightarrow> anyhow + unit" where
  "expect_manifest get kind shown manifest pointer expected =
     and_then (or_message (Option.bind (json_pointer pointer manifest) get)
       (''manifest field '' @ pointer_text pointer @ '' is missing or not '' @ kind)) (\<lambda>actual.
     ensure (actual = expected) (''manifest field '' @ pointer_text pointer @ '': expected '' @ shown expected
       @ '', found '' @ shown actual))"

definition expect_manifest_string :: "json \<Rightarrow> bytes list \<Rightarrow> bytes \<Rightarrow> anyhow + unit" where
  "expect_manifest_string = expect_manifest as_str ''a string'' (\<lambda>s. s)"

definition expect_manifest_bool :: "json \<Rightarrow> bytes list \<Rightarrow> bool \<Rightarrow> anyhow + unit" where
  "expect_manifest_bool = expect_manifest as_bool ''a boolean'' (\<lambda>b. if b then ''true'' else ''false'')"

definition expect_manifest_u64 :: "json \<Rightarrow> bytes list \<Rightarrow> nat \<Rightarrow> anyhow + unit" where
  "expect_manifest_u64 = expect_manifest as_u64 ''an unsigned integer'' show_nat"

definition commit_hash :: "bytes \<Rightarrow> bool" where
  "commit_hash s \<longleftrightarrow> length s = 40 \<and> list_all lower_hex s"

definition validate_manifest_identity :: "json \<Rightarrow> anyhow + unit" where
  "validate_manifest_identity manifest =
     and_then (expect_manifest_u64 manifest [''schema_version''] 1) (\<lambda>_.
     and_then (expect_manifest_string manifest [''artifact''] ARTIFACT_KIND) (\<lambda>_.
     and_then (expect_manifest_string manifest [''model'', ''id''] MODEL_ID) (\<lambda>_.
     and_then (expect_manifest_bool manifest [''production_material'', ''regular_files_only''] True) (\<lambda>_.
     and_then (expect_manifest_u64 manifest [''production_material'', ''symlink_count''] 0) (\<lambda>_.
     and_then (or_message (Option.bind (json_pointer [''model'', ''revision''] manifest) as_str)
       ''manifest model revision is missing'') (\<lambda>revision.
     ensure (commit_hash revision) ''manifest model revision is not a lowercase 40-character commit hash''))))))"

record manifest_file =
  mf_bytes :: nat
  mf_sha256 :: bytes

fun manifest_entries :: "(bytes list \<times> manifest_file) list \<Rightarrow> (bytes \<times> json) list \<Rightarrow>
    anyhow + (bytes list \<times> manifest_file) list" where
  "manifest_entries files [] = Ok files"
| "manifest_entries files ((encoded, e) # rest) =
     and_then (safe_relative_path encoded) (\<lambda>relative.
     and_then (or_message (as_u64 (json_get e ''bytes'')) (''manifest file '' @ encoded @ '' has no byte count'')) (\<lambda>size_bytes.
     and_then (or_message (as_str (json_get e ''sha256'')) (''manifest file '' @ encoded @ '' has no SHA-256'')) (\<lambda>sha.
     and_then (ensure (length sha = 64 \<and> list_all lower_hex sha)
       (''manifest file '' @ encoded @ '' has an invalid lowercase SHA-256'')) (\<lambda>_.
     if relative \<in> fst ` set files
     then Err (Message (''manifest contains duplicate normalized path '' @ encoded))
     else manifest_entries (bt_insert relative \<lparr>mf_bytes = size_bytes, mf_sha256 = sha\<rparr> files) rest))))"

definition parse_manifest_files :: "json \<Rightarrow> anyhow + (bytes list \<times> manifest_file) list" where
  "parse_manifest_files manifest =
     and_then (or_message (as_object (json_get manifest ''files'')) ''manifest files is not an object'') (\<lambda>es.
     and_then (manifest_entries [] es) (\<lambda>files.
     and_then (ensure (VOICE_PARTS \<in> fst ` set files) (''manifest does not include required file '' @ VOICE_PATH)) (\<lambda>_.
     and_then (ensure (CODEC_PARTS \<in> fst ` set files) (''manifest does not include required file '' @ CODEC_PATH)) (\<lambda>_.
     Ok files))))"

datatype verification_mode = FullVerification | ContractsOnly

definition verification_mode_parse :: "bytes \<Rightarrow> anyhow + verification_mode" where
  "verification_mode_parse value =
     (if value = ''full'' then Ok FullVerification else if value = ''contracts'' then Ok ContractsOnly
      else Err (Message (''unknown verification mode '' @ value @ ''; expected full or contracts'')))"

text \<open>The reads of a file by a buffer's size.\<close>

function file_reads :: "nat \<Rightarrow> bytes \<Rightarrow> bytes list" where
  "file_reads n data = (if n = 0 \<or> data = [] then [] else take n data # file_reads n (drop n data))"
  by pat_completeness auto
termination by (relation "measure (length \<circ> snd)") (auto simp: length_greater_0_conv)

declare file_reads.simps [simp del]

text \<open>A panic while hashing would need a file of more than two exabytes.\<close>

fun verify_files :: "fs_node \<Rightarrow> verification_mode \<Rightarrow> (bytes list \<times> manifest_file) list \<Rightarrow> (anyhow + unit) unwind" where
  "verify_files tree mode [] = Returned (Ok ())"
| "verify_files tree mode ((relative, expected) # rest) =
     (case regular_file (fs_lookup relative tree) (show_path relative) of
        Inl e \<Rightarrow> Returned (Err e)
      | Inr data \<Rightarrow>
          if length data \<noteq> mf_bytes expected
          then Returned (Err (Message (show_path relative @ '' size mismatch: manifest '' @ show_nat (mf_bytes expected)
            @ '', actual '' @ show_nat (length data))))
          else if mode = ContractsOnly then verify_files tree mode rest
          else (case digest_reader HASH_BUFFER_BYTES (map Inr (file_reads HASH_BUFFER_BYTES data)) of
             Panicked \<Rightarrow> Panicked
           | Returned (Inl e) \<Rightarrow> Returned (Err (Context (''failed to hash '' @ show_path relative) (Message e)))
           | Returned (Inr (digest, hashed)) \<Rightarrow>
               if hashed \<noteq> of_nat (length data)
               then Returned (Err (Message (show_path relative @ '' changed while being hashed'')))
               else if to_hex digest \<noteq> mf_sha256 expected
               then Returned (Err (Message (show_path relative @ '' SHA-256 mismatch: manifest '' @ mf_sha256 expected
                 @ '', actual '' @ to_hex digest)))
               else verify_files tree mode rest))"

definition validate_manifest_contract :: "json \<Rightarrow> bytes list \<Rightarrow> tensor_contract \<Rightarrow> anyhow + unit" where
  "validate_manifest_contract manifest pointer contract =
     and_then (expect_manifest_u64 manifest (pointer @ [''tensor_count'']) (ct_tensor_count contract)) (\<lambda>_.
     and_then (expect_manifest_u64 manifest (pointer @ [''parameter_count'']) (ct_parameter_count contract)) (\<lambda>_.
     expect_manifest_u64 manifest (pointer @ [''payload_bytes'']) (ct_payload_bytes contract)))"

section \<open>The open artifact\<close>

record mapped_checkpoint =
  mk_mapping :: bytes
  mk_contract :: tensor_contract
  mk_descriptors :: "(bytes \<times> tensor_descriptor) list"

text \<open>\<open>deserialize\<close> is the checkpoint parser's.\<close>

definition mapped_open :: "(bytes \<Rightarrow> anyhow + checkpoint) \<Rightarrow> fs_node option \<Rightarrow> bytes \<Rightarrow> tensor_contract \<Rightarrow>
    (bytes \<times> tensor_descriptor) list \<Rightarrow> anyhow + mapped_checkpoint" where
  "mapped_open deserialize n path contract descriptors =
     and_then (regular_file n path) (\<lambda>data.
     and_then (case ct_exact_file_bytes contract of None \<Rightarrow> Ok ()
         | Some expected \<Rightarrow> ensure (length data = expected) (ct_label contract @ '' file size mismatch: expected ''
             @ show_nat expected @ '', found '' @ show_nat (length data))) (\<lambda>_.
     and_then (map_err (Context (''invalid SafeTensors checkpoint '' @ path)) (deserialize data)) (\<lambda>tensors.
     and_then (validate_tensors tensors contract) (\<lambda>_.
     Ok \<lparr>mk_mapping = data, mk_contract = contract, mk_descriptors = descriptors\<rparr>))))"

record tensor_ref =
  tr_name :: bytes
  tr_dtype :: weight_dtype
  tr_shape :: "nat list"
  tr_sha256 :: bytes
  tr_arena_offset_bytes :: nat
  tr_bytes :: bytes

definition mapped_tensor :: "(bytes \<Rightarrow> anyhow + checkpoint) \<Rightarrow> mapped_checkpoint \<Rightarrow> bytes \<Rightarrow> anyhow + tensor_ref" where
  "mapped_tensor deserialize k name =
     (let label = ct_label (mk_contract k) in
      and_then (or_message (map_of (ct_tensors (mk_contract k)) name) (label @ '' has no tensor '' @ name)) (\<lambda>spec.
      and_then (map_err (Context (label @ '' metadata became invalid'')) (deserialize (mk_mapping k))) (\<lambda>tensors.
      and_then (or_message (map_of tensors name) (label @ '' is missing tensor '' @ name)) (\<lambda>t.
      and_then (or_message (map_of (mk_descriptors k) name) (label @ '' has no descriptor for '' @ name)) (\<lambda>d.
      Ok \<lparr>tr_name = tp_name spec, tr_dtype = tp_dtype spec, tr_shape = tp_shape spec, tr_sha256 = td_sha256 d,
          tr_arena_offset_bytes = td_arena_offset_bytes d, tr_bytes = sx_data t\<rparr>)))))"

definition mapped_descriptor :: "mapped_checkpoint \<Rightarrow> bytes \<Rightarrow> anyhow + tensor_descriptor" where
  "mapped_descriptor k name =
     or_message (map_of (mk_descriptors k) name) (ct_label (mk_contract k) @ '' has no tensor descriptor '' @ name)"

record native_artifact =
  na_revision :: bytes
  na_verification :: verification_mode
  na_voice :: mapped_checkpoint
  na_decoder :: mapped_checkpoint
  na_decoder_dtype :: codec_weight_dtype

definition read_manifest :: "(bytes \<Rightarrow> anyhow + json) \<Rightarrow> fs_node option \<Rightarrow> anyhow + json" where
  "read_manifest parse n =
     and_then (regular_file n ''manifest.json'') (\<lambda>data.
     if MANIFEST_MAX_BYTES < length data
     then Err (Message (''manifest exceeds '' @ show_nat MANIFEST_MAX_BYTES @ '' byte limit: manifest.json''))
     else map_err (Context ''invalid JSON in manifest.json'') (parse data))"

text \<open>What of \<open>open\<close> follows the verification of the files.\<close>

definition open_checkpoints :: "(bytes \<Rightarrow> anyhow + checkpoint) \<Rightarrow> anyhow + json \<Rightarrow> anyhow + json \<Rightarrow> fs_node \<Rightarrow> json \<Rightarrow>
    verification_mode \<Rightarrow> anyhow + native_artifact" where
  "open_checkpoints deserialize voice_inventory tokenizer_inventory tree manifest mode =
     and_then (or_message (Option.bind (json_pointer [''weights'', ''speech_decoder'', ''dtype''] manifest) as_str)
       ''manifest speech-decoder dtype is missing'') (\<lambda>dtype_name.
     and_then (codec_dtype_parse (to_ascii_lower dtype_name)) (\<lambda>decoder_dtype.
     and_then (expect_manifest_string manifest [''weights'', ''voice_design'', ''path''] VOICE_PATH) (\<lambda>_.
     and_then (expect_manifest_string manifest [''weights'', ''voice_design'', ''dtype''] ''BF16'') (\<lambda>_.
     and_then (expect_manifest_string manifest [''weights'', ''speech_decoder'', ''path''] CODEC_PATH) (\<lambda>_.
     and_then (expect_manifest_bool manifest [''weights'', ''speech_decoder'', ''encoder_included''] False) (\<lambda>_.
     and_then (voice_design_contract voice_inventory) (\<lambda>voice_contract.
     and_then (speech_decoder_contract tokenizer_inventory decoder_dtype) (\<lambda>decoder_contract.
     and_then (validate_manifest_contract manifest [''weights'', ''voice_design''] voice_contract) (\<lambda>_.
     and_then (validate_manifest_contract manifest [''weights'', ''speech_decoder''] decoder_contract) (\<lambda>_.
     and_then (validate_manifest_tensor_index manifest [''weights'', ''voice_design''] voice_contract) (\<lambda>voice_ds.
     and_then (validate_manifest_tensor_index manifest [''weights'', ''speech_decoder''] decoder_contract) (\<lambda>decoder_ds.
     and_then (mapped_open deserialize (fs_lookup VOICE_PARTS tree) VOICE_PATH voice_contract voice_ds) (\<lambda>voice.
     and_then (mapped_open deserialize (fs_lookup CODEC_PARTS tree) CODEC_PATH decoder_contract decoder_ds) (\<lambda>decoder.
     and_then (or_message (Option.bind (json_pointer [''model'', ''revision''] manifest) as_str)
       ''manifest model revision is missing'') (\<lambda>revision.
     Ok \<lparr>na_revision = revision, na_verification = mode, na_voice = voice, na_decoder = decoder,
         na_decoder_dtype = decoder_dtype\<rparr>)))))))))))))))"

definition artifact_open :: "(bytes \<Rightarrow> anyhow + json) \<Rightarrow> (bytes \<Rightarrow> anyhow + checkpoint) \<Rightarrow> anyhow + json \<Rightarrow> anyhow + json \<Rightarrow>
    fs_node option \<Rightarrow> verification_mode \<Rightarrow> (anyhow + native_artifact) unwind" where
  "artifact_open parse deserialize voice_inventory tokenizer_inventory tree mode =
     (case tree of
        None \<Rightarrow> Returned (Err (Context ''failed to inspect artifact root'' (Message [])))
      | Some (DirNode es) \<Rightarrow>
          (case and_then (walk_tree [es]) (\<lambda>_.
                and_then (read_manifest parse (map_of es ''manifest.json'')) (\<lambda>manifest.
                and_then (validate_manifest_identity manifest) (\<lambda>_.
                and_then (parse_manifest_files manifest) (\<lambda>files. Ok (manifest, files))))) of
             Inl e \<Rightarrow> Returned (Err e)
           | Inr (manifest, files) \<Rightarrow>
               (case verify_files (DirNode es) mode files of
                  Panicked \<Rightarrow> Panicked
                | Returned (Inl e) \<Rightarrow> Returned (Err e)
                | Returned (Inr _) \<Rightarrow>
                    Returned (open_checkpoints deserialize voice_inventory tokenizer_inventory (DirNode es) manifest mode)))
      | Some _ \<Rightarrow> Returned (Err (Message ''artifact root must be a real directory, not a symlink'')))"

definition talker_tensor :: "(bytes \<Rightarrow> anyhow + checkpoint) \<Rightarrow> native_artifact \<Rightarrow> bytes \<Rightarrow> anyhow + tensor_ref" where
  "talker_tensor deserialize a name =
     (if \<not> starts_with ''talker.'' name \<or> starts_with ''talker.code_predictor.'' name
      then Err (Message (''tensor '' @ name @ '' is not in the talker namespace''))
      else mapped_tensor deserialize (na_voice a) name)"

definition predictor_tensor :: "(bytes \<Rightarrow> anyhow + checkpoint) \<Rightarrow> native_artifact \<Rightarrow> bytes \<Rightarrow> anyhow + tensor_ref" where
  "predictor_tensor deserialize a name =
     (if \<not> starts_with ''talker.code_predictor.'' name
      then Err (Message (''tensor '' @ name @ '' is not in the code-predictor namespace''))
      else mapped_tensor deserialize (na_voice a) name)"

definition artifact_decoder_tensor :: "(bytes \<Rightarrow> anyhow + checkpoint) \<Rightarrow> native_artifact \<Rightarrow> bytes \<Rightarrow> anyhow + tensor_ref" where
  "artifact_decoder_tensor deserialize a name =
     (if \<not> starts_with ''decoder.'' name
      then Err (Message (''tensor '' @ name @ '' is not in the speech-decoder namespace''))
      else mapped_tensor deserialize (na_decoder a) name)"

record model_memory_metrics =
  me_voice_mapped_file_bytes :: nat
  me_voice_tensor_payload_bytes :: nat
  me_decoder_mapped_file_bytes :: nat
  me_decoder_tensor_payload_bytes :: nat
  me_total_mapped_file_bytes :: nat
  me_total_tensor_payload_bytes :: nat
  me_host_committed_weight_copy_bytes :: nat
  me_runtime_dtype_conversion_bytes :: nat

definition artifact_memory_metrics :: "native_artifact \<Rightarrow> model_memory_metrics unwind" where
  "artifact_memory_metrics a =
     (let vm = length (mk_mapping (na_voice a)); vp = ct_payload_bytes (mk_contract (na_voice a));
          dm = length (mk_mapping (na_decoder a)); dp = ct_payload_bytes (mk_contract (na_decoder a))
      in case (u64_add vm dm, u64_add vp dp) of
        (Some m, Some p) \<Rightarrow> Returned \<lparr>me_voice_mapped_file_bytes = vm, me_voice_tensor_payload_bytes = vp,
          me_decoder_mapped_file_bytes = dm, me_decoder_tensor_payload_bytes = dp,
          me_total_mapped_file_bytes = m, me_total_tensor_payload_bytes = p,
          me_host_committed_weight_copy_bytes = 0, me_runtime_dtype_conversion_bytes = 0\<rparr>
      | _ \<Rightarrow> Panicked)"

section \<open>Chunks of a tensor\<close>

fun chunk_alignment :: "weight_dtype \<Rightarrow> anyhow + nat" where
  "chunk_alignment DtBf16 = Ok 2"
| "chunk_alignment DtF32 = Ok 4"
| "chunk_alignment (DtOther s) = Err (Message (''unsupported staging dtype '' @ s))"

definition chunk_bytes_for :: "weight_dtype \<Rightarrow> nat \<Rightarrow> anyhow + nat" where
  "chunk_bytes_for dtype max_bytes =
     (if max_bytes = 0 then Err (Message ''tensor staging chunk size must be greater than zero'')
      else and_then (chunk_alignment dtype) (\<lambda>alignment.
        let chunk_bytes = max_bytes - max_bytes mod alignment in
        if chunk_bytes = 0
        then Err (Message (''tensor staging chunk size '' @ show_nat max_bytes @ '' is smaller than ''
          @ show_nat alignment @ ''-byte element alignment''))
        else Ok chunk_bytes))"

text \<open>The iterator: the chunk and the new offset, or nothing at the end.\<close>

definition next_chunk :: "bytes \<Rightarrow> nat \<Rightarrow> nat \<Rightarrow> ((nat \<times> bytes) \<times> nat) option" where
  "next_chunk data chunk_bytes offset =
     (if offset = length data then None
      else (let end = min (usize_saturating_add offset chunk_bytes) (length data)
            in Some ((offset, take (end - offset) (drop offset data)), end)))"

function chunks_from :: "bytes \<Rightarrow> nat \<Rightarrow> nat \<Rightarrow> (nat \<times> bytes) list" where
  "chunks_from data chunk_bytes offset =
     (if length data \<le> offset \<or> chunk_bytes = 0 \<or> usize_max < length data then []
      else case next_chunk data chunk_bytes offset of
        None \<Rightarrow> []
      | Some (chunk, end) \<Rightarrow> chunk # chunks_from data chunk_bytes end)"
  by pat_completeness auto
termination
  by (relation "measure (\<lambda>(data, _, offset). length data - offset)")
    (auto simp: next_chunk_def Let_def usize_saturating_add_def split: if_splits)

declare chunks_from.simps [simp del]

definition tensor_chunks :: "tensor_ref \<Rightarrow> nat \<Rightarrow> anyhow + (nat \<times> bytes) list" where
  "tensor_chunks t max_bytes =
     and_then (chunk_bytes_for (tr_dtype t) max_bytes) (\<lambda>chunk_bytes. Ok (chunks_from (tr_bytes t) chunk_bytes 0))"

section \<open>What opening guarantees\<close>

fun regular_tree :: "fs_node \<Rightarrow> bool" where
  "regular_tree (RegularFile _) = True"
| "regular_tree (DirNode es) = list_all (\<lambda>(_, n). regular_tree n) es"
| "regular_tree _ = False"

lemma scan_dir_regular:
  "scan_dir es = Ok ds \<Longrightarrow> list_all (list_all (\<lambda>(_, n). regular_tree n)) ds \<Longrightarrow> list_all (\<lambda>(_, n). regular_tree n) es"
proof (induction es arbitrary: ds)
  case (Cons e es)
  obtain name n where e: "e = (name, n)" by (cases e)
  show ?case by (cases n) (use Cons in \<open>auto simp: e and_then_Ok_iff\<close>)
qed simp

lemma walk_tree_regular:
  "walk_tree ds = Ok () \<Longrightarrow> list_all (list_all (\<lambda>(_, n). regular_tree n)) ds"
proof (induction ds rule: walk_tree.induct)
  case 1
  then show ?case by simp
next
  case (2 d pending)
  obtain inner where inner: "scan_dir d = Ok inner" "walk_tree (rev inner @ pending) = Ok ()"
    using "2.prems" walk_tree.simps(2) [of d pending] by (auto split: sum.splits)
  then show ?case using "2.IH" scan_dir_regular [OF inner(1)] by simp
qed

lemma file_reads_concat: "0 < n \<Longrightarrow> concat (file_reads n data) = data"
proof (induction n data rule: file_reads.induct)
  case (1 n data)
  then show ?case by (subst file_reads.simps) simp
qed

lemma file_reads_sizes: "r \<in> set (file_reads n data) \<Longrightarrow> r \<noteq> [] \<and> length r \<le> n"
proof (induction n data rule: file_reads.induct)
  case (1 n data)
  then show ?case by (subst (asm) (2) file_reads.simps) (auto split: if_splits)
qed

lemma hash_of_file:
  assumes "digest_reader HASH_BUFFER_BYTES (map Inr (file_reads HASH_BUFFER_BYTES data)) = Returned (Ok (d, n))"
  shows "d = sha256_digest data"
proof -
  have "r \<noteq> [] \<and> length r < 2 ^ 64" if "r \<in> set (file_reads HASH_BUFFER_BYTES data)" for r
    using file_reads_sizes [OF that] by (simp add: HASH_BUFFER_BYTES_def)
  then have "d = sha256_digest ([] @ concat (file_reads HASH_BUFFER_BYTES data))"
    using assms by (intro digest_loop_Ok [OF has_seen_new, of 0]) (auto simp: digest_reader_def HASH_BUFFER_BYTES_def)
  then show ?thesis by (simp add: file_reads_concat HASH_BUFFER_BYTES_def)
qed

lemma regular_file_Ok: "regular_file n path = Ok data \<longleftrightarrow> n = Some (RegularFile data)"
  by (auto simp: regular_file_def split: option.splits fs_node.splits)

text \<open>A file that is what the manifest says.\<close>

definition verified :: "fs_node \<Rightarrow> bytes list \<times> manifest_file \<Rightarrow> bool" where
  "verified tree f \<longleftrightarrow> (\<exists>data. fs_lookup (fst f) tree = Some (RegularFile data) \<and>
     length data = mf_bytes (snd f) \<and> to_hex (sha256_digest data) = mf_sha256 (snd f))"

lemma verify_files_verified:
  "verify_files tree FullVerification files = Returned (Ok ()) \<Longrightarrow> \<forall>f \<in> set files. verified tree f"
proof (induction files)
  case (Cons f files)
  obtain relative expected where f: "f = (relative, expected)" by (cases f)
  obtain data where data: "fs_lookup relative tree = Some (RegularFile data)"
    using Cons.prems by (cases "regular_file (fs_lookup relative tree) (show_path relative)") (auto simp: f regular_file_Ok)
  then have reg: "regular_file (fs_lookup relative tree) (show_path relative) = Ok data" by (simp add: regular_file_Ok)
  obtain digest n where h: "digest_reader HASH_BUFFER_BYTES (map Inr (file_reads HASH_BUFFER_BYTES data)) =
      Returned (Ok (digest, n))"
    using Cons.prems by (auto simp: f reg split: unwind.splits sum.splits if_splits)
  then show ?case
    using Cons data hash_of_file [OF h] by (auto simp: f regular_file_def verified_def split: if_splits)
qed simp

lemma normal_parts_safe:
  "normal_parts ps = Some cs \<Longrightarrow> set ps \<subseteq> range NormalPart \<and> ps = map NormalPart cs"
  by (induction ps arbitrary: cs rule: normal_parts.induct) auto

lemma safe_relative_parts:
  assumes "safe_relative_path encoded = Ok cs"
  shows "''..'' \<notin> set cs \<and> ''.'' \<notin> set cs \<and> [] \<notin> set cs"
proof -
  have ps: "path_components encoded = map NormalPart cs"
    using assms normal_parts_safe by (auto simp: safe_relative_path_def split: if_splits)
  have "NormalPart p \<in> set (path_components encoded) \<Longrightarrow> p \<noteq> ''..'' \<and> p \<noteq> ''.'' \<and> p \<noteq> []" for p
    by (auto simp: path_components_def classify_part_def Let_def split: if_splits)
  then show ?thesis unfolding ps by fastforce
qed

lemma manifest_entries_safe:
  assumes "manifest_entries files es = Ok files'"
    and "\<forall>relative \<in> fst ` set files. ''..'' \<notin> set relative"
  shows "\<forall>relative \<in> fst ` set files'. ''..'' \<notin> set relative"
  using assms
proof (induction es arbitrary: files)
  case (Cons e es)
  obtain encoded v where e: "e = (encoded, v)" by (cases e)
  obtain relative f where p: "safe_relative_path encoded = Ok relative"
    and rest: "manifest_entries (bt_insert relative f files) es = Ok files'"
    using Cons.prems(1) by (auto simp: e and_then_Ok_iff split: if_splits)
  show ?case
    using Cons.IH [OF rest] Cons.prems(2) safe_relative_parts [OF p] by simp
qed simp

text \<open>What the loader's checks of an index give: a descriptor for every tensor of the contract, one
  directly after the other.\<close>

lemma check_entry_Ok:
  "check_entry context name spec offset e = Ok d \<Longrightarrow>
     \<exists>sha. d = \<lparr>td_name = name, td_sha256 = sha, td_dtype = tp_dtype spec, td_shape = tp_shape spec,
        td_arena_offset_bytes = offset, td_bytes = tp_bytes spec\<rparr>"
  by (auto simp: check_entry_def and_then_Ok_iff)

definition described :: "(bytes \<times> tensor_descriptor) list \<Rightarrow> nat \<Rightarrow> bytes \<Rightarrow> tensor_spec \<Rightarrow> bool" where
  "described ds offset name spec \<longleftrightarrow> (\<exists>sha. map_of ds name = Some \<lparr>td_name = name, td_sha256 = sha,
     td_dtype = tp_dtype spec, td_shape = tp_shape spec, td_arena_offset_bytes = offset, td_bytes = tp_bytes spec\<rparr>)"

fun all_described :: "(bytes \<times> tensor_descriptor) list \<Rightarrow> nat \<Rightarrow> (bytes \<times> tensor_spec) list \<Rightarrow> bool" where
  "all_described ds offset [] = True"
| "all_described ds offset ((name, spec) # rest) =
     (described ds offset name spec \<and> all_described ds (offset + tp_bytes spec) rest)"

lemma check_entries_Ok:
  assumes "check_entries pointer i ds offset (zip es specs) = Ok (ds', end)" and "length es = length specs"
    and "bt_map ds" and "distinct (map fst specs)"
  shows "all_described ds' offset specs \<and> (\<forall>name. name \<notin> fst ` set specs \<longrightarrow> map_of ds' name = map_of ds name)"
  using assms
proof (induction specs arbitrary: i ds offset es)
  case (Cons s specs)
  obtain name spec where s: "s = (name, spec)" by (cases s)
  obtain e es' where es: "es = e # es'" "length es' = length specs" using Cons.prems(2) by (cases es) auto
  obtain ctx d where d: "check_entry ctx name spec offset e = Ok d"
    and rest: "check_entries pointer (i + 1) (bt_insert name d ds) (offset + tp_bytes spec) (zip es' specs) = Ok (ds', end)"
    using Cons.prems(1) by (auto simp: s es Let_def and_then_Ok_iff u64_add_def split: if_splits)
  have new: "name \<notin> fst ` set specs" using Cons.prems(4) s by auto
  have ih: "all_described ds' (offset + tp_bytes spec) specs"
      "\<forall>name'. name' \<notin> fst ` set specs \<longrightarrow> map_of ds' name' = map_of (bt_insert name d ds) name'"
    using Cons.IH [OF rest es(2) bt_insert_map [OF Cons.prems(3)]] Cons.prems(4) by simp_all
  have "map_of ds' name = Some d" using ih(2) new bt_insert_lookup [OF Cons.prems(3)] by simp
  then show ?case
    using ih bt_insert_lookup [OF Cons.prems(3)] check_entry_Ok [OF d] by (auto simp: s described_def)
qed simp

lemma bt_map_distinct: "bt_map m \<Longrightarrow> distinct (map fst m)"
  by (induction m) auto

lemma manifest_index_described:
  assumes "validate_manifest_tensor_index manifest pointer contract = Ok ds" and "contract_ok contract"
  shows "all_described ds 0 (ct_tensors contract)"
  using assms check_entries_Ok bt_map_distinct
  by (fastforce simp: validate_manifest_tensor_index_def Let_def and_then_Ok_iff contract_ok_def split: if_splits)

lemma validate_each_Ok:
  assumes "validate_each label tensors params payload specs = Ok r"
  shows "\<forall>(name, spec) \<in> set specs. \<exists>t. map_of tensors name = Some t \<and> sx_dtype t = tp_dtype spec \<and>
    sx_shape t = tp_shape spec \<and> length (sx_data t) = tp_bytes spec"
  using assms
  by (induction label tensors params payload specs rule: validate_each.induct)
    (fastforce simp: and_then_Ok_iff validate_tensor_def Let_def split: if_splits)+

text \<open>A mapped checkpoint that is what its contract says.\<close>

definition matches_contract :: "(bytes \<Rightarrow> anyhow + checkpoint) \<Rightarrow> mapped_checkpoint \<Rightarrow> bool" where
  "matches_contract deserialize k \<longleftrightarrow> contract_ok (mk_contract k) \<and>
     (\<forall>n. ct_exact_file_bytes (mk_contract k) = Some n \<longrightarrow> length (mk_mapping k) = n) \<and>
     (\<exists>tensors. deserialize (mk_mapping k) = Ok tensors \<and> length tensors = length (ct_tensors (mk_contract k)) \<and>
        fst ` set tensors = fst ` set (ct_tensors (mk_contract k)) \<and>
        (\<forall>(name, spec) \<in> set (ct_tensors (mk_contract k)). \<exists>t. map_of tensors name = Some t \<and>
           sx_dtype t = tp_dtype spec \<and> sx_shape t = tp_shape spec \<and> length (sx_data t) = tp_bytes spec)) \<and>
     all_described (mk_descriptors k) 0 (ct_tensors (mk_contract k))"

lemma mapped_open_Ok:
  assumes "mapped_open deserialize n path contract ds = Ok k" and "contract_ok contract"
    and "all_described ds 0 (ct_tensors contract)"
  shows "n = Some (RegularFile (mk_mapping k)) \<and> mk_contract k = contract \<and> matches_contract deserialize k"
proof -
  obtain data tensors summary where d: "n = Some (RegularFile data)" "deserialize data = Ok tensors"
      "validate_tensors tensors contract = Ok summary"
      "k = \<lparr>mk_mapping = data, mk_contract = contract, mk_descriptors = ds\<rparr>"
      "\<forall>n. ct_exact_file_bytes contract = Some n \<longrightarrow> length data = n"
    using assms(1) by (auto simp: mapped_open_def and_then_Ok_iff regular_file_Ok split: option.splits)
  obtain r where r: "length tensors = ct_tensor_count contract" "fst ` set tensors = fst ` set (ct_tensors contract)"
      "validate_each (ct_label contract) tensors 0 0 (ct_tensors contract) = Ok r"
    using d(3) by (auto simp: validate_tensors_def and_then_Ok_iff split: if_splits)
  then show ?thesis
    using d assms(2,3) validate_each_Ok [OF r(3)] by (simp add: matches_contract_def contract_ok_def)
qed

lemma open_checkpoints_Ok:
  assumes "open_checkpoints deserialize voice_inventory tokenizer_inventory tree manifest mode = Ok a"
  shows "voice_design_contract voice_inventory = Ok (mk_contract (na_voice a)) \<and>
    speech_decoder_contract tokenizer_inventory (na_decoder_dtype a) = Ok (mk_contract (na_decoder a)) \<and>
    fs_lookup VOICE_PARTS tree = Some (RegularFile (mk_mapping (na_voice a))) \<and>
    fs_lookup CODEC_PARTS tree = Some (RegularFile (mk_mapping (na_decoder a))) \<and>
    matches_contract deserialize (na_voice a) \<and> matches_contract deserialize (na_decoder a)"
proof -
  obtain dtype vc dc vd dd voice decoder revision where c: "voice_design_contract voice_inventory = Ok vc"
      "speech_decoder_contract tokenizer_inventory dtype = Ok dc"
      "validate_manifest_tensor_index manifest [''weights'', ''voice_design''] vc = Ok vd"
      "validate_manifest_tensor_index manifest [''weights'', ''speech_decoder''] dc = Ok dd"
      "mapped_open deserialize (fs_lookup VOICE_PARTS tree) VOICE_PATH vc vd = Ok voice"
      "mapped_open deserialize (fs_lookup CODEC_PARTS tree) CODEC_PATH dc dd = Ok decoder"
      "a = \<lparr>na_revision = revision, na_verification = mode, na_voice = voice, na_decoder = decoder, na_decoder_dtype = dtype\<rparr>"
    using assms by (auto simp: open_checkpoints_def and_then_Ok_iff)
  have ok: "contract_ok vc" "contract_ok dc"
    using c(1,2) by (auto simp: voice_design_contract_def speech_decoder_contract_def intro: parse_inventory_ok)
  show ?thesis
    using mapped_open_Ok [OF c(5) ok(1) manifest_index_described [OF c(3) ok(1)]]
      mapped_open_Ok [OF c(6) ok(2) manifest_index_described [OF c(4) ok(2)]] c(1,2)
    by (simp add: c(7))
qed

text \<open>C22: an artifact that opens under full verification is what its manifest says: the directory has no
  symbolic link or special file anywhere, no manifest path leaves it, both checkpoints are listed,
  and every listed file is there with the listed size and SHA-256 digest. The two checkpoints handed
  out are those files, and each matches the contract of its inventory: exactly the contract's tensors,
  each of the contract's type, shape and size, with the exact file size where the contract gives
  one, and the manifest's index describes every tensor so, one directly after the other from offset zero.\<close>

theorem artifact_full_verified:
  assumes "artifact_open parse deserialize voice_inventory tokenizer_inventory (Some tree) FullVerification = Returned (Ok a)"
  shows "regular_tree tree \<and>
    (\<exists>es data manifest files. tree = DirNode es \<and> map_of es ''manifest.json'' = Some (RegularFile data) \<and>
       parse data = Ok manifest \<and> parse_manifest_files manifest = Ok files \<and>
       VOICE_PARTS \<in> fst ` set files \<and> CODEC_PARTS \<in> fst ` set files \<and>
       (\<forall>f \<in> set files. ''..'' \<notin> set (fst f) \<and> verified tree f)) \<and>
    voice_design_contract voice_inventory = Ok (mk_contract (na_voice a)) \<and>
    speech_decoder_contract tokenizer_inventory (na_decoder_dtype a) = Ok (mk_contract (na_decoder a)) \<and>
    fs_lookup VOICE_PARTS tree = Some (RegularFile (mk_mapping (na_voice a))) \<and>
    fs_lookup CODEC_PARTS tree = Some (RegularFile (mk_mapping (na_decoder a))) \<and>
    matches_contract deserialize (na_voice a) \<and> matches_contract deserialize (na_decoder a)"
proof -
  obtain es where tree: "tree = DirNode es"
    using assms by (cases tree) (auto simp: artifact_open_def)
  obtain manifest files where m: "walk_tree [es] = Ok ()" "read_manifest parse (map_of es ''manifest.json'') = Ok manifest"
      "parse_manifest_files manifest = Ok files" "verify_files tree FullVerification files = Returned (Ok ())"
      "open_checkpoints deserialize voice_inventory tokenizer_inventory tree manifest FullVerification = Ok a"
    using assms by (auto simp: artifact_open_def tree and_then_Ok_iff split: sum.splits unwind.splits)
  obtain data where data: "map_of es ''manifest.json'' = Some (RegularFile data)" "parse data = Ok manifest"
    using m(2) by (auto simp: read_manifest_def and_then_Ok_iff regular_file_Ok split: if_splits)
  have req: "VOICE_PARTS \<in> fst ` set files" "CODEC_PARTS \<in> fst ` set files"
    using m(3) by (auto simp: parse_manifest_files_def and_then_Ok_iff)
  have "\<forall>relative \<in> fst ` set files. ''..'' \<notin> set relative"
    using m(3) manifest_entries_safe [of "[]"] by (fastforce simp: parse_manifest_files_def and_then_Ok_iff)
  then show ?thesis
    using walk_tree_regular [OF m(1)] verify_files_verified [OF m(4)] m(3) data req tree open_checkpoints_Ok [OF m(5)]
    by auto
qed

text \<open>A small artifact: one tensor of two bytes in each checkpoint.\<close>

definition tiny_spec :: "bytes \<Rightarrow> tensor_spec" where
  "tiny_spec name = \<lparr>tp_name = name, tp_dtype = DtBf16, tp_shape = [1], tp_parameters = 1, tp_bytes = 2\<rparr>"

definition tiny_inventory :: "bytes \<Rightarrow> json" where
  "tiny_inventory name = JObject [(''file_bytes'', JUnsigned 2), (''tensors'', JArray [JObject
     [(''name'', JString name), (''dtype'', JString ''BF16''), (''shape'', JArray [JUnsigned 1]),
      (''parameters'', JUnsigned 1), (''bytes'', JUnsigned 2)]])]"

definition tiny_file :: "bytes \<Rightarrow> json" where
  "tiny_file data = JObject [(''bytes'', JUnsigned 2), (''sha256'', JString (to_hex (sha256_digest data)))]"

definition tiny_weights :: "bytes \<Rightarrow> bytes \<Rightarrow> bytes \<Rightarrow> json" where
  "tiny_weights path name data = JObject
     [(''path'', JString path), (''dtype'', JString ''BF16''), (''encoder_included'', JBool False),
      (''tensor_count'', JUnsigned 1), (''parameter_count'', JUnsigned 1), (''payload_bytes'', JUnsigned 2),
      (''tensors'', JArray [index_entry name (tiny_spec name) 0 (sha256_digest data)])]"

definition tiny_manifest :: json where
  "tiny_manifest = JObject
     [(''schema_version'', JUnsigned 1), (''artifact'', JString ARTIFACT_KIND),
      (''model'', JObject [(''id'', JString MODEL_ID), (''revision'', JString (replicate 40 (CHR ''a'')))]),
      (''production_material'', JObject [(''regular_files_only'', JBool True), (''symlink_count'', JUnsigned 0)]),
      (''files'', JObject [(''model.safetensors'', tiny_file ''ab''), (''speech_tokenizer/model.safetensors'', tiny_file ''cd'')]),
      (''weights'', JObject [(''voice_design'', tiny_weights VOICE_PATH ''talker.w'' ''ab''),
                           (''speech_decoder'', tiny_weights CODEC_PATH ''decoder.w'' ''cd'')])]"

definition tiny_tree :: fs_node where
  "tiny_tree = DirNode [(''manifest.json'', RegularFile ''{}''), (''model.safetensors'', RegularFile ''ab''),
     (''speech_tokenizer'', DirNode [(''model.safetensors'', RegularFile ''cd'')])]"

definition tiny_deserialize :: "bytes \<Rightarrow> anyhow + checkpoint" where
  "tiny_deserialize data = Ok [(if data = ''ab'' then ''talker.w'' else ''decoder.w'',
     \<lparr>sx_dtype = DtBf16, sx_shape = [1], sx_data = data\<rparr>)]"

lemma tiny_contracts:
  "voice_design_contract (Ok (tiny_inventory ''talker.w'')) = Ok \<lparr>ct_label = ''voice-design-1.7b'',
     ct_tensors = [(''talker.w'', tiny_spec ''talker.w'')], ct_tensor_count = 1, ct_parameter_count = 1,
     ct_payload_bytes = 2, ct_exact_file_bytes = Some 2\<rparr>"
  "speech_decoder_contract (Ok (tiny_inventory ''decoder.w'')) CodecBf16 = Ok \<lparr>ct_label = ''speech-decoder-bf16'',
     ct_tensors = [(''decoder.w'', tiny_spec ''decoder.w'')], ct_tensor_count = 1, ct_parameter_count = 1,
     ct_payload_bytes = 2, ct_exact_file_bytes = None\<rparr>"
  by (simp_all add: voice_design_contract_def speech_decoder_contract_def parse_inventory_def tiny_inventory_def
      inventory_spec_def parse_dtype_def or_message_def ok_or_def u64_mul_def u64_add_def u64_max_def
      tiny_spec_def Let_def starts_with_def)

lemma tiny_paths:
  "safe_relative_path ''model.safetensors'' = Ok VOICE_PARTS"
  "safe_relative_path ''speech_tokenizer/model.safetensors'' = Ok CODEC_PARTS"
  by (simp_all add: safe_relative_path_def path_components_def classify_part_def split_on.simps starts_with_def
      or_message_def ok_or_def VOICE_PARTS_def CODEC_PARTS_def)

lemma tiny_spec_simps [simp]:
  "tp_name (tiny_spec n) = n" "tp_dtype (tiny_spec n) = DtBf16" "tp_shape (tiny_spec n) = [1]"
  "tp_parameters (tiny_spec n) = 1" "tp_bytes (tiny_spec n) = 2"
  by (simp_all add: tiny_spec_def)

lemma tiny_hex: "length (to_hex (sha256_digest m)) = 64" "list_all lower_hex (to_hex (sha256_digest m))"
  using hex_round_trip [of "sha256_digest m"] by simp_all

definition tiny_files :: "(bytes list \<times> manifest_file) list" where
  "tiny_files = [(VOICE_PARTS, \<lparr>mf_bytes = 2, mf_sha256 = to_hex (sha256_digest ''ab'')\<rparr>),
     (CODEC_PARTS, \<lparr>mf_bytes = 2, mf_sha256 = to_hex (sha256_digest ''cd'')\<rparr>)]"

lemma tiny_manifest_files: "parse_manifest_files tiny_manifest = Ok tiny_files"
proof -
  have "\<not> CODEC_PARTS < VOICE_PARTS" "CODEC_PARTS \<noteq> VOICE_PARTS"
    by (simp_all add: CODEC_PARTS_def VOICE_PARTS_def less_char_def)
  then show ?thesis
    by (simp add: parse_manifest_files_def tiny_manifest_def tiny_file_def tiny_paths or_message_def ok_or_def tiny_hex
        tiny_files_def)
qed

lemma tiny_verified: "verify_files tiny_tree FullVerification tiny_files = Returned (Ok ())"
proof -
  have read: "file_reads HASH_BUFFER_BYTES [a, b] = [[a, b]]" for a b
    by (simp add: file_reads.simps HASH_BUFFER_BYTES_def)
  have "digest_reader HASH_BUFFER_BYTES [Inr [a, b]] = Returned (Ok (sha256_digest [a, b], 2))" for a b
    using digest_loop_seen [OF has_seen_new, of 0 "[[a, b]]"] by (simp add: digest_reader_def HASH_BUFFER_BYTES_def)
  then show ?thesis
    by (simp add: tiny_tree_def tiny_files_def VOICE_PARTS_def CODEC_PARTS_def regular_file_def read)
qed

lemma tiny_index:
  "check_entries p i [] 0 [(index_entry name (tiny_spec name) 0 (sha256_digest m), name, tiny_spec name)] =
     Ok ([(name, \<lparr>td_name = name, td_sha256 = sha256_digest m, td_dtype = DtBf16, td_shape = [1],
        td_arena_offset_bytes = 0, td_bytes = 2\<rparr>)], 2)"
  using check_index_entry [of "sha256_digest m" _ name "tiny_spec name" 0]
  by (simp add: tiny_spec_def Let_def or_message_def ok_or_def u64_add_def u64_max_def)

lemma tiny_open:
  "is_ok (open_checkpoints tiny_deserialize (Ok (tiny_inventory ''talker.w'')) (Ok (tiny_inventory ''decoder.w''))
     tiny_tree tiny_manifest FullVerification)"
proof -
  have dtype: "codec_dtype_parse (to_ascii_lower ''BF16'') = Ok CodecBf16"
    by code_simp
  show ?thesis
    by (simp add: open_checkpoints_def tiny_manifest_def tiny_weights_def or_message_def ok_or_def dtype
        expect_manifest_string_def expect_manifest_bool_def expect_manifest_u64_def expect_manifest_def tiny_contracts
        validate_manifest_contract_def validate_manifest_tensor_index_def tiny_index Let_def
        mapped_open_def tiny_tree_def VOICE_PARTS_def CODEC_PARTS_def regular_file_def tiny_deserialize_def
        validate_tensors_def validate_tensor_def u64_add_def u64_max_def
        del: check_entries.simps)
qed

lemma artifact_full_verified_witness:
  "\<exists>a. artifact_open (\<lambda>_. Ok tiny_manifest) tiny_deserialize (Ok (tiny_inventory ''talker.w''))
       (Ok (tiny_inventory ''decoder.w'')) (Some tiny_tree) FullVerification = Returned (Ok a) \<and>
     regular_tree tiny_tree \<and>
     (\<exists>files. parse_manifest_files tiny_manifest = Ok files \<and> VOICE_PARTS \<in> fst ` set files) \<and>
     mk_mapping (na_voice a) = ''ab'' \<and> matches_contract tiny_deserialize (na_voice a) \<and>
     matches_contract tiny_deserialize (na_decoder a)"
proof -
  obtain a where a: "open_checkpoints tiny_deserialize (Ok (tiny_inventory ''talker.w'')) (Ok (tiny_inventory ''decoder.w''))
     tiny_tree tiny_manifest FullVerification = Ok a"
    using tiny_open by (auto simp: is_ok_iff)
  have "commit_hash (replicate 40 (CHR ''a''))"
    by (simp add: commit_hash_def list_all_iff lower_hex_def bv_def)
  then have ident: "validate_manifest_identity tiny_manifest = Ok ()"
    by (simp add: validate_manifest_identity_def tiny_manifest_def expect_manifest_string_def expect_manifest_bool_def
        expect_manifest_u64_def expect_manifest_def or_message_def ok_or_def)
  have opened: "artifact_open (\<lambda>_. Ok tiny_manifest) tiny_deserialize (Ok (tiny_inventory ''talker.w''))
       (Ok (tiny_inventory ''decoder.w'')) (Some tiny_tree) FullVerification = Returned (Ok a)"
    using a tiny_verified unfolding tiny_tree_def
    by (simp add: artifact_open_def walk_tree.simps read_manifest_def regular_file_def MANIFEST_MAX_BYTES_def
        ident tiny_manifest_files)
  have "fs_lookup VOICE_PARTS tiny_tree = Some (RegularFile ''ab'')" by (simp add: tiny_tree_def VOICE_PARTS_def)
  then show ?thesis using artifact_full_verified [OF opened] opened by auto
qed

end
