(* ===== verification/NtSegments.thy ===== *)
theory NtSegments
  imports NtTokenizer
begin

text \<open>
  What the tokenizer's \<open>encode\<close> computes: the text is cut at the first added token, the longest one
  where several start together, and again after it, and what lies between is encoded by itself.
\<close>

definition occurs_at :: "bytes \<Rightarrow> bytes \<Rightarrow> nat \<Rightarrow> bool" where
  "occurs_at token body k \<longleftrightarrow> take (length token) (drop k body) = token"

definition first_added :: "qwen2_tokenizer \<Rightarrow> bytes \<Rightarrow> nat \<Rightarrow> bytes \<Rightarrow> u32 \<Rightarrow> bool" where
  "first_added t body k token ident \<longleftrightarrow> (token, ident) \<in> set (tk_added_tokens t) \<and> occurs_at token body k \<and>
     (\<forall>(other, ident') \<in> set (tk_added_tokens t). (\<forall>j < k. \<not> occurs_at other body j) \<and>
        (occurs_at other body k \<longrightarrow> length other < length token \<or> other = token \<and> ident \<le> ident'))"

text \<open>The segmentation of a text and its ids.\<close>

inductive segmented :: "qwen2_tokenizer \<Rightarrow> bytes \<Rightarrow> u32 list \<Rightarrow> bool" where
  segmented_end: "segmented t [] []"
| segmented_last: "s \<noteq> [] \<Longrightarrow> \<forall>(token, ident) \<in> set (tk_added_tokens t). \<forall>k. \<not> occurs_at token s k \<Longrightarrow>
    encode_ordinary t s = Ok ids \<Longrightarrow> segmented t s ids"
| segmented_token: "first_added t (s @ token @ rest) (length s) token ident \<Longrightarrow>
    (if s = [] then ids = [] else encode_ordinary t s = Ok ids) \<Longrightarrow> segmented t rest others \<Longrightarrow>
    segmented t (s @ token @ rest) (ids @ ident # others)"

definition no_empty_token :: "qwen2_tokenizer \<Rightarrow> bool" where
  "no_empty_token t \<longleftrightarrow> (\<forall>(token, ident) \<in> set (tk_added_tokens t). token \<noteq> [])"

lemma occurs_inside: "occurs_at token body k \<Longrightarrow> token \<noteq> [] \<Longrightarrow> k < length body"
  by (rule ccontr) (simp add: occurs_at_def)

lemma find_sub_at:
  "find_sub token body = Some k \<longleftrightarrow> occurs_at token body k \<and> (\<forall>j < k. \<not> occurs_at token body j)" if "token \<noteq> []"
proof
  assume "find_sub token body = Some k"
  then show "occurs_at token body k \<and> (\<forall>j < k. \<not> occurs_at token body j)"
    using find_sub_Some by (fastforce simp: occurs_at_def starts_with_def)
next
  assume k: "occurs_at token body k \<and> (\<forall>j < k. \<not> occurs_at token body j)"
  then have len: "k \<le> length body" using occurs_inside [OF _ that] by fastforce
  show "find_sub token body = Some k"
  proof (cases "find_sub token body")
    case None
    then show ?thesis using find_sub_None [OF None len] k by (simp add: occurs_at_def starts_with_def)
  next
    case (Some i)
    note i = find_sub_Some [OF Some]
    have "i = k" using i k by (metis linorder_neqE_nat occurs_at_def starts_with_def)
    then show ?thesis using Some by simp
  qed
qed

lemma find_sub_nowhere:
  assumes "token \<noteq> []"
  shows "find_sub token body = None \<longleftrightarrow> (\<forall>k. \<not> occurs_at token body k)"
proof
  assume n: "find_sub token body = None"
  show "\<forall>k. \<not> occurs_at token body k"
  proof (intro allI notI)
    fix k assume k: "occurs_at token body k"
    then show False
      using find_sub_None [OF n, of k] occurs_inside [OF k assms] by (simp add: occurs_at_def starts_with_def)
  qed
next
  assume "\<forall>k. \<not> occurs_at token body k"
  then show "find_sub token body = None"
    using find_sub_at [OF assms, of body] by (cases "find_sub token body") auto
qed

lemma same_length_token: "occurs_at a body k \<Longrightarrow> occurs_at b body k \<Longrightarrow> length a = length b \<Longrightarrow> a = b"
  by (simp add: occurs_at_def)

section \<open>The next added token\<close>

lemma candidates_iff:
  "(k, token, ident) \<in> set (List.map_filter (\<lambda>(token, ident). map_option (\<lambda>offset. (offset, token, ident)) (find_sub token body))
     (tk_added_tokens t)) \<longleftrightarrow> (token, ident) \<in> set (tk_added_tokens t) \<and> find_sub token body = Some k"
  by (force simp: List.map_filter_def image_iff)

lemma next_added_first:
  assumes "no_empty_token t" and "next_added_token t body = Some (k, token, ident)"
  shows "first_added t body k token ident"
proof -
  let ?cs = "List.map_filter (\<lambda>(token, ident). map_option (\<lambda>offset. (offset, token, ident)) (find_sub token body)) (tk_added_tokens t)"
  note m = min_first_Some [OF assms(2) [unfolded next_added_token_def]]
  have here: "(token, ident) \<in> set (tk_added_tokens t)" "find_sub token body = Some k"
    using m candidates_iff by blast+
  then have at: "occurs_at token body k"
    using assms(1) find_sub_at by (fastforce simp: no_empty_token_def)
  have "(\<forall>j < k. \<not> occurs_at other body j) \<and>
      (occurs_at other body k \<longrightarrow> length other < length token \<or> other = token \<and> ident \<le> ident')"
    if o: "(other, ident') \<in> set (tk_added_tokens t)" for other ident'
  proof (cases "find_sub other body")
    case None
    have "other \<noteq> []" using assms(1) o by (auto simp: no_empty_token_def)
    then show ?thesis using find_sub_nowhere [of other body] None by simp
  next
    case (Some j)
    have ne: "other \<noteq> []" using assms(1) o by (auto simp: no_empty_token_def)
    note f = find_sub_at [OF ne, THEN iffD1, OF Some]
    have "(j, other, ident') \<in> set ?cs" using o Some by (simp add: candidates_iff)
    then have le: "(k, - int (length token), ident) \<le> (j, - int (length other), ident')" using m by fastforce
    then have "k \<le> j" by (auto simp: less_eq_prod_def)
    moreover have "length other < length token \<or> other = token \<and> ident \<le> ident'" if now: "occurs_at other body k"
    proof -
      have "j = k" using f now \<open>k \<le> j\<close> by (metis le_neq_implies_less)
      then show ?thesis using le same_length_token [OF now at] by (auto simp: less_eq_prod_def)
    qed
    ultimately show ?thesis using f by (meson less_le_trans)
  qed
  then show ?thesis using here(1) at by (auto simp: first_added_def)
qed

lemma next_added_nowhere:
  assumes "no_empty_token t"
  shows "next_added_token t body = None \<longleftrightarrow> (\<forall>(token, ident) \<in> set (tk_added_tokens t). \<forall>k. \<not> occurs_at token body k)"
proof -
  have "next_added_token t body = None \<longleftrightarrow> (\<forall>(token, ident) \<in> set (tk_added_tokens t). find_sub token body = None)"
    by (auto simp: next_added_token_def List.map_filter_def filter_empty_conv)
  moreover have "find_sub token body = None \<longleftrightarrow> (\<forall>k. \<not> occurs_at token body k)"
    if "(token, ident) \<in> set (tk_added_tokens t)" for token ident
    using that assms find_sub_nowhere [of token body] by (auto simp: no_empty_token_def)
  ultimately show ?thesis by blast
qed

lemma first_added_unique:
  assumes "first_added t body k token ident" and "first_added t body k' token' ident'"
  shows "k' = k \<and> token' = token \<and> ident' = ident"
proof -
  have k: "k' = k"
    using assms unfolding first_added_def by (metis (no_types, lifting) case_prodD linorder_neqE_nat)
  have "length token < length token' \<or> token = token' \<and> ident' \<le> ident"
    "length token' < length token \<or> token' = token \<and> ident \<le> ident'"
    using assms k unfolding first_added_def by fast+
  then show ?thesis using k by auto
qed

lemma next_added_iff:
  assumes "no_empty_token t"
  shows "next_added_token t body = Some (k, token, ident) \<longleftrightarrow> first_added t body k token ident"
proof
  assume f: "first_added t body k token ident"
  then have "(token, ident) \<in> set (tk_added_tokens t)" "occurs_at token body k" by (simp_all add: first_added_def)
  then have "next_added_token t body \<noteq> None"
    using next_added_nowhere [OF assms, of body] by blast
  then obtain k' token' ident' where n: "next_added_token t body = Some (k', token', ident')" by auto
  then show "next_added_token t body = Some (k, token, ident)"
    using first_added_unique [OF f next_added_first [OF assms n]] by simp
qed (rule next_added_first [OF assms])

section \<open>The loop\<close>

lemma occurs_split: "occurs_at token body k \<Longrightarrow> body = take k body @ token @ drop (k + length token) body"
  by (metis append_take_drop_id drop_drop add.commute occurs_at_def)

lemma encode_loop_ends:
  assumes "no_empty_token t"
  shows "\<exists>r. encode_loop t rest ids = Some r \<and> (\<forall>out. r = Ok out \<longrightarrow> (\<exists>out'. out = ids @ out' \<and> segmented t rest out'))"
proof (induction rest arbitrary: ids rule: length_induct)
  case (1 rest)
  consider "rest = []" | "rest \<noteq> []" "next_added_token t rest = None"
    | k token ident where "rest \<noteq> []" "next_added_token t rest = Some (k, token, ident)"
    by (cases "next_added_token t rest") auto
  then show ?case
  proof cases
    case 1
    then show ?thesis by (subst encode_loop.simps) (simp add: segmented_end)
  next
    case 2
    then show ?thesis
      using next_added_nowhere [OF assms, of rest]
      by (subst encode_loop.simps) (auto simp: and_then_Ok_iff intro!: segmented_last)
  next
    case (3 k token ident)
    note first = next_added_first [OF assms 3(2)]
    then have at: "(token, ident) \<in> set (tk_added_tokens t)" "occurs_at token rest k" by (simp_all add: first_added_def)
    let ?rest' = "drop (k + length token) rest"
    have ne: "token \<noteq> []" using assms at(1) by (auto simp: no_empty_token_def)
    then have k: "k < length rest" using occurs_inside [OF at(2)] by simp
    have shorter: "length ?rest' < length rest" using k ne by (cases token) auto
    let ?seg = "if k > 0 then encode_ordinary t (take k rest) else Ok []"
    show ?thesis
    proof (cases ?seg)
      case (Inl e)
      then show ?thesis using 3 by (subst encode_loop.simps) simp
    next
      case (Inr others)
      have step: "encode_loop t rest ids = encode_loop t ?rest' (ids @ others @ [ident])"
        using 3 Inr by (subst encode_loop.simps) simp
      obtain r where r: "encode_loop t ?rest' (ids @ others @ [ident]) = Some r"
        "\<forall>out. r = Ok out \<longrightarrow> (\<exists>out'. out = (ids @ others @ [ident]) @ out' \<and> segmented t ?rest' out')"
        using 1 shorter by blast
      have "segmented t rest (others @ ident # out')" if "segmented t ?rest' out'" for out'
      proof -
        have split: "rest = take k rest @ token @ ?rest'" by (rule occurs_split [OF at(2)])
        have "first_added t (take k rest @ token @ ?rest') (length (take k rest)) token ident"
          using first k split by simp
        moreover have "if take k rest = [] then others = [] else encode_ordinary t (take k rest) = Ok others"
          using Inr k by (auto split: if_splits)
        ultimately show ?thesis using segmented_token that split by metis
      qed
      with r show ?thesis by (auto simp: step)
    qed
  qed
qed

lemma segmented_loop:
  assumes "segmented t body out" and "no_empty_token t"
  shows "encode_loop t body ids = Some (Ok (ids @ out))"
  using assms
proof (induction arbitrary: ids rule: segmented.induct)
  case (segmented_end t)
  then show ?case by (subst encode_loop.simps) simp
next
  case (segmented_last s t others)
  then show ?case
    using next_added_nowhere [of t s] by (subst encode_loop.simps) simp
next
  case (segmented_token t s token rest ident others out)
  have n: "next_added_token t (s @ token @ rest) = Some (length s, token, ident)"
    using next_added_iff segmented_token by blast
  have "token \<noteq> []" using segmented_token(1,5) by (auto simp: first_added_def no_empty_token_def)
  then show ?case
    using segmented_token(2) segmented_token(4) [OF segmented_token(5), of "ids @ others @ [ident]"]
    by (subst encode_loop.simps) (auto simp: n)
qed

text \<open>C33: encoding always ends, on any text, once no added token is empty, and what it gives is
  determined by the text: it succeeds exactly with the ids of the segmentation of the normalised text
  at its added tokens, each cut being at the first place where any of them occurs, for the longest
  one that starts there (the smallest id, if it is listed twice), with every non-empty segment in
  between encoded by itself and no added token left in the last one.\<close>

theorem encode_total:
  assumes "\<forall>(token, ident) \<in> set (tk_added_tokens t). token \<noteq> []"
  shows "\<exists>r. encode nfc t body = Some r \<and> (\<forall>ids. r = Ok ids \<longleftrightarrow> segmented t (nfc body) ids)"
proof -
  have t: "no_empty_token t" using assms by (simp add: no_empty_token_def)
  obtain r where r: "encode_loop t (nfc body) [] = Some r" "\<forall>out. r = Ok out \<longrightarrow> segmented t (nfc body) out"
    using encode_loop_ends [OF t, of "nfc body" "[]"] by auto
  moreover have "r = Ok ids" if "segmented t (nfc body) ids" for ids
    using segmented_loop [OF that t, of "[]"] r(1) by simp
  ultimately have "\<forall>ids. r = Ok ids \<longleftrightarrow> segmented t (nfc body) ids" by blast
  then show ?thesis using r(1) by (simp add: encode_def)
qed

text \<open>Two added tokens start at the same place here, and a third occurs twice.\<close>

definition overlapping_tokenizer :: qwen2_tokenizer where
  "overlapping_tokenizer = example_tokenizer\<lparr>tk_byte_encoder := map (\<lambda>i. [char_of i]) [0..<256],
     tk_added_tokens := [(''<x'', 7), (''<x>'', 8), (''|'', 9)]\<rparr>"

lemma overlapping_next:
  "next_added_token overlapping_tokenizer ''ab|<x>|'' = Some (2, ''|'', 9)"
  "next_added_token overlapping_tokenizer ''<x>|'' = Some (0, ''<x>'', 8)"
  "next_added_token overlapping_tokenizer ''|'' = Some (0, ''|'', 9)"
  by (simp_all add: next_added_token_def overlapping_tokenizer_def List.map_filter_def starts_with_def less_eq_prod_def)

lemma overlapping_ordinary: "encode_ordinary overlapping_tokenizer ''ab'' = Ok [2]"
proof -
  have "encode_piece overlapping_tokenizer p = p" for p
    by (induction p) (simp_all add: encode_piece_def overlapping_tokenizer_def bv_less nth_append)
  moreover have "byte_pair_encode (\<lambda>p. if p = (''a'', ''b'') then Some 0 else None) ''ab'' = [''ab'']"
    by code_simp
  ultimately show ?thesis
    by (simp add: encode_ordinary_def) (simp add: overlapping_tokenizer_def example_tokenizer_def)
qed

lemma encode_total_witness:
  "encode (\<lambda>s. s) overlapping_tokenizer ''ab|<x>|'' = Some (Ok [2, 9, 8, 9]) \<and>
   segmented overlapping_tokenizer ''ab|<x>|'' [2, 9, 8, 9]"
proof -
  have e: "encode (\<lambda>s. s) overlapping_tokenizer ''ab|<x>|'' = Some (Ok [2, 9, 8, 9])"
  proof -
    have stop: "encode_loop overlapping_tokenizer [] ids = Some (Ok ids)" for ids
      by (subst encode_loop.simps) simp
    have bar: "encode_loop overlapping_tokenizer ''|'' ids = Some (Ok (ids @ [9]))" for ids
      by (subst encode_loop.simps) (simp add: overlapping_next stop)
    have angle: "encode_loop overlapping_tokenizer ''<x>|'' ids = Some (Ok (ids @ [8, 9]))" for ids
      by (subst encode_loop.simps) (simp add: overlapping_next bar)
    show ?thesis
      unfolding encode_def by (subst encode_loop.simps) (simp add: overlapping_next overlapping_ordinary angle)
  qed
  moreover have "\<forall>(token, ident) \<in> set (tk_added_tokens overlapping_tokenizer). token \<noteq> []"
    by (simp add: overlapping_tokenizer_def)
  ultimately show ?thesis
    using encode_total [of overlapping_tokenizer "\<lambda>s. s" "''ab|<x>|''"] by auto
qed

end
