(* ===== verification/SvConfig.thy ===== *)
theory SvConfig
  imports RtHandle
begin

text \<open>
  \<open>qwen3-tts-server/src/config.rs\<close> and the configuration part of \<open>main.rs\<close>: the limits of the HTTP
  server, their check, and how the runtime's limits are set from them. Environment variables are
  given as the parsed values of those that are set.
\<close>

section \<open>Limits\<close>

definition DEFAULT_MAX_TEXT_BYTES :: nat where "DEFAULT_MAX_TEXT_BYTES = 32 * 1024"
definition DEFAULT_MAX_VOICE_DESCRIPTION_BYTES :: nat where "DEFAULT_MAX_VOICE_DESCRIPTION_BYTES = 4 * 1024"
definition DEFAULT_MAX_DURATION_SECONDS :: f64 where "DEFAULT_MAX_DURATION_SECONDS = f64_lit 120"
definition INTRINSIC_MAX_DURATION_SECONDS :: f64 where "INTRINSIC_MAX_DURATION_SECONDS = f64_lit (65536 / 100)"

record server_config =
  sv_max_concurrent_requests :: u32
  sv_max_text_bytes :: nat
  sv_max_voice_description_bytes :: nat
  sv_max_duration_seconds :: f64
  sv_default_duration_seconds :: f64
  sv_poll_timeout :: duration
  sv_slow_client_timeout :: duration
  sv_retirement_timeout :: duration
  sv_shutdown_timeout :: duration

definition default_server_config :: server_config where
  "default_server_config =
     \<lparr>sv_max_concurrent_requests = max_concurrent_requests default_engine_config,
      sv_max_text_bytes = DEFAULT_MAX_TEXT_BYTES,
      sv_max_voice_description_bytes = DEFAULT_MAX_VOICE_DESCRIPTION_BYTES,
      sv_max_duration_seconds = DEFAULT_MAX_DURATION_SECONDS,
      sv_default_duration_seconds = DEFAULT_MAX_DURATION_SECONDS,
      sv_poll_timeout = 100 * 10 ^ 6, sv_slow_client_timeout = 5 * 10 ^ 9,
      sv_retirement_timeout = 25 * 10 ^ 9, sv_shutdown_timeout = 35 * 10 ^ 9\<rparr>"

definition duration_to_frames :: "f64 \<Rightarrow> u32" where
  "duration_to_frames seconds =
     (let frames = fp_ceil (f64_mul seconds (f64_lit (25 / 2))) in
      if \<not> is_finite frames \<or> fp_le frames (FFin 0) then 0
      else if fp_le (FFin (2 ^ 32 - 1)) frames then - 1
      else fp_to_u32 frames)"

text \<open>\<open>Duration::checked_add\<close>: seconds are a \<open>u64\<close>.\<close>

definition duration_checked_add :: "duration \<Rightarrow> duration \<Rightarrow> duration option" where
  "duration_checked_add a b = (if (a + b) div 10 ^ 9 \<le> u64_max then Some (a + b) else None)"

definition server_config_validate :: "server_config \<Rightarrow> bytes + unit" where
  "server_config_validate c =
     (if sv_max_concurrent_requests c = 0 \<or> MAX_CONCURRENT_REQUESTS < sv_max_concurrent_requests c
      then Err ''max_concurrent_requests must be in 1..=6''
      else if sv_max_text_bytes c = 0 \<or> unat MAX_TEXT_BYTES < sv_max_text_bytes c
      then Err ''max_text_bytes must be in 1..=1048576''
      else if sv_max_voice_description_bytes c = 0 \<or> unat MAX_INSTRUCT_BYTES < sv_max_voice_description_bytes c
      then Err ''max_voice_description_bytes must be in 1..=262144''
      else if \<not> is_finite (sv_max_duration_seconds c) \<or> fp_lt (sv_max_duration_seconds c) (f64_lit (8 / 100))
        \<or> fp_lt INTRINSIC_MAX_DURATION_SECONDS (sv_max_duration_seconds c)
      then Err ''max_duration_seconds must be in 0.08..=655.36''
      else if \<not> is_finite (sv_default_duration_seconds c) \<or> fp_lt (sv_default_duration_seconds c) (f64_lit (8 / 100))
        \<or> fp_lt (sv_max_duration_seconds c) (sv_default_duration_seconds c)
      then Err ''default_duration_seconds must be finite and inside the configured duration limit''
      else if sv_poll_timeout c = 0 \<or> sv_slow_client_timeout c = 0 \<or> sv_retirement_timeout c = 0
        \<or> sv_shutdown_timeout c = 0
      then Err ''server timeouts must be non-zero''
      else and_then (ok_or (duration_checked_add (sv_slow_client_timeout c) (sv_retirement_timeout c))
          ''server cleanup timeout budget overflowed'') (\<lambda>cleanup_budget.
        if sv_shutdown_timeout c \<le> cleanup_budget
        then Err ''slow_client_timeout + retirement_timeout must be below shutdown_timeout''
        else let maximum_frames = duration_to_frames (sv_max_duration_seconds c) in
          if maximum_frames = 0 \<or> MAX_CODEC_FRAMES < maximum_frames
          then Err ''duration limit exceeds the native frame ceiling''
          else Ok ()))"

definition max_body_bytes :: "server_config \<Rightarrow> nat" where
  "max_body_bytes c =
     usize_saturating_add (usize_saturating_add (sv_max_text_bytes c) (sv_max_voice_description_bytes c)) (16 * 1024)"

definition max_buffered_pcm_bytes :: "server_config \<Rightarrow> nat" where
  "max_buffered_pcm_bytes c =
     usize_saturating_mul (usize_saturating_mul (unat (duration_to_frames (sv_max_duration_seconds c)))
       (unat SAMPLES_PER_CODEC_FRAME)) 2"

definition server_max_codec_frames :: "server_config \<Rightarrow> u32" where
  "server_max_codec_frames c = duration_to_frames (sv_max_duration_seconds c)"

section \<open>Start-up\<close>

text \<open>\<open>f64::min\<close>.\<close>

definition f64_min :: "f64 \<Rightarrow> f64 \<Rightarrow> f64" where
  "f64_min a b = (if a = FNan then b else if b = FNan then a else if fp_lt b a then b else a)"

text \<open>A variable is unset, or set to a value that does or does not parse; \<open>unwrap_or\<close> is \<open>Option::unwrap_or\<close>.\<close>

record server_env =
  env_device_index :: "(bytes + 32 word) option"
  env_max_concurrent_requests :: "(bytes + u32) option"
  env_max_text_bytes :: "(bytes + nat) option"
  env_max_voice_description_bytes :: "(bytes + nat) option"
  env_max_duration_seconds :: "(bytes + f64) option"

definition unwrap_or :: "'a option \<Rightarrow> 'a \<Rightarrow> 'a" where
  "unwrap_or v d = (case v of Some x \<Rightarrow> x | None \<Rightarrow> d)"

definition parse_env :: "(bytes + 'a) option \<Rightarrow> 'a \<Rightarrow> bytes + 'a" where
  "parse_env v d = (case v of Some parsed \<Rightarrow> parsed | None \<Rightarrow> Ok d)"

definition u32_try_from :: "nat \<Rightarrow> bytes + u32" where
  "u32_try_from n = (if n < 2 ^ 32 then Ok (of_nat n) else Err ''out of range integral type conversion attempted'')"

text \<open>The runtime's and the server's configuration, and the frames of the warm-up.\<close>

definition main_config :: "server_env \<Rightarrow> bytes + engine_config \<times> server_config \<times> u32" where
  "main_config env =
     and_then (parse_env (env_device_index env) (ec_device_index default_engine_config)) (\<lambda>device.
     and_then (parse_env (env_max_concurrent_requests env) (max_concurrent_requests default_engine_config)) (\<lambda>requests.
     and_then (parse_env (env_max_text_bytes env) (sv_max_text_bytes default_server_config)) (\<lambda>text.
     and_then (parse_env (env_max_voice_description_bytes env) (sv_max_voice_description_bytes default_server_config)) (\<lambda>voice.
     and_then (parse_env (env_max_duration_seconds env) (sv_max_duration_seconds default_server_config)) (\<lambda>duration.
     (let runtime = default_engine_config\<lparr>ec_device_index := device, max_concurrent_requests := requests\<rparr>;
          server1 = default_server_config
            \<lparr>sv_max_text_bytes := text, sv_max_voice_description_bytes := voice, sv_max_duration_seconds := duration,
             sv_max_concurrent_requests := requests\<rparr>;
          server = server1\<lparr>sv_default_duration_seconds :=
             f64_min (sv_default_duration_seconds server1) (sv_max_duration_seconds server1)\<rparr>
      in and_then (server_config_validate server) (\<lambda>_.
         and_then (u32_try_from (sv_max_text_bytes server)) (\<lambda>text_bytes.
         and_then (u32_try_from (sv_max_voice_description_bytes server)) (\<lambda>instruct_bytes.
         Ok (runtime\<lparr>max_text_bytes := text_bytes, max_instruct_bytes := instruct_bytes\<rparr>, server,
             server_max_codec_frames server))))))))))"

section \<open>What a valid configuration guarantees\<close>

definition server_config_ok :: "server_config \<Rightarrow> bool" where
  "server_config_ok c \<longleftrightarrow>
     unat (sv_max_concurrent_requests c) \<in> {1..6} \<and> sv_max_text_bytes c \<in> {1..1048576} \<and>
     sv_max_voice_description_bytes c \<in> {1..262144} \<and>
     (\<exists>q d. sv_max_duration_seconds c = FFin q \<and> sv_default_duration_seconds c = FFin d \<and>
        5764607523034235 / 72057594037927936 \<le> d \<and> d \<le> q) \<and>
     0 < sv_poll_timeout c \<and> 0 < sv_slow_client_timeout c \<and> 0 < sv_retirement_timeout c \<and>
     sv_slow_client_timeout c + sv_retirement_timeout c < sv_shutdown_timeout c \<and>
     unat (duration_to_frames (sv_max_duration_seconds c)) \<in> {1..8192}"

lemma f64_lit_225: "f64_lit (2 / 25) = FFin (5764607523034235 / 72057594037927936)"
  by (simp add: fp_eval)

lemma server_config_validate_Ok: "server_config_validate c = Ok () \<Longrightarrow> server_config_ok c"
  by (simp add: server_config_validate_def rt_consts f64_lit_225 and_then_Ok_iff ok_or_def split: if_splits option.splits)
    (auto simp: server_config_ok_def Let_def duration_checked_add_def word_le_nat_alt word_less_nat_alt unat_gt_0 not_less
      one_le_unat_iff f64_lit_225 split: if_splits dest!: finite_obtain)

text \<open>Frames grow with the duration; the least accepted duration is one frame.\<close>

lemma f64_frames_exact:
  assumes "5764607523034235 / 72057594037927936 \<le> d" "d \<le> q"
    and "1 \<le> unat (duration_to_frames (FFin q))" "unat (duration_to_frames (FFin q)) \<le> 8192"
  shows "1 \<le> unat (duration_to_frames (FFin d))" "unat (duration_to_frames (FFin d)) \<le> unat (duration_to_frames (FFin q))"
proof -
  have fmt: "fp_emin f64_format \<le> 0" "0 < fp_prec f64_format" by (simp_all add: f64_format_def)
  have mul: "f64_mul (FFin x) (f64_lit (25 / 2)) = fp_round f64_format (x * (25 / 2))" for x
    by (simp add: f64_mul_def f64_lit_125)
  have one: "1 \<le> d * (25 / 2)" "d * (25 / 2) \<le> q * (25 / 2)" using assms(1,2) by simp_all
  obtain s where s: "fp_round f64_format (q * (25 / 2)) = FFin s"
    using assms(3) by (cases "fp_round f64_format (q * (25 / 2))")
      (auto simp: duration_to_frames_def mul Let_def)
  obtain r where r: "fp_round f64_format (d * (25 / 2)) = FFin r" "r \<le> s"
    using fp_round_mono [OF one fmt s] by blast
  have r1: "1 \<le> r" using fp_round_ge_one [OF one(1) fmt r(1)] .
  have frames: "duration_to_frames (FFin x) = (if 2 ^ 32 - 1 \<le> real_of_int \<lceil>y\<rceil> then - 1 else of_int \<lceil>y\<rceil>)"
    if "fp_round f64_format (x * (25 / 2)) = FFin y" "1 \<le> y" for x y
    using that by (auto simp: duration_to_frames_def mul Let_def)
  have unat_frames: "unat (of_int \<lceil>y\<rceil> :: u32) = nat \<lceil>y\<rceil>" if "1 \<le> y" "\<not> 2 ^ 32 - 1 \<le> real_of_int \<lceil>y\<rceil>" for y :: real
  proof -
    have "real_of_int \<lceil>y\<rceil> < of_int (2 ^ 32 - 1)" using that(2) by simp
    then have "\<lceil>y\<rceil> < 2 ^ 32 - 1" by (simp only: of_int_less_iff)
    moreover have "0 \<le> \<lceil>y\<rceil>" using that(1) by linarith
    ultimately obtain n where n: "\<lceil>y\<rceil> = int n" "n < 2 ^ 32" 
      by (cases "\<lceil>y\<rceil>" rule: int_cases3) auto
    then show ?thesis by (simp add: unat_of_nat)
  qed
  have max: "unat (- 1 :: u32) = 2 ^ 32 - 1" by (simp add: unsigned_minus_1_eq_mask mask_eq_exp_minus_1)
  have small: "\<not> 2 ^ 32 - 1 \<le> real_of_int \<lceil>s\<rceil>"
    using assms(4) frames [OF s] r(2) r1 by (auto simp: max split: if_splits)
  have le: "\<lceil>r\<rceil> \<le> \<lceil>s\<rceil>" "1 \<le> \<lceil>r\<rceil>" using r(2) r1 by (auto intro: ceiling_mono)
  then have small': "\<not> 2 ^ 32 - 1 \<le> real_of_int \<lceil>r\<rceil>" using small by linarith
  have "duration_to_frames (FFin d) = of_int \<lceil>r\<rceil>" "duration_to_frames (FFin q) = of_int \<lceil>s\<rceil>"
    using frames [OF r(1) r1] frames [OF s] r(2) r1 small small' by simp_all
  moreover have "unat (of_int \<lceil>r\<rceil> :: u32) = nat \<lceil>r\<rceil>" "unat (of_int \<lceil>s\<rceil> :: u32) = nat \<lceil>s\<rceil>"
    using unat_frames [OF r1 small'] unat_frames [OF _ small] r(2) r1 by simp_all
  moreover have "1 \<le> nat \<lceil>r\<rceil>" "nat \<lceil>r\<rceil> \<le> nat \<lceil>s\<rceil>" using le by linarith+
  ultimately show "1 \<le> unat (duration_to_frames (FFin d))"
    "unat (duration_to_frames (FFin d)) \<le> unat (duration_to_frames (FFin q))" by presburger+
qed

end
