(* ===== verification/SvApi.thy ===== *)
theory SvApi
  imports SvConfig
begin

text \<open>
  \<open>qwen3-tts-server/src/api.rs\<close>: the bodies of the two speech endpoints, given as deserialised, their
  validation, and the native request made from them. \<open>show\<close> is the standard library's rendering of a
  float; a quoted text in a message is quoted plainly.
\<close>

section \<open>Bodies\<close>

definition MAX_SAFE_JSON_INTEGER :: u64 where "MAX_SAFE_JSON_INTEGER = 2 ^ 53 - 1"

definition SERVER_MODEL_ID :: bytes where "SERVER_MODEL_ID = ''qwen3-tts-1.7b-voice-design''"

definition ACCEPTED_LANGUAGES :: "bytes list" where
  "ACCEPTED_LANGUAGES = [''auto'', ''chinese'', ''english'', ''japanese'', ''korean'', ''german'', ''french'',
     ''russian'', ''portuguese'', ''spanish'', ''italian'']"

datatype output_format = PcmS16le | Wav

datatype output_mode = StreamPcm | BufferedWav

datatype sampling_strategy = Sample | Greedy

record predictor_sampling_options =
  po_strategy :: "sampling_strategy option"
  po_temperature :: "f32 option"
  po_top_p :: "f32 option"
  po_top_k :: "u32 option"

definition default_predictor_options :: predictor_sampling_options where
  "default_predictor_options = \<lparr>po_strategy = None, po_temperature = None, po_top_p = None, po_top_k = None\<rparr>"

record sampling_options =
  so_strategy :: sampling_strategy
  so_temperature :: "f32 option"
  so_top_p :: "f32 option"
  so_top_k :: "u32 option"
  so_repetition_penalty :: "f32 option"
  so_predictor :: "predictor_sampling_options option"

definition default_sampling_options :: sampling_options where
  "default_sampling_options = \<lparr>so_strategy = Sample, so_temperature = None, so_top_p = None, so_top_k = None,
     so_repetition_penalty = None, so_predictor = None\<rparr>"

record speech_request_body =
  sb_text :: bytes
  sb_voice_description :: bytes
  sb_language :: bytes
  sb_seed :: "u64 option"
  sb_max_duration_seconds :: "f64 option"
  sb_sampling :: "sampling_options option"
  sb_stream :: "bool option"
  sb_output_format :: "output_format option"

datatype openai_response_format = OpenAiWav | OpenAiPcm

record openai_speech_request_body =
  ob_model :: bytes
  ob_input :: bytes
  ob_voice :: bytes
  ob_response_format :: openai_response_format
  ob_speed :: f32
  ob_stream :: bool

record engine_synthesis_request =
  er_input :: request_input
  er_generation :: generation_config

record prepared_speech =
  pp_engine_request :: engine_synthesis_request
  pp_output :: output_mode
  pp_seed :: u64

record validation_error =
  ve_code :: bytes
  ve_detail :: bytes

definition validation_error_new :: "bytes \<Rightarrow> bytes \<Rightarrow> validation_error" where
  "validation_error_new code detail = \<lparr>ve_code = code, ve_detail = detail\<rparr>"

section \<open>Validation\<close>

definition validate_text :: "bytes \<Rightarrow> nat \<Rightarrow> validation_error + unit" where
  "validate_text s limit =
     (if trim s = [] then Err (validation_error_new ''invalid_text'' ''text must not be empty or whitespace-only'')
      else if limit < length s
      then Err (validation_error_new ''invalid_text''
        (''text is '' @ show_nat (length s) @ '' UTF-8 bytes; maximum is '' @ show_nat limit))
      else if char_of (0::nat) \<in> set s
      then Err (validation_error_new ''invalid_text'' ''text must not contain NUL characters'')
      else Ok ())"

definition validate_voice_description :: "bytes \<Rightarrow> nat \<Rightarrow> validation_error + unit" where
  "validate_voice_description s limit =
     (if trim s = []
      then Err (validation_error_new ''invalid_voice_description'' ''voice_description is required for the VoiceDesign model'')
      else if limit < length s
      then Err (validation_error_new ''invalid_voice_description''
        (''voice_description is '' @ show_nat (length s) @ '' UTF-8 bytes; maximum is '' @ show_nat limit))
      else if char_of (0::nat) \<in> set s
      then Err (validation_error_new ''invalid_voice_description'' ''voice_description must not contain NUL characters'')
      else Ok ())"

definition join :: "bytes \<Rightarrow> bytes list \<Rightarrow> bytes" where
  "join sep parts = (case parts of [] \<Rightarrow> [] | p # ps \<Rightarrow> p @ concat (map ((@) sep) ps))"

definition parse_language :: "bytes \<Rightarrow> validation_error + language" where
  "parse_language s =
     (let name = to_ascii_lower (trim s) in
      case map_of (zip ACCEPTED_LANGUAGES [LangAuto, Chinese, English, Japanese, Korean, German, French, Russian,
          Portuguese, Spanish, Italian]) name of
        Some l \<Rightarrow> Ok l
      | None \<Rightarrow> Err (validation_error_new ''unsupported_language''
          (''language '' @ ''\"'' @ name @ ''\"'' @ '' is unsupported; accepted values are '' @ join '', '' ACCEPTED_LANGUAGES)))"

fun normalize_output :: "bool option \<Rightarrow> output_format option \<Rightarrow> validation_error + output_mode" where
  "normalize_output None None = Ok StreamPcm"
| "normalize_output None (Some PcmS16le) = Ok StreamPcm"
| "normalize_output (Some True) None = Ok StreamPcm"
| "normalize_output (Some True) (Some PcmS16le) = Ok StreamPcm"
| "normalize_output None (Some Wav) = Ok BufferedWav"
| "normalize_output (Some False) (Some Wav) = Ok BufferedWav"
| "normalize_output (Some False) None = Ok BufferedWav"
| "normalize_output (Some True) (Some Wav) = Err (validation_error_new ''unsupported_response_format''
     ''stream=true requires output_format=pcm_s16le'')"
| "normalize_output (Some False) (Some PcmS16le) = Err (validation_error_new ''unsupported_response_format''
     ''stream=false requires output_format=wav'')"

definition invalid_sampling :: "bytes \<Rightarrow> validation_error" where
  "invalid_sampling detail = validation_error_new ''invalid_sampling'' detail"

definition validate_strategy_fields :: "sampling_strategy \<Rightarrow> f32 option \<Rightarrow> f32 option \<Rightarrow> u32 option \<Rightarrow> bytes \<Rightarrow>
    validation_error + unit" where
  "validate_strategy_fields strategy temperature top_p top_k path =
     (if strategy = Greedy \<and> (temperature \<noteq> None \<or> top_p \<noteq> None \<or> top_k \<noteq> None)
      then Err (invalid_sampling (path @ '' temperature/top_p/top_k must be omitted for greedy strategy''))
      else Ok ())"

definition validate_float :: "(f32 \<Rightarrow> bytes) \<Rightarrow> f32 \<Rightarrow> f32 \<Rightarrow> f32 \<Rightarrow> bytes \<Rightarrow> validation_error + unit" where
  "validate_float show value minimum maximum path =
     (if \<not> is_finite value \<or> fp_lt value minimum \<or> fp_lt maximum value
      then Err (invalid_sampling (path @ '' must be finite and in '' @ show minimum @ ''..='' @ show maximum))
      else Ok ())"

definition F32_MIN_POSITIVE :: f32 where "F32_MIN_POSITIVE = FFin (1 / 2 ^ 126)"

definition strategy_flag :: "sampling_strategy \<Rightarrow> u32" where
  "strategy_flag s = (if s = Sample then 1 else 0)"

definition prepare_sampling :: "(f32 \<Rightarrow> bytes) \<Rightarrow> sampling_options \<Rightarrow> u32 \<Rightarrow> u64 \<Rightarrow> validation_error + generation_config" where
  "prepare_sampling show sampling max_frames seed =
     (let defaults = default_generation_config in
      and_then (validate_strategy_fields (so_strategy sampling) (so_temperature sampling) (so_top_p sampling)
        (so_top_k sampling) ''sampling'') (\<lambda>_.
      let temperature = unwrap_or (so_temperature sampling) (gc_temperature defaults);
          top_p = unwrap_or (so_top_p sampling) (gc_top_p defaults);
          top_k = unwrap_or (so_top_k sampling) (gc_top_k defaults);
          repetition_penalty = unwrap_or (so_repetition_penalty sampling) (gc_repetition_penalty defaults)
      in and_then (validate_float show temperature (f32_lit (1 / 100)) (f32_lit 2) ''sampling.temperature'') (\<lambda>_.
         and_then (validate_float show top_p F32_MIN_POSITIVE (f32_lit 1) ''sampling.top_p'') (\<lambda>_.
         and_then (validate_float show repetition_penalty (f32_lit (1 / 10)) (f32_lit 2) ''sampling.repetition_penalty'') (\<lambda>_.
         if 3072 < top_k then Err (invalid_sampling ''sampling.top_k must be in 0..=3072'')
         else
         let predictor = unwrap_or (so_predictor sampling) default_predictor_options;
             p_strategy = unwrap_or (po_strategy predictor) (so_strategy sampling)
         in and_then (validate_strategy_fields p_strategy (po_temperature predictor) (po_top_p predictor)
              (po_top_k predictor) ''sampling.predictor'') (\<lambda>_.
            let p_temperature = unwrap_or (po_temperature predictor) (predictor_temperature defaults);
                p_top_p = unwrap_or (po_top_p predictor) (predictor_top_p defaults);
                p_top_k = unwrap_or (po_top_k predictor) (predictor_top_k defaults)
            in and_then (validate_float show p_temperature (f32_lit (1 / 100)) (f32_lit 2) ''sampling.predictor.temperature'') (\<lambda>_.
               and_then (validate_float show p_top_p F32_MIN_POSITIVE (f32_lit 1) ''sampling.predictor.top_p'') (\<lambda>_.
               if 2048 < p_top_k then Err (invalid_sampling ''sampling.predictor.top_k must be in 0..=2048'')
               else Ok (defaults\<lparr>max_codec_frames := max_frames, gc_seed := seed, gc_temperature := temperature,
                    gc_top_p := top_p, gc_repetition_penalty := repetition_penalty, gc_top_k := top_k,
                    gc_do_sample := strategy_flag (so_strategy sampling), predictor_temperature := p_temperature,
                    predictor_top_p := p_top_p, predictor_top_k := p_top_k,
                    predictor_do_sample := strategy_flag p_strategy\<rparr>)))))))))"

text \<open>\<open>random\<close> is the word the random number generator gives.\<close>

definition random_json_safe_seed :: "u64 \<Rightarrow> u64" where
  "random_json_safe_seed random = and random MAX_SAFE_JSON_INTEGER"

definition prepare :: "(f32 \<Rightarrow> bytes) \<Rightarrow> u64 \<Rightarrow> speech_request_body \<Rightarrow> server_config \<Rightarrow> validation_error + prepared_speech" where
  "prepare show random body config =
     and_then (validate_text (sb_text body) (sv_max_text_bytes config)) (\<lambda>_.
     and_then (validate_voice_description (sb_voice_description body) (sv_max_voice_description_bytes config)) (\<lambda>_.
     and_then (parse_language (sb_language body)) (\<lambda>language.
     let seconds = unwrap_or (sb_max_duration_seconds body) (sv_default_duration_seconds config) in
     if \<not> is_finite seconds \<or> fp_lt seconds (f64_lit (8 / 100)) \<or> fp_lt (sv_max_duration_seconds config) seconds
     then Err (validation_error_new ''invalid_max_duration''
       (''max_duration_seconds must be in 0.08..='' @ show (sv_max_duration_seconds config)))
     else
     let max_frames = duration_to_frames seconds;
         seed = unwrap_or (sb_seed body) (random_json_safe_seed random)
     in if MAX_SAFE_JSON_INTEGER < seed
        then Err (validation_error_new ''invalid_seed'' (''seed must be in 0..='' @ show_nat (unat MAX_SAFE_JSON_INTEGER)))
        else and_then (normalize_output (sb_stream body) (sb_output_format body)) (\<lambda>output.
          and_then (prepare_sampling show (unwrap_or (sb_sampling body) default_sampling_options) max_frames seed) (\<lambda>generation.
          Ok \<lparr>pp_engine_request = \<lparr>er_input = \<lparr>ri_text = sb_text body, ri_instruct = sb_voice_description body,
                 ri_language = language\<rparr>, er_generation = generation\<rparr>,
              pp_output = output, pp_seed = seed\<rparr>)))))"

text \<open>\<open>f32::EPSILON\<close> is \<open>2 ^ -23\<close>.\<close>

definition into_native :: "openai_speech_request_body \<Rightarrow> validation_error + speech_request_body" where
  "into_native body =
     (if ob_model body \<noteq> SERVER_MODEL_ID
      then Err (validation_error_new ''unsupported_model'' (''model must be '' @ ''\"'' @ SERVER_MODEL_ID @ ''\"''))
      else if \<not> is_finite (ob_speed body)
        \<or> fp_lt (FFin (1 / 2 ^ 23)) (fp_abs (f32_add (ob_speed body) (FFin (- 1))))
      then Err (validation_error_new ''unsupported_speed'' ''the native VoiceDesign server supports only speed=1.0'')
      else if ob_stream body \<or> ob_response_format body \<noteq> OpenAiWav
      then Err (validation_error_new ''unsupported_response_format''
        ''the conservative compatibility alias supports only buffered wav; use /v1/voice-design/speech for streaming PCM'')
      else Ok \<lparr>sb_text = ob_input body, sb_voice_description = ob_voice body, sb_language = ''auto'', sb_seed = None,
             sb_max_duration_seconds = None, sb_sampling = None, sb_stream = Some False, sb_output_format = Some Wav\<rparr>)"

section \<open>What a prepared request guarantees\<close>

lemma trim_nonempty: "trim s \<noteq> [] \<Longrightarrow> s \<noteq> []"
  by auto

lemma f32_bounds:
  "f32_lit (1 / 100) = FFin (10737418 / 1073741824)" "f32_lit (1 / 10) = FFin (13421773 / 134217728)"
  "f32_lit 1 = FFin 1" "f32_lit 2 = FFin 2"
  by (simp_all add: fp_eval)

lemma validate_float_Ok:
  "validate_float show v (FFin a) (FFin b) path = Ok () \<longleftrightarrow> (\<exists>q. v = FFin q \<and> a \<le> q \<and> q \<le> b)"
  by (cases v) (auto simp: validate_float_def)

lemma prepare_sampling_valid:
  assumes "prepare_sampling show sampling frames seed = Ok g" and "1 \<le> unat frames" "unat frames \<le> 8192"
  shows "validate_generation g = Ok ()" "max_codec_frames g = frames" "gc_seed g = seed"
proof -
  have small: "(0 :: real) < 1 / 2 ^ 126" by simp
  have frames: "0 < frames" "frames \<le> 8192"
    using assms(2,3) by (auto simp: word_le_nat_alt unat_gt_0 Suc_le_eq word_neq_0_conv)
  show "validate_generation g = Ok ()" "max_codec_frames g = frames" "gc_seed g = seed"
    using assms(1) frames small
    by (auto simp: prepare_sampling_def Let_def and_then_Ok_iff validate_generation_Ok_iff f32_bounds F32_MIN_POSITIVE_def
        validate_float_Ok f32_finite_positive_def f32_unit_interval_def strategy_flag_def default_generation_config_def
        sizeof_generation_config_def not_less split: if_splits)
qed

lemma main_config_limits:
  assumes "main_config env = Ok (runtime, server, frames)"
  shows "server_config_ok server" "validate_config runtime = Ok ()"
    "unat (max_text_bytes runtime) = sv_max_text_bytes server"
    "unat (max_instruct_bytes runtime) = sv_max_voice_description_bytes server"
    "frames = duration_to_frames (sv_max_duration_seconds server)"
proof -
  obtain device text_bytes instruct_bytes where r: "server_config_validate server = Ok ()"
      "u32_try_from (sv_max_text_bytes server) = Ok text_bytes"
      "u32_try_from (sv_max_voice_description_bytes server) = Ok instruct_bytes"
      "runtime = default_engine_config
        \<lparr>ec_device_index := device, max_concurrent_requests := sv_max_concurrent_requests server,
         max_text_bytes := text_bytes, max_instruct_bytes := instruct_bytes\<rparr>"
      "frames = server_max_codec_frames server"
    using assms by (auto simp: main_config_def Let_def and_then_Ok_iff)
  show server: "server_config_ok server" using server_config_validate_Ok [OF r(1)] .
  show limits: "unat (max_text_bytes runtime) = sv_max_text_bytes server"
    "unat (max_instruct_bytes runtime) = sv_max_voice_description_bytes server"
    using r(2,3) by (auto simp: r(4) u32_try_from_def unat_of_nat split: if_splits)
  show "validate_config runtime = Ok ()"
    using server limits unfolding validate_config_Ok_iff config_ok_def server_config_ok_def
    by (simp add: r(4) default_engine_config_def sizeof_engine_config_def)
  show "frames = duration_to_frames (sv_max_duration_seconds server)" by (simp add: r(5) server_max_codec_frames_def)
qed

lemma prepare_parts:
  assumes "prepare show random body server = Ok p" and "server_config_ok server"
  shows "ri_text (er_input (pp_engine_request p)) \<noteq> []"
    "length (ri_text (er_input (pp_engine_request p))) \<le> sv_max_text_bytes server"
    "length (ri_instruct (er_input (pp_engine_request p))) \<le> sv_max_voice_description_bytes server"
    "validate_generation (er_generation (pp_engine_request p)) = Ok ()"
    "unat (max_codec_frames (er_generation (pp_engine_request p))) \<le> unat (duration_to_frames (sv_max_duration_seconds server))"
    "gc_seed (er_generation (pp_engine_request p)) = pp_seed p" "pp_seed p \<le> MAX_SAFE_JSON_INTEGER"
proof -
  let ?seconds = "unwrap_or (sb_max_duration_seconds body) (sv_default_duration_seconds server)"
  obtain g where g: "validate_text (sb_text body) (sv_max_text_bytes server) = Ok ()"
      "validate_voice_description (sb_voice_description body) (sv_max_voice_description_bytes server) = Ok ()"
      "is_finite ?seconds" "\<not> fp_lt ?seconds (f64_lit (8 / 100))" "\<not> fp_lt (sv_max_duration_seconds server) ?seconds"
      "prepare_sampling show (unwrap_or (sb_sampling body) default_sampling_options)
        (duration_to_frames ?seconds) (pp_seed p) = Ok g"
      "\<not> MAX_SAFE_JSON_INTEGER < pp_seed p"
      "er_generation (pp_engine_request p) = g" "ri_text (er_input (pp_engine_request p)) = sb_text body"
      "ri_instruct (er_input (pp_engine_request p)) = sb_voice_description body"
    using assms(1) by (auto simp: prepare_def Let_def and_then_Ok_iff split: if_splits)
  obtain d q where q: "?seconds = FFin d" "sv_max_duration_seconds server = FFin q"
      "5764607523034235 / 72057594037927936 \<le> d" "d \<le> q"
    using g(3-5) assms(2) by (auto simp: server_config_ok_def f64_lit_225 not_less dest!: finite_obtain)
  note frames = f64_frames_exact [OF q(3,4)]
  have max: "1 \<le> unat (duration_to_frames (FFin q))" "unat (duration_to_frames (FFin q)) \<le> 8192"
    using assms(2) by (simp_all add: server_config_ok_def q(2))
  have fr: "1 \<le> unat (duration_to_frames ?seconds)" "unat (duration_to_frames ?seconds) \<le> unat (duration_to_frames (FFin q))"
    using frames [OF max] by (simp_all add: q(1))
  note s = prepare_sampling_valid [OF g(6) fr(1)]
  show "ri_text (er_input (pp_engine_request p)) \<noteq> []"
    "length (ri_text (er_input (pp_engine_request p))) \<le> sv_max_text_bytes server"
    "length (ri_instruct (er_input (pp_engine_request p))) \<le> sv_max_voice_description_bytes server"
    using g(1,2) by (auto simp: g(9,10) validate_text_def validate_voice_description_def split: if_splits)
  show "validate_generation (er_generation (pp_engine_request p)) = Ok ()"
    "unat (max_codec_frames (er_generation (pp_engine_request p))) \<le> unat (duration_to_frames (sv_max_duration_seconds server))"
    "gc_seed (er_generation (pp_engine_request p)) = pp_seed p"
    using s fr(2) max(2) by (auto simp: g(8) q(2))
  show "pp_seed p \<le> MAX_SAFE_JSON_INTEGER" using g(7) by simp
qed

text \<open>C17: a speech request that passes the server's validation is never refused by the runtime as invalid:
  with the limits the program hands to the runtime, starting it fails only when all slots are taken or the
  scheduler is gone; its seed is exact in JSON, and its audio fits the bound on buffered responses.\<close>

theorem prepared_request_accepted:
  assumes "main_config env = Ok (runtime, server, frames)" and "prepare show random body server = Ok p"
    and "sc_config w = runtime"
    and "scheduler_start (er_input (pp_engine_request p)) (er_generation (pp_engine_request p)) now w = (Err e, w')"
  shows "(e = SchedFull \<or> e = SchedClosed) \<and> pp_seed p \<le> MAX_SAFE_JSON_INTEGER \<and>
    3840 * unat (max_codec_frames (er_generation (pp_engine_request p))) \<le> max_buffered_pcm_bytes server"
proof -
  note limits = main_config_limits [OF assms(1)]
  note parts = prepare_parts [OF assms(2) limits(1)]
  have "request_input_validate (er_input (pp_engine_request p)) (sc_config w) = Ok ()"
    using parts(1-3) limits(3,4) by (simp add: request_input_validate_Ok_iff assms(3))
  then have "e = SchedFull \<or> e = SchedClosed"
    using assms(4) parts(4)
    by (auto simp: scheduler_start_def start_prepare_def start_send_def Let_def split: option.splits prod.splits bool.splits)
  moreover have "3840 * unat (max_codec_frames (er_generation (pp_engine_request p))) \<le> max_buffered_pcm_bytes server"
    using parts(5) limits(1) by (simp add: max_buffered_pcm_bytes_def usize_saturating_mul_def usize_max_def
        SAMPLES_PER_CODEC_FRAME_def server_config_ok_def)
  ultimately show ?thesis using parts(7) by blast
qed

definition example_env :: server_env where
  "example_env = \<lparr>env_device_index = None, env_max_concurrent_requests = None, env_max_text_bytes = None,
     env_max_voice_description_bytes = None, env_max_duration_seconds = None\<rparr>"

definition example_body :: speech_request_body where
  "example_body = \<lparr>sb_text = ''a'', sb_voice_description = ''b'', sb_language = '' German'', sb_seed = Some 42,
     sb_max_duration_seconds = Some (FFin 10), sb_sampling = None, sb_stream = None, sb_output_format = None\<rparr>"

lemma default_durations:
  "DEFAULT_MAX_DURATION_SECONDS = FFin 120"
  "\<not> fp_lt INTRINSIC_MAX_DURATION_SECONDS (FFin 120)" "duration_to_frames (FFin 120) = 1500"
  "duration_to_frames (FFin 10) = 125"
  by (simp_all add: DEFAULT_MAX_DURATION_SECONDS_def INTRINSIC_MAX_DURATION_SECONDS_def duration_to_frames_def fp_eval)

lemma default_config_accepted: "server_config_validate default_server_config = Ok ()"
  by (simp add: server_config_validate_def default_server_config_def default_engine_config_def default_durations f64_lit_225
      rt_consts DEFAULT_MAX_TEXT_BYTES_def DEFAULT_MAX_VOICE_DESCRIPTION_BYTES_def duration_checked_add_def u64_max_def
      ok_or_def)

lemma main_config_default:
  "main_config example_env = Ok (default_engine_config\<lparr>max_text_bytes := 32768, max_instruct_bytes := 4096\<rparr>,
     default_server_config, 1500)"
proof -
  have s: "default_server_config
        \<lparr>sv_max_text_bytes := sv_max_text_bytes default_server_config,
         sv_max_voice_description_bytes := sv_max_voice_description_bytes default_server_config,
         sv_max_duration_seconds := sv_max_duration_seconds default_server_config,
         sv_max_concurrent_requests := max_concurrent_requests default_engine_config,
         sv_default_duration_seconds := f64_min (sv_default_duration_seconds default_server_config)
           (sv_max_duration_seconds default_server_config)\<rparr> = default_server_config"
    by (simp add: default_server_config_def f64_min_def)
  show ?thesis
    using default_config_accepted
    by (simp add: main_config_def example_env_def parse_env_def Let_def s u32_try_from_def)
      (simp add: default_server_config_def DEFAULT_MAX_TEXT_BYTES_def DEFAULT_MAX_VOICE_DESCRIPTION_BYTES_def
        server_max_codec_frames_def default_durations default_engine_config_def f64_min_def)
qed

lemma default_generation_fields:
  "gc_temperature default_generation_config = f32_lit (9 / 10)" "gc_top_p default_generation_config = FFin 1"
  "gc_repetition_penalty default_generation_config = f32_lit (105 / 100)" "gc_top_k default_generation_config = 50"
  "predictor_temperature default_generation_config = f32_lit (9 / 10)" "predictor_top_p default_generation_config = FFin 1"
  "predictor_top_k default_generation_config = 50"
  by (simp_all add: default_generation_config_def f32_bounds)

lemma default_sampling_accepted:
  "is_ok (prepare_sampling show default_sampling_options frames seed)"
proof -
  have f: "f32_lit (9 / 10) = FFin (7549747 / 8388608)" "f32_lit (21 / 20) = FFin (4404019 / 4194304)"
    by (simp_all add: fp_eval)
  have t: "validate_float show (f32_lit (9 / 10)) (f32_lit (1 / 100)) (f32_lit 2) path = Ok ()"
    "validate_float show (f32_lit (105 / 100)) (f32_lit (1 / 10)) (f32_lit 2) path = Ok ()"
    "validate_float show (FFin 1) F32_MIN_POSITIVE (f32_lit 1) path = Ok ()" for path
    by (simp_all add: f f32_bounds F32_MIN_POSITIVE_def validate_float_def)
  show ?thesis
    by (simp only: prepare_sampling_def default_sampling_options_def default_predictor_options_def Let_def
        sampling_options.simps predictor_sampling_options.simps unwrap_or_def option.case default_generation_fields
        validate_strategy_fields_def t simp_thms if_False and_then.simps sampling_strategy.distinct)
      (simp add: is_ok_def)
qed

lemma example_body_prepared: "is_ok (prepare show random example_body default_server_config)"
proof -
  obtain g where g: "prepare_sampling show default_sampling_options 125 42 = Ok g"
    using default_sampling_accepted [of "show" 125 42] by (auto simp: is_ok_iff)
  have trims: "trim ''a'' = ''a''" "trim ''b'' = ''b''" "trim '' German'' = ''German''"
    by (simp_all add: trim_def trim_start.simps trim_rev.simps strip_ws_rev_def bv_def)
  have language: "parse_language '' German'' = Ok German"
    by (simp add: parse_language_def trims to_ascii_lower_def bv_def ACCEPTED_LANGUAGES_def char_of_def bit_0 Let_def)
  have v: "1 \<le> n \<Longrightarrow> validate_text ''a'' n = Ok ()" "1 \<le> n \<Longrightarrow> validate_voice_description ''b'' n = Ok ()" for n
    by (simp_all add: validate_text_def validate_voice_description_def trims char_of_def)
  have limits: "1 \<le> sv_max_text_bytes default_server_config" "1 \<le> sv_max_voice_description_bytes default_server_config"
    "sv_max_duration_seconds default_server_config = FFin 120"
    by (simp_all add: default_server_config_def DEFAULT_MAX_TEXT_BYTES_def DEFAULT_MAX_VOICE_DESCRIPTION_BYTES_def
        default_durations)
  show ?thesis
    by (simp add: prepare_def example_body_def v [OF limits(1)] v [OF limits(2)] language unwrap_or_def limits(3) f64_lit_225
        default_durations MAX_SAFE_JSON_INTEGER_def g is_ok_def)
qed

lemma prepared_request_accepted_witness:
  "\<exists>p (w :: (unit, unit) sched). prepare (\<lambda>_. ''1'') 0 example_body default_server_config = Ok p \<and>
     fst (scheduler_start (er_input (pp_engine_request p)) (er_generation (pp_engine_request p)) 0 w) = Err SchedFull \<and>
     3840 * unat (max_codec_frames (er_generation (pp_engine_request p))) \<le> max_buffered_pcm_bytes default_server_config"
proof -
  let ?config = "default_engine_config\<lparr>max_text_bytes := 32768, max_instruct_bytes := 4096\<rparr>"
  obtain p where p: "prepare (\<lambda>_. ''1'') 0 example_body default_server_config = Ok p"
    using example_body_prepared [of "\<lambda>_. ''1''" 0] by (auto simp: is_ok_iff)
  let ?q = "er_input (pp_engine_request p)" and ?g = "er_generation (pp_engine_request p)"
  obtain w0 :: "(unit, unit) sched" where w0: "scheduler_new ?config () None = Ok w0"
    using scheduler_new_total [of ?config "()"] main_config_limits(2) [OF main_config_default]
    unfolding validate_config_Ok_iff by metis
  note shape = scheduler_new_shape [OF w0]
  define w where "w = w0\<lparr>sc_slots := (sc_slots w0)\<lparr>sp_used := sp_capacity (sc_slots w0)\<rparr>\<rparr>"
  have cfg: "sc_config w = ?config" using shape(2) by (simp add: w_def)
  note parts = prepare_parts [OF p main_config_limits(1) [OF main_config_default]]
  note limits = main_config_limits(3,4) [OF main_config_default]
  have input: "request_input_validate ?q (sc_config w) = Ok ()"
    using parts(1-3) limits by (simp add: request_input_validate_Ok_iff cfg)
  have full: "try_acquire (sc_slots w) = None"
    by (simp add: w_def try_acquire_def)
  have start: "scheduler_start ?q ?g 0 w = (Err SchedFull, w)"
    using input parts(4) full by (simp add: scheduler_start_def start_prepare_def)
  show ?thesis
    using prepared_request_accepted [OF main_config_default p cfg start] p start
    by (intro exI [of _ p] exI [of _ w]) simp
qed

end
