(* ===== verification/SvEngine.thy ===== *)
theory SvEngine
  imports SvApi RtFfi
begin

text \<open>
  \<open>qwen3-tts-server/src/engine.rs\<close>: the interface the HTTP server sees of the runtime, and its
  implementation over the scheduler. The traits \<open>SpeechRequest\<close> and \<open>SpeechEngine\<close> are records of their
  methods over a world \<open>'w\<close>; a blocking method that has not come back yet is \<open>None\<close>, one that
  unwinds is \<open>Panicked\<close>.
\<close>

section \<open>Types\<close>

record engine_packet =
  ep_sequence :: u64
  ep_first_codec_frame :: u64
  ep_first_sample :: u64
  ep_codec_frames :: u32
  ep_sample_count :: u32
  ep_sample_rate :: u32
  ep_channels :: u32
  ep_is_final :: bool
  ep_pcm_s16le :: bytes

record engine_metrics =
  em_queue_microseconds :: u64
  em_prefill_microseconds :: u64
  em_first_codec_frame_microseconds :: u64
  em_first_audio_microseconds :: u64
  em_wall_microseconds :: u64
  em_generated_codec_frames :: u64
  em_emitted_samples :: u64
  em_emitted_packets :: u64
  em_talker_gpu_microseconds :: f64
  em_codec_gpu_microseconds :: f64
  em_peak_request_device_bytes :: u64
  em_peak_request_host_bytes :: u64

definition engine_metrics_from :: "request_metrics \<Rightarrow> engine_metrics" where
  "engine_metrics_from m = \<lparr>em_queue_microseconds = queue_microseconds m,
     em_prefill_microseconds = prefill_microseconds m,
     em_first_codec_frame_microseconds = first_codec_frame_microseconds m,
     em_first_audio_microseconds = first_audio_microseconds m,
     em_wall_microseconds = wall_microseconds m,
     em_generated_codec_frames = generated_codec_frames m,
     em_emitted_samples = emitted_samples m, em_emitted_packets = emitted_packets m,
     em_talker_gpu_microseconds = talker_gpu_microseconds m,
     em_codec_gpu_microseconds = codec_gpu_microseconds m,
     em_peak_request_device_bytes = peak_request_device_bytes m,
     em_peak_request_host_bytes = peak_request_host_bytes m\<rparr>"

datatype engine_error_kind = InvalidRequest | CapacityExhausted | EngineCancelled | BackendUnavailable | EngineInternal

record engine_error =
  ee_kind :: engine_error_kind
  ee_message :: bytes

definition engine_error_new :: "engine_error_kind \<Rightarrow> bytes \<Rightarrow> engine_error" where
  "engine_error_new kind message = \<lparr>ee_kind = kind, ee_message = message\<rparr>"

datatype engine_finish_reason = FinishStop | FinishLength

fun finish_reason_as_str :: "engine_finish_reason \<Rightarrow> bytes" where
  "finish_reason_as_str FinishStop = ''stop''"
| "finish_reason_as_str FinishLength = ''length''"

datatype engine_poll = EnginePacketPolled engine_packet | EngineWouldBlock | EngineEndOfStream engine_finish_reason

record 'w speech_request =
  rq_poll :: "duration \<Rightarrow> 'w \<Rightarrow> ((engine_error + engine_poll) unwind \<times> 'w) option"
  rq_cancel :: "'w \<Rightarrow> (engine_error + unit) \<times> 'w"
  rq_wait_retired :: "duration \<Rightarrow> 'w \<Rightarrow> (bool \<times> 'w) option"
  rq_metrics :: "'w \<Rightarrow> engine_metrics"

record 'w speech_engine =
  en_start :: "engine_synthesis_request \<Rightarrow> 'w \<Rightarrow> (engine_error + 'w speech_request) \<times> 'w"
  en_is_ready :: "'w \<Rightarrow> bool"

section \<open>Errors of the runtime\<close>

definition engine_scheduler_error :: "scheduler_error \<Rightarrow> engine_error" where
  "engine_scheduler_error e =
     engine_error_new (case e of
         SchedFull \<Rightarrow> CapacityExhausted
       | InvalidConfiguration _ \<Rightarrow> InvalidRequest
       | InvalidGeneration _ \<Rightarrow> InvalidRequest
       | InvalidInput _ \<Rightarrow> InvalidRequest
       | SchedClosed \<Rightarrow> BackendUnavailable
       | SchedWorker _ \<Rightarrow> BackendUnavailable)
       (scheduler_error_display e)"

fun status_kind :: "runtime_status \<Rightarrow> engine_error_kind" where
  "status_kind StatusInvalidArgument = InvalidRequest"
| "status_kind StatusInvalidUtf8 = InvalidRequest"
| "status_kind StatusUnsupportedLanguage = InvalidRequest"
| "status_kind StatusCancelled = EngineCancelled"
| "status_kind StatusModel = BackendUnavailable"
| "status_kind StatusAllocation = BackendUnavailable"
| "status_kind StatusCuda = BackendUnavailable"
| "status_kind _ = EngineInternal"

definition engine_backend_error :: "backend_error \<Rightarrow> engine_error" where
  "engine_backend_error e = engine_error_new (status_kind (be_status e)) (be_message e)"

section \<open>The engine over the scheduler\<close>

record ('b, 's) native_engine =
  ne_scheduler :: "('b, 's) sched"
  ne_healthy :: bool

text \<open>The bytes of a packet: each sample little-endian. The packet is dropped, which recycles its buffer.\<close>

definition pcm_le_bytes :: "pcm \<Rightarrow> bytes" where
  "pcm_le_bytes samples = concat (map (\<lambda>s. le_bytes 2 (unat s)) samples)"

definition engine_packet_from :: "owned_audio_packet \<Rightarrow> engine_packet unwind" where
  "engine_packet_from p =
     (let d = op_descriptor p in
      case packet_pcm p of
        Panicked \<Rightarrow> Panicked
      | Returned samples \<Rightarrow> Returned \<lparr>ep_sequence = pd_sequence d, ep_first_codec_frame = first_codec_frame d,
          ep_first_sample = first_sample d, ep_codec_frames = pd_codec_frames d, ep_sample_count = sample_count d,
          ep_sample_rate = sample_rate d, ep_channels = pd_channels d, ep_is_final = pd_is_final d \<noteq> 0,
          ep_pcm_s16le = pcm_le_bytes samples\<rparr>)"

fun engine_poll_from :: "poll_error + poll_outcome \<Rightarrow> (engine_error + engine_poll) unwind" where
  "engine_poll_from (Inr (PollPacket p)) =
     (case engine_packet_from p of Panicked \<Rightarrow> Panicked | Returned q \<Rightarrow> Returned (Ok (EnginePacketPolled q)))"
| "engine_poll_from (Inr PollWouldBlock) = Returned (Ok EngineWouldBlock)"
| "engine_poll_from (Inr (PollEndOfStream reason)) = Returned (case reason of
       finish_reason.CodecEos \<Rightarrow> Ok (EngineEndOfStream FinishStop)
     | MaxCodecFrames \<Rightarrow> Ok (EngineEndOfStream FinishLength)
     | FinishNone \<Rightarrow> Err (engine_error_new EngineInternal ''native runtime reached end-of-stream without a finish reason''))"
| "engine_poll_from (Inl PollCancelled) = Returned (Err (engine_error_new EngineCancelled ''native request was cancelled''))"
| "engine_poll_from (Inl (PollFailed e)) = Returned (Err (engine_backend_error e))"

text \<open>A failure of the backend that makes it unavailable clears the health flag.\<close>

definition poll_failure_health :: "poll_error + poll_outcome \<Rightarrow> bool \<Rightarrow> bool" where
  "poll_failure_health res healthy =
     (case res of
        Inl (PollFailed e) \<Rightarrow> healthy \<and> ee_kind (engine_backend_error e) \<noteq> BackendUnavailable
      | _ \<Rightarrow> healthy)"

definition drop_polled :: "poll_error + poll_outcome \<Rightarrow> ('b, 's) sched \<Rightarrow> ('b, 's) sched" where
  "drop_polled res w = (case res of Inr (PollPacket p) \<Rightarrow> drop_packet p w | _ \<Rightarrow> w)"

text \<open>\<open>env\<close> says what happens while a call waits, \<open>now\<close> is the time of the call.\<close>

definition native_poll :: "('b, 's) waiting \<Rightarrow> nat \<Rightarrow> sref \<Rightarrow> instant \<Rightarrow> duration \<Rightarrow> ('b, 's) native_engine \<Rightarrow>
    ((engine_error + engine_poll) unwind \<times> ('b, 's) native_engine) option" where
  "native_poll env fuel r now timeout e =
     map_option (\<lambda>(res, w). (engine_poll_from res,
         e\<lparr>ne_scheduler := drop_polled res w, ne_healthy := poll_failure_health res (ne_healthy e)\<rparr>))
       (handle_poll env fuel r timeout (Some (now + timeout)) (ne_scheduler e))"

definition native_request_cancel :: "sref \<Rightarrow> ('b, 's) native_engine \<Rightarrow> (engine_error + unit) \<times> ('b, 's) native_engine" where
  "native_request_cancel r e =
     (case handle_cancel r (ne_scheduler e) of
        (res, w) \<Rightarrow> (map_err engine_scheduler_error res, e\<lparr>ne_scheduler := w\<rparr>))"

definition native_wait_retired :: "('b, 's) waiting \<Rightarrow> nat \<Rightarrow> sref \<Rightarrow> instant \<Rightarrow> duration \<Rightarrow> ('b, 's) native_engine \<Rightarrow>
    (bool \<times> ('b, 's) native_engine) option" where
  "native_wait_retired env fuel r now timeout e =
     map_option (\<lambda>(retired, w). (retired, e\<lparr>ne_scheduler := w, ne_healthy := ne_healthy e \<and> retired\<rparr>))
       (handle_wait_retired env fuel r (Some (now + timeout)) False (ne_scheduler e))"

definition native_metrics :: "sref \<Rightarrow> ('b, 's) native_engine \<Rightarrow> engine_metrics" where
  "native_metrics r e = engine_metrics_from (handle_metrics (ne_scheduler e) r)"

definition native_start :: "engine_synthesis_request \<Rightarrow> instant \<Rightarrow> ('b, 's) native_engine \<Rightarrow>
    (engine_error + sref) \<times> ('b, 's) native_engine" where
  "native_start q now e =
     (if \<not> ne_healthy e then (Err (engine_error_new BackendUnavailable ''native runtime is not ready''), e)
      else case scheduler_start (er_input q) (er_generation q) now (ne_scheduler e) of
        (Inr r, w) \<Rightarrow> (Ok r, e\<lparr>ne_scheduler := w\<rparr>)
      | (Inl err, w) \<Rightarrow>
          (let mapped = engine_scheduler_error err
           in (Err mapped, e\<lparr>ne_scheduler := w,
                 ne_healthy := ne_healthy e \<and> ee_kind mapped \<noteq> BackendUnavailable\<rparr>)))"

section \<open>Warm-up\<close>

definition warm_up_request :: "u32 \<Rightarrow> engine_synthesis_request" where
  "warm_up_request frames = \<lparr>er_input = \<lparr>ri_text = ''Ready.'', ri_instruct = ''A calm, neutral adult voice.'',
       ri_language = English\<rparr>,
     er_generation = default_generation_config\<lparr>max_codec_frames := frames, gc_seed := 0\<rparr>\<rparr>"

definition warm_up_packet_ok :: "u32 \<Rightarrow> engine_packet \<Rightarrow> bool" where
  "warm_up_packet_ok frames p \<longleftrightarrow> \<not> (ep_codec_frames p = 0 \<or> frames < ep_codec_frames p
     \<or> ep_sample_count p \<noteq> saturating_mul (ep_codec_frames p) SAMPLES_PER_CODEC_FRAME
     \<or> length (ep_pcm_s16le p) \<noteq> unat (ep_sample_count p) * 2)"

definition warm_up_metrics_ok :: "engine_packet \<Rightarrow> engine_metrics \<Rightarrow> bool" where
  "warm_up_metrics_ok p m \<longleftrightarrow> \<not> (em_generated_codec_frames m < ucast (ep_codec_frames p)
     \<or> em_emitted_packets m = 0 \<or> em_emitted_samples m < ucast (ep_sample_count p)
     \<or> em_first_audio_microseconds m = 0)"

text \<open>After the first packet: its end of stream is taken, or the request is cancelled.\<close>

definition warm_up_end :: "'w speech_request \<Rightarrow> engine_packet \<Rightarrow> 'w \<Rightarrow>
    ((engine_error + unit) unwind \<times> 'w) option" where
  "warm_up_end rq p w =
     (if ep_is_final p
      then map_option (\<lambda>(res, w1). (case res of
          Panicked \<Rightarrow> Panicked
        | Returned (Inl e) \<Rightarrow> Returned (Err e)
        | Returned (Inr (EngineEndOfStream _)) \<Rightarrow> Returned (Ok ())
        | Returned (Inr _) \<Rightarrow> Returned (Err (engine_error_new EngineInternal
            ''native startup warm-up did not terminate after its final packet'')), w1))
        (rq_poll rq (30 * 10 ^ 9) w)
      else Some (case rq_cancel rq w of (res, w1) \<Rightarrow> (Returned res, w1)))"

definition warm_up_packet :: "engine_error + engine_poll \<Rightarrow> engine_error + engine_packet" where
  "warm_up_packet res =
     and_then res (\<lambda>polled. case polled of
        EnginePacketPolled p \<Rightarrow> Ok p
      | EngineWouldBlock \<Rightarrow> Err (engine_error_new BackendUnavailable ''native startup warm-up timed out before first audio'')
      | EngineEndOfStream _ \<Rightarrow> Err (engine_error_new EngineInternal ''native startup warm-up ended without audio''))"

definition warm_up_retire :: "'w speech_request \<Rightarrow> engine_packet \<Rightarrow> 'w \<Rightarrow>
    ((engine_error + unit) unwind \<times> 'w) option" where
  "warm_up_retire rq p w =
     map_option (\<lambda>(retired, w1).
       (Returned (if \<not> retired then Err (engine_error_new BackendUnavailable
            ''native startup warm-up did not retire within five seconds'')
          else if \<not> warm_up_metrics_ok p (rq_metrics rq w1)
          then Err (engine_error_new EngineInternal ''native startup warm-up metrics did not match delivered audio'')
          else Ok ()), w1))
       (rq_wait_retired rq (5 * 10 ^ 9) w)"

definition warm_up :: "'w speech_engine \<Rightarrow> u32 \<Rightarrow> 'w \<Rightarrow> ((engine_error + unit) unwind \<times> 'w) option" where
  "warm_up en frames w =
     (case en_start en (warm_up_request frames) w of
        (Inl e, w1) \<Rightarrow> Some (Returned (Err e), w1)
      | (Inr rq, w1) \<Rightarrow>
          Option.bind (rq_poll rq (30 * 10 ^ 9) w1) (\<lambda>(polled, w2).
          case polled of
            Panicked \<Rightarrow> Some (Panicked, w2)
          | Returned res \<Rightarrow>
              (case warm_up_packet res of
                 Inl e \<Rightarrow> Some (Returned (Err e), w2)
               | Inr p \<Rightarrow>
                   if \<not> warm_up_packet_ok frames p
                   then Some (Returned (Err (engine_error_new EngineInternal
                     ''native startup warm-up produced an invalid audio packet'')), w2)
                   else Option.bind (warm_up_end rq p w2) (\<lambda>(ended, w3).
                     case ended of
                       Returned (Inr _) \<Rightarrow> warm_up_retire rq p w3
                     | failed \<Rightarrow> Some (failed, w3)))))"

text \<open>The engine as an instance of the traits; \<open>clock\<close> reads the time.\<close>

definition native_speech_request :: "('b, 's) waiting \<Rightarrow> nat \<Rightarrow> (('b, 's) native_engine \<Rightarrow> instant) \<Rightarrow> sref \<Rightarrow>
    ('b, 's) native_engine speech_request" where
  "native_speech_request env fuel clock r =
     \<lparr>rq_poll = \<lambda>timeout e. native_poll env fuel r (clock e) timeout e,
      rq_cancel = native_request_cancel r,
      rq_wait_retired = \<lambda>timeout e. native_wait_retired env fuel r (clock e) timeout e,
      rq_metrics = native_metrics r\<rparr>"

definition native_speech_engine :: "('b, 's) waiting \<Rightarrow> nat \<Rightarrow> (('b, 's) native_engine \<Rightarrow> instant) \<Rightarrow>
    ('b, 's) native_engine speech_engine" where
  "native_speech_engine env fuel clock =
     \<lparr>en_start = \<lambda>q e. (case native_start q (clock e) e of
         (Inl err, e1) \<Rightarrow> (Err err, e1)
       | (Inr r, e1) \<Rightarrow> (Ok (native_speech_request env fuel clock r), e1)),
      en_is_ready = ne_healthy\<rparr>"

text \<open>\<open>NativeRuntimeEngine::load\<close>, given the loaded backend: the scheduler, then the warm-up.\<close>

definition native_engine_load :: "('b, 's) waiting \<Rightarrow> nat \<Rightarrow> (('b, 's) native_engine \<Rightarrow> instant) \<Rightarrow> engine_config \<Rightarrow>
    backend_error + 'b \<Rightarrow> string option \<Rightarrow> u32 \<Rightarrow> ((engine_error + ('b, 's) native_engine) unwind) option" where
  "native_engine_load env fuel clock config backend spawn_error frames =
     (case and_then (map_err engine_backend_error backend) (\<lambda>b.
            map_err engine_scheduler_error (scheduler_new config b spawn_error)) of
        Inl e \<Rightarrow> Some (Returned (Err e))
      | Inr w \<Rightarrow>
          map_option (\<lambda>(res, e). case res of
              Panicked \<Rightarrow> Panicked
            | Returned r \<Rightarrow> Returned (and_then r (\<lambda>_. Ok e)))
            (warm_up (native_speech_engine env fuel clock) frames \<lparr>ne_scheduler = w, ne_healthy = True\<rparr>))"

end
