(* ===== verification/SvResponse.thy ===== *)
theory SvResponse
  imports SvEngine Json
begin

text \<open>
  What the server writes: \<open>multipart.rs\<close>, \<open>wav.rs\<close>, \<open>error.rs\<close> and \<open>metrics.rs\<close> of \<open>qwen3-tts-server\<close>. A UUID
  is its hyphenated text; its other forms and the serialisation of JSON are third-party code, gathered
  in a record.
\<close>

type_synonym uuid = bytes

section \<open>Multipart\<close>

record start_event =
  sv_request_id :: uuid
  sv_model :: bytes
  sv_seed :: u64
  sv_encoding :: bytes
  sv_sample_rate_hz :: u32
  sv_channels :: u32
  sv_samples_per_codec_frame :: u32

record end_event =
  ev_request_id :: uuid
  ev_finish_reason :: engine_finish_reason
  ev_metrics :: engine_metrics

record foreign =
  fo_simple :: "uuid \<Rightarrow> bytes"
  fo_parse_uuid :: "bytes \<Rightarrow> uuid option"
  fo_start_json :: "start_event \<Rightarrow> bytes"
  fo_end_json :: "end_event \<Rightarrow> bytes"
  fo_json :: "json \<Rightarrow> bytes"

definition crlf :: bytes where "crlf = [CHR 0x0D, CHR 0x0A]"

definition part_boundary :: "foreign \<Rightarrow> uuid \<Rightarrow> bytes" where
  "part_boundary f request_id = ''qwen3tts-'' @ fo_simple f request_id"

definition part :: "bytes \<Rightarrow> bytes \<Rightarrow> (bytes \<times> bytes) list \<Rightarrow> bytes \<Rightarrow> bool \<Rightarrow> bytes" where
  "part boundary content_type headers payload close =
     ''--'' @ boundary @ crlf
     @ ''Content-Type: '' @ content_type @ crlf
     @ ''Content-Length: '' @ show_nat (length payload) @ crlf
     @ concat (map (\<lambda>(name, value). name @ '': '' @ value @ crlf) headers)
     @ crlf @ payload @ crlf
     @ (if close then ''--'' @ boundary @ ''--'' @ crlf else [])"

definition start_event_of :: "uuid \<Rightarrow> u64 \<Rightarrow> start_event" where
  "start_event_of request_id seed = \<lparr>sv_request_id = request_id, sv_model = SERVER_MODEL_ID, sv_seed = seed,
     sv_encoding = ''pcm_s16le'', sv_sample_rate_hz = 24000, sv_channels = 1, sv_samples_per_codec_frame = 1920\<rparr>"

definition start_part :: "foreign \<Rightarrow> bytes \<Rightarrow> uuid \<Rightarrow> u64 \<Rightarrow> bytes" where
  "start_part f boundary request_id seed =
     part boundary ''application/json'' [] (fo_start_json f (start_event_of request_id seed)) False"

definition audio_headers :: "engine_packet \<Rightarrow> (bytes \<times> bytes) list" where
  "audio_headers p =
     [(''X-Sequence'', show_nat (unat (ep_sequence p))),
      (''X-First-Codec-Frame'', show_nat (unat (ep_first_codec_frame p))),
      (''X-First-Sample'', show_nat (unat (ep_first_sample p))),
      (''X-Sample-Count'', show_nat (unat (ep_sample_count p))),
      (''X-Codec-Frames'', show_nat (unat (ep_codec_frames p))),
      (''X-Final'', if ep_is_final p then ''true'' else ''false'')]"

definition AUDIO_CONTENT_TYPE :: bytes where
  "AUDIO_CONTENT_TYPE = ''audio/pcm;rate=24000;channels=1;format=s16le''"

definition audio_part :: "bytes \<Rightarrow> engine_packet \<Rightarrow> bytes" where
  "audio_part boundary p = part boundary AUDIO_CONTENT_TYPE (audio_headers p) (ep_pcm_s16le p) False"

definition end_part :: "foreign \<Rightarrow> bytes \<Rightarrow> uuid \<Rightarrow> engine_finish_reason \<Rightarrow> engine_metrics \<Rightarrow> bytes" where
  "end_part f boundary request_id reason metrics =
     part boundary ''application/json'' []
       (fo_end_json f \<lparr>ev_request_id = request_id, ev_finish_reason = reason, ev_metrics = metrics\<rparr>) True"

definition error_part :: "foreign \<Rightarrow> bytes \<Rightarrow> json \<Rightarrow> bytes" where
  "error_part f boundary payload = part boundary ''application/json'' [] (fo_json f payload) True"

section \<open>WAV\<close>

definition encode_pcm16_mono :: "bytes \<Rightarrow> bytes + bytes" where
  "encode_pcm16_mono pcm =
     (if length pcm mod 2 \<noteq> 0 then Err ''PCM16 payload must contain complete samples''
      else if 2 ^ 32 \<le> length pcm then Err ''WAV payload is too large''
      else and_then (ok_or (checked_add (of_nat (length pcm) :: u32) 36) ''WAV RIFF length overflowed'') (\<lambda>riff_bytes.
        let byte_rate = SAMPLE_RATE * 2 in
        Ok (''RIFF'' @ le_bytes 4 (unat riff_bytes) @ ''WAVEfmt '' @ le_bytes 4 16 @ le_bytes 2 1 @ le_bytes 2 1
          @ le_bytes 4 (unat SAMPLE_RATE) @ le_bytes 4 (unat byte_rate) @ le_bytes 2 2 @ le_bytes 2 16
          @ ''data'' @ le_bytes 4 (length pcm) @ pcm)))"

section \<open>Errors\<close>

record http_response =
  hr_status :: nat
  hr_headers :: "(bytes \<times> bytes) list"
  hr_body :: bytes

record api_error =
  ae_status :: nat
  ae_code :: bytes
  ae_title :: bytes
  ae_detail :: bytes
  ae_request_id :: "uuid option"

definition api_error_new :: "nat \<Rightarrow> bytes \<Rightarrow> bytes \<Rightarrow> bytes \<Rightarrow> api_error" where
  "api_error_new status code title detail =
     \<lparr>ae_status = status, ae_code = code, ae_title = title, ae_detail = detail, ae_request_id = None\<rparr>"

definition with_request_id :: "uuid \<Rightarrow> api_error \<Rightarrow> api_error" where
  "with_request_id request_id e = e\<lparr>ae_request_id := Some request_id\<rparr>"

definition api_error_validation :: "validation_error \<Rightarrow> api_error" where
  "api_error_validation e = api_error_new 422 (ve_code e) ''Request validation failed'' (ve_detail e)"

definition api_error_engine :: "engine_error \<Rightarrow> uuid option \<Rightarrow> api_error" where
  "api_error_engine e request_id =
     (case (case ee_kind e of
         InvalidRequest \<Rightarrow> (422, ''invalid_request'', ''Native request was rejected'', ee_message e)
       | CapacityExhausted \<Rightarrow> (429, ''capacity_exhausted'', ''Native request capacity is exhausted'',
           ''all native request slots are busy'')
       | EngineCancelled \<Rightarrow> (409, ''request_cancelled'', ''Request was cancelled'', ''the native request was cancelled'')
       | BackendUnavailable \<Rightarrow> (503, ''backend_unavailable'', ''Native backend is unavailable'',
           ''the native VoiceDesign runtime is unavailable'')
       | EngineInternal \<Rightarrow> (500, ''internal_error'', ''Internal server error'',
           ''the native request violated an internal invariant''))
      of (status, code, title, detail) \<Rightarrow>
        \<lparr>ae_status = status, ae_code = code, ae_title = title, ae_detail = detail, ae_request_id = request_id\<rparr>)"

definition malformed_json :: "nat \<Rightarrow> api_error" where
  "malformed_json status =
     (if status = 415 then api_error_new status ''unsupported_media_type'' ''Unsupported media type''
        ''Content-Type must be application/json''
      else if status = 413 then api_error_new status ''request_too_large'' ''Request body is too large''
        ''the JSON request exceeds the configured byte limit''
      else api_error_new 400 ''malformed_json'' ''Malformed JSON request''
        ''the request body must be valid JSON and contain no unknown fields'')"

definition json_uuid :: "uuid option \<Rightarrow> json" where
  "json_uuid u = (case u of Some s \<Rightarrow> JString s | None \<Rightarrow> JNull)"

definition stream_payload :: "api_error \<Rightarrow> json" where
  "stream_payload e = JObject [(''type'', JString ''error''), (''request_id'', json_uuid (ae_request_id e)),
     (''error'', JObject [(''code'', JString (ae_code e)), (''detail'', JString (ae_detail e))])]"

definition into_response :: "foreign \<Rightarrow> api_error \<Rightarrow> http_response" where
  "into_response f e =
     \<lparr>hr_status = ae_status e,
      hr_headers = [(''content-type'', ''application/problem+json'')]
        @ (if ae_status e = 429 then [(''retry-after'', ''1'')] else [])
        @ (case ae_request_id e of Some u \<Rightarrow> [(''x-request-id'', u)] | None \<Rightarrow> []),
      hr_body = fo_json f (JObject ([(''type'', JString (''urn:qwen3-tts-native:problem:'' @ ae_code e)),
          (''title'', JString (ae_title e)), (''status'', JUnsigned (ae_status e)), (''code'', JString (ae_code e)),
          (''detail'', JString (ae_detail e))]
        @ (case ae_request_id e of Some u \<Rightarrow> [(''request_id'', JString u)] | None \<Rightarrow> [])))\<rparr>"

section \<open>Counters\<close>

record service_metrics =
  sm_requests_total :: u64
  sm_active_requests :: u64
  sm_streaming_requests :: u64
  sm_buffered_requests :: u64
  sm_completed_requests :: u64
  sm_failed_requests :: u64
  sm_cancelled_requests :: u64
  sm_rejected_requests :: u64
  sm_retirement_timeouts :: u64
  sm_emitted_samples :: u64

definition default_service_metrics :: service_metrics where
  "default_service_metrics = \<lparr>sm_requests_total = 0, sm_active_requests = 0, sm_streaming_requests = 0,
     sm_buffered_requests = 0, sm_completed_requests = 0, sm_failed_requests = 0, sm_cancelled_requests = 0,
     sm_rejected_requests = 0, sm_retirement_timeouts = 0, sm_emitted_samples = 0\<rparr>"

definition request_started :: "bool \<Rightarrow> service_metrics \<Rightarrow> service_metrics" where
  "request_started streaming m =
     (let m1 = m\<lparr>sm_requests_total := sm_requests_total m + 1, sm_active_requests := sm_active_requests m + 1\<rparr>
      in if streaming then m1\<lparr>sm_streaming_requests := sm_streaming_requests m + 1\<rparr>
         else m1\<lparr>sm_buffered_requests := sm_buffered_requests m + 1\<rparr>)"

definition request_completed :: "u64 \<Rightarrow> service_metrics \<Rightarrow> service_metrics" where
  "request_completed samples m = m\<lparr>sm_active_requests := sm_active_requests m - 1,
     sm_completed_requests := sm_completed_requests m + 1, sm_emitted_samples := sm_emitted_samples m + samples\<rparr>"

definition request_failed :: "service_metrics \<Rightarrow> service_metrics" where
  "request_failed m = m\<lparr>sm_active_requests := sm_active_requests m - 1, sm_failed_requests := sm_failed_requests m + 1\<rparr>"

definition request_cancelled :: "service_metrics \<Rightarrow> service_metrics" where
  "request_cancelled m =
     m\<lparr>sm_active_requests := sm_active_requests m - 1, sm_cancelled_requests := sm_cancelled_requests m + 1\<rparr>"

definition request_rejected :: "service_metrics \<Rightarrow> service_metrics" where
  "request_rejected m = m\<lparr>sm_rejected_requests := sm_rejected_requests m + 1\<rparr>"

definition request_retirement_timed_out :: "service_metrics \<Rightarrow> service_metrics" where
  "request_retirement_timed_out m =
     m\<lparr>sm_failed_requests := sm_failed_requests m + 1, sm_retirement_timeouts := sm_retirement_timeouts m + 1\<rparr>"

definition metric_line :: "bytes \<Rightarrow> u64 \<Rightarrow> bytes" where
  "metric_line name v = name @ '' '' @ show_nat (unat v) @ [CHR 0x0A]"

definition metric_type :: "bytes \<Rightarrow> bytes \<Rightarrow> bytes" where
  "metric_type name kind = ''# TYPE '' @ name @ '' '' @ kind @ [CHR 0x0A]"

definition metric_help :: "bytes \<Rightarrow> bytes \<Rightarrow> bytes" where
  "metric_help name h = ''# HELP '' @ name @ '' '' @ h @ [CHR 0x0A]"

definition counter_lines :: "bytes \<Rightarrow> u64 \<Rightarrow> bytes" where
  "counter_lines name v = metric_type name ''counter'' @ metric_line name v"

definition render_prometheus :: "service_metrics \<Rightarrow> bytes" where
  "render_prometheus m =
     metric_help ''qwen3_tts_http_requests_total'' ''Accepted synthesis requests.''
     @ counter_lines ''qwen3_tts_http_requests_total'' (sm_requests_total m)
     @ metric_help ''qwen3_tts_active_requests'' ''Currently active native requests.''
     @ metric_type ''qwen3_tts_active_requests'' ''gauge''
     @ metric_line ''qwen3_tts_active_requests'' (sm_active_requests m)
     @ counter_lines ''qwen3_tts_streaming_requests_total'' (sm_streaming_requests m)
     @ counter_lines ''qwen3_tts_buffered_requests_total'' (sm_buffered_requests m)
     @ counter_lines ''qwen3_tts_completed_requests_total'' (sm_completed_requests m)
     @ counter_lines ''qwen3_tts_failed_requests_total'' (sm_failed_requests m)
     @ counter_lines ''qwen3_tts_cancelled_requests_total'' (sm_cancelled_requests m)
     @ counter_lines ''qwen3_tts_rejected_requests_total'' (sm_rejected_requests m)
     @ metric_help ''qwen3_tts_retirement_timeouts_total''
         ''Native requests that did not retire before the safety deadline.''
     @ counter_lines ''qwen3_tts_retirement_timeouts_total'' (sm_retirement_timeouts m)
     @ counter_lines ''qwen3_tts_emitted_samples_total'' (sm_emitted_samples m)"

end
