(* ===== verification/SvWorker.thy ===== *)
theory SvWorker
  imports SvResponse
begin

text \<open>
  The two workers of \<open>qwen3-tts-server/src/server.rs\<close> that drain a native request: one streams its packets
  as parts of a multipart body, one collects them into a WAV file. The request is any implementation of
  the \<open>SpeechRequest\<close> trait. What the rest of the process does meanwhile is given per turn of the worker:
  whether its token is cancelled, and what becomes of a chunk handed to the channel.
\<close>

section \<open>Continuity of packets\<close>

definition validate_packet :: "engine_packet \<Rightarrow> engine_error + unit" where
  "validate_packet p =
     (if ep_sample_rate p \<noteq> SAMPLE_RATE \<or> ep_channels p \<noteq> 1 \<or> ep_codec_frames p = 0 \<or> 4 < ep_codec_frames p
        \<or> ep_sample_count p \<noteq> ep_codec_frames p * SAMPLES_PER_CODEC_FRAME
        \<or> length (ep_pcm_s16le p) \<noteq> usize_saturating_mul (unat (ep_sample_count p)) 2
      then Err (engine_error_new EngineInternal ''native runtime emitted an invalid audio packet'')
      else Ok ())"

record packet_continuity =
  pc_next_sequence :: u64
  pc_next_codec_frame :: u64
  pc_next_sample :: u64
  pc_saw_packet :: bool
  pc_saw_final :: bool

definition default_continuity :: packet_continuity where
  "default_continuity = \<lparr>pc_next_sequence = 0, pc_next_codec_frame = 0, pc_next_sample = 0,
     pc_saw_packet = False, pc_saw_final = False\<rparr>"

definition continuity_accept :: "packet_continuity \<Rightarrow> engine_packet \<Rightarrow> engine_error + packet_continuity" where
  "continuity_accept c p =
     and_then (validate_packet p) (\<lambda>_.
     if pc_saw_final c \<or> ep_sequence p \<noteq> pc_next_sequence c \<or> ep_first_codec_frame p \<noteq> pc_next_codec_frame c
       \<or> ep_first_sample p \<noteq> pc_next_sample c
     then Err (engine_error_new EngineInternal ''native runtime emitted a discontinuous audio packet'')
     else
     and_then (ok_or (checked_add (pc_next_sequence c) 1) (engine_error_new EngineInternal ''audio sequence overflowed'')) (\<lambda>q.
     and_then (ok_or (checked_add (pc_next_codec_frame c) (ucast (ep_codec_frames p)))
       (engine_error_new EngineInternal ''audio frame position overflowed'')) (\<lambda>f.
     and_then (ok_or (checked_add (pc_next_sample c) (ucast (ep_sample_count p)))
       (engine_error_new EngineInternal ''audio sample position overflowed'')) (\<lambda>x.
     Ok \<lparr>pc_next_sequence = q, pc_next_codec_frame = f, pc_next_sample = x, pc_saw_packet = True,
         pc_saw_final = ep_is_final p\<rparr>))))"

definition continuity_finish :: "packet_continuity \<Rightarrow> engine_error + unit" where
  "continuity_finish c =
     (if \<not> pc_saw_packet c \<or> \<not> pc_saw_final c
      then Err (engine_error_new EngineInternal ''native runtime reached end-of-stream without a final audio packet'')
      else Ok ())"

section \<open>What the workers share\<close>

datatype completion = Pending | CompletedWith u64 | CompletionFailed | CompletionCancelled | RetirementTimedOut

text \<open>\<open>mark_retirement\<close>: the new completion of the guard.\<close>

definition mark_retirement :: "'w speech_request \<Rightarrow> duration \<Rightarrow> completion \<Rightarrow> 'w \<Rightarrow> (completion \<times> 'w) option" where
  "mark_retirement rq timeout completion w =
     map_option (\<lambda>(retired, w1). (if retired then completion else RetirementTimedOut, w1)) (rq_wait_retired rq timeout w)"

definition retirement_timeout_error :: "uuid \<Rightarrow> api_error" where
  "retirement_timeout_error request_id =
     with_request_id request_id (api_error_new 503 ''native_retirement_timeout'' ''Native request did not retire''
       ''the native request exceeded its bounded retirement deadline; restart the unhealthy engine'')"

datatype send_chunk_error = SendCancelled | SendDisconnected | SendTimedOut

text \<open>\<open>timeout(sender.send(..))\<close>: accepted, the receiver is gone, or the time is up.\<close>

datatype timed_send = SendAccepted | ReceiverGone | SendElapsed

fun map_send_result :: "timed_send \<Rightarrow> send_chunk_error + unit" where
  "map_send_result SendAccepted = Ok ()"
| "map_send_result ReceiverGone = Err SendDisconnected"
| "map_send_result SendElapsed = Err SendTimedOut"

definition send_chunk :: "bool \<Rightarrow> timed_send \<Rightarrow> bool \<Rightarrow> send_chunk_error + unit" where
  "send_chunk cancel_wins sent observe_cancellation =
     (if observe_cancellation \<and> cancel_wins then Err SendCancelled else map_send_result sent)"

record 'w worker_context =
  cx_request :: "'w speech_request"
  cx_request_id :: uuid
  cx_boundary :: bytes
  cx_config :: server_config
  cx_foreign :: foreign
  cx_cancelled :: "nat \<Rightarrow> bool"
  cx_cancel_wins :: "nat \<Rightarrow> bool"
  cx_delivery :: "nat \<Rightarrow> timed_send"

section \<open>The streaming worker\<close>

text \<open>\<open>wk_sent\<close> are the chunks the channel has accepted, \<open>wk_turn\<close> counts the worker's observations.\<close>

record streaming_worker =
  wk_sent :: "bytes list"
  wk_sent_samples :: u64
  wk_continuity :: packet_continuity
  wk_completion :: completion
  wk_turn :: nat

definition worker_send :: "'w worker_context \<Rightarrow> bytes \<Rightarrow> bool \<Rightarrow> streaming_worker \<Rightarrow>
    (send_chunk_error + unit) \<times> streaming_worker" where
  "worker_send cx chunk observe_cancellation k =
     (let n = wk_turn k; res = send_chunk (cx_cancel_wins cx n) (cx_delivery cx n) observe_cancellation
      in (res, k\<lparr>wk_sent := wk_sent k @ (if is_ok res then [chunk] else []), wk_turn := n + 1\<rparr>))"

definition send_error :: "'w worker_context \<Rightarrow> api_error \<Rightarrow> streaming_worker \<Rightarrow> streaming_worker" where
  "send_error cx e k =
     snd (worker_send cx (error_part (cx_foreign cx) (cx_boundary cx) (stream_payload e)) False k)"

definition worker_retire :: "'w worker_context \<Rightarrow> completion \<Rightarrow> streaming_worker \<Rightarrow> 'w \<Rightarrow> (streaming_worker \<times> 'w) option" where
  "worker_retire cx completion k w =
     map_option (\<lambda>(c, w1). (k\<lparr>wk_completion := c\<rparr>, w1))
       (mark_retirement (cx_request cx) (sv_retirement_timeout (cx_config cx)) completion w)"

definition cancel_request_of :: "'w worker_context \<Rightarrow> 'w \<Rightarrow> 'w" where
  "cancel_request_of cx w = snd (rq_cancel (cx_request cx) w)"

definition handle_cancellation :: "'w worker_context \<Rightarrow> streaming_worker \<Rightarrow> 'w \<Rightarrow> (streaming_worker \<times> 'w) option" where
  "handle_cancellation cx k w =
     (let w1 = cancel_request_of cx w;
          e = api_error_engine (engine_error_new EngineCancelled ''request was cancelled'') (Some (cx_request_id cx))
      in worker_retire cx CompletionCancelled (send_error cx e k) w1)"

definition fail_native_output :: "'w worker_context \<Rightarrow> engine_error \<Rightarrow> streaming_worker \<Rightarrow> 'w \<Rightarrow> (streaming_worker \<times> 'w) option" where
  "fail_native_output cx e k w =
     (let w1 = cancel_request_of cx w
      in worker_retire cx CompletionFailed (send_error cx (api_error_engine e (Some (cx_request_id cx))) k) w1)"

text \<open>The flag says whether the worker goes on.\<close>

definition handle_packet :: "'w worker_context \<Rightarrow> engine_packet \<Rightarrow> streaming_worker \<Rightarrow> 'w \<Rightarrow> (bool \<times> streaming_worker \<times> 'w) option" where
  "handle_packet cx p k w =
     (case continuity_accept (wk_continuity k) p of
        Inl e \<Rightarrow> map_option (Pair False) (fail_native_output cx e k w)
      | Inr c \<Rightarrow>
          (case worker_send cx (audio_part (cx_boundary cx) p) True (k\<lparr>wk_continuity := c\<rparr>) of
             (Inl _, k1) \<Rightarrow> map_option (Pair False) (worker_retire cx CompletionCancelled k1 (cancel_request_of cx w))
           | (Inr _, k1) \<Rightarrow>
               Some (True, k1\<lparr>wk_sent_samples := saturating_add (wk_sent_samples k1) (ucast (ep_sample_count p))\<rparr>, w)))"

definition handle_end_of_stream :: "'w worker_context \<Rightarrow> engine_finish_reason \<Rightarrow> streaming_worker \<Rightarrow> 'w \<Rightarrow>
    (streaming_worker \<times> 'w) option" where
  "handle_end_of_stream cx reason k w =
     (case continuity_finish (wk_continuity k) of
        Inl e \<Rightarrow> fail_native_output cx e k w
      | Inr _ \<Rightarrow>
          map_option (\<lambda>(retired, w1).
            if \<not> retired
            then ((send_error cx (retirement_timeout_error (cx_request_id cx)) k)\<lparr>wk_completion := RetirementTimedOut\<rparr>, w1)
            else (case worker_send cx (end_part (cx_foreign cx) (cx_boundary cx) (cx_request_id cx) reason
                     (rq_metrics (cx_request cx) w1)) True k of
                    (Inl _, k1) \<Rightarrow> (k1\<lparr>wk_completion := CompletionCancelled\<rparr>, w1)
                  | (Inr _, k1) \<Rightarrow> (k1\<lparr>wk_completion := CompletedWith (wk_sent_samples k1)\<rparr>, w1)))
            (rq_wait_retired (cx_request cx) (sv_retirement_timeout (cx_config cx)) w))"

definition handle_engine_error :: "'w worker_context \<Rightarrow> engine_error \<Rightarrow> streaming_worker \<Rightarrow> 'w \<Rightarrow> (streaming_worker \<times> 'w) option" where
  "handle_engine_error cx e k w =
     worker_retire cx (if ee_kind e = EngineCancelled then CompletionCancelled else CompletionFailed)
       (send_error cx (api_error_engine e (Some (cx_request_id cx))) k) w"

text \<open>The loop, with fuel; \<open>None\<close> while it is still running. A poll that unwinds ends the worker's thread.\<close>

fun streaming_run :: "nat \<Rightarrow> 'w worker_context \<Rightarrow> streaming_worker \<Rightarrow> 'w \<Rightarrow> (streaming_worker \<times> 'w) option" where
  "streaming_run 0 cx k w = None"
| "streaming_run (Suc n) cx k w =
     (let k = k\<lparr>wk_turn := wk_turn k + 1\<rparr> in
      if cx_cancelled cx (wk_turn k) then handle_cancellation cx k w
      else Option.bind (rq_poll (cx_request cx) (sv_poll_timeout (cx_config cx)) w) (\<lambda>(polled, w1).
        case polled of
          Panicked \<Rightarrow> Some (k, w1)
        | Returned (Inr EngineWouldBlock) \<Rightarrow> streaming_run n cx k w1
        | Returned (Inr (EnginePacketPolled p)) \<Rightarrow>
            Option.bind (handle_packet cx p k w1) (\<lambda>(continue, k1, w2).
              if continue then streaming_run n cx k1 w2 else Some (k1, w2))
        | Returned (Inr (EngineEndOfStream reason)) \<Rightarrow> handle_end_of_stream cx reason k w1
        | Returned (Inl e) \<Rightarrow> handle_engine_error cx e k w1))"

text \<open>The worker as it is spawned: the start part is in the channel.\<close>

definition streaming_worker_new :: "'w worker_context \<Rightarrow> u64 \<Rightarrow> streaming_worker" where
  "streaming_worker_new cx seed =
     \<lparr>wk_sent = [start_part (cx_foreign cx) (cx_boundary cx) (cx_request_id cx) seed], wk_sent_samples = 0,
      wk_continuity = default_continuity, wk_completion = Pending, wk_turn = 0\<rparr>"

section \<open>The buffered worker\<close>

record buffered_output =
  bo_wav :: bytes
  bo_finish_reason :: engine_finish_reason

record buffered_worker =
  bk_pcm :: bytes
  bk_continuity :: packet_continuity
  bk_turn :: nat

text \<open>The worker's result and the completion its guard is dropped with.\<close>

type_synonym 'w buffered_result = "((api_error + buffered_output) unwind \<times> completion \<times> 'w) option"

definition buffered_fail :: "'w worker_context \<Rightarrow> completion \<Rightarrow> api_error \<Rightarrow> 'w \<Rightarrow> 'w buffered_result" where
  "buffered_fail cx completion e w =
     map_option (\<lambda>(c, w1). (Returned (Err e), c, w1))
       (mark_retirement (cx_request cx) (sv_retirement_timeout (cx_config cx)) completion w)"

definition buffered_accept :: "'w worker_context \<Rightarrow> engine_packet \<Rightarrow> buffered_worker \<Rightarrow> api_error + buffered_worker" where
  "buffered_accept cx p b =
     and_then (map_err (\<lambda>e. api_error_engine e (Some (cx_request_id cx))) (continuity_accept (bk_continuity b) p)) (\<lambda>c.
     if max_buffered_pcm_bytes (cx_config cx) < usize_saturating_add (length (bk_pcm b)) (length (ep_pcm_s16le p))
     then Err (with_request_id (cx_request_id cx) (api_error_new 500 ''buffer_limit_exceeded''
       ''Buffered audio limit was exceeded'' ''native audio exceeded the validated duration bound''))
     else Ok (b\<lparr>bk_continuity := c, bk_pcm := bk_pcm b @ ep_pcm_s16le p\<rparr>))"

definition buffered_end :: "'w worker_context \<Rightarrow> engine_finish_reason \<Rightarrow> buffered_worker \<Rightarrow> 'w \<Rightarrow> 'w buffered_result" where
  "buffered_end cx reason b w =
     (case continuity_finish (bk_continuity b) of
        Inl e \<Rightarrow> buffered_fail cx CompletionFailed (api_error_engine e (Some (cx_request_id cx))) (cancel_request_of cx w)
      | Inr _ \<Rightarrow>
          map_option (\<lambda>(retired, w1).
            if \<not> retired then (Returned (Err (retirement_timeout_error (cx_request_id cx))), RetirementTimedOut, w1)
            else (case encode_pcm16_mono (bk_pcm b) of
                Inl detail \<Rightarrow> (Returned (Err (with_request_id (cx_request_id cx)
                  (api_error_new 500 ''wav_encoding_failed'' ''WAV encoding failed'' detail))), Pending, w1)
              | Inr wav \<Rightarrow> (Returned (Ok \<lparr>bo_wav = wav, bo_finish_reason = reason\<rparr>),
                  CompletedWith (of_nat (length (bk_pcm b) div 2)), w1)))
            (rq_wait_retired (cx_request cx) (sv_retirement_timeout (cx_config cx)) w))"

fun buffered_run :: "nat \<Rightarrow> 'w worker_context \<Rightarrow> buffered_worker \<Rightarrow> 'w \<Rightarrow> 'w buffered_result" where
  "buffered_run 0 cx b w = None"
| "buffered_run (Suc n) cx b w =
     (let b = b\<lparr>bk_turn := bk_turn b + 1\<rparr> in
      if cx_cancelled cx (bk_turn b)
      then buffered_fail cx CompletionCancelled
        (api_error_engine (engine_error_new EngineCancelled ''request was cancelled'') (Some (cx_request_id cx)))
        (cancel_request_of cx w)
      else Option.bind (rq_poll (cx_request cx) (sv_poll_timeout (cx_config cx)) w) (\<lambda>(polled, w1).
        case polled of
          Panicked \<Rightarrow> Some (Panicked, Pending, w1)
        | Returned (Inr EngineWouldBlock) \<Rightarrow> buffered_run n cx b w1
        | Returned (Inr (EnginePacketPolled p)) \<Rightarrow>
            (case buffered_accept cx p b of
               Inl e \<Rightarrow> buffered_fail cx CompletionFailed e (cancel_request_of cx w1)
             | Inr b1 \<Rightarrow> buffered_run n cx b1 w1)
        | Returned (Inr (EngineEndOfStream reason)) \<Rightarrow> buffered_end cx reason b w1
        | Returned (Inl e) \<Rightarrow> buffered_fail cx
            (if ee_kind e = EngineCancelled then CompletionCancelled else CompletionFailed)
            (api_error_engine e (Some (cx_request_id cx))) w1))"

definition buffered_worker_new :: buffered_worker where
  "buffered_worker_new = \<lparr>bk_pcm = [], bk_continuity = default_continuity, bk_turn = 0\<rparr>"

end
