(* ===== verification/SvStream.thy ===== *)
theory SvStream
  imports SvWorker
begin

text \<open>
  What a client of the streaming endpoint can rely on, whatever the engine does, and that the checks
  the server makes never refuse a packet of the scheduler.
\<close>

section \<open>Contiguous audio\<close>

text \<open>The stream an audio client expects: positions without gaps, well-formed packets, nothing after the final one.\<close>

fun audio_stream :: "nat \<Rightarrow> nat \<Rightarrow> nat \<Rightarrow> engine_packet list \<Rightarrow> bool" where
  "audio_stream q f x [] \<longleftrightarrow> True"
| "audio_stream q f x (p # ps) \<longleftrightarrow>
     unat (ep_sequence p) = q \<and> unat (ep_first_codec_frame p) = f \<and> unat (ep_first_sample p) = x \<and>
     unat (ep_codec_frames p) \<in> {1..4} \<and> unat (ep_sample_count p) = unat (ep_codec_frames p) * 1920 \<and>
     length (ep_pcm_s16le p) = 2 * unat (ep_sample_count p) \<and> ep_sample_rate p = 24000 \<and> ep_channels p = 1 \<and>
     (ep_is_final p \<longrightarrow> ps = []) \<and>
     audio_stream (q + 1) (f + unat (ep_codec_frames p)) (x + unat (ep_sample_count p)) ps"

definition audio_samples :: "engine_packet list \<Rightarrow> nat" where
  "audio_samples ps = sum_list (map (\<lambda>p. unat (ep_sample_count p)) ps)"

fun accept_all :: "packet_continuity \<Rightarrow> engine_packet list \<Rightarrow> packet_continuity option" where
  "accept_all c [] = Some c"
| "accept_all c (p # ps) = (case continuity_accept c p of Inl _ \<Rightarrow> None | Inr c' \<Rightarrow> accept_all c' ps)"

lemma accept_all_snoc: "accept_all c (ps @ [p]) =
    (case accept_all c ps of None \<Rightarrow> None | Some c' \<Rightarrow> (case continuity_accept c' p of Inl _ \<Rightarrow> None | Inr c'' \<Rightarrow> Some c''))"
  by (induction ps arbitrary: c) (auto split: sum.splits)

lemma validate_packet_Ok:
  "validate_packet p = Ok () \<longleftrightarrow>
     unat (ep_codec_frames p) \<in> {1..4} \<and> unat (ep_sample_count p) = unat (ep_codec_frames p) * 1920 \<and>
     length (ep_pcm_s16le p) = 2 * unat (ep_sample_count p) \<and> ep_sample_rate p = 24000 \<and> ep_channels p = 1"
proof -
  have mul: "ep_sample_count p = ep_codec_frames p * 1920 \<longleftrightarrow> unat (ep_sample_count p) = unat (ep_codec_frames p) * 1920"
    if "unat (ep_codec_frames p) \<le> 4"
    using that by (simp add: word_unat_eq_iff unat_word_ariths)
  have "unat (ep_sample_count p) * 2 \<le> usize_max"
    using unat_u32_bound [of "ep_sample_count p"] by (simp add: usize_max_def)
  then have two: "usize_saturating_mul (unat (ep_sample_count p)) 2 = 2 * unat (ep_sample_count p)"
    by (simp add: usize_saturating_mul_def)
  show ?thesis
    using mul by (auto simp: validate_packet_def two rt_consts word_less_nat_alt not_less one_le_unat_iff)
qed

lemma continuity_accept_Ok:
  assumes "continuity_accept c p = Ok c'"
  shows "validate_packet p = Ok ()" "\<not> pc_saw_final c" "ep_sequence p = pc_next_sequence c"
    "ep_first_codec_frame p = pc_next_codec_frame c" "ep_first_sample p = pc_next_sample c"
    "unat (pc_next_sequence c') = unat (pc_next_sequence c) + 1"
    "unat (pc_next_codec_frame c') = unat (pc_next_codec_frame c) + unat (ep_codec_frames p)"
    "unat (pc_next_sample c') = unat (pc_next_sample c) + unat (ep_sample_count p)"
    "pc_saw_packet c'" "pc_saw_final c' = ep_is_final p"
  using assms
  by (auto simp: continuity_accept_def and_then_Ok_iff ok_or_def dest!: checked_add_Some split: if_splits option.splits)

lemma accept_all_stream:
  assumes "accept_all c ps = Some c'"
  shows "audio_stream (unat (pc_next_sequence c)) (unat (pc_next_codec_frame c)) (unat (pc_next_sample c)) ps"
    "unat (pc_next_sample c') = unat (pc_next_sample c) + audio_samples ps"
    "ps \<noteq> [] \<Longrightarrow> pc_saw_final c' = ep_is_final (last ps)"
    "pc_saw_packet c' = (pc_saw_packet c \<or> ps \<noteq> [])"
    "pc_saw_final c \<Longrightarrow> ps = []"
proof (atomize (full), use assms in \<open>induction ps arbitrary: c\<close>)
  case (Cons p ps)
  obtain c1 where c1: "continuity_accept c p = Ok c1" "accept_all c1 ps = Some c'"
    using Cons.prems by (auto split: sum.splits)
  note a = continuity_accept_Ok [OF c1(1)]
  note ih = Cons.IH [OF c1(2)]
  have v: "unat (ep_codec_frames p) \<in> {1..4} \<and> unat (ep_sample_count p) = unat (ep_codec_frames p) * 1920 \<and>
     length (ep_pcm_s16le p) = 2 * unat (ep_sample_count p) \<and> ep_sample_rate p = 24000 \<and> ep_channels p = 1"
    using a(1) validate_packet_Ok by blast
  show ?case
    using v ih a(2-10) c1(2) by (cases ps) (auto simp: audio_samples_def)
qed (simp add: audio_samples_def)

section \<open>The body of a stream\<close>

definition worker_ok :: "'w worker_context \<Rightarrow> u64 \<Rightarrow> streaming_worker \<Rightarrow> engine_packet list \<Rightarrow> bool" where
  "worker_ok cx seed k ps \<longleftrightarrow>
     wk_sent k = start_part (cx_foreign cx) (cx_boundary cx) (cx_request_id cx) seed # map (audio_part (cx_boundary cx)) ps \<and>
     accept_all default_continuity ps = Some (wk_continuity k) \<and>
     wk_sent_samples k = pc_next_sample (wk_continuity k) \<and> wk_completion k = Pending"

text \<open>The parts of a body after its audio, by how the worker ended.\<close>

definition closing_ok :: "'w worker_context \<Rightarrow> engine_packet list \<Rightarrow> completion \<Rightarrow> bytes list \<Rightarrow> bool" where
  "closing_ok cx ps completion closing \<longleftrightarrow>
     (case completion of
        CompletedWith samples \<Rightarrow> ps \<noteq> [] \<and> ep_is_final (last ps) \<and> unat samples = audio_samples ps \<and>
          (\<exists>reason m. closing = [end_part (cx_foreign cx) (cx_boundary cx) (cx_request_id cx) reason m])
      | Pending \<Rightarrow> closing = []
      | _ \<Rightarrow> closing = [] \<or> (\<exists>e. closing = [error_part (cx_foreign cx) (cx_boundary cx) (stream_payload e)]))"

definition body_ok :: "'w worker_context \<Rightarrow> u64 \<Rightarrow> streaming_worker \<Rightarrow> bool" where
  "body_ok cx seed k \<longleftrightarrow> (\<exists>ps closing.
     wk_sent k = start_part (cx_foreign cx) (cx_boundary cx) (cx_request_id cx) seed
       # map (audio_part (cx_boundary cx)) ps @ closing \<and>
     audio_stream 0 0 0 ps \<and> closing_ok cx ps (wk_completion k) closing)"

lemma body_okI:
  assumes "wk_sent k = start_part (cx_foreign cx) (cx_boundary cx) (cx_request_id cx) seed
       # map (audio_part (cx_boundary cx)) ps @ closing"
    and "audio_stream 0 0 0 ps" and "closing_ok cx ps (wk_completion k) closing"
  shows "body_ok cx seed k"
  using assms unfolding body_ok_def by blast

lemma worker_ok_stream: "worker_ok cx seed k ps \<Longrightarrow> audio_stream 0 0 0 ps"
  using accept_all_stream(1) [of default_continuity ps] by (simp add: worker_ok_def default_continuity_def)

lemma worker_send_cases:
  "worker_send cx chunk observe k = (res, k') \<Longrightarrow>
     k' = k\<lparr>wk_sent := wk_sent k @ (if is_ok res then [chunk] else []), wk_turn := wk_turn k + 1\<rparr>"
  by (auto simp: worker_send_def Let_def)

text \<open>Ending with an error part, or with nothing.\<close>

lemma silent_body:
  assumes "worker_ok cx seed k ps" "c = CompletionFailed \<or> c = CompletionCancelled \<or> c = RetirementTimedOut \<or> c = Pending"
    and "wk_sent k' = wk_sent k" "wk_completion k' = c"
  shows "body_ok cx seed k'"
  using assms worker_ok_stream [OF assms(1)]
  by (intro body_okI [where ps = ps and closing = "[]"]) (auto simp: worker_ok_def closing_ok_def)

lemma error_body:
  assumes "worker_ok cx seed k ps" "c = CompletionFailed \<or> c = CompletionCancelled \<or> c = RetirementTimedOut"
  shows "body_ok cx seed ((send_error cx e k)\<lparr>wk_completion := c\<rparr>)"
proof -
  let ?chunk = "error_part (cx_foreign cx) (cx_boundary cx) (stream_payload e)"
  obtain res k' where s: "worker_send cx ?chunk False k = (res, k')" by fastforce
  show ?thesis
    using assms worker_send_cases [OF s] worker_ok_stream [OF assms(1)]
    by (intro body_okI [where ps = ps and closing = "if is_ok res then [?chunk] else []"])
      (auto simp: send_error_def s worker_ok_def closing_ok_def)
qed

lemma retire_body:
  assumes "worker_retire cx c k w = Some (k', w')" "c = CompletionFailed \<or> c = CompletionCancelled"
    and "\<And>c. c = CompletionFailed \<or> c = CompletionCancelled \<or> c = RetirementTimedOut \<Longrightarrow>
      body_ok cx seed (k\<lparr>wk_completion := c\<rparr>)"
  shows "body_ok cx seed k'"
  using assms by (auto simp: worker_retire_def mark_retirement_def)

lemma fail_native_output_body:
  "worker_ok cx seed k ps \<Longrightarrow> fail_native_output cx e k w = Some (k', w') \<Longrightarrow> body_ok cx seed k'"
  by (auto simp: fail_native_output_def Let_def intro!: error_body elim!: retire_body)

lemma handle_packet_body:
  assumes "worker_ok cx seed k ps" "handle_packet cx p k w = Some (continue, k', w')"
  shows "if continue then worker_ok cx seed k' (ps @ [p]) else body_ok cx seed k'"
proof (cases "continuity_accept (wk_continuity k) p")
  case (Inl e)
  then show ?thesis using assms by (auto simp: handle_packet_def dest: fail_native_output_body)
next
  case (Inr c)
  obtain res k1 where s: "worker_send cx (audio_part (cx_boundary cx) p) True (k\<lparr>wk_continuity := c\<rparr>) = (res, k1)"
    by fastforce
  note k1 = worker_send_cases [OF s]
  note a = continuity_accept_Ok [OF Inr]
  show ?thesis
  proof (cases res)
    case (Inl e)
    then have "body_ok cx seed (k1\<lparr>wk_completion := c'\<rparr>)"
      if "c' = CompletionFailed \<or> c' = CompletionCancelled \<or> c' = RetirementTimedOut" for c'
      using that by (intro silent_body [OF assms(1), of c']) (auto simp: k1 Inl)
    then show ?thesis using assms(2) Inl Inr by (auto simp: handle_packet_def s elim!: retire_body)
  next
    case (Inr u)
    have "unat (pc_next_sample c) < 2 ^ LENGTH(64)" by (rule unsigned_less)
    then have "unat (saturating_add (wk_sent_samples k) (ucast (ep_sample_count p))) = unat (pc_next_sample c)"
      using a(8) assms(1) by (auto simp: unat_saturating_add worker_ok_def)
    then have "saturating_add (wk_sent_samples k) (ucast (ep_sample_count p)) = pc_next_sample c"
      by (simp add: word_unat_eq_iff)
    then show ?thesis
      using assms Inr \<open>continuity_accept (wk_continuity k) p = Inr c\<close>
      by (auto simp: handle_packet_def s k1 worker_ok_def accept_all_snoc)
  qed
qed

lemma handle_end_body:
  assumes "worker_ok cx seed k ps" "handle_end_of_stream cx reason k w = Some (k', w')"
  shows "body_ok cx seed k'"
proof (cases "continuity_finish (wk_continuity k)")
  case (Inl e)
  then show ?thesis using assms by (auto simp: handle_end_of_stream_def dest: fail_native_output_body)
next
  case (Inr u)
  obtain retired w1 where r: "rq_wait_retired (cx_request cx) (sv_retirement_timeout (cx_config cx)) w = Some (retired, w1)"
    using assms(2) Inr by (auto simp: handle_end_of_stream_def)
  let ?chunk = "end_part (cx_foreign cx) (cx_boundary cx) (cx_request_id cx) reason (rq_metrics (cx_request cx) w1)"
  obtain res k1 where s: "worker_send cx ?chunk True k = (res, k1)" by fastforce
  note k1 = worker_send_cases [OF s]
  have seen: "ps \<noteq> []" "ep_is_final (last ps)" "unat (wk_sent_samples k) = audio_samples ps"
    using Inr assms(1) accept_all_stream(2-4) [of default_continuity ps "wk_continuity k"]
    by (auto simp: continuity_finish_def worker_ok_def default_continuity_def split: if_splits)
  show ?thesis
  proof (cases retired)
    case False
    then show ?thesis using assms Inr r by (auto simp: handle_end_of_stream_def intro: error_body)
  next
    case True
    then have "k' = k1\<lparr>wk_completion := (if is_ok res then CompletedWith (wk_sent_samples k1) else CompletionCancelled)\<rparr>"
      using assms(2) Inr r s by (cases res) (auto simp: handle_end_of_stream_def)
    then show ?thesis
      using assms(1) seen worker_ok_stream [OF assms(1)]
      by (intro body_okI [where ps = ps and closing = "if is_ok res then [?chunk] else []"])
        (auto simp: k1 worker_ok_def closing_ok_def)
  qed
qed

lemma streaming_run_body:
  "streaming_run n cx k w = Some (k', w') \<Longrightarrow> worker_ok cx seed k ps \<Longrightarrow> body_ok cx seed k'"
proof (induction n arbitrary: k ps w)
  case (Suc n)
  let ?k = "k\<lparr>wk_turn := wk_turn k + 1\<rparr>"
  have ok: "worker_ok cx seed ?k ps" using Suc.prems(2) by (simp add: worker_ok_def)
  show ?case
  proof (cases "cx_cancelled cx (wk_turn k + 1)")
    case True
    then show ?thesis using Suc.prems(1) ok
      by (auto simp: handle_cancellation_def Let_def intro!: error_body elim!: retire_body)
  next
    case False
    then obtain polled w1 where p: "rq_poll (cx_request cx) (sv_poll_timeout (cx_config cx)) w = Some (polled, w1)"
      using Suc.prems(1) by (auto simp: Let_def bind_eq_Some_conv)
    have quiet: "body_ok cx seed ?k" using ok by (rule silent_body) (use ok in \<open>auto simp: worker_ok_def\<close>)
    have failed: "handle_engine_error cx e ?k w1 = Some (k', w') \<Longrightarrow> body_ok cx seed k'" for e
      using ok by (auto simp: handle_engine_error_def intro!: error_body elim!: retire_body split: if_splits)
    have packet: "handle_packet cx q ?k w1 = Some (continue, k1, w2) \<Longrightarrow>
        (if continue then streaming_run n cx k1 w2 else Some (k1, w2)) = Some (k', w') \<Longrightarrow> body_ok cx seed k'"
      for q continue k1 w2
      using handle_packet_body [OF ok] Suc.IH by (cases continue) fastforce+
    show ?thesis
      using Suc.prems(1) False p quiet failed handle_end_body [OF ok] Suc.IH [OF _ ok] packet
      by (auto simp: Let_def bind_eq_Some_conv split: unwind.splits sum.splits engine_poll.splits)
  qed
qed simp

text \<open>C15: whatever the engine does and whatever happens to the connection: the chunks a streaming response
  sends are the start part, audio parts that form a gapless stream from zero, and at most one closing
  part. A response counted as completed ends with the end part after a final packet, and its counted
  samples are those of the audio parts; any other ends with an error part or with nothing.\<close>

theorem streaming_body_sound:
  assumes "streaming_run fuel cx (streaming_worker_new cx seed) w = Some (k, w')"
  shows "\<exists>ps closing.
    wk_sent k = start_part (cx_foreign cx) (cx_boundary cx) (cx_request_id cx) seed
      # map (audio_part (cx_boundary cx)) ps @ closing \<and>
    audio_stream 0 0 0 ps \<and> closing_ok cx ps (wk_completion k) closing"
  using streaming_run_body [OF assms, of seed "[]"]
  by (auto simp: worker_ok_def streaming_worker_new_def default_continuity_def body_ok_def)

text \<open>A scripted engine: the world is the list of what the polls give.\<close>

definition scripted_request :: "engine_metrics \<Rightarrow> (engine_error + engine_poll) list speech_request" where
  "scripted_request m = \<lparr>rq_poll = \<lambda>_ w. (case w of [] \<Rightarrow> None | r # rs \<Rightarrow> Some (Returned r, rs)),
     rq_cancel = \<lambda>w. (Ok (), w), rq_wait_retired = \<lambda>_ w. Some (True, w), rq_metrics = \<lambda>_. m\<rparr>"

definition scripted_context :: "foreign \<Rightarrow> engine_metrics \<Rightarrow> (engine_error + engine_poll) list worker_context" where
  "scripted_context f m = \<lparr>cx_request = scripted_request m, cx_request_id = ''0-1'', cx_boundary = part_boundary f ''0-1'',
     cx_config = default_server_config, cx_foreign = f, cx_cancelled = \<lambda>_. False,
     cx_cancel_wins = \<lambda>_. False, cx_delivery = \<lambda>_. SendAccepted\<rparr>"

definition example_foreign :: foreign where
  "example_foreign = \<lparr>fo_simple = filter (\<lambda>c. c \<noteq> CHR ''-''), fo_parse_uuid = Some, fo_start_json = \<lambda>_. ''{}'',
     fo_end_json = \<lambda>_. ''{}'', fo_json = \<lambda>_. ''{}''\<rparr>"

definition example_packet :: engine_packet where
  "example_packet = \<lparr>ep_sequence = 0, ep_first_codec_frame = 0, ep_first_sample = 0, ep_codec_frames = 1,
     ep_sample_count = 1920, ep_sample_rate = 24000, ep_channels = 1, ep_is_final = True,
     ep_pcm_s16le = replicate 3840 (CHR ''a'')\<rparr>"

lemma example_packet_valid: "validate_packet example_packet = Ok ()"
  by (simp add: validate_packet_Ok example_packet_def)

definition example_continuity :: packet_continuity where
  "example_continuity = \<lparr>pc_next_sequence = 1, pc_next_codec_frame = 1, pc_next_sample = 1920, pc_saw_packet = True,
     pc_saw_final = True\<rparr>"

lemma example_accept: "continuity_accept default_continuity example_packet = Ok example_continuity"
  by (simp add: continuity_accept_def example_packet_valid default_continuity_def ok_or_def checked_add_def
      example_continuity_def) (simp add: example_packet_def)

lemma scripted_context_fields:
  "cx_request (scripted_context f m) = scripted_request m" "cx_cancelled (scripted_context f m) n = False"
  "cx_cancel_wins (scripted_context f m) n = False" "cx_delivery (scripted_context f m) n = SendAccepted"
  "rq_poll (scripted_request m) d (r # rs) = Some (Returned r, rs)"
  "rq_wait_retired (scripted_request m) d rs = Some (True, rs)" "rq_metrics (scripted_request m) rs = m"
  "cx_foreign (scripted_context f m) = f" "cx_request_id (scripted_context f m) = ''0-1''"
  by (simp_all add: scripted_context_def scripted_request_def)

lemma scripted_send: "worker_send (scripted_context f m) chunk observe k =
    (Ok (), k\<lparr>wk_sent := wk_sent k @ [chunk], wk_turn := wk_turn k + 1\<rparr>)"
  by (simp add: worker_send_def send_chunk_def scripted_context_fields Let_def)

text \<open>One final packet and the end of the stream.\<close>

abbreviation example_script :: "(engine_error + engine_poll) list" where
  "example_script \<equiv> [Ok (EnginePacketPolled example_packet), Ok (EngineEndOfStream FinishStop)]"

lemma scripted_run:
  assumes cx: "cx = scripted_context f m"
  obtains k where "streaming_run 2 cx (streaming_worker_new cx seed) example_script = Some (k, [])"
    "wk_completion k = CompletedWith 1920"
    "wk_sent k = [start_part f (cx_boundary cx) ''0-1'' seed, audio_part (cx_boundary cx) example_packet,
       end_part f (cx_boundary cx) ''0-1'' FinishStop m]"
proof -
  let ?k = "streaming_worker_new cx seed"
  let ?k1 = "(snd (worker_send cx (audio_part (cx_boundary cx) example_packet) True
    (?k\<lparr>wk_turn := 1, wk_continuity := example_continuity\<rparr>)))\<lparr>wk_sent_samples := 1920\<rparr>"
  have c: "wk_continuity (?k\<lparr>wk_turn := 1\<rparr>) = default_continuity" by (simp add: streaming_worker_new_def)
  have s: "saturating_add (0 :: u64) (ucast (ep_sample_count example_packet)) = 1920"
    by (simp add: example_packet_def saturating_add_def)
  have h: "handle_packet cx example_packet (?k\<lparr>wk_turn := 1\<rparr>) w = Some (True, ?k1, w)" for w
    unfolding handle_packet_def c example_accept by (simp add: cx scripted_send s streaming_worker_new_def)
  have i: "cx_foreign cx = f" "cx_request_id cx = ''0-1''" by (simp_all add: cx scripted_context_def)
  obtain k where e: "handle_end_of_stream cx FinishStop (?k1\<lparr>wk_turn := wk_turn ?k1 + 1\<rparr>) [] = Some (k, [])"
      "wk_completion k = CompletedWith 1920"
      "wk_sent k = [start_part f (cx_boundary cx) ''0-1'' seed, audio_part (cx_boundary cx) example_packet,
         end_part f (cx_boundary cx) ''0-1'' FinishStop m]"
    by (simp add: handle_end_of_stream_def continuity_finish_def example_continuity_def streaming_worker_new_def i)
      (simp add: cx scripted_send scripted_context_fields)
  have "streaming_run (Suc (Suc 0)) cx ?k example_script =
     handle_end_of_stream cx FinishStop (?k1\<lparr>wk_turn := wk_turn ?k1 + 1\<rparr>) []"
  proof -
    have t: "wk_turn ?k = 0" by (simp add: streaming_worker_new_def)
    have p: "cx_request cx = scripted_request m" "cx_cancelled cx n = False" for n
      by (simp_all add: cx scripted_context_fields)
    show ?thesis by (simp only: streaming_run.simps t Let_def p scripted_context_fields(5) if_False add_0
        Option.bind.bind_lunit prod.case unwind.case sum.case engine_poll.case h if_True)
  qed
  then show thesis using that [of k] e by (simp add: numeral_2_eq_2)
qed

definition example_context :: "(engine_error + engine_poll) list worker_context" where
  "example_context = scripted_context example_foreign (engine_metrics_from default_metrics)"

lemma streaming_body_sound_witness:
  "\<exists>k w' ps closing. streaming_run 2 example_context (streaming_worker_new example_context 7) example_script = Some (k, w') \<and>
     wk_completion k = CompletedWith 1920 \<and>
     wk_sent k = start_part (cx_foreign example_context) (cx_boundary example_context) (cx_request_id example_context) 7
       # map (audio_part (cx_boundary example_context)) ps @ closing \<and>
     audio_stream 0 0 0 ps"
proof -
  obtain k where run: "streaming_run 2 example_context (streaming_worker_new example_context 7) example_script = Some (k, [])"
      "wk_completion k = CompletedWith 1920"
    by (rule scripted_run [OF example_context_def])
  show ?thesis using streaming_body_sound [OF run(1)] run by blast
qed

section \<open>The packets of the scheduler\<close>

text \<open>The state of the checker after the packets polled so far.\<close>

definition continuity_of :: "audio_packet_descriptor list \<Rightarrow> packet_continuity" where
  "continuity_of ds = \<lparr>pc_next_sequence = of_nat (length ds), pc_next_codec_frame = of_nat (total_frames ds),
     pc_next_sample = of_nat (1920 * total_frames ds), pc_saw_packet = (ds \<noteq> []),
     pc_saw_final = (ds \<noteq> [] \<and> pd_is_final (last ds) \<noteq> 0)\<rparr>"

lemma continuity_of_Nil: "continuity_of [] = default_continuity"
  by (simp add: continuity_of_def default_continuity_def)

lemma stream_end_split:
  "stream_end frames id' pos (ds @ d # es) = Some pos' \<Longrightarrow>
     \<exists>mid. stream_end frames id' pos ds = Some mid \<and> fits_at frames id' mid d \<and> open_stream ds"
  by (induction ds arbitrary: pos) (auto split: if_splits)

lemma fits_at_counts:
  assumes "fits_at frames id' pos d" and "unat frames \<le> 4"
  shows "1 \<le> unat (pd_codec_frames d)" "unat (pd_codec_frames d) \<le> 4"
    "unat (sample_count d) = 1920 * unat (pd_codec_frames d)" "sample_rate d = 24000" "pd_channels d = 1"
proof -
  have d: "0 < pd_codec_frames d" "pd_codec_frames d \<le> frames" "sample_count d = pd_codec_frames d * 1920"
    "sample_rate d = 24000" "pd_channels d = 1"
    using assms(1) descriptor_validate_Ok_iff [of d frames] by (auto simp: fits_at_def is_ok_iff rt_consts)
  then show "1 \<le> unat (pd_codec_frames d)" "unat (pd_codec_frames d) \<le> 4" "sample_rate d = 24000" "pd_channels d = 1"
    using assms(2) by (auto simp: word_le_nat_alt unat_gt_0 Suc_le_eq)
  then show "unat (sample_count d) = 1920 * unat (pd_codec_frames d)"
    by (simp add: d(3) unat_word_ariths)
qed

lemma stream_end_samples:
  assumes "unat frames \<le> 4"
  shows "stream_end frames id' (q, f, x) ds = Some (q', f', x') \<Longrightarrow> x' = x + of_nat (1920 * total_frames ds)"
proof (induction ds arbitrary: q f x)
  case (Cons d ds)
  then have next': "stream_end frames id' (q + 1, f + ucast (pd_codec_frames d), x + ucast (sample_count d)) ds = Some (q', f', x')"
    and "fits_at frames id' (q, f, x) d"
    by (auto simp: advance_def split: if_splits)
  then have "(ucast (sample_count d) :: u64) = of_nat (1920 * unat (pd_codec_frames d))"
    using fits_at_counts(3) [OF _ assms] by (metis of_nat_unat ucast_id unat_ucast_u32)
  then show ?case using Cons.IH [OF next'] by (simp add: algebra_simps)
qed simp

lemma stream_end_length:
  assumes "unat frames \<le> 4"
  shows "stream_end frames id' pos ds = Some pos' \<Longrightarrow> length ds \<le> total_frames ds"
proof (induction ds arbitrary: pos)
  case (Cons d ds)
  then have "fits_at frames id' pos d" "length ds \<le> total_frames ds" by (auto split: if_splits)
  then show ?case using fits_at_counts(1) [OF _ assms] by fastforce
qed simp

lemma continuity_accepts_fitting:
  assumes "stream_end frames id' (0, 0, 0) ds = Some mid" "fits_at frames id' mid d" "open_stream ds"
    and "unat frames \<le> 4" "total_frames ds + unat (pd_codec_frames d) \<le> 2 ^ 32"
    and "validate_packet q = Ok ()" "ep_sequence q = pd_sequence d" "ep_first_codec_frame q = first_codec_frame d"
    "ep_first_sample q = first_sample d" "ep_codec_frames q = pd_codec_frames d" "ep_sample_count q = sample_count d"
    "ep_is_final q = (pd_is_final d \<noteq> 0)"
  shows "continuity_accept (continuity_of ds) q = Ok (continuity_of (ds @ [d]))"
proof -
  obtain a b c where mid: "mid = (a, b, c)" by (cases mid)
  have pos: "a = of_nat (length ds)" "b = of_nat (total_frames ds)" "c = of_nat (1920 * total_frames ds)"
    using stream_end_position [OF assms(1) [unfolded mid]] stream_end_samples [OF assms(4) assms(1) [unfolded mid]] by simp_all
  have d: "pd_sequence d = a" "first_codec_frame d = b" "first_sample d = c"
    using assms(2) by (simp_all add: fits_at_def mid)
  note counts = fits_at_counts [OF assms(2,4)]
  have len: "length ds \<le> total_frames ds" using stream_end_length [OF assms(4,1)] .
  have not_final: "\<not> (ds \<noteq> [] \<and> pd_is_final (last ds) \<noteq> 0)"
    using assms(3) last_in_set [of ds] unfolding open_stream_def by blast
  have add: "checked_add (of_nat m :: u64) v = Some (of_nat (m + unat v))" if "m + unat v < 2 ^ 64" for m v
    using that by (simp add: checked_add_def unat_of_nat)
  have "checked_add (of_nat (length ds) :: u64) 1 = Some (of_nat (Suc (length ds)))"
    using add [of "length ds" 1] len assms(5) by simp
  moreover have "checked_add (of_nat (total_frames ds) :: u64) (ucast (pd_codec_frames d)) =
      Some (of_nat (total_frames ds + unat (pd_codec_frames d)))"
    using add [of "total_frames ds" "ucast (pd_codec_frames d)"] assms(5) by simp
  moreover have "checked_add (of_nat (1920 * total_frames ds) :: u64) (ucast (sample_count d)) =
      Some (of_nat (1920 * (total_frames ds + unat (pd_codec_frames d))))"
    using add [of "1920 * total_frames ds" "ucast (sample_count d)"] assms(5) counts(3) by (simp add: algebra_simps)
  ultimately show ?thesis
    using not_final
    by (simp add: continuity_accept_def assms(6-) d pos continuity_of_def ok_or_def del: of_nat_Suc of_nat_add of_nat_mult)
qed

lemma pcm_le_bytes_length [simp]: "length (pcm_le_bytes samples) = 2 * length samples"
  by (induction samples) (simp_all add: pcm_le_bytes_def)

lemma engine_packet_valid:
  assumes "is_ok (descriptor_validate (op_descriptor p) frames)" "unat frames \<le> 4"
    and "op_pcm p = Some buffer" "length buffer = unat frames * 1920"
  shows "\<exists>q. engine_packet_from p = Returned q \<and> validate_packet q = Ok () \<and>
    ep_sequence q = pd_sequence (op_descriptor p) \<and> ep_first_codec_frame q = first_codec_frame (op_descriptor p) \<and>
    ep_first_sample q = first_sample (op_descriptor p) \<and> ep_codec_frames q = pd_codec_frames (op_descriptor p) \<and>
    ep_sample_count q = sample_count (op_descriptor p) \<and> ep_is_final q = (pd_is_final (op_descriptor p) \<noteq> 0)"
proof -
  let ?d = "op_descriptor p"
  have "fits_at frames (pd_request_id ?d) (pd_sequence ?d, first_codec_frame ?d, first_sample ?d) ?d"
    using assms(1) by (simp add: fits_at_def)
  note counts = fits_at_counts [OF this assms(2)]
  have "packet_pcm p = Returned (take (unat (sample_count ?d)) buffer)"
    using valid_sample_count [OF assms(1,2)] assms(3,4) by (simp add: packet_pcm_def)
  moreover have "length (take (unat (sample_count ?d)) buffer) = unat (sample_count ?d)"
    using valid_sample_count [OF assms(1,2)] assms(4) by simp
  ultimately show ?thesis
    using counts by (simp add: engine_packet_from_def Let_def validate_packet_Ok)
qed

text \<open>C16: the server's checks follow the scheduler: whatever the backend, a packet polled from the scheduler
  is converted without a panic and accepted by the continuity check in the state that follows from the packets
  polled before it, and an end of stream passes the final check with a reason; so the branches that fail a
  request for discontinuous native output are dead.\<close>

theorem server_accepts_scheduler:
  assumes "borrowing_backend (be_step_batch be)" and "reachable be config s"
    and "r < length (sc_shareds (sy_w s))"
    and "poll_iteration r timeout deadline now (sy_w s) = (Some (Ok outcome), w')"
  shows "case outcome of
      PollPacket p \<Rightarrow> (\<exists>q. engine_packet_from p = Returned q \<and>
        continuity_accept (continuity_of (descriptors (sy_log s r))) q =
          Ok (continuity_of (descriptors (sy_log s r @ [p]))))
    | PollEndOfStream reason \<Rightarrow> continuity_finish (continuity_of (descriptors (sy_log s r))) = Ok () \<and>
        (\<exists>f. engine_poll_from (Ok outcome) = Returned (Ok (EngineEndOfStream f)))
    | PollWouldBlock \<Rightarrow> True"
proof -
  let ?st = "state_at (sy_w s) r" and ?log = "descriptors (sy_log s r)"
  note stream = reachable_stream [OF assms(1-3), unfolded request_stream_def Let_def]
  have frames: "unat (packet_frames config) \<le> 4"
    using static_ok_reachable [OF assms(2)] by (simp add: static_ok_def config_ok_def)
  show ?thesis
  proof (cases outcome)
    case (PollPacket p)
    then obtain rest where q: "st_packets ?st = p # rest"
      using assms(4) by (auto simp: poll_iteration_def Let_def split: option.splits list.splits if_splits)
    then obtain pos where "stream_end (packet_frames config) (id_at (sy_w s) r) (0, 0, 0)
        (?log @ op_descriptor p # descriptors rest) = Some pos"
      using stream by auto
    then obtain mid where mid: "stream_end (packet_frames config) (id_at (sy_w s) r) (0, 0, 0) ?log = Some mid"
      "fits_at (packet_frames config) (id_at (sy_w s) r) mid (op_descriptor p)" "open_stream ?log"
      using stream_end_split by blast
    have "total_frames ?log + unat (pd_codec_frames (op_descriptor p)) \<le> unat (sy_limit s r)"
      using stream q by simp
    then have bound: "total_frames ?log + unat (pd_codec_frames (op_descriptor p)) \<le> 2 ^ 32"
      using unat_u32_bound [of "sy_limit s r"] by simp
    have "p \<in> set (st_packets ?st)" using q by simp
    note queued = queued_packet [OF assms(1-3) this]
    obtain buffer where "op_pcm p = Some buffer" "length buffer = unat (packet_frames config) * 1920"
      using queued(2) by (auto simp: packet_size_def SAMPLES_PER_CODEC_FRAME_def)
    from engine_packet_valid [OF queued(1) frames this] obtain e where e:
      "engine_packet_from p = Returned e" "validate_packet e = Ok ()"
      "ep_sequence e = pd_sequence (op_descriptor p)" "ep_first_codec_frame e = first_codec_frame (op_descriptor p)"
      "ep_first_sample e = first_sample (op_descriptor p)" "ep_codec_frames e = pd_codec_frames (op_descriptor p)"
      "ep_sample_count e = sample_count (op_descriptor p)" "ep_is_final e = (pd_is_final (op_descriptor p) \<noteq> 0)"
      by blast
    have "continuity_accept (continuity_of ?log) e = Ok (continuity_of (?log @ [op_descriptor p]))"
      by (rule continuity_accepts_fitting [OF mid frames bound e(2-)])
    then show ?thesis using e(1) by (simp add: PollPacket)
  next
    case (PollEndOfStream reason)
    have p: "\<not> dead ?st" "st_packets ?st = []" "st_producer_finished ?st" "reason = st_finish_reason ?st"
      using assms(4) by (auto simp: PollEndOfStream poll_iteration_def dead_def Let_def
          split: option.splits list.splits if_splits)
    then have "sy_log s r \<noteq> []" "pd_is_final (op_descriptor (last (sy_log s r))) \<noteq> 0" "finish_is_terminal reason"
      using stream by auto
    then show ?thesis
      by (cases reason) (auto simp: PollEndOfStream continuity_finish_def continuity_of_def last_map finish_is_terminal_def)
  qed simp
qed

lemma server_accepts_scheduler_witness:
  "continuity_finish (continuity_of (descriptors (sy_log silent_polled 0))) = Ok ()"
  using server_accepts_scheduler [OF silent.borrowing_backend_axioms silent_reachable(4) _ silent_polled_facts(4)]
  by (simp add: silent_polled_facts)

end
