(* ===== verification/SvServer.thy ===== *)
theory SvServer
  imports SvStream
begin

text \<open>
  \<open>qwen3-tts-server/src/server.rs\<close> around its workers: admission against shutdown, the table of active
  requests, cancellation by id, the guard that ends a request's account, and the responses. A
  cancellation token is a number; it is cancelled by itself or by its parent, the process's shutdown.
\<close>

section \<open>State\<close>

definition BUFFERED_BODY_CHUNK_BYTES :: nat where "BUFFERED_BODY_CHUNK_BYTES = 64 * 1024"

datatype server_active = ActiveRunning nat | ActiveTimedOut

record 'w server_state =
  ss_engine :: 'w
  ss_active :: "uuid \<rightharpoonup> server_active"
  ss_metrics :: service_metrics
  ss_shutdown :: bool
  ss_cancelled_tokens :: "nat list"
  ss_next_token :: nat
  ss_permits :: nat

definition server_new :: "server_config \<Rightarrow> 'w \<Rightarrow> bytes + 'w server_state" where
  "server_new config engine =
     and_then (server_config_validate config) (\<lambda>_.
     Ok \<lparr>ss_engine = engine, ss_active = Map.empty, ss_metrics = default_service_metrics, ss_shutdown = False,
         ss_cancelled_tokens = [], ss_next_token = 0, ss_permits = unat (sv_max_concurrent_requests config)\<rparr>)"

definition token_cancelled :: "'w server_state \<Rightarrow> nat \<Rightarrow> bool" where
  "token_cancelled s t \<longleftrightarrow> ss_shutdown s \<or> t \<in> set (ss_cancelled_tokens s)"

definition cancel_token :: "nat \<Rightarrow> 'w server_state \<Rightarrow> 'w server_state" where
  "cancel_token t s = s\<lparr>ss_cancelled_tokens := t # ss_cancelled_tokens s\<rparr>"

text \<open>\<open>ShutdownController::cancel\<close>, under the admission lock.\<close>

definition shutdown_cancel :: "'w server_state \<Rightarrow> 'w server_state" where
  "shutdown_cancel s = s\<lparr>ss_shutdown := True\<rparr>"

section \<open>Requests\<close>

text \<open>A header value is given as its bytes; \<open>to_str\<close> admits visible ASCII and tabs.\<close>

definition visible_ascii :: "bytes \<Rightarrow> bool" where
  "visible_ascii s \<longleftrightarrow> list_all (\<lambda>c. 32 \<le> bv c \<and> bv c < 127 \<or> bv c = 9) s"

definition requested_request_id :: "foreign \<Rightarrow> bytes option \<Rightarrow> api_error + uuid option" where
  "requested_request_id f header =
     (case header of
        None \<Rightarrow> Ok None
      | Some v \<Rightarrow>
          if \<not> visible_ascii v
          then Err (api_error_new 400 ''invalid_request_id'' ''Invalid request ID'' ''x-request-id must be an ASCII UUID'')
          else (case fo_parse_uuid f v of
                  Some u \<Rightarrow> Ok (Some u)
                | None \<Rightarrow> Err (api_error_new 400 ''invalid_request_id'' ''Invalid request ID'' ''x-request-id must be a UUID'')))"

text \<open>The two speech endpoints up to \<open>start_prepared\<close>; a body that axum rejects is its status.\<close>

definition speech_endpoint :: "foreign \<Rightarrow> (f32 \<Rightarrow> bytes) \<Rightarrow> u64 \<Rightarrow> server_config \<Rightarrow> bytes option \<Rightarrow>
    nat + speech_request_body \<Rightarrow> api_error + prepared_speech \<times> uuid option" where
  "speech_endpoint f shown random config header payload =
     and_then (map_err malformed_json payload) (\<lambda>body.
     and_then (map_err api_error_validation (prepare shown random body config)) (\<lambda>prepared.
     and_then (requested_request_id f header) (\<lambda>request_id. Ok (prepared, request_id))))"

definition openai_speech_endpoint :: "foreign \<Rightarrow> (f32 \<Rightarrow> bytes) \<Rightarrow> u64 \<Rightarrow> server_config \<Rightarrow> bytes option \<Rightarrow>
    nat + openai_speech_request_body \<Rightarrow> api_error + prepared_speech \<times> uuid option" where
  "openai_speech_endpoint f shown random config header payload =
     and_then (map_err malformed_json payload) (\<lambda>body.
     and_then (map_err api_error_validation (into_native body)) (\<lambda>native.
     and_then (map_err api_error_validation (prepare shown random native config)) (\<lambda>prepared.
     and_then (requested_request_id f header) (\<lambda>request_id. Ok (prepared, request_id)))))"

section \<open>Admission\<close>

text \<open>A permit for a buffered response, or the rejection is counted.\<close>

definition reserve_buffered :: "output_mode \<Rightarrow> uuid \<Rightarrow> 'w server_state \<Rightarrow> (api_error + bool) \<times> 'w server_state" where
  "reserve_buffered output request_id s =
     (if output \<noteq> BufferedWav then (Ok False, s)
      else if ss_permits s = 0
      then (Err (api_error_engine (engine_error_new CapacityExhausted ''buffered response egress capacity is exhausted'')
          (Some request_id)), s\<lparr>ss_metrics := request_rejected (ss_metrics s)\<rparr>)
      else (Ok True, s\<lparr>ss_permits := ss_permits s - 1\<rparr>))"

definition drop_permit :: "bool \<Rightarrow> 'w server_state \<Rightarrow> 'w server_state" where
  "drop_permit held s = (if held then s\<lparr>ss_permits := ss_permits s + 1\<rparr> else s)"

text \<open>Under the admission lock: the entry of the request with its token.\<close>

definition admit_insert :: "uuid \<Rightarrow> 'w server_state \<Rightarrow> (api_error + nat) \<times> 'w server_state" where
  "admit_insert request_id s =
     (if ss_shutdown s
      then (Err (api_error_new 503 ''server_shutting_down'' ''Server is shutting down''
          ''new synthesis requests are not accepted during shutdown''), s)
      else (let token = ss_next_token s; s1 = s\<lparr>ss_next_token := token + 1\<rparr> in
        case ss_active s request_id of
          None \<Rightarrow> (Ok token, s1\<lparr>ss_active := (ss_active s)(request_id \<mapsto> ActiveRunning token)\<rparr>)
        | Some _ \<Rightarrow> (Err (with_request_id request_id (api_error_new 409 ''request_id_in_use''
            ''Request ID is already active'' ''choose a different x-request-id UUID'')), s1)))"

text \<open>Still under the lock: the engine starts the request, or its entry is removed.\<close>

definition admit_start :: "'w speech_engine \<Rightarrow> engine_synthesis_request \<Rightarrow> uuid \<Rightarrow> 'w server_state \<Rightarrow>
    (api_error + 'w speech_request) \<times> 'w server_state" where
  "admit_start en q request_id s =
     (case en_start en q (ss_engine s) of
        (Inr rq, w) \<Rightarrow> (Ok rq, s\<lparr>ss_engine := w\<rparr>)
      | (Inl e, w) \<Rightarrow> (Err (api_error_engine e (Some request_id)),
          s\<lparr>ss_engine := w, ss_active := (ss_active s)(request_id := None),
            ss_metrics := request_rejected (ss_metrics s)\<rparr>))"

definition count_started :: "output_mode \<Rightarrow> 'w server_state \<Rightarrow> 'w server_state" where
  "count_started output s = s\<lparr>ss_metrics := request_started (output = StreamPcm) (ss_metrics s)\<rparr>"

text \<open>\<open>start_prepared\<close> until a worker takes over, run without interference. \<open>fresh\<close> is the id made up when
  none was asked for.\<close>

definition start_prepared :: "'w speech_engine \<Rightarrow> uuid \<Rightarrow> prepared_speech \<Rightarrow> uuid option \<Rightarrow> 'w server_state \<Rightarrow>
    (api_error + uuid \<times> nat \<times> bool \<times> 'w speech_request) \<times> 'w server_state" where
  "start_prepared en fresh p requested s =
     (let request_id = (case requested of Some u \<Rightarrow> u | None \<Rightarrow> fresh) in
      case reserve_buffered (pp_output p) request_id s of
        (Inl e, s1) \<Rightarrow> (Err e, s1)
      | (Inr permit, s1) \<Rightarrow>
          (case admit_insert request_id s1 of
             (Inl e, s2) \<Rightarrow> (Err e, drop_permit permit s2)
           | (Inr token, s2) \<Rightarrow>
               (case admit_start en (pp_engine_request p) request_id s2 of
                  (Inl e, s3) \<Rightarrow> (Err e, drop_permit permit s3)
                | (Inr rq, s3) \<Rightarrow> (Ok (request_id, token, permit, rq), count_started (pp_output p) s3))))"

section \<open>The end of a request\<close>

text \<open>\<open>ActiveGuard::drop\<close> in its two steps: the table, then the counters.\<close>

definition guard_drop_active :: "completion \<Rightarrow> uuid \<Rightarrow> 'w server_state \<Rightarrow> 'w server_state" where
  "guard_drop_active completion request_id s =
     (if completion = RetirementTimedOut
      then s\<lparr>ss_active := (case ss_active s request_id of
          Some _ \<Rightarrow> (ss_active s)(request_id \<mapsto> ActiveTimedOut) | None \<Rightarrow> ss_active s)\<rparr>
      else s\<lparr>ss_active := (ss_active s)(request_id := None)\<rparr>)"

definition guard_drop_metrics :: "completion \<Rightarrow> 'w server_state \<Rightarrow> 'w server_state" where
  "guard_drop_metrics completion s =
     s\<lparr>ss_metrics := (case completion of
         CompletedWith samples \<Rightarrow> request_completed samples (ss_metrics s)
       | CompletionCancelled \<Rightarrow> request_cancelled (ss_metrics s)
       | Pending \<Rightarrow> request_failed (ss_metrics s)
       | CompletionFailed \<Rightarrow> request_failed (ss_metrics s)
       | RetirementTimedOut \<Rightarrow> request_retirement_timed_out (ss_metrics s))\<rparr>"

definition guard_drop :: "completion \<Rightarrow> uuid \<Rightarrow> 'w server_state \<Rightarrow> 'w server_state" where
  "guard_drop completion request_id s = guard_drop_metrics completion (guard_drop_active completion request_id s)"

section \<open>Cancellation\<close>

definition cancellation_accepted :: "foreign \<Rightarrow> uuid \<Rightarrow> http_response" where
  "cancellation_accepted f request_id =
     \<lparr>hr_status = 202, hr_headers = [(''content-type'', ''application/json'')],
      hr_body = fo_json f (JObject [(''request_id'', JString request_id), (''status'', JString ''cancellation_requested'')])\<rparr>"

definition cancel_request :: "foreign \<Rightarrow> bytes \<Rightarrow> 'w server_state \<Rightarrow> (api_error + http_response) \<times> 'w server_state" where
  "cancel_request f raw s =
     (case fo_parse_uuid f raw of
        None \<Rightarrow> (Err (api_error_new 400 ''invalid_request_id'' ''Invalid request ID'' ''request_id must be a UUID''), s)
      | Some request_id \<Rightarrow>
          (case ss_active s request_id of
             Some (ActiveRunning token) \<Rightarrow> (Ok (cancellation_accepted f request_id), cancel_token token s)
           | Some ActiveTimedOut \<Rightarrow> (Err (retirement_timeout_error request_id), s)
           | None \<Rightarrow> (Err (with_request_id request_id (api_error_new 404 ''request_not_found'' ''Request not found''
               ''the request is not active or has already retired'')), s)))"

section \<open>Responses\<close>

definition live_response :: "foreign \<Rightarrow> http_response" where
  "live_response f = \<lparr>hr_status = 200, hr_headers = [(''content-type'', ''application/json'')],
     hr_body = fo_json f (JObject [(''status'', JString ''live'')])\<rparr>"

definition ready_response :: "foreign \<Rightarrow> bool \<Rightarrow> http_response" where
  "ready_response f is_ready = \<lparr>hr_status = (if is_ready then 200 else 503),
     hr_headers = [(''content-type'', ''application/json'')],
     hr_body = fo_json f (JObject [(''status'', JString (if is_ready then ''ready'' else ''not_ready'')),
       (''model'', JString SERVER_MODEL_ID), (''model_kind'', JString ''voice_design''),
       (''sample_rate_hz'', JUnsigned (unat SAMPLE_RATE)), (''engine_loaded'', JBool is_ready)])\<rparr>"

definition prometheus_response :: "'w server_state \<Rightarrow> http_response" where
  "prometheus_response s = \<lparr>hr_status = 200,
     hr_headers = [(''content-type'', ''text/plain; version=0.0.4; charset=utf-8'')],
     hr_body = render_prometheus (ss_metrics s)\<rparr>"

record capabilities =
  ca_model :: bytes
  ca_model_kind :: bytes
  ca_voice_clone :: bool
  ca_sample_rate_hz :: u32
  ca_channels :: u32
  ca_encoding :: bytes
  ca_samples_per_codec_frame :: u32
  ca_max_codec_frames :: u32
  ca_max_concurrent_requests :: u32
  ca_max_text_bytes :: nat
  ca_max_voice_description_bytes :: nat
  ca_max_duration_seconds :: f64
  ca_languages :: "bytes list"
  ca_streaming :: bytes

definition server_capabilities :: "server_config \<Rightarrow> capabilities" where
  "server_capabilities c = \<lparr>ca_model = SERVER_MODEL_ID, ca_model_kind = ''voice_design'', ca_voice_clone = False,
     ca_sample_rate_hz = SAMPLE_RATE, ca_channels = 1, ca_encoding = ''pcm_s16le'',
     ca_samples_per_codec_frame = SAMPLES_PER_CODEC_FRAME, ca_max_codec_frames = MAX_CODEC_FRAMES,
     ca_max_concurrent_requests = sv_max_concurrent_requests c, ca_max_text_bytes = sv_max_text_bytes c,
     ca_max_voice_description_bytes = sv_max_voice_description_bytes c,
     ca_max_duration_seconds = sv_max_duration_seconds c, ca_languages = ACCEPTED_LANGUAGES,
     ca_streaming = ''multipart/mixed''\<rparr>"

text \<open>The head of a streaming response, and a whole buffered one. A worker thread that panicked is an error.\<close>

definition streaming_response :: "foreign \<Rightarrow> uuid \<Rightarrow> u64 \<Rightarrow> http_response" where
  "streaming_response f request_id seed = \<lparr>hr_status = 200,
     hr_headers = [(''content-type'', ''multipart/mixed; boundary='' @ part_boundary f request_id),
       (''cache-control'', ''no-store''), (''x-accel-buffering'', ''no''), (''x-request-id'', request_id),
       (''x-qwen3-seed'', show_nat (unat seed))], hr_body = []\<rparr>"

definition buffered_response :: "uuid \<Rightarrow> u64 \<Rightarrow> (api_error + buffered_output) unwind \<Rightarrow> api_error + http_response" where
  "buffered_response request_id seed result =
     (case result of
        Panicked \<Rightarrow> Err (with_request_id request_id (api_error_new 500 ''worker_panicked'' ''Audio worker failed''
          ''the buffered audio worker terminated unexpectedly''))
      | Returned (Inl e) \<Rightarrow> Err e
      | Returned (Inr out) \<Rightarrow> Ok \<lparr>hr_status = 200,
          hr_headers = [(''content-type'', ''audio/wav''), (''content-length'', show_nat (length (bo_wav out))),
            (''content-disposition'', ''inline; filename=voice-design.wav''), (''cache-control'', ''no-store''),
            (''x-request-id'', request_id), (''x-qwen3-seed'', show_nat (unat seed)),
            (''x-finish-reason'', finish_reason_as_str (bo_finish_reason out))], hr_body = bo_wav out\<rparr>)"

text \<open>The body of a buffered response is read in chunks; at its end the permit is given back.\<close>

record buffered_wav_stream =
  bs_wav :: bytes
  bs_offset :: nat
  bs_permit :: bool

definition wav_stream_next :: "buffered_wav_stream \<Rightarrow> 'w server_state \<Rightarrow>
    bytes option \<times> buffered_wav_stream \<times> 'w server_state" where
  "wav_stream_next b s =
     (if length (bs_wav b) \<le> bs_offset b then (None, b\<lparr>bs_permit := False\<rparr>, drop_permit (bs_permit b) s)
      else (let end = min (usize_saturating_add (bs_offset b) BUFFERED_BODY_CHUNK_BYTES) (length (bs_wav b))
            in (Some (take (end - bs_offset b) (drop (bs_offset b) (bs_wav b))), b\<lparr>bs_offset := end\<rparr>, s)))"

text \<open>Dropping the body of a response: the stream cancels its token, the buffered one gives its permit back.\<close>

definition streaming_body_drop :: "nat \<Rightarrow> 'w server_state \<Rightarrow> 'w server_state" where
  "streaming_body_drop token s = cancel_token token s"

definition buffered_body_drop :: "buffered_wav_stream \<Rightarrow> 'w server_state \<Rightarrow> 'w server_state" where
  "buffered_body_drop b s = drop_permit (bs_permit b) s"

text \<open>Dropping the future of a buffered response cancels its token unless its worker is done.\<close>

definition buffered_future_drop :: "bool \<Rightarrow> nat \<Rightarrow> 'w server_state \<Rightarrow> 'w server_state" where
  "buffered_future_drop armed token s = (if armed then cancel_token token s else s)"

end
