(* ===== verification/SvSystem.thy ===== *)
theory SvSystem
  imports SvServer
begin

text \<open>
  The server's requests as a step relation: handlers and workers interleave at their locks and atomic
  counters. A request in flight is starting (in the table, the engine not yet asked), started, counted (its
  worker runs) or leaving (out of the table, not yet out of the counters).
\<close>

section \<open>Steps\<close>

datatype flight = Starting nat | Started nat | Counted nat | Leaving completion

fun flight_token :: "flight \<Rightarrow> nat option" where
  "flight_token (Starting t) = Some t"
| "flight_token (Started t) = Some t"
| "flight_token (Counted t) = Some t"
| "flight_token (Leaving _) = None"

definition counted :: "flight \<Rightarrow> bool" where
  "counted f \<longleftrightarrow> (case f of Counted _ \<Rightarrow> True | Leaving _ \<Rightarrow> True | _ \<Rightarrow> False)"

text \<open>The admission lock is held by a request that is starting.\<close>

definition admission_free :: "(uuid \<times> flight) list \<Rightarrow> bool" where
  "admission_free fs \<longleftrightarrow> list_all (\<lambda>(_, f). case f of Starting _ \<Rightarrow> False | _ \<Rightarrow> True) fs"

type_synonym 'w serving = "'w server_state \<times> (uuid \<times> flight) list"

inductive serve_step :: "'w speech_engine \<Rightarrow> foreign \<Rightarrow> 'w serving \<Rightarrow> 'w serving \<Rightarrow> bool"
  for en :: "'w speech_engine" and fo :: foreign where
  engine_moves: "serve_step en fo (s, fs) (s\<lparr>ss_engine := w\<rparr>, fs)"
| permit_asked: "serve_step en fo (s, fs) (snd (reserve_buffered out u s), fs)"
| permit_back: "serve_step en fo (s, fs) (drop_permit held s, fs)"
| inserted: "admission_free fs \<Longrightarrow> admit_insert u s = (Ok t, s') \<Longrightarrow>
    serve_step en fo (s, fs) (s', (u, Starting t) # fs)"
| refused: "admission_free fs \<Longrightarrow> admit_insert u s = (Err e, s') \<Longrightarrow> serve_step en fo (s, fs) (s', fs)"
| engine_started: "admit_start en q u s = (Ok rq, s') \<Longrightarrow>
    serve_step en fo (s, xs @ (u, Starting t) # ys) (s', xs @ (u, Started t) # ys)"
| engine_refused: "admit_start en q u s = (Err e, s') \<Longrightarrow>
    serve_step en fo (s, xs @ (u, Starting t) # ys) (s', xs @ ys)"
| now_counted: "serve_step en fo (s, xs @ (u, Started t) # ys) (count_started out s, xs @ (u, Counted t) # ys)"
| leaves_table: "serve_step en fo (s, xs @ (u, Counted t) # ys) (guard_drop_active c u s, xs @ (u, Leaving c) # ys)"
| leaves_counters: "serve_step en fo (s, xs @ (u, Leaving c) # ys) (guard_drop_metrics c s, xs @ ys)"
| cancelled_by_id: "serve_step en fo (s, fs) (snd (cancel_request fo raw s), fs)"
| body_dropped: "serve_step en fo (s, fs) (cancel_token t s, fs)"
| shut_down: "admission_free fs \<Longrightarrow> serve_step en fo (s, fs) (shutdown_cancel s, fs)"

inductive serving :: "'w speech_engine \<Rightarrow> foreign \<Rightarrow> server_config \<Rightarrow> 'w serving \<Rightarrow> bool"
  for en :: "'w speech_engine" and fo :: foreign and config :: server_config where
  serving_new: "server_new config w = Ok s \<Longrightarrow> serving en fo config (s, [])"
| serving_step: "serving en fo config x \<Longrightarrow> serve_step en fo x y \<Longrightarrow> serving en fo config y"

section \<open>The invariant\<close>

definition tokens :: "(uuid \<times> flight) list \<Rightarrow> nat list" where
  "tokens fs = List.map_filter (flight_token \<circ> snd) fs"

definition holders :: "(uuid \<times> flight) list \<Rightarrow> uuid list" where
  "holders fs = map fst (filter (\<lambda>(_, f). flight_token f \<noteq> None) fs)"

lemma tokens_simps [simp]:
  "tokens [] = []" "tokens (x # xs) = (case flight_token (snd x) of None \<Rightarrow> [] | Some t \<Rightarrow> [t]) @ tokens xs"
  "tokens (xs @ ys) = tokens xs @ tokens ys"
  by (simp_all add: tokens_def List.map_filter_def split: option.splits)

lemma holders_simps [simp]:
  "holders [] = []" "holders (x # xs) = (if flight_token (snd x) = None then [] else [fst x]) @ holders xs"
  "holders (xs @ ys) = holders xs @ holders ys"
  by (simp_all add: holders_def split: prod.splits)

definition in_table :: "(uuid \<times> flight) list \<Rightarrow> uuid \<Rightarrow> nat \<Rightarrow> bool" where
  "in_table fs u t \<longleftrightarrow> (\<exists>f. (u, f) \<in> set fs \<and> flight_token f = Some t)"

lemma in_table_simps [simp]:
  "\<not> in_table [] u t" "in_table (x # xs) u t \<longleftrightarrow> fst x = u \<and> flight_token (snd x) = Some t \<or> in_table xs u t"
  "in_table (xs @ ys) u t \<longleftrightarrow> in_table xs u t \<or> in_table ys u t"
  by (auto simp: in_table_def) (metis prod.collapse)

lemma in_table_holder: "in_table fs u t \<Longrightarrow> u \<in> set (holders fs) \<and> t \<in> set (tokens fs)"
  by (induction fs) auto

lemma holder_in_table: "u \<in> set (holders fs) \<longleftrightarrow> (\<exists>t. in_table fs u t)"
  by (induction fs) auto

lemma token_holder_unique: "distinct (tokens fs) \<Longrightarrow> in_table fs u t \<Longrightarrow> in_table fs v t \<Longrightarrow> v = u"
  by (induction fs) (auto dest: in_table_holder split: option.splits)

definition count_flights :: "(uuid \<times> flight) list \<Rightarrow> nat" where
  "count_flights fs = length (filter (counted \<circ> snd) fs)"

definition accounts :: "nat \<Rightarrow> service_metrics \<Rightarrow> bool" where
  "accounts n m \<longleftrightarrow> sm_active_requests m = of_nat n + sm_retirement_timeouts m \<and>
     sm_requests_total m = sm_completed_requests m + sm_cancelled_requests m + sm_failed_requests m + of_nat n"

definition serving_ok :: "'w serving \<Rightarrow> bool" where
  "serving_ok x \<longleftrightarrow> (case x of (s, fs) \<Rightarrow>
     (\<forall>u t. ss_active s u = Some (ActiveRunning t) \<longleftrightarrow> in_table fs u t) \<and>
     distinct (holders fs) \<and> distinct (tokens fs) \<and> (\<forall>t \<in> set (tokens fs). t < ss_next_token s) \<and>
     accounts (count_flights fs) (ss_metrics s))"

lemma count_flights_simps [simp]:
  "count_flights [] = 0" "count_flights (x # xs) = (if counted (snd x) then 1 else 0) + count_flights xs"
  "count_flights (xs @ ys) = count_flights xs + count_flights ys"
  by (simp_all add: count_flights_def)

lemma counted_simps [simp]: "\<not> counted (Starting t)" "\<not> counted (Started t)" "counted (Counted t)" "counted (Leaving c)"
  by (simp_all add: counted_def)

text \<open>Steps that leave table, tokens and counters alone.\<close>

lemma serving_ok_same:
  assumes "serving_ok (s, fs)" "ss_active s' = ss_active s" "ss_next_token s' = ss_next_token s" "accounts (count_flights fs) (ss_metrics s')"
  shows "serving_ok (s', fs)"
  using assms by (simp add: serving_ok_def)

lemma accounts_rejected [simp]: "accounts n (request_rejected m) = accounts n m"
  by (simp add: accounts_def request_rejected_def)

lemma accounts_started: "accounts n m \<Longrightarrow> accounts (Suc n) (request_started streaming m)"
  by (auto simp: accounts_def request_started_def Let_def algebra_simps)

lemma accounts_left: "accounts (Suc n) (ss_metrics s) \<Longrightarrow> accounts n (ss_metrics (guard_drop_metrics c s))"
  by (cases c) (auto simp: accounts_def guard_drop_metrics_def request_completed_def request_failed_def request_cancelled_def
      request_retirement_timed_out_def algebra_simps)

lemma not_in_table_elsewhere:
  assumes "distinct (holders (xs @ (u, f) # ys))" "flight_token f \<noteq> None"
  shows "\<not> in_table xs u t" "\<not> in_table ys u t"
  using assms in_table_holder [of xs u t] in_table_holder [of ys u t] by auto

lemma serve_step_ok: "serve_step en fo x y \<Longrightarrow> serving_ok x \<Longrightarrow> serving_ok y"
proof (induction rule: serve_step.induct)
  case (inserted fs u s t s')
  have "ss_active s u = None" using inserted(2) by (auto simp: admit_insert_def Let_def split: if_splits option.splits)
  moreover have "\<forall>t. ss_active s u = Some (ActiveRunning t) \<longleftrightarrow> in_table fs u t"
    using inserted(3) by (simp add: serving_ok_def)
  ultimately have fresh: "\<not> in_table fs u t'" for t' by simp
  then have "u \<notin> set (holders fs)" by (simp add: holder_in_table)
  then show ?case using inserted fresh
    by (auto simp: serving_ok_def admit_insert_def Let_def less_Suc_eq split: if_splits option.splits)
next
  case (engine_refused q u s e s' xs t ys)
  note el = not_in_table_elsewhere [of xs u "Starting t" ys]
  show ?case using engine_refused el
    by (auto simp: serving_ok_def admit_start_def split: prod.splits sum.splits if_splits)
next
  case (leaves_table s xs u t ys c)
  note el = not_in_table_elsewhere [of xs u "Counted t" ys]
  have "ss_active s u = Some (ActiveRunning t)" using leaves_table by (simp add: serving_ok_def)
  then have "guard_drop_active c u s =
      s\<lparr>ss_active := (ss_active s)(u := if c = RetirementTimedOut then Some ActiveTimedOut else None)\<rparr>"
    by (simp add: guard_drop_active_def)
  then show ?case using leaves_table el
    by (auto simp: serving_ok_def split: if_splits)
next
  case (leaves_counters s xs u c ys)
  then show ?case using accounts_left [of "count_flights (xs @ ys)" s c]
    by (auto simp: serving_ok_def guard_drop_metrics_def)
next
  case (now_counted s xs u t ys out)
  then show ?case by (auto simp: serving_ok_def count_started_def accounts_started)
next
  case (cancelled_by_id s fs raw)
  then show ?case
    by (auto simp: serving_ok_def cancel_request_def cancel_token_def split: option.splits server_active.splits)
qed (auto simp: serving_ok_def reserve_buffered_def drop_permit_def admit_insert_def admit_start_def cancel_token_def
    shutdown_cancel_def Let_def less_Suc_eq split: if_splits option.splits prod.splits sum.splits)

lemma serving_invariant: "serving en fo config x \<Longrightarrow> serving_ok x"
proof (induction rule: serving.induct)
  case (serving_new w s)
  then show ?case
    by (auto simp: server_new_def and_then_Ok_iff serving_ok_def accounts_def default_service_metrics_def)
next
  case (serving_step x y)
  then show ?case using serve_step_ok by blast
qed

section \<open>What the server guarantees\<close>

text \<open>C14: the server loses no request: in any interleaving of handlers and workers, when no request is between
  two of its steps, the table's running entries are exactly the requests whose worker runs, each id and each
  token once; the gauge of active requests is their number and the timed-out ones, and every accepted
  request is running or counted once as completed, cancelled or failed.\<close>

theorem server_accounting:
  assumes "serving en fo config (s, fs)" and "\<forall>(u, f) \<in> set fs. \<exists>t. f = Counted t"
  shows "{u. \<exists>t. ss_active s u = Some (ActiveRunning t)} = fst ` set fs \<and> distinct (map fst fs) \<and> distinct (tokens fs) \<and>
    sm_active_requests (ss_metrics s) = of_nat (length fs) + sm_retirement_timeouts (ss_metrics s) \<and>
    sm_requests_total (ss_metrics s) = of_nat (length fs) + sm_completed_requests (ss_metrics s)
      + sm_cancelled_requests (ss_metrics s) + sm_failed_requests (ss_metrics s)"
proof -
  note ok = serving_invariant [OF assms(1), unfolded serving_ok_def prod.case]
  have h: "holders fs = map fst fs" "count_flights fs = length fs"
    using assms(2) by (induction fs) auto
  have "{u. \<exists>t. ss_active s u = Some (ActiveRunning t)} = set (holders fs)"
    using ok by (auto simp: holder_in_table)
  then show ?thesis using ok by (simp add: h accounts_def algebra_simps)
qed

definition example_engine :: "unit speech_engine" where
  "example_engine = \<lparr>en_start = \<lambda>_ w. (Ok \<lparr>rq_poll = \<lambda>_ w. Some (Returned (Ok EngineWouldBlock), w),
       rq_cancel = \<lambda>w. (Ok (), w), rq_wait_retired = \<lambda>_ w. Some (True, w),
       rq_metrics = \<lambda>_. engine_metrics_from default_metrics\<rparr>, w),
     en_is_ready = \<lambda>_. True\<rparr>"

definition example_server :: "unit server_state" where
  "example_server = \<lparr>ss_engine = (), ss_active = Map.empty, ss_metrics = default_service_metrics, ss_shutdown = False,
     ss_cancelled_tokens = [], ss_next_token = 0, ss_permits = 3\<rparr>"

definition example_running :: "unit server_state" where
  "example_running = example_server\<lparr>ss_active := [''0-1'' \<mapsto> ActiveRunning 0], ss_next_token := 1,
     ss_metrics := request_started True default_service_metrics\<rparr>"

lemma example_running_serving:
  "serving example_engine example_foreign default_server_config (example_running, [(''0-1'', Counted 0)])"
proof -
  let ?step = "serve_step example_engine example_foreign"
  let ?s1 = "example_server\<lparr>ss_active := [''0-1'' \<mapsto> ActiveRunning 0], ss_next_token := 1\<rparr>"
  have new: "server_new default_server_config () = Ok example_server"
    by (simp add: server_new_def default_config_accepted example_server_def)
      (simp add: default_server_config_def default_engine_config_def)
  have a: "?step (example_server, []) (?s1, [(''0-1'', Starting 0)])"
    by (rule inserted) (simp_all add: admission_free_def admit_insert_def example_server_def Let_def)
  have b: "?step (?s1, [] @ (''0-1'', Starting 0) # []) (?s1, [] @ (''0-1'', Started 0) # [])"
    by (rule engine_started) (simp add: admit_start_def example_engine_def example_server_def)
  have c: "?step (?s1, [] @ (''0-1'', Started 0) # []) (count_started StreamPcm ?s1, [] @ (''0-1'', Counted 0) # [])"
    by (rule now_counted)
  have e: "count_started StreamPcm ?s1 = example_running"
    by (simp add: count_started_def example_running_def example_server_def)
  show ?thesis
    using serving_step [OF serving_step [OF serving_step [OF serving_new [OF new] a] b [unfolded append_Nil]]
      c [unfolded append_Nil e]] .
qed

lemma server_accounting_witness:
  "{u. \<exists>t. ss_active example_running u = Some (ActiveRunning t)} = {''0-1''} \<and>
   sm_requests_total (ss_metrics example_running) = 1"
  using server_accounting [OF example_running_serving]
  by (simp add: example_running_def request_started_def default_service_metrics_def Let_def)

text \<open>C18: cancelling by id is exact: an accepted cancellation cancels the token of the request with that id and
  of no other request, and that request's worker is the one that runs under the id.\<close>

theorem cancellation_exact:
  assumes "serving en fo config (s, fs)" and "cancel_request fo raw s = (Ok response, s')"
  shows "\<exists>u t. fo_parse_uuid fo raw = Some u \<and> in_table fs u t \<and> token_cancelled s' t \<and>
    (\<forall>v t'. in_table fs v t' \<and> v \<noteq> u \<longrightarrow> token_cancelled s' t' = token_cancelled s t')"
proof -
  note ok = serving_invariant [OF assms(1), unfolded serving_ok_def prod.case]
  obtain u t where u: "fo_parse_uuid fo raw = Some u" "ss_active s u = Some (ActiveRunning t)" "s' = cancel_token t s"
    using assms(2) by (auto simp: cancel_request_def split: option.splits server_active.splits)
  then have at: "in_table fs u t" using ok by blast
  have "v = u" if "in_table fs v t" for v
    using token_holder_unique at that ok by blast
  then have "token_cancelled s' t' = token_cancelled s t'" if "in_table fs v t'" "v \<noteq> u" for v t'
    using that by (auto simp: token_cancelled_def u(3) cancel_token_def)
  then show ?thesis using u(1,3) at by (auto simp: token_cancelled_def cancel_token_def)
qed

lemma cancellation_exact_witness:
  "\<exists>t. in_table [(''0-1'', Counted 0)] ''0-1'' t \<and>
     token_cancelled (snd (cancel_request example_foreign ''0-1'' example_running)) t"
proof -
  have c: "cancel_request example_foreign ''0-1'' example_running =
      (Ok (cancellation_accepted example_foreign ''0-1''), cancel_token 0 example_running)"
    by (simp add: cancel_request_def example_foreign_def example_running_def)
  show ?thesis using cancellation_exact [OF example_running_serving c] c by (auto simp: example_foreign_def)
qed

end
