(* ===== verification/HbHttp.thy ===== *)
theory HbHttp
  imports Prelude
begin

text \<open>
  \<open>http.rs\<close> of \<open>qwen3-tts-http-bench\<close>, the benchmark's HTTP client: the buffer of timed segments, the response
  head, and the body in its three transfer modes. A connection is the list of what its reads will find;
  a read takes at most one buffer of the next arrival, and the end of the list is the end of the stream.
  A panic ends the request's task the way an error does and is one of the errors.
\<close>

section \<open>Errors\<close>

datatype bench_error = BenchConfiguration bytes | BenchWorkload bytes | BenchIo bytes | BenchHttp bytes
  | BenchMultipart bytes | BenchWav bytes | BenchValidation bytes | BenchTimeout nat | BenchTiming bytes
  | BenchJson bytes | BenchTask bytes | BenchPanicked

definition MAX_HEADER_BYTES :: nat where "MAX_HEADER_BYTES = 64 * 1024"
definition MAX_CHUNK_LINE_BYTES :: nat where "MAX_CHUNK_LINE_BYTES = 8 * 1024"
definition READ_BUFFER_BYTES :: nat where "READ_BUFFER_BYTES = 16 * 1024"

abbreviation CRLF :: bytes where "CRLF \<equiv> [CHR 0x0D, CHR 0x0A]"
abbreviation CRLFCRLF :: bytes where "CRLFCRLF \<equiv> [CHR 0x0D, CHR 0x0A, CHR 0x0D, CHR 0x0A]"

section \<open>The buffer of timed segments\<close>

record timed_bytes =
  ti_bytes :: bytes
  ti_arrived :: instant

record timed_segment =
  tg_bytes :: bytes
  tg_offset :: nat
  tg_arrived :: instant

record timed_buffer =
  tb_segments :: "timed_segment list"
  tb_len :: nat

definition timed_buffer_new :: timed_buffer where
  "timed_buffer_new = \<lparr>tb_segments = [], tb_len = 0\<rparr>"

definition tb_push :: "bytes \<Rightarrow> instant \<Rightarrow> timed_buffer \<Rightarrow> timed_buffer" where
  "tb_push bs arrived b =
     (if bs = [] then b
      else b\<lparr>tb_len := tb_len b + length bs,
             tb_segments := tb_segments b @ [\<lparr>tg_bytes = bs, tg_offset = 0, tg_arrived = arrived\<rparr>]\<rparr>)"

definition tb_is_empty :: "timed_buffer \<Rightarrow> bool" where
  "tb_is_empty b \<longleftrightarrow> tb_len b = 0"

definition segment_rest :: "timed_segment \<Rightarrow> bytes" where
  "segment_rest s = drop (tg_offset s) (tg_bytes s)"

text \<open>An offset stays inside its segment, so the slices never fail; one that does not is a panic where bytes are
  taken. The matcher of \<open>find\<close>: it ends with a match or with its two counters.\<close>

fun find_bytes :: "bytes \<Rightarrow> nat \<Rightarrow> nat \<Rightarrow> bytes \<Rightarrow> nat + nat \<times> nat" where
  "find_bytes needle matched at [] = Inr (matched, at)"
| "find_bytes needle matched at (c # cs) =
     (if c = needle ! matched
      then (if matched + 1 = length needle then Inl (at + 1 - length needle)
            else find_bytes needle (matched + 1) (at + 1) cs)
      else find_bytes needle (if c = needle ! 0 then 1 else 0) (at + 1) cs)"

fun find_segments :: "bytes \<Rightarrow> nat \<Rightarrow> nat \<Rightarrow> timed_segment list \<Rightarrow> nat option" where
  "find_segments needle matched at [] = None"
| "find_segments needle matched at (s # ss) =
     (case find_bytes needle matched at (segment_rest s) of
        Inl found \<Rightarrow> Some found
      | Inr (matched', at') \<Rightarrow> find_segments needle matched' at' ss)"

definition tb_find :: "bytes \<Rightarrow> timed_buffer \<Rightarrow> nat option" where
  "tb_find needle b = (if needle = [] then Some 0 else find_segments needle 0 0 (tb_segments b))"

text \<open>Taking \<open>n\<close> bytes of a segment removes it when it is used up.\<close>

definition take_segment :: "nat \<Rightarrow> timed_segment \<Rightarrow> timed_segment list \<Rightarrow> timed_segment list" where
  "take_segment n s ss =
     (if tg_offset s + n = length (tg_bytes s) then ss else s\<lparr>tg_offset := tg_offset s + n\<rparr> # ss)"

function drain_loop :: "nat \<Rightarrow> timed_segment list \<Rightarrow> bench_error + bytes \<times> timed_segment list" where
  "drain_loop amount segments =
     (if amount = 0 then Ok ([], segments)
      else case segments of
        [] \<Rightarrow> Err BenchPanicked
      | s # ss \<Rightarrow>
          if length (tg_bytes s) < tg_offset s then Err BenchPanicked
          else
          (let n = min (length (tg_bytes s) - tg_offset s) amount
           in and_then (drain_loop (amount - n) (take_segment n s ss)) (\<lambda>(out, rest).
              Ok (take n (segment_rest s) @ out, rest))))"
  by pat_completeness auto
termination
  by (relation "measures [\<lambda>(amount, segments). length segments + amount]")
    (auto simp: take_segment_def min_def)

declare drain_loop.simps [simp del]

definition tb_drain_bytes :: "nat \<Rightarrow> timed_buffer \<Rightarrow> bench_error + bytes \<times> timed_buffer" where
  "tb_drain_bytes amount b =
     (if tb_len b < amount then Err (BenchHttp ''internal buffer underflow while draining bytes'')
      else and_then (drain_loop amount (tb_segments b)) (\<lambda>(out, segments).
        Ok (out, b\<lparr>tb_segments := segments, tb_len := tb_len b - amount\<rparr>)))"

definition tb_pop_segment :: "nat \<Rightarrow> timed_buffer \<Rightarrow> bench_error + (timed_bytes \<times> timed_buffer) option" where
  "tb_pop_segment maximum b =
     (case tb_segments b of
        [] \<Rightarrow> Ok None
      | s # ss \<Rightarrow>
          if length (tg_bytes s) < tg_offset s then Err BenchPanicked
          else
          (let n = min (length (tg_bytes s) - tg_offset s) maximum
           in Ok (Some (\<lparr>ti_bytes = take n (segment_rest s), ti_arrived = tg_arrived s\<rparr>,
                b\<lparr>tb_segments := take_segment n s ss, tb_len := tb_len b - n\<rparr>))))"

section \<open>The response head\<close>

type_synonym header_map = "bytes \<rightharpoonup> bytes"

record response_head =
  rh_status :: nat
  rh_headers :: header_map

definition head_header :: "bytes \<Rightarrow> response_head \<Rightarrow> bytes option" where
  "head_header name h = rh_headers h (to_ascii_lower name)"

text \<open>\<open>str::split_whitespace\<close>.\<close>

fun take_word :: "bytes \<Rightarrow> bytes \<times> bytes" where
  "take_word [] = ([], [])"
| "take_word (c # cs) =
     (if strip_ws (c # cs) \<noteq> None then ([], c # cs) else (let (w, rest) = take_word cs in (c # w, rest)))"

lemma take_word_shorter: "length (snd (take_word s)) \<le> length s"
  by (induction s) (auto simp: Let_def split: prod.splits)

lemma trim_start_shorter: "length (trim_start s) \<le> length s"
proof (induction s rule: trim_start.induct)
  case (1 s)
  then show ?case
    by (subst trim_start.simps) (fastforce dest: strip_ws_shorter split: option.splits)
qed

lemma trim_start_head: "trim_start s = c # cs \<Longrightarrow> strip_ws (c # cs) = None"
proof (induction s rule: trim_start.induct)
  case (1 s)
  then show ?case
    by (subst (asm) (2) trim_start.simps) (auto split: option.splits)
qed

function split_whitespace :: "bytes \<Rightarrow> bytes list" where
  "split_whitespace s =
     (let t = trim_start s in if t = [] then []
      else (let (w, rest) = take_word t in w # split_whitespace rest))"
  by pat_completeness auto
termination
proof (relation "measure length")
  fix s t x w rest
  assume "t = trim_start s" "t \<noteq> []" "x = take_word t" "(w, rest) = x"
  moreover from this obtain c cs where t: "t = c # cs" by (meson neq_Nil_conv)
  ultimately have "take_word (c # cs) = (w, rest)" "strip_ws (c # cs) = None"
    using trim_start_head [of s c cs] by simp_all
  then have "length rest < length t"
    using take_word_shorter [of cs] by (auto simp: t Let_def simp del: strip_ws.simps split: prod.splits)
  then show "(rest, s) \<in> measure length"
    using \<open>t = trim_start s\<close> trim_start_shorter [of s] by simp
qed simp

declare split_whitespace.simps [simp del]

definition is_header_name_byte :: "byte \<Rightarrow> bool" where
  "is_header_name_byte c \<longleftrightarrow> is_ascii_alphanumeric c \<or> c \<in> set ''!#$%&'' \<or> c = CHR 0x27 \<or> c \<in> set ''*+-.^_`|~''"

definition append_header :: "bytes \<Rightarrow> bytes \<Rightarrow> header_map \<Rightarrow> header_map" where
  "append_header name v headers =
     headers(name \<mapsto> (case headers name of None \<Rightarrow> v | Some existing \<Rightarrow> existing @ '', '' @ v))"

definition folded_line :: "bytes \<Rightarrow> bool" where
  "folded_line line = (case line of c # _ \<Rightarrow> c = CHR '' '' \<or> c = CHR 0x09 | [] \<Rightarrow> False)"

fun parse_head_lines :: "bytes list \<Rightarrow> header_map \<Rightarrow> bench_error + header_map" where
  "parse_head_lines [] headers = Ok headers"
| "parse_head_lines (line # rest) headers =
     (if folded_line line then Err (BenchHttp ''obsolete folded response headers are rejected'')
      else case split_once (CHR '':'') line of
        None \<Rightarrow> Err (BenchHttp ''malformed response header'')
      | Some (name, v) \<Rightarrow>
          if name = [] \<or> \<not> list_all is_header_name_byte name
          then Err (BenchHttp ''invalid response header name'')
          else parse_head_lines rest (append_header (to_ascii_lower name) (trim v) headers))"

definition parse_head :: "bytes \<Rightarrow> bench_error + response_head" where
  "parse_head head =
     (if \<not> utf8_valid head then Err (BenchHttp ''response headers are not valid ASCII/UTF-8'')
      else case split_on CRLF [] (take (length head - 4) head) of
        [] \<Rightarrow> Err (BenchHttp ''response status line is missing'')
      | status_line # lines \<Rightarrow>
          (let fields = split_whitespace status_line;
               version = (case fields of v # _ \<Rightarrow> v | [] \<Rightarrow> [])
           in if version \<noteq> ''HTTP/1.0'' \<and> version \<noteq> ''HTTP/1.1''
              then Err (BenchHttp ''response is not HTTP/1.0 or HTTP/1.1'')
              else and_then (ok_or (case fields of _ # st # _ \<Rightarrow> Some st | _ \<Rightarrow> None)
                     (BenchHttp ''response status is missing'')) (\<lambda>st.
                   and_then (ok_or (parse_unsigned 65535 st) (BenchHttp ''response status is invalid'')) (\<lambda>status.
                   and_then (parse_head_lines lines Map.empty) (\<lambda>headers.
                   Ok \<lparr>rh_status = status, rh_headers = headers\<rparr>)))))"

section \<open>The transfer mode\<close>

datatype chunk_state = ChunkSize | ChunkData nat | ChunkDataCrlf | ChunkTrailers | ChunkEnd

datatype transfer_mode = ContentLength nat | Chunked chunk_state | CloseDelimited

definition select_transfer :: "response_head \<Rightarrow> bench_error + transfer_mode" where
  "select_transfer h =
     (case (head_header ''transfer-encoding'' h, head_header ''content-length'' h) of
        (Some _, Some _) \<Rightarrow> Err (BenchHttp ''ambiguous response has both Transfer-Encoding and Content-Length'')
      | (Some v, None) \<Rightarrow>
          (let codings = map (\<lambda>item. to_ascii_lower (trim item)) (split_on '','' [] v)
           in if codings = [] \<or> last codings \<noteq> ''chunked'' \<or> list_ex (\<lambda>c. c \<noteq> ''chunked'') codings
              then Err (BenchHttp ''only chunked Transfer-Encoding is supported'')
              else Ok (Chunked ChunkSize))
      | (None, Some v) \<Rightarrow>
          and_then (ok_or (parse_unsigned u64_max v) (BenchHttp ''invalid Content-Length'')) (\<lambda>n. Ok (ContentLength n))
      | (None, None) \<Rightarrow> Ok CloseDelimited)"

section \<open>The connection\<close>

datatype net_event = NetBytes bytes instant | NetError bytes

fun tcp_read :: "net_event list \<Rightarrow> bench_error + (bytes \<times> instant) \<times> net_event list" where
  "tcp_read [] = Ok (([], 0), [])"
| "tcp_read (NetError e # evs) = Err (BenchIo e)"
| "tcp_read (NetBytes bs t # evs) =
     Ok ((take READ_BUFFER_BYTES bs, t),
         if length bs \<le> READ_BUFFER_BYTES then evs else NetBytes (drop READ_BUFFER_BYTES bs) t # evs)"

record http_body =
  hb_stream :: "net_event list"
  hb_raw :: timed_buffer
  hb_transfer :: transfer_mode
  hb_response_bytes :: u64
  hb_eof :: bool

definition read_into :: "net_event list \<Rightarrow> timed_buffer \<Rightarrow> u64 \<Rightarrow>
    bench_error + nat \<times> net_event list \<times> timed_buffer \<times> u64" where
  "read_into stream target response_bytes =
     and_then (tcp_read stream) (\<lambda>((bs, arrived), stream1).
     Ok (length bs, stream1, tb_push bs arrived target, response_bytes + of_nat (length bs)))"

text \<open>What is still to be read: the measure of the loops below.\<close>

fun event_size :: "net_event \<Rightarrow> nat" where
  "event_size (NetBytes bs t) = Suc (length bs)"
| "event_size (NetError e) = 1"

definition net_size :: "net_event list \<Rightarrow> nat" where
  "net_size evs = sum_list (map event_size evs)"

definition body_size :: "http_body \<Rightarrow> nat" where
  "body_size b = net_size (hb_stream b) + tb_len (hb_raw b)"

lemma and_then_cong [fundef_cong]:
  "r = r' \<Longrightarrow> (\<And>x. r' = Ok x \<Longrightarrow> f x = f' x) \<Longrightarrow> and_then r f = and_then r' f'"
  by (cases r') auto

lemma tcp_read_size:
  "tcp_read evs = Ok ((bs, t), evs') \<Longrightarrow> net_size evs' + length bs \<le> net_size evs \<and> (bs \<noteq> [] \<longrightarrow> net_size evs' < net_size evs)"
  by (induction evs rule: tcp_read.induct) (auto simp: net_size_def READ_BUFFER_BYTES_def split: if_splits)

lemma read_into_size:
  assumes "read_into stream raw n = Ok (amount, stream1, raw1, n1)"
  shows "net_size stream1 + tb_len raw1 \<le> net_size stream + tb_len raw"
    "amount \<noteq> 0 \<Longrightarrow> net_size stream1 < net_size stream"
  using assms by (auto simp: read_into_def and_then_Ok_iff tb_push_def dest: tcp_read_size)

text \<open>\<open>HttpBody::read_head\<close> from a buffer and a connection.\<close>

function read_head_loop :: "net_event list \<Rightarrow> timed_buffer \<Rightarrow> u64 \<Rightarrow> bench_error + response_head \<times> http_body" where
  "read_head_loop stream raw response_bytes =
     (case tb_find CRLFCRLF raw of
        Some at \<Rightarrow>
          and_then (tb_drain_bytes (at + 4) raw) (\<lambda>(head_bytes, raw1).
          and_then (parse_head head_bytes) (\<lambda>h.
          and_then (select_transfer h) (\<lambda>transfer.
          Ok (h, \<lparr>hb_stream = stream, hb_raw = raw1, hb_transfer = transfer, hb_response_bytes = response_bytes,
             hb_eof = False\<rparr>))))
      | None \<Rightarrow>
          if MAX_HEADER_BYTES \<le> tb_len raw then Err (BenchHttp ''response headers exceed 65536 bytes'')
          else and_then (read_into stream raw response_bytes) (\<lambda>(amount, stream1, raw1, response_bytes1).
            if amount = 0 then Err (BenchHttp ''connection closed before response headers completed'')
            else read_head_loop stream1 raw1 response_bytes1))"
  by pat_completeness auto
termination
  by (relation "measure (\<lambda>(stream, _, _). net_size stream)") (auto dest: read_into_size(2))

declare read_head_loop.simps [simp del]

definition read_head :: "net_event list \<Rightarrow> bench_error + response_head \<times> http_body" where
  "read_head stream = read_head_loop stream timed_buffer_new 0"

definition read_more :: "http_body \<Rightarrow> bench_error + http_body" where
  "read_more b =
     (if hb_eof b then Ok b
      else and_then (read_into (hb_stream b) (hb_raw b) (hb_response_bytes b)) (\<lambda>(amount, stream, raw, response_bytes).
        Ok (b\<lparr>hb_stream := stream, hb_raw := raw, hb_response_bytes := response_bytes, hb_eof := amount = 0\<rparr>)))"

definition drain_raw :: "nat \<Rightarrow> http_body \<Rightarrow> bench_error + bytes \<times> http_body" where
  "drain_raw amount b =
     and_then (tb_drain_bytes amount (hb_raw b)) (\<lambda>(out, raw). Ok (out, b\<lparr>hb_raw := raw\<rparr>))"

lemma read_more_size:
  assumes "read_more b = Ok b1"
  shows "body_size b1 \<le> body_size b" "\<not> hb_eof b1 \<Longrightarrow> net_size (hb_stream b1) < net_size (hb_stream b)"
  using assms by (auto simp: read_more_def body_size_def and_then_Ok_iff split: if_splits dest: read_into_size)

lemma drain_raw_size: "drain_raw amount b = Ok (out, b1) \<Longrightarrow> body_size b1 + amount \<le> body_size b"
  by (auto simp: drain_raw_def tb_drain_bytes_def body_size_def and_then_Ok_iff split: if_splits)

function read_raw_exact :: "nat \<Rightarrow> http_body \<Rightarrow> bench_error + bytes \<times> http_body" where
  "read_raw_exact amount b =
     (if tb_len (hb_raw b) < amount
      then and_then (read_more b) (\<lambda>b1.
        if hb_eof b1 then Err (BenchHttp ''connection closed inside transfer framing'') else read_raw_exact amount b1)
      else drain_raw amount b)"
  by pat_completeness auto
termination
  by (relation "measure (\<lambda>(_, b). net_size (hb_stream b))") (auto dest: read_more_size(2))

declare read_raw_exact.simps [simp del]

function read_raw_line :: "nat \<Rightarrow> http_body \<Rightarrow> bench_error + bytes \<times> http_body" where
  "read_raw_line maximum b =
     (case tb_find CRLF (hb_raw b) of
        Some at \<Rightarrow>
          if maximum < at then Err (BenchHttp (''transfer framing line exceeds '' @ show_nat maximum @ '' bytes''))
          else and_then (drain_raw (at + 2) b) (\<lambda>(line, b1). Ok (take at line, b1))
      | None \<Rightarrow>
          if maximum < tb_len (hb_raw b)
          then Err (BenchHttp (''transfer framing line exceeds '' @ show_nat maximum @ '' bytes''))
          else and_then (read_more b) (\<lambda>b1.
            if hb_eof b1 then Err (BenchHttp ''connection closed inside transfer framing line'')
            else read_raw_line maximum b1))"
  by pat_completeness auto
termination
  by (relation "measure (\<lambda>(_, b). net_size (hb_stream b))") (auto dest: read_more_size(2))

declare read_raw_line.simps [simp del]

lemma read_raw_exact_size: "read_raw_exact amount b = Ok (out, b1) \<Longrightarrow> body_size b1 + amount \<le> body_size b"
proof (induction amount b rule: read_raw_exact.induct)
  case (1 amount b)
  then show ?case
    by (subst (asm) (2) read_raw_exact.simps)
      (fastforce simp: and_then_Ok_iff split: if_splits dest: drain_raw_size read_more_size(1))
qed

lemma read_raw_line_size: "read_raw_line maximum b = Ok (out, b1) \<Longrightarrow> body_size b1 + 2 \<le> body_size b"
proof (induction maximum b rule: read_raw_line.induct)
  case (1 maximum b)
  then show ?case
    by (subst (asm) (2) read_raw_line.simps)
      (fastforce simp: and_then_Ok_iff split: if_splits option.splits dest: drain_raw_size read_more_size(1))
qed

section \<open>The body\<close>

text \<open>Before a segment is taken the raw buffer is filled; \<open>closed\<close> is what the end of the stream means here.\<close>

definition fill_raw :: "bytes \<Rightarrow> http_body \<Rightarrow> bench_error + http_body" where
  "fill_raw closed b =
     (if tb_is_empty (hb_raw b)
      then and_then (read_more b) (\<lambda>b1. if hb_eof b1 then Err (BenchHttp closed) else Ok b1)
      else Ok b)"

definition pop_raw :: "nat \<Rightarrow> http_body \<Rightarrow> bench_error + timed_bytes \<times> http_body" where
  "pop_raw maximum b =
     and_then (tb_pop_segment maximum (hb_raw b)) (\<lambda>popped.
     case popped of
       None \<Rightarrow> Err BenchPanicked
     | Some (seg, raw) \<Rightarrow> Ok (seg, b\<lparr>hb_raw := raw\<rparr>))"

definition next_content_length :: "nat \<Rightarrow> http_body \<Rightarrow> bench_error + timed_bytes option \<times> http_body" where
  "next_content_length remaining b =
     (if remaining = 0
      then if \<not> tb_is_empty (hb_raw b) then Err (BenchHttp ''bytes remain after the declared Content-Length'')
           else Ok (None, b\<lparr>hb_transfer := ContentLength 0\<rparr>)
      else and_then (fill_raw ''connection closed before Content-Length bytes arrived'' b) (\<lambda>b1.
           and_then (pop_raw remaining b1) (\<lambda>(seg, b2).
           Ok (Some seg, b2\<lparr>hb_transfer := ContentLength (remaining - length (ti_bytes seg))\<rparr>))))"

definition next_close_delimited :: "http_body \<Rightarrow> bench_error + timed_bytes option \<times> http_body" where
  "next_close_delimited b =
     and_then (if tb_is_empty (hb_raw b) then read_more b else Ok b) (\<lambda>b1.
     if tb_is_empty (hb_raw b) \<and> hb_eof b1 then Ok (None, b1\<lparr>hb_transfer := CloseDelimited\<rparr>)
     else and_then (tb_pop_segment usize_max (hb_raw b1)) (\<lambda>popped.
          case popped of
            None \<Rightarrow> Ok (None, b1\<lparr>hb_transfer := CloseDelimited\<rparr>)
          | Some (seg, raw) \<Rightarrow> Ok (Some seg, b1\<lparr>hb_raw := raw, hb_transfer := CloseDelimited\<rparr>)))"

text \<open>\<open>u64::from_str_radix\<close> for sixteen.\<close>

definition hex_value :: "byte \<Rightarrow> nat option" where
  "hex_value c =
     (if is_digit c then Some (bv c - 48)
      else if 97 \<le> bv c \<and> bv c \<le> 102 then Some (bv c - 87)
      else if 65 \<le> bv c \<and> bv c \<le> 70 then Some (bv c - 55) else None)"

fun hex_digits_value :: "nat \<Rightarrow> bytes \<Rightarrow> nat option" where
  "hex_digits_value acc [] = Some acc"
| "hex_digits_value acc (c # cs) =
     (case hex_value c of None \<Rightarrow> None | Some d \<Rightarrow> hex_digits_value (acc * 16 + d) cs)"

definition parse_hex_u64 :: "bytes \<Rightarrow> nat option" where
  "parse_hex_u64 s =
     (let ds = (case s of c # cs \<Rightarrow> if c = CHR ''+'' then cs else s | [] \<Rightarrow> [])
      in if ds = [] then None
         else Option.bind (hex_digits_value 0 ds) (\<lambda>n. if n \<le> u64_max then Some n else None))"

definition chunk_size :: "bytes \<Rightarrow> bench_error + nat" where
  "chunk_size line =
     (let token = takeWhile (\<lambda>c. c \<noteq> CHR '';'') line in
      if \<not> utf8_valid token then Err (BenchHttp ''chunk size is not ASCII'')
      else ok_or (parse_hex_u64 (trim token)) (BenchHttp ''chunk size is not valid hexadecimal''))"

fun chunk_rank :: "chunk_state \<Rightarrow> nat" where
  "chunk_rank (ChunkData _) = 1"
| "chunk_rank _ = 0"

function next_chunked :: "chunk_state \<Rightarrow> http_body \<Rightarrow> bench_error + timed_bytes option \<times> http_body" where
  "next_chunked ChunkSize b =
     and_then (read_raw_line MAX_CHUNK_LINE_BYTES b) (\<lambda>(line, b1).
     and_then (chunk_size line) (\<lambda>size.
     next_chunked (if size = 0 then ChunkTrailers else ChunkData size) b1))"
| "next_chunked (ChunkData remaining) b =
     (if remaining = 0 then next_chunked ChunkDataCrlf b
      else and_then (fill_raw ''connection closed inside a chunk'' b) (\<lambda>b1.
           and_then (pop_raw remaining b1) (\<lambda>(seg, b2).
           Ok (Some seg, b2\<lparr>hb_transfer := Chunked (ChunkData (remaining - length (ti_bytes seg)))\<rparr>))))"
| "next_chunked ChunkDataCrlf b =
     and_then (read_raw_exact 2 b) (\<lambda>(suffix, b1).
     if suffix \<noteq> CRLF then Err (BenchHttp ''chunk data is not followed by CRLF'') else next_chunked ChunkSize b1)"
| "next_chunked ChunkTrailers b =
     and_then (read_raw_line MAX_HEADER_BYTES b) (\<lambda>(line, b1).
     if line = [] then next_chunked ChunkEnd b1
     else if CHR '':'' \<notin> set line then Err (BenchHttp ''malformed chunk trailer field'')
     else next_chunked ChunkTrailers b1)"
| "next_chunked ChunkEnd b =
     (if \<not> tb_is_empty (hb_raw b) then Err (BenchHttp ''bytes remain after the chunked message terminator'')
      else Ok (None, b\<lparr>hb_transfer := Chunked ChunkEnd\<rparr>))"
  by pat_completeness auto
termination
  by (relation "measures [\<lambda>(_, b). body_size b, \<lambda>(state, _). chunk_rank state]")
    (auto dest!: read_raw_line_size read_raw_exact_size)

declare next_chunked.simps [simp del]

definition next_segment :: "http_body \<Rightarrow> bench_error + timed_bytes option \<times> http_body" where
  "next_segment b =
     (case hb_transfer b of
        ContentLength remaining \<Rightarrow> next_content_length remaining b
      | CloseDelimited \<Rightarrow> next_close_delimited b
      | Chunked state \<Rightarrow> next_chunked state b)"

end
