(* ===== verification/HbModel.thy ===== *)
theory HbModel
  imports HbHttp RustFloat
begin

text \<open>
  \<open>model.rs\<close> of \<open>qwen3-tts-http-bench\<close>: the workload's entries, their validation, the requests made of them and
  the audit of their sampling settings. JSON text, file access and the digests of the \<open>sha2\<close> crate are arguments.
\<close>

definition MAX_COMMON_CODEC_FRAMES :: nat where "MAX_COMMON_CODEC_FRAMES = 8192"
definition BENCH_SAMPLE_RATE_HZ :: nat where "BENCH_SAMPLE_RATE_HZ = 24000"

datatype backend_profile = ProfileNative | ProfileSglangOmni

definition parse_profile :: "bytes \<Rightarrow> bytes + backend_profile" where
  "parse_profile v =
     (let s = to_ascii_lower v in
      if s = ''native'' then Ok ProfileNative
      else if s = ''sglang-omni'' \<or> s = ''sglang'' then Ok ProfileSglangOmni
      else Err ''profile must be native or sglang-omni'')"

datatype concurrency = B1 | B3 | B6

fun concurrency_get :: "concurrency \<Rightarrow> nat" where
  "concurrency_get B1 = 1" | "concurrency_get B3 = 3" | "concurrency_get B6 = 6"

fun concurrency_label :: "concurrency \<Rightarrow> bytes" where
  "concurrency_label B1 = ''B1''" | "concurrency_label B3 = ''B3''" | "concurrency_label B6 = ''B6''"

definition to_ascii_upper :: "bytes \<Rightarrow> bytes" where
  "to_ascii_upper s = map (\<lambda>c. if 97 \<le> bv c \<and> bv c \<le> 122 then char_of (bv c - 32) else c) s"

definition parse_concurrency :: "bytes \<Rightarrow> bytes + concurrency" where
  "parse_concurrency v =
     (let s = to_ascii_upper v in
      if s = ''1'' \<or> s = ''B1'' then Ok B1 else if s = ''3'' \<or> s = ''B3'' then Ok B3
      else if s = ''6'' \<or> s = ''B6'' then Ok B6 else Err ''concurrency must be B1, B3, or B6'')"

section \<open>Entries\<close>

datatype workload_strategy = WorkSample | WorkGreedy

record workload_predictor =
  wp_strategy :: workload_strategy
  wp_temperature :: "f64 option"
  wp_top_p :: "f64 option"
  wp_top_k :: "nat option"

record workload_sampling =
  ws_strategy :: workload_strategy
  ws_temperature :: "f64 option"
  ws_top_p :: "f64 option"
  ws_top_k :: "nat option"
  ws_repetition_penalty :: "f64 option"
  ws_predictor :: "workload_predictor option"

record workload_entry =
  we_id :: bytes
  we_text :: bytes
  we_voice_description :: bytes
  we_language :: bytes
  we_seed :: "nat option"
  we_max_duration_seconds :: "f64 option"
  we_sampling :: "workload_sampling option"
  we_stream :: bool

definition workload_error :: "nat \<Rightarrow> bytes \<Rightarrow> bench_error" where
  "workload_error line message = BenchWorkload (''line '' @ show_nat line @ '': '' @ message)"

definition positive :: "f64 \<Rightarrow> bool" where
  "positive v \<longleftrightarrow> is_finite v \<and> \<not> fp_le v f64_zero"

definition validate_stage :: "nat \<Rightarrow> bytes \<Rightarrow> workload_strategy \<Rightarrow> f64 option \<Rightarrow> f64 option \<Rightarrow> nat option \<Rightarrow>
    bench_error + unit" where
  "validate_stage line field strategy temperature top_p top_k =
     (if strategy = WorkGreedy \<and> (temperature \<noteq> None \<or> top_p \<noteq> None \<or> top_k \<noteq> None)
      then Err (workload_error line (field @
        '' temperature/top_p/top_k are invalid with strategy=greedy because the servers would ignore them''))
      else if \<exists>v \<in> set_option temperature. \<not> positive v
      then Err (workload_error line (field @ ''.temperature must be finite and positive''))
      else if \<exists>v \<in> set_option top_p. \<not> positive v \<or> fp_lt (FFin 1) v
      then Err (workload_error line (field @ ''.top_p must be finite and in (0, 1]''))
      else if top_k = Some 0 then Err (workload_error line (field @ ''.top_k must be greater than zero''))
      else Ok ())"

definition sampling_validate :: "nat \<Rightarrow> workload_sampling \<Rightarrow> bench_error + unit" where
  "sampling_validate line s =
     and_then (validate_stage line ''sampling'' (ws_strategy s) (ws_temperature s) (ws_top_p s) (ws_top_k s)) (\<lambda>_.
     if \<exists>v \<in> set_option (ws_repetition_penalty s). \<not> positive v
     then Err (workload_error line ''sampling.repetition_penalty must be finite and positive'')
     else (case ws_predictor s of
             None \<Rightarrow> Ok ()
           | Some p \<Rightarrow> validate_stage line ''sampling.predictor'' (wp_strategy p) (wp_temperature p) (wp_top_p p) (wp_top_k p)))"

definition is_safe_id_byte :: "byte \<Rightarrow> bool" where
  "is_safe_id_byte c \<longleftrightarrow> is_ascii_alphanumeric c \<or> c \<in> set ''._-''"

definition quote :: "byte \<Rightarrow> bytes" where
  "quote c = [CHR 0x27, c, CHR 0x27]"

definition entry_validate :: "nat \<Rightarrow> workload_entry \<Rightarrow> bench_error + unit" where
  "entry_validate line e =
     (if trim (we_id e) = [] then Err (workload_error line ''id must not be empty'')
      else if 128 < length (we_id e) \<or> \<not> list_all is_safe_id_byte (we_id e)
      then Err (workload_error line (''id must contain at most 128 ASCII letters, digits, '' @ quote (CHR ''.'') @ '', ''
        @ quote (CHR ''_'') @ '', or '' @ quote (CHR ''-'')))
      else if trim (we_text e) = [] then Err (workload_error line ''text must not be empty'')
      else if trim (we_voice_description e) = [] then Err (workload_error line ''voice_description must not be empty'')
      else if \<exists>v \<in> set_option (we_max_duration_seconds e). \<not> positive v
      then Err (workload_error line ''max_duration_seconds must be finite and positive'')
      else (case we_sampling e of None \<Rightarrow> Ok () | Some s \<Rightarrow> sampling_validate line s))"

section \<open>Requests\<close>

text \<open>The values of a request object; serialising them is an argument.\<close>

datatype body_field = FieldString bytes | FieldU64 nat | FieldF64 f64 | FieldBool bool | FieldSampling workload_sampling

type_synonym request_object = "(bytes \<times> body_field) list"

definition optional_field :: "bytes \<Rightarrow> ('a \<Rightarrow> body_field) \<Rightarrow> 'a option \<Rightarrow> request_object" where
  "optional_field name f v = (case v of None \<Rightarrow> [] | Some x \<Rightarrow> [(name, f x)])"

definition native_request_body :: "workload_entry \<Rightarrow> request_object" where
  "native_request_body e =
     [(''text'', FieldString (we_text e)), (''voice_description'', FieldString (we_voice_description e)),
      (''language'', FieldString (we_language e))]
     @ optional_field ''seed'' FieldU64 (we_seed e)
     @ optional_field ''max_duration_seconds'' FieldF64 (we_max_duration_seconds e)
     @ optional_field ''sampling'' FieldSampling (we_sampling e)
     @ [(''stream'', FieldBool (we_stream e)),
        (''output_format'', FieldString (if we_stream e then ''pcm_s16le'' else ''wav''))]"

text \<open>\<open>quoted\<close> is the debug rendering of an id in a message.\<close>

definition entry_error :: "(bytes \<Rightarrow> bytes) \<Rightarrow> workload_entry \<Rightarrow> bytes \<Rightarrow> bench_error" where
  "entry_error quoted e message = BenchWorkload (''entry '' @ quoted (we_id e) @ '': '' @ message)"

definition sglang_max_new_tokens :: "(bytes \<Rightarrow> bytes) \<Rightarrow> workload_entry \<Rightarrow> bench_error + nat" where
  "sglang_max_new_tokens quoted e =
     (case we_max_duration_seconds e of
        None \<Rightarrow> Err (entry_error quoted e ''sglang-omni comparison requires an explicit max_duration_seconds'')
      | Some duration \<Rightarrow>
          (let frames = fp_ceil (f64_mul duration (f64_lit (25 / 2))) in
           if \<not> is_finite frames \<or> fp_lt frames (FFin 1) \<or> fp_lt (FFin (real MAX_COMMON_CODEC_FRAMES)) frames
           then Err (entry_error quoted e ''max_duration_seconds must map to 1..=8192 codec frames at 12.5 Hz'')
           else Ok (unat (fp_to_u32 frames))))"

definition validate_sglang_sampling_contract :: "(bytes \<Rightarrow> bytes) \<Rightarrow> workload_entry \<Rightarrow> bench_error + unit" where
  "validate_sglang_sampling_contract quoted e =
     (case we_sampling e of
        None \<Rightarrow> Ok ()
      | Some s \<Rightarrow>
          if ws_strategy s \<noteq> WorkSample then Err (entry_error quoted e ''stock SGLang-Omni fixes talker do_sample=true'')
          else (case ws_predictor s of
                  None \<Rightarrow> Ok ()
                | Some p \<Rightarrow>
                    if wp_strategy p \<noteq> WorkSample \<or> (\<exists>v \<in> set_option (wp_temperature p). \<not> fp_eq v (f64_lit (9 / 10)))
                      \<or> (\<exists>v \<in> set_option (wp_top_p p). \<not> fp_eq v (FFin 1)) \<or> (\<exists>v \<in> set_option (wp_top_k p). v \<noteq> 50)
                    then Err (entry_error quoted e ''stock SGLang-Omni fixes predictor sampling to sample/0.9/1.0/50'')
                    else Ok ()))"

definition sglang_request_body :: "(bytes \<Rightarrow> bytes) \<Rightarrow> workload_entry \<Rightarrow> bytes option \<Rightarrow> bench_error + request_object" where
  "sglang_request_body quoted e model =
     (if \<not> we_stream e then Err (entry_error quoted e ''sglang-omni comparison requires stream=true raw PCM'')
      else and_then (sglang_max_new_tokens quoted e) (\<lambda>max_new_tokens.
           and_then (validate_sglang_sampling_contract quoted e) (\<lambda>_.
           and_then (ok_or model (BenchConfiguration ''--sglang-model is required for the sglang-omni profile'')) (\<lambda>m.
           Ok ([(''model'', FieldString m), (''voice'', FieldString ''default''), (''input'', FieldString (we_text e)),
                (''instructions'', FieldString (we_voice_description e)), (''task_type'', FieldString ''VoiceDesign''),
                (''language'', FieldString (we_language e)), (''stream'', FieldBool True),
                (''stream_format'', FieldString ''audio''), (''response_format'', FieldString ''pcm''),
                (''max_new_tokens'', FieldU64 max_new_tokens)]
               @ optional_field ''seed'' FieldU64 (we_seed e)
               @ (case we_sampling e of
                    None \<Rightarrow> []
                  | Some s \<Rightarrow> optional_field ''temperature'' FieldF64 (ws_temperature s)
                      @ optional_field ''top_p'' FieldF64 (ws_top_p s) @ optional_field ''top_k'' FieldU64 (ws_top_k s)
                      @ optional_field ''repetition_penalty'' FieldF64 (ws_repetition_penalty s)))))))"

definition request_body :: "(bytes \<Rightarrow> bytes) \<Rightarrow> workload_entry \<Rightarrow> backend_profile \<Rightarrow> bytes option \<Rightarrow>
    bench_error + request_object" where
  "request_body quoted e profile model =
     (case profile of ProfileNative \<Rightarrow> Ok (native_request_body e) | ProfileSglangOmni \<Rightarrow> sglang_request_body quoted e model)"

section \<open>The sampling audit\<close>

record sampling_audit =
  au_seed :: "nat option"
  au_sampling :: "workload_sampling option"
  au_normalized_sha256 :: bytes
  au_parity_qualifying :: bool
  au_reasons :: "bytes list"

definition require_explicit :: "bytes \<Rightarrow> 'a option \<Rightarrow> bytes list" where
  "require_explicit name v = (if v = None then [name @ '' is not explicit''] else [])"

definition audit_reasons :: "workload_entry \<Rightarrow> bytes list" where
  "audit_reasons e =
     require_explicit ''seed'' (we_seed e)
     @ (case we_sampling e of
          None \<Rightarrow> [''sampling object is not explicit'']
        | Some s \<Rightarrow>
            (if ws_strategy s = WorkSample
             then require_explicit ''sampling.temperature'' (ws_temperature s)
                  @ require_explicit ''sampling.top_p'' (ws_top_p s) @ require_explicit ''sampling.top_k'' (ws_top_k s)
             else [])
            @ require_explicit ''sampling.repetition_penalty'' (ws_repetition_penalty s)
            @ (case ws_predictor s of
                 None \<Rightarrow> [''sampling.predictor is not explicit'']
               | Some p \<Rightarrow>
                   if wp_strategy p = WorkSample
                   then require_explicit ''sampling.predictor.temperature'' (wp_temperature p)
                        @ require_explicit ''sampling.predictor.top_p'' (wp_top_p p)
                        @ require_explicit ''sampling.predictor.top_k'' (wp_top_k p)
                   else []))"

text \<open>\<open>normalized\<close> is the digest of the canonical settings, a copy of the seed and the sampling options.\<close>

definition entry_audit :: "(nat option \<Rightarrow> workload_sampling option \<Rightarrow> bytes) \<Rightarrow> workload_entry \<Rightarrow> sampling_audit" where
  "entry_audit normalized e =
     (let reasons = audit_reasons e in
      \<lparr>au_seed = we_seed e, au_sampling = we_sampling e, au_normalized_sha256 = normalized (we_seed e) (we_sampling e),
       au_parity_qualifying = reasons = [], au_reasons = reasons\<rparr>)"

section \<open>Loading\<close>

text \<open>The lines of the workload file, numbered from one; \<open>parse\<close> reads one entry.\<close>

fun load_lines :: "(bytes \<Rightarrow> bytes + workload_entry) \<Rightarrow> (bytes \<Rightarrow> bytes) \<Rightarrow> nat \<Rightarrow> bytes list \<Rightarrow> workload_entry list \<Rightarrow>
    bench_error + workload_entry list" where
  "load_lines parse quoted n [] entries = Ok entries"
| "load_lines parse quoted n (raw # rest) entries =
     (let line = trim raw in
      if line = [] then load_lines parse quoted (n + 1) rest entries
      else and_then (map_err (\<lambda>e. workload_error n (''invalid JSON: '' @ e)) (parse line)) (\<lambda>entry.
           and_then (entry_validate n entry) (\<lambda>_.
           if we_id entry \<in> set (map we_id entries)
           then Err (workload_error n (''duplicate id '' @ quoted (we_id entry)))
           else load_lines parse quoted (n + 1) rest (entries @ [entry]))))"

definition load_workload :: "(bytes \<Rightarrow> bytes + workload_entry) \<Rightarrow> (bytes \<Rightarrow> bytes) \<Rightarrow> bytes + bytes \<Rightarrow>
    bench_error + workload_entry list" where
  "load_workload parse quoted file =
     and_then (map_err BenchIo file) (\<lambda>contents.
     and_then (load_lines parse quoted 1 (text_lines contents) []) (\<lambda>entries.
     if entries = [] then Err (BenchWorkload ''workload must contain at least one non-empty JSONL record'')
     else Ok entries))"

end
