(* ===== verification/HbWav.thy ===== *)
theory HbWav
  imports HbModel
begin

text \<open>
  \<open>wav.rs\<close> of \<open>qwen3-tts-http-bench\<close>: the check of a buffered WAV response. Fields are read as numbers; every
  length is below two to the 32, so no addition of the code overflows \<open>usize\<close>.
\<close>

record wav_info =
  wi_sample_count :: nat
  wi_data_offset :: nat
  wi_data_bytes :: nat

text \<open>\<open>bytes[a..b]\<close> of a slice that the code has bounded, and a field at an offset.\<close>

definition byte_range :: "nat \<Rightarrow> nat \<Rightarrow> bytes \<Rightarrow> bytes" where
  "byte_range a b s = take (b - a) (drop a s)"

definition read_field :: "bytes \<Rightarrow> nat \<Rightarrow> bytes \<Rightarrow> nat \<Rightarrow> bench_error + nat" where
  "read_field what width bs offset =
     (if length bs < offset + width then Err (BenchWav (''truncated '' @ what @ '' WAV field''))
      else Ok (le_value (byte_range offset (offset + width) bs)))"

definition read_u16 :: "bytes \<Rightarrow> nat \<Rightarrow> bench_error + nat" where
  "read_u16 = read_field ''16-bit'' 2"

definition read_u32 :: "bytes \<Rightarrow> nat \<Rightarrow> bench_error + nat" where
  "read_u32 = read_field ''32-bit'' 4"

text \<open>\<open>sample_rate * 2\<close> is computed in 32 bits.\<close>

definition validate_format :: "bytes \<Rightarrow> bench_error + unit" where
  "validate_format bs =
     (if length bs < 16 then Err (BenchWav ''fmt chunk is shorter than 16 bytes'')
      else and_then (read_u16 bs 0) (\<lambda>audio_format.
           and_then (read_u16 bs 2) (\<lambda>channels.
           and_then (read_u32 bs 4) (\<lambda>rate.
           and_then (read_u32 bs 8) (\<lambda>byte_rate.
           and_then (read_u16 bs 12) (\<lambda>block_align.
           and_then (read_u16 bs 14) (\<lambda>bits_per_sample.
           if audio_format \<noteq> 1 \<or> channels \<noteq> 1 \<or> rate \<noteq> BENCH_SAMPLE_RATE_HZ \<or> byte_rate \<noteq> rate * 2 mod 2 ^ 32
             \<or> block_align \<noteq> 2 \<or> bits_per_sample \<noteq> 16
           then Err (BenchWav ''WAV must be PCM16 little-endian mono at 24 kHz'')
           else Ok ())))))))"

text \<open>One RIFF chunk by its kind: whether the format was seen, and where the data is.\<close>

definition wav_chunk :: "bytes \<Rightarrow> nat \<Rightarrow> nat \<Rightarrow> bytes \<Rightarrow> bool \<times> (nat \<times> nat) option \<Rightarrow>
    bench_error + bool \<times> (nat \<times> nat) option" where
  "wav_chunk chunk_id start n bs = (\<lambda>(format_seen, data).
     if chunk_id = ''fmt '' then
       (if format_seen then Err (BenchWav ''duplicate fmt chunk'')
        else and_then (validate_format (byte_range start (start + n) bs)) (\<lambda>_. Ok (True, data)))
     else if chunk_id = ''data'' then
       (if data \<noteq> None then Err (BenchWav ''duplicate data chunk'')
        else if n = 0 \<or> odd n
        then Err (BenchWav ''PCM data must contain a non-empty whole number of 16-bit samples'')
        else Ok (format_seen, Some (start, n)))
     else Ok (format_seen, data))"

function wav_chunks :: "bytes \<Rightarrow> nat \<Rightarrow> bool \<times> (nat \<times> nat) option \<Rightarrow> bench_error + nat \<times> bool \<times> (nat \<times> nat) option" where
  "wav_chunks bs cursor seen =
     (if length bs \<le> cursor then Ok (cursor, seen)
      else if length bs - cursor < 8 then Err (BenchWav ''truncated RIFF chunk header'')
      else and_then (read_u32 bs (cursor + 4)) (\<lambda>n.
           (let start = cursor + 8; end = start + n in
            if length bs < end then Err (BenchWav ''RIFF chunk extends past the response'')
            else and_then (wav_chunk (byte_range cursor (cursor + 4) bs) start n bs seen) (\<lambda>seen1.
                 (let next = end + n mod 2 in
                  if length bs < next then Err (BenchWav ''missing RIFF chunk padding'')
                  else wav_chunks bs next seen1)))))"
  by pat_completeness auto
termination by (relation "measure (\<lambda>(bs, cursor, _). length bs - cursor)") auto

declare wav_chunks.simps [simp del]

definition validate_wav :: "bytes \<Rightarrow> bench_error + wav_info" where
  "validate_wav bs =
     (if length bs < 12 \<or> byte_range 0 4 bs \<noteq> ''RIFF'' \<or> byte_range 8 12 bs \<noteq> ''WAVE''
      then Err (BenchWav ''response is not a RIFF/WAVE file'')
      else and_then (read_u32 bs 4) (\<lambda>riff_size.
        if riff_size + 8 \<noteq> length bs then Err (BenchWav ''RIFF size does not match the response length'')
        else and_then (wav_chunks bs 12 (False, None)) (\<lambda>(cursor, format_seen, data).
          if cursor \<noteq> length bs then Err (BenchWav ''RIFF chunks do not consume the full response'')
          else if \<not> format_seen then Err (BenchWav ''WAV file has no fmt chunk'')
          else and_then (ok_or data (BenchWav ''WAV file has no PCM data chunk'')) (\<lambda>(data_offset, data_bytes).
            Ok \<lparr>wi_sample_count = data_bytes div 2, wi_data_offset = data_offset, wi_data_bytes = data_bytes\<rparr>))))"

end
