(* ===== verification/HbBody.thy ===== *)
theory HbBody
  imports HbHttp
begin

text \<open>
  What the benchmark's HTTP client guarantees: the timed buffer behaves as the text it holds, its
  restarting matcher finds the first line end, and a body is delivered whole in each transfer mode however the
  connection cuts it.
\<close>

section \<open>The buffer is a text\<close>

definition tb_content :: "timed_buffer \<Rightarrow> bytes" where
  "tb_content b = concat (map segment_rest (tb_segments b))"

definition segments_ok :: "timed_segment list \<Rightarrow> bool" where
  "segments_ok ss \<longleftrightarrow> (\<forall>s \<in> set ss. tg_offset s < length (tg_bytes s))"

definition tb_wf :: "timed_buffer \<Rightarrow> bool" where
  "tb_wf b \<longleftrightarrow> segments_ok (tb_segments b) \<and> tb_len b = length (tb_content b)"

lemma tb_wf_new [simp]: "tb_wf timed_buffer_new" "tb_content timed_buffer_new = []"
  by (simp_all add: tb_wf_def segments_ok_def tb_content_def timed_buffer_new_def)

lemma tb_push_content [simp]:
  "tb_content (tb_push bs t b) = tb_content b @ bs" "tb_wf b \<Longrightarrow> tb_wf (tb_push bs t b)"
  by (auto simp: tb_wf_def segments_ok_def tb_push_def tb_content_def segment_rest_def)

lemma tb_is_empty_iff: "tb_wf b \<Longrightarrow> tb_is_empty b \<longleftrightarrow> tb_content b = []"
  by (auto simp: tb_wf_def tb_is_empty_def)

lemma tb_len_content: "tb_wf b \<Longrightarrow> tb_len b = length (tb_content b)"
  by (simp add: tb_wf_def)

lemma take_segment_content:
  assumes "tg_offset s < length (tg_bytes s)" and "n \<le> length (tg_bytes s) - tg_offset s" and "segments_ok ss"
  shows "concat (map segment_rest (take_segment n s ss)) = drop n (segment_rest s) @ concat (map segment_rest ss)"
    "segments_ok (take_segment n s ss)"
  using assms by (auto simp: take_segment_def segment_rest_def segments_ok_def add.commute)

lemma segment_rest_take: "n \<le> length (tg_bytes s) - tg_offset s \<Longrightarrow> take n (segment_rest s @ xs) = take n (segment_rest s)"
  by (simp add: segment_rest_def)

lemma drain_loop_content:
  assumes "segments_ok segments" and "amount \<le> length (concat (map segment_rest segments))"
  shows "\<exists>rest. drain_loop amount segments = Ok (take amount (concat (map segment_rest segments)), rest) \<and>
    segments_ok rest \<and> concat (map segment_rest rest) = drop amount (concat (map segment_rest segments))"
  using assms
proof (induction amount segments rule: drain_loop.induct)
  case (1 amount segments)
  show ?case
  proof (cases "amount = 0 \<or> segments = []")
    case True
    then show ?thesis using 1 by (auto simp: drain_loop.simps)
  next
    case False
    then obtain s ss where c: "segments = s # ss" "amount \<noteq> 0" by (cases segments) auto
    define n where "n = min (length (tg_bytes s) - tg_offset s) amount"
    define D where "D = segment_rest s @ concat (map segment_rest ss)"
    have s: "tg_offset s < length (tg_bytes s)" "segments_ok ss" using 1(2) by (auto simp: c segments_ok_def)
    have n: "n \<le> length (tg_bytes s) - tg_offset s" "n \<le> length (segment_rest s)" "n \<le> amount"
      by (simp_all add: n_def segment_rest_def)
    note t = take_segment_content [OF s(1) n(1) s(2)]
    have whole: "concat (map segment_rest (take_segment n s ss)) = drop n D" using t(1) n(2) by (simp add: D_def)
    have "amount - n \<le> length (drop n D)" using 1(3) n by (simp add: c D_def)
    then obtain rest where r: "drain_loop (amount - n) (take_segment n s ss) = Ok (take (amount - n) (drop n D), rest)"
        "segments_ok rest" "concat (map segment_rest rest) = drop (amount - n) (drop n D)"
      using 1(1) [OF c(2) c(1) _ n_def t(2)] s(1) unfolding whole by auto
    have "take n (segment_rest s) = take n D" using n(2) by (simp add: D_def)
    then have "take n (segment_rest s) @ take (amount - n) (drop n D) = take amount D"
      using n(3) by (metis take_add le_add_diff_inverse)
    then show ?thesis
      using r s(1) n(3) by (subst drain_loop.simps) (simp add: c flip: n_def D_def)
  qed
qed

lemma tb_drain_content:
  assumes "tb_wf b" and "amount \<le> length (tb_content b)"
  obtains b' where "tb_drain_bytes amount b = Ok (take amount (tb_content b), b')" "tb_wf b'"
    "tb_content b' = drop amount (tb_content b)"
proof -
  obtain rest where r: "drain_loop amount (tb_segments b) = Ok (take amount (tb_content b), rest)"
      "segments_ok rest" "concat (map segment_rest rest) = drop amount (tb_content b)"
    using drain_loop_content [of "tb_segments b" amount] assms by (auto simp: tb_wf_def tb_content_def)
  show thesis
    by (rule that [of "b\<lparr>tb_segments := rest, tb_len := tb_len b - amount\<rparr>"])
      (use r assms in \<open>auto simp: tb_drain_bytes_def tb_wf_def tb_content_def\<close>)
qed

lemma tb_pop_content:
  assumes "tb_wf b" and "tb_content b \<noteq> []" and "0 < maximum"
  obtains k seg b' where "tb_pop_segment maximum b = Ok (Some (seg, b'))" "0 < k" "k \<le> maximum"
    "k \<le> length (tb_content b)" "ti_bytes seg = take k (tb_content b)" "tb_wf b'"
    "tb_content b' = drop k (tb_content b)"
proof -
  obtain s ss where c: "tb_segments b = s # ss" using assms(2) by (cases "tb_segments b") (auto simp: tb_content_def)
  let ?n = "min (length (tg_bytes s) - tg_offset s) maximum"
  have s: "tg_offset s < length (tg_bytes s)" "segments_ok ss" using assms(1) by (auto simp: c segments_ok_def tb_wf_def)
  note t = take_segment_content [OF s(1) min.cobounded1 s(2), of maximum]
  have C: "tb_content b = segment_rest s @ concat (map segment_rest ss)" by (simp add: tb_content_def c)
  have n: "?n \<le> length (segment_rest s)" by (simp add: segment_rest_def)
  show thesis
    by (rule that [of "\<lparr>ti_bytes = take ?n (segment_rest s), ti_arrived = tg_arrived s\<rparr>"
          "b\<lparr>tb_segments := take_segment ?n s ss, tb_len := tb_len b - ?n\<rparr>" ?n])
      (use s t n assms in \<open>auto simp: tb_pop_segment_def c Let_def C tb_wf_def segment_rest_take tb_content_def\<close>)
qed

section \<open>The matcher\<close>

definition found_at :: "nat + nat \<times> nat \<Rightarrow> nat option" where
  "found_at r = (case r of Inl i \<Rightarrow> Some i | Inr _ \<Rightarrow> None)"

lemma find_bytes_append:
  "find_bytes needle matched at (xs @ ys) =
     (case find_bytes needle matched at xs of Inl i \<Rightarrow> Inl i | Inr (m, a) \<Rightarrow> find_bytes needle m a ys)"
  by (induction needle matched at xs rule: find_bytes.induct) auto

lemma find_segments_concat:
  "find_segments needle matched at ss = found_at (find_bytes needle matched at (concat (map segment_rest ss)))"
  by (induction needle matched at ss rule: find_segments.induct)
    (auto simp: found_at_def find_bytes_append split: sum.splits)

lemma matcher_CRLF:
  "matched < 2 \<Longrightarrow> matched \<le> at \<Longrightarrow>
   found_at (find_bytes CRLF matched at s) = map_option (\<lambda>i. at + i - matched) (find_sub CRLF (take matched CRLF @ s))"
proof (induction s arbitrary: matched at)
  case Nil
  then show ?case by (cases matched) (auto simp: found_at_def starts_with_def)
next
  case (Cons c s)
  consider "matched = 0" | "matched = 1" using Cons.prems(1) by linarith
  then show ?case
    by cases (use Cons.IH [of 0 "at + 1"] Cons.IH [of 1 "at + 1"] Cons.prems in
        \<open>auto simp: found_at_def starts_with_def option.map_comp o_def split: if_splits\<close>)
qed

lemma matcher_CRLFCRLF:
  "matched < 4 \<Longrightarrow> matched \<le> at \<Longrightarrow>
   found_at (find_bytes CRLFCRLF matched at s) =
     map_option (\<lambda>i. at + i - matched) (find_sub CRLFCRLF (take matched CRLFCRLF @ s))"
proof (induction s arbitrary: matched at)
  case Nil
  consider "matched = 0" | "matched = 1" | "matched = 2" | "matched = 3" using Nil.prems(1) by linarith
  then show ?case by cases (auto simp: found_at_def starts_with_def)
next
  case (Cons c s)
  note ih = Cons.IH [of 0 "at + 1"] Cons.IH [of 1 "at + 1"] Cons.IH [of 2 "at + 1"] Cons.IH [of 3 "at + 1"]
  consider "matched = 0" | "matched = 1" | "matched = 2" | "matched = 3" using Cons.prems(1) by linarith
  then show ?case
    by cases (use ih Cons.prems in
        \<open>auto simp: found_at_def starts_with_def option.map_comp o_def eval_nat_numeral split: if_splits\<close>)
qed

text \<open>Searching the buffer for a line end or for the end of a header block gives the first occurrence in the text
  it holds, however that text is cut into segments: for these two texts the matcher, which after a mismatch
  only looks at whether the byte starts a new match, is as good as a full search.\<close>

theorem tb_find_first:
  "tb_find CRLF b = find_sub CRLF (tb_content b) \<and> tb_find CRLFCRLF b = find_sub CRLFCRLF (tb_content b)"
  using matcher_CRLF [of 0 0 "tb_content b"] matcher_CRLFCRLF [of 0 0 "tb_content b"]
  by (simp add: tb_find_def find_segments_concat tb_content_def option.map_ident)

lemma find_CRLF: "tb_find CRLF b = find_sub CRLF (tb_content b)"
  using matcher_CRLF [of 0 0 "tb_content b"]
  by (simp add: tb_find_def find_segments_concat tb_content_def option.map_ident)

lemma find_CRLFCRLF: "tb_find CRLFCRLF b = find_sub CRLFCRLF (tb_content b)"
  using matcher_CRLFCRLF [of 0 0 "tb_content b"]
  by (simp add: tb_find_def find_segments_concat tb_content_def option.map_ident)

section \<open>Searching a text that has not arrived yet\<close>

lemma starts_with_iff: "starts_with p s \<longleftrightarrow> (\<exists>r. s = p @ r)"
  by (metis starts_with_split append_eq_conv_conj starts_with_def)

lemma find_sub_unique:
  assumes "starts_with needle (drop i s)" and "i \<le> length s" and "\<forall>j < i. \<not> starts_with needle (drop j s)"
  shows "find_sub needle s = Some i"
proof (cases "find_sub needle s")
  case None
  then show ?thesis using find_sub_None assms by blast
next
  case (Some k)
  note k = find_sub_Some [OF Some]
  then have "\<not> k < i" "\<not> i < k" using assms by blast+
  then show ?thesis using Some by simp
qed

text \<open>A delimiter found in the whole is found in a beginning that contains it, and not in a shorter one.\<close>

lemma find_sub_prefix:
  assumes "find_sub needle (p @ q) = Some i"
  shows "find_sub needle p = (if i + length needle \<le> length p then Some i else None)"
proof -
  note whole = find_sub_Some [OF assms]
  have later: "starts_with needle (drop j (p @ q))" if "starts_with needle (drop j p)" "j \<le> length p" for j
    using that by (auto simp: starts_with_iff)
  show ?thesis
  proof (cases "i + length needle \<le> length p")
    case True
    then have "drop i (p @ q) = drop i p @ q" "length needle \<le> length (drop i p)" by auto
    then have "starts_with needle (drop i p)"
      using whole by (simp add: starts_with_def)
    moreover have "\<not> starts_with needle (drop j p)" if "j < i" for j
      using whole later [of j] True that by auto
    ultimately show ?thesis
      using find_sub_unique [of needle i p] True by auto
  next
    case False
    show ?thesis
    proof (cases "find_sub needle p")
      case (Some k)
      note k = find_sub_Some [OF Some]
      then have "\<not> k < i" using whole later by blast
      moreover have "k + length needle \<le> length p"
        using k by (auto simp: starts_with_iff) (metis length_append length_drop le_add1 le_diff_conv2 add.commute)
      ultimately show ?thesis using False by simp
    qed (use False in simp)
  qed
qed

lemma find_CRLF_line: "CHR 0x0D \<notin> set line \<Longrightarrow> find_sub CRLF (line @ CRLF @ rest) = Some (length line)"
  by (induction line) (auto simp: starts_with_def)

section \<open>Reading a connection\<close>

text \<open>A healthy connection has no read errors; what it will still give is a text. An arrival is never empty: a read
  of nothing is the end.\<close>

fun event_text :: "net_event \<Rightarrow> bytes" where
  "event_text (NetBytes bs t) = bs"
| "event_text (NetError e) = []"

definition net_text :: "net_event list \<Rightarrow> bytes" where
  "net_text evs = concat (map event_text evs)"

definition net_ok :: "net_event list \<Rightarrow> bool" where
  "net_ok evs \<longleftrightarrow> (\<forall>ev \<in> set evs. event_text ev \<noteq> [])"

lemma net_text_simps [simp]:
  "net_text [] = []" "net_text (ev # evs) = event_text ev @ net_text evs"
  "net_ok []" "net_ok (ev # evs) \<longleftrightarrow> event_text ev \<noteq> [] \<and> net_ok evs"
  by (simp_all add: net_text_def net_ok_def)

lemma net_text_Nil_iff: "net_ok evs \<Longrightarrow> net_text evs = [] \<longleftrightarrow> evs = []"
  by (cases evs) auto

lemma read_into_ok:
  assumes "net_ok evs" and "tb_wf raw"
  obtains amount evs' raw' n' where "read_into evs raw n = Ok (amount, evs', raw', n')" "net_ok evs'" "tb_wf raw'"
    "tb_content raw' @ net_text evs' = tb_content raw @ net_text evs" "amount = 0 \<longleftrightarrow> net_text evs = []"
proof (cases evs)
  case Nil
  then show thesis
    by (intro that [of 0 "[]" raw n]) (use assms in \<open>auto simp: read_into_def tb_push_def\<close>)
next
  case (Cons ev rest)
  then obtain bs t where ev: "ev = NetBytes bs t" "bs \<noteq> []" using assms(1) by (cases ev) auto
  let ?evs' = "if length bs \<le> READ_BUFFER_BYTES then rest else NetBytes (drop READ_BUFFER_BYTES bs) t # rest"
  have "0 < READ_BUFFER_BYTES" by (simp add: READ_BUFFER_BYTES_def)
  then show thesis
    by (intro that [of "length (take READ_BUFFER_BYTES bs)" ?evs' "tb_push (take READ_BUFFER_BYTES bs) t raw"])
      (use assms ev Cons in \<open>auto simp: read_into_def\<close>)
qed

definition raw_ok :: "http_body \<Rightarrow> bool" where
  "raw_ok b \<longleftrightarrow> tb_wf (hb_raw b) \<and> net_ok (hb_stream b) \<and> (hb_eof b \<longrightarrow> hb_stream b = [])"

definition pending :: "http_body \<Rightarrow> bytes" where
  "pending b = tb_content (hb_raw b) @ net_text (hb_stream b)"

lemma pending_update [simp]:
  "pending (b\<lparr>hb_transfer := m\<rparr>) = pending b" "raw_ok (b\<lparr>hb_transfer := m\<rparr>) = raw_ok b"
  by (simp_all add: pending_def raw_ok_def)

lemma read_more_ok:
  assumes "raw_ok b"
  obtains b1 where "read_more b = Ok b1" "raw_ok b1" "pending b1 = pending b" "hb_transfer b1 = hb_transfer b"
    "hb_eof b1 \<longleftrightarrow> net_text (hb_stream b) = []"
    "hb_eof b1 \<Longrightarrow> tb_content (hb_raw b1) = tb_content (hb_raw b)"
proof (cases "hb_eof b")
  case True
  then show thesis using that [of b] assms by (simp add: read_more_def raw_ok_def)
next
  case False
  obtain amount evs' raw' n' where r: "read_into (hb_stream b) (hb_raw b) (hb_response_bytes b) = Ok (amount, evs', raw', n')"
      "net_ok evs'" "tb_wf raw'" "tb_content raw' @ net_text evs' = pending b" "amount = 0 \<longleftrightarrow> net_text (hb_stream b) = []"
    using read_into_ok [of "hb_stream b" "hb_raw b" "hb_response_bytes b"] assms unfolding raw_ok_def pending_def by metis
  have e: "evs' = []" "tb_content raw' = tb_content (hb_raw b)" if "amount = 0"
  proof -
    have "hb_stream b = []" using that r(5) net_text_Nil_iff assms by (auto simp: raw_ok_def)
    then show "evs' = []" "tb_content raw' = tb_content (hb_raw b)" using r(1) by (auto simp: read_into_def tb_push_def)
  qed
  show thesis
    by (rule that [of "b\<lparr>hb_stream := evs', hb_raw := raw', hb_response_bytes := n', hb_eof := amount = 0\<rparr>"])
      (use r e False in \<open>auto simp: read_more_def raw_ok_def pending_def\<close>)
qed

lemma drain_raw_ok:
  assumes "raw_ok b" and "amount \<le> length (tb_content (hb_raw b))"
  obtains b1 where "drain_raw amount b = Ok (take amount (pending b), b1)" "raw_ok b1"
    "pending b1 = drop amount (pending b)" "hb_transfer b1 = hb_transfer b"
proof -
  obtain raw where r: "tb_drain_bytes amount (hb_raw b) = Ok (take amount (tb_content (hb_raw b)), raw)" "tb_wf raw"
      "tb_content raw = drop amount (tb_content (hb_raw b))"
    using tb_drain_content [OF _ assms(2)] assms(1) by (auto simp: raw_ok_def)
  show thesis
    by (rule that [of "b\<lparr>hb_raw := raw\<rparr>"]) (use r assms in \<open>auto simp: drain_raw_def raw_ok_def pending_def\<close>)
qed

lemma read_raw_exact_ok:
  assumes "raw_ok b" and "amount \<le> length (pending b)"
  shows "\<exists>b1. read_raw_exact amount b = Ok (take amount (pending b), b1) \<and> raw_ok b1 \<and>
    pending b1 = drop amount (pending b) \<and> hb_transfer b1 = hb_transfer b"
  using assms
proof (induction amount b rule: read_raw_exact.induct)
  case (1 amount b)
  have len: "tb_len (hb_raw b) = length (tb_content (hb_raw b))" using 1(2) by (simp add: raw_ok_def tb_wf_def)
  show ?case
  proof (cases "tb_len (hb_raw b) < amount")
    case False
    then show ?thesis
      using drain_raw_ok [OF 1(2), of amount] by (subst read_raw_exact.simps) (metis len not_less)
  next
    case True
    obtain b1 where b1: "read_more b = Ok b1" "raw_ok b1" "pending b1 = pending b" "hb_transfer b1 = hb_transfer b"
        "hb_eof b1 \<longleftrightarrow> net_text (hb_stream b) = []"
      by (rule read_more_ok [OF 1(2)])
    have "\<not> hb_eof b1" using True 1(3) b1(5) by (auto simp: len pending_def)
    then show ?thesis
      using 1(1) [OF True b1(1) _ b1(2)] 1(3) b1 True by (subst read_raw_exact.simps) simp
  qed
qed

lemma read_raw_line_ok:
  assumes "raw_ok b" and "pending b = line @ CRLF @ rest" and "CHR 0x0D \<notin> set line" and "length line < maximum"
  shows "\<exists>b1. read_raw_line maximum b = Ok (line, b1) \<and> raw_ok b1 \<and> pending b1 = rest \<and> hb_transfer b1 = hb_transfer b"
  using assms
proof (induction maximum b rule: read_raw_line.induct)
  case (1 maximum b)
  have len: "tb_len (hb_raw b) = length (tb_content (hb_raw b))" using 1(2) by (simp add: raw_ok_def tb_wf_def)
  have "find_sub CRLF (tb_content (hb_raw b) @ net_text (hb_stream b)) = Some (length line)"
    using find_CRLF_line [OF 1(4)] 1(3) by (simp add: pending_def)
  note at = find_sub_prefix [OF this, folded find_CRLF]
  show ?case
  proof (cases "length line + 2 \<le> tb_len (hb_raw b)")
    case True
    obtain b1 where b1: "drain_raw (length line + 2) b = Ok (take (length line + 2) (pending b), b1)" "raw_ok b1"
        "pending b1 = drop (length line + 2) (pending b)" "hb_transfer b1 = hb_transfer b"
      using drain_raw_ok [OF 1(2), of "length line + 2"] True len by metis
    then show ?thesis
      using at True 1(3,5) by (subst read_raw_line.simps) (simp add: len)
  next
    case False
    obtain b1 where b1: "read_more b = Ok b1" "raw_ok b1" "pending b1 = pending b" "hb_transfer b1 = hb_transfer b"
        "hb_eof b1 \<longleftrightarrow> net_text (hb_stream b) = []"
      by (rule read_more_ok [OF 1(2)])
    have open_: "\<not> hb_eof b1"
    proof
      assume "hb_eof b1"
      then have "tb_content (hb_raw b) = line @ CRLF @ rest" using b1(5) 1(3) by (simp add: pending_def)
      then show False using False by (simp add: len)
    qed
    have none: "tb_find CRLF (hb_raw b) = None" using at False by (simp add: len)
    have short: "\<not> maximum < tb_len (hb_raw b)" using False 1(5) by simp
    show ?thesis
      using 1(1) [OF none short b1(1) open_ b1(2) _ 1(4,5)] 1(3) b1 open_ none short
      by (subst read_raw_line.simps) simp
  qed
qed

lemma fill_raw_ok:
  assumes "raw_ok b" and "pending b \<noteq> []"
  obtains b1 where "fill_raw closed b = Ok b1" "raw_ok b1" "pending b1 = pending b" "tb_content (hb_raw b1) \<noteq> []"
proof (cases "tb_content (hb_raw b) = []")
  case True
  obtain b1 where b1: "read_more b = Ok b1" "raw_ok b1" "pending b1 = pending b" "hb_eof b1 \<longleftrightarrow> net_text (hb_stream b) = []"
    by (rule read_more_ok [OF assms(1)])
  have more: "net_text (hb_stream b) \<noteq> []" "\<not> hb_eof b" using assms True by (auto simp: pending_def raw_ok_def)
  obtain amount evs' raw' n' where r: "read_into (hb_stream b) (hb_raw b) (hb_response_bytes b) = Ok (amount, evs', raw', n')"
      "amount = 0 \<longleftrightarrow> net_text (hb_stream b) = []"
    using read_into_ok [of "hb_stream b" "hb_raw b" "hb_response_bytes b"] assms(1) unfolding raw_ok_def by metis
  have "tb_content (hb_raw b1) \<noteq> []"
    using b1(1) r more by (auto simp: read_more_def read_into_def and_then_Ok_iff)
  then show thesis
    using that [of b1] b1 more True assms(1) by (simp add: fill_raw_def tb_is_empty_iff raw_ok_def)
next
  case False
  then show thesis
    using that [of b] assms by (simp add: fill_raw_def tb_is_empty_iff raw_ok_def)
qed

lemma pop_raw_ok:
  assumes "raw_ok b" and "tb_content (hb_raw b) \<noteq> []" and "0 < maximum"
  obtains k seg b1 where "pop_raw maximum b = Ok (seg, b1)" "0 < k" "k \<le> maximum" "k \<le> length (pending b)"
    "ti_bytes seg = take k (pending b)" "raw_ok b1" "pending b1 = drop k (pending b)"
proof -
  have wf: "tb_wf (hb_raw b)" using assms(1) by (simp add: raw_ok_def)
  obtain k seg raw where r: "tb_pop_segment maximum (hb_raw b) = Ok (Some (seg, raw))" "0 < k" "k \<le> maximum"
      "k \<le> length (tb_content (hb_raw b))" "ti_bytes seg = take k (tb_content (hb_raw b))" "tb_wf raw"
      "tb_content raw = drop k (tb_content (hb_raw b))"
    using tb_pop_content [OF wf assms(2,3)] by metis
  show thesis
    by (rule that [of seg "b\<lparr>hb_raw := raw\<rparr>" k]) (use r assms in \<open>auto simp: pop_raw_def raw_ok_def pending_def\<close>)
qed

section \<open>Delivery of a body\<close>

text \<open>A body delivers a text when its segments are the non-empty pieces of it, in order, and then it ends.\<close>

inductive gives :: "bench_error + timed_bytes option \<times> http_body \<Rightarrow> bytes \<Rightarrow> bool" where
  gives_end: "gives (Ok (None, b)) []"
| gives_more: "ti_bytes seg \<noteq> [] \<Longrightarrow> gives (next_segment b) rest \<Longrightarrow> gives (Ok (Some seg, b)) (ti_bytes seg @ rest)"

definition delivers :: "http_body \<Rightarrow> bytes \<Rightarrow> bool" where
  "delivers b body \<longleftrightarrow> gives (next_segment b) body"

lemma delivers_end: "next_segment b = Ok (None, b') \<Longrightarrow> delivers b []"
  by (simp add: delivers_def gives_end)

lemma delivers_more:
  "next_segment b = Ok (Some seg, b') \<Longrightarrow> ti_bytes seg \<noteq> [] \<Longrightarrow> delivers b' rest \<Longrightarrow> delivers b (ti_bytes seg @ rest)"
  by (simp add: delivers_def gives_more)

lemma delivers_cases:
  assumes "delivers b body"
  obtains b' where "next_segment b = Ok (None, b')" "body = []"
  | seg b' rest where "next_segment b = Ok (Some seg, b')" "ti_bytes seg \<noteq> []" "delivers b' rest" "body = ti_bytes seg @ rest"
  using assms by (auto simp: delivers_def elim: gives.cases)

lemma content_length_delivers:
  assumes "raw_ok b" and "hb_transfer b = ContentLength (length (pending b))"
  shows "delivers b (pending b)"
  using assms
proof (induction "length (pending b)" arbitrary: b rule: less_induct)
  case less
  show ?case
  proof (cases "pending b = []")
    case True
    then have "tb_is_empty (hb_raw b)" using less.prems(1) by (simp add: tb_is_empty_iff raw_ok_def pending_def)
    then have "next_segment b = Ok (None, b\<lparr>hb_transfer := ContentLength 0\<rparr>)"
      using less.prems True by (simp add: next_segment_def next_content_length_def)
    then show ?thesis using True delivers_end by simp
  next
    case False
    obtain b1 where b1: "fill_raw ''connection closed before Content-Length bytes arrived'' b = Ok b1" "raw_ok b1"
        "pending b1 = pending b" "tb_content (hb_raw b1) \<noteq> []"
      by (rule fill_raw_ok [OF less.prems(1) False])
    have some: "0 < length (pending b)" using False by simp
    obtain k seg b2 where b2: "pop_raw (length (pending b)) b1 = Ok (seg, b2)" "0 < k" "k \<le> length (pending b1)"
        "ti_bytes seg = take k (pending b1)" "raw_ok b2" "pending b2 = drop k (pending b1)"
      using pop_raw_ok [OF b1(2,4) some] by metis
    let ?b3 = "b2\<lparr>hb_transfer := ContentLength (length (pending b2))\<rparr>"
    have n: "next_segment b = Ok (Some seg, ?b3)"
      using b1 b2 False less.prems(2) by (simp add: next_segment_def next_content_length_def)
    have "delivers ?b3 (pending ?b3)" by (rule less.hyps) (use b1 b2 in auto)
    then show ?thesis
      using delivers_more [OF n, of "pending b2"] b1 b2 False by simp
  qed
qed

lemma close_delimited_delivers:
  assumes "raw_ok b" and "hb_transfer b = CloseDelimited"
  shows "delivers b (pending b)"
  using assms
proof (induction "length (pending b)" arbitrary: b rule: less_induct)
  case less
  have wf: "tb_wf (hb_raw b)" using less.prems(1) by (simp add: raw_ok_def)
  obtain b1 where b1: "(if tb_is_empty (hb_raw b) then read_more b else Ok b) = Ok b1" "raw_ok b1" "pending b1 = pending b"
      "tb_is_empty (hb_raw b) \<and> hb_eof b1 \<longleftrightarrow> pending b = []"
  proof (cases "tb_is_empty (hb_raw b)")
    case True
    then show thesis
      using read_more_ok [OF less.prems(1)] that tb_is_empty_iff [OF wf] by (metis append_self_conv2 pending_def)
  next
    case False
    then show thesis using that [of b] less.prems(1) tb_is_empty_iff [OF wf] by (simp add: pending_def)
  qed
  show ?case
  proof (cases "pending b = []")
    case True
    then have "next_segment b = Ok (None, b1\<lparr>hb_transfer := CloseDelimited\<rparr>)"
      using b1 less.prems(2) by (simp add: next_segment_def next_close_delimited_def)
    then show ?thesis using True delivers_end by simp
  next
    case False
    have "tb_content (hb_raw b1) \<noteq> []"
    proof (cases "tb_is_empty (hb_raw b)")
      case True
      then obtain b' where "fill_raw [] b = Ok b'" "tb_content (hb_raw b') \<noteq> []"
        using fill_raw_ok [OF less.prems(1) False] by metis
      then show ?thesis using True b1(1) by (auto simp: fill_raw_def split: if_splits)
    qed (use b1(1) tb_is_empty_iff [OF wf] in simp)
    moreover have some: "0 < usize_max" by (simp add: usize_max_def)
    ultimately obtain k seg b2 where b2: "pop_raw usize_max b1 = Ok (seg, b2)" "0 < k" "k \<le> length (pending b1)"
        "ti_bytes seg = take k (pending b1)" "raw_ok b2" "pending b2 = drop k (pending b1)"
      using pop_raw_ok [OF b1(2) _ some] by metis
    let ?b3 = "b2\<lparr>hb_transfer := CloseDelimited\<rparr>"
    have n: "next_segment b = Ok (Some seg, ?b3)"
      using b1(1,4) b2(1) False less.prems(2)
      by (auto simp: next_segment_def next_close_delimited_def pop_raw_def and_then_Ok_iff split: option.splits)
    have "delivers ?b3 (pending ?b3)" by (rule less.hyps) (use b1 b2 False in auto)
    then show ?thesis using delivers_more [OF n, of "pending b2"] b1 b2 False by simp
  qed
qed

text \<open>The chunked coding of a body: chunks, each after a line with its size and before a line end, then a chunk of
  size zero and the trailer fields.\<close>

definition framing_line :: "nat \<Rightarrow> bytes \<Rightarrow> bool" where
  "framing_line maximum line \<longleftrightarrow> CHR 0x0D \<notin> set line \<and> length line < maximum"

fun trailer_text :: "bytes list \<Rightarrow> bytes" where
  "trailer_text [] = CRLF"
| "trailer_text (t # ts) = t @ CRLF @ trailer_text ts"

definition trailer_ok :: "bytes \<Rightarrow> bool" where
  "trailer_ok t \<longleftrightarrow> framing_line MAX_HEADER_BYTES t \<and> CHR '':'' \<in> set t"

inductive chunked_text :: "bytes \<Rightarrow> bytes \<Rightarrow> bool" where
  chunked_end: "framing_line MAX_CHUNK_LINE_BYTES line \<Longrightarrow> chunk_size line = Ok 0 \<Longrightarrow> list_all trailer_ok ts \<Longrightarrow>
    chunked_text (line @ CRLF @ trailer_text ts) []"
| chunked_more: "framing_line MAX_CHUNK_LINE_BYTES line \<Longrightarrow> chunk_size line = Ok (length c) \<Longrightarrow> c \<noteq> [] \<Longrightarrow>
    chunked_text rest body \<Longrightarrow> chunked_text (line @ CRLF @ c @ CRLF @ rest) (c @ body)"

lemma trailers_delivered:
  "raw_ok b \<Longrightarrow> pending b = trailer_text ts \<Longrightarrow> list_all trailer_ok ts \<Longrightarrow> gives (next_chunked ChunkTrailers b) []"
proof (induction ts arbitrary: b)
  case Nil
  have "0 < MAX_HEADER_BYTES" by (simp add: MAX_HEADER_BYTES_def)
  then obtain b1 where b1: "read_raw_line MAX_HEADER_BYTES b = Ok ([], b1)" "raw_ok b1" "pending b1 = []"
    using read_raw_line_ok [OF Nil.prems(1), of "[]" "[]"] Nil.prems(2) by auto
  then have "tb_is_empty (hb_raw b1)" by (simp add: tb_is_empty_iff raw_ok_def pending_def)
  then show ?case using b1(1) by (simp add: next_chunked.simps(4,5) gives_end)
next
  case (Cons t ts)
  then obtain b1 where b1: "read_raw_line MAX_HEADER_BYTES b = Ok (t, b1)" "raw_ok b1" "pending b1 = trailer_text ts"
    using read_raw_line_ok [OF Cons.prems(1), of t "trailer_text ts"] by (auto simp: trailer_ok_def framing_line_def)
  then show ?case
    using Cons.IH [OF b1(2,3)] Cons.prems(3) by (simp add: next_chunked.simps(4)) (auto simp: trailer_ok_def)
qed

lemma chunk_delivered:
  assumes rest: "\<And>b. raw_ok b \<Longrightarrow> pending b = rest \<Longrightarrow> gives (next_chunked ChunkSize b) body"
  shows "raw_ok b \<Longrightarrow> pending b = c @ CRLF @ rest \<Longrightarrow> gives (next_chunked (ChunkData (length c)) b) (c @ body)"
proof (induction "length c" arbitrary: c b rule: less_induct)
  case less
  show ?case
  proof (cases "c = []")
    case True
    obtain b1 where b1: "read_raw_exact 2 b = Ok (CRLF, b1)" "raw_ok b1" "pending b1 = rest"
      using read_raw_exact_ok [OF less.prems(1), of 2] less.prems(2) True by auto
    then show ?thesis using rest True by (simp add: next_chunked.simps(2,3))
  next
    case False
    then have some: "0 < length c" "pending b \<noteq> []" using less.prems(2) by auto
    obtain b1 where b1: "fill_raw ''connection closed inside a chunk'' b = Ok b1" "raw_ok b1" "pending b1 = pending b"
        "tb_content (hb_raw b1) \<noteq> []"
      by (rule fill_raw_ok [OF less.prems(1) some(2)])
    obtain k seg b2 where b2: "pop_raw (length c) b1 = Ok (seg, b2)" "0 < k" "k \<le> length c"
        "ti_bytes seg = take k (pending b1)" "raw_ok b2" "pending b2 = drop k (pending b1)"
      using pop_raw_ok [OF b1(2,4) some(1)] by metis
    have seg: "ti_bytes seg = take k c" "length (ti_bytes seg) = k" using b2(3,4) b1(3) less.prems(2) by simp_all
    let ?b3 = "b2\<lparr>hb_transfer := Chunked (ChunkData (length (drop k c)))\<rparr>"
    have n: "next_chunked (ChunkData (length c)) b = Ok (Some seg, ?b3)"
      using b1(1) b2(1) False seg(2) by (simp add: next_chunked.simps(2))
    have "gives (next_chunked (ChunkData (length (drop k c))) ?b3) (drop k c @ body)"
      by (rule less.hyps) (use b1 b2 less.prems(2) some in auto)
    then have "gives (next_segment ?b3) (drop k c @ body)" by (simp add: next_segment_def)
    moreover have "ti_bytes seg \<noteq> []" using seg(2) b2(2) by auto
    ultimately have "gives (Ok (Some seg, ?b3)) (ti_bytes seg @ drop k c @ body)" by (intro gives_more)
    then show ?thesis unfolding n seg(1) by (simp flip: append_assoc)
  qed
qed

lemma chunked_delivers:
  assumes "chunked_text framed body" and "raw_ok b" and "pending b = framed"
  shows "gives (next_chunked ChunkSize b) body"
  using assms
proof (induction arbitrary: b rule: chunked_text.induct)
  case (chunked_end line ts)
  then obtain b1 where "read_raw_line MAX_CHUNK_LINE_BYTES b = Ok (line, b1)" "raw_ok b1" "pending b1 = trailer_text ts"
    using read_raw_line_ok [OF chunked_end.prems(1)] unfolding framing_line_def by blast
  then show ?case
    using trailers_delivered chunked_end.hyps by (simp add: next_chunked.simps(1))
next
  case (chunked_more line c rest body)
  then obtain b1 where "read_raw_line MAX_CHUNK_LINE_BYTES b = Ok (line, b1)" "raw_ok b1" "pending b1 = c @ CRLF @ rest"
    using read_raw_line_ok [OF chunked_more.prems(1)] unfolding framing_line_def by blast
  then show ?case
    using chunk_delivered [of rest body b1 c] chunked_more.IH chunked_more.hyps by (simp add: next_chunked.simps(1))
qed

section \<open>A whole response\<close>

lemma find_sub_extend: "find_sub needle p = Some i \<Longrightarrow> find_sub needle (p @ q) = Some i"
proof (rule find_sub_unique)
  assume f: "find_sub needle p = Some i"
  note k = find_sub_Some [OF f]
  show "starts_with needle (drop i (p @ q))" using k by (auto simp: starts_with_iff)
  show "i \<le> length (p @ q)" using k by simp
  show "\<forall>j < i. \<not> starts_with needle (drop j (p @ q))"
  proof (intro allI impI notI)
    fix j assume j: "j < i" "starts_with needle (drop j (p @ q))"
    have "length needle \<le> length p - i" using k by (auto simp: starts_with_iff) (metis le_add1 length_append length_drop)
    then have "starts_with needle (drop j p)" using j k by (simp add: starts_with_def)
    then show False using k j(1) by blast
  qed
qed

definition framed :: "transfer_mode \<Rightarrow> bytes \<Rightarrow> bytes \<Rightarrow> bool" where
  "framed transfer s body =
     (case transfer of
        ContentLength n \<Rightarrow> s = body \<and> length body = n
      | CloseDelimited \<Rightarrow> s = body
      | Chunked state \<Rightarrow> state = ChunkSize \<and> chunked_text s body)"

lemma framed_delivers:
  assumes "raw_ok b" and "framed (hb_transfer b) (pending b) body"
  shows "delivers b body"
  using assms content_length_delivers close_delimited_delivers chunked_delivers
  by (auto simp: framed_def delivers_def next_segment_def split: transfer_mode.splits)

lemma read_head_loop_ok:
  assumes "net_ok evs" and "tb_wf raw" and "tb_content raw @ net_text evs = head @ CRLFCRLF @ rest"
    and "find_sub CRLFCRLF (head @ CRLFCRLF) = Some (length head)" and "length head + 4 \<le> MAX_HEADER_BYTES"
    and "parse_head (head @ CRLFCRLF) = Ok h" and "select_transfer h = Ok transfer"
  shows "\<exists>b. read_head_loop evs raw n = Ok (h, b) \<and> raw_ok b \<and> pending b = rest \<and> hb_transfer b = transfer"
  using assms
proof (induction evs raw n rule: read_head_loop.induct)
  case (1 evs raw n)
  have "find_sub CRLFCRLF (tb_content raw @ net_text evs) = Some (length head)"
    using find_sub_extend [OF 1(5), of rest] 1(4) by simp
  note at = find_sub_prefix [OF this, folded find_CRLFCRLF]
  have len: "tb_len raw = length (tb_content raw)" using 1(3) by (simp add: tb_wf_def)
  show ?case
  proof (cases "length head + 4 \<le> tb_len raw")
    case True
    obtain raw1 where r: "tb_drain_bytes (length head + 4) raw = Ok (take (length head + 4) (tb_content raw), raw1)" "tb_wf raw1"
        "tb_content raw1 = drop (length head + 4) (tb_content raw)"
      using tb_drain_content [OF 1(3)] True len by metis
    have "take (length head + 4) (tb_content raw) = head @ CRLFCRLF" "tb_content raw1 @ net_text evs = rest"
      using arg_cong [OF 1(4), of "take (length head + 4)"] arg_cong [OF 1(4), of "drop (length head + 4)"] True
      by (simp_all add: len r(3))
    then show ?thesis
      using at True r 1(2,7,8) by (subst read_head_loop.simps) (simp add: len raw_ok_def pending_def)
  next
    case False
    have none: "tb_find CRLFCRLF raw = None" using at False by (simp add: len)
    have short: "\<not> MAX_HEADER_BYTES \<le> tb_len raw" using False 1(6) by simp
    obtain amount evs' raw' n' where r: "read_into evs raw n = Ok (amount, evs', raw', n')" "net_ok evs'" "tb_wf raw'"
        "tb_content raw' @ net_text evs' = tb_content raw @ net_text evs" "amount = 0 \<longleftrightarrow> net_text evs = []"
      using read_into_ok [OF 1(2,3), of n] by metis
    have more: "amount \<noteq> 0" using r(5) False 1(4) arg_cong [OF 1(4), of length] by (auto simp: len)
    show ?thesis
      using 1(1) [OF none short r(1) refl refl refl more r(2,3) _ 1(5-8)] r(1,4) 1(4) none short more
      by (subst read_head_loop.simps) simp
  qed
qed

text \<open>C36: a response is read whole and unchanged, however its bytes are cut into arrivals: once its head parses, the
  segments the client takes from the body put together are exactly the text that the declared framing carries (a
  content length, the end of the connection, or chunks with extensions and trailers), and then the body ends.\<close>

theorem response_read_whole:
  assumes "net_ok evs" and "net_text evs = head @ CRLFCRLF @ rest"
    and "find_sub CRLFCRLF (head @ CRLFCRLF) = Some (length head)" and "length head + 4 \<le> MAX_HEADER_BYTES"
    and "parse_head (head @ CRLFCRLF) = Ok h" and "select_transfer h = Ok transfer" and "framed transfer rest body"
  shows "\<exists>b. read_head evs = Ok (h, b) \<and> delivers b body"
proof -
  obtain b where "read_head_loop evs timed_buffer_new 0 = Ok (h, b)" "raw_ok b" "pending b = rest" "hb_transfer b = transfer"
    using read_head_loop_ok [OF assms(1) _ _ assms(3-6), of timed_buffer_new rest 0] assms(2) by auto
  then show ?thesis using framed_delivers [of b body] assms(7) by (auto simp: read_head_def)
qed

definition example_head :: bytes where
  "example_head = ''HTTP/1.1 200 OK'' @ CRLF @ ''Transfer-Encoding: chunked''"

definition example_arrivals :: "net_event list" where
  "example_arrivals = [NetBytes (example_head @ [CHR 0x0D]) 1, NetBytes (drop 1 CRLFCRLF @ ''3;x=1'' @ CRLF @ ''ab'') 2,
     NetBytes (''c'' @ CRLF @ ''0'' @ CRLF @ ''A: b'' @ CRLFCRLF) 3]"

lemma example_head_parsed:
  "parse_head (example_head @ CRLFCRLF) = Ok \<lparr>rh_status = 200, rh_headers = [''transfer-encoding'' \<mapsto> ''chunked'']\<rparr>"
proof -
  have parts: "split_once (CHR '':'') ''Transfer-Encoding: chunked'' = Some (''Transfer-Encoding'', '' chunked'')"
    "trim '' chunked'' = ''chunked''" "to_ascii_lower ''Transfer-Encoding'' = ''transfer-encoding''"
    by code_simp+
  have lines: "parse_head_lines [''Transfer-Encoding: chunked''] Map.empty = Ok [''transfer-encoding'' \<mapsto> ''chunked'']"
    by (simp add: folded_line_def append_header_def parts is_header_name_byte_def is_ascii_alphanumeric_def
        is_digit_def bv_def)
  have "utf8_valid (example_head @ CRLFCRLF)"
    "split_on CRLF [] example_head = [''HTTP/1.1 200 OK'', ''Transfer-Encoding: chunked'']"
    "split_whitespace ''HTTP/1.1 200 OK'' = [''HTTP/1.1'', ''200'', ''OK'']"
    by code_simp+
  moreover have "parse_unsigned 65535 ''200'' = Some 200" by (simp add: parse_unsigned_def is_digit_def bv_def)
  ultimately show ?thesis using lines by (simp add: parse_head_def ok_or_def)
qed

lemma example_transfer:
  "select_transfer \<lparr>rh_status = 200, rh_headers = [''transfer-encoding'' \<mapsto> ''chunked'']\<rparr> = Ok (Chunked ChunkSize)"
proof -
  have "to_ascii_lower ''transfer-encoding'' = ''transfer-encoding''" "to_ascii_lower ''content-length'' = ''content-length''"
    "map (\<lambda>item. to_ascii_lower (trim item)) (split_on '','' [] ''chunked'') = [''chunked'']"
    by code_simp+
  then show ?thesis by (simp add: select_transfer_def head_header_def)
qed

lemma framing_line_short: "CHR 0x0D \<notin> set line \<Longrightarrow> length line < 100 \<Longrightarrow> framing_line MAX_CHUNK_LINE_BYTES line"
  "CHR 0x0D \<notin> set line \<Longrightarrow> length line < 100 \<Longrightarrow> framing_line MAX_HEADER_BYTES line"
  by (simp_all add: framing_line_def MAX_CHUNK_LINE_BYTES_def MAX_HEADER_BYTES_def)

lemma example_chunk_sizes: "chunk_size ''0'' = Ok 0" "chunk_size ''3;x=1'' = Ok 3"
proof -
  have "trim ''0'' = ''0''" "trim ''3'' = ''3''" "utf8_valid ''0''" "utf8_valid ''3''" by code_simp+
  then show "chunk_size ''0'' = Ok 0" "chunk_size ''3;x=1'' = Ok 3"
    by (simp_all add: chunk_size_def parse_hex_u64_def hex_value_def is_digit_def bv_def ok_or_def u64_max_def)
qed

lemma response_read_whole_witness:
  "\<exists>h b. read_head example_arrivals = Ok (h, b) \<and> delivers b ''abc''"
proof -
  let ?rest = "''3;x=1'' @ CRLF @ ''abc'' @ CRLF @ ''0'' @ CRLF @ trailer_text [''A: b'']"
  have "chunked_text (''0'' @ CRLF @ trailer_text [''A: b'']) []"
    by (rule chunked_end) (simp_all add: framing_line_short example_chunk_sizes trailer_ok_def)
  then have "chunked_text ?rest (''abc'' @ [])"
    by (intro chunked_more) (simp_all add: framing_line_short example_chunk_sizes)
  then have f: "framed (Chunked ChunkSize) ?rest ''abc''" by (simp add: framed_def)
  have t: "net_ok example_arrivals" "net_text example_arrivals = example_head @ CRLFCRLF @ ?rest"
    by (simp_all add: example_arrivals_def)
  have s: "find_sub CRLFCRLF (example_head @ CRLFCRLF) = Some (length example_head)" "length example_head + 4 \<le> MAX_HEADER_BYTES"
    by (simp_all add: example_head_def starts_with_def MAX_HEADER_BYTES_def)
  show ?thesis using response_read_whole [OF t s example_head_parsed example_transfer f] by blast
qed

end
