(* ===== verification/HbMultipart.thy ===== *)
theory HbMultipart
  imports HbBody
begin

text \<open>
  \<open>multipart.rs\<close> of \<open>qwen3-tts-http-bench\<close>: the reader of a multipart body over an HTTP body, and the
  boundary of a content type.
\<close>

definition MAX_PART_HEADER_BYTES :: nat where "MAX_PART_HEADER_BYTES = 64 * 1024"
definition MAX_PART_PAYLOAD_BYTES :: nat where "MAX_PART_PAYLOAD_BYTES = 512 * 1024 * 1024"

record body_part =
  pt_headers :: header_map
  pt_payload :: bytes
  pt_first_payload_at :: "instant option"

definition part_header :: "bytes \<Rightarrow> body_part \<Rightarrow> bytes option" where
  "part_header name p = pt_headers p (to_ascii_lower name)"

record multipart_reader =
  mr_body :: http_body
  mr_buffer :: timed_buffer
  mr_boundary_line :: bytes
  mr_closing_boundary_line :: bytes
  mr_started :: bool
  mr_finished :: bool

definition multipart_reader_new :: "http_body \<Rightarrow> bytes \<Rightarrow> multipart_reader" where
  "multipart_reader_new b boundary =
     \<lparr>mr_body = b, mr_buffer = timed_buffer_new, mr_boundary_line = ''--'' @ boundary,
      mr_closing_boundary_line = ''--'' @ boundary @ ''--'', mr_started = False, mr_finished = False\<rparr>"

section \<open>A body comes to its end\<close>

text \<open>The measure of the reader's loops: every segment taken makes it smaller.\<close>

definition rest_size :: "http_body \<Rightarrow> nat" where
  "rest_size b = 2 * net_size (hb_stream b) + tb_len (hb_raw b) + length (tb_segments (hb_raw b))"

lemma read_more_rest: "read_more b = Ok b1 \<Longrightarrow> rest_size b1 \<le> rest_size b"
  by (auto simp: read_more_def read_into_def and_then_Ok_iff rest_size_def tb_push_def split: if_splits
      dest!: tcp_read_size)

lemma read_more_some: "read_more b = Ok b1 \<Longrightarrow> \<not> hb_eof b1 \<Longrightarrow> tb_len (hb_raw b1) \<noteq> 0"
  by (auto simp: read_more_def read_into_def and_then_Ok_iff tb_push_def split: if_splits)

lemma take_segment_length: "length (take_segment n s ss) \<le> Suc (length ss)"
  by (simp add: take_segment_def)

lemma drain_loop_length: "drain_loop n ss = Ok (out, rest) \<Longrightarrow> length rest \<le> length ss"
proof (induction n ss arbitrary: out rest rule: drain_loop.induct)
  case (1 n ss)
  show ?case
  proof (cases "n = 0 \<or> ss = []")
    case True
    then show ?thesis using 1(2) by (subst (asm) drain_loop.simps) (auto split: if_splits list.splits)
  next
    case False
    then obtain s tail where c: "ss = s # tail" by (cases ss) auto
    let ?k = "min (length (tg_bytes s) - tg_offset s) n"
    obtain out' where "\<not> length (tg_bytes s) < tg_offset s" "drain_loop (n - ?k) (take_segment ?k s tail) = Ok (out', rest)"
      using 1(2) False by (subst (asm) drain_loop.simps) (auto simp: c Let_def and_then_Ok_iff split: if_splits)
    then show ?thesis
      using 1(1) [OF _ c _ refl] False take_segment_length [of ?k s tail] unfolding c by fastforce
  qed
qed

lemma drain_raw_rest: "drain_raw n b = Ok (out, b1) \<Longrightarrow> rest_size b1 \<le> rest_size b"
  by (auto simp: drain_raw_def tb_drain_bytes_def and_then_Ok_iff rest_size_def split: if_splits
      dest!: drain_loop_length)

lemma read_raw_exact_rest: "read_raw_exact n b = Ok (out, b1) \<Longrightarrow> rest_size b1 \<le> rest_size b"
proof (induction n b rule: read_raw_exact.induct)
  case (1 n b)
  then show ?case
    by (subst (asm) (2) read_raw_exact.simps)
      (fastforce simp: and_then_Ok_iff split: if_splits dest: drain_raw_rest read_more_rest)
qed

lemma read_raw_line_rest: "read_raw_line maximum b = Ok (out, b1) \<Longrightarrow> rest_size b1 \<le> rest_size b"
proof (induction maximum b rule: read_raw_line.induct)
  case (1 maximum b)
  then show ?case
    by (subst (asm) (2) read_raw_line.simps)
      (fastforce simp: and_then_Ok_iff split: if_splits option.splits dest: drain_raw_rest read_more_rest)
qed

lemma tb_pop_smaller:
  assumes "tb_pop_segment maximum raw = Ok (Some (seg, raw1))" and "0 < tb_len raw" and "0 < maximum"
  shows "tb_len raw1 + length (tb_segments raw1) < tb_len raw + length (tb_segments raw)"
    "tb_len raw1 \<le> tb_len raw"
  using assms by (auto simp: tb_pop_segment_def Let_def take_segment_def min_def split: list.splits if_splits)

lemma fill_raw_rest: "fill_raw m b = Ok b1 \<Longrightarrow> rest_size b1 \<le> rest_size b \<and> tb_len (hb_raw b1) \<noteq> 0"
  by (auto simp: fill_raw_def tb_is_empty_def and_then_Ok_iff split: if_splits dest: read_more_rest read_more_some)

lemma pop_raw_rest:
  assumes "pop_raw maximum b = Ok (seg, b1)" and "tb_len (hb_raw b) \<noteq> 0" and "0 < maximum"
  shows "rest_size b1 < rest_size b"
proof -
  obtain raw where "tb_pop_segment maximum (hb_raw b) = Ok (Some (seg, raw))" "b1 = b\<lparr>hb_raw := raw\<rparr>"
    using assms(1) by (auto simp: pop_raw_def and_then_Ok_iff split: option.splits)
  then show ?thesis using tb_pop_smaller(1) [of maximum "hb_raw b" seg raw] assms(2,3) by (simp add: rest_size_def)
qed

lemma rest_size_transfer [simp]: "rest_size (b\<lparr>hb_transfer := m\<rparr>) = rest_size b"
  by (simp add: rest_size_def)

lemma next_chunked_smaller: "next_chunked state b = Ok (Some seg, b1) \<Longrightarrow> rest_size b1 < rest_size b"
proof (induction state b rule: next_chunked.induct)
  case (1 b)
  obtain line b2 n where a: "read_raw_line MAX_CHUNK_LINE_BYTES b = Ok (line, b2)" "chunk_size line = Ok n"
      "next_chunked (if n = 0 then ChunkTrailers else ChunkData n) b2 = Ok (Some seg, b1)"
    using "1.prems" by (auto simp: next_chunked.simps(1) and_then_Ok_iff)
  then show ?case using "1.IH" [OF a(1) refl a(2,3)] read_raw_line_rest [OF a(1)] by linarith
next
  case (2 remaining b)
  then show ?case
    by (cases "remaining = 0") (auto simp: next_chunked.simps(2) and_then_Ok_iff dest!: fill_raw_rest dest: pop_raw_rest)
next
  case (3 b)
  obtain b2 where a: "read_raw_exact 2 b = Ok (CRLF, b2)" "next_chunked ChunkSize b2 = Ok (Some seg, b1)"
    using "3.prems" by (auto simp: next_chunked.simps(3) and_then_Ok_iff split: if_splits)
  then show ?case using "3.IH" [OF a(1) refl _ a(2)] read_raw_exact_rest [OF a(1)] by simp
next
  case (4 b)
  obtain line b2 where a: "read_raw_line MAX_HEADER_BYTES b = Ok (line, b2)"
    using "4.prems" by (auto simp: next_chunked.simps(4) and_then_Ok_iff)
  note less = read_raw_line_rest [OF a]
  show ?case
  proof (cases "line = []")
    case True
    then have "next_chunked ChunkEnd b2 = Ok (Some seg, b1)" using "4.prems" by (simp add: next_chunked.simps(4) a)
    then show ?thesis by (simp add: next_chunked.simps(5) split: if_splits)
  next
    case False
    then have t: "CHR '':'' \<in> set line" "next_chunked ChunkTrailers b2 = Ok (Some seg, b1)"
      using "4.prems" by (simp_all add: next_chunked.simps(4) a split: if_splits)
    then show ?thesis using "4.IH"(2) [OF a refl False] less by simp
  qed
next
  case (5 b)
  then show ?case by (simp add: next_chunked.simps(5) split: if_splits)
qed

lemma next_segment_smaller: "next_segment b = Ok (Some seg, b1) \<Longrightarrow> rest_size b1 < rest_size b"
proof (cases "hb_transfer b")
  case (ContentLength n)
  then show "next_segment b = Ok (Some seg, b1) \<Longrightarrow> rest_size b1 < rest_size b"
    by (fastforce simp: next_segment_def next_content_length_def and_then_Ok_iff split: if_splits
        dest: fill_raw_rest pop_raw_rest)
next
  case CloseDelimited
  assume "next_segment b = Ok (Some seg, b1)"
  then obtain b2 raw where b2: "(if tb_is_empty (hb_raw b) then read_more b else Ok b) = Ok b2"
      "\<not> (tb_is_empty (hb_raw b) \<and> hb_eof b2)" "tb_pop_segment usize_max (hb_raw b2) = Ok (Some (seg, raw))"
      "b1 = b2\<lparr>hb_raw := raw, hb_transfer := CloseDelimited\<rparr>"
    using CloseDelimited
    by (auto simp: next_segment_def next_close_delimited_def and_then_Ok_iff split: if_splits option.splits)
  then have "rest_size b2 \<le> rest_size b" "tb_len (hb_raw b2) \<noteq> 0"
    by (auto simp: tb_is_empty_def split: if_splits dest: read_more_rest read_more_some)
  then show ?thesis
    using tb_pop_smaller(1) [OF b2(3)] by (simp add: b2(4) rest_size_def usize_max_def)
qed (simp add: next_segment_def next_chunked_smaller)

section \<open>Reading from the buffer\<close>

definition reader_push :: "timed_bytes \<Rightarrow> http_body \<Rightarrow> multipart_reader \<Rightarrow> multipart_reader" where
  "reader_push seg b r =
     r\<lparr>mr_body := b, mr_buffer := tb_push (ti_bytes seg) (ti_arrived seg) (mr_buffer r)\<rparr>"

definition body_ended :: bench_error where
  "body_ended = BenchMultipart ''multipart body ended unexpectedly''"

definition fill_if_empty :: "multipart_reader \<Rightarrow> bench_error + multipart_reader" where
  "fill_if_empty r =
     (if tb_is_empty (mr_buffer r)
      then and_then (next_segment (mr_body r)) (\<lambda>(seg, b).
        case seg of None \<Rightarrow> Err body_ended | Some s \<Rightarrow> Ok (reader_push s b r))
      else Ok r)"

text \<open>The text of an error of the buffer inside one of the reader.\<close>

fun reframe :: "bench_error \<Rightarrow> bench_error" where
  "reframe (BenchHttp m) = BenchMultipart (''could not consume multipart framing: HTTP protocol error: '' @ m)"
| "reframe e = e"

function read_exact :: "nat \<Rightarrow> multipart_reader \<Rightarrow> bench_error + bytes \<times> multipart_reader" where
  "read_exact amount r =
     (if tb_len (mr_buffer r) < amount
      then and_then (next_segment (mr_body r)) (\<lambda>(seg, b).
        case seg of None \<Rightarrow> Err body_ended | Some s \<Rightarrow> read_exact amount (reader_push s b r))
      else map_err reframe (and_then (tb_drain_bytes amount (mr_buffer r)) (\<lambda>(out, buffer).
        Ok (out, r\<lparr>mr_buffer := buffer\<rparr>))))"
  by pat_completeness auto
termination
  by (relation "measure (\<lambda>(_, r). rest_size (mr_body r))") (auto simp: reader_push_def dest: next_segment_smaller)

function read_until :: "bytes \<Rightarrow> nat \<Rightarrow> multipart_reader \<Rightarrow> bench_error + bytes \<times> multipart_reader" where
  "read_until delimiter maximum r =
     (case tb_find delimiter (mr_buffer r) of
        Some at \<Rightarrow>
          if maximum < at then Err (BenchMultipart (''multipart framing exceeds '' @ show_nat maximum @ '' bytes''))
          else and_then (tb_drain_bytes (at + length delimiter) (mr_buffer r)) (\<lambda>(out, buffer).
            Ok (take at out, r\<lparr>mr_buffer := buffer\<rparr>))
      | None \<Rightarrow>
          if maximum < tb_len (mr_buffer r)
          then Err (BenchMultipart (''multipart framing exceeds '' @ show_nat maximum @ '' bytes''))
          else and_then (next_segment (mr_body r)) (\<lambda>(seg, b).
            case seg of
              None \<Rightarrow> Err (BenchMultipart ''multipart body ended before a delimiter'')
            | Some s \<Rightarrow> read_until delimiter maximum (reader_push s b r)))"
  by pat_completeness auto
termination
  by (relation "measure (\<lambda>(_, _, r). rest_size (mr_body r))") (auto simp: reader_push_def dest: next_segment_smaller)

declare read_exact.simps [simp del] read_until.simps [simp del]

definition read_line :: "nat \<Rightarrow> multipart_reader \<Rightarrow> bench_error + bytes \<times> multipart_reader" where
  "read_line maximum r = read_until CRLF maximum r"

text \<open>The payload of a part: \<open>remaining\<close> bytes, in the pieces the buffer holds, with the arrival of the first.\<close>

definition buffer_size :: "timed_buffer \<Rightarrow> nat" where
  "buffer_size b = tb_len b + length (tb_segments b)"

function read_payload :: "nat \<Rightarrow> bytes \<Rightarrow> instant option \<Rightarrow> multipart_reader \<Rightarrow>
    bench_error + bytes \<times> instant option \<times> multipart_reader" where
  "read_payload remaining payload first r =
     (if remaining = 0 then Ok (payload, first, r)
      else and_then (fill_if_empty r) (\<lambda>r1.
           and_then (tb_pop_segment remaining (mr_buffer r1)) (\<lambda>popped.
           case popped of
             None \<Rightarrow> Err (BenchMultipart ''part payload is truncated'')
           | Some (seg, buffer) \<Rightarrow>
               read_payload (remaining - length (ti_bytes seg)) (payload @ ti_bytes seg)
                 (case first of None \<Rightarrow> Some (ti_arrived seg) | Some t \<Rightarrow> Some t) (r1\<lparr>mr_buffer := buffer\<rparr>))))"
  by pat_completeness auto
termination
  by (relation "measures [\<lambda>(_, _, _, r). rest_size (mr_body r), \<lambda>(_, _, _, r). buffer_size (mr_buffer r)]")
    (auto simp: fill_if_empty_def tb_is_empty_def buffer_size_def reader_push_def and_then_Ok_iff
      split: if_splits option.splits dest: next_segment_smaller tb_pop_smaller(1))

declare read_payload.simps [simp del]

function drain_body :: "http_body \<Rightarrow> bench_error + http_body" where
  "drain_body b =
     and_then (next_segment b) (\<lambda>(seg, b1).
     case seg of
       None \<Rightarrow> Ok b1
     | Some s \<Rightarrow>
         if ti_bytes s \<noteq> [] then Err (BenchMultipart ''multipart closing boundary is followed by epilogue bytes'')
         else drain_body b1)"
  by pat_completeness auto
termination by (relation "measure rest_size") (auto dest: next_segment_smaller)

declare drain_body.simps [simp del]

definition finish_after_closing_boundary :: "multipart_reader \<Rightarrow> bench_error + multipart_reader" where
  "finish_after_closing_boundary r =
     (if \<not> tb_is_empty (mr_buffer r)
      then Err (BenchMultipart ''multipart closing boundary is followed by epilogue bytes'')
      else and_then (drain_body (mr_body r)) (\<lambda>b. Ok (r\<lparr>mr_body := b\<rparr>)))"

section \<open>Parts\<close>

fun parse_part_lines :: "bytes list \<Rightarrow> header_map \<Rightarrow> bench_error + header_map" where
  "parse_part_lines [] headers = Ok headers"
| "parse_part_lines (line # rest) headers =
     (if folded_line line then Err (BenchMultipart ''folded part headers are rejected'')
      else case split_once (CHR '':'') line of
        None \<Rightarrow> Err (BenchMultipart ''malformed part header'')
      | Some (name, v) \<Rightarrow>
          if headers (to_ascii_lower name) \<noteq> None
          then Err (BenchMultipart ''duplicate part headers are rejected'')
          else parse_part_lines rest (headers(to_ascii_lower name \<mapsto> trim v)))"

definition parse_part_headers :: "bytes \<Rightarrow> bench_error + header_map" where
  "parse_part_headers bs =
     (if \<not> utf8_valid bs then Err (BenchMultipart ''part headers are not valid ASCII/UTF-8'')
      else parse_part_lines (split_on CRLF [] bs) Map.empty)"

text \<open>The length a part declares; \<open>usize\<close> holds every \<open>u64\<close>.\<close>

definition part_length :: "header_map \<Rightarrow> bench_error + nat" where
  "part_length headers =
     and_then (ok_or (headers ''content-length'') (BenchMultipart ''every part must declare Content-Length'')) (\<lambda>v.
     and_then (ok_or (parse_unsigned u64_max v) (BenchMultipart ''invalid part Content-Length'')) (\<lambda>n.
     if MAX_PART_PAYLOAD_BYTES < n then Err (BenchMultipart ''part payload exceeds 536870912 bytes'') else Ok n))"

text \<open>The boundary line that opens the body, once.\<close>

definition read_opening :: "multipart_reader \<Rightarrow> bench_error + multipart_reader" where
  "read_opening r =
     (if mr_started r then Ok r
      else and_then (read_line MAX_PART_HEADER_BYTES r) (\<lambda>(opening, r1).
        if opening \<noteq> mr_boundary_line r1
        then Err (BenchMultipart ''body does not begin with the declared boundary'')
        else Ok (r1\<lparr>mr_started := True\<rparr>)))"

text \<open>The line end and the boundary line behind a payload.\<close>

definition read_closing :: "multipart_reader \<Rightarrow> bench_error + multipart_reader" where
  "read_closing r =
     and_then (read_exact 2 r) (\<lambda>(suffix, r1).
     if suffix \<noteq> CRLF then Err (BenchMultipart ''part payload is not followed by CRLF'')
     else and_then (read_line MAX_PART_HEADER_BYTES r1) (\<lambda>(next_boundary, r2).
       if next_boundary = mr_closing_boundary_line r2
       then and_then (finish_after_closing_boundary r2) (\<lambda>r3. Ok (r3\<lparr>mr_finished := True\<rparr>))
       else if next_boundary \<noteq> mr_boundary_line r2
       then Err (BenchMultipart ''part is followed by an invalid boundary'')
       else Ok r2))"

definition next_part :: "multipart_reader \<Rightarrow> bench_error + body_part option \<times> multipart_reader" where
  "next_part r =
     (if mr_finished r then Ok (None, r)
      else and_then (read_opening r) (\<lambda>r1.
        and_then (read_until CRLFCRLF MAX_PART_HEADER_BYTES r1) (\<lambda>(header_bytes, r2).
        and_then (parse_part_headers header_bytes) (\<lambda>headers.
        and_then (part_length headers) (\<lambda>n.
        and_then (read_payload n [] None r2) (\<lambda>(payload, first, r3).
        and_then (read_closing r3) (\<lambda>r4.
        Ok (Some \<lparr>pt_headers = headers, pt_payload = payload, pt_first_payload_at = first\<rparr>, r4))))))))"

section \<open>The boundary of a content type\<close>

text \<open>\<open>split_parameters\<close> with its state: the fields so far, the current one reversed, inside quotes, behind a backslash.\<close>

fun split_params :: "bytes list \<Rightarrow> bytes \<Rightarrow> bool \<Rightarrow> bool \<Rightarrow> bytes \<Rightarrow> bench_error + bytes list" where
  "split_params params cur quoted escaped [] =
     (if quoted \<or> escaped then Err (BenchMultipart ''unterminated quoted Content-Type parameter'')
      else Ok (params @ [trim (rev cur)]))"
| "split_params params cur quoted escaped (c # cs) =
     (if escaped then split_params params (c # cur) quoted False cs
      else if c = CHR 0x5C \<and> quoted then split_params params (c # cur) quoted True cs
      else if c = CHR 0x22 then split_params params (c # cur) (\<not> quoted) False cs
      else if c = CHR '';'' \<and> \<not> quoted then split_params (params @ [trim (rev cur)]) [] quoted False cs
      else split_params params (c # cur) quoted False cs)"

definition split_parameters :: "bytes \<Rightarrow> bench_error + bytes list" where
  "split_parameters s = split_params [] [] False False s"

fun unescape :: "bytes \<Rightarrow> bool \<Rightarrow> bytes \<Rightarrow> bench_error + bytes" where
  "unescape out escaped [] =
     (if escaped then Err (BenchMultipart ''quoted boundary ends with an escape'') else Ok out)"
| "unescape out escaped (c # cs) =
     (if escaped then unescape (out @ [c]) False cs
      else if c = CHR 0x5C then unescape out True cs
      else unescape (out @ [c]) False cs)"

definition unquote_parameter :: "bytes \<Rightarrow> bench_error + bytes" where
  "unquote_parameter v =
     (if v = [] \<or> hd v \<noteq> CHR 0x22 then Ok v
      else if last v \<noteq> CHR 0x22 \<or> length v < 2 then Err (BenchMultipart ''unterminated quoted boundary'')
      else unescape [] False (butlast (tl v)))"

definition is_boundary_byte :: "byte \<Rightarrow> bool" where
  "is_boundary_byte c \<longleftrightarrow> is_ascii_alphanumeric c \<or> c = CHR 0x27 \<or> c \<in> set ''()+_,-./:=? ''"

definition validate_boundary :: "bytes \<Rightarrow> bench_error + unit" where
  "validate_boundary boundary =
     (if boundary = [] \<or> 70 < length boundary
      then Err (BenchMultipart ''boundary length must be in 1..=70 bytes'')
      else if last boundary = CHR '' '' \<or> \<not> list_all is_boundary_byte boundary
      then Err (BenchMultipart ''boundary contains invalid characters'')
      else Ok ())"

fun find_boundary :: "bytes option \<Rightarrow> bytes list \<Rightarrow> bench_error + bytes option" where
  "find_boundary found [] = Ok found"
| "find_boundary found (p # ps) =
     (case split_once (CHR ''='') p of
        None \<Rightarrow> Err (BenchMultipart ''malformed Content-Type parameter'')
      | Some (name, v) \<Rightarrow>
          if eq_ignore_ascii_case (trim name) ''boundary''
          then if found \<noteq> None then Err (BenchMultipart ''Content-Type contains multiple boundary parameters'')
               else and_then (unquote_parameter (trim v)) (\<lambda>b. find_boundary (Some b) ps)
          else find_boundary found ps)"

definition boundary_from_content_type :: "bytes \<Rightarrow> bench_error + bytes" where
  "boundary_from_content_type content_type =
     and_then (split_parameters content_type) (\<lambda>parameters.
     case parameters of
       [] \<Rightarrow> Err (BenchMultipart ''Content-Type is empty'')
     | media_type # rest \<Rightarrow>
         if \<not> eq_ignore_ascii_case (trim media_type) ''multipart/mixed''
         then Err (BenchMultipart ''streaming response must use multipart/mixed'')
         else and_then (find_boundary None rest) (\<lambda>found.
              and_then (ok_or found (BenchMultipart ''multipart Content-Type has no boundary'')) (\<lambda>boundary.
              and_then (validate_boundary boundary) (\<lambda>_. Ok boundary))))"

end
