(* ===== verification/HbParts.thy ===== *)
theory HbParts
  imports HbMultipart
begin

text \<open>
  What the multipart reader guarantees: over a body that delivers a text, each of its reading steps takes exactly
  what stands there, however the body is cut, and a well-formed part is read back as it was written.
\<close>

section \<open>The reader's text\<close>

definition reader_text :: "multipart_reader \<Rightarrow> bytes \<Rightarrow> bool" where
  "reader_text r s \<longleftrightarrow>
     tb_wf (mr_buffer r) \<and> (\<exists>rest. delivers (mr_body r) rest \<and> s = tb_content (mr_buffer r) @ rest)"

definition same_marks :: "multipart_reader \<Rightarrow> multipart_reader \<Rightarrow> bool" where
  "same_marks r r' \<longleftrightarrow> mr_boundary_line r' = mr_boundary_line r \<and>
     mr_closing_boundary_line r' = mr_closing_boundary_line r \<and> mr_started r' = mr_started r \<and> mr_finished r' = mr_finished r"

lemma same_marks_refl [simp]: "same_marks r r"
  by (simp add: same_marks_def)

lemma same_marks_trans: "same_marks r r' \<Longrightarrow> same_marks r' r'' \<Longrightarrow> same_marks r r''"
  by (simp add: same_marks_def)

lemma same_marks_update [simp]:
  "same_marks (r\<lparr>mr_buffer := b\<rparr>) r' = same_marks r r'" "same_marks (r\<lparr>mr_body := h\<rparr>) r' = same_marks r r'"
  "same_marks r (r'\<lparr>mr_buffer := b\<rparr>) = same_marks r r'" "same_marks r (r'\<lparr>mr_body := h\<rparr>) = same_marks r r'"
  "same_marks r (reader_push seg h r') = same_marks r r'" "same_marks (reader_push seg h r) r' = same_marks r r'"
  by (simp_all add: same_marks_def reader_push_def)

text \<open>While the buffer holds less than the text, the body has another piece of it.\<close>

lemma next_piece:
  assumes "reader_text r s" and "length (tb_content (mr_buffer r)) < length s"
  obtains seg b where "next_segment (mr_body r) = Ok (Some seg, b)" "reader_text (reader_push seg b r) s"
    "ti_bytes seg \<noteq> []"
proof -
  obtain rest where r: "delivers (mr_body r) rest" "s = tb_content (mr_buffer r) @ rest" "tb_wf (mr_buffer r)"
    using assms(1) by (auto simp: reader_text_def)
  from r(1) show thesis
  proof (cases rule: delivers_cases)
    case 1
    then show thesis using r(2) assms(2) by simp
  next
    case (2 seg b' rest')
    then have "reader_text (reader_push seg b' r) s" using r by (auto simp: reader_text_def reader_push_def)
    then show thesis using that 2 by blast
  qed
qed

lemma reader_drain:
  assumes "reader_text r s" and "n \<le> length (tb_content (mr_buffer r))"
  obtains buffer where "tb_drain_bytes n (mr_buffer r) = Ok (take n s, buffer)" "reader_text (r\<lparr>mr_buffer := buffer\<rparr>) (drop n s)"
proof -
  obtain buffer where d: "tb_drain_bytes n (mr_buffer r) = Ok (take n (tb_content (mr_buffer r)), buffer)" "tb_wf buffer"
      "tb_content buffer = drop n (tb_content (mr_buffer r))"
    using tb_drain_content [of "mr_buffer r" n] assms by (auto simp: reader_text_def)
  show thesis by (rule that [of buffer]) (use d assms in \<open>auto simp: reader_text_def\<close>)
qed

lemma reader_text_len: "reader_text r s \<Longrightarrow> tb_len (mr_buffer r) = length (tb_content (mr_buffer r)) \<and>
    length (tb_content (mr_buffer r)) \<le> length s"
  by (auto simp: reader_text_def tb_wf_def)

lemma read_exact_ok:
  "reader_text r s \<Longrightarrow> n \<le> length s \<Longrightarrow>
   \<exists>r'. read_exact n r = Ok (take n s, r') \<and> reader_text r' (drop n s) \<and> same_marks r r'"
proof (induction n r rule: read_exact.induct)
  case (1 n r)
  note len = reader_text_len [OF 1(2)]
  show ?case
  proof (cases "tb_len (mr_buffer r) < n")
    case True
    then have "length (tb_content (mr_buffer r)) < length s" using 1(3) len by simp
    then obtain seg b where p: "next_segment (mr_body r) = Ok (Some seg, b)" "reader_text (reader_push seg b r) s"
      using next_piece [OF 1(2)] by metis
    then show ?thesis using 1(1) [OF True p(1) refl refl p(2) 1(3)] True by (subst read_exact.simps) simp
  next
    case False
    then obtain buffer where "tb_drain_bytes n (mr_buffer r) = Ok (take n s, buffer)"
        "reader_text (r\<lparr>mr_buffer := buffer\<rparr>) (drop n s)"
      using reader_drain [OF 1(2), of n] len by auto
    then show ?thesis using False by (subst read_exact.simps) simp
  qed
qed

lemma read_until_ok:
  assumes search: "\<And>b. tb_find delimiter b = find_sub delimiter (tb_content b)"
  shows "reader_text r s \<Longrightarrow> s = a @ delimiter @ rest \<Longrightarrow> find_sub delimiter s = Some (length a) \<Longrightarrow>
    length a + length delimiter \<le> Suc maximum \<Longrightarrow> delimiter \<noteq> [] \<Longrightarrow>
    \<exists>r'. read_until delimiter maximum r = Ok (a, r') \<and> reader_text r' rest \<and> same_marks r r'"
proof (induction "rest_size (mr_body r)" arbitrary: r rule: less_induct)
  case less
  note len = reader_text_len [OF less.prems(1)]
  have "\<exists>q. s = tb_content (mr_buffer r) @ q" using less.prems(1) by (auto simp: reader_text_def)
  then have at: "tb_find delimiter (mr_buffer r) =
      (if length a + length delimiter \<le> tb_len (mr_buffer r) then Some (length a) else None)"
    using find_sub_prefix [of delimiter "tb_content (mr_buffer r)"] less.prems(3) search len by auto
  show ?case
  proof (cases "length a + length delimiter \<le> tb_len (mr_buffer r)")
    case True
    then obtain buffer where d: "tb_drain_bytes (length a + length delimiter) (mr_buffer r) =
          Ok (take (length a + length delimiter) s, buffer)"
        "reader_text (r\<lparr>mr_buffer := buffer\<rparr>) (drop (length a + length delimiter) s)"
      using reader_drain [OF less.prems(1)] len by metis
    moreover have "\<not> maximum < length a" using less.prems(4,5) by (cases delimiter) auto
    ultimately show ?thesis using at True less.prems(2) by (subst read_until.simps) simp
  next
    case False
    have "length (tb_content (mr_buffer r)) < length s" using False len less.prems(2) by simp
    then obtain seg b where p: "next_segment (mr_body r) = Ok (Some seg, b)" "reader_text (reader_push seg b r) s"
      using next_piece [OF less.prems(1)] by metis
    have "rest_size (mr_body (reader_push seg b r)) < rest_size (mr_body r)"
      using next_segment_smaller [OF p(1)] by (simp add: reader_push_def)
    moreover have "\<not> maximum < tb_len (mr_buffer r)" using False less.prems(4) by simp
    ultimately show ?thesis
      using less.hyps [OF _ p(2) less.prems(2-5)] at False p(1) by (subst read_until.simps) simp
  qed
qed

lemma read_line_ok:
  assumes "reader_text r (line @ CRLF @ rest)" and "CHR 0x0D \<notin> set line" and "length line < maximum"
  obtains r' where "read_line maximum r = Ok (line, r')" "reader_text r' rest" "same_marks r r'"
  using read_until_ok [OF find_CRLF assms(1) refl find_CRLF_line [OF assms(2)], of maximum] assms(3) that
  by (auto simp: read_line_def)

lemma fill_if_empty_ok:
  assumes "reader_text r s" and "s \<noteq> []"
  obtains r1 where "fill_if_empty r = Ok r1" "reader_text r1 s" "tb_content (mr_buffer r1) \<noteq> []" "same_marks r r1"
proof (cases "tb_is_empty (mr_buffer r)")
  case True
  then have "tb_content (mr_buffer r) = []" using reader_text_len [OF assms(1)] by (simp add: tb_is_empty_def)
  then obtain seg b where p: "next_segment (mr_body r) = Ok (Some seg, b)" "reader_text (reader_push seg b r) s"
      "ti_bytes seg \<noteq> []"
    using next_piece [OF assms(1)] assms(2) by auto
  show thesis
    by (rule that [of "reader_push seg b r"]) (use p True in \<open>auto simp: fill_if_empty_def reader_push_def\<close>)
next
  case False
  then have "tb_content (mr_buffer r) \<noteq> []" using reader_text_len [OF assms(1)] by (auto simp: tb_is_empty_def)
  then show thesis using that [of r] assms False by (simp add: fill_if_empty_def)
qed

lemma read_payload_ok:
  "reader_text r (p @ rest) \<Longrightarrow>
   \<exists>f r'. read_payload (length p) acc first r = Ok (acc @ p, f, r') \<and> reader_text r' rest \<and> same_marks r r' \<and>
     (p \<noteq> [] \<or> first \<noteq> None \<longrightarrow> f \<noteq> None)"
proof (induction "length p" arbitrary: p acc first r rule: less_induct)
  case less
  show ?case
  proof (cases "p = []")
    case True
    then show ?thesis using less.prems by (subst read_payload.simps) simp
  next
    case False
    then have some: "0 < length p" "p @ rest \<noteq> []" by auto
    obtain r1 where r1: "fill_if_empty r = Ok r1" "reader_text r1 (p @ rest)" "tb_content (mr_buffer r1) \<noteq> []" "same_marks r r1"
      by (rule fill_if_empty_ok [OF less.prems some(2)])
    have wf: "tb_wf (mr_buffer r1)" using r1(2) by (simp add: reader_text_def)
    obtain k seg buffer where b: "tb_pop_segment (length p) (mr_buffer r1) = Ok (Some (seg, buffer))" "0 < k" "k \<le> length p"
        "k \<le> length (tb_content (mr_buffer r1))" "ti_bytes seg = take k (tb_content (mr_buffer r1))" "tb_wf buffer"
        "tb_content buffer = drop k (tb_content (mr_buffer r1))"
      using tb_pop_content [OF wf r1(3) some(1)] by metis
    obtain q where q: "delivers (mr_body r1) q" "p @ rest = tb_content (mr_buffer r1) @ q"
      using r1(2) by (auto simp: reader_text_def)
    have "take k (p @ rest) = take k (tb_content (mr_buffer r1))" "drop k (p @ rest) = drop k (tb_content (mr_buffer r1)) @ q"
      using b(4) by (simp_all add: q(2))
    then have seg: "ti_bytes seg = take k p" "drop k p @ rest = tb_content buffer @ q" using b(3,5,7) by simp_all
    have "reader_text (r1\<lparr>mr_buffer := buffer\<rparr>) (drop k p @ rest)"
      using q(1) b(6) by (auto simp: reader_text_def seg(2))
    moreover have "length (drop k p) < length p" using b(2) some(1) by simp
    ultimately obtain f r' where "read_payload (length (drop k p)) (acc @ take k p)
          (case first of None \<Rightarrow> Some (ti_arrived seg) | Some t \<Rightarrow> Some t) (r1\<lparr>mr_buffer := buffer\<rparr>) = Ok (acc @ p, f, r')"
        "reader_text r' rest" "same_marks r1 r'" "f \<noteq> None"
      using less.hyps [of "drop k p" "r1\<lparr>mr_buffer := buffer\<rparr>" "acc @ take k p"
          "case first of None \<Rightarrow> Some (ti_arrived seg) | Some t \<Rightarrow> Some t"]
      by (auto split: option.splits)
    then show ?thesis
      using False r1(1,4) b(1,3) seg(1) same_marks_trans by (subst read_payload.simps) fastforce
  qed
qed

lemma finish_ok:
  assumes "reader_text r []"
  obtains r' where "finish_after_closing_boundary r = Ok r'" "same_marks r r'"
proof -
  have "delivers (mr_body r) []" "tb_is_empty (mr_buffer r)" using assms by (auto simp: reader_text_def tb_is_empty_iff)
  then obtain b where "next_segment (mr_body r) = Ok (None, b)" by (auto elim: delivers_cases)
  then have "drain_body (mr_body r) = Ok b" by (subst drain_body.simps) simp
  then show thesis using that [of "r\<lparr>mr_body := b\<rparr>"] \<open>tb_is_empty _\<close> by (simp add: finish_after_closing_boundary_def)
qed

end
