(* ===== verification/HbExchange.thy ===== *)
theory HbExchange
  imports HbWav HbParts SvStream
begin

text \<open>
  The benchmark client against the server: what the server writes is what the client reads, for buffered WAV
  responses and for the parts of a streaming response.
\<close>

section \<open>Buffered responses\<close>

definition wav_head :: "nat \<Rightarrow> bytes" where
  "wav_head n = ''RIFF'' @ le_bytes 4 (n + 36) @ ''WAVEfmt '' @ le_bytes 4 16 @ le_bytes 2 1 @ le_bytes 2 1
     @ le_bytes 4 24000 @ le_bytes 4 48000 @ le_bytes 2 2 @ le_bytes 2 16 @ ''data'' @ le_bytes 4 n"

lemma encode_wav_shape:
  assumes "encode_pcm16_mono pcm = Ok wav"
  shows "wav = wav_head (length pcm) @ pcm" "length pcm + 36 < 2 ^ 32" "even (length pcm)"
proof -
  obtain r where r: "checked_add (of_nat (length pcm) :: u32) 36 = Some r" "length pcm < 2 ^ 32" "even (length pcm)"
      "wav = ''RIFF'' @ le_bytes 4 (unat r) @ ''WAVEfmt '' @ le_bytes 4 16 @ le_bytes 2 1 @ le_bytes 2 1
          @ le_bytes 4 (unat SAMPLE_RATE) @ le_bytes 4 (unat (SAMPLE_RATE * 2)) @ le_bytes 2 2 @ le_bytes 2 16
          @ ''data'' @ le_bytes 4 (length pcm) @ pcm"
    using assms by (auto simp: encode_pcm16_mono_def and_then_Ok_iff ok_or_def Let_def split: if_splits option.splits)
  have n: "unat (of_nat (length pcm) :: u32) = length pcm" using r(2) by (simp add: unat_of_nat)
  have u: "unat r = length pcm + 36" using checked_add_Some [OF r(1)] n by simp
  show "length pcm + 36 < 2 ^ 32" using unsigned_less [of r, where ?'a = nat] u by simp
  show "even (length pcm)" by (rule r(3))
  show "wav = wav_head (length pcm) @ pcm" by (simp add: r(4) u wav_head_def SAMPLE_RATE_def)
qed

lemma wav_head_length [simp]: "length (wav_head n) = 44"
  by (simp add: wav_head_def)

lemma wav_head_fields:
  fixes rest :: bytes
  shows "byte_range 0 4 (wav_head n @ rest) = ''RIFF''" "byte_range 4 8 (wav_head n @ rest) = le_bytes 4 (n + 36)"
    "byte_range 8 12 (wav_head n @ rest) = ''WAVE''" "byte_range 12 16 (wav_head n @ rest) = ''fmt ''"
    "byte_range 16 20 (wav_head n @ rest) = le_bytes 4 16" "byte_range 20 36 (wav_head n @ rest) =
      le_bytes 2 1 @ le_bytes 2 1 @ le_bytes 4 24000 @ le_bytes 4 48000 @ le_bytes 2 2 @ le_bytes 2 16"
    "byte_range 36 40 (wav_head n @ rest) = ''data''" "byte_range 40 44 (wav_head n @ rest) = le_bytes 4 n"
  by (simp_all add: wav_head_def byte_range_def)

lemma native_format_valid:
  "validate_format (le_bytes 2 1 @ le_bytes 2 1 @ le_bytes 4 24000 @ le_bytes 4 48000 @ le_bytes 2 2 @ le_bytes 2 16) = Ok ()"
  by (simp add: validate_format_def read_u16_def read_u32_def read_field_def byte_range_def le_value_le_bytes
      BENCH_SAMPLE_RATE_HZ_def)

text \<open>A buffered response survives the exchange: a WAV file that the server encodes from a non-empty recording is
  accepted by the client, which finds the very same PCM bytes and the right number of samples in it.\<close>

theorem wav_exchange:
  assumes "encode_pcm16_mono pcm = Ok wav" and "pcm \<noteq> []"
  shows "validate_wav wav = Ok \<lparr>wi_sample_count = length pcm div 2, wi_data_offset = 44, wi_data_bytes = length pcm\<rparr> \<and>
    byte_range 44 (44 + length pcm) wav = pcm"
proof -
  note shape = encode_wav_shape [OF assms(1)]
  let ?n = "length pcm"
  note fields = wav_head_fields [where n = "length pcm" and rest = pcm, folded shape(1)]
  have len: "length wav = 44 + ?n" by (simp add: shape(1))
  have small: "?n < 256 ^ 4" "?n + 36 < 256 ^ 4" using shape(2) by simp_all
  have u32: "read_u32 wav 4 = Ok (?n + 36)" "read_u32 wav 16 = Ok 16" "read_u32 wav 40 = Ok ?n"
    using small by (simp_all add: read_u32_def read_field_def len fields le_value_le_bytes)
  have "wav_chunks wav (44 + ?n) (True, Some (44, ?n)) = Ok (44 + ?n, True, Some (44, ?n))"
    by (subst wav_chunks.simps) (simp add: len)
  then have "wav_chunks wav 36 (True, None) = Ok (44 + ?n, True, Some (44, ?n))"
    using assms(2) shape(3) by (subst wav_chunks.simps) (simp add: len u32 fields wav_chunk_def)
  then have "wav_chunks wav 12 (False, None) = Ok (44 + ?n, True, Some (44, ?n))"
    by (subst wav_chunks.simps) (simp add: len u32 fields wav_chunk_def native_format_valid [simplified])
  then have "validate_wav wav = Ok \<lparr>wi_sample_count = ?n div 2, wi_data_offset = 44, wi_data_bytes = ?n\<rparr>"
    by (simp add: validate_wav_def len fields u32 ok_or_def)
  then show ?thesis by (simp add: shape(1) byte_range_def)
qed

lemma wav_exchange_witness:
  "\<exists>wav. encode_pcm16_mono ''ab'' = Ok wav \<and>
     validate_wav wav = Ok \<lparr>wi_sample_count = 1, wi_data_offset = 44, wi_data_bytes = 2\<rparr>"
proof -
  obtain wav where "encode_pcm16_mono ''ab'' = Ok wav"
    by (simp add: encode_pcm16_mono_def checked_add_def ok_or_def)
  then show ?thesis using wav_exchange [of "''ab''" wav] by simp
qed

section \<open>The text of a part\<close>

fun lines_text :: "bytes list \<Rightarrow> bytes" where
  "lines_text [] = []"
| "lines_text [l] = l"
| "lines_text (l # ls) = l @ CRLF @ lines_text ls"

definition header_line :: "bytes \<times> bytes \<Rightarrow> bytes" where
  "header_line h = fst h @ '': '' @ snd h"

text \<open>A header whose name and value are visible text.\<close>

definition visible :: "byte \<Rightarrow> bool" where
  "visible c \<longleftrightarrow> 33 \<le> bv c \<and> bv c < 127"

definition plain_header :: "bytes \<times> bytes \<Rightarrow> bool" where
  "plain_header h \<longleftrightarrow> fst h \<noteq> [] \<and> list_all visible (fst h) \<and> CHR '':'' \<notin> set (fst h) \<and> list_all visible (snd h)"

definition header_table :: "(bytes \<times> bytes) list \<Rightarrow> header_map" where
  "header_table hs = map_of (map (\<lambda>(name, v). (to_ascii_lower name, v)) hs)"

lemma visible_bounds: "visible c \<Longrightarrow> bv c \<noteq> 32 \<and> bv c \<noteq> 9 \<and> bv c \<noteq> 13 \<and> bv c < 128"
  by (auto simp: visible_def)

lemma not_visible: "\<not> visible (CHR 0x0D)" "\<not> visible (CHR '' '')" "\<not> visible (CHR 0x09)"
  by (simp_all add: visible_def bv_def)

lemma strip_ws_visible: "visible c \<Longrightarrow> strip_ws (c # cs) = None"
  by (auto simp: visible_def split: list.splits)

lemma trim_start_visible: "list_all visible v \<Longrightarrow> trim_start v = v"
  by (cases v) (simp_all add: trim_start.simps [of "_ # _"] strip_ws_visible del: strip_ws.simps)

lemma trim_rev_visible: "list_all visible v \<Longrightarrow> trim_rev v = v"
proof (cases v)
  case (Cons c cs)
  assume v: "list_all visible v"
  have "strip_ws (rev (take k v)) \<noteq> Some []" for k
  proof (cases "rev (take k v)")
    case (Cons a as)
    then have "a \<in> set (take k v)" by (metis list.set_intros(1) set_rev)
    then have "visible a" using v in_set_takeD [of a k v] by (simp add: list_all_iff)
    then show ?thesis unfolding Cons by (simp add: strip_ws_visible del: strip_ws.simps)
  next
    case Nil
    show ?thesis unfolding Nil by simp
  qed
  from this [of 1] this [of 2] this [of 3] have "strip_ws_rev v = None"
    by (auto simp: strip_ws_rev_def simp del: strip_ws.simps split: option.splits list.splits)
  then show ?thesis by (subst trim_rev.simps) simp
qed simp

lemma trim_visible: "list_all visible v \<Longrightarrow> trim v = v" "list_all visible v \<Longrightarrow> trim (CHR '' '' # v) = v"
proof -
  assume v: "list_all visible v"
  then have r: "trim_rev (rev v) = rev v" by (intro trim_rev_visible) simp
  show "trim v = v" by (simp add: trim_def trim_start_visible [OF v] r)
  have "trim_start (CHR '' '' # v) = v"
    by (subst trim_start.simps) (simp add: bv_def trim_start_visible [OF v])
  then show "trim (CHR '' '' # v) = v" by (simp add: trim_def r)
qed

section \<open>Cutting a header block into its lines\<close>

lemma starts_with_CRLF: "c \<noteq> CHR 0x0D \<Longrightarrow> \<not> starts_with (CHR 0x0D # cs) (c # s)"
  by (simp add: starts_with_def)

lemma split_on_line: "CHR 0x0D \<notin> set l \<Longrightarrow> split_on CRLF acc (l @ s) = split_on CRLF (rev l @ acc) s"
proof (induction l arbitrary: acc)
  case (Cons c l)
  then have "\<not> starts_with CRLF (c # l @ s)" by (auto simp: starts_with_def)
  then show ?case using Cons by (subst split_on.simps) simp
qed simp

lemma split_on_lines:
  "ls \<noteq> [] \<Longrightarrow> \<forall>l \<in> set ls. CHR 0x0D \<notin> set l \<Longrightarrow> split_on CRLF [] (lines_text ls) = ls"
proof (induction ls rule: lines_text.induct)
  case (2 l)
  then show ?case using split_on_line [of l "[]" "[]"] by (simp add: split_on.simps [of _ _ "[]"])
next
  case (3 l l' ls)
  have "split_on CRLF (rev l) (CRLF @ lines_text (l' # ls)) = l # split_on CRLF [] (lines_text (l' # ls))"
    by (subst split_on.simps) (simp add: starts_with_def)
  then show ?case using 3 split_on_line [of l "[]"] by simp
qed simp

lemma find_end_skip: "CHR 0x0D \<notin> set l \<Longrightarrow>
  find_sub CRLFCRLF (l @ s) = map_option (\<lambda>i. i + length l) (find_sub CRLFCRLF s)"
  by (induction l) (auto simp: starts_with_CRLF option.map_comp o_def option.map_ident)

lemma find_end_lines:
  "ls \<noteq> [] \<Longrightarrow> \<forall>l \<in> set ls. CHR 0x0D \<notin> set l \<and> l \<noteq> [] \<Longrightarrow>
   find_sub CRLFCRLF (lines_text ls @ CRLFCRLF @ s) = Some (length (lines_text ls))"
proof (induction ls rule: lines_text.induct)
  case (2 l)
  then show ?case using find_end_skip [of l "CRLFCRLF @ s"] by (simp add: starts_with_def)
next
  case (3 l l' ls)
  then obtain c cs where l': "l' = c # cs" "c \<noteq> CHR 0x0D" by (cases l') auto
  have "find_sub CRLFCRLF (CRLF @ c # t) = map_option (\<lambda>i. i + 2) (find_sub CRLFCRLF (c # t))" for t
    using l'(2) by (auto simp: starts_with_def option.map_comp o_def)
  moreover obtain t where "lines_text (l' # ls) @ CRLFCRLF @ s = c # t"
    by (cases ls) (auto simp: l')
  ultimately show ?case using 3 find_end_skip [of l "CRLF @ lines_text (l' # ls) @ CRLFCRLF @ s"] by simp
qed simp

section \<open>Reading a part back\<close>

lemma plain_header_line:
  assumes "plain_header h"
  shows "CHR 0x0D \<notin> set (header_line h)" "header_line h \<noteq> []" "\<not> folded_line (header_line h)"
    "split_once (CHR '':'') (header_line h) = Some (fst h, CHR '' '' # snd h)" "\<forall>c \<in> set (header_line h). bv c < 128"
proof -
  have v: "\<forall>c \<in> set (fst h). visible c" "\<forall>c \<in> set (snd h). visible c" and n: "fst h \<noteq> []" "CHR '':'' \<notin> set (fst h)"
    using assms by (auto simp: plain_header_def list_all_iff)
  show "CHR 0x0D \<notin> set (header_line h)" using v not_visible(1) by (auto simp: header_line_def)
  show "header_line h \<noteq> []" by (simp add: header_line_def)
  show "\<not> folded_line (header_line h)"
    using n(1) v(1) not_visible(2,3) by (cases "fst h") (auto simp: header_line_def folded_line_def)
  show "split_once (CHR '':'') (header_line h) = Some (fst h, CHR '' '' # snd h)"
    using split_once_append [OF n(2), of "CHR '' '' # snd h"] by (simp add: header_line_def)
  show "\<forall>c \<in> set (header_line h). bv c < 128" using v visible_bounds by (auto simp: header_line_def bv_def)
qed

lemma parse_plain_lines:
  "list_all plain_header hs \<Longrightarrow> distinct (map (\<lambda>h. to_ascii_lower (fst h)) hs) \<Longrightarrow>
   \<forall>h \<in> set hs. M (to_ascii_lower (fst h)) = None \<Longrightarrow>
   parse_part_lines (map header_line hs) M = Ok (M ++ header_table hs)"
proof (induction hs arbitrary: M)
  case Nil
  then show ?case by (simp add: header_table_def)
next
  case (Cons h hs)
  let ?k = "to_ascii_lower (fst h)"
  have p: "plain_header h" using Cons.prems by simp
  have "trim (CHR '' '' # snd h) = snd h" using p by (intro trim_visible) (simp add: plain_header_def)
  then have "parse_part_lines (map header_line (h # hs)) M = parse_part_lines (map header_line hs) (M(?k \<mapsto> snd h))"
    using plain_header_line(3,4) [OF p] Cons.prems(3) by simp
  also have "\<dots> = Ok (M(?k \<mapsto> snd h) ++ header_table hs)"
  proof (intro Cons.IH)
    have "?k \<notin> (\<lambda>h. to_ascii_lower (fst h)) ` set hs" using Cons.prems(2) by simp
    then have "to_ascii_lower (fst g) \<noteq> ?k" if "g \<in> set hs" for g using that by (metis image_eqI)
    then show "\<forall>g \<in> set hs. (M(?k \<mapsto> snd h)) (to_ascii_lower (fst g)) = None" using Cons.prems(3) by simp
  qed (use Cons.prems in auto)
  also have "M(?k \<mapsto> snd h) ++ header_table hs = M ++ header_table (h # hs)"
  proof -
    have "header_table hs ?k = None"
      using Cons.prems(2) by (auto simp: header_table_def map_of_eq_None_iff) (metis (mono_tags, lifting) fst_conv image_eqI)
    then show ?thesis by (cases h) (auto simp: header_table_def map_add_def fun_eq_iff split: option.splits)
  qed
  finally show ?case .
qed

lemma lines_text_bytes: "set (lines_text ls) \<subseteq> \<Union> (set ` set ls) \<union> set CRLF"
  by (induction ls rule: lines_text.induct) auto

lemma parse_plain_headers:
  assumes "list_all plain_header hs" and "distinct (map (\<lambda>h. to_ascii_lower (fst h)) hs)" and "hs \<noteq> []"
  shows "parse_part_headers (lines_text (map header_line hs)) = Ok (header_table hs)"
proof -
  have p: "\<forall>h \<in> set hs. plain_header h" using assms(1) by (simp add: list_all_iff)
  have "bv c < 128" if c: "c \<in> set (lines_text (map header_line hs))" for c
  proof -
    consider "c \<in> set CRLF" | h where "h \<in> set hs" "c \<in> set (header_line h)"
      using c lines_text_bytes [of "map header_line hs"] by auto
    then show ?thesis by cases (use p plain_header_line(5) in \<open>auto simp: bv_def\<close>)
  qed
  moreover have "split_on CRLF [] (lines_text (map header_line hs)) = map header_line hs"
    using p plain_header_line(1) assms(3) by (intro split_on_lines) auto
  ultimately show ?thesis
    using parse_plain_lines [OF assms(1,2), of Map.empty] by (simp add: parse_part_headers_def utf8_valid_ascii)
qed

text \<open>A part to be written: its content type, its further headers and its payload.\<close>

type_synonym part_spec = "bytes \<times> (bytes \<times> bytes) list \<times> bytes"

fun spec_headers :: "part_spec \<Rightarrow> (bytes \<times> bytes) list" where
  "spec_headers (content_type, hs, payload) =
     (''Content-Type'', content_type) # (''Content-Length'', show_nat (length payload)) # hs"

fun spec_payload :: "part_spec \<Rightarrow> bytes" where
  "spec_payload (content_type, hs, payload) = payload"

definition spec_fits :: "part_spec \<Rightarrow> bool" where
  "spec_fits p \<longleftrightarrow> list_all plain_header (spec_headers p) \<and> distinct (map (\<lambda>h. to_ascii_lower (fst h)) (spec_headers p)) \<and>
     length (lines_text (map header_line (spec_headers p))) + 4 \<le> MAX_PART_HEADER_BYTES \<and>
     length (spec_payload p) \<le> MAX_PART_PAYLOAD_BYTES"

text \<open>What follows the boundary line of a part: the part, and the parts behind it up to the closing boundary.\<close>

fun after_boundary :: "bytes \<Rightarrow> part_spec list \<Rightarrow> bytes" where
  "after_boundary b [] = []"
| "after_boundary b (p # ps) = lines_text (map header_line (spec_headers p)) @ CRLFCRLF @ spec_payload p @ CRLF @ ''--'' @ b @
     (if ps = [] then ''--'' @ CRLF else CRLF @ after_boundary b ps)"

lemma content_length_of_spec: "spec_fits p \<Longrightarrow> part_length (header_table (spec_headers p)) = Ok (length (spec_payload p))"
proof -
  assume ok: "spec_fits p"
  obtain ct hs payload where p: "p = (ct, hs, payload)" by (cases p) auto
  have "header_table (spec_headers p) ''content-length'' = Some (show_nat (length payload))"
    by (simp add: p header_table_def to_ascii_lower_def bv_def char_of_def bit_0)
  moreover have "length payload \<le> u64_max" "length payload \<le> MAX_PART_PAYLOAD_BYTES"
    using ok by (auto simp: spec_fits_def p MAX_PART_PAYLOAD_BYTES_def u64_max_def)
  ultimately show ?thesis by (simp add: part_length_def ok_or_def parse_show_nat p)
qed

text \<open>The reader stands before the parts \<open>ps\<close> of a body with the boundary \<open>b\<close>.\<close>

definition reader_at :: "bytes \<Rightarrow> part_spec list \<Rightarrow> multipart_reader \<Rightarrow> bool" where
  "reader_at b ps r \<longleftrightarrow> mr_boundary_line r = ''--'' @ b \<and> mr_closing_boundary_line r = ''--'' @ b @ ''--'' \<and>
     (mr_finished r \<longleftrightarrow> ps = []) \<and>
     (ps \<noteq> [] \<longrightarrow> reader_text r ((if mr_started r then [] else ''--'' @ b @ CRLF) @ after_boundary b ps))"

definition boundary_fits :: "bytes \<Rightarrow> bool" where
  "boundary_fits b \<longleftrightarrow> CHR 0x0D \<notin> set b \<and> length b + 4 < MAX_PART_HEADER_BYTES"

lemma read_opening_ok:
  assumes "reader_at b (p # ps) r" and "boundary_fits b"
  obtains r1 where "read_opening r = Ok r1" "reader_text r1 (after_boundary b (p # ps))" "mr_started r1"
    "mr_boundary_line r1 = ''--'' @ b" "mr_closing_boundary_line r1 = ''--'' @ b @ ''--''" "\<not> mr_finished r1"
proof (cases "mr_started r")
  case True
  then show thesis using that [of r] assms(1) by (simp add: reader_at_def read_opening_def)
next
  case False
  have t: "reader_text r ((''--'' @ b) @ CRLF @ after_boundary b (p # ps))"
    using assms(1) False by (simp only: reader_at_def if_False append_assoc) blast
  have "CHR 0x0D \<notin> set (''--'' @ b)" "length (''--'' @ b) < MAX_PART_HEADER_BYTES"
    using assms(2) by (simp_all add: boundary_fits_def)
  then obtain r1 where r1: "read_line MAX_PART_HEADER_BYTES r = Ok (''--'' @ b, r1)"
      "reader_text r1 (after_boundary b (p # ps))" "same_marks r r1"
    using read_line_ok [OF t] by metis
  show thesis
    by (rule that [of "r1\<lparr>mr_started := True\<rparr>"])
      (use r1 assms(1) False in \<open>auto simp: read_opening_def same_marks_def reader_at_def reader_text_def\<close>)
qed

lemma read_closing_ok:
  assumes "reader_text r (CRLF @ ''--'' @ b @ (if ps = [] then ''--'' @ CRLF else CRLF @ after_boundary b ps))"
    and "boundary_fits b" and "mr_started r" and "mr_boundary_line r = ''--'' @ b"
    and "mr_closing_boundary_line r = ''--'' @ b @ ''--''" and "\<not> mr_finished r"
  obtains r' where "read_closing r = Ok r'" "reader_at b ps r'"
proof -
  let ?line = "''--'' @ b @ (if ps = [] then ''--'' else [])" and ?rest = "if ps = [] then [] else after_boundary b ps"
  have s: "CRLF @ ''--'' @ b @ (if ps = [] then ''--'' @ CRLF else CRLF @ after_boundary b ps) = CRLF @ ?line @ CRLF @ ?rest"
    by simp
  obtain r1 where r1: "read_exact 2 r = Ok (CRLF, r1)" "reader_text r1 (?line @ CRLF @ ?rest)" "same_marks r r1"
    using read_exact_ok [OF assms(1), of 2] unfolding s by auto
  have "CHR 0x0D \<notin> set ?line" "length ?line < MAX_PART_HEADER_BYTES"
    using assms(2) by (auto simp: boundary_fits_def)
  then obtain r2 where r2: "read_line MAX_PART_HEADER_BYTES r1 = Ok (?line, r2)" "reader_text r2 ?rest" "same_marks r1 r2"
    using read_line_ok [OF r1(2)] by metis
  have marks: "same_marks r r2" using same_marks_trans r1(3) r2(3) by blast
  show thesis
  proof (cases "ps = []")
    case True
    then have "reader_text r2 []" using r2(2) by simp
    then obtain r3 where r3: "finish_after_closing_boundary r2 = Ok r3" "same_marks r2 r3" by (rule finish_ok)
    show thesis
      by (rule that [of "r3\<lparr>mr_finished := True\<rparr>"])
        (use r1(1) r2(1) r3 marks True assms(4,5) in \<open>auto simp: read_closing_def same_marks_def reader_at_def\<close>)
  next
    case False
    show thesis
      by (rule that [of r2])
        (use r1(1) r2 marks False assms(3-6) in \<open>auto simp: read_closing_def same_marks_def reader_at_def\<close>)
  qed
qed

lemma next_part_ok:
  assumes "reader_at b (p # ps) r" and "boundary_fits b" and "spec_fits p"
  obtains arrival r' where "next_part r = Ok (Some \<lparr>pt_headers = header_table (spec_headers p), pt_payload = spec_payload p,
      pt_first_payload_at = arrival\<rparr>, r')" "spec_payload p \<noteq> [] \<longrightarrow> arrival \<noteq> None" "reader_at b ps r'"
proof -
  obtain r1 where r1: "read_opening r = Ok r1" "reader_text r1 (after_boundary b (p # ps))" "mr_started r1"
      "mr_boundary_line r1 = ''--'' @ b" "mr_closing_boundary_line r1 = ''--'' @ b @ ''--''" "\<not> mr_finished r1"
    by (rule read_opening_ok [OF assms(1,2)])
  let ?head = "lines_text (map header_line (spec_headers p))"
  let ?tail = "CRLF @ ''--'' @ b @ (if ps = [] then ''--'' @ CRLF else CRLF @ after_boundary b ps)"
  have ok: "\<forall>h \<in> set (spec_headers p). plain_header h" "length ?head + 4 \<le> MAX_PART_HEADER_BYTES"
    using assms(3) by (simp_all add: spec_fits_def list_all_iff)
  have some: "map header_line (spec_headers p) \<noteq> []" "spec_headers p \<noteq> []" by (cases p; simp)+
  have split: "after_boundary b (p # ps) = ?head @ CRLFCRLF @ spec_payload p @ ?tail" by simp
  have find: "find_sub CRLFCRLF (after_boundary b (p # ps)) = Some (length ?head)"
    unfolding split using ok(1) plain_header_line(1,2) by (intro find_end_lines some(1)) auto
  have fits: "length ?head + length CRLFCRLF \<le> Suc MAX_PART_HEADER_BYTES" "CRLFCRLF \<noteq> []" using ok(2) by simp_all
  obtain r2 where r2: "read_until CRLFCRLF MAX_PART_HEADER_BYTES r1 = Ok (?head, r2)"
      "reader_text r2 (spec_payload p @ ?tail)" "same_marks r1 r2"
    using read_until_ok [OF find_CRLFCRLF r1(2) split find fits] by metis
  obtain arrival r3 where r3: "read_payload (length (spec_payload p)) [] None r2 = Ok (spec_payload p, arrival, r3)"
      "reader_text r3 ?tail" "same_marks r2 r3" "spec_payload p \<noteq> [] \<longrightarrow> arrival \<noteq> None"
    using read_payload_ok [OF r2(2), of "[]" None] by auto
  have marks: "mr_started r3" "mr_boundary_line r3 = ''--'' @ b" "mr_closing_boundary_line r3 = ''--'' @ b @ ''--''"
      "\<not> mr_finished r3"
    using r1(3-6) r2(3) r3(3) by (simp_all add: same_marks_def)
  obtain r4 where r4: "read_closing r3 = Ok r4" "reader_at b ps r4"
    by (rule read_closing_ok [OF r3(2) assms(2) marks])
  have "parse_part_headers ?head = Ok (header_table (spec_headers p))"
    using assms(3) some(2) by (intro parse_plain_headers) (simp_all add: spec_fits_def)
  moreover have "\<not> mr_finished r" using assms(1) by (simp add: reader_at_def)
  ultimately show thesis
    using that r1(1) r2(1) r3(1,4) r4 content_length_of_spec [OF assms(3)] by (simp add: next_part_def)
qed

lemma reader_at_new:
  assumes "delivers h (''--'' @ b @ CRLF @ after_boundary b ps)" and "ps \<noteq> []"
  shows "reader_at b ps (multipart_reader_new h b)"
  using assms by (auto simp: reader_at_def multipart_reader_new_def reader_text_def)

end
