(* ===== verification/HbRunner.thy ===== *)
theory HbRunner
  imports HbWav HbMultipart Json
begin

text \<open>
  \<open>runner.rs\<close> of \<open>qwen3-tts-http-bench\<close>: how the client judges the responses of one request. The digest
  of the \<open>sha2\<close> crate and JSON parsing are arguments, and so are the readings of the clock; a running digest
  is the bytes it has taken.
\<close>

section \<open>Reading parts comes to an end\<close>

definition shrinks :: "nat \<Rightarrow> multipart_reader \<Rightarrow> multipart_reader \<Rightarrow> bool" where
  "shrinks k r r' \<longleftrightarrow> mr_finished r' = mr_finished r \<and>
     (rest_size (mr_body r') < rest_size (mr_body r) \<or>
      rest_size (mr_body r') = rest_size (mr_body r) \<and> tb_len (mr_buffer r') + k \<le> tb_len (mr_buffer r))"

lemma shrinks_trans: "shrinks j r r' \<Longrightarrow> shrinks k r' r'' \<Longrightarrow> shrinks (max j k) r r''"
  by (auto simp: shrinks_def)

lemma shrinks_mono: "shrinks k r r' \<Longrightarrow> j \<le> k \<Longrightarrow> shrinks j r r'"
  by (auto simp: shrinks_def)

lemma shrinks_refl [simp]: "shrinks 0 r r"
  by (simp add: shrinks_def)

lemma shrinks_piece: "next_segment (mr_body r) = Ok (Some seg, b) \<Longrightarrow> shrinks k (reader_push seg b r) r' \<Longrightarrow> shrinks j r r'"
  using next_segment_smaller by (fastforce simp: shrinks_def reader_push_def)

lemma read_exact_shrinks: "read_exact n r = Ok (out, r') \<Longrightarrow> shrinks 0 r r'"
proof (induction n r rule: read_exact.induct)
  case (1 n r)
  show ?case
  proof (cases "tb_len (mr_buffer r) < n")
    case True
    then obtain seg b where s: "next_segment (mr_body r) = Ok (Some seg, b)" "read_exact n (reader_push seg b r) = Ok (out, r')"
      using 1(2) by (subst (asm) read_exact.simps) (auto simp: and_then_Ok_iff split: option.splits)
    then show ?thesis using 1(1) [OF True s(1) refl refl s(2)] shrinks_piece [OF s(1)] by blast
  next
    case False
    then show ?thesis
      using 1(2) by (subst (asm) read_exact.simps)
        (auto simp: and_then_Ok_iff shrinks_def tb_drain_bytes_def split: if_splits)
  qed
qed

lemma read_until_shrinks: "read_until delimiter maximum r = Ok (out, r') \<Longrightarrow> shrinks (length delimiter) r r'"
proof (induction "rest_size (mr_body r)" arbitrary: r rule: less_induct)
  case less
  show ?case
  proof (cases "tb_find delimiter (mr_buffer r)")
    case (Some at)
    then show ?thesis
      using less.prems by (subst (asm) read_until.simps)
        (auto simp: and_then_Ok_iff shrinks_def tb_drain_bytes_def split: if_splits)
  next
    case None
    then obtain seg b where s: "next_segment (mr_body r) = Ok (Some seg, b)"
        "read_until delimiter maximum (reader_push seg b r) = Ok (out, r')"
      using less.prems by (subst (asm) read_until.simps) (auto simp: and_then_Ok_iff split: option.splits if_splits)
    have "rest_size (mr_body (reader_push seg b r)) < rest_size (mr_body r)"
      using next_segment_smaller [OF s(1)] by (simp add: reader_push_def)
    then show ?thesis using less.hyps [OF _ s(2)] shrinks_piece [OF s(1)] by blast
  qed
qed

lemma fill_if_empty_shrinks: "fill_if_empty r = Ok r1 \<Longrightarrow> shrinks 0 r r1"
  by (auto simp: fill_if_empty_def and_then_Ok_iff split: if_splits option.splits intro: shrinks_piece [OF _ shrinks_refl])

lemma read_payload_shrinks: "read_payload n acc first r = Ok (out, f, r') \<Longrightarrow> shrinks 0 r r'"
proof (induction n acc first r rule: read_payload.induct)
  case (1 n acc first r)
  show ?case
  proof (cases "n = 0")
    case True
    then show ?thesis using 1(2) by (subst (asm) read_payload.simps) simp
  next
    case False
    then obtain r1 seg buffer where s: "fill_if_empty r = Ok r1" "tb_pop_segment n (mr_buffer r1) = Ok (Some (seg, buffer))"
        "read_payload (n - length (ti_bytes seg)) (acc @ ti_bytes seg)
           (case first of None \<Rightarrow> Some (ti_arrived seg) | Some t \<Rightarrow> Some t) (r1\<lparr>mr_buffer := buffer\<rparr>) = Ok (out, f, r')"
      using 1(2) by (subst (asm) read_payload.simps) (auto simp: and_then_Ok_iff split: option.splits)
    have "shrinks 0 (r1\<lparr>mr_buffer := buffer\<rparr>) r'" using 1(1) [OF False s(1,2) refl refl s(3)] .
    moreover have "shrinks 0 r1 (r1\<lparr>mr_buffer := buffer\<rparr>)"
      using s(2) by (auto simp: shrinks_def tb_pop_segment_def Let_def split: list.splits if_splits)
    ultimately show ?thesis using fill_if_empty_shrinks [OF s(1)] by (auto simp: shrinks_def)
  qed
qed

lemma read_closing_shrinks: "read_closing r = Ok r' \<Longrightarrow> \<not> mr_finished r' \<Longrightarrow> shrinks 0 r r'"
  by (auto simp: read_closing_def read_line_def and_then_Ok_iff split: if_splits
      dest!: read_exact_shrinks read_until_shrinks dest: shrinks_trans shrinks_mono)

lemma next_part_shrinks:
  assumes "next_part r = Ok (Some p, r')"
  shows "\<not> mr_finished r" "\<not> mr_finished r' \<Longrightarrow> shrinks 4 r r'"
proof -
  show fin: "\<not> mr_finished r" using assms by (auto simp: next_part_def)
  assume open_: "\<not> mr_finished r'"
  obtain r1 head r2 headers n payload f r3 where s: "read_opening r = Ok r1"
      "read_until CRLFCRLF MAX_PART_HEADER_BYTES r1 = Ok (head, r2)" "read_payload n [] None r2 = Ok (payload, f, r3)"
      "read_closing r3 = Ok r'"
    using assms fin by (auto simp: next_part_def and_then_Ok_iff)
  have "shrinks 0 r r1"
    using s(1) by (auto simp: read_opening_def read_line_def and_then_Ok_iff shrinks_def split: if_splits
        dest!: read_until_shrinks)
  moreover have "shrinks 4 r1 r2" using read_until_shrinks [OF s(2)] by (simp add: eval_nat_numeral)
  moreover have "shrinks 0 r2 r3" "shrinks 0 r3 r'"
    using read_payload_shrinks [OF s(3)] read_closing_shrinks [OF s(4) open_] by simp_all
  ultimately show "shrinks 4 r r'" by (auto simp: shrinks_def)
qed

section \<open>Times and rates\<close>

fun fp_div :: "fp_format \<Rightarrow> fp \<Rightarrow> fp \<Rightarrow> fp" where
  "fp_div fmt FNan _ = FNan"
| "fp_div fmt _ FNan = FNan"
| "fp_div fmt (FInf a) (FInf b) = FNan"
| "fp_div fmt (FInf a) (FFin q) = FInf (a \<noteq> (q < 0))"
| "fp_div fmt (FFin q) (FInf b) = FFin 0"
| "fp_div fmt (FFin a) (FFin b) = (if b = 0 then (if a = 0 then FNan else FInf (a < 0)) else fp_round fmt (a / b))"

definition f64_div :: "f64 \<Rightarrow> f64 \<Rightarrow> f64" where "f64_div = fp_div f64_format"
definition nat_f64 :: "nat \<Rightarrow> f64" where "nat_f64 n = fp_round f64_format (real n)"

text \<open>\<open>Duration::as_secs_f64\<close>.\<close>

definition as_secs_f64 :: "duration \<Rightarrow> f64" where
  "as_secs_f64 d = f64_add (nat_f64 (d div 1000000000)) (f64_div (nat_f64 (d mod 1000000000)) (nat_f64 1000000000))"

definition milliseconds :: "duration \<Rightarrow> f64" where
  "milliseconds d = f64_mul (as_secs_f64 d) (nat_f64 1000)"

definition audio_duration_seconds :: "nat \<Rightarrow> nat \<Rightarrow> bench_error + f64" where
  "audio_duration_seconds samples rate =
     (if 2 ^ 32 \<le> samples then Err (BenchValidation ''PCM sample count exceeds the reportable range'')
      else if 2 ^ 32 \<le> rate then Err (BenchValidation ''PCM sample rate exceeds the reportable range'')
      else Ok (f64_div (nat_f64 samples) (nat_f64 rate)))"

section \<open>Content types\<close>

definition media_type_is :: "bytes \<Rightarrow> bytes \<Rightarrow> bool" where
  "media_type_is v expected = eq_ignore_ascii_case (trim (hd (split_on '';'' [] v))) expected"

definition trim_quotes :: "bytes \<Rightarrow> bytes" where
  "trim_quotes s = rev (dropWhile (\<lambda>c. c = CHR 0x22) (rev (dropWhile (\<lambda>c. c = CHR 0x22) s)))"

fun find_parameter :: "bytes \<Rightarrow> bytes list \<Rightarrow> bytes option" where
  "find_parameter expected [] = None"
| "find_parameter expected (p # ps) =
     (case split_once (CHR ''='') (trim p) of
        None \<Rightarrow> find_parameter expected ps
      | Some (name, v) \<Rightarrow>
          if eq_ignore_ascii_case (trim name) expected then Some (trim_quotes (trim v)) else find_parameter expected ps)"

definition content_type_parameter :: "bytes \<Rightarrow> bytes \<Rightarrow> bytes option" where
  "content_type_parameter content_type expected = find_parameter expected (tl (split_on '';'' [] content_type))"

definition validate_native_audio_content_type :: "bytes \<Rightarrow> bench_error + unit" where
  "validate_native_audio_content_type content_type =
     (let number = (\<lambda>name. Option.bind (content_type_parameter content_type name) (parse_unsigned u64_max)) in
      if number ''rate'' \<noteq> Some BENCH_SAMPLE_RATE_HZ \<or> number ''channels'' \<noteq> Some 1
        \<or> (case content_type_parameter content_type ''format'' of None \<Rightarrow> True | Some v \<Rightarrow> \<not> eq_ignore_ascii_case v ''s16le'')
      then Err (BenchValidation ''native audio part Content-Type is not PCM16 mono at 24 kHz'')
      else Ok ())"

definition sample_rate_from_headers :: "response_head \<Rightarrow> bytes \<Rightarrow> bench_error + nat" where
  "sample_rate_from_headers h content_type =
     and_then (ok_or (case head_header ''x-sample-rate'' h of
         Some v \<Rightarrow> Some v | None \<Rightarrow> content_type_parameter content_type ''rate'')
       (BenchValidation ''raw PCM response must declare x-sample-rate or Content-Type rate'')) (\<lambda>v.
     and_then (ok_or (parse_unsigned u64_max v) (BenchValidation ''raw PCM sample rate is invalid'')) (\<lambda>rate.
     if rate = 0 \<or> 768000 < rate then Err (BenchValidation ''raw PCM sample rate is outside 1..=768000 Hz'')
     else Ok rate))"

section \<open>Events\<close>

record json_audio =
  ja_encoding :: bytes
  ja_sample_rate_hz :: nat
  ja_channels :: nat
  ja_samples_per_codec_frame :: nat

record json_event =
  je_type :: bytes
  je_request_id :: "bytes option"
  je_finish_reason :: "bytes option"
  je_metrics :: "json option"
  je_audio :: "json_audio option"

definition validate_event_request_id :: "bytes \<Rightarrow> bytes option \<Rightarrow> bench_error + unit" where
  "validate_event_request_id header event =
     (case event of
        None \<Rightarrow> Err (BenchValidation ''multipart JSON event has no request_id'')
      | Some given \<Rightarrow>
          if header \<noteq> given then Err (BenchValidation ''multipart event request_id differs from response header'') else Ok ())"

definition validate_start_audio :: "json_audio option \<Rightarrow> bench_error + unit" where
  "validate_start_audio audio =
     (case audio of
        None \<Rightarrow> Err (BenchValidation ''start event has no audio description'')
      | Some a \<Rightarrow>
          if ja_encoding a \<noteq> ''pcm_s16le'' \<or> ja_sample_rate_hz a \<noteq> BENCH_SAMPLE_RATE_HZ \<or> ja_channels a \<noteq> 1
            \<or> ja_samples_per_codec_frame a \<noteq> 1920
          then Err (BenchValidation ''start event audio description is not native PCM16 mono at 24 kHz'')
          else Ok ())"

text \<open>\<open>quoted\<close> is the debug rendering of a text in a message.\<close>

definition validate_native_finish_reason :: "(bytes \<Rightarrow> bytes) \<Rightarrow> bytes \<Rightarrow> bench_error + unit" where
  "validate_native_finish_reason quoted reason =
     (if reason \<noteq> ''stop'' \<and> reason \<noteq> ''length''
      then Err (BenchValidation (''native finish reason '' @ quoted reason @ '' is unsupported''))
      else Ok ())"

definition validate_end_metrics :: "json option \<Rightarrow> u64 \<Rightarrow> u64 \<Rightarrow> bench_error + unit" where
  "validate_end_metrics metrics packets samples =
     and_then (ok_or (Option.bind metrics as_object) (BenchValidation ''end event metrics are missing'')) (\<lambda>fields.
     if Option.bind (map_of fields ''emitted_packets'') as_u64 \<noteq> Some (unat packets)
       \<or> Option.bind (map_of fields ''emitted_samples'') as_u64 \<noteq> Some (unat samples)
     then Err (BenchValidation ''end event metrics disagree with observed packets or samples'')
     else Ok ())"

section \<open>The stream state\<close>

record prepared_request =
  pq_index :: nat
  pq_entry :: workload_entry
  pq_body :: bytes
  pq_body_sha256 :: bytes
  pq_sampling_audit :: sampling_audit

datatype packet_kind = NativeAudioPacket | RawPcmTransportArrival

record packet_record =
  pk_request_index :: nat
  pk_workload_id :: bytes
  pk_backend :: backend_profile
  pk_kind :: packet_kind
  pk_sequence :: u64
  pk_arrival_ms :: f64
  pk_inter_arrival_ms :: "f64 option"
  pk_payload_bytes :: u64
  pk_payload_sha256 :: bytes
  pk_byte_offset :: u64
  pk_first_codec_frame :: "u64 option"
  pk_first_sample :: "u64 option"
  pk_sample_count :: "u64 option"
  pk_codec_frames :: "u64 option"
  pk_is_first :: bool
  pk_is_final :: "bool option"

record native_stream =
  ns_server_request_id :: bytes
  ns_expected_sequence :: u64
  ns_expected_sample :: u64
  ns_expected_codec_frame :: u64
  ns_byte_offset :: u64
  ns_first_audio_at :: "instant option"
  ns_previous_audio_at :: "instant option"
  ns_start_seen :: bool
  ns_end_seen :: bool
  ns_final_seen :: bool
  ns_finish_reason :: "bytes option"
  ns_end_metrics :: "json option"
  ns_audio :: bytes

definition native_stream_new :: "bytes \<Rightarrow> native_stream" where
  "native_stream_new request_id =
     \<lparr>ns_server_request_id = request_id, ns_expected_sequence = 0, ns_expected_sample = 0, ns_expected_codec_frame = 0,
      ns_byte_offset = 0, ns_first_audio_at = None, ns_previous_audio_at = None, ns_start_seen = False,
      ns_end_seen = False, ns_final_seen = False, ns_finish_reason = None, ns_end_metrics = None, ns_audio = []\<rparr>"

definition handle_end_event :: "(bytes \<Rightarrow> bytes) \<Rightarrow> json_event \<Rightarrow> native_stream \<Rightarrow> bench_error + native_stream" where
  "handle_end_event quoted event s =
     and_then (ok_or (je_finish_reason event) (BenchValidation ''end event has no finish_reason'')) (\<lambda>reason.
     and_then (validate_native_finish_reason quoted reason) (\<lambda>_.
     and_then (validate_end_metrics (je_metrics event) (ns_expected_sequence s) (ns_expected_sample s)) (\<lambda>_.
     Ok (s\<lparr>ns_finish_reason := Some reason, ns_end_metrics := je_metrics event, ns_end_seen := True\<rparr>))))"

definition handle_json_event :: "(bytes \<Rightarrow> bytes) \<Rightarrow> json_event \<Rightarrow> native_stream \<Rightarrow> bench_error + native_stream" where
  "handle_json_event quoted event s =
     and_then (validate_event_request_id (ns_server_request_id s) (je_request_id event)) (\<lambda>_.
     if je_type event = ''start'' \<and> \<not> ns_start_seen s \<and> ns_expected_sequence s = 0 \<and> \<not> ns_end_seen s
     then and_then (validate_start_audio (je_audio event)) (\<lambda>_. Ok (s\<lparr>ns_start_seen := True\<rparr>))
     else if je_type event = ''end'' \<and> ns_start_seen s \<and> 0 < ns_expected_sequence s \<and> \<not> ns_end_seen s
     then handle_end_event quoted event s
     else Err (BenchValidation ''multipart JSON events are missing, duplicated, or out of order''))"

definition part_u64 :: "body_part \<Rightarrow> bytes \<Rightarrow> bench_error + u64" where
  "part_u64 p name =
     and_then (ok_or (part_header name p) (BenchValidation (''audio part has no '' @ name @ '' header''))) (\<lambda>v.
     map_err (\<lambda>_. BenchValidation (''audio part '' @ name @ '' header is invalid''))
       (ok_or (map_option of_nat (parse_unsigned u64_max v)) ()))"

definition part_bool :: "body_part \<Rightarrow> bytes \<Rightarrow> bench_error + bool" where
  "part_bool p name =
     and_then (ok_or (part_header name p) (BenchValidation (''audio part has no '' @ name @ '' header''))) (\<lambda>v.
     if v = ''true'' then Ok True else if v = ''false'' then Ok False
     else Err (BenchValidation (''audio part '' @ name @ '' header is invalid'')))"

text \<open>The positions a part declares.\<close>

record audio_fields =
  af_sequence :: u64
  af_first_codec_frame :: u64
  af_first_sample :: u64
  af_sample_count :: u64
  af_codec_frames :: u64
  af_is_final :: bool

definition audio_fields_of :: "body_part \<Rightarrow> bench_error + audio_fields" where
  "audio_fields_of p =
     and_then (part_u64 p ''x-sequence'') (\<lambda>sequence.
     and_then (part_u64 p ''x-first-codec-frame'') (\<lambda>first_frame.
     and_then (part_u64 p ''x-first-sample'') (\<lambda>first_sample.
     and_then (part_u64 p ''x-sample-count'') (\<lambda>samples.
     and_then (part_u64 p ''x-codec-frames'') (\<lambda>frames.
     and_then (part_bool p ''x-final'') (\<lambda>final.
     Ok \<lparr>af_sequence = sequence, af_first_codec_frame = first_frame, af_first_sample = first_sample,
         af_sample_count = samples, af_codec_frames = frames, af_is_final = final\<rparr>))))))"

definition packet_record_of :: "(bytes \<Rightarrow> bytes) \<Rightarrow> body_part \<Rightarrow> audio_fields \<Rightarrow> prepared_request \<Rightarrow> instant \<Rightarrow> instant \<Rightarrow>
    native_stream \<Rightarrow> packet_record" where
  "packet_record_of digest p a request t0 arrival s =
     \<lparr>pk_request_index = pq_index request, pk_workload_id = we_id (pq_entry request), pk_backend = ProfileNative,
      pk_kind = NativeAudioPacket, pk_sequence = af_sequence a, pk_arrival_ms = milliseconds (arrival - t0),
      pk_inter_arrival_ms = map_option (\<lambda>previous. milliseconds (arrival - previous)) (ns_previous_audio_at s),
      pk_payload_bytes = of_nat (length (pt_payload p)), pk_payload_sha256 = digest (pt_payload p),
      pk_byte_offset = ns_byte_offset s, pk_first_codec_frame = Some (af_first_codec_frame a),
      pk_first_sample = Some (af_first_sample a), pk_sample_count = Some (af_sample_count a),
      pk_codec_frames = Some (af_codec_frames a), pk_is_first = af_sequence a = 0, pk_is_final = Some (af_is_final a)\<rparr>"

definition handle_audio_part :: "(bytes \<Rightarrow> bytes) \<Rightarrow> body_part \<Rightarrow> prepared_request \<Rightarrow> instant \<Rightarrow> native_stream \<Rightarrow>
    bench_error + packet_record \<times> native_stream" where
  "handle_audio_part digest p request t0 s =
     (if \<not> ns_start_seen s \<or> ns_end_seen s \<or> ns_final_seen s
      then Err (BenchValidation ''audio packet is outside the start/end event interval'')
      else and_then (ok_or (pt_first_payload_at p) (BenchValidation ''audio packet payload is empty'')) (\<lambda>arrival.
        and_then (audio_fields_of p) (\<lambda>a.
        let payload_bytes = of_nat (length (pt_payload p)) in
        if af_sequence a \<noteq> ns_expected_sequence s \<or> af_first_sample a \<noteq> ns_expected_sample s
          \<or> af_first_codec_frame a \<noteq> ns_expected_codec_frame s \<or> af_sample_count a = 0 \<or> af_codec_frames a = 0
          \<or> checked_mul (af_sample_count a) 2 \<noteq> Some payload_bytes
        then Err (BenchValidation ''native audio packet sequence/sample/frame continuity is invalid'')
        else Ok (packet_record_of digest p a request t0 arrival s,
          s\<lparr>ns_first_audio_at := (case ns_first_audio_at s of None \<Rightarrow> Some arrival | Some t \<Rightarrow> Some t),
            ns_audio := ns_audio s @ pt_payload p,
            ns_expected_sequence := ns_expected_sequence s + 1,
            ns_expected_sample := ns_expected_sample s + af_sample_count a,
            ns_expected_codec_frame := ns_expected_codec_frame s + af_codec_frames a,
            ns_byte_offset := ns_byte_offset s + payload_bytes,
            ns_previous_audio_at := Some arrival, ns_final_seen := af_is_final a\<rparr>))))"

definition validate_complete :: "native_stream \<Rightarrow> bench_error + unit" where
  "validate_complete s =
     (if \<not> ns_start_seen s \<or> \<not> ns_end_seen s \<or> \<not> ns_final_seen s \<or> ns_first_audio_at s = None
      then Err (BenchValidation
        ''multipart response lacks a start event, PCM payload, final audio flag, or end event'')
      else Ok ())"

text \<open>What stands for third-party code and the rendering of messages.\<close>

record client_foreign =
  cf_parse_event :: "bytes \<Rightarrow> bytes + json_event"
  cf_digest :: "bytes \<Rightarrow> bytes"
  cf_quoted :: "bytes \<Rightarrow> bytes"

definition handle_part :: "client_foreign \<Rightarrow> prepared_request \<Rightarrow> instant \<Rightarrow> body_part \<Rightarrow> packet_record list \<times> native_stream \<Rightarrow>
    bench_error + packet_record list \<times> native_stream" where
  "handle_part cf request t0 p = (\<lambda>(packets, s).
     and_then (ok_or (part_header ''content-type'' p) (BenchValidation ''multipart part has no Content-Type'')) (\<lambda>content_type.
     if media_type_is content_type ''application/json''
     then and_then (map_err BenchJson (cf_parse_event cf (pt_payload p))) (\<lambda>event.
          and_then (handle_json_event (cf_quoted cf) event s) (\<lambda>s1. Ok (packets, s1)))
     else if media_type_is content_type ''audio/pcm''
     then and_then (validate_native_audio_content_type content_type) (\<lambda>_.
          and_then (handle_audio_part (cf_digest cf) p request t0 s) (\<lambda>(packet, s1). Ok (packets @ [packet], s1)))
     else Err (BenchValidation (''unsupported multipart part Content-Type '' @ cf_quoted cf content_type))))"

function read_parts :: "client_foreign \<Rightarrow> prepared_request \<Rightarrow> instant \<Rightarrow> multipart_reader \<Rightarrow> packet_record list \<times> native_stream \<Rightarrow>
    bench_error + (packet_record list \<times> native_stream) \<times> multipart_reader" where
  "read_parts cf request t0 r seen =
     and_then (next_part r) (\<lambda>(p, r1).
     case p of
       None \<Rightarrow> Ok (seen, r1)
     | Some p' \<Rightarrow> and_then (handle_part cf request t0 p' seen) (\<lambda>seen1. read_parts cf request t0 r1 seen1))"
  by pat_completeness auto
termination
  by (relation "measures [\<lambda>(_, _, _, r, _). if mr_finished r then 0 else 1, \<lambda>(_, _, _, r, _). rest_size (mr_body r),
      \<lambda>(_, _, _, r, _). tb_len (mr_buffer r)]")
    (auto simp: shrinks_def dest: next_part_shrinks)

declare read_parts.simps [simp del]

text \<open>What a native streaming response shows, before it is written into the request's record.\<close>

definition parse_native_stream :: "client_foreign \<Rightarrow> prepared_request \<Rightarrow> bytes \<Rightarrow> bytes \<Rightarrow> http_body \<Rightarrow> instant \<Rightarrow>
    bench_error + packet_record list \<times> native_stream \<times> multipart_reader" where
  "parse_native_stream cf request request_id boundary b t0 =
     and_then (read_parts cf request t0 (multipart_reader_new b boundary) ([], native_stream_new request_id)) (\<lambda>((packets, s), r).
     and_then (validate_complete s) (\<lambda>_. Ok (packets, s, r)))"

end
