(* ===== verification/HbOutcome.thy ===== *)
theory HbOutcome
  imports HbRunner
begin

text \<open>
  The rest of \<open>runner.rs\<close> and \<open>url.rs\<close> of \<open>qwen3-tts-http-bench\<close>: the endpoint, what a response
  becomes in the report, and one exchange. Sockets are given by what they yield, and so are the clock's
  readings, the digest and name resolution.
\<close>

section \<open>The endpoint\<close>

record 'addr endpoint =
  en_authority :: bytes
  en_path_and_query :: bytes
  en_addresses :: "'addr list"

definition config_error :: "bytes \<Rightarrow> bench_error + 'a" where
  "config_error message = Err (BenchConfiguration message)"

text \<open>\<open>str::rsplit_once\<close> at a one-byte separator.\<close>

definition rsplit_once :: "byte \<Rightarrow> bytes \<Rightarrow> (bytes \<times> bytes) option" where
  "rsplit_once d s = map_option (\<lambda>(a, b). (rev b, rev a)) (split_once d (rev s))"

text \<open>\<open>is_ip\<close> says whether a text is an IP address.\<close>

definition parse_port :: "bytes \<Rightarrow> bench_error + nat" where
  "parse_port s = ok_or (parse_unsigned 65535 s) (BenchConfiguration ''endpoint port is invalid'')"

definition split_authority :: "(bytes \<Rightarrow> bool) \<Rightarrow> bytes \<Rightarrow> bench_error + bytes \<times> nat" where
  "split_authority is_ip authority =
     (if starts_with ''['' authority then
        and_then (ok_or (split_once (CHR '']'') (drop 1 authority)) (BenchConfiguration ''invalid bracketed IPv6 endpoint'')) (\<lambda>(host, suffix).
        if \<not> starts_with '':'' suffix then config_error ''endpoint port is required''
        else and_then (parse_port (drop 1 suffix)) (\<lambda>port.
             if \<not> is_ip host then config_error ''invalid IPv6 endpoint'' else Ok (host, port)))
      else
        and_then (ok_or (rsplit_once (CHR '':'') authority) (BenchConfiguration ''endpoint must include an explicit port'')) (\<lambda>(host, port).
        if host = [] \<or> CHR '':'' \<in> set host then config_error ''IPv6 endpoints must use brackets''
        else and_then (parse_port port) (\<lambda>p. Ok (host, p))))"

definition parse_loopback :: "(bytes \<Rightarrow> bool) \<Rightarrow> (bytes \<Rightarrow> nat \<Rightarrow> bytes + 'addr list) \<Rightarrow> ('addr \<Rightarrow> bool) \<Rightarrow> bytes \<Rightarrow>
    bench_error + 'addr endpoint" where
  "parse_loopback is_ip lookup is_loopback raw =
     (if \<not> starts_with ''http://'' raw then config_error ''endpoint must use plain http:// on a loopback interface''
      else let remainder = drop 7 raw in
      if CHR ''#'' \<in> set remainder \<or> CHR ''@'' \<in> set remainder
      then config_error ''endpoint must not contain fragments or user information''
      else let (authority, path) = (case split_once (CHR ''/'') remainder of None \<Rightarrow> (remainder, ''/'') | Some p \<Rightarrow> p) in
      if authority = [] then config_error ''endpoint authority is empty''
      else let path_and_query = (if path = ''/'' then ''/'' else ''/'' @ path) in
      and_then (split_authority is_ip authority) (\<lambda>(host, port).
      and_then (map_err BenchIo (lookup host port)) (\<lambda>addresses.
      if addresses = [] then config_error ''endpoint did not resolve to an address''
      else if \<exists>a \<in> set addresses. \<not> is_loopback a then config_error ''every resolved endpoint address must be loopback''
      else Ok \<lparr>en_authority = authority, en_path_and_query = path_and_query, en_addresses = addresses\<rparr>)))"

section \<open>Records\<close>

record failure_record =
  fr_code :: bytes
  fr_message :: bytes
  fr_response_body_bytes :: "u64 option"
  fr_response_body_sha256 :: "bytes option"

text \<open>The four sampling fields of a request's record are its audit.\<close>

record bench_record =
  rr_request_index :: nat
  rr_workload_id :: bytes
  rr_backend :: backend_profile
  rr_text_sha256 :: bytes
  rr_voice_description_sha256 :: bytes
  rr_request_body_sha256 :: bytes
  rr_sampling_audit :: sampling_audit
  rr_text :: "bytes option"
  rr_voice_description :: "bytes option"
  rr_language :: bytes
  rr_streaming :: bool
  rr_success :: bool
  rr_http_status :: "nat option"
  rr_server_request_id :: "bytes option"
  rr_server_seed :: "bytes option"
  rr_ttfa_ms :: "f64 option"
  rr_wall_ms :: "f64 option"
  rr_sample_rate_hz :: "nat option"
  rr_samples :: "u64 option"
  rr_audio_sha256 :: "bytes option"
  rr_audio_seconds :: "f64 option"
  rr_rtf :: "f64 option"
  rr_response_bytes :: "u64 option"
  rr_packet_count :: u64
  rr_continuity_valid :: bool
  rr_final_flag_seen :: "bool option"
  rr_finish_reason :: "bytes option"
  rr_natural_eos :: "bool option"
  rr_length_limited :: "bool option"
  rr_end_metrics :: "json option"
  rr_failure :: "failure_record option"

record outcome =
  oc_record :: bench_record
  oc_packets :: "packet_record list"

definition logged :: "bool \<Rightarrow> bytes \<Rightarrow> bytes option" where
  "logged log_prompt_text s = (if log_prompt_text then Some s else None)"

text \<open>The fields both kinds of record take from the request; everything measured is absent.\<close>

definition request_fields :: "client_foreign \<Rightarrow> bool \<Rightarrow> prepared_request \<Rightarrow> backend_profile \<Rightarrow> bool \<Rightarrow> bench_record" where
  "request_fields cf log_text request backend success =
     (let e = pq_entry request in
      \<lparr>rr_request_index = pq_index request, rr_workload_id = we_id e, rr_backend = backend,
       rr_text_sha256 = cf_digest cf (we_text e), rr_voice_description_sha256 = cf_digest cf (we_voice_description e),
       rr_request_body_sha256 = pq_body_sha256 request, rr_sampling_audit = pq_sampling_audit request,
       rr_text = logged log_text (we_text e), rr_voice_description = logged log_text (we_voice_description e),
       rr_language = we_language e, rr_streaming = we_stream e, rr_success = success,
       rr_http_status = None, rr_server_request_id = None, rr_server_seed = None,
       rr_ttfa_ms = None, rr_wall_ms = None, rr_sample_rate_hz = None, rr_samples = None, rr_audio_sha256 = None,
       rr_audio_seconds = None, rr_rtf = None, rr_response_bytes = None, rr_packet_count = 0,
       rr_continuity_valid = False, rr_final_flag_seen = None, rr_finish_reason = None, rr_natural_eos = None,
       rr_length_limited = None, rr_end_metrics = None, rr_failure = None\<rparr>)"

definition successful_record :: "client_foreign \<Rightarrow> bool \<Rightarrow> prepared_request \<Rightarrow> backend_profile \<Rightarrow> response_head \<Rightarrow> bench_record" where
  "successful_record cf log_text request backend head =
     (request_fields cf log_text request backend True)
       \<lparr>rr_http_status := Some (rh_status head), rr_server_request_id := head_header ''x-request-id'' head,
        rr_server_seed := head_header ''x-qwen3-seed'' head\<rparr>"

definition failed_outcome_values :: "client_foreign \<Rightarrow> backend_profile \<Rightarrow> bool \<Rightarrow> prepared_request \<Rightarrow> bytes \<Rightarrow> bytes \<Rightarrow> outcome" where
  "failed_outcome_values cf profile log_text request code message =
     \<lparr>oc_record = (request_fields cf log_text request profile False)
        \<lparr>rr_failure := Some \<lparr>fr_code = code, fr_message = message, fr_response_body_bytes = None, fr_response_body_sha256 = None\<rparr>\<rparr>,
      oc_packets = []\<rparr>"

section \<open>Reading a response\<close>

text \<open>The segments of a body to its end.\<close>

function read_segments :: "http_body \<Rightarrow> timed_bytes list \<Rightarrow> bench_error + timed_bytes list \<times> http_body" where
  "read_segments b segs =
     and_then (next_segment b) (\<lambda>(seg, b1).
     case seg of
       None \<Rightarrow> Ok (segs, b1)
     | Some s \<Rightarrow> read_segments b1 (segs @ [s]))"
  by pat_completeness auto
termination by (relation "measure (\<lambda>(b, _). rest_size b)") (auto dest: next_segment_smaller)

declare read_segments.simps [simp del]

text \<open>\<open>now\<close> is the clock when the response has been read.\<close>

definition http_failure :: "client_foreign \<Rightarrow> backend_profile \<Rightarrow> bool \<Rightarrow> prepared_request \<Rightarrow> response_head \<Rightarrow> http_body \<Rightarrow>
    instant \<Rightarrow> instant \<Rightarrow> bench_error + outcome" where
  "http_failure cf profile log_text request head b t0 now =
     and_then (read_segments b []) (\<lambda>(segs, b1).
     let body = concat (map ti_bytes segs);
         failed = failed_outcome_values cf profile log_text request ''http_status''
           (''endpoint returned HTTP status '' @ show_nat (rh_status head));
         record = (oc_record failed)
           \<lparr>rr_http_status := Some (rh_status head), rr_wall_ms := Some (milliseconds (now - t0)),
            rr_response_bytes := Some (hb_response_bytes b1), rr_server_request_id := head_header ''x-request-id'' head,
            rr_failure := map_option (\<lambda>f. f\<lparr>fr_response_body_bytes := Some (of_nat (length body)),
              fr_response_body_sha256 := Some (cf_digest cf body)\<rparr>) (rr_failure (oc_record failed))\<rparr>
     in Ok (failed\<lparr>oc_record := record\<rparr>))"

definition real_time_factor :: "f64 \<Rightarrow> f64 \<Rightarrow> f64" where
  "real_time_factor wall_ms audio_seconds = f64_div (f64_div wall_ms (nat_f64 1000)) audio_seconds"

definition parse_native_multipart :: "client_foreign \<Rightarrow> bool \<Rightarrow> prepared_request \<Rightarrow> response_head \<Rightarrow> bytes \<Rightarrow> http_body \<Rightarrow>
    instant \<Rightarrow> bytes \<Rightarrow> instant \<Rightarrow> bench_error + outcome" where
  "parse_native_multipart cf log_text request head request_id b t0 boundary now =
     and_then (parse_native_stream cf request request_id boundary b t0) (\<lambda>(packets, s, r).
     let wall_ms = milliseconds (now - t0) in
     and_then (audio_duration_seconds (unat (ns_expected_sample s)) BENCH_SAMPLE_RATE_HZ) (\<lambda>audio_seconds.
     Ok \<lparr>oc_record = (successful_record cf log_text request ProfileNative head)
          \<lparr>rr_ttfa_ms := map_option (\<lambda>t. milliseconds (t - t0)) (ns_first_audio_at s), rr_wall_ms := Some wall_ms,
           rr_sample_rate_hz := Some BENCH_SAMPLE_RATE_HZ, rr_samples := Some (ns_expected_sample s),
           rr_audio_sha256 := Some (cf_digest cf (ns_audio s)), rr_audio_seconds := Some audio_seconds,
           rr_rtf := Some (real_time_factor wall_ms audio_seconds), rr_response_bytes := Some (hb_response_bytes (mr_body r)),
           rr_packet_count := ns_expected_sequence s, rr_continuity_valid := True, rr_final_flag_seen := Some True,
           rr_finish_reason := ns_finish_reason s, rr_natural_eos := Some (ns_finish_reason s = Some ''stop''),
           rr_length_limited := Some (ns_finish_reason s = Some ''length''), rr_end_metrics := ns_end_metrics s\<rparr>,
         oc_packets = packets\<rparr>))"

text \<open>The arrival of the byte at an offset.\<close>

fun arrival_of :: "nat \<Rightarrow> timed_bytes list \<Rightarrow> instant option" where
  "arrival_of offset [] = None"
| "arrival_of offset (s # segs) =
     (if offset < length (ti_bytes s) then Some (ti_arrived s) else arrival_of (offset - length (ti_bytes s)) segs)"

definition parse_native_wav :: "client_foreign \<Rightarrow> bool \<Rightarrow> prepared_request \<Rightarrow> response_head \<Rightarrow> http_body \<Rightarrow> instant \<Rightarrow> instant \<Rightarrow>
    bench_error + outcome" where
  "parse_native_wav cf log_text request head b t0 now =
     and_then (read_segments b []) (\<lambda>(segs, b1).
     let wav = concat (map ti_bytes segs) in
     and_then (validate_wav wav) (\<lambda>info.
     and_then (ok_or (arrival_of (wi_data_offset info) segs) (BenchWav ''could not timestamp first PCM byte'')) (\<lambda>first_pcm_at.
     and_then (ok_or (head_header ''x-finish-reason'' head) (BenchValidation ''WAV response has no x-finish-reason'')) (\<lambda>reason.
     and_then (validate_native_finish_reason (cf_quoted cf) reason) (\<lambda>_.
     let wall_ms = milliseconds (now - t0) in
     and_then (audio_duration_seconds (wi_sample_count info) BENCH_SAMPLE_RATE_HZ) (\<lambda>audio_seconds.
     Ok \<lparr>oc_record = (successful_record cf log_text request ProfileNative head)
          \<lparr>rr_ttfa_ms := Some (milliseconds (first_pcm_at - t0)), rr_wall_ms := Some wall_ms,
           rr_sample_rate_hz := Some BENCH_SAMPLE_RATE_HZ, rr_samples := Some (of_nat (wi_sample_count info)),
           rr_audio_sha256 := Some (cf_digest cf (byte_range (wi_data_offset info) (wi_data_offset info + wi_data_bytes info) wav)),
           rr_audio_seconds := Some audio_seconds, rr_rtf := Some (real_time_factor wall_ms audio_seconds),
           rr_response_bytes := Some (hb_response_bytes b1), rr_packet_count := 0, rr_continuity_valid := True,
           rr_final_flag_seen := None, rr_finish_reason := Some reason, rr_natural_eos := Some (reason = ''stop''),
           rr_length_limited := Some (reason = ''length'')\<rparr>,
         oc_packets = []\<rparr>))))))"

definition parse_native :: "client_foreign \<Rightarrow> bool \<Rightarrow> prepared_request \<Rightarrow> response_head \<Rightarrow> http_body \<Rightarrow> instant \<Rightarrow> instant \<Rightarrow>
    bench_error + outcome" where
  "parse_native cf log_text request head b t0 now =
     and_then (ok_or (head_header ''x-request-id'' head) (BenchValidation ''native response has no x-request-id header'')) (\<lambda>request_id.
     and_then (ok_or (head_header ''content-type'' head) (BenchValidation ''response has no Content-Type'')) (\<lambda>content_type.
     if we_stream (pq_entry request)
     then and_then (boundary_from_content_type content_type) (\<lambda>boundary.
          parse_native_multipart cf log_text request head request_id b t0 boundary now)
     else if \<not> media_type_is content_type ''audio/wav''
     then Err (BenchValidation ''buffered native response is not audio/wav'')
     else parse_native_wav cf log_text request head b t0 now))"

section \<open>Raw PCM\<close>

text \<open>Arrivals of the same instant are one chunk; empty ones are none.\<close>

definition add_chunk :: "timed_bytes list \<Rightarrow> timed_bytes \<Rightarrow> timed_bytes list" where
  "add_chunk chunks s =
     (if ti_bytes s = [] then chunks
      else if chunks \<noteq> [] \<and> ti_arrived (last chunks) = ti_arrived s
      then butlast chunks @ [(last chunks)\<lparr>ti_bytes := ti_bytes (last chunks) @ ti_bytes s\<rparr>]
      else chunks @ [s])"

fun raw_packets :: "client_foreign \<Rightarrow> prepared_request \<Rightarrow> instant \<Rightarrow> nat \<Rightarrow> u64 \<Rightarrow> instant option \<Rightarrow> timed_bytes list \<Rightarrow>
    packet_record list" where
  "raw_packets cf request t0 n byte_offset previous [] = []"
| "raw_packets cf request t0 n byte_offset previous (chunk # chunks) =
     (let payload_bytes = of_nat (length (ti_bytes chunk));
          aligned = byte_offset mod 2 = 0 \<and> payload_bytes mod 2 = 0
      in \<lparr>pk_request_index = pq_index request, pk_workload_id = we_id (pq_entry request), pk_backend = ProfileSglangOmni,
          pk_kind = RawPcmTransportArrival, pk_sequence = of_nat n, pk_arrival_ms = milliseconds (ti_arrived chunk - t0),
          pk_inter_arrival_ms = map_option (\<lambda>t. milliseconds (ti_arrived chunk - t)) previous,
          pk_payload_bytes = payload_bytes, pk_payload_sha256 = cf_digest cf (ti_bytes chunk), pk_byte_offset = byte_offset,
          pk_first_codec_frame = None, pk_first_sample = (if aligned then Some (byte_offset div 2) else None),
          pk_sample_count = (if aligned then Some (payload_bytes div 2) else None), pk_codec_frames = None,
          pk_is_first = n = 0, pk_is_final = None\<rparr>
         # raw_packets cf request t0 (n + 1) (byte_offset + payload_bytes) (Some (ti_arrived chunk)) chunks)"

definition parse_sglang_raw :: "client_foreign \<Rightarrow> bool \<Rightarrow> prepared_request \<Rightarrow> response_head \<Rightarrow> http_body \<Rightarrow> instant \<Rightarrow> instant \<Rightarrow>
    bench_error + outcome" where
  "parse_sglang_raw cf log_text request head b t0 now =
     and_then (ok_or (head_header ''content-type'' head) (BenchValidation ''response has no Content-Type'')) (\<lambda>content_type.
     if \<not> media_type_is content_type ''audio/pcm'' \<and> \<not> media_type_is content_type ''application/octet-stream''
     then Err (BenchValidation (''SGLang-Omni streaming response has unsupported Content-Type '' @ cf_quoted cf content_type))
     else and_then (sample_rate_from_headers head content_type) (\<lambda>sample_rate.
     and_then (read_segments b []) (\<lambda>(segs, b1).
     let chunks = foldl add_chunk [] segs;
         total_bytes = sum_list (map (\<lambda>c. length (ti_bytes c)) chunks)
     in if total_bytes = 0 \<or> odd total_bytes
        then Err (BenchValidation ''SGLang-Omni raw PCM must contain a non-empty whole number of 16-bit samples'')
        else
          let packets = raw_packets cf request t0 0 0 None chunks;
              samples = total_bytes div 2
          in and_then (audio_duration_seconds samples sample_rate) (\<lambda>audio_seconds.
          let wall_ms = milliseconds (now - t0) in
          Ok \<lparr>oc_record = (successful_record cf log_text request ProfileSglangOmni head)
               \<lparr>rr_ttfa_ms := Some (milliseconds (ti_arrived (hd chunks) - t0)), rr_wall_ms := Some wall_ms,
                rr_sample_rate_hz := Some sample_rate, rr_samples := Some (of_nat samples),
                rr_audio_sha256 := Some (cf_digest cf (concat (map ti_bytes chunks))),
                rr_audio_seconds := Some audio_seconds, rr_rtf := Some (real_time_factor wall_ms audio_seconds),
                rr_response_bytes := Some (hb_response_bytes b1), rr_packet_count := of_nat (length chunks),
                rr_continuity_valid := True, rr_final_flag_seen := None, rr_finish_reason := None,
                rr_natural_eos := None, rr_length_limited := None\<rparr>,
              oc_packets = packets\<rparr>))))"

section \<open>One exchange\<close>

definition accepted_types :: "backend_profile \<Rightarrow> bytes" where
  "accepted_types profile =
     (case profile of ProfileNative \<Rightarrow> ''multipart/mixed, audio/wav'' | ProfileSglangOmni \<Rightarrow> ''audio/pcm, application/octet-stream'')"

definition wire_request :: "backend_profile \<Rightarrow> 'addr endpoint \<Rightarrow> prepared_request \<Rightarrow> bytes" where
  "wire_request profile e request =
     ''POST '' @ en_path_and_query e @ '' HTTP/1.1'' @ CRLF @ ''Host: '' @ en_authority e @ CRLF
     @ ''Content-Type: application/json'' @ CRLF @ ''Accept: '' @ accepted_types profile @ CRLF
     @ ''Content-Length: '' @ show_nat (length (pq_body request)) @ CRLF @ ''Connection: close'' @ CRLFCRLF @ pq_body request"

text \<open>What a connection does with the bytes written to it: it fails, or it answers with a list of arrivals; and the two
  readings of the clock.\<close>

record exchange =
  ex_answer :: "bytes \<Rightarrow> bytes + net_event list"
  ex_started :: instant
  ex_read :: instant

definition execute_connected :: "client_foreign \<Rightarrow> backend_profile \<Rightarrow> bool \<Rightarrow> 'addr endpoint \<Rightarrow> prepared_request \<Rightarrow> exchange \<Rightarrow>
    bench_error + outcome" where
  "execute_connected cf profile log_text e request x =
     and_then (map_err BenchIo (ex_answer x (wire_request profile e request))) (\<lambda>stream.
     and_then (read_head stream) (\<lambda>(head, b).
     if \<not> (200 \<le> rh_status head \<and> rh_status head < 300)
     then http_failure cf profile log_text request head b (ex_started x) (ex_read x)
     else case profile of
       ProfileNative \<Rightarrow> parse_native cf log_text request head b (ex_started x) (ex_read x)
     | ProfileSglangOmni \<Rightarrow> parse_sglang_raw cf log_text request head b (ex_started x) (ex_read x)))"

end
