(* ===== verification/HbReport.thy ===== *)
theory HbReport
  imports HbOutcome
begin

text \<open>
  A whole run of the benchmark client: the checks of its configuration, the batches of \<open>runner.rs\<close>, the phase log of
  \<open>phase_events.rs\<close> and the summary of \<open>report.rs\<close>. What each attempt meets on the network is an argument, so every
  mixture of failed connections, timeouts and dead tasks is covered.
\<close>

section \<open>Numbers\<close>

record distribution =
  ds_count :: nat
  ds_min :: f64
  ds_mean :: f64
  ds_p50 :: f64
  ds_p90 :: f64
  ds_p95 :: f64
  ds_p99 :: f64
  ds_max :: f64

definition f64_sum :: "f64 list \<Rightarrow> f64" where
  "f64_sum vs = foldl f64_add f64_zero vs"

definition percentile :: "f64 list \<Rightarrow> nat \<Rightarrow> nat \<Rightarrow> f64" where
  "percentile vs numerator denominator =
     (let scaled_rank = (length vs - 1) * numerator;
          lower = scaled_rank div denominator;
          upper = min (lower + 1) (length vs - 1)
      in if lower = upper then vs ! lower
         else let weight = f64_div (nat_f64 (scaled_rank mod denominator)) (nat_f64 denominator)
              in f64_add (f64_mul (vs ! lower) (f64_add (FFin 1) (fp_neg weight))) (f64_mul (vs ! upper) weight))"

text \<open>\<open>f64::total_cmp\<close> on finite values, without the sign of a zero.\<close>

fun finite_value :: "f64 \<Rightarrow> real" where
  "finite_value (FFin q) = q"
| "finite_value _ = 0"

definition distribution_of :: "f64 list \<Rightarrow> distribution option" where
  "distribution_of all_values =
     (let vs = sort_key finite_value (filter is_finite all_values)
      in if vs = [] then None
         else Some \<lparr>ds_count = length vs, ds_min = vs ! 0, ds_mean = f64_div (f64_sum vs) (nat_f64 (length vs)),
           ds_p50 = percentile vs 50 100, ds_p90 = percentile vs 90 100, ds_p95 = percentile vs 95 100,
           ds_p99 = percentile vs 99 100, ds_max = vs ! (length vs - 1)\<rparr>)"

definition requests_per_second :: "nat \<Rightarrow> f64 \<Rightarrow> f64" where
  "requests_per_second requests wall_seconds =
     (if fp_lt f64_zero wall_seconds then f64_div (nat_f64 requests) wall_seconds else f64_zero)"

definition ratio :: "f64 \<Rightarrow> f64 \<Rightarrow> f64 option" where
  "ratio numerator denominator = (if fp_lt f64_zero denominator then Some (f64_div numerator denominator) else None)"

section \<open>Configuration and requests\<close>

record benchmark_config =
  bc_endpoint :: bytes
  bc_profile :: backend_profile
  bc_sglang_model :: "bytes option"
  bc_requests :: nat
  bc_warmups :: nat
  bc_concurrency :: concurrency
  bc_timeout_seconds :: nat
  bc_log_prompt_text :: bool

text \<open>\<open>paths\<close> is what the comparison of the output paths says.\<close>

definition validate_benchmark_config :: "bench_error + unit \<Rightarrow> benchmark_config \<Rightarrow> bench_error + unit" where
  "validate_benchmark_config paths config =
     and_then paths (\<lambda>_.
     if bc_requests config = 0 then config_error ''--requests must be greater than zero''
     else if 2 ^ 32 \<le> bc_requests config \<or> 2 ^ 32 \<le> bc_warmups config
     then config_error ''--requests and --warmups must each fit in an unsigned 32-bit integer''
     else if bc_timeout_seconds config = 0 then config_error ''--timeout-seconds must be greater than zero''
     else if bc_profile config = ProfileSglangOmni
       \<and> (case bc_sglang_model config of None \<Rightarrow> True | Some m \<Rightarrow> m = [])
     then config_error ''--sglang-model is required for the sglang-omni profile''
     else Ok ())"

text \<open>The serialisation of a request and the digest of sampling settings, beside the client's other third-party code.\<close>

record runner_foreign =
  rf_client :: client_foreign
  rf_serialise :: "request_object \<Rightarrow> bytes + bytes"
  rf_normalized :: "nat option \<Rightarrow> workload_sampling option \<Rightarrow> bytes"

definition prepare_request :: "runner_foreign \<Rightarrow> benchmark_config \<Rightarrow> workload_entry list \<Rightarrow> nat \<Rightarrow> bench_error + prepared_request" where
  "prepare_request rf config workload index =
     (let entry = workload ! (index mod length workload) in
      and_then (request_body (cf_quoted (rf_client rf)) entry (bc_profile config) (bc_sglang_model config)) (\<lambda>object.
      and_then (map_err BenchJson (rf_serialise rf object)) (\<lambda>body.
      Ok \<lparr>pq_index = index, pq_entry = entry, pq_body = body, pq_body_sha256 = cf_digest (rf_client rf) body,
          pq_sampling_audit = entry_audit (rf_normalized rf) entry\<rparr>)))"

fun prepare_all :: "runner_foreign \<Rightarrow> benchmark_config \<Rightarrow> workload_entry list \<Rightarrow> nat list \<Rightarrow> bench_error + prepared_request list" where
  "prepare_all rf config workload [] = Ok []"
| "prepare_all rf config workload (i # is) =
     and_then (prepare_request rf config workload i) (\<lambda>request.
     and_then (prepare_all rf config workload is) (\<lambda>requests. Ok (request # requests)))"

definition prepare_requests :: "runner_foreign \<Rightarrow> benchmark_config \<Rightarrow> workload_entry list \<Rightarrow> nat \<Rightarrow>
    bench_error + prepared_request list" where
  "prepare_requests rf config workload n = prepare_all rf config workload [0..<n]"

section \<open>Batches\<close>

text \<open>\<open>BenchError\<close>'s text; a panic has none, it ends its task.\<close>

fun error_text :: "bench_error \<Rightarrow> bytes" where
  "error_text (BenchConfiguration s) = ''configuration error: '' @ s"
| "error_text (BenchWorkload s) = ''workload error: '' @ s"
| "error_text (BenchIo s) = ''I/O error: '' @ s"
| "error_text (BenchHttp s) = ''HTTP protocol error: '' @ s"
| "error_text (BenchMultipart s) = ''multipart protocol error: '' @ s"
| "error_text (BenchWav s) = ''WAV validation error: '' @ s"
| "error_text (BenchValidation s) = ''response validation error: '' @ s"
| "error_text (BenchTimeout n) = ''request timed out after '' @ show_nat n @ '' seconds''"
| "error_text (BenchTiming s) = ''timing evidence error: '' @ s"
| "error_text (BenchJson s) = ''JSON error: '' @ s"
| "error_text (BenchTask s) = ''task failed: '' @ s"
| "error_text BenchPanicked = []"

text \<open>How an attempt at a request goes: no connection, no connection in time, or a task that answers, is out of time or
  dies with a message.\<close>

datatype attempt = ConnectError bench_error | ConnectTimeout | TaskRan exchange bytes | TaskTimeout

definition failed_outcome :: "client_foreign \<Rightarrow> benchmark_config \<Rightarrow> prepared_request \<Rightarrow> bytes \<Rightarrow> bytes \<Rightarrow> outcome" where
  "failed_outcome cf config request code message =
     failed_outcome_values cf (bc_profile config) (bc_log_prompt_text config) request code message"

fun task_outcome :: "client_foreign \<Rightarrow> benchmark_config \<Rightarrow> 'addr endpoint \<Rightarrow> prepared_request \<Rightarrow> attempt \<Rightarrow> outcome list" where
  "task_outcome cf config e request (TaskRan x death) =
     [case execute_connected cf (bc_profile config) (bc_log_prompt_text config) e request x of
        Inr outcome \<Rightarrow> outcome
      | Inl BenchPanicked \<Rightarrow> failed_outcome cf config request ''task_failure'' death
      | Inl err \<Rightarrow> failed_outcome cf config request ''request_error'' (error_text err)]"
| "task_outcome cf config e request TaskTimeout =
     [failed_outcome cf config request ''request_timeout''
       (''request timed out after '' @ show_nat (bc_timeout_seconds config) @ '' seconds'')]"
| "task_outcome cf config e request _ = []"

fun connect_outcome :: "client_foreign \<Rightarrow> benchmark_config \<Rightarrow> prepared_request \<Rightarrow> attempt \<Rightarrow> outcome list" where
  "connect_outcome cf config request (ConnectError err) = [failed_outcome cf config request ''connect_error'' (error_text err)]"
| "connect_outcome cf config request ConnectTimeout =
     [failed_outcome cf config request ''connect_timeout''
       (''connection timed out after '' @ show_nat (bc_timeout_seconds config) @ '' seconds'')]"
| "connect_outcome cf config request _ = []"

definition run_request_batch :: "client_foreign \<Rightarrow> benchmark_config \<Rightarrow> 'addr endpoint \<Rightarrow> (prepared_request \<Rightarrow> attempt) \<Rightarrow>
    prepared_request list \<Rightarrow> outcome list" where
  "run_request_batch cf config e attempts requests =
     concat (map (\<lambda>r. connect_outcome cf config r (attempts r)) requests)
     @ concat (map (\<lambda>r. task_outcome cf config e r (attempts r)) requests)"

function batches :: "nat \<Rightarrow> 'a list \<Rightarrow> 'a list list" where
  "batches n xs = (if n = 0 \<or> xs = [] then [] else take n xs # batches n (drop n xs))"
  by pat_completeness auto
termination by (relation "measure (\<lambda>(n, xs). length xs)") auto

declare batches.simps [simp del]

definition run_phase :: "client_foreign \<Rightarrow> benchmark_config \<Rightarrow> 'addr endpoint \<Rightarrow> (prepared_request \<Rightarrow> attempt) \<Rightarrow>
    prepared_request list \<Rightarrow> outcome list" where
  "run_phase cf config e attempts requests =
     concat (map (run_request_batch cf config e attempts) (batches (concurrency_get (bc_concurrency config)) requests))"

section \<open>Phases\<close>

datatype phase_event = WarmupStart | WarmupEnd | MeasuredStart | MeasuredEnd

fun phase_sequence :: "phase_event \<Rightarrow> nat" where
  "phase_sequence WarmupStart = 0"
| "phase_sequence WarmupEnd = 1"
| "phase_sequence MeasuredStart = 2"
| "phase_sequence MeasuredEnd = 3"

record phase_event_record =
  ph_sequence :: nat
  ph_event :: phase_event
  ph_wall_time_unix_ns :: nat
  ph_monotonic_elapsed_ns :: nat

text \<open>The two clocks at a mark: the monotonic one, and the wall clock, which may be before its epoch.\<close>

type_synonym clocks = "instant \<times> (bytes + nat)"

definition mark_phase :: "(phase_event \<Rightarrow> bytes) \<Rightarrow> instant \<Rightarrow> phase_event \<Rightarrow> clocks \<Rightarrow> phase_event_record list \<Rightarrow>
    bench_error + instant \<times> phase_event_record list" where
  "mark_phase shown origin event clock records =
     (if phase_sequence event \<noteq> length records
      then Err (BenchTiming (''phase event '' @ shown event @ '' is out of order''))
      else and_then (map_err (\<lambda>e. BenchTiming (''system clock predates Unix epoch: '' @ e)) (snd clock)) (\<lambda>wall.
        Ok (fst clock, records @ [\<lparr>ph_sequence = phase_sequence event, ph_event = event, ph_wall_time_unix_ns = wall,
          ph_monotonic_elapsed_ns = fst clock - origin\<rparr>])))"

text \<open>The log's file: absent, or written with a result.\<close>

definition finish_phases :: "(phase_event_record list \<Rightarrow> bytes + unit) option \<Rightarrow> bool \<Rightarrow> phase_event_record list \<Rightarrow> bench_error + unit" where
  "finish_phases file require_complete records =
     (if require_complete \<and> length records \<noteq> 4
      then Err (BenchTiming (''successful benchmark has '' @ show_nat (length records) @ '' phase events instead of four''))
      else case file of None \<Rightarrow> Ok () | Some write \<Rightarrow> map_err BenchIo (write records))"

section \<open>The reports\<close>

record summary =
  su_endpoint :: bytes
  su_backend :: backend_profile
  su_sglang_model :: "bytes option"
  su_concurrency :: bytes
  su_synchronized_batch_width :: nat
  su_warmups :: nat
  su_planned_requests :: nat
  su_completed_requests :: nat
  su_successful_requests :: nat
  su_failed_requests :: nat
  su_natural_eos_requests :: nat
  su_length_limited_requests :: nat
  su_eos_unknown_requests :: nat
  su_qualifying_requests :: nat
  su_non_qualifying_requests :: nat
  su_normalized_sampling_sha256s :: "bytes set"
  su_benchmark_wall_seconds :: f64
  su_attempted_requests_per_second :: f64
  su_throughput_requests_per_second :: f64
  su_total_audio_seconds :: f64
  su_aggregate_rtf :: "f64 option"
  su_summed_request_wall_rtf :: "f64 option"
  su_ttfa_ms :: "distribution option"
  su_wall_ms :: "distribution option"
  su_request_rtf :: "distribution option"

definition counted_by :: "('a \<Rightarrow> bool) \<Rightarrow> 'a list \<Rightarrow> nat" where
  "counted_by p xs = length (filter p xs)"

definition summarise :: "benchmark_config \<Rightarrow> bench_record list \<Rightarrow> f64 \<Rightarrow> summary" where
  "summarise config records wall_seconds =
     (let successful = filter rr_success records;
          total_audio = f64_sum (List.map_filter rr_audio_seconds successful);
          summed_wall = f64_div (f64_sum (List.map_filter rr_wall_ms successful)) (nat_f64 1000)
      in \<lparr>su_endpoint = bc_endpoint config, su_backend = bc_profile config, su_sglang_model = bc_sglang_model config,
         su_concurrency = concurrency_label (bc_concurrency config),
         su_synchronized_batch_width = concurrency_get (bc_concurrency config), su_warmups = bc_warmups config,
         su_planned_requests = bc_requests config, su_completed_requests = length records,
         su_successful_requests = length successful, su_failed_requests = length records - length successful,
         su_natural_eos_requests = counted_by (\<lambda>r. rr_natural_eos r = Some True) successful,
         su_length_limited_requests = counted_by (\<lambda>r. rr_length_limited r = Some True) successful,
         su_eos_unknown_requests = counted_by (\<lambda>r. rr_natural_eos r = None) successful,
         su_qualifying_requests = counted_by (\<lambda>r. au_parity_qualifying (rr_sampling_audit r)) records,
         su_non_qualifying_requests = counted_by (\<lambda>r. \<not> au_parity_qualifying (rr_sampling_audit r)) records,
         su_normalized_sampling_sha256s = set (map (\<lambda>r. au_normalized_sha256 (rr_sampling_audit r)) records),
         su_benchmark_wall_seconds = wall_seconds,
         su_attempted_requests_per_second = requests_per_second (length records) wall_seconds,
         su_throughput_requests_per_second = requests_per_second (length successful) wall_seconds,
         su_total_audio_seconds = total_audio, su_aggregate_rtf = ratio wall_seconds total_audio,
         su_summed_request_wall_rtf = ratio summed_wall total_audio,
         su_ttfa_ms = distribution_of (List.map_filter rr_ttfa_ms successful),
         su_wall_ms = distribution_of (List.map_filter rr_wall_ms successful),
         su_request_rtf = distribution_of (List.map_filter rr_rtf successful)\<rparr>)"

text \<open>The three reports; \<open>directory\<close> is what creating their directory gives, \<open>existing\<close> says which of them are there
  already, \<open>write\<close> what creating and writing one gives.\<close>

datatype report_file = RequestsFile | PacketsFile | SummaryFile

record reports =
  re_requests :: "bench_record list"
  re_packets :: "packet_record list"
  re_summary :: summary

definition write_reports :: "bytes + unit \<Rightarrow> (report_file \<Rightarrow> bool) \<Rightarrow> (report_file \<Rightarrow> bench_error + unit) \<Rightarrow> (report_file \<Rightarrow> bytes) \<Rightarrow> benchmark_config \<Rightarrow>
    bench_record list \<Rightarrow> packet_record list \<Rightarrow> f64 \<Rightarrow> bench_error + reports" where
  "write_reports directory existing write shown config records packets wall_seconds =
     (let records = sort_key rr_request_index records;
          packets = sort_key pk_request_index (sort_key (\<lambda>p. unat (pk_sequence p)) packets);
          taken = List.find existing [RequestsFile, PacketsFile, SummaryFile]
      in and_then (map_err BenchIo directory) (\<lambda>_.
      case taken of
        Some f \<Rightarrow> config_error (''refusing to overwrite existing report '' @ shown f)
      | None \<Rightarrow>
          and_then (write RequestsFile) (\<lambda>_.
          and_then (write PacketsFile) (\<lambda>_.
          and_then (write SummaryFile) (\<lambda>_.
          Ok \<lparr>re_requests = records, re_packets = packets, re_summary = summarise config records wall_seconds\<rparr>)))))"

section \<open>A run\<close>

text \<open>Everything around the client: the paths' check, the endpoint, the workload, the phase log, the network and the
  report files.\<close>

record 'addr surroundings =
  sr_paths :: "bench_error + unit"
  sr_endpoint :: "bench_error + 'addr endpoint"
  sr_workload :: "bench_error + workload_entry list"
  sr_phase_file :: "bytes + (phase_event_record list \<Rightarrow> bytes + unit) option"
  sr_origin :: instant
  sr_clock :: "phase_event \<Rightarrow> clocks"
  sr_event_text :: "phase_event \<Rightarrow> bytes"
  sr_warmup :: "prepared_request \<Rightarrow> attempt"
  sr_measured :: "prepared_request \<Rightarrow> attempt"
  sr_directory :: "bytes + unit"
  sr_existing :: "report_file \<Rightarrow> bool"
  sr_write :: "report_file \<Rightarrow> bench_error + unit"
  sr_path_text :: "report_file \<Rightarrow> bytes"

definition check_warmups :: "client_foreign \<Rightarrow> (phase_event_record list \<Rightarrow> bytes + unit) option \<Rightarrow> phase_event_record list \<Rightarrow>
    outcome list \<Rightarrow> bench_error + unit" where
  "check_warmups cf file phases outcomes =
     (case List.find (\<lambda>oc. \<not> rr_success (oc_record oc)) outcomes of
        None \<Rightarrow> Ok ()
      | Some oc \<Rightarrow>
          (let detail = (case rr_failure (oc_record oc) of None \<Rightarrow> ''unknown warmup failure'' | Some f \<Rightarrow> fr_message f)
           in and_then (finish_phases file False phases) (\<lambda>_.
              Err (BenchValidation (''warmup request '' @ cf_quoted cf (rr_workload_id (oc_record oc)) @ '' failed: '' @ detail)))))"

definition run_benchmark :: "runner_foreign \<Rightarrow> 'addr surroundings \<Rightarrow> benchmark_config \<Rightarrow> bench_error + reports" where
  "run_benchmark rf sr config =
     (let cf = rf_client rf; mark = (\<lambda>event. mark_phase (sr_event_text sr) (sr_origin sr) event (sr_clock sr event)) in
      and_then (validate_benchmark_config (sr_paths sr) config) (\<lambda>_.
      and_then (sr_endpoint sr) (\<lambda>e.
      and_then (sr_workload sr) (\<lambda>workload.
      and_then (prepare_requests rf config workload (bc_warmups config)) (\<lambda>warmups.
      and_then (prepare_requests rf config workload (bc_requests config)) (\<lambda>measured.
      and_then (map_err BenchIo (sr_phase_file sr)) (\<lambda>file.
      and_then (mark WarmupStart []) (\<lambda>(_, phases0).
      and_then (check_warmups cf file phases0 (run_phase cf config e (sr_warmup sr) warmups)) (\<lambda>_.
      and_then (mark WarmupEnd phases0) (\<lambda>(_, phases1).
      and_then (mark MeasuredStart phases1) (\<lambda>(started, phases2).
      let outcomes = run_phase cf config e (sr_measured sr) measured in
      and_then (mark MeasuredEnd phases2) (\<lambda>(ended, phases3).
      and_then (finish_phases file True phases3) (\<lambda>_.
      write_reports (sr_directory sr) (sr_existing sr) (sr_write sr) (sr_path_text sr) config (map oc_record outcomes)
        (concat (map oc_packets outcomes)) (as_secs_f64 (ended - started)))))))))))))))"

section \<open>Every request is reported\<close>

definition outcome_for :: "prepared_request \<Rightarrow> outcome \<Rightarrow> bool" where
  "outcome_for request oc \<longleftrightarrow> rr_request_index (oc_record oc) = pq_index request \<and>
     rr_workload_id (oc_record oc) = we_id (pq_entry request) \<and>
     (\<forall>p \<in> set (oc_packets oc). pk_request_index p = pq_index request)"

lemma request_fields_for [simp]:
  "rr_request_index (request_fields cf log_text request profile success) = pq_index request"
  "rr_workload_id (request_fields cf log_text request profile success) = we_id (pq_entry request)"
  by (simp_all add: request_fields_def Let_def)

lemma failed_outcome_for: "outcome_for request (failed_outcome_values cf profile log_text request code message)"
  by (simp add: outcome_for_def failed_outcome_values_def)

lemma handle_part_index:
  "handle_part cf request t0 p (packets, s) = Ok (packets', s') \<Longrightarrow> \<forall>k \<in> set packets. pk_request_index k = pq_index request \<Longrightarrow>
   \<forall>k \<in> set packets'. pk_request_index k = pq_index request"
  by (auto simp: handle_part_def and_then_Ok_iff handle_audio_part_def packet_record_of_def Let_def split: if_splits)

lemma read_parts_index:
  "read_parts cf request t0 r seen = Ok ((packets', s'), r') \<Longrightarrow>
   \<forall>k \<in> set (fst seen). pk_request_index k = pq_index request \<Longrightarrow> \<forall>k \<in> set packets'. pk_request_index k = pq_index request"
proof (induction cf request t0 r seen rule: read_parts.induct)
  case (1 cf request t0 r seen)
  obtain p r1 where n: "next_part r = Ok (p, r1)" using 1(2) by (subst (asm) read_parts.simps) (auto simp: and_then_Ok_iff)
  show ?case
  proof (cases p)
    case None
    then show ?thesis using 1(2,3) n by (subst (asm) read_parts.simps) auto
  next
    case (Some q)
    obtain seen1 where h: "handle_part cf request t0 q seen = Ok seen1" "read_parts cf request t0 r1 seen1 = Ok ((packets', s'), r')"
      using 1(2) n Some by (subst (asm) read_parts.simps) (auto simp: and_then_Ok_iff)
    have "\<forall>k \<in> set (fst seen1). pk_request_index k = pq_index request"
      using handle_part_index [of cf request t0 q "fst seen" "snd seen" "fst seen1" "snd seen1"] h(1) 1(3) by simp
    then show ?thesis using 1(1) [OF n refl Some h] by blast
  qed
qed

lemma raw_packets_index: "k \<in> set (raw_packets cf request t0 n off prev chunks) \<Longrightarrow> pk_request_index k = pq_index request"
  by (induction chunks arbitrary: n off prev) (auto simp: Let_def)

lemma successful_record_for [simp]:
  "rr_request_index (successful_record cf log_text request profile head) = pq_index request"
  "rr_workload_id (successful_record cf log_text request profile head) = we_id (pq_entry request)"
  by (simp_all add: successful_record_def)

lemma execute_connected_for: "execute_connected cf profile log_text e request x = Ok oc \<Longrightarrow> outcome_for request oc"
proof -
  have fail: "http_failure cf profile log_text request head b t0 now = Ok oc \<Longrightarrow> outcome_for request oc" for head b t0 now
    by (auto simp: http_failure_def and_then_Ok_iff Let_def outcome_for_def failed_outcome_values_def)
  have raw: "parse_sglang_raw cf log_text request head b t0 now = Ok oc \<Longrightarrow> outcome_for request oc" for head b t0 now
    by (auto simp: parse_sglang_raw_def and_then_Ok_iff Let_def outcome_for_def raw_packets_index split: if_splits)
  have wav: "parse_native_wav cf log_text request head b t0 now = Ok oc \<Longrightarrow> outcome_for request oc" for head b t0 now
    by (auto simp: parse_native_wav_def and_then_Ok_iff Let_def outcome_for_def)
  have mult: "parse_native_multipart cf log_text request head rid b t0 boundary now = Ok oc \<Longrightarrow> outcome_for request oc"
    for head b t0 now rid boundary
    by (auto simp: parse_native_multipart_def parse_native_stream_def and_then_Ok_iff Let_def outcome_for_def
        dest!: read_parts_index)
  have "parse_native cf log_text request head b t0 now = Ok oc \<Longrightarrow> outcome_for request oc" for head b t0 now
    using wav mult by (auto simp: parse_native_def and_then_Ok_iff split: if_splits)
  then show "execute_connected cf profile log_text e request x = Ok oc \<Longrightarrow> outcome_for request oc"
    using fail raw by (auto simp: execute_connected_def and_then_Ok_iff split: if_splits backend_profile.splits)
qed

lemma one_outcome:
  "\<exists>oc. connect_outcome cf config request a @ task_outcome cf config e request a = [oc] \<and> outcome_for request oc"
proof (cases a)
  case (TaskRan x death)
  then show ?thesis
    using execute_connected_for failed_outcome_for
    by (auto simp: failed_outcome_def split: sum.splits bench_error.splits)
qed (auto simp: failed_outcome_def failed_outcome_for)

lemma batches_concat: "0 < n \<Longrightarrow> concat (batches n xs) = xs"
  by (induction n xs rule: batches.induct) (subst batches.simps, simp)

lemma mset_interleave: "mset (concat (map f xs) @ concat (map g xs)) = mset (concat (map (\<lambda>x. f x @ g x) xs))"
  by (induction xs) simp_all

definition outcome_of :: "client_foreign \<Rightarrow> benchmark_config \<Rightarrow> 'addr endpoint \<Rightarrow> (prepared_request \<Rightarrow> attempt) \<Rightarrow> prepared_request \<Rightarrow> outcome" where
  "outcome_of cf config e attempts request =
     hd (connect_outcome cf config request (attempts request) @ task_outcome cf config e request (attempts request))"

lemma outcome_of_for: "outcome_for request (outcome_of cf config e attempts request)"
  "connect_outcome cf config request (attempts request) @ task_outcome cf config e request (attempts request) =
     [outcome_of cf config e attempts request]"
  using one_outcome [of cf config request "attempts request" e] by (auto simp: outcome_of_def)

lemma run_phase_outcomes:
  "mset (run_phase cf config e attempts requests) = mset (map (outcome_of cf config e attempts) requests)"
proof -
  have batch: "mset (run_request_batch cf config e attempts rs) = mset (map (outcome_of cf config e attempts) rs)" for rs
    unfolding run_request_batch_def mset_interleave outcome_of_for(2) by (induction rs) simp_all
  have "mset (concat (map (run_request_batch cf config e attempts) bs)) = mset (map (outcome_of cf config e attempts) (concat bs))" for bs
    by (induction bs) (simp_all add: batch)
  moreover have "0 < concurrency_get (bc_concurrency config)" by (cases "bc_concurrency config") simp_all
  ultimately show ?thesis by (simp add: run_phase_def batches_concat)
qed

lemma prepared:
  "prepare_requests rf config workload n = Ok requests \<Longrightarrow> map pq_index requests = [0..<n] \<and>
     (\<forall>r \<in> set requests. pq_entry r = workload ! (pq_index r mod length workload))"
proof -
  have "prepare_all rf config workload is = Ok requests \<Longrightarrow> map pq_index requests = is \<and>
     (\<forall>r \<in> set requests. pq_entry r = workload ! (pq_index r mod length workload))" for "is"
    by (induction "is" arbitrary: requests) (auto simp: and_then_Ok_iff prepare_request_def Let_def)
  then show "prepare_requests rf config workload n = Ok requests \<Longrightarrow> ?thesis" by (simp add: prepare_requests_def)
qed

lemma phase_reported:
  fixes cf config e attempts requests
  defines "outcomes \<equiv> run_phase cf config e attempts requests"
  assumes "map pq_index requests = [0..<n]"
    and "\<forall>r \<in> set requests. pq_entry r = workload ! (pq_index r mod length workload)"
  shows "map rr_request_index (sort_key rr_request_index (map oc_record outcomes)) = [0..<n]"
    "\<forall>oc \<in> set outcomes. rr_workload_id (oc_record oc) = we_id (workload ! (rr_request_index (oc_record oc) mod length workload)) \<and>
       (\<forall>p \<in> set (oc_packets oc). pk_request_index p < n)"
    "length outcomes = n"
proof -
  let ?o = "outcome_of cf config e attempts"
  have m: "mset outcomes = mset (map ?o requests)" unfolding outcomes_def by (rule run_phase_outcomes)
  have i: "rr_request_index (oc_record (?o r)) = pq_index r" "rr_workload_id (oc_record (?o r)) = we_id (pq_entry r)"
      "\<forall>p \<in> set (oc_packets (?o r)). pk_request_index p = pq_index r" for r
    using outcome_of_for(1) [of r cf config e attempts] by (simp_all add: outcome_for_def)
  have "mset (map (\<lambda>oc. rr_request_index (oc_record oc)) outcomes) = image_mset (\<lambda>oc. rr_request_index (oc_record oc)) (mset (map ?o requests))"
    by (simp add: m)
  also have "\<dots> = mset (map pq_index requests)" by (simp add: i image_mset.compositionality o_def)
  also have "\<dots> = mset [0..<n]" by (simp only: assms(2))
  finally have perm: "mset (map rr_request_index (map oc_record outcomes)) = mset [0..<n]"
    by (simp only: list.map_comp o_def)
  show "length outcomes = n" using arg_cong [OF perm, of size] by simp
  have "mset (map rr_request_index (sort_key rr_request_index (map oc_record outcomes))) = mset [0..<n]"
    using perm by (simp only: mset_map mset_sort)
  moreover have "sorted (map rr_request_index (sort_key rr_request_index (map oc_record outcomes)))" by simp
  ultimately show "map rr_request_index (sort_key rr_request_index (map oc_record outcomes)) = [0..<n]"
    using properties_for_sort [of _ "[0..<n]"] properties_for_sort [OF refl sorted_upt, of 0 n] by metis
  show "\<forall>oc \<in> set outcomes. rr_workload_id (oc_record oc) = we_id (workload ! (rr_request_index (oc_record oc) mod length workload)) \<and>
       (\<forall>p \<in> set (oc_packets oc). pk_request_index p < n)"
  proof
    fix oc
    assume "oc \<in> set outcomes"
    then obtain r where r: "r \<in> set requests" "oc = ?o r" using mset_eq_setD [OF m] by auto
    have "pq_index r \<in> set [0..<n]" using r(1) assms(2) by (metis image_eqI list.set_map)
    then show "rr_workload_id (oc_record oc) = we_id (workload ! (rr_request_index (oc_record oc) mod length workload)) \<and>
       (\<forall>p \<in> set (oc_packets oc). pk_request_index p < n)"
      using r i [of r] assms(3) by auto
  qed
qed

lemma run_benchmark_Ok:
  fixes sr :: "'addr surroundings"
  assumes "run_benchmark rf sr config = Ok reports" and "sr_workload sr = Ok workload"
  shows "\<exists>measured (e :: 'addr endpoint) wall. prepare_requests rf config workload (bc_requests config) = Ok measured \<and>
    write_reports (sr_directory sr) (sr_existing sr) (sr_write sr) (sr_path_text sr) config
      (map oc_record (run_phase (rf_client rf) config e (sr_measured sr) measured))
      (concat (map oc_packets (run_phase (rf_client rf) config e (sr_measured sr) measured))) wall = Ok reports"
  using assms unfolding run_benchmark_def Let_def
  by (clarsimp simp: and_then_Ok_iff split: prod.splits) blast

text \<open>C39: a run that reports at all reports every planned request exactly once and in order, whatever fails on the way:
  refused or late connections, HTTP errors, malformed responses, timeouts, tasks that die. Each record names its workload
  entry, the counts of the summary add up, and every packet belongs to a reported request.\<close>

theorem every_request_reported:
  fixes sr :: "'addr surroundings"
  assumes "run_benchmark rf sr config = Ok reports" and "sr_workload sr = Ok workload"
  shows "map rr_request_index (re_requests reports) = [0..<bc_requests config] \<and>
    map rr_workload_id (re_requests reports) = map (\<lambda>i. we_id (workload ! (i mod length workload))) [0..<bc_requests config] \<and>
    su_completed_requests (re_summary reports) = bc_requests config \<and>
    su_successful_requests (re_summary reports) + su_failed_requests (re_summary reports) = bc_requests config \<and>
    su_successful_requests (re_summary reports) = counted_by rr_success (re_requests reports) \<and>
    (\<forall>p \<in> set (re_packets reports). pk_request_index p < bc_requests config)"
proof -
  let ?cf = "rf_client rf"
  obtain measured and e :: "'addr endpoint" and wall where run: "prepare_requests rf config workload (bc_requests config) = Ok measured"
    "write_reports (sr_directory sr) (sr_existing sr) (sr_write sr) (sr_path_text sr) config
       (map oc_record (run_phase ?cf config e (sr_measured sr) measured))
       (concat (map oc_packets (run_phase ?cf config e (sr_measured sr) measured))) wall = Ok reports"
    using run_benchmark_Ok [OF assms] by blast
  let ?outcomes = "run_phase ?cf config e (sr_measured sr) measured"
  let ?records = "sort_key rr_request_index (map oc_record ?outcomes)"
  note p = prepared [OF run(1)]
  note r = phase_reported [where cf = ?cf and config = config and e = e and attempts = "sr_measured sr" and requests = measured,
      OF conjunct1 [OF p] conjunct2 [OF p]]
  have w: "re_requests reports = ?records" "set (re_packets reports) = set (concat (map oc_packets ?outcomes))"
      "re_summary reports = summarise config ?records wall"
    using run(2) by (auto simp: write_reports_def Let_def and_then_Ok_iff config_error_def split: option.splits)
  have "map rr_workload_id ?records = map (\<lambda>k. we_id (workload ! (rr_request_index k mod length workload))) ?records"
    by (rule map_cong) (use r(2) in auto)
  also have "\<dots> = map (\<lambda>i. we_id (workload ! (i mod length workload))) (map rr_request_index ?records)" by simp
  finally have ids: "map rr_workload_id ?records = map (\<lambda>i. we_id (workload ! (i mod length workload))) [0..<bc_requests config]"
    unfolding r(1) .
  have n: "length ?records = bc_requests config" using r(3) by simp
  have "length (filter rr_success ?records) \<le> bc_requests config" using length_filter_le [of rr_success ?records] n by simp
  then show ?thesis
    using w r(1,2) ids n by (auto simp: summarise_def Let_def counted_by_def)
qed

definition example_workload_entry :: workload_entry where
  "example_workload_entry = \<lparr>we_id = ''a'', we_text = ''hello'', we_voice_description = ''calm'', we_language = ''auto'',
     we_seed = Some 7, we_max_duration_seconds = None, we_sampling = None, we_stream = True\<rparr>"

definition example_runner :: runner_foreign where
  "example_runner = \<lparr>rf_client = \<lparr>cf_parse_event = Err, cf_digest = \<lambda>s. s, cf_quoted = \<lambda>s. s\<rparr>,
     rf_serialise = \<lambda>_. Ok ''{}'', rf_normalized = \<lambda>_ _. []\<rparr>"

definition example_benchmark :: benchmark_config where
  "example_benchmark = \<lparr>bc_endpoint = ''http://a:1/'', bc_profile = ProfileNative, bc_sglang_model = None, bc_requests = 2,
     bc_warmups = 0, bc_concurrency = B3, bc_timeout_seconds = 9, bc_log_prompt_text = False\<rparr>"

definition example_surroundings :: "unit surroundings" where
  "example_surroundings = \<lparr>sr_paths = Ok (), sr_endpoint = Ok \<lparr>en_authority = ''a:1'', en_path_and_query = ''/'', en_addresses = [()]\<rparr>,
     sr_workload = Ok [example_workload_entry], sr_phase_file = Ok None, sr_origin = 0, sr_clock = \<lambda>e. (phase_sequence e, Ok 5),
     sr_event_text = \<lambda>_. [], sr_warmup = \<lambda>_. ConnectTimeout,
     sr_measured = \<lambda>r. if pq_index r = 0 then TaskTimeout else ConnectTimeout, sr_directory = Ok (),
     sr_existing = \<lambda>_. False, sr_write = \<lambda>_. Ok (), sr_path_text = \<lambda>_. []\<rparr>"

lemma every_request_reported_witness:
  "\<exists>reports. run_benchmark example_runner example_surroundings example_benchmark = Ok reports \<and>
     map rr_request_index (re_requests reports) = [0, 1] \<and> su_completed_requests (re_summary reports) = 2"
proof -
  have two: "[0..<2] = [0, 1::nat]" by (simp add: upt_conv_Cons)
  let ?r = "\<lambda>i. \<lparr>pq_index = i, pq_entry = example_workload_entry, pq_body = ''{}'', pq_body_sha256 = ''{}'',
      pq_sampling_audit = entry_audit (rf_normalized example_runner) example_workload_entry\<rparr>"
  have p: "prepare_requests example_runner example_benchmark [example_workload_entry] 2 = Ok [?r 0, ?r 1]"
    "prepare_requests example_runner example_benchmark [example_workload_entry] 0 = Ok []"
    unfolding prepare_requests_def two
    by (simp_all add: prepare_request_def request_body_def example_benchmark_def) (simp add: example_runner_def)
  have c: "validate_benchmark_config (Ok ()) example_benchmark = Ok ()" "bc_warmups example_benchmark = 0" "bc_requests example_benchmark = 2"
    by (simp_all add: validate_benchmark_config_def example_benchmark_def)
  have "\<exists>x. write_reports (Ok ()) (\<lambda>_. False) (\<lambda>_. Ok ()) shown config records packets wall = Ok x" for shown config records packets wall
    by (simp add: write_reports_def Let_def)
  moreover have "run_phase cf config e attempts [] = []" for cf config and e :: "unit endpoint" and attempts
    by (simp add: run_phase_def batches.simps)
  ultimately obtain reports where r: "run_benchmark example_runner example_surroundings example_benchmark = Ok reports"
    unfolding run_benchmark_def Let_def c(2,3)
    by (simp add: example_surroundings_def c(1) p mark_phase_def finish_phases_def check_warmups_def)
      (metis)
  have w: "sr_workload example_surroundings = Ok [example_workload_entry]" by (simp add: example_surroundings_def)
  note f = every_request_reported [OF r w, unfolded c(3) two]
  show ?thesis using r f by auto
qed

end
