(* ===== verification/HbAgreement.thy ===== *)
theory HbAgreement
  imports HbExchange HbReport
begin

text \<open>
  Both kinds of response end to end: what the server's workers write, the benchmark client reads. The JSON
  encoder of the one side and the parser of the other are related by a hypothesis on the two events. The
  last section accounts for the raw PCM of the other profile.
\<close>

section \<open>The body as the reader sees it\<close>

fun write_parts :: "bytes \<Rightarrow> part_spec list \<Rightarrow> bytes" where
  "write_parts b [] = []"
| "write_parts b ((content_type, hs, payload) # ps) = part b content_type hs payload (ps = []) @ write_parts b ps"

lemma lines_text_snoc: "lines_text (l # ls) @ CRLF = l @ CRLF @ concat (map (\<lambda>l. l @ CRLF) ls)"
  by (induction ls arbitrary: l) simp_all

lemma part_text:
  "part b content_type hs payload close = ''--'' @ b @ CRLF @ lines_text (map header_line (spec_headers (content_type, hs, payload)))
     @ CRLFCRLF @ payload @ CRLF @ (if close then ''--'' @ b @ ''--'' @ CRLF else [])"
proof -
  have rest: "lines_text (map header_line (spec_headers (content_type, hs, payload))) @ CRLFCRLF @ s =
      (lines_text (map header_line (spec_headers (content_type, hs, payload))) @ CRLF) @ CRLF @ s" for s
    by simp
  have "concat (map (\<lambda>l. l @ CRLF) (map header_line hs)) = concat (map (\<lambda>(name, v). name @ '': '' @ v @ crlf) hs)"
    by (induction hs) (auto simp: header_line_def crlf_def)
  then show ?thesis
    unfolding rest unfolding spec_headers.simps list.map unfolding lines_text_snoc
    by (simp add: part_def crlf_def header_line_def o_def)
qed

lemma write_parts_text: "ps \<noteq> [] \<Longrightarrow> write_parts b ps = ''--'' @ b @ CRLF @ after_boundary b ps"
proof (induction ps)
  case (Cons p ps)
  obtain content_type hs payload where p: "p = (content_type, hs, payload)" by (cases p) auto
  show ?case
  proof (cases "ps = []")
    case True
    then show ?thesis by (simp add: p part_text del: spec_headers.simps)
  next
    case False
    then show ?thesis using Cons.IH by (simp add: p part_text del: spec_headers.simps)
  qed
qed simp

definition start_spec :: "foreign \<Rightarrow> uuid \<Rightarrow> u64 \<Rightarrow> part_spec" where
  "start_spec f request_id seed = (''application/json'', [], fo_start_json f (start_event_of request_id seed))"

definition audio_spec :: "engine_packet \<Rightarrow> part_spec" where
  "audio_spec p = (AUDIO_CONTENT_TYPE, audio_headers p, ep_pcm_s16le p)"

definition end_spec :: "foreign \<Rightarrow> uuid \<Rightarrow> engine_finish_reason \<Rightarrow> engine_metrics \<Rightarrow> part_spec" where
  "end_spec f request_id reason metrics =
     (''application/json'', [], fo_end_json f \<lparr>ev_request_id = request_id, ev_finish_reason = reason, ev_metrics = metrics\<rparr>)"

lemma write_parts_append: "rest \<noteq> [] \<Longrightarrow> write_parts b (map audio_spec ps @ rest) = concat (map (audio_part b) ps) @ write_parts b rest"
  by (induction ps) (simp_all add: audio_spec_def audio_part_def)

lemma stream_text:
  "concat (start_part f b request_id seed # map (audio_part b) ps @ [end_part f b request_id reason m]) =
     write_parts b (start_spec f request_id seed # map audio_spec ps @ [end_spec f request_id reason m])"
  using write_parts_append [of "[end_spec f request_id reason m]"]
  by (simp add: start_spec_def start_part_def) (simp add: end_spec_def end_part_def)

section \<open>The headers are well formed\<close>

lemma length_show_nat: "n < 10 ^ Suc k \<Longrightarrow> length (show_nat n) \<le> Suc k"
proof (induction k arbitrary: n)
  case 0
  then show ?case by (subst show_nat.simps) simp
next
  case (Suc k)
  then have "n div 10 < 10 ^ Suc k" by auto
  then show ?case using Suc.IH [of "n div 10"] by (subst show_nat.simps) simp
qed

lemma show_nat_visible: "list_all visible (show_nat n)"
  using show_nat_digits by (fastforce simp: list_all_iff visible_def is_digit_def)

lemma length_show_u64: "length (show_nat (unat (x :: u64))) \<le> 20"
proof -
  have "unat x < 2 ^ LENGTH(64)" by (rule unsigned_less)
  then show ?thesis using length_show_nat [of "unat x" 19] by simp
qed

lemma length_show_u32: "length (show_nat (unat (x :: u32))) \<le> 10"
proof -
  have "unat x < 2 ^ LENGTH(32)" by (rule unsigned_less)
  then show ?thesis using length_show_nat [of "unat x" 9] by simp
qed

lemma length_show_payload: "n \<le> MAX_PART_PAYLOAD_BYTES \<Longrightarrow> length (show_nat n) \<le> 9"
  using length_show_nat [of n 8] by (simp add: MAX_PART_PAYLOAD_BYTES_def)

lemma length_lines_text: "length (lines_text ls) \<le> sum_list (map (\<lambda>l. length l + 2) ls)"
  by (induction ls rule: lines_text.induct) simp_all

lemma json_spec_ok: "length payload \<le> MAX_PART_PAYLOAD_BYTES \<Longrightarrow> spec_fits (''application/json'', [], payload)"
  using length_show_payload [of "length payload"] show_nat_visible
  by (auto simp: spec_fits_def plain_header_def visible_def bv_def to_ascii_lower_def header_line_def MAX_PART_HEADER_BYTES_def
      char_of_def bit_0)

lemma audio_spec_ok:
  assumes "length (ep_pcm_s16le p) \<le> MAX_PART_PAYLOAD_BYTES"
  shows "spec_fits (audio_spec p)"
proof -
  let ?ls = "map header_line (spec_headers (audio_spec p))"
  have "list_all plain_header (spec_headers (audio_spec p))"
    using show_nat_visible
    by (simp add: audio_spec_def audio_headers_def plain_header_def visible_def bv_def AUDIO_CONTENT_TYPE_def)
  moreover have "distinct (map (\<lambda>h. to_ascii_lower (fst h)) (spec_headers (audio_spec p)))"
    by (simp add: audio_spec_def audio_headers_def to_ascii_lower_def bv_def char_of_def bit_0)
  moreover have "sum_list (map (\<lambda>l. length l + 2) ?ls) + 4 \<le> MAX_PART_HEADER_BYTES"
    using length_show_payload [OF assms] length_show_u64 [of "ep_sequence p"] length_show_u64 [of "ep_first_codec_frame p"]
      length_show_u64 [of "ep_first_sample p"] length_show_u32 [of "ep_sample_count p"] length_show_u32 [of "ep_codec_frames p"]
    by (simp add: audio_spec_def audio_headers_def header_line_def AUDIO_CONTENT_TYPE_def MAX_PART_HEADER_BYTES_def)
  ultimately show ?thesis
    using assms length_lines_text [of ?ls] by (simp add: spec_fits_def audio_spec_def)
qed

section \<open>What the client makes of a part\<close>

definition part_of :: "part_spec \<Rightarrow> instant option \<Rightarrow> body_part" where
  "part_of spec arrival = \<lparr>pt_headers = header_table (spec_headers spec), pt_payload = spec_payload spec,
     pt_first_payload_at = arrival\<rparr>"

lemma part_of_payload [simp]: "pt_payload (part_of spec arrival) = spec_payload spec"
  by (simp add: part_of_def)

lemma json_media: "media_type_is ''application/json'' ''application/json''"
  by code_simp

lemma audio_media: "\<not> media_type_is AUDIO_CONTENT_TYPE ''application/json''" "media_type_is AUDIO_CONTENT_TYPE ''audio/pcm''"
  by code_simp+

lemma audio_parameters:
  "content_type_parameter AUDIO_CONTENT_TYPE ''rate'' = Some ''24000''"
  "content_type_parameter AUDIO_CONTENT_TYPE ''channels'' = Some ''1''"
  "content_type_parameter AUDIO_CONTENT_TYPE ''format'' = Some ''s16le''"
  "eq_ignore_ascii_case ''s16le'' ''s16le''"
  by code_simp+

lemma audio_type_valid: "validate_native_audio_content_type AUDIO_CONTENT_TYPE = Ok ()"
proof -
  have "parse_unsigned u64_max ''24000'' = Some 24000" "parse_unsigned u64_max ''1'' = Some 1"
    by (simp_all add: parse_unsigned_def is_digit_def bv_def u64_max_def)
  then show ?thesis by (simp add: validate_native_audio_content_type_def audio_parameters BENCH_SAMPLE_RATE_HZ_def)
qed

lemma spec_content_type: "part_header ''content-type'' (part_of (content_type, hs, payload) arrival) = Some content_type"
  by (simp add: part_header_def part_of_def header_table_def to_ascii_lower_def bv_def char_of_def bit_0)

lemma audio_part_headers:
  "part_header ''x-sequence'' (part_of (audio_spec p) arrival) = Some (show_nat (unat (ep_sequence p)))"
  "part_header ''x-first-codec-frame'' (part_of (audio_spec p) arrival) = Some (show_nat (unat (ep_first_codec_frame p)))"
  "part_header ''x-first-sample'' (part_of (audio_spec p) arrival) = Some (show_nat (unat (ep_first_sample p)))"
  "part_header ''x-sample-count'' (part_of (audio_spec p) arrival) = Some (show_nat (unat (ep_sample_count p)))"
  "part_header ''x-codec-frames'' (part_of (audio_spec p) arrival) = Some (show_nat (unat (ep_codec_frames p)))"
  "part_header ''x-final'' (part_of (audio_spec p) arrival) = Some (if ep_is_final p then ''true'' else ''false'')"
  by (simp_all add: part_header_def part_of_def header_table_def audio_spec_def audio_headers_def to_ascii_lower_def bv_def
      char_of_def bit_0)

lemma part_u64_shown: "part_header name p = Some (show_nat n) \<Longrightarrow> n \<le> u64_max \<Longrightarrow> part_u64 p name = Ok (of_nat n)"
  by (simp add: part_u64_def ok_or_def parse_show_nat)

definition shown_fields :: "engine_packet \<Rightarrow> audio_fields" where
  "shown_fields p = \<lparr>af_sequence = ep_sequence p, af_first_codec_frame = ep_first_codec_frame p,
     af_first_sample = ep_first_sample p, af_sample_count = ucast (ep_sample_count p),
     af_codec_frames = ucast (ep_codec_frames p), af_is_final = ep_is_final p\<rparr>"

lemma unat_word_max: "unat (x :: u64) \<le> u64_max" "unat (y :: u32) \<le> u64_max"
proof -
  have "unat x < 2 ^ LENGTH(64)" "unat y < 2 ^ LENGTH(32)" by (rule unsigned_less)+
  then show "unat x \<le> u64_max" "unat y \<le> u64_max" by (simp_all add: u64_max_def)
qed

lemma audio_fields_shown: "audio_fields_of (part_of (audio_spec p) arrival) = Ok (shown_fields p)"
  by (simp add: audio_fields_of_def part_u64_shown audio_part_headers unat_word_max part_bool_def ok_or_def shown_fields_def
      of_nat_unat)

text \<open>The client after \<open>q\<close> packets, at the frame \<open>f\<close> and the sample \<open>x\<close>.\<close>

definition client_at :: "nat \<Rightarrow> nat \<Rightarrow> nat \<Rightarrow> bytes \<Rightarrow> native_stream \<Rightarrow> bool" where
  "client_at q f x request_id s \<longleftrightarrow> ns_start_seen s \<and> \<not> ns_end_seen s \<and> ns_expected_sequence s = of_nat q \<and>
     ns_expected_codec_frame s = of_nat f \<and> ns_expected_sample s = of_nat x \<and> ns_server_request_id s = request_id \<and>
     (0 < q \<longrightarrow> ns_first_audio_at s \<noteq> None)"

definition records :: "(bytes \<Rightarrow> bytes) \<Rightarrow> engine_packet \<Rightarrow> packet_record \<Rightarrow> bool" where
  "records digest p k \<longleftrightarrow> pk_sequence k = ep_sequence p \<and> pk_first_codec_frame k = Some (ep_first_codec_frame p) \<and>
     pk_first_sample k = Some (ep_first_sample p) \<and> pk_sample_count k = Some (ucast (ep_sample_count p)) \<and>
     pk_codec_frames k = Some (ucast (ep_codec_frames p)) \<and> pk_is_final k = Some (ep_is_final p) \<and>
     pk_payload_bytes k = of_nat (length (ep_pcm_s16le p)) \<and> pk_payload_sha256 k = digest (ep_pcm_s16le p)"

lemma audio_part_taken:
  assumes "client_at q f x request_id s" and "\<not> ns_final_seen s" and "audio_stream q f x (p # ps)"
  obtains k s1 where "handle_part cf request t0 (part_of (audio_spec p) (Some arrival)) (packets, s) = Ok (packets @ [k], s1)"
    "records (cf_digest cf) p k" "ns_audio s1 = ns_audio s @ ep_pcm_s16le p" "ns_final_seen s1 = ep_is_final p"
    "client_at (q + 1) (f + unat (ep_codec_frames p)) (x + unat (ep_sample_count p)) request_id s1"
proof -
  let ?pt = "part_of (audio_spec p) (Some arrival)"
  have positions: "ep_sequence p = of_nat q" "ep_first_codec_frame p = of_nat f" "ep_first_sample p = of_nat x"
    using assms(3) by (auto simp: of_nat_unat)
  have counts: "unat (ep_codec_frames p) \<in> {1..4}" "unat (ep_sample_count p) = unat (ep_codec_frames p) * 1920"
      "length (ep_pcm_s16le p) = 2 * unat (ep_sample_count p)"
    using assms(3) by simp_all
  have nonzero: "(ucast (ep_sample_count p) :: u64) \<noteq> 0" "(ucast (ep_codec_frames p) :: u64) \<noteq> 0"
    using counts(1,2) by (auto simp: word_unat_eq_iff)
  have "unat (ep_sample_count p) * 2 < 2 ^ 64" using counts(1,2) by simp
  then have mul: "checked_mul (ucast (ep_sample_count p) :: u64) 2 = Some (of_nat (length (ep_pcm_s16le p)))"
    by (simp add: checked_mul_def counts(3) of_nat_unat)
  obtain k s1 where h: "handle_audio_part (cf_digest cf) ?pt request t0 s = Ok (k, s1)" and k: "records (cf_digest cf) p k"
    and s1: "ns_audio s1 = ns_audio s @ ep_pcm_s16le p" "ns_final_seen s1 = ep_is_final p"
      "client_at (q + 1) (f + unat (ep_codec_frames p)) (x + unat (ep_sample_count p)) request_id s1"
    using assms(1,2) positions nonzero mul
    by (simp add: handle_audio_part_def audio_fields_shown ok_or_def client_at_def Let_def)
      (simp add: shown_fields_def part_of_def audio_spec_def packet_record_of_def records_def client_at_def of_nat_unat
        split: option.split)
  show thesis
    by (rule that [OF _ k s1])
      (use h in \<open>simp add: handle_part_def audio_spec_def spec_content_type ok_or_def audio_media audio_type_valid\<close>)
qed

lemma read_step:
  assumes "reader_at b (p # ps) r" and "boundary_fits b" and "spec_fits p" and "spec_payload p \<noteq> []"
  obtains arrival r1 where "reader_at b ps r1"
    "read_parts cf request t0 r seen = and_then (handle_part cf request t0 (part_of p (Some arrival)) seen) (read_parts cf request t0 r1)"
proof -
  obtain arrival r1 where "next_part r = Ok (Some (part_of p arrival), r1)" "arrival \<noteq> None" "reader_at b ps r1"
    using next_part_ok [OF assms(1-3)] assms(4) unfolding part_of_def by metis
  then show thesis using that [of r1] by (subst (asm) read_parts.simps) auto
qed

lemma read_audio:
  "reader_at b (map audio_spec ps @ rest) r \<Longrightarrow> boundary_fits b \<Longrightarrow> client_at q f x request_id s \<Longrightarrow>
   (ps \<noteq> [] \<longrightarrow> \<not> ns_final_seen s) \<Longrightarrow> audio_stream q f x ps \<Longrightarrow>
   \<exists>ks s1 r1 f1. read_parts cf request t0 r (packets, s) = read_parts cf request t0 r1 (packets @ ks, s1) \<and>
     reader_at b rest r1 \<and> list_all2 (records (cf_digest cf)) ps ks \<and>
     ns_audio s1 = ns_audio s @ concat (map ep_pcm_s16le ps) \<and>
     ns_final_seen s1 = (if ps = [] then ns_final_seen s else ep_is_final (last ps)) \<and>
     client_at (q + length ps) f1 (x + audio_samples ps) request_id s1"
proof (induction ps arbitrary: q f x s r packets)
  case Nil
  then show ?case by (fastforce simp: audio_samples_def)
next
  case (Cons p ps)
  have pcm: "length (ep_pcm_s16le p) = 2 * unat (ep_sample_count p)" "unat (ep_sample_count p) \<in> {1920..7680}"
    "ep_is_final p \<longrightarrow> ps = []"
    using Cons.prems(5) by auto
  then have ok: "spec_fits (audio_spec p)" "spec_payload (audio_spec p) \<noteq> []"
    by (auto intro!: audio_spec_ok simp: MAX_PART_PAYLOAD_BYTES_def) (auto simp: audio_spec_def)
  have at: "reader_at b (audio_spec p # map audio_spec ps @ rest) r" using Cons.prems(1) by simp
  obtain arrival r1 where r1: "reader_at b (map audio_spec ps @ rest) r1"
      "read_parts cf request t0 r (packets, s) =
         and_then (handle_part cf request t0 (part_of (audio_spec p) (Some arrival)) (packets, s)) (read_parts cf request t0 r1)"
    by (rule read_step [OF at Cons.prems(2) ok])
  have "\<not> ns_final_seen s" using Cons.prems(4) by simp
  from audio_part_taken [OF Cons.prems(3) this Cons.prems(5), of cf request t0 arrival packets]
  obtain k s1 where s1: "handle_part cf request t0 (part_of (audio_spec p) (Some arrival)) (packets, s) = Ok (packets @ [k], s1)"
    "records (cf_digest cf) p k" "ns_audio s1 = ns_audio s @ ep_pcm_s16le p" "ns_final_seen s1 = ep_is_final p"
    "client_at (q + 1) (f + unat (ep_codec_frames p)) (x + unat (ep_sample_count p)) request_id s1"
    by metis
  have "ps \<noteq> [] \<longrightarrow> \<not> ns_final_seen s1" using pcm(3) s1(4) by auto
  from Cons.IH [OF r1(1) Cons.prems(2) s1(5) this, of "packets @ [k]"] Cons.prems(5)
  obtain ks s2 r2 f2 where s2: "read_parts cf request t0 r1 (packets @ [k], s1) = read_parts cf request t0 r2 (packets @ k # ks, s2)"
    "reader_at b rest r2" "list_all2 (records (cf_digest cf)) ps ks"
    "ns_audio s2 = ns_audio s1 @ concat (map ep_pcm_s16le ps)"
    "ns_final_seen s2 = (if ps = [] then ns_final_seen s1 else ep_is_final (last ps))"
    "client_at (q + 1 + length ps) f2 (x + unat (ep_sample_count p) + audio_samples ps) request_id s2"
    by auto
  show ?case
    by (intro exI [of _ "k # ks"] exI [of _ s2] exI [of _ r2] exI [of _ f2])
      (use r1(2) s1 s2 in \<open>auto simp: audio_samples_def add.assoc\<close>)
qed

lemma read_end: "reader_at b [] r \<Longrightarrow> read_parts cf request t0 r seen = Ok (seen, r)"
  by (subst read_parts.simps) (simp add: reader_at_def next_part_def)

section \<open>The two events\<close>

text \<open>The client's parser gives back the fields the server's encoder was given, and the texts fit a part.\<close>

definition start_announced :: "uuid \<Rightarrow> json_event" where
  "start_announced request_id = \<lparr>je_type = ''start'', je_request_id = Some request_id, je_finish_reason = None, je_metrics = None,
     je_audio = Some \<lparr>ja_encoding = ''pcm_s16le'', ja_sample_rate_hz = 24000, ja_channels = 1, ja_samples_per_codec_frame = 1920\<rparr>\<rparr>"

definition end_counted :: "engine_metrics \<Rightarrow> json option \<Rightarrow> bool" where
  "end_counted m metrics \<longleftrightarrow> (\<exists>kvs. metrics = Some (JObject kvs) \<and>
     map_of kvs ''emitted_packets'' = Some (JUnsigned (unat (em_emitted_packets m))) \<and>
     map_of kvs ''emitted_samples'' = Some (JUnsigned (unat (em_emitted_samples m))))"

definition fits_part :: "bytes \<Rightarrow> bool" where
  "fits_part payload \<longleftrightarrow> payload \<noteq> [] \<and> length payload \<le> MAX_PART_PAYLOAD_BYTES"

definition reads_events :: "client_foreign \<Rightarrow> foreign \<Rightarrow> uuid \<Rightarrow> bool" where
  "reads_events cf fo request_id \<longleftrightarrow>
     (\<forall>seed. let payload = fo_start_json fo (start_event_of request_id seed) in
        fits_part payload \<and> cf_parse_event cf payload = Ok (start_announced request_id)) \<and>
     (\<forall>reason m. let payload = fo_end_json fo \<lparr>ev_request_id = request_id, ev_finish_reason = reason, ev_metrics = m\<rparr> in
        fits_part payload \<and> (\<exists>metrics. end_counted m metrics \<and> cf_parse_event cf payload =
          Ok \<lparr>je_type = ''end'', je_request_id = Some request_id, je_finish_reason = Some (finish_reason_as_str reason),
            je_metrics = metrics, je_audio = None\<rparr>))"

lemma start_taken:
  assumes "reads_events cf fo request_id" and "\<not> ns_start_seen s" "ns_expected_sequence s = 0" "\<not> ns_end_seen s"
    "ns_server_request_id s = request_id"
  shows "handle_part cf request t0 (part_of (start_spec fo request_id seed) arrival) (packets, s) =
    Ok (packets, s\<lparr>ns_start_seen := True\<rparr>)"
proof -
  have "cf_parse_event cf (fo_start_json fo (start_event_of request_id seed)) = Ok (start_announced request_id)"
    using assms(1) by (simp add: reads_events_def Let_def)
  then show ?thesis
    using assms(2-)
    by (simp add: handle_part_def start_spec_def spec_content_type json_media ok_or_def handle_json_event_def
        validate_event_request_id_def validate_start_audio_def start_announced_def BENCH_SAMPLE_RATE_HZ_def)
qed

lemma counted_metrics:
  "end_counted m metrics \<Longrightarrow> validate_end_metrics metrics q x =
     (if em_emitted_packets m = q \<and> em_emitted_samples m = x then Ok ()
      else Err (BenchValidation ''end event metrics disagree with observed packets or samples''))"
  by (auto simp: end_counted_def validate_end_metrics_def ok_or_def word_unat_eq_iff)

lemma end_taken:
  assumes "reads_events cf fo request_id" and "client_at q f x request_id s" and "0 < q" "q < 2 ^ 64"
  shows "\<exists>metrics. end_counted m metrics \<and>
    handle_part cf request t0 (part_of (end_spec fo request_id reason m) arrival) (packets, s) =
      (if em_emitted_packets m = of_nat q \<and> em_emitted_samples m = of_nat x
       then Ok (packets, s\<lparr>ns_finish_reason := Some (finish_reason_as_str reason), ns_end_metrics := metrics, ns_end_seen := True\<rparr>)
       else Err (BenchValidation ''end event metrics disagree with observed packets or samples''))"
proof -
  obtain metrics where m: "end_counted m metrics" and
      e: "cf_parse_event cf (fo_end_json fo \<lparr>ev_request_id = request_id, ev_finish_reason = reason, ev_metrics = m\<rparr>) =
        Ok \<lparr>je_type = ''end'', je_request_id = Some request_id, je_finish_reason = Some (finish_reason_as_str reason),
            je_metrics = metrics, je_audio = None\<rparr>"
    using assms(1) unfolding reads_events_def Let_def by blast
  have "unat (of_nat q :: u64) = q" using assms(4) by (simp add: unat_of_nat)
  then have "(0 :: u64) < of_nat q" using assms(3) by (simp add: word_less_nat_alt)
  moreover have "validate_native_finish_reason quoted (finish_reason_as_str reason) = Ok ()" for quoted
    by (cases reason) (simp_all add: validate_native_finish_reason_def)
  ultimately show ?thesis
    using assms(2) m e counted_metrics [OF m, of "of_nat q" "of_nat x"]
    by (intro exI [of _ metrics])
      (simp add: handle_part_def end_spec_def spec_content_type json_media ok_or_def handle_json_event_def handle_end_event_def
        validate_event_request_id_def client_at_def)
qed

section \<open>The whole response\<close>

lemma audio_stream_length: "audio_stream q f x ps \<Longrightarrow> length ps \<le> audio_samples ps"
  by (induction ps arbitrary: q f x) (auto simp: audio_samples_def, fastforce)

lemma spec_texts:
  assumes "reads_events cf fo request_id"
  shows "spec_fits (start_spec fo request_id seed)" "spec_payload (start_spec fo request_id seed) \<noteq> []"
    "spec_fits (end_spec fo request_id reason m)" "spec_payload (end_spec fo request_id reason m) \<noteq> []"
  using assms json_spec_ok by (auto simp: reads_events_def Let_def fits_part_def start_spec_def end_spec_def)

lemma read_response:
  assumes "reader_at b (start_spec fo request_id seed # map audio_spec ps @ [end_spec fo request_id reason m]) r"
    and "boundary_fits b" "reads_events cf fo request_id" "audio_stream 0 0 0 ps" "ps \<noteq> []" "ep_is_final (last ps)"
    "audio_samples ps < 2 ^ 64"
  shows "\<exists>packets s r'.
    and_then (read_parts cf request t0 r ([], native_stream_new request_id)) (\<lambda>((packets, s), r').
        and_then (validate_complete s) (\<lambda>_. Ok (packets, s, r'))) =
      (if em_emitted_packets m = of_nat (length ps) \<and> em_emitted_samples m = of_nat (audio_samples ps)
       then Ok (packets, s, r') else Err (BenchValidation ''end event metrics disagree with observed packets or samples'')) \<and>
    list_all2 (records (cf_digest cf)) ps packets \<and> ns_audio s = concat (map ep_pcm_s16le ps) \<and>
    ns_expected_sample s = of_nat (audio_samples ps) \<and> ns_finish_reason s = Some (finish_reason_as_str reason)"
proof -
  let ?s = "(native_stream_new request_id)\<lparr>ns_start_seen := True\<rparr>" and ?rest = "[end_spec fo request_id reason m]"
  note ok = spec_texts [OF assms(3)]
  obtain arrival r1 where r1: "reader_at b (map audio_spec ps @ ?rest) r1"
      "read_parts cf request t0 r ([], native_stream_new request_id) = and_then (handle_part cf request t0
         (part_of (start_spec fo request_id seed) (Some arrival)) ([], native_stream_new request_id)) (read_parts cf request t0 r1)"
    by (rule read_step [OF assms(1,2) ok(1,2)])
  have s: "client_at 0 0 0 request_id ?s" "ps \<noteq> [] \<longrightarrow> \<not> ns_final_seen ?s" "ns_audio ?s = []"
    by (simp_all add: client_at_def native_stream_new_def)
  from read_audio [OF r1(1) assms(2) s(1,2) assms(4), of cf request t0 "[]"]
  obtain ks s1 r2 f1 where s1: "read_parts cf request t0 r1 ([], ?s) = read_parts cf request t0 r2 (ks, s1)"
    "reader_at b ?rest r2" "list_all2 (records (cf_digest cf)) ps ks" "ns_audio s1 = concat (map ep_pcm_s16le ps)"
    "ns_final_seen s1" "client_at (length ps) f1 (audio_samples ps) request_id s1"
    using assms(5,6) s(3) by (auto simp del: append_Cons)
  obtain arrival' r3 where r3: "reader_at b [] r3" "read_parts cf request t0 r2 (ks, s1) =
      and_then (handle_part cf request t0 (part_of (end_spec fo request_id reason m) (Some arrival')) (ks, s1)) (read_parts cf request t0 r3)"
    by (rule read_step [OF s1(2) assms(2) ok(3,4)])
  have q: "0 < length ps" "length ps < 2 ^ 64" using assms(5,7) audio_stream_length [OF assms(4)] by simp_all
  obtain metrics where e: "handle_part cf request t0 (part_of (end_spec fo request_id reason m) (Some arrival')) (ks, s1) =
      (if em_emitted_packets m = of_nat (length ps) \<and> em_emitted_samples m = of_nat (audio_samples ps)
       then Ok (ks, s1\<lparr>ns_finish_reason := Some (finish_reason_as_str reason), ns_end_metrics := metrics, ns_end_seen := True\<rparr>)
       else Err (BenchValidation ''end event metrics disagree with observed packets or samples''))"
    using end_taken [OF assms(3) s1(6) q] by metis
  have st: "handle_part cf request t0 (part_of (start_spec fo request_id seed) (Some arrival)) ([], native_stream_new request_id) =
      Ok ([], ?s)"
    by (rule start_taken [OF assms(3)]) (simp_all add: native_stream_new_def)
  let ?e = "s1\<lparr>ns_finish_reason := Some (finish_reason_as_str reason), ns_end_metrics := metrics, ns_end_seen := True\<rparr>"
  have "validate_complete ?e = Ok ()"
    using s1(5,6) q(1) by (simp add: validate_complete_def client_at_def)
  then show ?thesis
    using s1(3,4,6) by (intro exI [of _ ks] exI [of _ ?e] exI [of _ r3]) (simp add: r1(2) st s1(1) r3(2) e read_end [OF r3(1)] client_at_def)
qed

text \<open>C37: a streaming response that the server counts as completed is read back whole, however the connection
  cuts it: the client accepts it when the engine's metrics state the packets and samples that were sent, and otherwise refuses it for
  that disagreement only; its packet records are those of the packets sent, its audio is their PCM, its sample
  count is the one the server counted and its finish reason the one the server wrote.\<close>

theorem client_reads_server_stream:
  assumes "streaming_run fuel cx (streaming_worker_new cx seed) w = Some (k, w')" and "wk_completion k = CompletedWith n"
    and "delivers b (concat (wk_sent k))" and "boundary_fits (cx_boundary cx)"
    and "reads_events cf (cx_foreign cx) (cx_request_id cx)"
  shows "\<exists>ps reason m packets s r.
    wk_sent k = start_part (cx_foreign cx) (cx_boundary cx) (cx_request_id cx) seed
      # map (audio_part (cx_boundary cx)) ps @ [end_part (cx_foreign cx) (cx_boundary cx) (cx_request_id cx) reason m] \<and>
    parse_native_stream cf request (cx_request_id cx) (cx_boundary cx) b t0 =
      (if em_emitted_packets m = of_nat (length ps) \<and> em_emitted_samples m = n then Ok (packets, s, r)
       else Err (BenchValidation ''end event metrics disagree with observed packets or samples'')) \<and>
    list_all2 (records (cf_digest cf)) ps packets \<and> ns_audio s = concat (map ep_pcm_s16le ps) \<and>
    ns_expected_sample s = n \<and> ns_finish_reason s = Some (finish_reason_as_str reason)"
proof -
  have "worker_ok cx seed (streaming_worker_new cx seed) []"
    by (simp add: worker_ok_def streaming_worker_new_def default_continuity_def)
  then obtain ps closing where body: "audio_stream 0 0 0 ps" "closing_ok cx ps (CompletedWith n) closing"
      "wk_sent k = start_part (cx_foreign cx) (cx_boundary cx) (cx_request_id cx) seed
        # map (audio_part (cx_boundary cx)) ps @ closing"
    using streaming_run_body [OF assms(1)] assms(2) unfolding body_ok_def by metis
  obtain reason m where closing: "ps \<noteq> []" "ep_is_final (last ps)" "unat n = audio_samples ps"
      "closing = [end_part (cx_foreign cx) (cx_boundary cx) (cx_request_id cx) reason m]"
    using body(2) by (auto simp: closing_ok_def)
  let ?specs = "start_spec (cx_foreign cx) (cx_request_id cx) seed # map audio_spec ps @
    [end_spec (cx_foreign cx) (cx_request_id cx) reason m]"
  have n: "n = of_nat (audio_samples ps)" "audio_samples ps < 2 ^ 64"
  proof -
    have "unat n < 2 ^ LENGTH(64)" by (rule unsigned_less)
    then show "n = of_nat (audio_samples ps)" "audio_samples ps < 2 ^ 64" by (simp_all add: closing(3) [symmetric] of_nat_unat)
  qed
  have "delivers b (''--'' @ cx_boundary cx @ CRLF @ after_boundary (cx_boundary cx) ?specs)"
    using assms(3) write_parts_text [of ?specs] unfolding body(3) closing(4) stream_text by simp
  then have "reader_at (cx_boundary cx) ?specs (multipart_reader_new b (cx_boundary cx))" by (rule reader_at_new) simp
  from read_response [OF this assms(4,5) body(1) closing(1,2) n(2), of request t0]
  obtain packets s r where "parse_native_stream cf request (cx_request_id cx) (cx_boundary cx) b t0 =
      (if em_emitted_packets m = of_nat (length ps) \<and> em_emitted_samples m = n then Ok (packets, s, r)
       else Err (BenchValidation ''end event metrics disagree with observed packets or samples''))"
    "list_all2 (records (cf_digest cf)) ps packets" "ns_audio s = concat (map ep_pcm_s16le ps)"
    "ns_expected_sample s = n" "ns_finish_reason s = Some (finish_reason_as_str reason)"
    unfolding parse_native_stream_def n(1) [symmetric] by blast
  then show ?thesis using body(3) closing(4) by blast
qed

text \<open>An encoding of the two events and a parser for it.\<close>

definition agreed_metrics :: engine_metrics where
  "agreed_metrics = (engine_metrics_from default_metrics)\<lparr>em_emitted_samples := 1920, em_emitted_packets := 1\<rparr>"

definition agreed_end_text :: "end_event \<Rightarrow> bytes" where
  "agreed_end_text e = ''E'' @ (if ev_finish_reason e = FinishStop then ''s'' else ''l'')
     @ le_bytes 8 (unat (em_emitted_packets (ev_metrics e))) @ le_bytes 8 (unat (em_emitted_samples (ev_metrics e)))"

definition agreed_foreign :: foreign where
  "agreed_foreign = example_foreign\<lparr>fo_start_json := \<lambda>_. ''S'', fo_end_json := agreed_end_text\<rparr>"

definition agreed_client :: client_foreign where
  "agreed_client = \<lparr>cf_parse_event = \<lambda>s. if s = ''S'' then Ok (start_announced ''0-1'')
       else Ok \<lparr>je_type = ''end'', je_request_id = Some ''0-1'',
         je_finish_reason = Some (if s ! 1 = CHR ''s'' then ''stop'' else ''length''),
         je_metrics = Some (JObject [(''emitted_packets'', JUnsigned (le_value (take 8 (drop 2 s)))),
           (''emitted_samples'', JUnsigned (le_value (drop 10 s)))]), je_audio = None\<rparr>,
     cf_digest = \<lambda>s. s, cf_quoted = \<lambda>s. s\<rparr>"

lemma agreed_end_text_shape:
  "agreed_end_text e \<noteq> ''S''" "agreed_end_text e ! 1 = (if ev_finish_reason e = FinishStop then CHR ''s'' else CHR ''l'')"
  "take 8 (drop 2 (agreed_end_text e)) = le_bytes 8 (unat (em_emitted_packets (ev_metrics e)))"
  "drop 10 (agreed_end_text e) = le_bytes 8 (unat (em_emitted_samples (ev_metrics e)))" "length (agreed_end_text e) = 18"
  by (simp_all add: agreed_end_text_def)

lemma le_value_u64: "le_value (le_bytes 8 (unat (x :: u64))) = unat x"
  using unat_word_max(1) [of x] by (simp add: le_value_le_bytes u64_max_def)

lemma agreed_events: "reads_events agreed_client agreed_foreign ''0-1''"
  unfolding reads_events_def Let_def
proof (intro conjI allI)
  fix seed
  show "fits_part (fo_start_json agreed_foreign (start_event_of ''0-1'' seed))"
    "cf_parse_event agreed_client (fo_start_json agreed_foreign (start_event_of ''0-1'' seed)) = Ok (start_announced ''0-1'')"
    by (simp_all add: fits_part_def agreed_foreign_def agreed_client_def MAX_PART_PAYLOAD_BYTES_def)
next
  fix reason m
  let ?e = "\<lparr>ev_request_id = ''0-1'', ev_finish_reason = reason, ev_metrics = m\<rparr>"
  have "agreed_end_text ?e \<noteq> []" using agreed_end_text_shape(5) [of ?e] by auto
  then show "fits_part (fo_end_json agreed_foreign ?e)"
    using agreed_end_text_shape(5) [of ?e] by (simp add: fits_part_def agreed_foreign_def MAX_PART_PAYLOAD_BYTES_def)
  show "\<exists>metrics. end_counted m metrics \<and> cf_parse_event agreed_client (fo_end_json agreed_foreign ?e) =
      Ok \<lparr>je_type = ''end'', je_request_id = Some ''0-1'', je_finish_reason = Some (finish_reason_as_str reason),
        je_metrics = metrics, je_audio = None\<rparr>"
    using agreed_end_text_shape [of ?e]
    by (intro exI [of _ "Some (JObject [(''emitted_packets'', JUnsigned (unat (em_emitted_packets m))),
        (''emitted_samples'', JUnsigned (unat (em_emitted_samples m)))])"])
      (cases reason; simp add: end_counted_def agreed_foreign_def agreed_client_def le_value_u64)
qed

text \<open>A connection that brings a text in two pieces and is closed.\<close>

definition closing_body :: "bytes \<Rightarrow> http_body" where
  "closing_body s = \<lparr>hb_stream = [NetBytes (take 1 s) 1, NetBytes (drop 1 s) 2], hb_raw = timed_buffer_new,
     hb_transfer = CloseDelimited, hb_response_bytes = 0, hb_eof = False\<rparr>"

lemma closing_body_delivers: "2 \<le> length s \<Longrightarrow> delivers (closing_body s) s"
proof -
  assume s: "2 \<le> length s"
  have "raw_ok (closing_body s)"
    using s by (auto simp: raw_ok_def closing_body_def timed_buffer_new_def tb_wf_def tb_content_def segments_ok_def)
  moreover have "pending (closing_body s) = s"
    by (simp add: pending_def closing_body_def timed_buffer_new_def tb_content_def)
  ultimately show ?thesis using close_delimited_delivers [of "closing_body s"] by (simp add: closing_body_def)
qed

lemma agreed_end_part:
  "end_part agreed_foreign b r reason m = end_part agreed_foreign b r reason' m' \<Longrightarrow>
   em_emitted_packets m = em_emitted_packets m' \<and> em_emitted_samples m = em_emitted_samples m'"
proof -
  let ?t = "\<lambda>reason m. agreed_end_text \<lparr>ev_request_id = r, ev_finish_reason = reason, ev_metrics = m\<rparr>"
  assume "end_part agreed_foreign b r reason m = end_part agreed_foreign b r reason' m'"
  then have "?t reason m = ?t reason' m'"
    by (simp add: end_part_def part_def agreed_foreign_def agreed_end_text_shape(5))
  then have "le_bytes 8 (unat (em_emitted_packets m)) = le_bytes 8 (unat (em_emitted_packets m'))"
    "le_bytes 8 (unat (em_emitted_samples m)) = le_bytes 8 (unat (em_emitted_samples m'))"
    using agreed_end_text_shape(3,4) [of "\<lparr>ev_request_id = r, ev_finish_reason = reason, ev_metrics = m\<rparr>"]
      agreed_end_text_shape(3,4) [of "\<lparr>ev_request_id = r, ev_finish_reason = reason', ev_metrics = m'\<rparr>"] by simp_all
  then show ?thesis by (metis le_value_u64 word_unat_eq_iff)
qed

definition example_prepared :: prepared_request where
  "example_prepared = \<lparr>pq_index = 0, pq_entry = example_workload_entry, pq_body = ''{}'', pq_body_sha256 = [],
     pq_sampling_audit = entry_audit (\<lambda>_ _. []) example_workload_entry\<rparr>"

lemma client_reads_server_stream_witness:
  "\<exists>k b packets s r. streaming_run 2 (scripted_context agreed_foreign agreed_metrics)
       (streaming_worker_new (scripted_context agreed_foreign agreed_metrics) 7) example_script = Some (k, []) \<and>
     wk_completion k = CompletedWith 1920 \<and> delivers b (concat (wk_sent k)) \<and>
     parse_native_stream agreed_client example_prepared ''0-1'' (part_boundary agreed_foreign ''0-1'') b 0 = Ok (packets, s, r) \<and>
     length packets = 1 \<and> ns_expected_sample s = 1920"
proof -
  let ?cx = "scripted_context agreed_foreign agreed_metrics"
  obtain k where k: "streaming_run 2 ?cx (streaming_worker_new ?cx 7) example_script = Some (k, [])"
    "wk_completion k = CompletedWith 1920"
    "wk_sent k = [start_part agreed_foreign (cx_boundary ?cx) ''0-1'' 7, audio_part (cx_boundary ?cx) example_packet,
       end_part agreed_foreign (cx_boundary ?cx) ''0-1'' FinishStop agreed_metrics]"
    by (rule scripted_run [OF refl])
  let ?b = "closing_body (concat (wk_sent k))"
  have b: "delivers ?b (concat (wk_sent k))"
    by (rule closing_body_delivers) (simp add: k(3) start_part_def part_def)
  have cx: "cx_boundary ?cx = part_boundary agreed_foreign ''0-1''" "cx_foreign ?cx = agreed_foreign" "cx_request_id ?cx = ''0-1''"
    by (simp_all add: scripted_context_def)
  have fits: "boundary_fits (cx_boundary ?cx)"
    unfolding cx(1) by (simp add: part_boundary_def agreed_foreign_def example_foreign_def boundary_fits_def MAX_PART_HEADER_BYTES_def)
  have events: "reads_events agreed_client (cx_foreign ?cx) (cx_request_id ?cx)" unfolding cx by (rule agreed_events)
  from client_reads_server_stream [OF k(1,2) b fits events, of example_prepared 0]
  obtain ps reason m packets s rd where r: "wk_sent k = start_part agreed_foreign (cx_boundary ?cx) ''0-1'' 7
      # map (audio_part (cx_boundary ?cx)) ps @ [end_part agreed_foreign (cx_boundary ?cx) ''0-1'' reason m]"
    "parse_native_stream agreed_client example_prepared ''0-1'' (cx_boundary ?cx) ?b 0 =
      (if em_emitted_packets m = of_nat (length ps) \<and> em_emitted_samples m = 1920 then Ok (packets, s, rd)
       else Err (BenchValidation ''end event metrics disagree with observed packets or samples''))"
    "list_all2 (records (cf_digest agreed_client)) ps packets" "ns_expected_sample s = 1920"
    unfolding cx(2,3) by blast
  have "length ps = 1" using arg_cong [OF r(1), of length] by (simp add: k(3))
  moreover have "em_emitted_packets m = 1" "em_emitted_samples m = 1920"
  proof -
    have "last (wk_sent k) = end_part agreed_foreign (cx_boundary ?cx) ''0-1'' FinishStop agreed_metrics" by (simp add: k(3))
    moreover have "last (wk_sent k) = end_part agreed_foreign (cx_boundary ?cx) ''0-1'' reason m" by (simp add: r(1))
    ultimately show "em_emitted_packets m = 1" "em_emitted_samples m = 1920"
      using agreed_end_part [of "cx_boundary ?cx" "''0-1''" FinishStop agreed_metrics reason m] by (simp_all add: agreed_metrics_def)
  qed
  ultimately have "parse_native_stream agreed_client example_prepared ''0-1'' (part_boundary agreed_foreign ''0-1'') ?b 0 = Ok (packets, s, rd)"
    using r(2) unfolding cx(1) by simp
  moreover have "length packets = 1" using list_all2_lengthD [OF r(3)] \<open>length ps = 1\<close> by simp
  ultimately show ?thesis using k(1,2) b r(4) by blast
qed

section \<open>The buffered response\<close>

text \<open>The audio a buffered worker has collected is not empty once a packet was accepted.\<close>

definition collected :: "buffered_worker \<Rightarrow> bool" where
  "collected b \<longleftrightarrow> (pc_saw_packet (bk_continuity b) \<longrightarrow> bk_pcm b \<noteq> [])"

lemma buffered_accept_collected: "buffered_accept cx p b = Ok b' \<Longrightarrow> collected b'"
  using validate_packet_Ok [of p] continuity_accept_Ok(1) [of "bk_continuity b" p]
  by (fastforce simp: buffered_accept_def and_then_Ok_iff collected_def split: if_splits)

lemma buffered_run_output:
  "buffered_run fuel cx b w = Some (Returned (Ok out), CompletedWith n, w') \<Longrightarrow> collected b \<Longrightarrow>
   \<exists>pcm. pcm \<noteq> [] \<and> encode_pcm16_mono pcm = Ok (bo_wav out) \<and> n = of_nat (length pcm div 2)"
proof (induction fuel arbitrary: b w)
  case (Suc fuel)
  let ?b = "b\<lparr>bk_turn := bk_turn b + 1\<rparr>"
  have c: "collected ?b" using Suc.prems(2) by (simp add: collected_def)
  have end_: "\<exists>pcm. pcm \<noteq> [] \<and> encode_pcm16_mono pcm = Ok (bo_wav out) \<and> n = of_nat (length pcm div 2)"
    if "buffered_end cx reason ?b w1 = Some (Returned (Ok out), CompletedWith n, w')" for reason w1
    using that c
    by (cases "encode_pcm16_mono (bk_pcm b)")
      (auto simp: buffered_end_def buffered_fail_def continuity_finish_def collected_def split: if_splits)
  have fail: "buffered_fail cx compl err w1 \<noteq> Some (Returned (Ok out), CompletedWith n, w')" for compl err w1
    by (auto simp: buffered_fail_def)
  show ?case
  proof (cases "cx_cancelled cx (bk_turn b + 1)")
    case True
    then show ?thesis using Suc.prems(1) fail by (simp add: Let_def)
  next
    case False
    then obtain polled w1 where p: "rq_poll (cx_request cx) (sv_poll_timeout (cx_config cx)) w = Some (polled, w1)"
      using Suc.prems(1) by (auto simp: Let_def bind_eq_Some_conv)
    note run = Suc.prems(1) [simplified, unfolded Let_def] False p
    show ?thesis
    proof (cases polled)
      case Panicked
      then show ?thesis using run by simp
    next
      case (Returned answer)
      show ?thesis
      proof (cases answer)
        case (Inl e)
        then show ?thesis using run Returned fail by simp
      next
        case (Inr event)
        show ?thesis
        proof (cases event)
          case (EnginePacketPolled q)
          then show ?thesis
            using run Returned Inr fail Suc.IH buffered_accept_collected [of cx q ?b]
            by (cases "buffered_accept cx q ?b") simp_all
        qed (use run Returned Inr end_ Suc.IH [OF _ c] in simp_all)
      qed
    qed
  qed
qed simp

lemma read_segments_ok:
  assumes "delivers b body"
  obtains segs b' where "read_segments b [] = Ok (segs, b')" "concat (map ti_bytes segs) = body"
proof -
  have "\<exists>segs b'. read_segments b acc = Ok (acc @ segs, b') \<and> concat (map ti_bytes segs) = body" for acc
    using assms
  proof (induction "rest_size b" arbitrary: b body acc rule: less_induct)
    case less
    from less.prems show ?case
    proof (cases rule: delivers_cases)
      case (1 b')
      then show ?thesis by (subst read_segments.simps) simp
    next
      case (2 seg b' rest)
      have "rest_size b' < rest_size b" using next_segment_smaller 2(1) by blast
      from less.hyps [OF this 2(3), of "acc @ [seg]"] show ?thesis
        using 2 by (subst read_segments.simps) (auto intro: exI [of _ "seg # _"])
    qed
  qed
  from this [of "[]"] show thesis using that by auto
qed

lemma arrival_of_inside: "offset < length (concat (map ti_bytes segs)) \<Longrightarrow> arrival_of offset segs \<noteq> None"
  by (induction segs arbitrary: offset) auto

text \<open>C38: a buffered response survives the exchange: when the worker hands over a WAV file and is counted as completed,
  a client that is delivered the file reads it without an error, however the connection cuts it; the samples it
  reports are the ones the server counted, the digest it reports is that of the audio the worker collected,
  and the time of the first audio is that of the segment that brought it.\<close>

theorem client_reads_buffered_response:
  assumes "buffered_run fuel cx buffered_worker_new w = Some (Returned (Ok out), CompletedWith n, w')"
    and "delivers b (bo_wav out)"
    and "head_header ''x-finish-reason'' head = Some (finish_reason_as_str (bo_finish_reason out))"
  shows "\<exists>pcm oc t. encode_pcm16_mono pcm = Ok (bo_wav out) \<and> n = of_nat (length pcm div 2) \<and>
    parse_native_wav cf log_text request head b t0 now = Ok oc \<and> rr_success (oc_record oc) \<and>
    rr_samples (oc_record oc) = Some n \<and> rr_audio_sha256 (oc_record oc) = Some (cf_digest cf pcm) \<and>
    rr_finish_reason (oc_record oc) = Some (finish_reason_as_str (bo_finish_reason out)) \<and>
    rr_ttfa_ms (oc_record oc) = Some (milliseconds (t - t0)) \<and>
    (\<exists>segs b'. read_segments b [] = Ok (segs, b') \<and> arrival_of 44 segs = Some t)"
proof -
  have "collected buffered_worker_new" by (simp add: collected_def buffered_worker_new_def default_continuity_def)
  then obtain pcm where pcm: "pcm \<noteq> []" "encode_pcm16_mono pcm = Ok (bo_wav out)" "n = of_nat (length pcm div 2)"
    using buffered_run_output [OF assms(1)] by blast
  note wav = wav_exchange [OF pcm(2,1)] and shape = encode_wav_shape [OF pcm(2)]
  obtain segs b' where segs: "read_segments b [] = Ok (segs, b')" "concat (map ti_bytes segs) = bo_wav out"
    by (rule read_segments_ok [OF assms(2)])
  have "44 < length (concat (map ti_bytes segs))" using pcm(1) by (simp add: segs(2) shape(1))
  then obtain t where t: "arrival_of 44 segs = Some t" using arrival_of_inside by blast
  have reason: "validate_native_finish_reason quoted (finish_reason_as_str r) = Ok ()" for quoted r
    by (cases r) (simp_all add: validate_native_finish_reason_def)
  have "length pcm div 2 < 2 ^ 32" using shape(2) by simp
  then obtain seconds where d: "audio_duration_seconds (length pcm div 2) BENCH_SAMPLE_RATE_HZ = Ok seconds"
    by (simp add: audio_duration_seconds_def BENCH_SAMPLE_RATE_HZ_def)
  show ?thesis
    using wav pcm(2,3) segs t d assms(3)
    by (intro exI [of _ pcm])
      (auto simp: parse_native_wav_def Let_def ok_or_def reason successful_record_def request_fields_def)
qed

lemma client_reads_buffered_response_witness:
  "\<exists>out b oc. buffered_run 2 (scripted_context example_foreign agreed_metrics) buffered_worker_new example_script =
       Some (Returned (Ok out), CompletedWith 1920, []) \<and> delivers b (bo_wav out) \<and>
     parse_native_wav agreed_client False example_prepared \<lparr>rh_status = 200, rh_headers = [''x-finish-reason'' \<mapsto> ''stop'']\<rparr> b 0 5 = Ok oc \<and>
     rr_samples (oc_record oc) = Some 1920"
proof -
  let ?cx = "scripted_context example_foreign agreed_metrics" and ?pcm = "ep_pcm_s16le example_packet"
  let ?head = "\<lparr>rh_status = 200, rh_headers = [''x-finish-reason'' \<mapsto> ''stop'']\<rparr>"
  let ?b = "\<lambda>n. \<lparr>bk_pcm = ?pcm, bk_continuity = example_continuity, bk_turn = n\<rparr>"
  have len: "length ?pcm = 3840" by (simp add: example_packet_def)
  obtain wav where wav: "encode_pcm16_mono ?pcm = Ok wav"
    by (simp add: encode_pcm16_mono_def len checked_add_def ok_or_def Let_def)
  have room: "\<not> max_buffered_pcm_bytes default_server_config < 3840"
    by (simp add: max_buffered_pcm_bytes_def default_server_config_def default_durations usize_saturating_mul_def
        usize_max_def SAMPLES_PER_CODEC_FRAME_def)
  have "buffered_accept ?cx example_packet (buffered_worker_new\<lparr>bk_turn := 1\<rparr>) = Ok (?b 1)"
    using room by (simp add: buffered_accept_def buffered_worker_new_def example_accept scripted_context_def len usize_saturating_add_def usize_max_def)
  moreover have "buffered_end ?cx FinishStop (?b 2) [] =
      Some (Returned (Ok \<lparr>bo_wav = wav, bo_finish_reason = FinishStop\<rparr>), CompletedWith 1920, [])"
    by (simp add: buffered_end_def continuity_finish_def example_continuity_def scripted_context_fields wav len)
  ultimately have run: "buffered_run 2 ?cx buffered_worker_new example_script =
      Some (Returned (Ok \<lparr>bo_wav = wav, bo_finish_reason = FinishStop\<rparr>), CompletedWith 1920, [])"
    by (simp add: numeral_2_eq_2 scripted_context_fields Let_def buffered_worker_new_def)
  have "delivers (closing_body wav) wav"
    by (rule closing_body_delivers) (use encode_wav_shape(1) [OF wav] in simp)
  then have d: "delivers (closing_body wav) (bo_wav \<lparr>bo_wav = wav, bo_finish_reason = FinishStop\<rparr>)" by simp
  have h: "head_header ''x-finish-reason'' ?head = Some (finish_reason_as_str (bo_finish_reason \<lparr>bo_wav = wav, bo_finish_reason = FinishStop\<rparr>))"
    by (simp add: head_header_def to_ascii_lower_def bv_def char_of_def bit_0)
  show ?thesis using client_reads_buffered_response [OF run d h, of agreed_client False example_prepared 0 5] run d by blast
qed

section \<open>Raw PCM\<close>

lemma add_chunk_bytes: "concat (map ti_bytes (add_chunk chunks s)) = concat (map ti_bytes chunks) @ ti_bytes s"
  by (cases chunks rule: rev_cases) (auto simp: add_chunk_def)

lemma add_chunk_nonempty: "[] \<notin> ti_bytes ` set chunks \<Longrightarrow> [] \<notin> ti_bytes ` set (add_chunk chunks s)"
  by (cases chunks rule: rev_cases) (auto simp: add_chunk_def)

lemma add_chunk_apart: "distinct_adj (map ti_arrived chunks) \<Longrightarrow> distinct_adj (map ti_arrived (add_chunk chunks s))"
  by (cases chunks rule: rev_cases) (auto simp: add_chunk_def distinct_adj_append_iff)

lemma merged_chunks:
  defines "merged chunks segs \<equiv> foldl add_chunk chunks segs"
  assumes "[] \<notin> ti_bytes ` set chunks" and "distinct_adj (map ti_arrived chunks)"
  shows "concat (map ti_bytes (merged chunks segs)) = concat (map ti_bytes chunks) @ concat (map ti_bytes segs)"
    "[] \<notin> ti_bytes ` set (merged chunks segs)" "distinct_adj (map ti_arrived (merged chunks segs))"
  unfolding merged_def using assms(2,3)
  by (induction segs arbitrary: chunks) (simp_all add: add_chunk_bytes add_chunk_nonempty add_chunk_apart)

text \<open>Packets that lie side by side from an offset on, one for each piece.\<close>

fun tiles :: "(bytes \<Rightarrow> bytes) \<Rightarrow> nat \<Rightarrow> nat \<Rightarrow> bytes list \<Rightarrow> packet_record list \<Rightarrow> bool" where
  "tiles digest n offset [] ks \<longleftrightarrow> ks = []"
| "tiles digest n offset (piece # pieces) [] \<longleftrightarrow> False"
| "tiles digest n offset (piece # pieces) (k # ks) \<longleftrightarrow>
     unat (pk_sequence k) = n \<and> unat (pk_byte_offset k) = offset \<and> unat (pk_payload_bytes k) = length piece \<and>
     pk_payload_sha256 k = digest piece \<and>
     (even offset \<and> even (length piece) \<longrightarrow>
        map_option unat (pk_first_sample k) = Some (offset div 2) \<and> map_option unat (pk_sample_count k) = Some (length piece div 2)) \<and>
     tiles digest (n + 1) (offset + length piece) pieces ks"

lemma raw_packets_tile:
  "offset + length (concat (map ti_bytes chunks)) < 2 ^ 64 \<Longrightarrow> n + length chunks < 2 ^ 64 \<Longrightarrow>
   tiles (cf_digest cf) n offset (map ti_bytes chunks) (raw_packets cf request t0 n (of_nat offset) previous chunks)"
proof (induction chunks arbitrary: n offset previous)
  case (Cons c chunks)
  have u: "unat (of_nat m :: u64) = m" if "m < 2 ^ 64" for m using that by (simp add: unat_of_nat)
  have bounds: "offset < 2 ^ 64" "length (ti_bytes c) < 2 ^ 64" "n < 2 ^ 64" using Cons.prems by auto
  have half: "unat ((of_nat m :: u64) div 2) = m div 2" if "m < 2 ^ 64" for m using that by (simp add: unat_div u)
  have "tiles (cf_digest cf) (n + 1) (offset + length (ti_bytes c)) (map ti_bytes chunks)
      (raw_packets cf request t0 (n + 1) (of_nat (offset + length (ti_bytes c))) (Some (ti_arrived c)) chunks)"
    by (rule Cons.IH) (use Cons.prems in auto)
  moreover have "(of_nat m :: u64) mod 2 = 0 \<longleftrightarrow> even m" if "m < 2 ^ 64" for m
    using that by (simp add: word_unat_eq_iff unat_mod u even_iff_mod_2_eq_zero)
  ultimately show ?case using bounds by (simp add: Let_def u half)
qed simp

lemma nonempty_pieces: "[] \<notin> set ps \<Longrightarrow> length ps \<le> length (concat ps)"
  by (induction ps) (auto simp: Suc_le_eq add_strict_increasing)

text \<open>C40: raw PCM is accounted for byte by byte: when the client accepts a raw response that delivered a body, the body is a
  non-empty whole number of samples, the samples and the digest it reports are those of the body, and its
  packet records tile it: they are numbered from zero, each starts where the one before ends, carries the
  digest of its piece, names its samples when it is aligned, and differs from its neighbour in its
  arrival.\<close>

theorem raw_pcm_conserved:
  assumes "delivers b body" and "length body < 2 ^ 64"
    and "parse_sglang_raw cf log_text request head b t0 now = Ok oc"
  shows "body \<noteq> [] \<and> even (length body) \<and> rr_samples (oc_record oc) = Some (of_nat (length body div 2)) \<and>
    rr_audio_sha256 (oc_record oc) = Some (cf_digest cf body) \<and>
    (\<exists>chunks :: timed_bytes list. concat (map ti_bytes chunks) = body \<and> [] \<notin> ti_bytes ` set chunks \<and> distinct_adj (map ti_arrived chunks) \<and>
      rr_packet_count (oc_record oc) = of_nat (length chunks) \<and>
      tiles (cf_digest cf) 0 0 (map ti_bytes chunks) (oc_packets oc))"
proof -
  obtain segs b' where segs: "read_segments b [] = Ok (segs, b')" "concat (map ti_bytes segs) = body"
    by (rule read_segments_ok [OF assms(1)])
  let ?chunks = "foldl add_chunk [] segs"
  have m: "concat (map ti_bytes ?chunks) = body" "[] \<notin> ti_bytes ` set ?chunks" "distinct_adj (map ti_arrived ?chunks)"
    using merged_chunks [of "[]" segs] segs(2) by simp_all
  have total: "sum_list (map (\<lambda>c. length (ti_bytes c)) ?chunks) = length body"
    using arg_cong [OF m(1), of length] by (simp add: length_concat o_def)
  have "length ?chunks \<le> length body" using nonempty_pieces [of "map ti_bytes ?chunks"] m(1,2) by simp
  then have "tiles (cf_digest cf) 0 0 (map ti_bytes ?chunks) (raw_packets cf request t0 0 0 None ?chunks)"
    using raw_packets_tile [of 0 ?chunks 0] m(1) assms(2) by simp
  moreover have "length body \<noteq> 0" "even (length body)" "rr_samples (oc_record oc) = Some (of_nat (length body div 2))"
    "rr_audio_sha256 (oc_record oc) = Some (cf_digest cf body)" "rr_packet_count (oc_record oc) = of_nat (length ?chunks)"
    "oc_packets oc = raw_packets cf request t0 0 0 None ?chunks"
    using assms(3) unfolding parse_sglang_raw_def by (auto simp: segs(1) m(1) total and_then_Ok_iff Let_def simp del: sum_list_eq_0_iff split: if_splits)
  ultimately show ?thesis using m by (intro conjI exI [of _ ?chunks]) simp_all
qed

definition raw_example :: "bytes \<Rightarrow> response_head" where
  "raw_example rate = \<lparr>rh_status = 200, rh_headers = [''content-type'' \<mapsto> ''audio/pcm'', ''x-sample-rate'' \<mapsto> rate]\<rparr>"

lemma raw_pcm_conserved_witness:
  "\<exists>oc. delivers (closing_body ''abcd'') ''abcd'' \<and>
     parse_sglang_raw agreed_client False example_prepared (raw_example ''24000'') (closing_body ''abcd'') 0 5 = Ok oc \<and>
     rr_samples (oc_record oc) = Some 2"
proof -
  have d: "delivers (closing_body ''abcd'') ''abcd''" by (rule closing_body_delivers) simp
  obtain segs b' where segs: "read_segments (closing_body ''abcd'') [] = Ok (segs, b')" "concat (map ti_bytes segs) = ''abcd''"
    by (rule read_segments_ok [OF d])
  have "concat (map ti_bytes (foldl add_chunk [] segs)) = ''abcd''"
    using merged_chunks(1) [of "[]" segs] segs(2) by simp
  from arg_cong [OF this, of length]
  have total: "sum_list (map (\<lambda>c. length (ti_bytes c)) (foldl add_chunk [] segs)) = 4" by (simp add: length_concat o_def)
  have h: "head_header ''content-type'' (raw_example ''24000'') = Some ''audio/pcm''"
    "head_header ''x-sample-rate'' (raw_example ''24000'') = Some ''24000''"
    by (simp_all add: head_header_def raw_example_def to_ascii_lower_def bv_def char_of_def bit_0)
  have "parse_unsigned u64_max ''24000'' = Some 24000" by (simp add: parse_unsigned_def is_digit_def bv_def u64_max_def)
  then have rate: "sample_rate_from_headers (raw_example ''24000'') ''audio/pcm'' = Ok 24000"
    by (simp add: sample_rate_from_headers_def h ok_or_def)
  have "media_type_is ''audio/pcm'' ''audio/pcm''" by code_simp
  then obtain oc where oc: "parse_sglang_raw agreed_client False example_prepared (raw_example ''24000'') (closing_body ''abcd'') 0 5 = Ok oc"
    using rate by (simp add: parse_sglang_raw_def h ok_or_def segs(1) total Let_def audio_duration_seconds_def del: sum_list_eq_0_iff)
  have "length ''abcd'' < (2 :: nat) ^ 64" by simp
  then have "rr_samples (oc_record oc) = Some (of_nat (length ''abcd'' div 2))"
    using raw_pcm_conserved [OF d _ oc] by blast
  then have "rr_samples (oc_record oc) = Some 2" by simp
  then show ?thesis using d oc by blast
qed

end
