(* ===== verification/Spec2Isabelle.thy ===== *)
theory Spec2Isabelle
  imports RtFfiCalls RtServed NtLoader NtSegments SvSystem HbAgreement
begin

text \<open>
  A verification library for the native Qwen3 TTS stack, the Rust code under \<open>src/native/\<close>.

  \<^bold>\<open>The program.\<close> A request for speech enters through the HTTP server (\<open>qwen3-tts-server\<close>) or through the C
  interface of the runtime. The runtime (\<open>qwen3-tts-runtime\<close>) schedules requests on one worker thread: it takes a
  slot, asks a backend to start a session, and lets the backend make one packet of PCM per turn, which the
  client polls from a bounded queue. The production backend joins the talker (\<open>qwen3-tts-native\<close>: tokenizer, prompt,
  model sessions, batch pump) to the codec (\<open>qwen3-tts-native-codec\<close>) through host memory or through a CUDA
  packet stager; weights come from a packed artifact that is verified when it is opened. The benchmark client
  (\<open>qwen3-tts-http-bench\<close>) is the other end of the wire: it reads the server's responses and reports what it saw.

  \<^bold>\<open>Shared theories.\<close> \<open>Prelude\<close>: machine integers, errors and panics as values (\<open>'e + 'a\<close>, \<open>unwind\<close>), checked and
  saturating arithmetic, UTF-8, text and byte order of the standard library. \<open>RustFloat\<close>: IEEE values by exact
  rounding. \<open>Json\<close>: the documented value type of \<open>serde_json\<close>.

  \<^bold>\<open>Runtime\<close> (\<open>qwen3-tts-runtime/src\<close>).
  \<^item> \<open>RtTypes\<close>: \<open>types.rs\<close>, \<open>lib.rs\<close>; \<open>RtRequest\<close>: \<open>request.rs\<close>, with the queue as the locale \<open>bounded_fifo\<close>.
  \<^item> \<open>RtShared\<close>, \<open>RtHandle\<close>, \<open>RtWorker\<close>: \<open>scheduler.rs\<close>, one definition per critical section; \<open>RtBackendApi\<close>: the
    \<open>StreamingBackend\<close> trait, with the locale \<open>borrowing_backend\<close> for what Rust's borrows guarantee of it. A step
    relation over any number of clients and the worker is in \<open>RtSystem\<close>; \<open>RtEffects\<close>, \<open>RtSlots\<close>, \<open>RtBuffers\<close>,
    \<open>RtPacketStream\<close>, \<open>RtStreams\<close>, \<open>RtDelivery\<close>, \<open>RtShutdown\<close>, \<open>RtProgress\<close> hold its invariants, \<open>RtRun\<close> an executable
    worker that makes steps of the relation, \<open>RtProperties\<close> what a client can rely on: one contiguous valid
    stream, an end only after the final packet, conserved slots and buffers, no error branch that can
    be reached by a correct backend, an end of the worker after a shutdown. \<open>RtContain\<close> follows a panic of the
    backend: what becomes of each selected request in every interleaving (\<open>abort_step\<close>), and the one request a
    dying worker can lose, a start still in the channel when it closes (\<open>retirement_sound\<close>).
  \<^item> \<open>RtStager\<close>: \<open>cuda_packet_stager.rs\<close>; \<open>RtBackend\<close>, \<open>RtBackendStep\<close>: \<open>native_backend.rs\<close>; \<open>RtNative\<close> shows that this backend
    refines the contract the scheduler asks of a backend, by interpretation and by a theorem on every step. \<open>RtServed\<close> adds that a started request is served to its end
    when the native libraries answer, a named contract for the host path and for the device path each.
  \<^item> \<open>RtFfi\<close>: \<open>ffi.rs\<close>, \<open>ffi_support.rs\<close> over a typed caller heap; \<open>RtFfiCalls\<close>: what each exported call reports and leaves
    in the error buffer, that none panics on reachable schedulers, and that a poll, whatever it waits for, writes
    inside the caller's buffer. A wait is any run of the scheduler system (\<open>waits_in_system\<close>).

  \<^bold>\<open>Talker and codec.\<close> \<open>NtTokenizer\<close>: \<open>tokenizer.rs\<close>, with \<open>NtSegments\<close> for the cuts at added tokens; \<open>NtPrompt\<close>: \<open>config.rs\<close>, \<open>prompt.rs\<close>; \<open>NtTalker\<close>, \<open>NtDecode\<close>, \<open>NtPump\<close>:
  \<open>native_talker.rs\<close>, with \<open>NtProperties\<close>, \<open>NtHandles\<close>, \<open>NtGenerate\<close> for frame order, the conservation of native handles over
  any number of sessions and whole utterances; \<open>NtSha\<close>: \<open>sha256.rs\<close>; \<open>NtContract\<close>: \<open>contract.rs\<close>; \<open>NtArtifact\<close>: the packer
  \<open>artifact.rs\<close> and the loader's index; \<open>NtLoader\<close>: \<open>loader.rs\<close>. \<open>CdCodec\<close>: the codec's \<open>ffi.rs\<close>; \<open>CdWeights\<close>: its \<open>model.rs\<close>.

  \<^bold>\<open>Server\<close> (\<open>qwen3-tts-server/src\<close>). \<open>SvConfig\<close>: \<open>config.rs\<close> and the settings of \<open>main.rs\<close>; \<open>SvApi\<close>: \<open>api.rs\<close>; \<open>SvEngine\<close>: \<open>engine.rs\<close>;
  \<open>SvResponse\<close>: \<open>multipart.rs\<close>, \<open>wav.rs\<close>, \<open>error.rs\<close>, \<open>metrics.rs\<close>; \<open>SvWorker\<close>, \<open>SvServer\<close>: \<open>server.rs\<close>. \<open>SvApi\<close> shows that what it accepts the
  runtime accepts; \<open>SvStream\<close> that a streaming body is well formed whatever the engine does and that the
  server's checks pass everything the scheduler delivers; \<open>SvSystem\<close> interleaves handlers and workers and
  shows the accounts and the precision of cancellation.

  \<^bold>\<open>Benchmark client\<close> (\<open>qwen3-tts-http-bench/src\<close>). \<open>HbHttp\<close>: \<open>http.rs\<close>; \<open>HbMultipart\<close>: \<open>multipart.rs\<close>; \<open>HbModel\<close>: \<open>model.rs\<close>;
  \<open>HbWav\<close>: \<open>wav.rs\<close>; \<open>HbRunner\<close>, \<open>HbOutcome\<close>: the reading half of \<open>runner.rs\<close> and \<open>url.rs\<close>; \<open>HbReport\<close>: its runs, \<open>report.rs\<close> and
  \<open>phase_events.rs\<close>. \<open>HbBody\<close> shows that a response is read whole in each transfer mode, \<open>HbParts\<close> that a multipart
  part is read back as written, both however the connection cuts the bytes; \<open>HbExchange\<close> and \<open>HbAgreement\<close> join the
  client to the server's own workers: what a completed worker wrote is what the client reports. \<open>HbReport\<close>
  shows that a run reports every planned request once, whatever fails.

  \<^bold>\<open>Correspondence.\<close> A struct is a record, an enum a datatype, an operation a definition of the same name; where a
  name clashes with another theory's it carries a prefix. A method that locks is one step, so the
  interleavings are those of the code's critical sections. Every early return, error and panic of the
  source is a branch: errors are the left of a sum, a panic is \<open>Panicked\<close> (in the client, an error of its own),
  and a wait that may last is \<open>None\<close> of an option.

  \<^bold>\<open>Fuel and bounds.\<close> Loops over finite data are total functions with measures; the client's reading loops end
  because each step shrinks what the connection still holds. Fuel stands only where another party decides how
  long to wait: the waits of a client of the runtime (\<open>handle_poll\<close>, \<open>cancel_and_wait\<close>), the server's loops that drain a
  request, and the standalone \<open>drain_commands\<close> and \<open>drain_final\<close>, to which handling a command can add commands. \<open>None\<close>
  then means still at it, and statements about results hold for every fuel that suffices. The step relation,
  on which the runtime's properties rest, has no fuel: each turn of such a loop is a step, and that the worker
  comes to its end is the theorem \<open>shutdown_terminates\<close>. \<open>encode_loop\<close> is a partial function, because it
  does not end for an empty added token; \<open>encode_total\<close> shows that it does otherwise.

  \<^bold>\<open>Arguments of the model.\<close> The CUDA libraries and the CUDA runtime are functions on states of their own, under the
  named hypotheses that their documentation gives (such as \<open>library_accounts\<close> and \<open>native_answers\<close>). So are the JSON and SafeTensors
  parsers, Unicode normalisation and the regular expressions, UUIDs, the rendering of floats and of debug texts, the
  \<open>sha2\<close> digest of the client, name resolution, tokio and axum (channels, timers, routing) and the clocks. The file
  tree does not change while an artifact is opened. The threads of one batch run one after the other, on
  arbitrary states of the library. A client's connection is the list of what arrives on it.

  \<^bold>\<open>Not modelled.\<close> The CUDA C++ kernels and the codec's older single-stream interface, which only its validation
  program uses; the command-line programs (validation, packing, uploading, smoke and session benchmarks, the
  C-interface benchmark, health check), which parse arguments, measure and print around the modelled libraries;
  copying files and staging directories in the packer; signals, sockets and logging of the server's \<open>main\<close>;
  writing files and the lexical comparison of paths in the client's reports; measured durations inside the
  talker, which no decision of the code depends on.
\<close>

end
